(* ===== verification/Prelude.thy ===== *)
theory Prelude
  imports Main "HOL-Library.Word" "HOL-Library.Multiset" "HOL-Library.Char_ord" "HOL-Library.List_Lexorder"
    "HOL-Library.Product_Lexorder" "HOL-Library.Option_ord"
begin

text \<open>
  Vocabulary shared by every theory of the development: identifiers, instants, the errors the
  code raises, results that carry an error, and tables as lists of rows with the SQL operations
  the repositories use (select, first row, update, order, limit).

  \<^item> A UUID is a 128-bit word, printed as the 8-4-4-4-12 lower-case hexadecimal form of
    \<open>str(uuid)\<close>.
  \<^item> An instant is a number of microseconds, the resolution of \<open>timestamptz\<close>.
  \<^item> A Python \<open>str\<close> is a list of characters; the characters are the code points below 256.
  \<^item> An operation that may raise returns \<open>'a res\<close>: \<open>Inl\<close> of the exception, or \<open>Inr\<close>.
    The repositories run every operation in one transaction (\<open>async with connection\<close>), which is
    rolled back when an exception leaves the block: the \<open>Inl\<close> case carries no new state.
\<close>

section \<open>Identifiers, instants, errors\<close>

type_synonym uuid = "128 word"
type_synonym time = int

datatype err =
    HTTPException nat
  | ValueError string
  | TypeError string
  | KeyError string
  | ToolContractError string
  | UniqueViolation string
  | CheckViolation string
  | RaiseException string
  | ProviderError string bool
  | SpendPricingError string
  | RunTaskError string
  | SpendLimitExceeded string

type_synonym 'a res = "err + 'a"

definition seconds :: "int \<Rightarrow> time" where
  "seconds n = n * 1000000"

lemma seconds_pos [simp]: "0 < seconds n \<longleftrightarrow> 0 < n"
  by (simp add: seconds_def)

named_theorems row_simps
  \<open>what the operations on one table do to the rows another operation reads\<close>
named_theorems step_intros
  \<open>how each operation keeps a row invariant\<close>

section \<open>Results\<close>

definition bind_res :: "'a res \<Rightarrow> ('a \<Rightarrow> 'b res) \<Rightarrow> 'b res" where
  "bind_res m f = (case m of Inl e \<Rightarrow> Inl e | Inr x \<Rightarrow> f x)"

lemma bind_res_simps [simp]:
  "bind_res (Inl e) f = Inl e"
  "bind_res (Inr x) f = f x"
  by (simp_all add: bind_res_def)

lemma bind_res_Inr [simp]:
  "bind_res m f = Inr y \<longleftrightarrow> (\<exists>x. m = Inr x \<and> f x = Inr y)"
  by (cases m) simp_all

lemma bind_res_Inl:
  "bind_res m f = Inl e \<longleftrightarrow> m = Inl e \<or> (\<exists>x. m = Inr x \<and> f x = Inl e)"
  by (cases m) simp_all

lemma bind_res_if: "bind_res (if b then m else n) f = (if b then bind_res m f else bind_res n f)"
  by simp

lemma bind_res_split:
  "P (bind_res m f) \<longleftrightarrow> (\<forall>e. m = Inl e \<longrightarrow> P (Inl e)) \<and> (\<forall>x. m = Inr x \<longrightarrow> P (f x))"
  by (cases m) simp_all

definition is_ok :: "'a res \<Rightarrow> bool" where
  "is_ok m = (case m of Inl _ \<Rightarrow> False | Inr _ \<Rightarrow> True)"

lemma is_ok_simps [simp]: "is_ok (Inr x)" "\<not> is_ok (Inl e)"
  by (simp_all add: is_ok_def)

lemma is_ok_iff: "is_ok m \<longleftrightarrow> (\<exists>x. m = Inr x)"
  by (cases m) simp_all

text \<open>\<open>guard_res b e\<close> is the statement \<open>if not b: raise e\<close>.\<close>

definition guard_res :: "bool \<Rightarrow> err \<Rightarrow> unit res" where
  "guard_res b e = (if b then Inr () else Inl e)"

lemma guard_res_simps [simp]:
  "guard_res b e = Inr u \<longleftrightarrow> b"
  "guard_res b e = Inl e' \<longleftrightarrow> \<not> b \<and> e = e'"
  by (simp_all add: guard_res_def)

text \<open>A \<open>for\<close> loop that may raise: the first exception ends it.\<close>

fun each_res :: "('a \<Rightarrow> unit res) \<Rightarrow> 'a list \<Rightarrow> unit res" where
  "each_res f [] = Inr ()"
| "each_res f (x # xs) = bind_res (f x) (\<lambda>_. each_res f xs)"

lemma each_res_Inr [simp]: "each_res f xs = Inr u \<longleftrightarrow> (\<forall>x \<in> set xs. f x = Inr ())"
  by (induction xs) auto

text \<open>A comprehension whose element may raise: the first error, or every value in order.\<close>

fun map_res :: "('a \<Rightarrow> 'b res) \<Rightarrow> 'a list \<Rightarrow> 'b list res" where
  "map_res f [] = Inr []"
| "map_res f (x # xs) = bind_res (f x) (\<lambda>y. bind_res (map_res f xs) (\<lambda>ys. Inr (y # ys)))"

lemma each_res_cong [fundef_cong]:
  assumes "xs = ys" and "\<And>x. x \<in> set ys \<Longrightarrow> f x = g x"
  shows "each_res f xs = each_res g ys"
proof -
  have "each_res f ys = each_res g ys" using assms(2) by (induction ys) auto
  with assms(1) show ?thesis by simp
qed

lemma bind_res_cong [fundef_cong]:
  assumes "m = n" and "\<And>x. n = Inr x \<Longrightarrow> f x = g x"
  shows "bind_res m f = bind_res n g"
  using assms by (cases n) auto

text \<open>A transaction on a state: run it, or keep the state when it raised (the rollback).\<close>

definition commit :: "('s \<Rightarrow> ('a \<times> 's) res) \<Rightarrow> 's \<Rightarrow> 's" where
  "commit tx s = (case tx s of Inl _ \<Rightarrow> s | Inr (_, s') \<Rightarrow> s')"

lemma commit_Inl [simp]: "tx s = Inl e \<Longrightarrow> commit tx s = s"
  by (simp add: commit_def)

lemma commit_Inr [simp]: "tx s = Inr (x, s') \<Longrightarrow> commit tx s = s'"
  by (simp add: commit_def)

lemma commit_keeps:
  assumes "P s" and "\<And>x s'. tx s = Inr (x, s') \<Longrightarrow> P s'"
  shows "P (commit tx s)"
  using assms by (cases "tx s") auto

section \<open>Tables\<close>

text \<open>
  A table is the list of its rows. \<open>sql_update p f t\<close> is \<open>UPDATE t SET f WHERE p\<close>;
  \<open>find p t\<close> is the first row of \<open>SELECT * FROM t WHERE p\<close> (\<open>fetchone\<close>);
  \<open>filter p t\<close> is all of them (\<open>fetchall\<close>); \<open>rowcount\<close> counts the rows an update matched.
\<close>

definition sql_update :: "('r \<Rightarrow> bool) \<Rightarrow> ('r \<Rightarrow> 'r) \<Rightarrow> 'r list \<Rightarrow> 'r list" where
  "sql_update p f t = map (\<lambda>r. if p r then f r else r) t"

definition rowcount :: "('r \<Rightarrow> bool) \<Rightarrow> 'r list \<Rightarrow> nat" where
  "rowcount p t = length (filter p t)"

definition sql_exists :: "('r \<Rightarrow> bool) \<Rightarrow> 'r list \<Rightarrow> bool" where
  "sql_exists p t = list_ex p t"

lemma sql_exists_iff: "sql_exists p t \<longleftrightarrow> (\<exists>r \<in> set t. p r)"
  by (simp add: sql_exists_def list_ex_iff)

lemma sql_update_Nil [simp]: "sql_update p f [] = []"
  by (simp add: sql_update_def)

lemma sql_update_Cons [simp]:
  "sql_update p f (r # t) = (if p r then f r else r) # sql_update p f t"
  by (simp add: sql_update_def)

lemma sql_update_append [simp]:
  "sql_update p f (t @ u) = sql_update p f t @ sql_update p f u"
  by (simp add: sql_update_def)

lemma length_sql_update [simp]: "length (sql_update p f t) = length t"
  by (simp add: sql_update_def)

lemma set_sql_update: "set (sql_update p f t) = (\<lambda>r. if p r then f r else r) ` set t"
  by (simp add: sql_update_def)

lemma sql_update_keys:
  assumes "\<And>r. key (f r) = key r"
  shows "map key (sql_update p f t) = map key t"
  using assms by (induction t) simp_all

lemma find_sql_update:
  assumes "\<And>r. key (f r) = key r"
  shows "find (\<lambda>r. key r = k) (sql_update p f t) =
    map_option (\<lambda>r. if p r then f r else r) (find (\<lambda>r. key r = k) t)"
  using assms by (induction t) auto

lemma find_append:
  "find p (t @ u) = (case find p t of None \<Rightarrow> find p u | Some r \<Rightarrow> Some r)"
  by (induction t) auto

lemma find_SomeD: "find p t = Some r \<Longrightarrow> p r \<and> r \<in> set t"
  by (induction t) (auto split: if_splits)

lemma find_Some_iff_unique:
  assumes "distinct (map key t)"
  shows "find (\<lambda>r. key r = k) t = Some r \<longleftrightarrow> r \<in> set t \<and> key r = k"
  using assms by (induction t) (auto split: if_splits)

lemma find_unique_conj:
  assumes "distinct (map key t)" and "r \<in> set t" and "key r = k" and "p r"
  shows "find (\<lambda>r. key r = k \<and> p r) t = Some r"
  using assms by (induction t) (auto split: if_splits)

lemma rows_sql_updateI:
  assumes "\<And>r. r \<in> set t \<Longrightarrow> \<not> p r \<Longrightarrow> P r" and "\<And>r. r \<in> set t \<Longrightarrow> p r \<Longrightarrow> P (f r)"
  shows "\<forall>r \<in> set (sql_update p f t). P r"
  using assms by (auto simp: set_sql_update)

text \<open>A comprehension with a condition.\<close>

lemma map_filter_mem: "y \<in> set (List.map_filter f xs) \<longleftrightarrow> (\<exists>x \<in> set xs. f x = Some y)"
  by (force simp: map_filter_def)

lemma rowcount_pos_iff: "rowcount p t = 0 \<longleftrightarrow> (\<forall>r \<in> set t. \<not> p r)"
  by (simp add: rowcount_def filter_empty_conv)

lemma rowcount_unique_le1:
  assumes "distinct (map key t)" and "\<And>r. p r \<Longrightarrow> key r = k"
  shows "rowcount p t \<le> 1"
  using assms
proof (induction t)
  case Nil
  then show ?case by (simp add: rowcount_def)
next
  case (Cons r t)
  show ?case
  proof (cases "p r")
    case True
    with Cons.prems have "\<forall>x \<in> set t. \<not> p x" by force
    with True show ?thesis by (simp add: rowcount_def)
  next
    case False
    with Cons show ?thesis by (simp add: rowcount_def)
  qed
qed

lemma filter_sql_update_drop:
  assumes "\<And>x. x \<in> set t \<Longrightarrow> q x \<Longrightarrow> \<not> p (f x)"
  shows "filter p (sql_update q f t) = filter (\<lambda>x. p x \<and> \<not> q x) t"
  using assms by (induction t) auto

lemma filter_sql_update_keep:
  assumes "\<And>x. x \<in> set t \<Longrightarrow> q x \<Longrightarrow> p (f x) = p x"
  shows "filter p (sql_update q f t) = sql_update q f (filter p t)"
  using assms by (induction t) auto

lemma sql_update_id:
  assumes "\<And>x. x \<in> set t \<Longrightarrow> q x \<Longrightarrow> f x = x"
  shows "sql_update q f t = t"
  using assms by (induction t) auto

lemma sql_update_none:
  assumes "\<And>x. x \<in> set t \<Longrightarrow> \<not> q x"
  shows "sql_update q f t = t"
  using assms by (induction t) auto

lemma length_le1_of_key:
  assumes "distinct (map key xs)" and "\<And>x. x \<in> set xs \<Longrightarrow> key x = k"
  shows "length xs \<le> 1"
proof (cases xs)
  case Nil
  then show ?thesis by simp
next
  case (Cons x ys)
  with assms show ?thesis by (cases ys) auto
qed

lemma distinct_map_filter_key: "distinct (map key xs) \<Longrightarrow> distinct (map key (filter p xs))"
  by (induction xs) auto

lemma singleton_of_member: "x \<in> set xs \<Longrightarrow> length xs \<le> 1 \<Longrightarrow> xs = [x]"
  by (cases xs) auto

section \<open>ORDER BY and LIMIT\<close>

text \<open>\<open>SELECT ... WHERE p ORDER BY k LIMIT n\<close>: a stable sort of the matching rows.\<close>

definition order_limit :: "('r \<Rightarrow> 'k::linorder) \<Rightarrow> nat \<Rightarrow> ('r \<Rightarrow> bool) \<Rightarrow> 'r list \<Rightarrow> 'r list" where
  "order_limit k n p t = take n (sort_key k (filter p t))"

lemma order_limit_subset: "set (order_limit k n p t) \<subseteq> {r \<in> set t. p r}"
  using set_take_subset[of n "sort_key k (filter p t)"] by (auto simp: order_limit_def)

lemma order_limit_memD: "r \<in> set (order_limit k n p t) \<Longrightarrow> r \<in> set t \<and> p r"
  using order_limit_subset[of k n p t] by blast

lemma order_limit_length: "length (order_limit k n p t) \<le> n"
  by (simp add: order_limit_def)

lemma order_limit_sorted: "sorted (map k (order_limit k n p t))"
  by (simp add: order_limit_def take_map[symmetric] sorted_wrt_take)

lemma order_limit_all:
  assumes "length (filter p t) \<le> n"
  shows "set (order_limit k n p t) = {r \<in> set t. p r}"
  using assms by (simp add: order_limit_def)

lemma distinct_order_limit:
  assumes "distinct (map key t)"
  shows "distinct (map key (order_limit k n p t))"
proof -
  have "distinct (map key (filter p t))"
    using assms by (induction t) auto
  then have "distinct (map key (sort_key k (filter p t)))"
    by (simp add: distinct_map)
  then show ?thesis
    by (simp add: order_limit_def take_map[symmetric])
qed

text \<open>
  A page query takes the rows before the limit only: every row it leaves out is not smaller in
  the order than every row it returns.
\<close>

lemma order_limit_least:
  assumes "x \<in> set (order_limit k n p t)" and "y \<in> set t" and "p y"
    and "y \<notin> set (order_limit k n p t)"
  shows "k x \<le> k y"
proof -
  let ?s = "sort_key k (filter p t)"
  have "y \<in> set ?s" using assms(2,3) by simp
  moreover have "?s = take n ?s @ drop n ?s" by simp
  ultimately have "y \<in> set (drop n ?s)"
    using assms(4) unfolding order_limit_def by (metis Un_iff set_append)
  moreover have "sorted (map k (take n ?s @ drop n ?s))" by simp
  ultimately show ?thesis
    using assms(1) unfolding order_limit_def map_append sorted_append by auto
qed

section \<open>Printing numbers and identifiers\<close>

text \<open>\<open>str(n)\<close> of an integer, and \<open>str(u)\<close> of a UUID.\<close>

definition digit_char :: "nat \<Rightarrow> char" where
  "digit_char n = (if n < 10 then char_of (48 + n) else char_of (87 + n))"

fun nat_str :: "nat \<Rightarrow> string" where
  "nat_str n = (if n < 10 then [digit_char n] else nat_str (n div 10) @ [digit_char (n mod 10)])"

declare nat_str.simps [simp del]

definition int_str :: "int \<Rightarrow> string" where
  "int_str i = (if i < 0 then ''-'' @ nat_str (nat (- i)) else nat_str (nat i))"

fun hex_digits :: "nat \<Rightarrow> nat \<Rightarrow> string" where
  "hex_digits 0 n = []"
| "hex_digits (Suc k) n = hex_digits k (n div 16) @ [digit_char (n mod 16)]"

definition uuid_str :: "uuid \<Rightarrow> string" where
  "uuid_str u =
    (let h = hex_digits 32 (unat u)
     in take 8 h @ ''-'' @ take 4 (drop 8 h) @ ''-'' @ take 4 (drop 12 h) @ ''-''
        @ take 4 (drop 16 h) @ ''-'' @ drop 20 h)"

lemma of_char_digit_char:
  assumes "n < 16"
  shows "(of_char (digit_char n) :: nat) = (if n < 10 then 48 + n else 87 + n)"
  using assms by (simp add: digit_char_def)

lemma digit_char_inj:
  assumes "m < 16" and "n < 16" and "digit_char m = digit_char n"
  shows "m = n"
proof -
  have "(if m < 10 then 48 + m else 87 + m) = (if n < 10 then 48 + n else (87::nat) + n)"
    using of_char_digit_char[OF assms(1)] of_char_digit_char[OF assms(2)]
    unfolding assms(3) by (rule trans[OF sym])
  with assms(1,2) show ?thesis by (simp split: if_splits)
qed

lemma digit_char_not: "n < 16 \<Longrightarrow> digit_char n \<noteq> CHR '':''"
proof
  assume "n < 16" and "digit_char n = CHR '':''"
  then have "(58::nat) = (if n < 10 then 48 + n else 87 + n)"
    using of_char_digit_char[of n] by simp
  then show False by (simp split: if_splits)
qed

lemma nat_str_nonempty: "nat_str n \<noteq> []"
  by (subst nat_str.simps) simp

lemma nat_str_short: "length (nat_str n) = 1 \<longleftrightarrow> n < 10"
proof (cases "n < 10")
  case True
  then show ?thesis by (simp add: nat_str.simps[of n])
next
  case False
  with nat_str_nonempty[of "n div 10"] show ?thesis
    by (simp add: nat_str.simps[of n])
qed

lemma mod10_less16: "n mod 10 < (16::nat)"
  using mod_less_divisor[of 10 n] by linarith

lemma nat_str_inj: "nat_str m = nat_str n \<Longrightarrow> m = n"
proof (induction m arbitrary: n rule: nat_str.induct)
  case (1 m)
  have same: "m < 10 \<longleftrightarrow> n < 10"
    using "1.prems" nat_str_short[of m] nat_str_short[of n] by simp
  show ?case
  proof (cases "m < 10")
    case True
    with "1.prems" same show ?thesis
      by (simp add: nat_str.simps[of m] nat_str.simps[of n] digit_char_inj)
  next
    case False
    with "1.prems" same have "nat_str (m div 10) = nat_str (n div 10)"
      and "digit_char (m mod 10) = digit_char (n mod 10)"
      by (simp_all add: nat_str.simps[of m] nat_str.simps[of n])
    then have "m div 10 = n div 10" "m mod 10 = n mod 10"
      using "1.IH"[OF False] digit_char_inj mod10_less16 by blast+
    then show ?thesis by (metis div_mult_mod_eq)
  qed
qed

lemma nat_str_no_colon: "CHR '':'' \<notin> set (nat_str n)"
proof (induction n rule: nat_str.induct)
  case (1 n)
  show ?case
  proof (cases "n < 10")
    case True
    then show ?thesis using digit_char_not[of n] by (subst nat_str.simps) simp
  next
    case False
    with "1.IH" show ?thesis
      using digit_char_not[OF mod10_less16, of n] by (subst nat_str.simps) simp
  qed
qed

lemma length_hex_digits [simp]: "length (hex_digits k n) = k"
  by (induction k arbitrary: n) simp_all

lemma split_uuid_hex:
  assumes "length h = 32"
  shows "h = take 8 h @ take 4 (drop 8 h) @ take 4 (drop 12 h) @ take 4 (drop 16 h) @ drop 20 h"
proof -
  have step: "drop i h = take j (drop i h) @ drop (i + j) h" for i j
    by (metis append_take_drop_id drop_drop add.commute)
  from step[of 0 8] step[of 8 4] step[of 12 4] step[of 16 4] show ?thesis
    by simp
qed

lemma hex_digits_inj:
  "hex_digits k m = hex_digits k n \<Longrightarrow> m mod 16 ^ k = n mod 16 ^ k"
proof (induction k arbitrary: m n)
  case 0
  then show ?case by simp
next
  case (Suc k)
  from Suc.prems have "hex_digits k (m div 16) = hex_digits k (n div 16)"
    and "m mod 16 = n mod 16"
    using digit_char_inj[of "m mod 16" "n mod 16"] by simp_all
  with Suc.IH have "m div 16 mod 16 ^ k = n div 16 mod 16 ^ k" by blast
  with \<open>m mod 16 = n mod 16\<close> show ?case
    by (simp add: mod_mult2_eq)
qed

lemma hex_digits_no_colon: "CHR '':'' \<notin> set (hex_digits k n)"
  using digit_char_not by (induction k arbitrary: n) (auto simp: eq_commute)

lemma length_uuid_str [simp]: "length (uuid_str u) = 36"
  by (simp add: uuid_str_def Let_def)

lemma uuid_str_no_colon: "CHR '':'' \<notin> set (uuid_str u)"
  using hex_digits_no_colon[of 32 "unat u"]
  by (auto simp: uuid_str_def Let_def dest!: in_set_takeD in_set_dropD)

lemma uuid_str_inj: "uuid_str u = uuid_str v \<Longrightarrow> u = v"
proof -
  assume eq: "uuid_str u = uuid_str v"
  let ?a = "hex_digits 32 (unat u)" and ?b = "hex_digits 32 (unat v)"
  from eq have "take 8 ?a = take 8 ?b" "take 4 (drop 8 ?a) = take 4 (drop 8 ?b)"
    "take 4 (drop 12 ?a) = take 4 (drop 12 ?b)" "take 4 (drop 16 ?a) = take 4 (drop 16 ?b)"
    "drop 20 ?a = drop 20 ?b"
    by (simp_all add: uuid_str_def Let_def append_eq_append_conv)
  then have "?a = ?b"
    using split_uuid_hex[of ?a] split_uuid_hex[of ?b] by simp
  then have "unat u mod 16 ^ 32 = unat v mod 16 ^ 32" by (rule hex_digits_inj)
  moreover have "unat w < 16 ^ 32" for w :: uuid
    using unsigned_less[of w] by simp
  ultimately show "u = v" by (simp add: word_unat_eq_iff)
qed

text \<open>A \<open>dict\<close> read from JSON is an association list; \<open>dict.get\<close> is \<open>map_of\<close>.\<close>

definition dict_keys :: "('k \<times> 'v) list \<Rightarrow> 'k list" where
  "dict_keys d = map fst d"

end
