(* ===== verification/Sha256.thy ===== *)
theory Sha256
  imports Prelude
begin

text \<open>
  \<open>hashlib.sha256\<close> as the repository uses it: the digest of the UTF-8 bytes of a string, read as
  bytes (\<open>digest()\<close>) or as lower-case hexadecimal (\<open>hexdigest()\<close>). The definition follows
  FIPS 180-4 on 32-bit words. The theorems about the code use only that it is a function and that
  it returns 32 bytes, and assume for two given inputs, where they need it, that they do not collide.
\<close>

unbundle bit_operations_syntax

section \<open>UTF-8\<close>

text \<open>\<open>s.encode("utf-8")\<close>: one byte below 128, two bytes for the code points 128 to 255.\<close>

definition utf8_char :: "char \<Rightarrow> nat list" where
  "utf8_char c = (let n = of_char c :: nat in if n < 128 then [n] else [192 + n div 64, 128 + n mod 64])"

definition utf8 :: "string \<Rightarrow> nat list" where
  "utf8 s = concat (map utf8_char s)"

lemma utf8_Nil [simp]: "utf8 [] = []"
  by (simp add: utf8_def)

lemma utf8_append [simp]: "utf8 (s @ t) = utf8 s @ utf8 t"
  by (simp add: utf8_def)

lemma utf8_length_bounds: "length s \<le> length (utf8 s) \<and> length (utf8 s) \<le> 2 * length s"
  by (induction s) (auto simp: utf8_def utf8_char_def Let_def)

section \<open>The compression function\<close>

definition rotr :: "nat \<Rightarrow> 32 word \<Rightarrow> 32 word" where
  "rotr n w = drop_bit n w OR push_bit (32 - n) w"

text \<open>The round constants, eight to a row.\<close>

definition sha_k_rows :: "nat list" where
  "sha_k_rows = [
    0x428a2f9871374491b5c0fbcfe9b5dba53956c25b59f111f1923f82a4ab1c5ed5,
    0xd807aa9812835b01243185be550c7dc372be5d7480deb1fe9bdc06a7c19bf174,
    0xe49b69c1efbe47860fc19dc6240ca1cc2de92c6f4a7484aa5cb0a9dc76f988da,
    0x983e5152a831c66db00327c8bf597fc7c6e00bf3d5a7914706ca635114292967,
    0x27b70a852e1b21384d2c6dfc53380d13650a7354766a0abb81c2c92e92722c85,
    0xa2bfe8a1a81a664bc24b8b70c76c51a3d192e819d6990624f40e3585106aa070,
    0x19a4c1161e376c082748774c34b0bcb5391c0cb34ed8aa4a5b9cca4f682e6ff3,
    0x748f82ee78a5636f84c878148cc7020890befffaa4506cebbef9a3f7c67178f2]"

definition sha_k :: "32 word list" where
  "sha_k = concat (map (\<lambda>n. map (\<lambda>i. of_nat (n div 2 ^ (32 * (7 - i)))) [0..<8]) sha_k_rows)"

type_synonym sha_state =
  "32 word \<times> 32 word \<times> 32 word \<times> 32 word \<times> 32 word \<times> 32 word \<times> 32 word \<times> 32 word"

definition sha_init :: sha_state where
  "sha_init = (0x6a09e667, 0xbb67ae85, 0x3c6ef372, 0xa54ff53a, 0x510e527f, 0x9b05688c, 0x1f83d9ab, 0x5be0cd19)"

definition big_sigma0 :: "32 word \<Rightarrow> 32 word" where
  "big_sigma0 w = (rotr 2 w XOR rotr 13 w) XOR rotr 22 w"

definition big_sigma1 :: "32 word \<Rightarrow> 32 word" where
  "big_sigma1 w = (rotr 6 w XOR rotr 11 w) XOR rotr 25 w"

definition small_sigma0 :: "32 word \<Rightarrow> 32 word" where
  "small_sigma0 w = (rotr 7 w XOR rotr 18 w) XOR drop_bit 3 w"

definition small_sigma1 :: "32 word \<Rightarrow> 32 word" where
  "small_sigma1 w = (rotr 17 w XOR rotr 19 w) XOR drop_bit 10 w"

text \<open>The message schedule, kept as the last sixteen words, newest first.\<close>

fun sha_rounds :: "32 word list \<Rightarrow> 32 word list \<Rightarrow> sha_state \<Rightarrow> sha_state" where
  "sha_rounds [] ws st = st"
| "sha_rounds (k # ks) ws (a, b, c, d, e, f, g, h) =
    (let w = ws ! 0;
         t1 = h + big_sigma1 e + ((e AND f) XOR (NOT e AND g)) + k + w;
         t2 = big_sigma0 a + (((a AND b) XOR (a AND c)) XOR (b AND c));
         w' = small_sigma1 (ws ! 14) + ws ! 9 + small_sigma0 (ws ! 1) + ws ! 0
     in sha_rounds ks (tl ws @ [w']) (t1 + t2, a, b, c, d + t1, e, f, g))"

definition sha_add :: "sha_state \<Rightarrow> sha_state \<Rightarrow> sha_state" where
  "sha_add s t =
    (case s of (a, b, c, d, e, f, g, h) \<Rightarrow> case t of (a', b', c', d', e', f', g', h') \<Rightarrow>
      (a + a', b + b', c + c', d + d', e + e', f + f', g + g', h + h'))"

definition be_word :: "nat list \<Rightarrow> 32 word" where
  "be_word bs = of_nat (foldl (\<lambda>acc b. acc * 256 + b) 0 bs)"

fun be_words :: "nat list \<Rightarrow> 32 word list" where
  "be_words (a # b # c # d # bs) = be_word [a, b, c, d] # be_words bs"
| "be_words _ = []"

fun sha_blocks :: "nat \<Rightarrow> nat list \<Rightarrow> sha_state \<Rightarrow> sha_state" where
  "sha_blocks 0 bs st = st"
| "sha_blocks (Suc n) bs st =
    sha_blocks n (drop 64 bs) (sha_add st (sha_rounds sha_k (be_words (take 64 bs)) st))"

text \<open>Padding: a one bit, zeros, and the length in bits as a 64-bit big-endian number.\<close>

definition be_bytes :: "nat \<Rightarrow> nat \<Rightarrow> nat list" where
  "be_bytes k n = map (\<lambda>i. n div 256 ^ (k - 1 - i) mod 256) [0..<k]"

definition sha_pad :: "nat list \<Rightarrow> nat list" where
  "sha_pad bs =
    bs @ [128] @ replicate ((119 - length bs mod 64) mod 64) 0 @ be_bytes 8 (8 * length bs)"

definition sha256_bytes :: "nat list \<Rightarrow> nat list" where
  "sha256_bytes bs =
    (case sha_blocks (length (sha_pad bs) div 64) (sha_pad bs) sha_init of
      (a, b, c, d, e, f, g, h) \<Rightarrow> concat (map (\<lambda>w. be_bytes 4 (unat w)) [a, b, c, d, e, f, g, h]))"

section \<open>What the repository calls\<close>

definition sha256_digest :: "string \<Rightarrow> nat list" where
  "sha256_digest s = sha256_bytes (utf8 s)"

definition sha256_hex :: "string \<Rightarrow> string" where
  "sha256_hex s = concat (map (\<lambda>b. hex_digits 2 b) (sha256_digest s))"

text \<open>\<open>int.from_bytes(digest[:2], "big")\<close>.\<close>

definition digest_head16 :: "string \<Rightarrow> nat" where
  "digest_head16 s = foldl (\<lambda>acc b. acc * 256 + b) 0 (take 2 (sha256_digest s))"

lemma length_be_bytes [simp]: "length (be_bytes k n) = k"
  by (simp add: be_bytes_def)

lemma be_bytes_less: "b \<in> set (be_bytes k n) \<Longrightarrow> b < 256"
  by (auto simp: be_bytes_def)

lemma length_sha256 [simp]: "length (sha256_digest s) = 32"
  by (simp add: sha256_digest_def sha256_bytes_def split: prod.split)

lemma sha256_byte: "b \<in> set (sha256_digest s) \<Longrightarrow> b < 256"
  by (auto simp: sha256_digest_def sha256_bytes_def split: prod.splits dest: be_bytes_less)

lemma length_sha256_hex [simp]: "length (sha256_hex s) = 64"
proof -
  have "length (concat (map (\<lambda>b. hex_digits 2 b) bs)) = 2 * length bs" for bs
    by (induction bs) simp_all
  then show ?thesis by (simp add: sha256_hex_def)
qed

lemma two_bytes_bound:
  assumes "\<forall>b \<in> set bs. b < 256"
  shows "foldl (\<lambda>acc b. acc * 256 + b) 0 (take 2 bs) \<le> (65535::nat)"
proof (cases bs)
  case Nil
  then show ?thesis by simp
next
  case (Cons x cs)
  then show ?thesis using assms by (cases cs) auto
qed

lemma digest_head16_bound: "digest_head16 s \<le> 65535"
  unfolding digest_head16_def by (rule two_bytes_bound) (simp add: sha256_byte)

end
