(* ===== verification/Json.thy ===== *)
theory Json
  imports Complex_Main Prelude Sha256
begin

text \<open>
  JSON values as Python holds them after \<open>json.loads\<close> or a \<open>jsonb\<close> read, and
  \<open>json.dumps(value, sort_keys=True, separators=(",", ":"), ensure_ascii=False)\<close>.
  A float carries its exact value and its \<open>repr\<close>; an object keeps the insertion order of its
  keys, as a \<open>dict\<close> does.
\<close>

section \<open>Values\<close>

datatype pyfloat = Finite rat | PosInf | NegInf | NotANumber

datatype json =
    JNull
  | JBool bool
  | JInt int
  | JFloat pyfloat string
  | JStr string
  | JArr "json list"
  | JObj "(string \<times> json) list"

type_synonym dict = "(string \<times> json) list"

text \<open>An optional field, \<open>None\<close> being written as \<open>null\<close>.\<close>

definition json_opt :: "('a \<Rightarrow> json) \<Rightarrow> 'a option \<Rightarrow> json" where
  "json_opt f x = (case x of None \<Rightarrow> JNull | Some v \<Rightarrow> f v)"

fun is_dict :: "json \<Rightarrow> bool" where
  "is_dict (JObj _) = True"
| "is_dict _ = False"

fun is_list :: "json \<Rightarrow> bool" where
  "is_list (JArr _) = True"
| "is_list _ = False"

fun is_str :: "json \<Rightarrow> bool" where
  "is_str (JStr _) = True"
| "is_str _ = False"

fun is_bool :: "json \<Rightarrow> bool" where
  "is_bool (JBool _) = True"
| "is_bool _ = False"

text \<open>\<open>isinstance(x, int)\<close>: \<open>bool\<close> is a subclass of \<open>int\<close>.\<close>

fun is_int :: "json \<Rightarrow> bool" where
  "is_int (JInt _) = True"
| "is_int (JBool _) = True"
| "is_int _ = False"

fun is_float :: "json \<Rightarrow> bool" where
  "is_float (JFloat _ _) = True"
| "is_float _ = False"

fun the_dict :: "json \<Rightarrow> dict" where
  "the_dict (JObj d) = d"
| "the_dict _ = []"

fun the_list :: "json \<Rightarrow> json list" where
  "the_list (JArr xs) = xs"
| "the_list _ = []"

fun the_str :: "json \<Rightarrow> string" where
  "the_str (JStr s) = s"
| "the_str _ = []"

section \<open>Comparison\<close>

text \<open>
  The number a value compares as. \<open>True\<close> is 1 and an \<open>int\<close> is compared with a \<open>float\<close>
  exactly; no comparison with a not-a-number holds.
\<close>

fun py_number :: "json \<Rightarrow> pyfloat option" where
  "py_number (JBool b) = Some (Finite (if b then 1 else 0))"
| "py_number (JInt i) = Some (Finite (of_int i))"
| "py_number (JFloat x _) = Some x"
| "py_number _ = None"

fun float_eq :: "pyfloat \<Rightarrow> pyfloat \<Rightarrow> bool" where
  "float_eq (Finite p) (Finite q) = (p = q)"
| "float_eq PosInf PosInf = True"
| "float_eq NegInf NegInf = True"
| "float_eq _ _ = False"

fun float_less :: "pyfloat \<Rightarrow> pyfloat \<Rightarrow> bool" where
  "float_less (Finite p) (Finite q) = (p < q)"
| "float_less NegInf (Finite _) = True"
| "float_less NegInf PosInf = True"
| "float_less (Finite _) PosInf = True"
| "float_less _ _ = False"

definition py_less :: "json \<Rightarrow> json \<Rightarrow> bool" where
  "py_less a b =
    (case (py_number a, py_number b) of (Some p, Some q) \<Rightarrow> float_less p q | _ \<Rightarrow> False)"

fun py_eq :: "json \<Rightarrow> json \<Rightarrow> bool"
  and py_eq_list :: "json list \<Rightarrow> json list \<Rightarrow> bool"
  and py_eq_items :: "dict \<Rightarrow> dict \<Rightarrow> bool" where
  "py_eq JNull b = (b = JNull)"
| "py_eq (JStr s) b = (b = JStr s)"
| "py_eq (JArr xs) b = (case b of JArr ys \<Rightarrow> py_eq_list xs ys | _ \<Rightarrow> False)"
| "py_eq (JObj d) b =
    (case b of JObj e \<Rightarrow> length d = length e \<and> py_eq_items d e | _ \<Rightarrow> False)"
| "py_eq (JBool x) b =
    (case py_number b of Some q \<Rightarrow> float_eq (Finite (if x then 1 else 0)) q | None \<Rightarrow> False)"
| "py_eq (JInt i) b =
    (case py_number b of Some q \<Rightarrow> float_eq (Finite (of_int i)) q | None \<Rightarrow> False)"
| "py_eq (JFloat p _) b =
    (case py_number b of Some q \<Rightarrow> float_eq p q | None \<Rightarrow> False)"
| "py_eq_list [] ys = (ys = [])"
| "py_eq_list (x # xs) ys = (case ys of [] \<Rightarrow> False | y # ys' \<Rightarrow> py_eq x y \<and> py_eq_list xs ys')"
| "py_eq_items [] e = True"
| "py_eq_items ((k, v) # d) e =
    ((case map_of e k of None \<Rightarrow> False | Some w \<Rightarrow> py_eq v w) \<and> py_eq_items d e)"

section \<open>Well-formed values\<close>

text \<open>The keys of every \<open>dict\<close> are distinct, and no float of the value is NaN or infinite.\<close>

fun keys_distinct :: "json \<Rightarrow> bool"
  and keys_distinct_list :: "json list \<Rightarrow> bool"
  and keys_distinct_items :: "dict \<Rightarrow> bool" where
  "keys_distinct (JArr xs) = keys_distinct_list xs"
| "keys_distinct (JObj d) = (distinct (map fst d) \<and> keys_distinct_items d)"
| "keys_distinct _ = True"
| "keys_distinct_list [] = True"
| "keys_distinct_list (x # xs) = (keys_distinct x \<and> keys_distinct_list xs)"
| "keys_distinct_items [] = True"
| "keys_distinct_items ((k, v) # d) = (keys_distinct v \<and> keys_distinct_items d)"

fun all_finite :: "json \<Rightarrow> bool"
  and all_finite_list :: "json list \<Rightarrow> bool"
  and all_finite_items :: "dict \<Rightarrow> bool" where
  "all_finite (JFloat x _) = (case x of Finite _ \<Rightarrow> True | _ \<Rightarrow> False)"
| "all_finite (JArr xs) = all_finite_list xs"
| "all_finite (JObj d) = all_finite_items d"
| "all_finite _ = True"
| "all_finite_list [] = True"
| "all_finite_list (x # xs) = (all_finite x \<and> all_finite_list xs)"
| "all_finite_items [] = True"
| "all_finite_items ((k, v) # d) = (all_finite v \<and> all_finite_items d)"

section \<open>json.dumps\<close>

text \<open>The escapes of \<open>ensure_ascii=False\<close>: quote, backslash and the control characters.\<close>

definition json_escape :: "char \<Rightarrow> string" where
  "json_escape c =
    (let n = of_char c :: nat
     in if n = 34 then [char_of (92::nat), char_of (34::nat)]
        else if n = 92 then [char_of (92::nat), char_of (92::nat)]
        else if n = 8 then char_of (92::nat) # ''b''
        else if n = 9 then char_of (92::nat) # ''t''
        else if n = 10 then char_of (92::nat) # ''n''
        else if n = 12 then char_of (92::nat) # ''f''
        else if n = 13 then char_of (92::nat) # ''r''
        else if n < 32 then char_of (92::nat) # ''u'' @ hex_digits 4 n
        else [c])"

text \<open>The escapes of the default \<open>ensure_ascii=True\<close>: everything that is not printable ASCII.\<close>

definition json_escape_ascii :: "char \<Rightarrow> string" where
  "json_escape_ascii c =
    (let n = of_char c :: nat
     in if 126 < n then char_of (92::nat) # ''u'' @ hex_digits 4 n else json_escape c)"

definition json_string :: "(char \<Rightarrow> string) \<Rightarrow> string \<Rightarrow> string" where
  "json_string esc s = [char_of (34::nat)] @ concat (map esc s) @ [char_of (34::nat)]"

fun comma_sep :: "string list \<Rightarrow> string" where
  "comma_sep [] = []"
| "comma_sep [s] = s"
| "comma_sep (s # t # ts) = s @ '','' @ comma_sep (t # ts)"

text \<open>
  \<open>sort_keys=True\<close>: the items are rendered and then put in the order of their keys, which is the
  code-point order of strings. \<open>esc\<close> is the escape of one character.
\<close>

fun dumps_with :: "(char \<Rightarrow> string) \<Rightarrow> json \<Rightarrow> string"
  and dumps_list :: "(char \<Rightarrow> string) \<Rightarrow> json list \<Rightarrow> string list"
  and dumps_items :: "(char \<Rightarrow> string) \<Rightarrow> dict \<Rightarrow> (string \<times> string) list" where
  "dumps_with esc JNull = ''null''"
| "dumps_with esc (JBool b) = (if b then ''true'' else ''false'')"
| "dumps_with esc (JInt i) = int_str i"
| "dumps_with esc (JFloat x r) = r"
| "dumps_with esc (JStr s) = json_string esc s"
| "dumps_with esc (JArr xs) = ''['' @ comma_sep (dumps_list esc xs) @ '']''"
| "dumps_with esc (JObj d) =
    ''{'' @ comma_sep (map (\<lambda>(k, s). json_string esc k @ '':'' @ s) (sort_key fst (dumps_items esc d)))
      @ ''}''"
| "dumps_list esc [] = []"
| "dumps_list esc (x # xs) = dumps_with esc x # dumps_list esc xs"
| "dumps_items esc [] = []"
| "dumps_items esc ((k, v) # d) = (k, dumps_with esc v) # dumps_items esc d"

definition dumps :: "json \<Rightarrow> string" where
  "dumps = dumps_with json_escape"

definition dumps_ascii :: "json \<Rightarrow> string" where
  "dumps_ascii = dumps_with json_escape_ascii"

lemma fst_dumps_items: "map fst (dumps_items esc d) = map fst d"
  by (induction d) auto

text \<open>The text does not depend on the order in which the keys of an object were inserted.\<close>

lemma dumps_items_map: "dumps_items esc d = map (\<lambda>(k, v). (k, dumps_with esc v)) d"
  by (induction d) auto

lemma dumps_key_order:
  assumes "distinct (map fst d)" and "mset d = mset e"
  shows "dumps_with esc (JObj d) = dumps_with esc (JObj e)"
proof -
  have m: "mset (dumps_items esc d) = mset (dumps_items esc e)"
    using assms(2) by (simp add: dumps_items_map)
  have d: "distinct (map fst (dumps_items esc d))"
    using assms(1) by (simp add: fst_dumps_items)
  then have i: "inj_on fst (set (dumps_items esc d))"
    by (simp add: distinct_map)
  have "sort_key fst (dumps_items esc d) = sort_key fst (dumps_items esc e)"
    using i m by (intro sort_key_inj_key_eq) simp_all
  then show ?thesis by simp
qed

end
