(* ===== verification/Schema.thy ===== *)
theory Schema
  imports Json
begin

text \<open>
  The database every repository shares (\<open>migrations/*.sql\<close>): one record per row, one field per
  table, and the writes that carry a constraint or a trigger. Columns that are surrogate keys of
  append-only journals and that no code reads back by key (\<open>agent_run_events.id\<close>,
  \<open>security_events.id\<close>) are left out. Foreign keys are not checked by the model.
\<close>

section \<open>Enumerations\<close>

datatype run_status = Queued | Running | WaitingForApproval | Succeeded | Failed | Cancelled

datatype receipt_status = Processing | RSucceeded | RFailed | RCancelled | Superseded

datatype agent_kind = Custom | Standard

datatype side_effect = ReadEffect | WriteEffect | Destructive | ExternalCommunication

datatype policy_decision = Allow | Deny | RequireApproval

datatype call_status =
  Planned | PendingApproval | CallApproved | CallRunning | CallSucceeded | CallFailed | CallDenied
  | CallCancelled

datatype approval_status = Pending | Approved | Rejected | Expired | ApprovalCancelled

datatype role = Owner | Admin | Member

datatype enforcement = Enforce | Monitor

datatype spend_category = AgentRunSpend | EvaluationJudgeSpend | EmbeddingSpendCat

datatype task_kind = GoalTask | FollowUpTask

datatype task_status = TPlanned | TRunning | TSucceeded | TFailed | TCancelled | TBlocked

datatype verification_state = NotRequired | VPending | Verified | VFailed

datatype instance_status = Active | Paused | Disabled

datatype release_channel = Stable | Beta | Canary

datatype update_mode = Manual | Automatic

section \<open>Rows\<close>

record workspace_row =
  w_id :: uuid
  w_name :: string

record membership_row =
  m_workspace :: uuid
  m_issuer :: string
  m_subject :: string
  m_role :: role

record security_event_row =
  se_workspace :: uuid
  se_issuer :: string
  se_subject :: string
  se_action :: string
  se_request :: string
  se_target :: "string option"

record agent_row =
  a_id :: uuid
  a_workspace :: uuid
  a_name :: string
  a_instructions :: string
  a_model_profile :: string
  a_issuer :: string
  a_subject :: string
  a_created :: time

record run_row =
  r_id :: uuid
  r_workspace :: uuid
  r_agent :: "uuid option"
  r_tenant_agent :: "uuid option"
  r_snapshot :: "json option"
  r_issuer :: string
  r_subject :: string
  r_input :: string
  r_request_hash :: string
  r_idempotency_key :: string
  r_trace :: uuid
  r_status :: run_status
  r_attempt :: nat
  r_cancel_requested :: "time option"
  r_lease_owner :: "string option"
  r_lease_expires :: "time option"
  r_finished :: "time option"
  r_failure :: "string option"
  r_created :: time
  r_updated :: time

record event_row =
  e_workspace :: uuid
  e_run :: uuid
  e_no :: nat
  e_type :: string
  e_payload :: dict
  e_created :: time

record receipt_row =
  rc_job :: uuid
  rc_workspace :: uuid
  rc_run :: uuid
  rc_status :: receipt_status
  rc_delivery :: nat
  rc_worker :: "string option"
  rc_lease_expires :: "time option"
  rc_error :: "string option"
  rc_updated :: time

text \<open>
  The payload of an outbox row. \<open>agent_kind\<close> is absent in the jobs of the custom-agent API.
\<close>

record payload_row =
  p_run :: uuid
  p_workspace :: uuid
  p_agent :: uuid
  p_trace :: uuid
  p_kind :: "agent_kind option"

record outbox_row =
  o_id :: uuid
  o_workspace :: uuid
  o_run :: uuid
  o_topic :: string
  o_payload :: payload_row
  o_attempts :: nat
  o_available :: time
  o_published :: "time option"
  o_dead :: "time option"
  o_error :: "string option"
  o_created :: time

record tool_row =
  t_id :: uuid
  t_workspace :: uuid
  t_name :: string
  t_server_key :: string
  t_remote_name :: string
  t_description :: string
  t_input_schema :: json
  t_output_schema :: "json option"
  t_side_effect :: side_effect
  t_enabled :: bool
  t_issuer :: string
  t_subject :: string
  t_created :: time
  t_updated :: time

record policy_row =
  tp_workspace :: uuid
  tp_tool :: uuid
  tp_decision :: policy_decision
  tp_reason :: string
  tp_issuer :: string
  tp_subject :: string
  tp_updated :: time

record call_row =
  c_id :: uuid
  c_workspace :: uuid
  c_run :: uuid
  c_tool :: uuid
  c_key :: string
  c_arguments :: json
  c_arguments_hash :: string
  c_contract_hash :: string
  c_status :: call_status
  c_policy :: policy_decision
  c_result :: "json option"
  c_error :: "string option"
  c_attempt :: nat
  c_created :: time
  c_updated :: time
  c_started :: "time option"
  c_finished :: "time option"

record approval_row =
  ap_id :: uuid
  ap_workspace :: uuid
  ap_run :: uuid
  ap_call :: uuid
  ap_action :: string
  ap_arguments :: json
  ap_arguments_hash :: string
  ap_contract_hash :: string
  ap_requester_issuer :: string
  ap_requester_subject :: string
  ap_approver_issuer :: "string option"
  ap_approver_subject :: "string option"
  ap_status :: approval_status
  ap_reason :: string
  ap_expires :: time
  ap_created :: time
  ap_decided :: "time option"

record step_row =
  st_workspace :: uuid
  st_run :: uuid
  st_no :: nat
  st_provider :: string
  st_model :: string
  st_reason :: string
  st_response :: json
  st_created :: time

record spend_row =
  sp_id :: uuid
  sp_workspace :: uuid
  sp_source_key :: string
  sp_category :: spend_category
  sp_provider :: string
  sp_model :: string
  sp_input :: int
  sp_output :: int
  sp_cost :: int
  sp_occurred :: time

record budget_row =
  b_workspace :: uuid
  b_limit :: int
  b_enforcement :: enforcement
  b_thresholds :: "int list"
  b_issuer :: string
  b_subject :: string
  b_updated :: time

record budget_event_row =
  be_workspace :: uuid
  be_limit :: int
  be_enforcement :: enforcement
  be_thresholds :: "int list"
  be_issuer :: string
  be_subject :: string
  be_request :: string

record alert_row =
  al_id :: uuid
  al_workspace :: uuid
  al_period :: time
  al_threshold :: int
  al_limit :: int
  al_consumed :: int
  al_enforcement :: enforcement
  al_created :: time

record alert_outbox_row =
  ao_alert :: uuid
  ao_workspace :: uuid
  ao_attempts :: nat
  ao_available :: time
  ao_lease_owner :: "string option"
  ao_lease_expires :: "time option"
  ao_delivered :: "time option"
  ao_dead :: "time option"
  ao_error :: "string option"
  ao_created :: time
  ao_updated :: time

record task_row =
  k_id :: uuid
  k_workspace :: uuid
  k_run :: uuid
  k_parent :: "uuid option"
  k_kind :: task_kind
  k_title :: string
  k_description :: string
  k_status :: task_status
  k_action_tool :: "string option"
  k_verification :: verification_state
  k_idempotency_key :: string
  k_request_hash :: string
  k_created :: time
  k_updated :: time
  k_completed :: "time option"

record task_dependency_row =
  kd_workspace :: uuid
  kd_run :: uuid
  kd_task :: uuid
  kd_depends_on :: uuid

record task_evidence_row =
  ke_id :: uuid
  ke_workspace :: uuid
  ke_run :: uuid
  ke_task :: uuid
  ke_action_call :: "uuid option"
  ke_verification_call :: uuid
  ke_tool :: string
  ke_summary :: string
  ke_satisfied :: bool
  ke_idempotency_key :: string
  ke_created :: time

record retrieval_context_row =
  rx_run :: uuid
  rx_workspace :: uuid
  rx_text :: string

record tenant_agent_row =
  ta_id :: uuid
  ta_workspace :: uuid
  ta_catalog :: uuid
  ta_version :: uuid
  ta_display_name :: string
  ta_status :: instance_status
  ta_paused_reason :: "string option"
  ta_channel :: release_channel
  ta_mode :: update_mode
  ta_instructions :: "string option"
  ta_settings :: dict
  ta_created :: time
  ta_updated :: time

datatype access_scope = WorkspaceScope | Restricted

record rag_source_row =
  gs_id :: uuid
  gs_workspace :: uuid
  gs_key :: string
  gs_version :: string
  gs_current :: bool

record rag_acl_row =
  ga_workspace :: uuid
  ga_source :: uuid
  ga_issuer :: string
  ga_subject :: string

record rag_chunk_row =
  gc_id :: uuid
  gc_workspace :: uuid
  gc_source :: uuid
  gc_version :: string
  gc_index :: nat
  gc_content_hash :: string
  gc_scope :: access_scope

record run_retrieval_row =
  rr_run :: uuid
  rr_workspace :: uuid
  rr_query_hash :: string
  rr_context_hash :: string
  rr_tokens :: int
  rr_chunk_count :: nat

record retrieval_chunk_row =
  rk_run :: uuid
  rk_workspace :: uuid
  rk_position :: nat
  rk_chunk :: uuid
  rk_source :: uuid
  rk_source_key :: string
  rk_version :: string
  rk_index :: nat
  rk_content_hash :: string

text \<open>A cached answer. The embedding is a vector of exact numbers.\<close>

record answer_cache_row =
  ac_workspace :: uuid
  ac_agent :: uuid
  ac_key :: string
  ac_provider :: string
  ac_model :: string
  ac_response :: json
  ac_hits :: nat
  ac_created :: time
  ac_last_used :: time
  ac_expires :: time
  ac_scope :: "string option"
  ac_question :: "string option"
  ac_embedding_model :: "string option"
  ac_embedding_dims :: "int option"
  ac_embedding :: "rat list option"

section \<open>The database\<close>

record db =
  workspaces :: "workspace_row list"
  memberships :: "membership_row list"
  security_events :: "security_event_row list"
  agent_definitions :: "agent_row list"
  agent_runs :: "run_row list"
  run_events :: "event_row list"
  receipts :: "receipt_row list"
  outbox :: "outbox_row list"
  tool_definitions :: "tool_row list"
  tool_policies :: "policy_row list"
  tool_calls :: "call_row list"
  tool_approvals :: "approval_row list"
  model_steps :: "step_row list"
  spend_records :: "spend_row list"
  spend_budgets :: "budget_row list"
  budget_events :: "budget_event_row list"
  spend_alerts :: "alert_row list"
  alert_outbox :: "alert_outbox_row list"
  run_tasks :: "task_row list"
  task_dependencies :: "task_dependency_row list"
  task_evidence :: "task_evidence_row list"
  retrieval_contexts :: "retrieval_context_row list"
  tenant_agents :: "tenant_agent_row list"
  rag_sources :: "rag_source_row list"
  rag_acl :: "rag_acl_row list"
  rag_chunks :: "rag_chunk_row list"
  run_retrievals :: "run_retrieval_row list"
  retrieval_chunks :: "retrieval_chunk_row list"
  answer_cache :: "answer_cache_row list"

definition empty_db :: db where
  "empty_db = \<lparr>workspaces = [], memberships = [], security_events = [], agent_definitions = [],
    agent_runs = [], run_events = [], receipts = [], outbox = [], tool_definitions = [],
    tool_policies = [], tool_calls = [], tool_approvals = [], model_steps = [], spend_records = [],
    spend_budgets = [], budget_events = [], spend_alerts = [], alert_outbox = [], run_tasks = [],
    task_dependencies = [], task_evidence = [], retrieval_contexts = [], tenant_agents = [],
    rag_sources = [], rag_acl = [], rag_chunks = [], run_retrievals = [], retrieval_chunks = [],
    answer_cache = []\<rparr>"

text \<open>
  What a transaction takes from outside: \<open>now()\<close>, which is the instant it began, its successive
  readings of \<open>clock_timestamp()\<close>, and its successive \<open>uuid4()\<close> values.
\<close>

record txenv =
  tx_now :: time
  tx_clock :: "nat \<Rightarrow> time"
  tx_uuid :: "nat \<Rightarrow> uuid"

section \<open>The agent\_runs table: constraints and triggers\<close>

fun terminal :: "run_status \<Rightarrow> bool" where
  "terminal Succeeded = True"
| "terminal Failed = True"
| "terminal Cancelled = True"
| "terminal _ = False"

text \<open>\<open>enforce_agent_run_status_transition\<close>.\<close>

fun run_transition_ok :: "run_status \<Rightarrow> run_status \<Rightarrow> bool" where
  "run_transition_ok Queued n = (n \<in> {Queued, Running, Cancelled})"
| "run_transition_ok Running n = True"
| "run_transition_ok WaitingForApproval n = (n \<in> {WaitingForApproval, Queued, Cancelled})"
| "run_transition_ok old n = (n = old)"

text \<open>The row constraints of \<open>agent_runs\<close> that an update can break.\<close>

definition run_row_check :: "run_row \<Rightarrow> bool" where
  "run_row_check r \<longleftrightarrow>
    (r_lease_owner r = None) = (r_lease_expires r = None) \<and>
    (case r_failure r of None \<Rightarrow> True | Some c \<Rightarrow> 1 \<le> length c \<and> length c \<le> 100) \<and>
    (r_agent r \<noteq> None) \<noteq> (r_tenant_agent r \<noteq> None) \<and>
    (r_tenant_agent r = None \<or> (case r_snapshot r of None \<Rightarrow> False | Some v \<Rightarrow> is_dict v))"

text \<open>\<open>sync_run_goal_task_status\<close>: the goal task of a standard run follows the run.\<close>

fun goal_status :: "run_status \<Rightarrow> task_status" where
  "goal_status Queued = TPlanned"
| "goal_status Running = TRunning"
| "goal_status WaitingForApproval = TRunning"
| "goal_status Succeeded = TSucceeded"
| "goal_status Failed = TFailed"
| "goal_status Cancelled = TCancelled"

definition sync_goal_task :: "txenv \<Rightarrow> run_row \<Rightarrow> run_row \<Rightarrow> task_row list \<Rightarrow> task_row list" where
  "sync_goal_task env old new ts =
    (if r_status new = r_status old then ts
     else sql_update (\<lambda>k. k_id k = r_id new \<and> k_run k = r_id new \<and> k_kind k = GoalTask)
       (\<lambda>k. k\<lparr>k_status := goal_status (r_status new),
              k_completed := (if terminal (r_status new) then r_finished new else None),
              k_updated := tx_now env\<rparr>) ts)"

text \<open>\<open>clear_terminal_agent_run_retrieval_context\<close>.\<close>

definition clear_retrieval_context ::
    "run_row \<Rightarrow> run_row \<Rightarrow> retrieval_context_row list \<Rightarrow> retrieval_context_row list" where
  "clear_retrieval_context old new xs =
    (if terminal (r_status new) \<and> r_status new \<noteq> r_status old
     then filter (\<lambda>x. \<not> (rx_run x = r_id new \<and> rx_workspace x = r_workspace new)) xs else xs)"

definition find_run :: "uuid \<Rightarrow> db \<Rightarrow> run_row option" where
  "find_run i s = find (\<lambda>r. r_id r = i) (agent_runs s)"

text \<open>\<open>UPDATE agent_runs SET f WHERE id=i\<close>, with its triggers and constraints.\<close>

definition update_run :: "txenv \<Rightarrow> uuid \<Rightarrow> (run_row \<Rightarrow> run_row) \<Rightarrow> db \<Rightarrow> db res" where
  "update_run env i f s =
    (case find_run i s of
       None \<Rightarrow> Inr s
     | Some r \<Rightarrow>
         if \<not> run_transition_ok (r_status r) (r_status (f r))
         then Inl (RaiseException ''illegal agent run transition'')
         else if \<not> run_row_check (f r) then Inl (CheckViolation ''agent_runs'')
         else Inr (s\<lparr>agent_runs := sql_update (\<lambda>x. r_id x = i) f (agent_runs s),
                     run_tasks := sync_goal_task env r (f r) (run_tasks s),
                     retrieval_contexts := clear_retrieval_context r (f r) (retrieval_contexts s)\<rparr>))"

section \<open>Tool calls and approvals: transition triggers\<close>

text \<open>\<open>enforce_tool_call_status_transition\<close>.\<close>

fun call_transition_ok :: "call_status \<Rightarrow> call_status \<Rightarrow> bool" where
  "call_transition_ok Planned n =
    (n \<in> {Planned, PendingApproval, CallRunning, CallDenied, CallCancelled})"
| "call_transition_ok PendingApproval n =
    (n \<in> {PendingApproval, CallApproved, CallDenied, CallCancelled})"
| "call_transition_ok CallApproved n = (n \<in> {CallApproved, CallRunning, CallCancelled})"
| "call_transition_ok CallRunning n =
    (n \<in> {CallRunning, Planned, CallApproved, CallSucceeded, CallFailed, CallCancelled})"
| "call_transition_ok old n = (n = old)"

text \<open>\<open>protect_tool_approval\<close>: the request is immutable and only a pending one is decided.\<close>

definition approval_update_ok :: "approval_row \<Rightarrow> approval_row \<Rightarrow> bool" where
  "approval_update_ok old new \<longleftrightarrow>
    ap_workspace new = ap_workspace old \<and> ap_run new = ap_run old \<and> ap_call new = ap_call old \<and>
    ap_action new = ap_action old \<and> ap_arguments new = ap_arguments old \<and>
    ap_arguments_hash new = ap_arguments_hash old \<and> ap_contract_hash new = ap_contract_hash old \<and>
    ap_requester_issuer new = ap_requester_issuer old \<and>
    ap_requester_subject new = ap_requester_subject old \<and> ap_reason new = ap_reason old \<and>
    ap_expires new = ap_expires old \<and> ap_created new = ap_created old \<and>
    (ap_status new = ap_status old \<or> ap_status old = Pending)"

definition find_call :: "uuid \<Rightarrow> db \<Rightarrow> call_row option" where
  "find_call i s = find (\<lambda>c. c_id c = i) (tool_calls s)"

definition find_approval :: "uuid \<Rightarrow> db \<Rightarrow> approval_row option" where
  "find_approval i s = find (\<lambda>a. ap_id a = i) (tool_approvals s)"

definition update_calls :: "(call_row \<Rightarrow> bool) \<Rightarrow> (call_row \<Rightarrow> call_row) \<Rightarrow> db \<Rightarrow> db res" where
  "update_calls p f s =
    (if \<exists>c \<in> set (tool_calls s). p c \<and> \<not> call_transition_ok (c_status c) (c_status (f c))
     then Inl (RaiseException ''illegal tool call transition'')
     else Inr (s\<lparr>tool_calls := sql_update p f (tool_calls s)\<rparr>))"

definition update_approvals ::
    "(approval_row \<Rightarrow> bool) \<Rightarrow> (approval_row \<Rightarrow> approval_row) \<Rightarrow> db \<Rightarrow> db res" where
  "update_approvals p f s =
    (if \<exists>a \<in> set (tool_approvals s). p a \<and> \<not> approval_update_ok a (f a)
     then Inl (RaiseException ''illegal tool approval transition'')
     else Inr (s\<lparr>tool_approvals := sql_update p f (tool_approvals s)\<rparr>))"

section \<open>Inserts with a key\<close>

text \<open>\<open>INSERT\<close> of a row whose primary key or unique columns are already there raises.\<close>

definition insert_run :: "run_row \<Rightarrow> db \<Rightarrow> db res" where
  "insert_run r s =
    (if sql_exists (\<lambda>x. r_id x = r_id r) (agent_runs s) then Inl (UniqueViolation ''agent_runs_pkey'')
     else if sql_exists (\<lambda>x. r_workspace x = r_workspace r \<and> r_issuer x = r_issuer r \<and>
         r_subject x = r_subject r \<and> r_idempotency_key x = r_idempotency_key r) (agent_runs s)
     then Inl (UniqueViolation ''agent_runs_idempotency'')
     else if \<not> run_row_check r then Inl (CheckViolation ''agent_runs'')
     else Inr (s\<lparr>agent_runs := agent_runs s @ [r]\<rparr>))"

definition insert_outbox :: "outbox_row \<Rightarrow> db \<Rightarrow> db res" where
  "insert_outbox ob s =
    (if sql_exists (\<lambda>x. o_id x = o_id ob) (outbox s) then Inl (UniqueViolation ''job_outbox_pkey'')
     else Inr (s\<lparr>outbox := outbox s @ [ob]\<rparr>))"

definition insert_call :: "call_row \<Rightarrow> db \<Rightarrow> db res" where
  "insert_call c s =
    (if sql_exists (\<lambda>x. c_id x = c_id c) (tool_calls s) then Inl (UniqueViolation ''tool_calls_pkey'')
     else if sql_exists (\<lambda>x. c_run x = c_run c \<and> c_key x = c_key c) (tool_calls s)
     then Inl (UniqueViolation ''tool_calls_run_id_call_key'')
     else Inr (s\<lparr>tool_calls := tool_calls s @ [c]\<rparr>))"

definition insert_approval :: "approval_row \<Rightarrow> db \<Rightarrow> db res" where
  "insert_approval a s =
    (if sql_exists (\<lambda>x. ap_id x = ap_id a) (tool_approvals s)
     then Inl (UniqueViolation ''tool_approvals_pkey'')
     else if sql_exists (\<lambda>x. ap_call x = ap_call a) (tool_approvals s)
     then Inl (UniqueViolation ''tool_approvals_tool_call_id'')
     else Inr (s\<lparr>tool_approvals := tool_approvals s @ [a]\<rparr>))"

definition insert_step :: "step_row \<Rightarrow> db \<Rightarrow> db res" where
  "insert_step m s =
    (if sql_exists (\<lambda>x. st_run x = st_run m \<and> st_no x = st_no m) (model_steps s)
     then Inl (UniqueViolation ''agent_model_steps_pkey'')
     else if \<not> st_no m \<le> 31 then Inl (CheckViolation ''agent_model_steps_step_no'')
     else Inr (s\<lparr>model_steps := model_steps s @ [m]\<rparr>))"

section \<open>Reading what a write left\<close>

lemma find_run_SomeD: "find_run i s = Some r \<Longrightarrow> r \<in> set (agent_runs s) \<and> r_id r = i"
  by (auto simp: find_run_def dest: find_SomeD)

lemma update_run_Inr:
  "update_run env i f s = Inr s' \<longleftrightarrow>
    (find_run i s = None \<and> s' = s) \<or>
    (\<exists>r. find_run i s = Some r \<and> run_transition_ok (r_status r) (r_status (f r)) \<and>
       run_row_check (f r) \<and>
       s' = s\<lparr>agent_runs := sql_update (\<lambda>x. r_id x = i) f (agent_runs s),
              run_tasks := sync_goal_task env r (f r) (run_tasks s),
              retrieval_contexts := clear_retrieval_context r (f r) (retrieval_contexts s)\<rparr>)"
  by (auto simp: update_run_def split: option.splits if_splits)

lemma update_calls_Inr:
  "update_calls p f s = Inr s' \<longleftrightarrow>
    (\<forall>c \<in> set (tool_calls s). p c \<longrightarrow> call_transition_ok (c_status c) (c_status (f c))) \<and>
    s' = s\<lparr>tool_calls := sql_update p f (tool_calls s)\<rparr>"
  by (auto simp: update_calls_def)

lemma update_approvals_Inr:
  "update_approvals p f s = Inr s' \<longleftrightarrow>
    (\<forall>a \<in> set (tool_approvals s). p a \<longrightarrow> approval_update_ok a (f a)) \<and>
    s' = s\<lparr>tool_approvals := sql_update p f (tool_approvals s)\<rparr>"
  by (auto simp: update_approvals_def)

lemma insert_run_Inr:
  "insert_run r s = Inr s' \<longleftrightarrow>
    (\<forall>x \<in> set (agent_runs s). r_id x \<noteq> r_id r) \<and>
    (\<forall>x \<in> set (agent_runs s). \<not> (r_workspace x = r_workspace r \<and> r_issuer x = r_issuer r \<and>
       r_subject x = r_subject r \<and> r_idempotency_key x = r_idempotency_key r)) \<and>
    run_row_check r \<and> s' = s\<lparr>agent_runs := agent_runs s @ [r]\<rparr>"
  by (auto simp: insert_run_def sql_exists_iff)

lemma insert_outbox_Inr:
  "insert_outbox ob s = Inr s' \<longleftrightarrow>
    (\<forall>x \<in> set (outbox s). o_id x \<noteq> o_id ob) \<and> s' = s\<lparr>outbox := outbox s @ [ob]\<rparr>"
  by (auto simp: insert_outbox_def sql_exists_iff)

lemma insert_call_Inr:
  "insert_call c s = Inr s' \<longleftrightarrow>
    (\<forall>x \<in> set (tool_calls s). c_id x \<noteq> c_id c) \<and>
    (\<forall>x \<in> set (tool_calls s). \<not> (c_run x = c_run c \<and> c_key x = c_key c)) \<and>
    s' = s\<lparr>tool_calls := tool_calls s @ [c]\<rparr>"
  by (auto simp: insert_call_def sql_exists_iff)

lemma insert_approval_Inr:
  "insert_approval a s = Inr s' \<longleftrightarrow>
    (\<forall>x \<in> set (tool_approvals s). ap_id x \<noteq> ap_id a) \<and>
    (\<forall>x \<in> set (tool_approvals s). ap_call x \<noteq> ap_call a) \<and>
    s' = s\<lparr>tool_approvals := tool_approvals s @ [a]\<rparr>"
  by (auto simp: insert_approval_def sql_exists_iff)

lemma insert_step_Inr:
  "insert_step m s = Inr s' \<longleftrightarrow>
    (\<forall>x \<in> set (model_steps s). \<not> (st_run x = st_run m \<and> st_no x = st_no m)) \<and> st_no m \<le> 31 \<and>
    s' = s\<lparr>model_steps := model_steps s @ [m]\<rparr>"
  by (auto simp: insert_step_def sql_exists_iff)

lemmas write_Inr =
  update_run_Inr update_calls_Inr update_approvals_Inr insert_run_Inr insert_outbox_Inr
  insert_call_Inr insert_approval_Inr insert_step_Inr

lemma terminal_stuck: "terminal a \<Longrightarrow> run_transition_ok a b \<Longrightarrow> b = a"
  by (cases a) auto

lemma run_transition_refl [simp]: "run_transition_ok a a"
  by (cases a) auto

lemma call_transition_refl [simp]: "call_transition_ok a a"
  by (cases a) auto

section \<open>What an update of a run leaves alone\<close>

lemma update_run_tables:
  assumes "update_run env i f s = Inr s'"
  shows "agent_runs s' = sql_update (\<lambda>r. r_id r = i) f (agent_runs s)"
    and "workspaces s' = workspaces s" "memberships s' = memberships s"
      "security_events s' = security_events s" "agent_definitions s' = agent_definitions s"
      "run_events s' = run_events s" "receipts s' = receipts s" "outbox s' = outbox s"
      "tool_definitions s' = tool_definitions s" "tool_policies s' = tool_policies s"
      "tool_calls s' = tool_calls s" "tool_approvals s' = tool_approvals s"
      "model_steps s' = model_steps s" "spend_records s' = spend_records s"
      "spend_budgets s' = spend_budgets s" "spend_alerts s' = spend_alerts s"
      "alert_outbox s' = alert_outbox s" "task_evidence s' = task_evidence s"
      "answer_cache s' = answer_cache s" "run_retrievals s' = run_retrievals s"
proof -
  have none: "sql_update (\<lambda>r. r_id r = i) f (agent_runs s) = agent_runs s" if "find_run i s = None"
    using that by (auto simp: find_run_def find_None_iff intro: sql_update_none)
  show "agent_runs s' = sql_update (\<lambda>r. r_id r = i) f (agent_runs s)"
    using assms none by (auto simp: update_run_Inr)
qed (use assms in \<open>auto simp: update_run_Inr\<close>)

lemma find_run_unique:
  assumes "distinct (map r_id (agent_runs s))"
  shows "find_run i s = Some r \<longleftrightarrow> r \<in> set (agent_runs s) \<and> r_id r = i"
  unfolding find_run_def by (rule find_Some_iff_unique[OF assms])

lemma update_run_row:
  assumes "update_run env i f s = Inr s'" and "distinct (map r_id (agent_runs s))"
    and "r \<in> set (agent_runs s)" and "r_id r = i"
  shows "run_transition_ok (r_status r) (r_status (f r))" "run_row_check (f r)"
proof -
  have "find_run i s = Some r" using assms(2,3,4) by (simp add: find_run_unique)
  with assms(1) show "run_transition_ok (r_status r) (r_status (f r))" "run_row_check (f r)"
    by (auto simp: update_run_Inr)
qed

lemma update_run_ok:
  assumes "distinct (map r_id (agent_runs s))" and "r \<in> set (agent_runs s)" and "r_id r = i"
    and "run_transition_ok (r_status r) (r_status (f r))" and "run_row_check (f r)"
  obtains s' where "update_run env i f s = Inr s'"
proof -
  have "find_run i s = Some r" using assms(1,2,3) by (simp add: find_run_unique)
  with assms(4,5) that show thesis by (simp add: update_run_def)
qed

lemma find_run_after_update:
  assumes "update_run env i f s = Inr s'" and "\<And>r. r_id (f r) = r_id r"
  shows "find_run j s' = map_option (\<lambda>r. if r_id r = i then f r else r) (find_run j s)"
  unfolding find_run_def update_run_tables(1)[OF assms(1)] using assms(2) by (rule find_sql_update)

end
