(* ===== verification/Paging.thy ===== *)
theory Paging
  imports Prelude
begin

text \<open>
  Keyset pagination, the contract every listing endpoint shares. A repository query takes a limit
  and a cursor (\<open>... AND (cursor IS NULL OR key > cursor) ORDER BY key LIMIT n\<close>); the endpoint
  asks for one row more than the page holds and returns the key of the last row of the page as the
  next cursor when there was one more.
\<close>

section \<open>The query and the endpoint\<close>

definition after_cursor :: "'k::linorder option \<Rightarrow> 'k \<Rightarrow> bool" where
  "after_cursor c k = (case c of None \<Rightarrow> True | Some b \<Rightarrow> b < k)"

definition keyset_query ::
    "('r \<Rightarrow> 'k::linorder) \<Rightarrow> ('r \<Rightarrow> bool) \<Rightarrow> 'r list \<Rightarrow> nat \<Rightarrow> 'k option \<Rightarrow> 'r list" where
  "keyset_query key p t n c = order_limit key n (\<lambda>r. p r \<and> after_cursor c (key r)) t"

definition page :: "('r \<Rightarrow> 'k) \<Rightarrow> nat \<Rightarrow> 'r list \<Rightarrow> 'r list \<times> 'k option" where
  "page key limit rows =
    (take limit rows, if limit < length rows then Some (key (rows ! (limit - 1))) else None)"

section \<open>A client that follows the cursors\<close>

text \<open>
  \<open>walk\<close> asks for page after page until there is no next cursor; \<open>fuel\<close> bounds the number of
  requests and \<open>None\<close> says that it ran out.
\<close>

fun walk ::
    "('r \<Rightarrow> 'k) \<Rightarrow> (nat \<Rightarrow> 'k option \<Rightarrow> 'r list) \<Rightarrow> nat \<Rightarrow> nat \<Rightarrow> 'k option \<Rightarrow> 'r list option" where
  "walk key fetch limit 0 c = None"
| "walk key fetch limit (Suc fuel) c =
    (case page key limit (fetch (Suc limit) c) of
       (items, None) \<Rightarrow> Some items
     | (items, Some c') \<Rightarrow> map_option ((@) items) (walk key fetch limit fuel (Some c')))"

text \<open>
  The interface between an endpoint and its repository: the query returns, in the order of a key
  that no two rows share, the first rows after the cursor.
\<close>

locale keyset =
  fixes key :: "'r \<Rightarrow> 'k::linorder"
    and rows :: "'s \<Rightarrow> 'r list"
    and fetch :: "'s \<Rightarrow> nat \<Rightarrow> 'k option \<Rightarrow> 'r list"
    and inv :: "'s \<Rightarrow> bool"
  assumes sorted_rows: "inv s \<Longrightarrow> sorted_wrt (<) (map key (rows s))"
    and fetch_rows:
      "inv s \<Longrightarrow> fetch s n c = take n (filter (\<lambda>r. after_cursor c (key r)) (rows s))"
begin

lemma rest_after:
  assumes "inv s" and "rows s = xs @ y # zs"
  shows "filter (\<lambda>r. after_cursor (Some (key y)) (key r)) (rows s) = zs"
proof -
  have s: "sorted_wrt (<) (map key xs @ key y # map key zs)"
    using sorted_rows[OF assms(1)] unfolding assms(2) by simp
  have "filter (\<lambda>r. key y < key r) xs = []"
    using s by (auto simp: sorted_wrt_append filter_empty_conv dest: less_not_sym)
  moreover have "filter (\<lambda>r. key y < key r) zs = zs"
    using s by (auto simp: sorted_wrt_append filter_id_conv)
  ultimately show ?thesis by (simp add: assms(2) after_cursor_def)
qed

lemma walk_rest:
  assumes "inv s" and "0 < limit" and "rows s = pre @ rest"
    and "c = (if pre = [] then None else Some (key (last pre)))"
    and "length rest < limit * fuel \<or> rest = [] \<and> 0 < fuel"
  shows "walk key (fetch s) limit fuel c = Some rest"
  using assms
proof (induction fuel arbitrary: pre rest c)
  case 0
  then show ?case by simp
next
  case (Suc fuel)
  have after: "filter (\<lambda>r. after_cursor c (key r)) (rows s) = rest"
  proof (cases "pre = []")
    case True
    with Suc.prems show ?thesis by (simp add: after_cursor_def)
  next
    case False
    then have "rows s = butlast pre @ last pre # rest"
      using Suc.prems(3) by (simp add: append_butlast_last_id flip: append_assoc)
    with False Suc.prems(4) show ?thesis using rest_after[OF Suc.prems(1)] by simp
  qed
  have f: "fetch s (Suc limit) c = take (Suc limit) rest"
    by (simp only: fetch_rows[OF Suc.prems(1)] after)
  show ?case
  proof (cases "limit < length rest")
    case False
    then show ?thesis by (simp add: f page_def)
  next
    case True
    let ?items = "take limit rest" and ?rest = "drop limit rest"
    have items: "?items \<noteq> []" using True Suc.prems(2) by auto
    have last: "last ?items = rest ! (limit - 1)"
      using True Suc.prems(2) items by (simp add: last_conv_nth)
    have "walk key (fetch s) limit fuel (Some (key (last ?items))) = Some ?rest"
      using Suc.prems items True
      by (intro Suc.IH[of "pre @ ?items"]) (auto simp: algebra_simps)
    moreover have "take (Suc limit) rest ! (limit - 1) = rest ! (limit - 1)"
      using Suc.prems(2) by simp
    ultimately show ?thesis
      using True last by (simp add: f page_def min_def)
  qed
qed

theorem walk_all:
  assumes "inv s" and "0 < limit" and "length (rows s) < limit * fuel"
  shows "walk key (fetch s) limit fuel None = Some (rows s)"
  using assms by (intro walk_rest[of s limit "[]" "rows s"]) auto

end

section \<open>The shared query meets the interface\<close>

lemma filter_sort_key: "filter p (sort_key k xs) = sort_key k (filter p xs)"
  by (rule filter_sort)

lemma strict_sorted_key:
  assumes "distinct (map key t)"
  shows "sorted_wrt (<) (map key (sort_key key t))"
proof -
  have "distinct (map key (sort_key key t))"
    using assms by (simp add: distinct_map)
  then show ?thesis
    using sorted_sort_key[of key t] by (simp add: strict_sorted_iff)
qed

lemma keyset_query_sorted:
  assumes "distinct (map key t)"
  shows "sorted_wrt (<) (map key (sort_key key (filter p t)))"
proof -
  have "distinct (map key (filter p t))"
    using assms by (induction t) auto
  then show ?thesis by (rule strict_sorted_key)
qed

lemma keyset_query_take:
  "keyset_query key p t n c = take n (filter (\<lambda>r. after_cursor c (key r)) (sort_key key (filter p t)))"
  by (simp add: keyset_query_def order_limit_def filter_sort_key conj_commute)

end
