(* ===== verification/Workspaces.thy ===== *)
theory Workspaces
  imports Schema Paging
begin

text \<open>
  Roles, permissions and the workspace repository (\<open>workspaces.py\<close>,
  \<open>workspace_repository.py\<close>): who may do what in a workspace, and the operations that create a
  workspace, rename it and change its members. Every other repository authorises through
  \<open>scoped\<close> and records through \<open>audit\<close>.
\<close>

section \<open>Permissions\<close>

datatype permission =
    PermRead | PermUpdate | ManageMembers | ManageAgents | RunAgents | CancelAnyRun | ManageTools
  | ApproveTools | ManageKnowledge | ManageEvals | ManageSpend | ManageIntegrations

definition all_permissions :: "permission list" where
  "all_permissions = [PermRead, PermUpdate, ManageMembers, ManageAgents, RunAgents, CancelAnyRun,
    ManageTools, ApproveTools, ManageKnowledge, ManageEvals, ManageSpend, ManageIntegrations]"

fun grants :: "role \<Rightarrow> permission list" where
  "grants Owner = all_permissions"
| "grants Admin = [PermRead, PermUpdate, ManageAgents, RunAgents, CancelAnyRun, ManageTools,
    ApproveTools, ManageKnowledge, ManageEvals, ManageSpend, ManageIntegrations]"
| "grants Member = [PermRead, RunAgents]"

text \<open>\<open>authorize\<close>: 404 without a membership, 403 without the permission.\<close>

definition authorize :: "role option \<Rightarrow> permission \<Rightarrow> unit res" where
  "authorize ro p =
    (case ro of
       None \<Rightarrow> Inl (HTTPException 404)
     | Some r \<Rightarrow> if p \<in> set (grants r) then Inr () else Inl (HTTPException 403))"

record principal =
  issuer :: string
  subject :: string

section \<open>The repository\<close>

definition member_role :: "uuid \<Rightarrow> string \<Rightarrow> string \<Rightarrow> db \<Rightarrow> role option" where
  "member_role ws iss sub s =
    map_option m_role
      (find (\<lambda>m. m_workspace m = ws \<and> m_issuer m = iss \<and> m_subject m = sub) (memberships s))"

definition find_workspace :: "uuid \<Rightarrow> db \<Rightarrow> workspace_row option" where
  "find_workspace ws s = find (\<lambda>w. w_id w = ws) (workspaces s)"

text \<open>The row of \<open>scoped\<close>: the workspace joined with the caller's membership.\<close>

definition scoped :: "principal \<Rightarrow> uuid \<Rightarrow> permission \<Rightarrow> db \<Rightarrow> (workspace_row \<times> role) res" where
  "scoped pr ws p s =
    (let row = (case find_workspace ws s of
                  None \<Rightarrow> None
                | Some w \<Rightarrow> map_option (Pair w) (member_role ws (issuer pr) (subject pr) s))
     in bind_res (authorize (map_option snd row) p)
          (\<lambda>_. case row of Some x \<Rightarrow> Inr x | None \<Rightarrow> Inl (HTTPException 404)))"

definition audit :: "principal \<Rightarrow> uuid \<Rightarrow> string \<Rightarrow> string \<Rightarrow> string option \<Rightarrow> db \<Rightarrow> db" where
  "audit pr ws action req target s = s\<lparr>security_events := security_events s @
    [\<lparr>se_workspace = ws, se_issuer = issuer pr, se_subject = subject pr, se_action = action,
      se_request = req, se_target = target\<rparr>]\<rparr>"

text \<open>The partial unique index \<open>one_owner_per_workspace\<close> and the primary key.\<close>

definition upsert_member :: "membership_row \<Rightarrow> db \<Rightarrow> db res" where
  "upsert_member m s =
    (let same = (\<lambda>x. m_workspace x = m_workspace m \<and> m_issuer x = m_issuer m \<and>
                     m_subject x = m_subject m)
     in if m_role m = Owner \<and>
           sql_exists (\<lambda>x. m_workspace x = m_workspace m \<and> m_role x = Owner \<and> \<not> same x) (memberships s)
        then Inl (UniqueViolation ''one_owner_per_workspace'')
        else if sql_exists same (memberships s)
        then Inr (s\<lparr>memberships := sql_update same (\<lambda>x. x\<lparr>m_role := m_role m\<rparr>) (memberships s)\<rparr>)
        else Inr (s\<lparr>memberships := memberships s @ [m]\<rparr>))"

definition insert_member :: "membership_row \<Rightarrow> db \<Rightarrow> db res" where
  "insert_member m s =
    (if sql_exists (\<lambda>x. m_workspace x = m_workspace m \<and> m_issuer x = m_issuer m \<and>
          m_subject x = m_subject m) (memberships s)
     then Inl (UniqueViolation ''workspace_memberships_pkey'')
     else upsert_member m s)"

definition create_workspace ::
    "txenv \<Rightarrow> principal \<Rightarrow> string \<Rightarrow> string \<Rightarrow> db \<Rightarrow> ((uuid \<times> string \<times> role) \<times> db) res" where
  "create_workspace env pr name req s =
    (let i = tx_uuid env 0
     in if sql_exists (\<lambda>w. w_id w = i) (workspaces s) then Inl (UniqueViolation ''workspaces_pkey'')
        else bind_res
          (insert_member \<lparr>m_workspace = i, m_issuer = issuer pr, m_subject = subject pr, m_role = Owner\<rparr>
            (s\<lparr>workspaces := workspaces s @ [\<lparr>w_id = i, w_name = name\<rparr>]\<rparr>))
          (\<lambda>s1. Inr ((i, name, Owner), audit pr i ''workspace.created'' req None s1)))"

text \<open>\<open>list\<close>: the caller's workspaces after the cursor, in id order.\<close>

definition visible_to :: "principal \<Rightarrow> db \<Rightarrow> workspace_row \<Rightarrow> bool" where
  "visible_to pr s w \<longleftrightarrow> member_role (w_id w) (issuer pr) (subject pr) s \<noteq> None"

definition list_workspaces :: "principal \<Rightarrow> db \<Rightarrow> nat \<Rightarrow> uuid option \<Rightarrow> workspace_row list" where
  "list_workspaces pr s n c = keyset_query w_id (visible_to pr s) (workspaces s) n c"

definition get_workspace :: "principal \<Rightarrow> uuid \<Rightarrow> db \<Rightarrow> (workspace_row \<times> role) res" where
  "get_workspace pr ws s = scoped pr ws PermRead s"

definition rename_workspace ::
    "principal \<Rightarrow> uuid \<Rightarrow> string \<Rightarrow> string \<Rightarrow> db \<Rightarrow> ((uuid \<times> string \<times> role) \<times> db) res" where
  "rename_workspace pr ws name req s =
    bind_res (scoped pr ws PermUpdate s) (\<lambda>row.
      let s1 = s\<lparr>workspaces := sql_update (\<lambda>w. w_id w = ws) (\<lambda>w. w\<lparr>w_name := name\<rparr>) (workspaces s)\<rparr>
      in Inr ((ws, name, snd row), audit pr ws ''workspace.renamed'' req None s1))"

fun role_str :: "role \<Rightarrow> string" where
  "role_str Owner = ''owner''"
| "role_str Admin = ''admin''"
| "role_str Member = ''member''"

definition set_member ::
    "principal \<Rightarrow> uuid \<Rightarrow> string \<Rightarrow> role \<Rightarrow> string \<Rightarrow> db \<Rightarrow> ((string \<times> role) \<times> db) res" where
  "set_member pr ws sub ro req s =
    bind_res (scoped pr ws ManageMembers s) (\<lambda>_.
      if ro = Owner then Inl (HTTPException 403)
      else if member_role ws (issuer pr) sub s = Some Owner then Inl (HTTPException 403)
      else bind_res
        (upsert_member \<lparr>m_workspace = ws, m_issuer = issuer pr, m_subject = sub, m_role = ro\<rparr> s)
        (\<lambda>s1. Inr ((sub, ro), audit pr ws (''membership.set.'' @ role_str ro) req (Some sub) s1)))"

section \<open>Authorisation\<close>

lemma authorize_Inr [simp]: "authorize ro p = Inr u \<longleftrightarrow> (\<exists>r. ro = Some r \<and> p \<in> set (grants r))"
  by (auto simp: authorize_def split: option.splits)

lemma scoped_Inr:
  "scoped pr ws p s = Inr (w, r) \<longleftrightarrow>
    find_workspace ws s = Some w \<and> member_role ws (issuer pr) (subject pr) s = Some r \<and>
    p \<in> set (grants r)"
  by (auto simp: scoped_def Let_def split: option.splits)

lemma scoped_Inl:
  "scoped pr ws p s = Inl e \<Longrightarrow> e = HTTPException 404 \<or> e = HTTPException 403"
  by (auto simp: scoped_def authorize_def bind_res_Inl Let_def split: option.splits if_splits)

lemma member_role_cong:
  "memberships s' = memberships s \<Longrightarrow> member_role ws i x s' = member_role ws i x s"
  by (simp add: member_role_def)

lemma scoped_cong_tables:
  "workspaces s' = workspaces s \<Longrightarrow> memberships s' = memberships s \<Longrightarrow>
    scoped pr ws p s' = scoped pr ws p s"
  using member_role_cong[of s' s] by (simp add: scoped_def find_workspace_def cong: option.case_cong)

lemma audit_tables [simp]:
  "workspaces (audit pr ws a q t s) = workspaces s"
  "memberships (audit pr ws a q t s) = memberships s"
  "agent_definitions (audit pr ws a q t s) = agent_definitions s"
  "agent_runs (audit pr ws a q t s) = agent_runs s"
  "run_events (audit pr ws a q t s) = run_events s"
  "receipts (audit pr ws a q t s) = receipts s"
  "outbox (audit pr ws a q t s) = outbox s"
  "tool_definitions (audit pr ws a q t s) = tool_definitions s"
  "tool_policies (audit pr ws a q t s) = tool_policies s"
  "tool_calls (audit pr ws a q t s) = tool_calls s"
  "tool_approvals (audit pr ws a q t s) = tool_approvals s"
  "model_steps (audit pr ws a q t s) = model_steps s"
  "spend_records (audit pr ws a q t s) = spend_records s"
  "spend_budgets (audit pr ws a q t s) = spend_budgets s"
  "spend_alerts (audit pr ws a q t s) = spend_alerts s"
  "alert_outbox (audit pr ws a q t s) = alert_outbox s"
  "answer_cache (audit pr ws a q t s) = answer_cache s"
  "budget_events (audit pr ws a q t s) = budget_events s"
  "run_tasks (audit pr ws a q t s) = run_tasks s"
  "task_evidence (audit pr ws a q t s) = task_evidence s"
  by (simp_all add: audit_def)

section \<open>The owner\<close>

text \<open>
  The tables of workspaces and members are well formed: ids and member keys are not shared, every
  member belongs to a workspace, and every workspace has exactly one owner.
\<close>

definition member_key :: "membership_row \<Rightarrow> uuid \<times> string \<times> string" where
  "member_key m = (m_workspace m, m_issuer m, m_subject m)"

definition owners :: "uuid \<Rightarrow> db \<Rightarrow> membership_row list" where
  "owners ws s = filter (\<lambda>m. m_workspace m = ws \<and> m_role m = Owner) (memberships s)"

definition workspaces_wf :: "db \<Rightarrow> bool" where
  "workspaces_wf s \<longleftrightarrow>
    distinct (map w_id (workspaces s)) \<and> distinct (map member_key (memberships s)) \<and>
    (\<forall>m \<in> set (memberships s). m_workspace m \<in> set (map w_id (workspaces s))) \<and>
    (\<forall>i \<in> set (map w_id (workspaces s)). length (owners i s) = 1)"

lemma workspaces_wf_cong:
  "map w_id (workspaces s') = map w_id (workspaces s) \<Longrightarrow> memberships s' = memberships s \<Longrightarrow>
    workspaces_wf s' = workspaces_wf s"
  by (simp add: workspaces_wf_def owners_def)

lemma workspaces_wf_empty: "workspaces_wf empty_db"
  by (simp add: workspaces_wf_def empty_db_def)

lemma member_role_find:
  "member_role ws iss sub s =
    map_option m_role (find (\<lambda>m. member_key m = (ws, iss, sub)) (memberships s))"
  by (simp add: member_role_def member_key_def)

lemma create_workspace_wf:
  assumes "workspaces_wf s" and "create_workspace env pr name req s = Inr (x, s')"
  shows "workspaces_wf s'"
proof -
  let ?i = "tx_uuid env 0"
  let ?m = "\<lparr>m_workspace = ?i, m_issuer = issuer pr, m_subject = subject pr, m_role = Owner\<rparr>"
  have new: "?i \<notin> w_id ` set (workspaces s)"
    using assms(2) by (auto simp: create_workspace_def Let_def sql_exists_iff split: if_splits)
  then have none: "\<forall>m \<in> set (memberships s). m_workspace m \<noteq> ?i"
    using assms(1) unfolding workspaces_wf_def set_map by metis
  then have "insert_member ?m t = Inr (t\<lparr>memberships := memberships t @ [?m]\<rparr>)"
    if "memberships t = memberships s" for t
    using that by (auto simp: insert_member_def upsert_member_def Let_def sql_exists_iff)
  with assms(2) new have s': "workspaces s' = workspaces s @ [\<lparr>w_id = ?i, w_name = name\<rparr>]"
    "memberships s' = memberships s @ [?m]"
    by (auto simp: create_workspace_def Let_def sql_exists_iff split: if_splits)
  have old: "owners i s' = owners i s" if "i \<in> w_id ` set (workspaces s)" for i
    using that new by (auto simp: owners_def s')
  have "owners ?i s' = [?m]"
    using none by (simp add: owners_def s' filter_empty_conv)
  then show ?thesis
    using assms(1) new none old unfolding workspaces_wf_def s'
    by (auto simp: member_key_def image_iff)
qed

lemma rename_workspace_wf:
  assumes "workspaces_wf s" and "rename_workspace pr ws name req s = Inr (x, s')"
  shows "workspaces_wf s'"
proof -
  have t: "workspaces s' = sql_update (\<lambda>w. w_id w = ws) (\<lambda>w. w\<lparr>w_name := name\<rparr>) (workspaces s)"
    "memberships s' = memberships s"
    using assms(2) by (auto simp: rename_workspace_def Let_def)
  have "map w_id (workspaces s') = map w_id (workspaces s)"
    unfolding t by (rule sql_update_keys) simp
  with assms(1) t(2) show ?thesis using workspaces_wf_cong[of s' s] by simp
qed

text \<open>A role that is not \<open>Owner\<close> is written only over a member that is not the owner.\<close>

lemma set_member_wf:
  assumes wf: "workspaces_wf s" and ok: "set_member pr ws sub ro req s = Inr (x, s')"
  shows "workspaces_wf s'"
proof -
  let ?same = "\<lambda>m. m_workspace m = ws \<and> m_issuer m = issuer pr \<and> m_subject m = sub"
  let ?m = "\<lparr>m_workspace = ws, m_issuer = issuer pr, m_subject = sub, m_role = ro\<rparr>"
  from ok have ro: "ro \<noteq> Owner" and keep: "member_role ws (issuer pr) sub s \<noteq> Some Owner"
    by (auto simp: set_member_def split: if_splits)
  from ok obtain w where w: "find_workspace ws s = Some w"
    by (auto simp: set_member_def scoped_Inr split: if_splits)
  have not_owner: "\<forall>m \<in> set (memberships s). ?same m \<longrightarrow> m_role m \<noteq> Owner"
  proof (intro ballI impI)
    fix m assume m: "m \<in> set (memberships s)" "?same m"
    have "find (\<lambda>m. member_key m = (ws, issuer pr, sub)) (memberships s) = Some m"
      using wf m by (subst find_Some_iff_unique) (auto simp: workspaces_wf_def member_key_def)
    with keep show "m_role m \<noteq> Owner" by (simp add: member_role_find)
  qed
  have ws_in: "ws \<in> w_id ` set (workspaces s)"
    using w by (auto simp: find_workspace_def dest: find_SomeD)
  have "workspaces s' = workspaces s \<and>
    (memberships s' = sql_update ?same (\<lambda>m. m\<lparr>m_role := ro\<rparr>) (memberships s) \<or>
     memberships s' = memberships s @ [?m] \<and> \<not> sql_exists ?same (memberships s))"
    using ok ro by (auto simp: set_member_def upsert_member_def Let_def split: if_splits)
  moreover have "owners v s' = owners v s"
    if "memberships s' = sql_update ?same (\<lambda>m. m\<lparr>m_role := ro\<rparr>) (memberships s)" for v
  proof -
    have "filter (\<lambda>m. m_workspace m = v \<and> m_role m = Owner)
        (sql_update ?same (\<lambda>m. m\<lparr>m_role := ro\<rparr>) ms) =
      filter (\<lambda>m. m_workspace m = v \<and> m_role m = Owner) ms"
      if "\<forall>m \<in> set ms. ?same m \<longrightarrow> m_role m \<noteq> Owner" for ms
      using that ro by (induction ms) auto
    with that not_owner show ?thesis by (simp add: owners_def)
  qed
  moreover have "map member_key (sql_update ?same (\<lambda>m. m\<lparr>m_role := ro\<rparr>) ms) = map member_key ms"
    for ms by (rule sql_update_keys) (simp add: member_key_def)
  ultimately show ?thesis
    using wf ro ws_in unfolding workspaces_wf_def
    by (elim conjE disjE)
      (auto simp: owners_def set_sql_update sql_exists_iff member_key_def)
qed

section \<open>Listing\<close>

text \<open>The listing of the caller's workspaces meets the paging contract.\<close>

definition my_workspaces :: "principal \<Rightarrow> db \<Rightarrow> workspace_row list" where
  "my_workspaces pr s = sort_key w_id (filter (visible_to pr s) (workspaces s))"

interpretation ws_pages: keyset w_id "my_workspaces pr" "list_workspaces pr" workspaces_wf for pr
proof unfold_locales
  fix s :: db and n c
  show "workspaces_wf s \<Longrightarrow> sorted_wrt (<) (map w_id (my_workspaces pr s))"
    unfolding my_workspaces_def by (rule keyset_query_sorted) (simp add: workspaces_wf_def)
  show "list_workspaces pr s n c =
      take n (filter (\<lambda>r. after_cursor c (w_id r)) (my_workspaces pr s))"
    by (simp add: list_workspaces_def my_workspaces_def keyset_query_take)
qed

end
