(* ===== verification/Run_Events.thy ===== *)
theory Run_Events
  imports Schema
begin

text \<open>
  The journal of a run (\<open>runtime_events.py\<close>). \<open>append_run_event\<close> numbers the event with one
  more than the largest number the run has; the caller holds the lock on the run's row.
\<close>

definition events_of :: "uuid \<Rightarrow> db \<Rightarrow> event_row list" where
  "events_of run s = filter (\<lambda>e. e_run e = run) (run_events s)"

definition next_event_no :: "uuid \<Rightarrow> db \<Rightarrow> nat" where
  "next_event_no run s = fold max (map e_no (events_of run s)) 0 + 1"

definition append_run_event ::
    "txenv \<Rightarrow> uuid \<Rightarrow> uuid \<Rightarrow> string \<Rightarrow> dict \<Rightarrow> db \<Rightarrow> db" where
  "append_run_event env ws run ty payload s = s\<lparr>run_events := run_events s @
    [\<lparr>e_workspace = ws, e_run = run, e_no = next_event_no run s, e_type = ty,
      e_payload = payload, e_created = tx_now env\<rparr>]\<rparr>"

lemma append_run_event_tables [simp]:
  "workspaces (append_run_event env ws run ty p s) = workspaces s"
  "memberships (append_run_event env ws run ty p s) = memberships s"
  "security_events (append_run_event env ws run ty p s) = security_events s"
  "agent_definitions (append_run_event env ws run ty p s) = agent_definitions s"
  "agent_runs (append_run_event env ws run ty p s) = agent_runs s"
  "receipts (append_run_event env ws run ty p s) = receipts s"
  "outbox (append_run_event env ws run ty p s) = outbox s"
  "tool_definitions (append_run_event env ws run ty p s) = tool_definitions s"
  "tool_policies (append_run_event env ws run ty p s) = tool_policies s"
  "tool_calls (append_run_event env ws run ty p s) = tool_calls s"
  "tool_approvals (append_run_event env ws run ty p s) = tool_approvals s"
  "model_steps (append_run_event env ws run ty p s) = model_steps s"
  "spend_records (append_run_event env ws run ty p s) = spend_records s"
  "spend_budgets (append_run_event env ws run ty p s) = spend_budgets s"
  "budget_events (append_run_event env ws run ty p s) = budget_events s"
  "spend_alerts (append_run_event env ws run ty p s) = spend_alerts s"
  "alert_outbox (append_run_event env ws run ty p s) = alert_outbox s"
  "answer_cache (append_run_event env ws run ty p s) = answer_cache s"
  "run_retrievals (append_run_event env ws run ty p s) = run_retrievals s"
  "retrieval_chunks (append_run_event env ws run ty p s) = retrieval_chunks s"
  "rag_chunks (append_run_event env ws run ty p s) = rag_chunks s"
  "rag_sources (append_run_event env ws run ty p s) = rag_sources s"
  "rag_acl (append_run_event env ws run ty p s) = rag_acl s"
  "run_tasks (append_run_event env ws run ty p s) = run_tasks s"
  "task_dependencies (append_run_event env ws run ty p s) = task_dependencies s"
  "task_evidence (append_run_event env ws run ty p s) = task_evidence s"
  "retrieval_contexts (append_run_event env ws run ty p s) = retrieval_contexts s"
  "tenant_agents (append_run_event env ws run ty p s) = tenant_agents s"
  by (simp_all add: append_run_event_def)

lemma find_run_append_event [simp]:
  "find_run i (append_run_event env ws run ty p s) = find_run i s"
  by (simp add: find_run_def)

lemma events_of_append:
  "events_of i (append_run_event env ws run ty p s) =
    (if i = run
     then events_of i s @ [\<lparr>e_workspace = ws, e_run = run, e_no = next_event_no run s, e_type = ty,
            e_payload = p, e_created = tx_now env\<rparr>]
     else events_of i s)"
  by (simp add: append_run_event_def events_of_def)

lemma events_of_cong: "run_events s' = run_events s \<Longrightarrow> events_of i s' = events_of i s"
  by (simp add: events_of_def)

section \<open>The journal is numbered without gaps\<close>

definition journal_ok :: "db \<Rightarrow> bool" where
  "journal_ok s \<longleftrightarrow> (\<forall>run. map e_no (events_of run s) = map Suc [0..<length (events_of run s)])"

lemma fold_max_upt: "fold max (map Suc [0..<n]) 0 = n"
  by (induction n) simp_all

lemma journal_next: "journal_ok s \<Longrightarrow> next_event_no run s = Suc (length (events_of run s))"
  unfolding journal_ok_def next_event_no_def by (simp only: fold_max_upt)

lemma journal_append [step_intros]:
  "journal_ok s \<Longrightarrow> journal_ok (append_run_event env ws run ty p s)"
  by (auto simp: journal_ok_def events_of_append journal_next)

lemma journal_cong: "run_events s' = run_events s \<Longrightarrow> journal_ok s' = journal_ok s"
  by (simp add: journal_ok_def events_of_def)

lemma journal_empty: "journal_ok empty_db"
  by (simp add: journal_ok_def events_of_def empty_db_def)

text \<open>
  The first event of a new run is inserted with the number 1; \<open>UNIQUE (run_id,event_no)\<close> rejects
  it when the run already has it. The numbers \<open>append_run_event\<close> chooses never collide.
\<close>

definition insert_first_event ::
    "txenv \<Rightarrow> uuid \<Rightarrow> uuid \<Rightarrow> string \<Rightarrow> dict \<Rightarrow> db \<Rightarrow> db res" where
  "insert_first_event env ws run ty payload s =
    (if sql_exists (\<lambda>e. e_run e = run \<and> e_no e = 1) (run_events s)
     then Inl (UniqueViolation ''agent_run_events_run_id_event_no'')
     else Inr (s\<lparr>run_events := run_events s @
       [\<lparr>e_workspace = ws, e_run = run, e_no = 1, e_type = ty, e_payload = payload,
         e_created = tx_now env\<rparr>]\<rparr>))"

lemma journal_number_free:
  assumes "journal_ok s" and "e \<in> set (run_events s)" and "e_run e = run"
  shows "e_no e < next_event_no run s"
proof -
  have "e_no e \<in> set (map e_no (events_of run s))"
    using assms(2,3) by (auto simp: events_of_def)
  also have "\<dots> = set (map Suc [0..<length (events_of run s)])"
    using assms(1) unfolding journal_ok_def by metis
  finally show ?thesis by (auto simp: journal_next[OF assms(1)])
qed

lemma journal_no_one:
  assumes "journal_ok s" and "\<not> sql_exists (\<lambda>e. e_run e = run \<and> e_no e = 1) (run_events s)"
  shows "events_of run s = []"
proof (rule ccontr)
  assume "events_of run s \<noteq> []"
  then have "1 \<in> set (map Suc [0..<length (events_of run s)])"
    by (auto simp: image_iff)
  then have "1 \<in> set (map e_no (events_of run s))"
    using assms(1) unfolding journal_ok_def by metis
  with assms(2) show False by (auto simp: sql_exists_iff events_of_def)
qed

lemma insert_first_event_append:
  assumes "journal_ok s" and "insert_first_event env ws run ty p s = Inr s'"
  shows "s' = append_run_event env ws run ty p s"
proof -
  have "events_of run s = []"
    using assms by (intro journal_no_one) (auto simp: insert_first_event_def split: if_splits)
  then show ?thesis
    using assms(2) by (simp add: insert_first_event_def append_run_event_def next_event_no_def
        split: if_splits)
qed

end
