(* ===== verification/Run_State.thy ===== *)
theory Run_State
  imports Run_Events
begin

text \<open>
  The run state store (\<open>run_state.py\<close>): a worker claims the job of a run, holds it under a lease
  that it renews, and finishes it; expired leases and orphaned runs are recovered. A transaction is
  a function from the database to its result and the new database. Every operation locks the rows it
  decides on, so an execution of many workers is a sequence of these transactions.
\<close>

section \<open>Jobs and execution contexts\<close>

definition MAX_RUN_ATTEMPTS :: nat where
  "MAX_RUN_ATTEMPTS = 3"

definition run_topic :: string where
  "run_topic = ''agent.run.queued.v1''"

record job_payload =
  jp_run :: uuid
  jp_workspace :: uuid
  jp_agent :: uuid
  jp_trace :: uuid
  jp_kind :: agent_kind

record worker_job =
  j_id :: uuid
  j_workspace :: uuid
  j_run :: uuid
  j_topic :: string
  j_payload :: job_payload

record exec_context =
  x_job :: uuid
  x_workspace :: uuid
  x_run :: uuid
  x_agent :: uuid
  x_trace :: uuid
  x_input :: string
  x_instructions :: "string option"
  x_model_profile :: "string option"
  x_attempt :: nat
  x_kind :: agent_kind
  x_snapshot :: "json option"
  x_allowed_tools :: "string list option"
  x_tool_aliases :: "(string \<times> string) list option"

datatype claim_result = Execute exec_context | Ack

text \<open>\<open>JobPayload.model_validate\<close>: old jobs omit \<open>agent_kind\<close>, which defaults to custom.\<close>

definition validate_payload :: "payload_row \<Rightarrow> job_payload" where
  "validate_payload p =
    \<lparr>jp_run = p_run p, jp_workspace = p_workspace p, jp_agent = p_agent p, jp_trace = p_trace p,
     jp_kind = (case p_kind p of None \<Rightarrow> Custom | Some k \<Rightarrow> k)\<rparr>"

section \<open>Retry delay\<close>

text \<open>
  \<open>round(base * (1 + 0.25 * jitter), 3)\<close> in milliseconds, rounding half to even. The product is
  taken exactly; the binary rounding of its floating-point factors is not modelled.
\<close>

definition round_div :: "int \<Rightarrow> int \<Rightarrow> int" where
  "round_div n d =
    (let q = n div d; r = n mod d
     in if 2 * r < d then q else if d < 2 * r then q + 1 else if even q then q else q + 1)"

definition jittered_ms :: "int \<Rightarrow> nat \<Rightarrow> int" where
  "jittered_ms base h = round_div (base * 1000 * (4 * 65535 + int h)) (4 * 65535)"

definition retry_delay_ms :: "uuid \<Rightarrow> nat \<Rightarrow> int" where
  "retry_delay_ms run attempt =
    jittered_ms (min 60 (2 ^ min attempt 6)) (digest_head16 (uuid_str run @ '':'' @ nat_str attempt))"

definition ms_repr :: "int \<Rightarrow> string" where
  "ms_repr n =
    (let f = drop 1 (nat_str (nat (1000 + n mod 1000)));
         g = rev (dropWhile (\<lambda>c. c = CHR ''0'') (rev f))
     in int_str (n div 1000) @ ''.'' @ (if g = [] then ''0'' else g))"

definition json_seconds :: "int \<Rightarrow> json" where
  "json_seconds ms = JFloat (Finite (of_int ms / 1000)) (ms_repr ms)"

section \<open>Reading a job and its run\<close>

definition find_outbox :: "uuid \<Rightarrow> db \<Rightarrow> outbox_row option" where
  "find_outbox i s = find (\<lambda>x. o_id x = i) (outbox s)"

definition find_receipt :: "uuid \<Rightarrow> db \<Rightarrow> receipt_row option" where
  "find_receipt i s = find (\<lambda>x. rc_job x = i) (receipts s)"

definition find_run_in :: "uuid \<Rightarrow> uuid \<Rightarrow> db \<Rightarrow> run_row option" where
  "find_run_in i ws s = find (\<lambda>r. r_id r = i \<and> r_workspace r = ws) (agent_runs s)"

definition validate_job :: "worker_job \<Rightarrow> db \<Rightarrow> job_payload option" where
  "validate_job job s =
    (case find_outbox (j_id job) s of
       None \<Rightarrow> None
     | Some row \<Rightarrow>
         if o_dead row \<noteq> None then None
         else let durable = validate_payload (o_payload row)
              in if o_workspace row \<noteq> j_workspace job \<or> o_run row \<noteq> j_run job \<or>
                    o_topic row \<noteq> j_topic job \<or> durable \<noteq> j_payload job \<or>
                    jp_workspace (j_payload job) \<noteq> j_workspace job \<or>
                    jp_run (j_payload job) \<noteq> j_run job
                 then None else Some durable)"

definition run_kind :: "run_row \<Rightarrow> agent_kind" where
  "run_kind r = (if r_tenant_agent r \<noteq> None then Standard else Custom)"

definition run_target :: "run_row \<Rightarrow> uuid option" where
  "run_target r = (case r_tenant_agent r of Some t \<Rightarrow> Some t | None \<Rightarrow> r_agent r)"

text \<open>
  What a run executes with: the fields of the frozen snapshot for a standard agent, which must
  have the right types, and the agent definition for a custom one.
\<close>

record run_profile =
  rp_instructions :: "string option"
  rp_model_profile :: "string option"
  rp_allowed :: "string list option"
  rp_aliases :: "(string \<times> string) list option"

definition snapshot_profile :: "json option \<Rightarrow> run_profile option" where
  "snapshot_profile snap =
    (case snap of
       Some (JObj d) \<Rightarrow>
         (case (map_of d ''instructions'', map_of d ''model_profile'', map_of d ''allowed_tools'',
                case map_of d ''tool_aliases'' of None \<Rightarrow> JObj [] | Some v \<Rightarrow> v) of
            (Some (JStr ins), Some (JStr prof), Some (JArr allowed), JObj aliases) \<Rightarrow>
              if ins = [] \<or> prof = [] \<or> \<not> list_all is_str allowed \<or> \<not> list_all (is_str \<circ> snd) aliases
              then None
              else Some \<lparr>rp_instructions = Some ins, rp_model_profile = Some prof,
                         rp_allowed = Some (map the_str allowed),
                         rp_aliases = Some (map (\<lambda>(k, v). (k, the_str v)) aliases)\<rparr>
          | _ \<Rightarrow> None)
     | _ \<Rightarrow> None)"

definition claim_profile :: "run_row \<Rightarrow> db \<Rightarrow> run_profile option" where
  "claim_profile r s =
    (if run_kind r = Standard then snapshot_profile (r_snapshot r)
     else let a = (case r_agent r of
                     None \<Rightarrow> None
                   | Some i \<Rightarrow> find (\<lambda>a. a_id a = i \<and> a_workspace a = r_workspace r) (agent_definitions s))
          in Some \<lparr>rp_instructions = map_option a_instructions a,
                   rp_model_profile = map_option a_model_profile a,
                   rp_allowed = None, rp_aliases = None\<rparr>)"

section \<open>Receipts\<close>

definition terminal_receipt ::
    "txenv \<Rightarrow> worker_job \<Rightarrow> receipt_status \<Rightarrow> string \<Rightarrow> db \<Rightarrow> db" where
  "terminal_receipt env job st w s =
    (if sql_exists (\<lambda>x. rc_job x = j_id job) (receipts s)
     then s\<lparr>receipts := sql_update (\<lambda>x. rc_job x = j_id job)
            (\<lambda>x. x\<lparr>rc_status := st, rc_delivery := rc_delivery x + 1, rc_worker := Some w,
                   rc_lease_expires := None, rc_updated := tx_now env\<rparr>) (receipts s)\<rparr>
     else s\<lparr>receipts := receipts s @
            [\<lparr>rc_job = j_id job, rc_workspace = j_workspace job, rc_run = j_run job, rc_status = st,
              rc_delivery = 1, rc_worker = Some w, rc_lease_expires = None, rc_error = None,
              rc_updated = tx_now env\<rparr>]\<rparr>)"

definition processing_receipt ::
    "txenv \<Rightarrow> worker_job \<Rightarrow> string \<Rightarrow> time option \<Rightarrow> db \<Rightarrow> db" where
  "processing_receipt env job w lease s =
    (if sql_exists (\<lambda>x. rc_job x = j_id job) (receipts s)
     then s\<lparr>receipts := sql_update (\<lambda>x. rc_job x = j_id job)
            (\<lambda>x. x\<lparr>rc_status := Processing, rc_delivery := rc_delivery x + 1, rc_worker := Some w,
                   rc_lease_expires := lease, rc_error := None, rc_updated := tx_now env\<rparr>)
            (receipts s)\<rparr>
     else s\<lparr>receipts := receipts s @
            [\<lparr>rc_job = j_id job, rc_workspace = j_workspace job, rc_run = j_run job,
              rc_status = Processing, rc_delivery = 1, rc_worker = Some w, rc_lease_expires = lease,
              rc_error = None, rc_updated = tx_now env\<rparr>]\<rparr>)"

definition update_receipts ::
    "(receipt_row \<Rightarrow> bool) \<Rightarrow> (receipt_row \<Rightarrow> receipt_row) \<Rightarrow> db \<Rightarrow> db" where
  "update_receipts p f s = s\<lparr>receipts := sql_update p f (receipts s)\<rparr>"

definition expired :: "time option \<Rightarrow> time \<Rightarrow> bool" where
  "expired lease t = (case lease of None \<Rightarrow> True | Some l \<Rightarrow> l \<le> t)"

fun final_receipt :: "run_status \<Rightarrow> receipt_status" where
  "final_receipt Succeeded = RSucceeded"
| "final_receipt Failed = RFailed"
| "final_receipt _ = RCancelled"

section \<open>Back to the queue\<close>

text \<open>The run columns that every return to the queue writes.\<close>

definition requeue :: "txenv \<Rightarrow> run_row \<Rightarrow> run_row" where
  "requeue env r = r\<lparr>r_status := Queued, r_lease_owner := None, r_lease_expires := None,
     r_updated := tx_now env\<rparr>"

definition finish :: "txenv \<Rightarrow> run_status \<Rightarrow> run_row \<Rightarrow> run_row" where
  "finish env st r = r\<lparr>r_status := st, r_finished := Some (tx_now env), r_lease_owner := None,
     r_lease_expires := None, r_updated := tx_now env\<rparr>"

definition run_payload :: "run_row \<Rightarrow> uuid \<Rightarrow> payload_row" where
  "run_payload r target = \<lparr>p_run = r_id r, p_workspace = r_workspace r, p_agent = target,
     p_trace = r_trace r, p_kind = Some (run_kind r)\<rparr>"

definition outbox_job :: "txenv \<Rightarrow> nat \<Rightarrow> time \<Rightarrow> run_row \<Rightarrow> outbox_row" where
  "outbox_job env k available r =
    \<lparr>o_id = tx_uuid env k, o_workspace = r_workspace r, o_run = r_id r, o_topic = run_topic,
     o_payload = run_payload r (case run_target r of Some t \<Rightarrow> t | None \<Rightarrow> 0),
     o_attempts = 0, o_available = available, o_published = None, o_dead = None, o_error = None,
     o_created = tx_now env\<rparr>"

definition cancel_locked ::
    "txenv \<Rightarrow> run_row \<Rightarrow> worker_job \<Rightarrow> string \<Rightarrow> db \<Rightarrow> db res" where
  "cancel_locked env run job w s =
    bind_res
      (if r_status run \<noteq> Cancelled
       then bind_res (update_run env (r_id run) (finish env Cancelled) s) (\<lambda>s1.
         Inr (append_run_event env (r_workspace run) (r_id run) ''run.cancelled''
           [(''reason'', JStr ''requested'')] s1))
       else Inr s)
      (\<lambda>s2. Inr (terminal_receipt env job RCancelled w s2))"

section \<open>Claim\<close>

text \<open>
  A run whose lease has expired goes back to the queue first: every receipt that still processes
  it is superseded and the recovery is journaled.
\<close>

definition claim_recover :: "txenv \<Rightarrow> run_row \<Rightarrow> db \<Rightarrow> db res" where
  "claim_recover env run s =
    (let s1 = update_receipts (\<lambda>x. rc_run x = r_id run \<and> rc_status x = Processing)
                (\<lambda>x. x\<lparr>rc_status := Superseded, rc_updated := tx_now env,
                       rc_error := Some ''lease_expired''\<rparr>) s
     in bind_res (update_run env (r_id run) (requeue env) s1) (\<lambda>s2.
       Inr (append_run_event env (r_workspace run) (r_id run) ''run.recovered''
         [(''previous_attempt'', JInt (int (r_attempt run)))] s2)))"

definition start_attempt :: "txenv \<Rightarrow> string \<Rightarrow> int \<Rightarrow> run_row \<Rightarrow> run_row" where
  "start_attempt env w lease r =
    r\<lparr>r_status := Running, r_attempt := r_attempt r + 1, r_lease_owner := Some w,
      r_lease_expires := Some (tx_now env + seconds lease), r_updated := tx_now env,
      r_failure := None\<rparr>"

definition context_of :: "worker_job \<Rightarrow> run_row \<Rightarrow> run_profile \<Rightarrow> nat \<Rightarrow> uuid \<Rightarrow> exec_context" where
  "context_of job run prof attempt agent =
    \<lparr>x_job = j_id job, x_workspace = r_workspace run, x_run = r_id run, x_agent = agent,
     x_trace = r_trace run, x_input = r_input run, x_instructions = rp_instructions prof,
     x_model_profile = rp_model_profile prof, x_attempt = attempt, x_kind = run_kind run,
     x_snapshot = (if run_kind run = Standard then r_snapshot run else None),
     x_allowed_tools = rp_allowed prof, x_tool_aliases = rp_aliases prof\<rparr>"

definition claim_start ::
    "txenv \<Rightarrow> worker_job \<Rightarrow> run_row \<Rightarrow> run_profile \<Rightarrow> uuid \<Rightarrow> string \<Rightarrow> int \<Rightarrow> db \<Rightarrow>
     (claim_result \<times> db) res" where
  "claim_start env job run prof agent w lease s =
    bind_res (update_run env (r_id run) (start_attempt env w lease) s) (\<lambda>s1.
      let attempt = r_attempt run + 1;
          expires = Some (tx_now env + seconds lease);
          s2 = processing_receipt env job w expires s1;
          s3 = append_run_event env (r_workspace run) (r_id run) ''run.started''
                 [(''attempt'', JInt (int attempt)), (''job_id'', JStr (uuid_str (j_id job)))] s2
      in Inr (Execute (context_of job run prof attempt agent), s3))"

definition claim ::
    "txenv \<Rightarrow> worker_job \<Rightarrow> string \<Rightarrow> int \<Rightarrow> db \<Rightarrow> (claim_result \<times> db) res" where
  "claim env job w lease s =
    (if \<not> (3 \<le> lease \<and> lease \<le> 300)
     then Inl (ValueError ''lease_seconds must be between 3 and 300'')
     else case validate_job job s of
       None \<Rightarrow> Inr (Ack, s)
     | Some durable \<Rightarrow>
       let receipt = find_receipt (j_id job) s in
       if (case receipt of None \<Rightarrow> False | Some rc \<Rightarrow> rc_status rc \<noteq> Processing) then Inr (Ack, s)
       else case find_run_in (j_run job) (j_workspace job) s of
         None \<Rightarrow> Inr (Ack, s)
       | Some run \<Rightarrow>
         if run_target run \<noteq> Some (jp_agent durable) \<or> run_kind run \<noteq> jp_kind durable \<or>
            r_trace run \<noteq> jp_trace durable
         then Inr (Ack, s)
         else case claim_profile run s of
           None \<Rightarrow> Inr (Ack, s)
         | Some prof \<Rightarrow>
           if terminal (r_status run)
           then Inr (Ack, terminal_receipt env job (final_receipt (r_status run)) w s)
           else if r_status run = WaitingForApproval
           then Inr (Ack, terminal_receipt env job Superseded w s)
           else if (case receipt of None \<Rightarrow> False
                    | Some rc \<Rightarrow> \<not> expired (rc_lease_expires rc) (tx_now env))
           then Inr (Ack, s)
           else if r_status run = Running \<and> \<not> expired (r_lease_expires run) (tx_now env)
           then Inr (Ack, terminal_receipt env job Superseded w s)
           else bind_res (if r_status run = Running then claim_recover env run s else Inr s) (\<lambda>s1.
             if r_cancel_requested run \<noteq> None
             then bind_res (cancel_locked env run job w s1) (\<lambda>s2. Inr (Ack, s2))
             else claim_start env job run prof (jp_agent durable) w lease s1))"

section \<open>Lease, cancellation, ownership\<close>

text \<open>
  Both updates of \<open>renew_lease\<close> are committed, also when only one of them matched; the result says
  whether both did.
\<close>

definition renew_lease ::
    "txenv \<Rightarrow> uuid \<Rightarrow> uuid \<Rightarrow> string \<Rightarrow> int \<Rightarrow> db \<Rightarrow> (bool \<times> db) res" where
  "renew_lease env jid rid w lease s =
    (let p = (\<lambda>x. rc_job x = jid \<and> rc_run x = rid \<and> rc_status x = Processing \<and>
                  rc_worker x = Some w \<and> \<not> expired (rc_lease_expires x) (tx_now env));
         until = Some (tx_now env + seconds lease);
         n = rowcount p (receipts s);
         s1 = update_receipts p (\<lambda>x. x\<lparr>rc_lease_expires := until, rc_updated := tx_now env\<rparr>) s;
         q = (\<lambda>r. r_id r = rid \<and> r_status r = Running \<and> r_lease_owner r = Some w \<and>
                  \<not> expired (r_lease_expires r) (tx_now env));
         m = rowcount q (agent_runs s1);
         s2 = s1\<lparr>agent_runs := sql_update q
                (\<lambda>r. r\<lparr>r_lease_expires := until, r_updated := tx_now env\<rparr>) (agent_runs s1)\<rparr>
     in Inr (n = 1 \<and> m = 1, s2))"

definition is_cancel_requested :: "uuid \<Rightarrow> db \<Rightarrow> bool" where
  "is_cancel_requested rid s =
    (case find_run rid s of
       None \<Rightarrow> True
     | Some r \<Rightarrow> r_status r = Cancelled \<or> r_cancel_requested r \<noteq> None)"

definition owned_processing ::
    "txenv \<Rightarrow> worker_job \<Rightarrow> string \<Rightarrow> db \<Rightarrow> (run_row \<times> receipt_row) option" where
  "owned_processing env job w s =
    (case (find_run_in (j_run job) (j_workspace job) s, find_receipt (j_id job) s) of
       (Some run, Some rc) \<Rightarrow>
         if r_status run \<noteq> Running \<or> r_lease_owner run \<noteq> Some w \<or> rc_status rc \<noteq> Processing \<or>
            rc_worker rc \<noteq> Some w
         then None
         else if expired (r_lease_expires run) (tx_now env) \<or> expired (rc_lease_expires rc) (tx_now env)
         then None
         else Some (run, rc)
     | _ \<Rightarrow> None)"

section \<open>Finishing an attempt\<close>

text \<open>
  The operations of the owner: each checks the ownership, gives way to a requested cancellation,
  and then writes the run, its receipt and its journal.
\<close>

definition receipt_done ::
    "txenv \<Rightarrow> worker_job \<Rightarrow> receipt_status \<Rightarrow> string option \<Rightarrow> db \<Rightarrow> db" where
  "receipt_done env job st err s =
    update_receipts (\<lambda>x. rc_job x = j_id job)
      (\<lambda>x. x\<lparr>rc_status := st, rc_lease_expires := None, rc_updated := tx_now env,
             rc_error := (case err of None \<Rightarrow> rc_error x | Some e \<Rightarrow> Some e)\<rparr>) s"

definition park :: "txenv \<Rightarrow> run_row \<Rightarrow> run_row" where
  "park env r = r\<lparr>r_status := WaitingForApproval, r_lease_owner := None, r_lease_expires := None,
     r_updated := tx_now env\<rparr>"

definition wait_for_approval ::
    "txenv \<Rightarrow> worker_job \<Rightarrow> string \<Rightarrow> uuid \<Rightarrow> uuid \<Rightarrow> db \<Rightarrow> (bool \<times> db) res" where
  "wait_for_approval env job w cid aid s =
    (case owned_processing env job w s of
       None \<Rightarrow> Inr (False, s)
     | Some (run, rc) \<Rightarrow>
         if r_cancel_requested run \<noteq> None
         then bind_res (cancel_locked env run job w s) (\<lambda>s1. Inr (True, s1))
         else if \<not> sql_exists (\<lambda>a. ap_id a = aid \<and> ap_call a = cid \<and> ap_run a = j_run job \<and>
                    ap_workspace a = j_workspace job \<and> ap_status a = Pending \<and>
                    ap_expires a > tx_now env) (tool_approvals s)
         then Inr (False, s)
         else bind_res (update_run env (r_id run) (park env) s) (\<lambda>s1.
           Inr (True, append_run_event env (r_workspace run) (r_id run) ''run.waiting_for_approval''
             [(''tool_call_id'', JStr (uuid_str cid)), (''approval_id'', JStr (uuid_str aid))]
             (receipt_done env job Superseded (Some ''waiting_for_approval'') s1))))"

definition complete_success :: "txenv \<Rightarrow> worker_job \<Rightarrow> string \<Rightarrow> db \<Rightarrow> (bool \<times> db) res" where
  "complete_success env job w s =
    (case owned_processing env job w s of
       None \<Rightarrow> Inr (False, s)
     | Some (run, rc) \<Rightarrow>
         if r_cancel_requested run \<noteq> None
         then bind_res (cancel_locked env run job w s) (\<lambda>s1. Inr (True, s1))
         else bind_res (update_run env (r_id run)
             (\<lambda>r. (finish env Succeeded r)\<lparr>r_failure := None\<rparr>) s) (\<lambda>s1.
           Inr (True, append_run_event env (r_workspace run) (r_id run) ''run.succeeded''
             [(''attempt'', JInt (int (r_attempt run)))]
             (receipt_done env job RSucceeded None s1))))"

definition schedule_retry ::
    "txenv \<Rightarrow> worker_job \<Rightarrow> run_row \<Rightarrow> string \<Rightarrow> db \<Rightarrow> (bool \<times> db) res" where
  "schedule_retry env job run code s =
    (let delay = retry_delay_ms (r_id run) (r_attempt run)
     in bind_res (update_run env (r_id run) (requeue env) s) (\<lambda>s1.
       let s2 = receipt_done env job RFailed (Some code) s1;
           s3 = append_run_event env (r_workspace run) (r_id run) ''run.retry_scheduled''
                  [(''attempt'', JInt (int (r_attempt run))), (''error_code'', JStr code),
                   (''delay_seconds'', json_seconds delay)] s2
       in bind_res (insert_outbox (outbox_job env 0 (tx_now env + delay * 1000) run) s3)
            (\<lambda>s4. Inr (True, s4))))"

definition fail_run ::
    "txenv \<Rightarrow> worker_job \<Rightarrow> run_row \<Rightarrow> string \<Rightarrow> db \<Rightarrow> (bool \<times> db) res" where
  "fail_run env job run code s =
    bind_res (update_run env (r_id run)
        (\<lambda>r. (finish env Failed r)\<lparr>r_failure := Some code\<rparr>) s) (\<lambda>s1.
      Inr (True, append_run_event env (r_workspace run) (r_id run) ''run.failed''
        [(''attempt'', JInt (int (r_attempt run))), (''error_code'', JStr code)]
        (receipt_done env job RFailed (Some code) s1)))"

definition complete_failure ::
    "txenv \<Rightarrow> worker_job \<Rightarrow> string \<Rightarrow> string \<Rightarrow> bool \<Rightarrow> db \<Rightarrow> (bool \<times> db) res" where
  "complete_failure env job w code retryable s =
    (if code = [] \<or> length code > 100 then Inl (ValueError ''invalid error_code'')
     else case owned_processing env job w s of
       None \<Rightarrow> Inr (False, s)
     | Some (run, rc) \<Rightarrow>
         if r_cancel_requested run \<noteq> None
         then bind_res (cancel_locked env run job w s) (\<lambda>s1. Inr (True, s1))
         else if retryable \<and> r_attempt run < MAX_RUN_ATTEMPTS
         then schedule_retry env job run code s
         else fail_run env job run code s)"

section \<open>Recovery\<close>

text \<open>
  \<open>locked\<close> is the set of run ids another transaction holds: \<open>FOR UPDATE SKIP LOCKED\<close> passes
  them over. \<open>k\<close> counts the identifiers drawn for new jobs.
\<close>

definition recover_one :: "txenv \<Rightarrow> nat \<Rightarrow> run_row \<Rightarrow> db \<Rightarrow> db res" where
  "recover_one env k run s =
    (let s1 = update_receipts (\<lambda>x. rc_run x = r_id run \<and> rc_status x = Processing)
                (\<lambda>x. x\<lparr>rc_status := Superseded, rc_lease_expires := None,
                       rc_error := Some ''lease_expired'', rc_updated := tx_now env\<rparr>) s
     in bind_res (update_run env (r_id run) (requeue env) s1) (\<lambda>s2.
       insert_outbox (outbox_job env k (tx_now env) run)
         (append_run_event env (r_workspace run) (r_id run) ''run.recovered''
           [(''previous_attempt'', JInt (int (r_attempt run)))] s2)))"

definition requeue_orphan :: "txenv \<Rightarrow> nat \<Rightarrow> run_row \<Rightarrow> db \<Rightarrow> db res" where
  "requeue_orphan env k run s =
    bind_res (update_run env (r_id run) (\<lambda>r. r\<lparr>r_updated := tx_now env\<rparr>) s) (\<lambda>s1.
      insert_outbox (outbox_job env k (tx_now env) run)
        (append_run_event env (r_workspace run) (r_id run) ''run.redis_requeued''
          [(''reason'', JStr ''delivery_recovery'')] s1))"

fun each_row ::
    "(nat \<Rightarrow> run_row \<Rightarrow> db \<Rightarrow> db res) \<Rightarrow> nat \<Rightarrow> run_row list \<Rightarrow> db \<Rightarrow> db res" where
  "each_row f k [] s = Inr s"
| "each_row f k (r # rs) s = bind_res (f k r s) (\<lambda>s1. each_row f (Suc k) rs s1)"

definition expired_runs :: "txenv \<Rightarrow> (uuid \<Rightarrow> bool) \<Rightarrow> nat \<Rightarrow> db \<Rightarrow> run_row list" where
  "expired_runs env locked n s =
    order_limit (\<lambda>r. (r_lease_expires r, r_id r)) n
      (\<lambda>r. r_status r = Running \<and> \<not> locked (r_id r) \<and>
           (case r_lease_expires r of None \<Rightarrow> False | Some l \<Rightarrow> l < tx_now env))
      (agent_runs s)"

definition deliverable :: "outbox_row \<Rightarrow> bool" where
  "deliverable x \<longleftrightarrow> o_published x = None \<and> o_dead x = None"

definition orphaned_runs ::
    "txenv \<Rightarrow> (uuid \<Rightarrow> bool) \<Rightarrow> int \<Rightarrow> nat \<Rightarrow> db \<Rightarrow> run_row list" where
  "orphaned_runs env locked secs n s =
    order_limit (\<lambda>r. (r_updated r, r_id r)) n
      (\<lambda>r. r_status r = Queued \<and> r_updated r < tx_now env - seconds secs \<and> \<not> locked (r_id r) \<and>
           \<not> sql_exists (\<lambda>x. o_run x = r_id r \<and> deliverable x) (outbox s))
      (agent_runs s)"

definition recover_stale ::
    "txenv \<Rightarrow> (uuid \<Rightarrow> bool) \<Rightarrow> int \<Rightarrow> int \<Rightarrow> db \<Rightarrow> (nat \<times> db) res" where
  "recover_stale env locked limit secs s =
    (if \<not> (1 \<le> limit \<and> limit \<le> 100) then Inl (ValueError ''limit must be between 1 and 100'')
     else if \<not> (0 \<le> secs \<and> secs \<le> 3600)
     then Inl (ValueError ''orphan_seconds must be between 0 and 3600'')
     else let stale = expired_runs env locked (nat limit) s
       in bind_res (each_row (recover_one env) 0 stale s) (\<lambda>s1.
         let remaining = nat limit - length stale
         in if remaining = 0 then Inr (length stale, s1)
            else let orphans = orphaned_runs env locked secs remaining s1
              in bind_res (each_row (requeue_orphan env) (length stale) orphans s1)
                   (\<lambda>s2. Inr (length stale + length orphans, s2))))"

end
