(* ===== verification/Run_Leases.thy ===== *)
theory Run_Leases
  imports Run_State
begin

text \<open>
  The invariant of the run state store and what it gives: at most one receipt processes a run, only
  a running run has one, and its worker is the owner of the run's lease. Every operation of
  \<open>run_state.py\<close> keeps it, whatever the instants the transactions read.
\<close>

section \<open>The invariant\<close>

definition processing :: "uuid \<Rightarrow> db \<Rightarrow> receipt_row list" where
  "processing i s = filter (\<lambda>x. rc_run x = i \<and> rc_status x = Processing) (receipts s)"

definition excl_run :: "run_row \<Rightarrow> receipt_row list \<Rightarrow> bool" where
  "excl_run r ps \<longleftrightarrow> length ps \<le> 1 \<and>
    (r_status r \<in> {Queued, WaitingForApproval} \<longrightarrow> ps = []) \<and>
    (r_status r = Running \<longrightarrow> (\<forall>x \<in> set ps. rc_worker x = r_lease_owner r))"

definition exclusive :: "db \<Rightarrow> bool" where
  "exclusive s \<longleftrightarrow> (\<forall>r \<in> set (agent_runs s). excl_run r (processing (r_id r) s))"

definition keys_ok :: "db \<Rightarrow> bool" where
  "keys_ok s \<longleftrightarrow> distinct (map r_id (agent_runs s)) \<and> distinct (map rc_job (receipts s)) \<and>
    distinct (map o_id (outbox s))"

text \<open>A receipt belongs to the run of its job, and a job to an existing run.\<close>

definition known_job :: "uuid \<Rightarrow> uuid \<Rightarrow> db \<Rightarrow> bool" where
  "known_job j run s \<longleftrightarrow> (\<exists>x \<in> set (outbox s). o_id x = j \<and> o_run x = run)"

definition linked :: "db \<Rightarrow> bool" where
  "linked s \<longleftrightarrow> (\<forall>x \<in> set (receipts s). known_job (rc_job x) (rc_run x) s) \<and>
    (\<forall>x \<in> set (outbox s). \<exists>r \<in> set (agent_runs s). r_id r = o_run x)"

definition rows_ok :: "db \<Rightarrow> bool" where
  "rows_ok s \<longleftrightarrow> (\<forall>r \<in> set (agent_runs s). run_row_check r)"

definition run_inv :: "db \<Rightarrow> bool" where
  "run_inv s \<longleftrightarrow> keys_ok s \<and> linked s \<and> rows_ok s \<and> exclusive s \<and> journal_ok s"

lemma run_invI:
  "keys_ok s \<Longrightarrow> linked s \<Longrightarrow> rows_ok s \<Longrightarrow> exclusive s \<Longrightarrow> journal_ok s \<Longrightarrow> run_inv s"
  by (simp add: run_inv_def)

lemma run_inv_empty: "run_inv empty_db"
  by (simp add: run_inv_def keys_ok_def linked_def rows_ok_def exclusive_def journal_empty)
    (simp add: empty_db_def)

text \<open>The invariant reads only four tables.\<close>

lemma run_inv_cong:
  assumes "agent_runs s' = agent_runs s" "receipts s' = receipts s" "outbox s' = outbox s"
    "run_events s' = run_events s"
  shows "run_inv s' = run_inv s"
  using assms journal_cong[of s' s]
  by (simp add: run_inv_def keys_ok_def linked_def rows_ok_def exclusive_def processing_def
      known_job_def)

lemma run_inv_append [step_intros]:
  "run_inv s \<Longrightarrow> run_inv (append_run_event env ws run ty p s)"
  by (simp add: run_inv_def keys_ok_def linked_def rows_ok_def exclusive_def processing_def
      known_job_def journal_append)

lemma known_unique:
  assumes "keys_ok s" and "known_job j a s" and "known_job j b s"
  shows "a = b"
  using assms unfolding known_job_def keys_ok_def
  by (metis (no_types, lifting) distinct_map inj_onD)

lemma receipt_run:
  assumes "run_inv s" and "x \<in> set (receipts s)" and "known_job (rc_job x) run s"
  shows "rc_run x = run"
  using assms known_unique unfolding run_inv_def linked_def by blast

section \<open>Receipts under each write\<close>

lemma processing_cong: "receipts s' = receipts s \<Longrightarrow> processing i s' = processing i s"
  by (simp add: processing_def)

lemma processing_receipt_done [row_simps]:
  assumes "st \<noteq> Processing"
  shows "processing i (receipt_done env job st err s) =
    filter (\<lambda>x. rc_job x \<noteq> j_id job) (processing i s)"
  using assms
  by (simp add: processing_def receipt_done_def update_receipts_def filter_sql_update_drop conj_commute)

lemma processing_terminal_receipt [row_simps]:
  assumes "st \<noteq> Processing"
  shows "processing i (terminal_receipt env job st w s) =
    filter (\<lambda>x. rc_job x \<noteq> j_id job) (processing i s)"
proof (cases "sql_exists (\<lambda>x. rc_job x = j_id job) (receipts s)")
  case True
  with assms show ?thesis
    by (simp add: processing_def terminal_receipt_def filter_sql_update_drop conj_commute)
next
  case False
  then have "filter (\<lambda>x. rc_job x \<noteq> j_id job) (processing i s) = processing i s"
    by (auto simp: processing_def sql_exists_iff intro!: filter_cong)
  with False assms show ?thesis
    by (simp add: processing_def terminal_receipt_def)
qed

lemma processing_supersede [row_simps]:
  assumes "\<And>x. rc_status (f x) \<noteq> Processing"
  shows "processing i (update_receipts (\<lambda>x. rc_run x = j \<and> rc_status x = Processing) f s) =
    (if i = j then [] else processing i s)"
  using assms
  by (auto simp: processing_def update_receipts_def filter_sql_update_drop filter_empty_conv
      intro!: filter_cong)

text \<open>The receipt tables keep their keys, their links and the other tables.\<close>

definition same_links :: "db \<Rightarrow> db \<Rightarrow> bool" where
  "same_links s s' \<longleftrightarrow>
    map (\<lambda>x. (rc_job x, rc_run x)) (receipts s') = map (\<lambda>x. (rc_job x, rc_run x)) (receipts s)"

lemma same_links_refl [simp]: "receipts s' = receipts s \<Longrightarrow> same_links s s'"
  by (simp add: same_links_def)

lemma same_links_jobs:
  assumes "same_links s s'"
  shows "map rc_job (receipts s') = map rc_job (receipts s)"
proof -
  have "map fst (map (\<lambda>x. (rc_job x, rc_run x)) (receipts s')) =
      map fst (map (\<lambda>x. (rc_job x, rc_run x)) (receipts s))"
    using assms unfolding same_links_def by simp
  then show ?thesis by (simp add: comp_def)
qed

lemma same_links_known:
  assumes "same_links s s'" and "\<forall>x \<in> set (receipts s). P (rc_job x) (rc_run x)"
  shows "\<forall>x \<in> set (receipts s'). P (rc_job x) (rc_run x)"
proof
  fix x assume "x \<in> set (receipts s')"
  then have "(rc_job x, rc_run x) \<in> set (map (\<lambda>x. (rc_job x, rc_run x)) (receipts s'))"
    by simp
  then have "(rc_job x, rc_run x) \<in> set (map (\<lambda>x. (rc_job x, rc_run x)) (receipts s))"
    using assms(1) unfolding same_links_def by simp
  with assms(2) show "P (rc_job x) (rc_run x)" by auto
qed

lemma same_links_update:
  assumes "\<And>x. rc_job (f x) = rc_job x \<and> rc_run (f x) = rc_run x"
  shows "same_links s (update_receipts p f s)"
  unfolding same_links_def update_receipts_def
  by (simp, rule sql_update_keys) (simp add: assms)

lemma same_links_done: "same_links s (receipt_done env job st err s)"
  unfolding receipt_done_def by (rule same_links_update) simp

lemma receipt_ops_tables [simp]:
  "agent_runs (update_receipts p f s) = agent_runs s"
  "outbox (update_receipts p f s) = outbox s"
  "run_events (update_receipts p f s) = run_events s"
  "tool_calls (update_receipts p f s) = tool_calls s"
  "tool_approvals (update_receipts p f s) = tool_approvals s"
  "agent_runs (receipt_done env job st err s) = agent_runs s"
  "outbox (receipt_done env job st err s) = outbox s"
  "run_events (receipt_done env job st err s) = run_events s"
  "tool_calls (receipt_done env job st err s) = tool_calls s"
  "tool_approvals (receipt_done env job st err s) = tool_approvals s"
  "agent_runs (terminal_receipt env job st w s) = agent_runs s"
  "outbox (terminal_receipt env job st w s) = outbox s"
  "run_events (terminal_receipt env job st w s) = run_events s"
  "tool_calls (terminal_receipt env job st w s) = tool_calls s"
  "tool_approvals (terminal_receipt env job st w s) = tool_approvals s"
  "agent_runs (processing_receipt env job w l s) = agent_runs s"
  "outbox (processing_receipt env job w l s) = outbox s"
  "run_events (processing_receipt env job w l s) = run_events s"
  "tool_calls (processing_receipt env job w l s) = tool_calls s"
  "tool_approvals (processing_receipt env job w l s) = tool_approvals s"
  by (simp_all add: update_receipts_def receipt_done_def terminal_receipt_def processing_receipt_def)

section \<open>One run and its receipts change\<close>

text \<open>
  \<open>moves i f s s'\<close>: the row of run \<open>i\<close> is rewritten by \<open>f\<close>, only receipts of run \<open>i\<close> start
  or stop processing, and the outbox only grows by jobs of existing runs.
\<close>

definition moves :: "uuid \<Rightarrow> (run_row \<Rightarrow> run_row) \<Rightarrow> db \<Rightarrow> db \<Rightarrow> bool" where
  "moves i f s s' \<longleftrightarrow>
    agent_runs s' = sql_update (\<lambda>r. r_id r = i) f (agent_runs s) \<and>
    (\<forall>r. r_id (f r) = r_id r) \<and>
    (\<forall>j. j \<noteq> i \<longrightarrow> processing j s' = processing j s)"

lemma moves_exclusive:
  assumes "exclusive s" and "moves i f s s'"
    and "\<And>r. r \<in> set (agent_runs s) \<Longrightarrow> r_id r = i \<Longrightarrow> excl_run (f r) (processing i s')"
  shows "exclusive s'"
  using assms by (auto simp: exclusive_def moves_def set_sql_update)

lemma moves_keys:
  assumes "moves i f s s'"
  shows "map r_id (agent_runs s') = map r_id (agent_runs s)"
  using assms unfolding moves_def by (simp add: sql_update_keys)

lemma moves_ids:
  assumes "moves i f s s'"
  shows "r_id ` set (agent_runs s') = r_id ` set (agent_runs s)"
  using moves_keys[OF assms] by (metis list.set_map)

text \<open>
  The rule every operation is checked with: what is left to show of it is the new row of its run,
  the receipts that process that run, and the jobs it adds.
\<close>

lemma run_inv_moves:
  assumes inv: "run_inv s" and mv: "moves i f s s'"
    and row: "\<And>r. r \<in> set (agent_runs s) \<Longrightarrow> r_id r = i \<Longrightarrow>
      run_row_check (f r) \<and> excl_run (f r) (processing i s')"
    and receipts: "distinct (map rc_job (receipts s'))"
      "\<forall>x \<in> set (receipts s'). known_job (rc_job x) (rc_run x) s"
    and out: "outbox s' = outbox s @ new" "distinct (map o_id (outbox s'))"
      "\<forall>x \<in> set new. o_run x \<in> r_id ` set (agent_runs s)"
    and journal: "journal_ok s'"
  shows "run_inv s'"
proof (rule run_invI)
  show "keys_ok s'"
    using inv receipts(1) out(2) moves_keys[OF mv] by (simp add: run_inv_def keys_ok_def)
  have "\<forall>x \<in> set (receipts s'). known_job (rc_job x) (rc_run x) s'"
    using receipts(2) out(1) by (auto simp: known_job_def)
  moreover have "\<forall>x \<in> set (outbox s'). o_run x \<in> r_id ` set (agent_runs s')"
    using inv out(1,3) unfolding moves_ids[OF mv] run_inv_def linked_def
    by (auto simp: image_iff) metis+
  ultimately show "linked s'"
    by (auto simp: linked_def image_iff) metis
  show "rows_ok s'"
    using inv row mv by (auto simp: run_inv_def rows_ok_def moves_def set_sql_update)
  show "exclusive s'"
    using inv row by (intro moves_exclusive[OF _ mv]) (auto simp: run_inv_def)
  show "journal_ok s'" by (rule journal)
qed

lemma run_invD:
  assumes "run_inv s"
  shows "distinct (map r_id (agent_runs s))" "distinct (map rc_job (receipts s))"
    "distinct (map o_id (outbox s))"
    "\<forall>x \<in> set (receipts s). known_job (rc_job x) (rc_run x) s" "journal_ok s"
    "\<And>r. r \<in> set (agent_runs s) \<Longrightarrow> run_row_check r"
    "\<And>r. r \<in> set (agent_runs s) \<Longrightarrow> excl_run r (processing (r_id r) s)"
  using assms by (auto simp: run_inv_def keys_ok_def linked_def rows_ok_def exclusive_def)

lemma find_run_in_SomeD:
  "find_run_in i ws s = Some r \<Longrightarrow> r \<in> set (agent_runs s) \<and> r_id r = i \<and> r_workspace r = ws"
  by (auto simp: find_run_in_def dest: find_SomeD)

lemma find_receipt_SomeD:
  "find_receipt j s = Some x \<Longrightarrow> x \<in> set (receipts s) \<and> rc_job x = j"
  by (auto simp: find_receipt_def dest: find_SomeD)

lemma owned_processingD:
  assumes "owned_processing env job w s = Some (run, rc)"
  shows "run \<in> set (agent_runs s)" "r_id run = j_run job" "r_workspace run = j_workspace job"
    "rc \<in> set (receipts s)" "rc_job rc = j_id job" "r_status run = Running"
    "r_lease_owner run = Some w" "rc_status rc = Processing" "rc_worker rc = Some w"
    "\<not> expired (r_lease_expires run) (tx_now env)" "\<not> expired (rc_lease_expires rc) (tx_now env)"
  using assms
  by (auto simp: owned_processing_def split: option.splits if_splits
      dest: find_run_in_SomeD find_receipt_SomeD)

text \<open>The owner's receipt is the only one that processes its run.\<close>

lemma owned_processing_only:
  assumes inv: "run_inv s" and job: "known_job (j_id job) (j_run job) s"
    and own: "owned_processing env job w s = Some (run, rc)"
  shows "processing (j_run job) s = [rc]"
proof -
  have "rc_run rc = j_run job"
    using receipt_run[OF inv owned_processingD(4)[OF own]] job owned_processingD(5)[OF own] by simp
  then have "rc \<in> set (processing (j_run job) s)"
    using owned_processingD(4,8)[OF own] by (simp add: processing_def)
  moreover have "length (processing (j_run job) s) \<le> 1"
    using run_invD(7)[OF inv owned_processingD(1)[OF own]] owned_processingD(2)[OF own]
    by (simp add: excl_run_def)
  ultimately show ?thesis by (rule singleton_of_member)
qed

lemma owner_done_empty:
  assumes "run_inv s" and "known_job (j_id job) (j_run job) s"
    and "owned_processing env job w s = Some (run, rc)"
  shows "filter (\<lambda>x. rc_job x \<noteq> j_id job) (processing (j_run job) s) = []"
  using owned_processing_only[OF assms] owned_processingD(5)[OF assms(3)] by simp

lemma other_runs_kept:
  assumes "run_inv s" and "known_job (j_id job) (j_run job) s" and "j \<noteq> j_run job"
  shows "filter (\<lambda>x. rc_job x \<noteq> j_id job) (processing j s) = processing j s"
proof -
  have "rc_job x \<noteq> j_id job" if "x \<in> set (processing j s)" for x
    using that receipt_run[OF assms(1), of x "j_run job"] assms(2,3) by (auto simp: processing_def)
  then show ?thesis by (simp add: filter_id_conv)
qed

lemma excl_run_Nil [simp]: "excl_run r []"
  by (simp add: excl_run_def)

section \<open>Every operation keeps the invariant\<close>

text \<open>A terminal receipt, of a job whose run it does not change.\<close>

lemma terminal_receipt_links:
  assumes "run_inv s" and "known_job (j_id job) (j_run job) s"
  shows "distinct (map rc_job (receipts (terminal_receipt env job st w s)))"
    and "\<forall>x \<in> set (receipts (terminal_receipt env job st w s)). known_job (rc_job x) (rc_run x) s"
  using run_invD(2,4)[OF assms(1)] assms(2)
  by (auto simp: terminal_receipt_def sql_exists_iff set_sql_update
      sql_update_keys[where key = rc_job])

lemma terminal_receipt_inv:
  assumes inv: "run_inv s" and job: "known_job (j_id job) (j_run job) s"
    and st: "st \<noteq> Processing"
    and run: "\<And>r. r \<in> set (agent_runs s) \<Longrightarrow> r_id r = j_run job \<Longrightarrow>
      excl_run r (filter (\<lambda>x. rc_job x \<noteq> j_id job) (processing (j_run job) s))"
  shows "run_inv (terminal_receipt env job st w s)"
proof (rule run_inv_moves[OF inv, where i = "j_run job" and f = id and new = "[]"])
  show "moves (j_run job) id s (terminal_receipt env job st w s)"
    using other_runs_kept[OF inv job] st
    by (auto simp: moves_def processing_terminal_receipt sql_update_id)
  show "journal_ok (terminal_receipt env job st w s)"
    using run_invD(5)[OF inv] journal_cong[of "terminal_receipt env job st w s" s] by simp
qed (use run_invD[OF inv] terminal_receipt_links[OF inv job] run st in
  \<open>auto simp: processing_terminal_receipt\<close>)

lemma excl_run_filter:
  "excl_run r ps \<Longrightarrow> excl_run r (filter p ps)"
  using le_trans[OF length_filter_le[of p ps]] by (auto simp: excl_run_def simp del: One_nat_def)

lemma cancel_locked_inv:
  assumes inv: "run_inv s" and job: "known_job (j_id job) (j_run job) s"
    and run: "r_id run = j_run job" and ok: "cancel_locked env run job w s = Inr s'"
  shows "run_inv s'"
proof -
  have recp: "run_inv (terminal_receipt env job RCancelled w t)"
    if "run_inv t" "known_job (j_id job) (j_run job) t" for t
  proof (rule terminal_receipt_inv[OF that])
    fix r assume "r \<in> set (agent_runs t)" and "r_id r = j_run job"
    then show "excl_run r (filter (\<lambda>x. rc_job x \<noteq> j_id job) (processing (j_run job) t))"
      using run_invD(7)[OF that(1)] by (metis excl_run_filter)
  qed simp
  show ?thesis
  proof (cases "r_status run = Cancelled")
    case True
    with ok inv job recp show ?thesis by (auto simp: cancel_locked_def)
  next
    case False
    with ok obtain s1 where s1: "update_run env (r_id run) (finish env Cancelled) s = Inr s1"
      and s': "s' = terminal_receipt env job RCancelled w
        (append_run_event env (r_workspace run) (r_id run) ''run.cancelled'' [(''reason'', JStr ''requested'')] s1)"
      by (auto simp: cancel_locked_def)
    note t = update_run_tables[OF s1]
    have "run_inv s1"
    proof (rule run_inv_moves[OF inv, where i = "r_id run" and f = "finish env Cancelled" and new = "[]"])
      show "moves (r_id run) (finish env Cancelled) s s1"
        by (simp add: moves_def t finish_def processing_def)
      fix r assume r: "r \<in> set (agent_runs s)" "r_id r = r_id run"
      show "run_row_check (finish env Cancelled r) \<and>
          excl_run (finish env Cancelled r) (processing (r_id run) s1)"
        using update_run_row(2)[OF s1 run_invD(1)[OF inv] r] run_invD(7)[OF inv r(1)] r(2)
        by (simp add: excl_run_def finish_def processing_def t)
    qed (use run_invD[OF inv] t journal_cong[of s1 s] in auto)
    moreover have "known_job (j_id job) (j_run job) s1"
      using job by (simp add: known_job_def t)
    ultimately show ?thesis
      unfolding s' by (intro recp run_inv_append) (simp_all add: known_job_def)
  qed
qed

text \<open>The owner writes a final status and closes its receipt.\<close>

lemma owner_finish_inv:
  assumes inv: "run_inv s" and job: "known_job (j_id job) (j_run job) s"
    and own: "owned_processing env job w s = Some (run, rc)"
    and s1: "update_run env (r_id run) f s = Inr s1" and f: "\<And>r. r_id (f r) = r_id r"
    and st: "st \<noteq> Processing"
  shows "run_inv (receipt_done env job st err s1)"
proof -
  note t = update_run_tables[OF s1]
  note i = owned_processingD(2)[OF own]
  have proc: "processing j (receipt_done env job st err s1) =
      filter (\<lambda>x. rc_job x \<noteq> j_id job) (processing j s)" for j
    using st by (simp add: processing_receipt_done processing_cong[OF t(7)])
  show ?thesis
  proof (rule run_inv_moves[OF inv, where i = "r_id run" and f = f and new = "[]"])
    show "moves (r_id run) f s (receipt_done env job st err s1)"
      using other_runs_kept[OF inv job] by (auto simp: moves_def t f i proc)
    show "distinct (map rc_job (receipts (receipt_done env job st err s1)))"
      using same_links_jobs[OF same_links_done] run_invD(2)[OF inv] t by simp
    show "\<forall>x \<in> set (receipts (receipt_done env job st err s1)). known_job (rc_job x) (rc_run x) s"
      using run_invD(4)[OF inv] t by (intro same_links_known[OF same_links_done]) simp
    fix r assume r: "r \<in> set (agent_runs s)" "r_id r = r_id run"
    show "run_row_check (f r) \<and> excl_run (f r) (processing (r_id run) (receipt_done env job st err s1))"
      using update_run_row(2)[OF s1 run_invD(1)[OF inv] r] owner_done_empty[OF inv job own]
      by (simp add: proc i)
  qed (use run_invD[OF inv] t journal_cong[of "receipt_done env job st err s1" s] in auto)
qed

text \<open>An expired run goes back to the queue: no receipt processes it any more.\<close>

lemma supersede_inv:
  assumes inv: "run_inv s"
    and upd: "update_run env i f
      (update_receipts (\<lambda>x. rc_run x = i \<and> rc_status x = Processing) g s) = Inr s'"
    and f: "\<And>r. r_id (f r) = r_id r"
    and g: "\<And>x. rc_job (g x) = rc_job x \<and> rc_run (g x) = rc_run x" "\<And>x. rc_status (g x) \<noteq> Processing"
  shows "run_inv s'" and "processing i s' = []"
proof -
  let ?p = "\<lambda>x. rc_run x = i \<and> rc_status x = Processing"
  note t = update_run_tables[OF upd]
  have proc: "processing j s' = (if i = j then [] else processing j s)" for j
    unfolding processing_cong[OF t(7)] using processing_supersede[of g j i s] g(2) by auto
  show "processing i s' = []" by (simp add: proc)
  show "run_inv s'"
  proof (rule run_inv_moves[OF inv, where i = i and f = f and new = "[]"])
    show "moves i f s s'" by (simp add: moves_def t f proc)
    show "distinct (map rc_job (receipts s'))"
      using same_links_jobs[OF same_links_update[OF g(1)], of ?p s] run_invD(2)[OF inv] t by simp
    show "\<forall>x \<in> set (receipts s'). known_job (rc_job x) (rc_run x) s"
      unfolding t(7) using run_invD(4)[OF inv]
      by (intro same_links_known[OF same_links_update[OF g(1)]]) simp
    show "run_row_check (f r) \<and> excl_run (f r) (processing i s')"
      if "r \<in> set (agent_runs s)" "r_id r = i" for r
      using update_run_row(2)[OF upd] run_invD(1)[OF inv] that by (simp add: proc)
  qed (use run_invD[OF inv] t journal_cong[of s' s] in auto)
qed

lemma insert_outbox_inv:
  assumes inv: "run_inv s" and ok: "insert_outbox ob s = Inr s'"
    and run: "o_run ob \<in> r_id ` set (agent_runs s)"
  shows "run_inv s'"
proof (rule run_inv_moves[OF inv, where i = "o_run ob" and f = id and new = "[ob]"])
  show "moves (o_run ob) id s s'"
    using ok by (auto simp: moves_def insert_outbox_Inr sql_update_id processing_def)
  show "journal_ok s'"
    using ok run_invD(5)[OF inv] journal_cong[of s' s] by (auto simp: insert_outbox_Inr)
  show "run_row_check (id r) \<and> excl_run (id r) (processing (o_run ob) s')"
    if "r \<in> set (agent_runs s)" "r_id r = o_run ob" for r
    using ok run_invD(6,7)[OF inv that(1)] that(2) by (auto simp: insert_outbox_Inr processing_def)
qed (use ok run run_invD[OF inv] in \<open>auto simp: insert_outbox_Inr processing_def\<close>)

lemma claim_recover_inv:
  assumes "run_inv s" and "claim_recover env run s = Inr s'"
  shows "run_inv s'" and "processing (r_id run) s' = []"
proof -
  obtain s2 where s2: "update_run env (r_id run) (requeue env)
      (update_receipts (\<lambda>x. rc_run x = r_id run \<and> rc_status x = Processing)
        (\<lambda>x. x\<lparr>rc_status := Superseded, rc_updated := tx_now env,
               rc_error := Some ''lease_expired''\<rparr>) s) = Inr s2"
    and s': "s' = append_run_event env (r_workspace run) (r_id run) ''run.recovered''
         [(''previous_attempt'', JInt (int (r_attempt run)))] s2"
    using assms(2) by (auto simp: claim_recover_def Let_def)
  have "run_inv s2 \<and> processing (r_id run) s2 = []"
    using supersede_inv[OF assms(1) s2] by (simp add: requeue_def)
  then show "run_inv s'" "processing (r_id run) s' = []"
    unfolding s' by (auto intro: run_inv_append simp: processing_def)
qed

text \<open>A new attempt: its receipt is the only one of the run, and the worker owns both.\<close>

lemma processing_receipt_links:
  assumes "run_inv s" and "known_job (j_id job) (j_run job) s"
  shows "distinct (map rc_job (receipts (processing_receipt env job w l s)))"
    and "\<forall>x \<in> set (receipts (processing_receipt env job w l s)). known_job (rc_job x) (rc_run x) s"
  using run_invD(2,4)[OF assms(1)] assms(2)
  by (auto simp: processing_receipt_def sql_exists_iff set_sql_update
      sql_update_keys[where key = rc_job])

lemma processing_receipt_own:
  assumes inv: "run_inv s" and job: "known_job (j_id job) (j_run job) s"
    and none: "processing (j_run job) s = []"
  shows "length (processing (j_run job) (processing_receipt env job w l s)) \<le> 1"
    and "x \<in> set (processing (j_run job) (processing_receipt env job w l s)) \<Longrightarrow> rc_worker x = Some w"
proof -
  let ?s = "processing_receipt env job w l s"
  have mem: "rc_job x = j_id job \<and> rc_worker x = Some w" if "x \<in> set (processing (j_run job) ?s)" for x
    using that none
    by (auto simp: processing_def processing_receipt_def filter_empty_conv set_sql_update
        split: if_splits)
  then show "x \<in> set (processing (j_run job) ?s) \<Longrightarrow> rc_worker x = Some w" by blast
  have "distinct (map rc_job (processing (j_run job) ?s))"
    unfolding processing_def by (rule distinct_map_filter_key[OF processing_receipt_links(1)[OF inv job]])
  with mem show "length (processing (j_run job) ?s) \<le> 1"
    by (intro length_le1_of_key[of rc_job _ "j_id job"]) auto
qed

lemma processing_receipt_other:
  assumes inv: "run_inv s" and job: "known_job (j_id job) (j_run job) s" and "j \<noteq> j_run job"
  shows "processing j (processing_receipt env job w l s) = processing j s"
proof -
  have run: "rc_run x = j_run job" if "x \<in> set (receipts s)" "rc_job x = j_id job" for x
    using receipt_run[OF inv that(1)] job that(2) by simp
  let ?p = "\<lambda>x. rc_run x = j \<and> rc_status x = Processing"
  have "filter ?p (sql_update (\<lambda>x. rc_job x = j_id job) f (receipts s)) = filter ?p (receipts s)"
    if f: "\<And>x. rc_run (f x) = rc_run x" for f
  proof -
    have "filter ?p (sql_update (\<lambda>x. rc_job x = j_id job) f (receipts s)) =
        filter (\<lambda>x. ?p x \<and> rc_job x \<noteq> j_id job) (receipts s)"
      using run f assms(3) by (intro filter_sql_update_drop) auto
    also have "\<dots> = filter ?p (receipts s)"
      using run assms(3) by (intro filter_cong) auto
    finally show ?thesis .
  qed
  with assms(3) show ?thesis by (auto simp: processing_def processing_receipt_def)
qed

lemma claim_start_inv:
  assumes inv: "run_inv s" and job: "known_job (j_id job) (j_run job) s"
    and none: "processing (j_run job) s = []" and run: "r_id run = j_run job"
    and ok: "claim_start env job run prof agent w lease s = Inr (x, s')"
  shows "run_inv s'"
proof -
  let ?f = "start_attempt env w lease" and ?l = "Some (tx_now env + seconds lease)"
  obtain s1 where s1: "update_run env (r_id run) ?f s = Inr s1"
    and s': "\<exists>ty p. s' = append_run_event env (r_workspace run) (r_id run) ty p
        (processing_receipt env job w ?l s1)"
    using ok by (auto simp: claim_start_def Let_def)
  note t = update_run_tables[OF s1]
  let ?r = "processing_receipt env job w ?l"
  have rec: "receipts (?r s1) = receipts (?r s)"
    by (simp add: processing_receipt_def t)
  have "run_inv (?r s1)"
  proof (rule run_inv_moves[OF inv, where i = "j_run job" and f = ?f and new = "[]"])
    show "moves (j_run job) ?f s (?r s1)"
      using processing_receipt_other[OF inv job]
      by (auto simp: moves_def t run processing_cong[OF rec] start_attempt_def)
    show "distinct (map rc_job (receipts (?r s1)))"
      unfolding rec by (rule processing_receipt_links(1)[OF inv job])
    show "\<forall>x \<in> set (receipts (?r s1)). known_job (rc_job x) (rc_run x) s"
      unfolding rec by (rule processing_receipt_links(2)[OF inv job])
    show "run_row_check (?f r) \<and> excl_run (?f r) (processing (j_run job) (?r s1))"
      if r: "r \<in> set (agent_runs s)" "r_id r = j_run job" for r
      unfolding processing_cong[OF rec] excl_run_def
      using update_run_row(2)[OF s1 run_invD(1)[OF inv] r(1)] r(2) run
        processing_receipt_own[OF inv job none]
      by (simp add: start_attempt_def)
  qed (use run_invD[OF inv] t journal_cong[of "?r s1" s] in auto)
  with s' show ?thesis by (auto intro: run_inv_append)
qed

end
