(* ===== verification/Run_Safety.thy ===== *)
theory Run_Safety
  imports Run_Leases
begin

text \<open>
  Every transaction of the run state store is a safe step: it keeps the invariant of
  \<open>Run_Leases\<close>, it never rewrites a terminal run, it never lowers an attempt, and it leaves the
  columns that identify a run alone.
\<close>

section \<open>The life of a run\<close>

text \<open>
  The abstract contract of a run: its status and the number of attempts that started. Only a claim
  starts an attempt, and only from the queue; success and failure end a running attempt; a
  cancellation ends any of the live states; nothing leaves an ended run.
\<close>

type_synonym phase = "run_status \<times> nat"

inductive life :: "phase \<Rightarrow> phase \<Rightarrow> bool" where
  life_start: "life (Queued, n) (Running, Suc n)"
| life_requeue: "life (Running, n) (Queued, n)"
| life_park: "life (Running, n) (WaitingForApproval, n)"
| life_resume: "life (WaitingForApproval, n) (Queued, n)"
| life_end: "st \<in> {Succeeded, Failed} \<Longrightarrow> life (Running, n) (st, n)"
| life_cancel: "st \<in> {Queued, Running, WaitingForApproval} \<Longrightarrow> life (st, n) (Cancelled, n)"

inductive_cases life_from: "life (st, n) q"

definition phase :: "run_row \<Rightarrow> phase" where
  "phase r = (r_status r, r_attempt r)"

lemma life_terminal: "life\<^sup>*\<^sup>* p q \<Longrightarrow> terminal (fst p) \<Longrightarrow> q = p"
  by (induction rule: rtranclp_induct) (auto elim!: life.cases)

lemma life_attempt: "life\<^sup>*\<^sup>* p q \<Longrightarrow> snd p \<le> snd q"
  by (induction rule: rtranclp_induct) (auto elim!: life.cases)

lemma life_step: "life p q \<Longrightarrow> life\<^sup>*\<^sup>* p q"
  by (rule r_into_rtranclp)

lemmas life_steps = life.intros[THEN life_step]

section \<open>Safe steps\<close>

definition run_le :: "run_row \<Rightarrow> run_row \<Rightarrow> bool" where
  "run_le r r' \<longleftrightarrow> r_workspace r' = r_workspace r \<and> r_agent r' = r_agent r \<and>
    r_tenant_agent r' = r_tenant_agent r \<and> r_snapshot r' = r_snapshot r \<and>
    r_issuer r' = r_issuer r \<and> r_subject r' = r_subject r \<and> r_input r' = r_input r \<and>
    r_request_hash r' = r_request_hash r \<and> r_idempotency_key r' = r_idempotency_key r \<and>
    r_trace r' = r_trace r \<and> r_created r' = r_created r \<and>
    life\<^sup>*\<^sup>* (phase r) (phase r') \<and> (terminal (r_status r) \<longrightarrow> r' = r)"

definition run_mono :: "db \<Rightarrow> db \<Rightarrow> bool" where
  "run_mono s s' \<longleftrightarrow>
    (\<forall>i r. find_run i s = Some r \<longrightarrow> (\<exists>r'. find_run i s' = Some r' \<and> run_le r r'))"

definition safe_step :: "db \<Rightarrow> db \<Rightarrow> bool" where
  "safe_step s s' \<longleftrightarrow> run_inv s' \<and> run_mono s s'"

lemma run_le_refl [simp]: "run_le r r"
  by (simp add: run_le_def)

lemma run_le_trans: "run_le a b \<Longrightarrow> run_le b c \<Longrightarrow> run_le a c"
  unfolding run_le_def using rtranclp_trans[of life "phase a" "phase b" "phase c"] by auto

lemma run_le_attempt: "run_le r r' \<Longrightarrow> r_attempt r \<le> r_attempt r'"
  using life_attempt[of "phase r" "phase r'"] by (simp add: run_le_def phase_def)

lemma run_mono_refl: "agent_runs s' = agent_runs s \<Longrightarrow> run_mono s s'"
  by (simp add: run_mono_def find_run_def)

lemma run_mono_trans: "run_mono s t \<Longrightarrow> run_mono t u \<Longrightarrow> run_mono s u"
  unfolding run_mono_def by (meson run_le_trans)

lemma safe_refl: "run_inv s \<Longrightarrow> safe_step s s"
  by (simp add: safe_step_def run_mono_refl)

lemma safe_trans: "safe_step s t \<Longrightarrow> safe_step t u \<Longrightarrow> safe_step s u"
  unfolding safe_step_def using run_mono_trans by blast

lemma safe_same_runs: "run_inv s' \<Longrightarrow> agent_runs s' = agent_runs s \<Longrightarrow> safe_step s s'"
  by (simp add: safe_step_def run_mono_refl)

lemma safe_same_tables:
  assumes "run_inv s" and "agent_runs s' = agent_runs s" "receipts s' = receipts s"
    "outbox s' = outbox s" "run_events s' = run_events s"
  shows "safe_step s s'"
  using assms run_inv_cong[of s' s] by (simp add: safe_same_runs)

lemma run_mono_update:
  assumes "update_run env i f s = Inr s'" and "\<And>r. r_id (f r) = r_id r"
    and "\<And>r. find_run i s = Some r \<Longrightarrow> run_le r (f r)"
  shows "run_mono s s'"
  unfolding run_mono_def
proof (intro allI impI)
  fix j r assume r: "find_run j s = Some r"
  then have j: "r_id r = j" by (auto dest: find_run_SomeD)
  then show "\<exists>r'. find_run j s' = Some r' \<and> run_le r r'"
    using assms(3) r find_run_after_update[OF assms(1,2), of j] by (cases "j = i") auto
qed

lemma run_mono_insert: "insert_run r s = Inr s' \<Longrightarrow> run_mono s s'"
  by (auto simp: run_mono_def insert_run_Inr find_run_def find_append)

text \<open>The run a transaction selected for update, in a state with unique ids.\<close>

lemma find_run_inD:
  assumes "run_inv s" and "find_run_in i ws s = Some run"
  shows "find_run i s = Some run" "run \<in> set (agent_runs s)" "r_id run = i" "r_workspace run = ws"
  using find_run_in_SomeD[OF assms(2)] run_invD(1)[OF assms(1)] by (auto simp: find_run_unique)

text \<open>
  The rule of the transactions: the row is not terminal, and the update keeps the identifying
  columns and does not lower the attempt.
\<close>

lemma safe_update:
  assumes "run_inv s" and "run \<in> set (agent_runs s)"
    and "update_run env (r_id run) f t = Inr t1" and "agent_runs t = agent_runs s"
    and "agent_runs s' = agent_runs t1" and "run_inv s'"
    and "\<And>r. r_id (f r) = r_id r" and "run_le run (f run)"
  shows "safe_step s s'"
proof -
  have "find_run (r_id run) t = Some run"
    using run_invD(1)[OF assms(1)] assms(2,4) by (simp add: find_run_unique)
  then have "run_mono t t1"
    using assms(8) by (intro run_mono_update[OF assms(3,7)]) auto
  then have "run_mono s s'"
    using assms(4,5) by (simp add: run_mono_def find_run_def)
  with assms(6) show ?thesis by (simp add: safe_step_def)
qed

lemma live_cases: "\<not> terminal st \<Longrightarrow> st = Queued \<or> st = Running \<or> st = WaitingForApproval"
  by (cases st) simp_all

lemma run_le_requeue [simp]: "\<not> terminal (r_status r) \<Longrightarrow> run_le r (requeue env r)"
  by (drule live_cases, elim disjE) (simp_all add: run_le_def requeue_def phase_def life_steps)

lemma run_le_cancel [simp]: "\<not> terminal (r_status r) \<Longrightarrow> run_le r (finish env Cancelled r)"
  by (drule live_cases, elim disjE) (simp_all add: run_le_def finish_def phase_def life_steps)

lemma run_le_end [simp]:
  "r_status r = Running \<Longrightarrow> st \<in> {Succeeded, Failed} \<Longrightarrow>
    run_le r ((finish env st r)\<lparr>r_failure := c\<rparr>)"
  by (auto simp add: run_le_def finish_def phase_def intro: life_steps)

lemma run_le_park [simp]: "r_status r = Running \<Longrightarrow> run_le r (park env r)"
  by (simp_all add: run_le_def park_def phase_def life_steps)

lemma run_le_start [simp]: "r_status r = Queued \<Longrightarrow> run_le r (start_attempt env w l r)"
  by (simp_all add: run_le_def start_attempt_def phase_def life_steps)

lemma write_ids [simp]:
  "r_id (requeue env r) = r_id r" "r_id (finish env st r) = r_id r" "r_id (park env r) = r_id r"
  "r_id (start_attempt env w l r) = r_id r"
  by (simp_all add: requeue_def finish_def park_def start_attempt_def)

text \<open>An update of one run that touches no receipt.\<close>

lemma plain_update_safe:
  assumes inv: "run_inv s" and upd: "update_run env i f s = Inr s'" and row: "find_run i s = Some run"
    and f: "\<And>r. r_id (f r) = r_id r" "run_le run (f run)"
    and excl: "excl_run run (processing i s) \<Longrightarrow> excl_run (f run) (processing i s)"
  shows "safe_step s s'"
proof -
  note t = update_run_tables[OF upd]
  have run: "run \<in> set (agent_runs s)" "r_id run = i" using find_run_SomeD[OF row] by simp_all
  have only: "r = run" if "r \<in> set (agent_runs s)" "r_id r = i" for r
    using that row find_run_unique[OF run_invD(1)[OF inv]] by (metis option.inject)
  have "run_inv s'"
  proof (rule run_inv_moves[OF inv, where i = i and f = f and new = "[]"])
    show "moves i f s s'" by (simp add: moves_def t f processing_def)
    show "run_row_check (f r) \<and> excl_run (f r) (processing i s')"
      if r: "r \<in> set (agent_runs s)" "r_id r = i" for r
      using update_run_row(2)[OF upd run_invD(1)[OF inv] r] run_invD(7)[OF inv r(1)] excl only[OF r] r(2)
      by (simp add: processing_cong[OF t(7)])
  qed (use run_invD[OF inv] t journal_cong[of s' s] in auto)
  with run(2) show ?thesis
    by (intro safe_update[OF inv run(1), of env f s s']) (simp_all add: upd f)
qed

section \<open>The transactions\<close>

lemma cancel_locked_safe:
  assumes inv: "run_inv s" and job: "known_job (j_id job) (j_run job) s"
    and row: "row \<in> set (agent_runs s)" "r_id row = r_id run" "\<not> terminal (r_status row)"
    and run: "r_id run = j_run job" "r_status run \<noteq> Cancelled"
    and ok: "cancel_locked env run job w s = Inr s'"
  shows "safe_step s s'"
proof -
  obtain s1 where s1: "update_run env (r_id run) (finish env Cancelled) s = Inr s1"
    and s': "agent_runs s' = agent_runs s1"
    using ok run(2) by (auto simp: cancel_locked_def)
  show ?thesis
    using cancel_locked_inv[OF inv job run(1) ok] s' row(3)
    by (intro safe_update[OF inv row(1), unfolded row(2), OF s1]) simp_all
qed

lemma validate_job_known: "validate_job job s = Some d \<Longrightarrow> known_job (j_id job) (j_run job) s"
  by (auto simp: validate_job_def known_job_def find_outbox_def Let_def
      split: option.splits if_splits dest: find_SomeD)

text \<open>The four ways a claim commits.\<close>

lemma claim_cases [consumes 1, case_names nothing receipt cancel start]:
  assumes "claim env job w lease s = Inr (x, s')"
  obtains "x = Ack" "s' = s"
  | run d st where "x = Ack" "validate_job job s = Some d"
      "find_run_in (j_run job) (j_workspace job) s = Some run"
      "s' = terminal_receipt env job st w s" "st \<noteq> Processing"
      "st = Superseded \<or> st = final_receipt (r_status run) \<and> terminal (r_status run)"
  | run d s1 where "x = Ack" "validate_job job s = Some d"
      "find_run_in (j_run job) (j_workspace job) s = Some run"
      "r_status run = Queued \<and> s1 = s \<or> r_status run = Running \<and>
         expired (r_lease_expires run) (tx_now env) \<and> claim_recover env run s = Inr s1"
      "r_cancel_requested run \<noteq> None" "cancel_locked env run job w s1 = Inr s'"
  | run d prof s1 where "validate_job job s = Some d"
      "find_run_in (j_run job) (j_workspace job) s = Some run"
      "r_status run = Queued \<and> s1 = s \<or> r_status run = Running \<and>
         expired (r_lease_expires run) (tx_now env) \<and> claim_recover env run s = Inr s1"
      "r_cancel_requested run = None" "run_target run = Some (jp_agent d)"
      "claim_profile run s = Some prof"
      "claim_start env job run prof (jp_agent d) w lease s1 = Inr (x, s')"
proof -
  have fin_receipt: "final_receipt st \<noteq> Processing" for st by (cases st) auto
  show thesis
  proof (cases "x = Ack \<and> s' = s")
    case True
    then show ?thesis using that(1) by simp
  next
    case False
    then obtain d where d: "validate_job job s = Some d"
      using assms by (auto simp: claim_def split: if_splits option.splits)
    with False obtain run where run: "find_run_in (j_run job) (j_workspace job) s = Some run"
      using assms by (auto simp: claim_def Let_def split: if_splits option.splits)
    with d False obtain prof where prof: "claim_profile run s = Some prof"
        "run_target run = Some (jp_agent d)"
      using assms by (auto simp: claim_def Let_def split: if_splits option.splits)
    note ok = assms[unfolded claim_def Let_def d run option.case prof]
    consider (fin) "terminal (r_status run)" | (wait) "r_status run = WaitingForApproval"
      | (held) "r_status run = Running" "\<not> expired (r_lease_expires run) (tx_now env)"
      | (lapsed) "r_status run = Running" "expired (r_lease_expires run) (tx_now env)"
      | (queued) "r_status run = Queued"
      by (cases "r_status run") auto
    then show ?thesis
    proof cases
      case fin
      with ok False have "s' = terminal_receipt env job (final_receipt (r_status run)) w s" "x = Ack"
        by (auto split: if_splits)
      with fin d run fin_receipt show ?thesis by (intro that(2)) auto
    next
      case wait
      with ok False have "s' = terminal_receipt env job Superseded w s" "x = Ack"
        by (auto split: if_splits)
      with d run show ?thesis by (intro that(2)) auto
    next
      case held
      with ok False have "s' = terminal_receipt env job Superseded w s" "x = Ack"
        by (auto split: if_splits)
      with d run show ?thesis by (intro that(2)) auto
    next
      case lapsed
      with ok False obtain s1 where "claim_recover env run s = Inr s1"
        and "(if r_cancel_requested run \<noteq> None
             then bind_res (cancel_locked env run job w s1) (\<lambda>s2. Inr (Ack, s2))
             else claim_start env job run prof (jp_agent d) w lease s1) = Inr (x, s')"
        by (auto split: if_splits)
      with lapsed d run prof show ?thesis
        by (cases "r_cancel_requested run = None") (auto intro: that(3,4))
    next
      case queued
      with ok False have "(if r_cancel_requested run \<noteq> None
             then bind_res (cancel_locked env run job w s) (\<lambda>s2. Inr (Ack, s2))
             else claim_start env job run prof (jp_agent d) w lease s) = Inr (x, s')"
        by (auto split: if_splits)
      with queued d run prof show ?thesis
        by (cases "r_cancel_requested run = None") (auto intro: that(3,4))
    qed
  qed
qed

lemma claim_recover_safe:
  assumes inv: "run_inv s" and run: "run \<in> set (agent_runs s)" and live: "\<not> terminal (r_status run)"
    and ok: "claim_recover env run s = Inr s'"
  shows "safe_step s s'"
proof -
  obtain s1 s2 where s2: "update_run env (r_id run) (requeue env) s1 = Inr s2"
    and "agent_runs s1 = agent_runs s" "agent_runs s' = agent_runs s2"
    using ok by (auto simp: claim_recover_def Let_def)
  with claim_recover_inv(1)[OF inv ok] live show ?thesis
    by (intro safe_update[OF inv run s2]) simp_all
qed

text \<open>The row a claim starts from: the selected one, back in the queue when it was recovered.\<close>

lemma claim_recover_row:
  assumes inv: "run_inv s" and run: "find_run i s = Some run"
    and ok: "claim_recover env run s = Inr s'"
  shows "find_run i s' = Some (requeue env run)"
proof -
  obtain s1 s2 where s2: "update_run env (r_id run) (requeue env) s1 = Inr s2"
    and r: "agent_runs s1 = agent_runs s" "agent_runs s' = agent_runs s2"
    using ok by (auto simp: claim_recover_def Let_def)
  have "find_run i s2 = Some (requeue env run)"
    using find_run_after_update[OF s2, of i] run r(1) by (auto simp: find_run_def dest: find_SomeD)
  with r(2) show ?thesis by (simp add: find_run_def)
qed

lemma claim_recover_known:
  assumes "claim_recover env run s = Inr s'"
  shows "known_job j i s' = known_job j i s"
proof -
  have "outbox s' = outbox s"
    using assms update_run_tables(8) by (fastforce simp: claim_recover_def Let_def)
  then show ?thesis by (simp add: known_job_def)
qed

text \<open>What both ends of a claim start from, after a possible recovery.\<close>

lemma claim_ready:
  assumes inv: "run_inv s" and job: "validate_job job s = Some d"
    and run: "find_run_in (j_run job) (j_workspace job) s = Some run"
    and pre: "r_status run = Queued \<and> s1 = s \<or> r_status run = Running \<and>
         expired (r_lease_expires run) (tx_now env) \<and> claim_recover env run s = Inr s1"
  obtains row where "safe_step s s1" "known_job (j_id job) (j_run job) s1"
    "processing (j_run job) s1 = []" "find_run (j_run job) s1 = Some row" "r_id row = j_run job"
    "r_status row = Queued" "r_attempt row = r_attempt run"
proof -
  note r = find_run_inD[OF inv run]
  note known = validate_job_known[OF job]
  show thesis
  proof (cases "r_status run = Queued \<and> s1 = s")
    case True
    then have "processing (j_run job) s1 = []"
      using run_invD(7)[OF inv r(2)] r(3) by (simp add: excl_run_def)
    with True r known show thesis by (intro that[of run]) (auto intro: safe_refl inv)
  next
    case False
    with pre have rec: "claim_recover env run s = Inr s1" and "r_status run = Running" by auto
    then show thesis
      using claim_recover_safe[OF inv r(2) _ rec] claim_recover_row[OF inv r(1) rec]
        claim_recover_known[OF rec] claim_recover_inv(2)[OF inv rec] known r(3)
      by (intro that[of "requeue env run"]) (auto simp: requeue_def)
  qed
qed

lemma claim_start_safe:
  assumes inv: "run_inv s" and job: "known_job (j_id job) (j_run job) s"
    and none: "processing (j_run job) s = []" and row: "find_run (j_run job) s = Some row"
    and live: "r_status row = Queued" and run: "r_id run = j_run job"
    and ok: "claim_start env job run prof agent w lease s = Inr (x, s')"
  shows "safe_step s s'"
proof -
  obtain s1 where s1: "update_run env (r_id run) (start_attempt env w lease) s = Inr s1"
    and s': "agent_runs s' = agent_runs s1"
    using ok by (auto simp: claim_start_def Let_def)
  have row': "row \<in> set (agent_runs s)" "r_id row = r_id run"
    using row run by (auto dest: find_run_SomeD)
  show ?thesis
    using claim_start_inv[OF inv job none run ok] s' live
    by (intro safe_update[OF inv row'(1), unfolded row'(2), OF s1]) simp_all
qed

lemma claim_safe:
  assumes inv: "run_inv s" and ok: "claim env job w lease s = Inr (x, s')"
  shows "safe_step s s'"
  using ok
proof (cases rule: claim_cases)
  case nothing
  then show ?thesis using inv by (simp add: safe_refl)
next
  case (receipt run d st)
  note run = find_run_inD[OF inv receipt(3)]
  have "run_inv s'"
    unfolding receipt(4)
  proof (rule terminal_receipt_inv[OF inv validate_job_known[OF receipt(2)] receipt(5)])
    fix r assume "r \<in> set (agent_runs s)" and "r_id r = j_run job"
    then show "excl_run r (filter (\<lambda>x. rc_job x \<noteq> j_id job) (processing (j_run job) s))"
      using run_invD(7)[OF inv] by (metis excl_run_filter)
  qed
  with receipt(4) show ?thesis by (simp add: safe_same_runs)
next
  case (cancel run d s1)
  obtain row where row: "safe_step s s1" "known_job (j_id job) (j_run job) s1"
    "find_run (j_run job) s1 = Some row" "r_id row = j_run job" "r_status row = Queued"
    by (rule claim_ready[OF inv cancel(2,3,4)])
  then have "run_inv s1" "row \<in> set (agent_runs s1)"
    by (auto simp: safe_step_def dest: find_run_SomeD)
  moreover have "r_id run = j_run job" "r_status run \<noteq> Cancelled"
    using find_run_inD(3)[OF inv cancel(3)] cancel(4) by auto
  ultimately have "safe_step s1 s'"
    using row cancel(6) by (intro cancel_locked_safe[of s1 job row run]) auto
  with row(1) show ?thesis by (rule safe_trans)
next
  case (start run d prof s1)
  obtain row where row: "safe_step s s1" "known_job (j_id job) (j_run job) s1"
    "processing (j_run job) s1 = []" "find_run (j_run job) s1 = Some row" "r_status row = Queued"
    by (rule claim_ready[OF inv start(1,2,3)])
  then have "safe_step s1 s'"
    using find_run_inD(3)[OF inv start(2)] start(7)
    by (intro claim_start_safe[of s1]) (auto simp: safe_step_def)
  with row(1) show ?thesis by (rule safe_trans)
qed

lemma renew_lease_safe:
  assumes inv: "run_inv s" and ok: "renew_lease env jid rid w lease s = Inr (x, s')"
  shows "safe_step s s'"
proof -
  let ?until = "Some (tx_now env + seconds lease)"
  let ?p = "\<lambda>x. rc_job x = jid \<and> rc_run x = rid \<and> rc_status x = Processing \<and>
                  rc_worker x = Some w \<and> \<not> expired (rc_lease_expires x) (tx_now env)"
  let ?g = "\<lambda>x. x\<lparr>rc_lease_expires := ?until, rc_updated := tx_now env\<rparr>"
  let ?q = "\<lambda>r. r_id r = rid \<and> r_status r = Running \<and> r_lease_owner r = Some w \<and>
                  \<not> expired (r_lease_expires r) (tx_now env)"
  let ?h = "\<lambda>r. r\<lparr>r_lease_expires := ?until, r_updated := tx_now env\<rparr>"
  let ?f = "\<lambda>r. if ?q r then ?h r else r"
  have s': "s' = s\<lparr>receipts := sql_update ?p ?g (receipts s),
      agent_runs := sql_update ?q ?h (agent_runs s)\<rparr>"
    using ok by (auto simp: renew_lease_def Let_def update_receipts_def)
  have runs: "agent_runs s' = sql_update (\<lambda>r. r_id r = rid) ?f (agent_runs s)"
    by (simp add: s' sql_update_def)
  have proc: "processing j s' = sql_update ?p ?g (processing j s)" for j
    by (simp add: s' processing_def filter_sql_update_keep)
  have "run_inv s'"
  proof (rule run_inv_moves[OF inv, where i = rid and f = ?f and new = "[]"])
    have "processing j s' = processing j s" if "j \<noteq> rid" for j
      unfolding proc using that by (intro sql_update_none) (auto simp: processing_def)
    then show "moves rid ?f s s'" by (simp add: moves_def runs)
    have links: "same_links s s'"
      using same_links_update[of ?g s ?p] by (simp add: same_links_def s' update_receipts_def)
    show "distinct (map rc_job (receipts s'))"
      using same_links_jobs[OF links] run_invD(2)[OF inv] by simp
    show "\<forall>x \<in> set (receipts s'). known_job (rc_job x) (rc_run x) s"
      using run_invD(4)[OF inv] by (intro same_links_known[OF links])
    show "run_row_check (?f r) \<and> excl_run (?f r) (processing rid s')"
      if "r \<in> set (agent_runs s)" "r_id r = rid" for r
      using run_invD(6,7)[OF inv that(1)] that(2)
      by (auto simp: proc excl_run_def run_row_check_def set_sql_update)
  qed (use run_invD[OF inv] journal_cong[of s' s] in \<open>auto simp: s'\<close>)
  moreover have "run_mono s s'"
  proof -
    have "find_run j s' = map_option (\<lambda>r. if r_id r = rid then ?f r else r) (find_run j s)" for j
      unfolding find_run_def runs by (rule find_sql_update) simp
    then show ?thesis by (auto simp: run_mono_def run_le_def phase_def)
  qed
  ultimately show ?thesis by (simp add: safe_step_def)
qed

section \<open>The owner's transactions\<close>

text \<open>The owner cancels instead, when a cancellation was requested.\<close>

lemma owner_cancel_safe:
  assumes inv: "run_inv s" and job: "known_job (j_id job) (j_run job) s"
    and own: "owned_processing env job w s = Some (run, rc)"
    and ok: "cancel_locked env run job w s = Inr s'"
  shows "safe_step s s'"
  using owned_processingD[OF own]
  by (intro cancel_locked_safe[OF inv job _ _ _ _ _ ok, of run]) simp_all

text \<open>The owner writes the run, closes its receipt and journals it.\<close>

lemma owner_write_safe:
  assumes inv: "run_inv s" and job: "known_job (j_id job) (j_run job) s"
    and own: "owned_processing env job w s = Some (run, rc)"
    and upd: "update_run env (r_id run) f s = Inr s1"
    and f: "\<And>r. r_id (f r) = r_id r" "r_status run = Running \<Longrightarrow> run_le run (f run)"
    and st: "st \<noteq> Processing"
  shows "safe_step s (append_run_event env ws i ty p (receipt_done env job st err s1))"
proof -
  note o = owned_processingD[OF own]
  have "run_inv (append_run_event env ws i ty p (receipt_done env job st err s1))"
    by (rule run_inv_append[OF owner_finish_inv[OF inv job own upd f(1) st]])
  then show ?thesis
    using f(1) f(2)[OF o(6)] by (intro safe_update[OF inv o(1) upd]) simp_all
qed

lemma insert_outbox_safe:
  assumes inv: "run_inv s" and ok: "insert_outbox ob s = Inr s'"
    and run: "find_run (o_run ob) s = Some r"
  shows "safe_step s s'"
proof -
  have "o_run ob \<in> r_id ` set (agent_runs s)"
    using find_run_SomeD[OF run] by force
  from insert_outbox_inv[OF inv ok this] show ?thesis
    using ok by (intro safe_same_runs) (auto simp: insert_outbox_Inr)
qed

lemma outbox_job_run [simp]: "o_run (outbox_job env k t r) = r_id r"
  by (simp add: outbox_job_def)

lemma wait_for_approval_safe:
  assumes inv: "run_inv s" and job: "known_job (j_id job) (j_run job) s"
    and ok: "wait_for_approval env job w cid aid s = Inr (x, s')"
  shows "safe_step s s'"
proof (cases "owned_processing env job w s")
  case None
  with ok inv show ?thesis by (simp add: wait_for_approval_def safe_refl)
next
  case (Some own)
  then obtain run rc where own: "owned_processing env job w s = Some (run, rc)" by (cases own) auto
  with ok safe_refl[OF inv] show ?thesis
    by (auto simp: wait_for_approval_def split: if_splits
        intro: owner_cancel_safe[OF inv job own] owner_write_safe[OF inv job own])
qed

lemma complete_success_safe:
  assumes inv: "run_inv s" and job: "known_job (j_id job) (j_run job) s"
    and ok: "complete_success env job w s = Inr (x, s')"
  shows "safe_step s s'"
proof (cases "owned_processing env job w s")
  case None
  with ok inv show ?thesis by (simp add: complete_success_def safe_refl)
next
  case (Some own)
  then obtain run rc where own: "owned_processing env job w s = Some (run, rc)" by (cases own) auto
  from own ok show ?thesis
    by (auto simp: complete_success_def split: if_splits
        intro!: owner_write_safe[OF inv job own] intro: owner_cancel_safe[OF inv job own])
qed

lemma schedule_retry_safe:
  assumes inv: "run_inv s" and job: "known_job (j_id job) (j_run job) s"
    and own: "owned_processing env job w s = Some (run, rc)"
    and ok: "schedule_retry env job run code s = Inr (x, s')"
  shows "safe_step s s'"
proof -
  obtain s1 s3 ws i ty p t where upd: "update_run env (r_id run) (requeue env) s = Inr s1"
    and s3: "s3 = append_run_event env ws i ty p (receipt_done env job RFailed (Some code) s1)"
    and s': "insert_outbox (outbox_job env 0 t run) s3 = Inr s'"
    using ok by (auto simp: schedule_retry_def Let_def)
  have step: "safe_step s s3"
    unfolding s3 by (rule owner_write_safe[OF inv job own upd]) simp_all
  have "find_run (r_id run) s = Some run"
    using owned_processingD(1)[OF own] run_invD(1)[OF inv] by (simp add: find_run_unique)
  then obtain r' where "find_run (o_run (outbox_job env 0 t run)) s3 = Some r'"
    using step by (auto simp: safe_step_def run_mono_def)
  with step s' show ?thesis
    using insert_outbox_safe safe_trans unfolding safe_step_def by blast
qed

lemma complete_failure_safe:
  assumes inv: "run_inv s" and job: "known_job (j_id job) (j_run job) s"
    and ok: "complete_failure env job w code retryable s = Inr (x, s')"
  shows "safe_step s s'"
proof (cases "owned_processing env job w s")
  case None
  with ok inv show ?thesis by (auto simp: complete_failure_def safe_refl split: if_splits)
next
  case (Some own)
  then obtain run rc where own: "owned_processing env job w s = Some (run, rc)" by (cases own) auto
  from own ok show ?thesis
    by (auto simp: complete_failure_def fail_run_def split: if_splits
        intro!: owner_write_safe[OF inv job own]
        intro: owner_cancel_safe[OF inv job own] schedule_retry_safe[OF inv job own])
qed

end
