(* ===== verification/Run_Recovery.thy ===== *)
theory Run_Recovery
  imports Run_Safety
begin

text \<open>
  Recovery of expired leases and of queued runs whose job was lost (\<open>recover_stale\<close>): it is a
  safe step, it returns whenever the identifiers it draws are new, and every run it selects ends
  in the queue with a job a relay can publish.
\<close>

section \<open>Rows one after the other\<close>

lemma each_row_keeps:
  assumes "each_row f k rs s = Inr s'" and "P s" and "\<forall>r \<in> set rs. Q r"
    and step: "\<And>k r t t'. Q r \<Longrightarrow> P t \<Longrightarrow> f k r t = Inr t' \<Longrightarrow> P t'"
  shows "P s'"
  using assms(1,2,3)
proof (induction rs arbitrary: k s)
  case Nil
  then show ?case by simp
next
  case (Cons r rs)
  then obtain t where t: "f k r s = Inr t" "each_row f (Suc k) rs t = Inr s'" by auto
  have "P t" by (rule step[OF _ Cons.prems(2) t(1)]) (use Cons.prems(3) in simp)
  with t(2) Cons.prems(3) show ?case by (intro Cons.IH) simp_all
qed

text \<open>What the step of a row establishes, and no later step undoes, holds at the end.\<close>

lemma each_row_effect:
  assumes "each_row f k rs s = Inr s'" and "P s" and "\<forall>r \<in> set rs. Q r"
    and step: "\<And>k r t t'. Q r \<Longrightarrow> P t \<Longrightarrow> f k r t = Inr t' \<Longrightarrow> P t' \<and> E r t'"
    and keep: "\<And>k r q t t'. Q r \<Longrightarrow> P t \<Longrightarrow> E q t \<Longrightarrow> f k r t = Inr t' \<Longrightarrow> E q t'"
  shows "P s' \<and> (\<forall>r \<in> set rs. E r s')"
  using assms(1,2,3)
proof (induction rs arbitrary: k s)
  case Nil
  then show ?case by simp
next
  case (Cons r rs)
  then obtain t where t: "f k r s = Inr t" "each_row f (Suc k) rs t = Inr s'" by auto
  have q: "Q r" "\<forall>x \<in> set rs. Q x" using Cons.prems(3) by simp_all
  have pt: "P t \<and> E r t" by (rule step[OF q(1) Cons.prems(2) t(1)])
  have "P s' \<and> E r s'"
  proof (rule each_row_keeps[OF t(2) _ q(2), where P = "\<lambda>t. P t \<and> E r t"])
    show "P u' \<and> E r u'" if "Q x" "P u \<and> E r u" "f n x u = Inr u'" for n x u u'
      using that step[OF that(1) _ that(3)] keep[OF that(1) _ _ that(3)] by blast
  qed (rule pt)
  with Cons.IH[OF t(2)] pt q(2) show ?case by simp
qed

text \<open>The rows return when each does; \<open>P k\<close> is what the steps from the \<open>k\<close>-th on need.\<close>

lemma each_row_total:
  assumes "P k s" and "\<forall>r \<in> set rs. Q r" and "k + length rs \<le> n"
    and step: "\<And>k r t. k < n \<Longrightarrow> Q r \<Longrightarrow> P k t \<Longrightarrow> \<exists>t'. f k r t = Inr t' \<and> P (Suc k) t'"
  shows "\<exists>s'. each_row f k rs s = Inr s' \<and> P (k + length rs) s'"
  using assms(1,2,3)
proof (induction rs arbitrary: k s)
  case Nil
  then show ?case by simp
next
  case (Cons r rs)
  obtain t where t: "f k r s = Inr t" "P (Suc k) t"
    using step[OF _ _ Cons.prems(1), of r] Cons.prems(2,3) by auto
  obtain u where "each_row f (Suc k) rs t = Inr u" "P (Suc k + length rs) u"
    using Cons.IH[OF t(2)] Cons.prems(2,3) by auto
  with t(1) show ?case by simp
qed

section \<open>One run\<close>

definition job_ready :: "uuid \<Rightarrow> db \<Rightarrow> bool" where
  "job_ready i s \<longleftrightarrow> (\<exists>x \<in> set (outbox s). o_run x = i \<and> deliverable x)"

definition has_status :: "run_status \<Rightarrow> uuid \<Rightarrow> db \<Rightarrow> bool" where
  "has_status st i s \<longleftrightarrow> (\<exists>r. find_run i s = Some r \<and> r_status r = st)"

text \<open>The identifiers a transaction draws, from the \<open>k\<close>-th to the last, are new and distinct.\<close>

definition fresh_jobs :: "txenv \<Rightarrow> nat \<Rightarrow> nat \<Rightarrow> db \<Rightarrow> bool" where
  "fresh_jobs env k n s \<longleftrightarrow> inj_on (tx_uuid env) {k..<n} \<and>
    (\<forall>i \<in> {k..<n}. \<forall>x \<in> set (outbox s). o_id x \<noteq> tx_uuid env i)"

lemma outbox_job_deliverable [simp]: "deliverable (outbox_job env k t r)"
  by (simp add: deliverable_def outbox_job_def)

lemma outbox_job_id [simp]: "o_id (outbox_job env k t r) = tx_uuid env k"
  by (simp add: outbox_job_def)

lemma fresh_next:
  assumes "fresh_jobs env k n s" and "k < n" and "outbox s' = outbox s @ [outbox_job env k t r]"
  shows "fresh_jobs env (Suc k) n s'"
proof -
  have "tx_uuid env k \<noteq> tx_uuid env i" if "i \<in> {Suc k..<n}" for i
    using assms(1,2) inj_onD[of "tx_uuid env" "{k..<n}" k i] that unfolding fresh_jobs_def by auto
  then show ?thesis
    using assms(1) unfolding fresh_jobs_def assms(3) by (auto intro: inj_on_subset)
qed

text \<open>Both loops write \<open>f\<close> to a run that exists, journal it and add a job for it.\<close>

definition requeues ::
    "txenv \<Rightarrow> (run_row \<Rightarrow> run_row) \<Rightarrow> nat \<Rightarrow> run_row \<Rightarrow> db \<Rightarrow> db \<Rightarrow> bool" where
  "requeues env f k run s s' \<longleftrightarrow> safe_step s s' \<and>
    (\<exists>t. outbox s' = outbox s @ [outbox_job env k t run]) \<and>
    (\<forall>j. find_run j s' = map_option (\<lambda>r. if r_id r = r_id run then f r else r) (find_run j s))"

lemma requeues_ready:
  assumes "requeues env f k run s s'"
  shows "job_ready (r_id run) s'" and "job_ready i s \<Longrightarrow> job_ready i s'"
  using assms by (auto simp: requeues_def job_ready_def)

definition waiting_row :: "uuid \<Rightarrow> db \<Rightarrow> bool" where
  "waiting_row i s \<longleftrightarrow> (\<exists>r. find_run i s = Some r \<and> r_status r \<in> {Queued, Running})"

lemma find_run_tables: "agent_runs s' = agent_runs s \<Longrightarrow> find_run i s' = find_run i s"
  by (simp add: find_run_def)

lemma write_and_enqueue:
  assumes upd: "update_run env (r_id run) f s1 = Inr s2" and f: "\<And>r. r_id (f r) = r_id r"
    and s1: "agent_runs s1 = agent_runs s" "outbox s1 = outbox s"
    and row: "find_run (r_id run) s = Some row" "run_le row (f row)"
    and inv: "run_inv s2"
    and ins: "insert_outbox (outbox_job env k t run) (append_run_event env ws i ty p s2) = Inr s'"
  shows "requeues env f k run s s'"
proof -
  have found: "find_run j s2 = map_option (\<lambda>r. if r_id r = r_id run then f r else r) (find_run j s)" for j
    using find_run_after_update[OF upd f, of j] find_run_tables[OF s1(1)] by simp
  have "agent_runs s' = agent_runs s2"
    using ins by (auto simp: insert_outbox_Inr)
  with found have find_s': "find_run j s' =
      map_option (\<lambda>r. if r_id r = r_id run then f r else r) (find_run j s)" for j
    by (simp add: find_run_def)
  moreover have "run_mono s s'"
    unfolding run_mono_def find_s'
  proof (intro allI impI)
    fix j r assume r: "find_run j s = Some r"
    show "\<exists>r'. map_option (\<lambda>r. if r_id r = r_id run then f r else r) (find_run j s) = Some r' \<and> run_le r r'"
    proof (cases "r_id r = r_id run")
      case True
      with r row have "r = row" using find_run_SomeD[OF r] by simp
      with r row show ?thesis by simp
    next
      case False
      with r show ?thesis by simp
    qed
  qed
  moreover have "find_run (r_id run) s2 = Some (f row)"
    using found row find_run_SomeD[OF row(1)] by simp
  then have "safe_step (append_run_event env ws i ty p s2) s'"
    using insert_outbox_safe[OF run_inv_append[OF inv] ins] by simp
  moreover have "outbox s' = outbox s @ [outbox_job env k t run]"
    using ins update_run_tables(8)[OF upd] s1(2) by (auto simp: insert_outbox_Inr)
  ultimately show ?thesis
    by (auto simp: requeues_def safe_step_def)
qed

lemma recover_one_requeues:
  assumes inv: "run_inv s" and row: "waiting_row (r_id run) s"
    and ok: "recover_one env k run s = Inr s'"
  shows "requeues env (requeue env) k run s s'" and "processing (r_id run) s' = []"
proof -
  let ?s1 = "update_receipts (\<lambda>x. rc_run x = r_id run \<and> rc_status x = Processing)
                (\<lambda>x. x\<lparr>rc_status := Superseded, rc_lease_expires := None,
                       rc_error := Some ''lease_expired'', rc_updated := tx_now env\<rparr>) s"
  obtain r where r: "find_run (r_id run) s = Some r" "r_status r \<in> {Queued, Running}"
    using row by (auto simp: waiting_row_def)
  obtain s2 where s2: "update_run env (r_id run) (requeue env) ?s1 = Inr s2"
    and ins: "insert_outbox (outbox_job env k (tx_now env) run)
         (append_run_event env (r_workspace run) (r_id run) ''run.recovered''
           [(''previous_attempt'', JInt (int (r_attempt run)))] s2) = Inr s'"
    using ok by (auto simp: recover_one_def Let_def)
  have "run_inv s2 \<and> processing (r_id run) s2 = []"
    using supersede_inv[OF inv s2] by simp
  moreover from this have "requeues env (requeue env) k run s s'"
    using r by (intro write_and_enqueue[OF s2 _ _ _ r(1) _ _ ins]) auto
  ultimately show "requeues env (requeue env) k run s s'" "processing (r_id run) s' = []"
    using ins by (auto simp: insert_outbox_Inr processing_def)
qed

lemma requeue_orphan_requeues:
  assumes inv: "run_inv s" and row: "has_status Queued (r_id run) s"
    and ok: "requeue_orphan env k run s = Inr s'"
  shows "requeues env (\<lambda>r. r\<lparr>r_updated := tx_now env\<rparr>) k run s s'"
proof -
  let ?f = "\<lambda>r. r\<lparr>r_updated := tx_now env\<rparr>"
  obtain r where r: "find_run (r_id run) s = Some r" "r_status r = Queued"
    using row by (auto simp: has_status_def)
  obtain s2 where s2: "update_run env (r_id run) ?f s = Inr s2"
    and ins: "insert_outbox (outbox_job env k (tx_now env) run)
        (append_run_event env (r_workspace run) (r_id run) ''run.redis_requeued''
          [(''reason'', JStr ''delivery_recovery'')] s2) = Inr s'"
    using ok by (auto simp: requeue_orphan_def)
  note t = update_run_tables[OF s2]
  have "run_inv s2"
  proof (rule run_inv_moves[OF inv, where i = "r_id run" and f = ?f and new = "[]"])
    show "moves (r_id run) ?f s s2" by (simp add: moves_def t processing_def)
    show "run_row_check (?f x) \<and> excl_run (?f x) (processing (r_id run) s2)"
      if "x \<in> set (agent_runs s)" "r_id x = r_id run" for x
      using run_invD(6,7)[OF inv that(1)] that(2)
      by (simp add: processing_cong[OF t(7)] excl_run_def run_row_check_def)
  qed (use run_invD[OF inv] t journal_cong[of s2 s] in auto)
  then show ?thesis
    using r by (intro write_and_enqueue[OF s2 _ _ _ r(1) _ _ ins]) (auto simp: run_le_def phase_def)
qed

lemma update_run_total:
  assumes "run_inv s" and "agent_runs s1 = agent_runs s" and "find_run i s = Some r"
    and "run_transition_ok (r_status r) (r_status (f r))" and "run_row_check r \<Longrightarrow> run_row_check (f r)"
  shows "\<exists>s2. update_run env i f s1 = Inr s2"
  using assms run_invD(6)[OF assms(1)] find_run_tables[OF assms(2)]
  by (auto simp: update_run_def dest: find_run_SomeD)

lemma recover_one_total:
  assumes inv: "run_inv s" and row: "waiting_row (r_id run) s" and fresh: "fresh_jobs env k n s" "k < n"
  shows "\<exists>s'. recover_one env k run s = Inr s'"
proof -
  obtain r where r: "find_run (r_id run) s = Some r" "r_status r \<in> {Queued, Running}"
    using row by (auto simp: waiting_row_def)
  let ?s1 = "update_receipts (\<lambda>x. rc_run x = r_id run \<and> rc_status x = Processing)
                (\<lambda>x. x\<lparr>rc_status := Superseded, rc_lease_expires := None,
                       rc_error := Some ''lease_expired'', rc_updated := tx_now env\<rparr>) s"
  obtain s2 where s2: "update_run env (r_id run) (requeue env) ?s1 = Inr s2"
    using update_run_total[OF inv _ r(1), of ?s1 "requeue env" env] r(2)
    by (auto simp: requeue_def run_row_check_def)
  then have "fresh_jobs env k n s2"
    using fresh update_run_tables(8)[OF s2] by (simp add: fresh_jobs_def)
  then show ?thesis
    using s2 fresh(2) by (simp add: recover_one_def Let_def fresh_jobs_def insert_outbox_Inr)
qed

lemma requeue_orphan_total:
  assumes inv: "run_inv s" and row: "has_status Queued (r_id run) s" and fresh: "fresh_jobs env k n s" "k < n"
  shows "\<exists>s'. requeue_orphan env k run s = Inr s'"
proof -
  obtain r where r: "find_run (r_id run) s = Some r" "r_status r = Queued"
    using row by (auto simp: has_status_def)
  obtain s2 where s2: "update_run env (r_id run) (\<lambda>r. r\<lparr>r_updated := tx_now env\<rparr>) s = Inr s2"
    using update_run_total[OF inv refl r(1), of "\<lambda>r. r\<lparr>r_updated := tx_now env\<rparr>" env]
    by (auto simp: run_row_check_def)
  then have "fresh_jobs env k n s2"
    using fresh update_run_tables(8)[OF s2] by (simp add: fresh_jobs_def)
  then show ?thesis
    using s2 fresh(2) by (simp add: requeue_orphan_def fresh_jobs_def insert_outbox_Inr)
qed

section \<open>The whole pass\<close>

lemma requeues_find:
  "requeues env f k run s s' \<Longrightarrow> find_run i s = Some r \<Longrightarrow>
    find_run i s' = Some (if r_id r = r_id run then f r else r)"
  by (simp add: requeues_def)

lemma requeue_status [simp]: "r_status (requeue env r) = Queued"
  by (simp add: requeue_def)

lemma requeues_waiting:
  assumes "requeues env (requeue env) k run s s'" and "waiting_row i s"
  shows "waiting_row i s'"
proof -
  obtain r where "find_run i s = Some r" "r_status r \<in> {Queued, Running}"
    using assms(2) by (auto simp: waiting_row_def)
  with requeues_find[OF assms(1)] show ?thesis by (simp add: waiting_row_def)
qed

lemma requeues_has_queued:
  assumes "requeues env f k run s s'" and "\<And>r. r_status r = Queued \<Longrightarrow> r_status (f r) = Queued"
    and "has_status Queued i s"
  shows "has_status Queued i s'"
proof -
  obtain r where "find_run i s = Some r" "r_status r = Queued"
    using assms(3) by (auto simp: has_status_def)
  with requeues_find[OF assms(1)] assms(2) show ?thesis by (simp add: has_status_def)
qed

lemma requeues_queued:
  assumes "requeues env (requeue env) k run s s'" and "waiting_row (r_id run) s"
  shows "has_status Queued (r_id run) s'"
proof -
  obtain r where r: "find_run (r_id run) s = Some r"
    using assms(2) by (auto simp: waiting_row_def)
  with requeues_find[OF assms(1) r] find_run_SomeD[OF r] show ?thesis
    by (simp add: has_status_def)
qed

lemma requeues_processing:
  assumes "run_inv s" and "requeues env f k run s s'" and "has_status Queued i s'"
  shows "processing i s' = []"
proof -
  have inv: "run_inv s'" using assms(2) by (simp add: requeues_def safe_step_def)
  obtain r where "find_run i s' = Some r" "r_status r = Queued"
    using assms(3) by (auto simp: has_status_def)
  with run_invD(7)[OF inv] show ?thesis
    by (fastforce simp: excl_run_def dest: find_run_SomeD)
qed

text \<open>What a recovered run looks like: queued, held by no receipt, with a job to publish.\<close>

definition recovered :: "uuid \<Rightarrow> db \<Rightarrow> bool" where
  "recovered i s \<longleftrightarrow> has_status Queued i s \<and> processing i s = [] \<and> job_ready i s"

lemma recovered_keep:
  assumes "run_inv s" and "requeues env f k run s s'" and "recovered i s"
    and "\<And>r. r_status r = Queued \<Longrightarrow> r_status (f r) = Queued"
  shows "recovered i s'"
proof -
  have q: "has_status Queued i s'"
    using requeues_has_queued[OF assms(2,4)] assms(3) by (simp add: recovered_def)
  then show ?thesis
    using requeues_processing[OF assms(1,2) q] requeues_ready(2)[OF assms(2)] assms(3)
    by (simp add: recovered_def)
qed

definition pass_ok :: "db \<Rightarrow> uuid set \<Rightarrow> db \<Rightarrow> bool" where
  "pass_ok s is t \<longleftrightarrow> run_inv t \<and> safe_step s t \<and> (\<forall>i \<in> is. waiting_row i t)"

lemma recover_one_pass:
  assumes "pass_ok s is t" and "r_id r \<in> is" and "recover_one env k r t = Inr t'"
  shows "pass_ok s is t' \<and> recovered (r_id r) t'" and "recovered i t \<Longrightarrow> recovered i t'"
proof -
  have p: "run_inv t" "safe_step s t" "waiting_row (r_id r) t"
    using assms(1,2) by (auto simp: pass_ok_def)
  note req = recover_one_requeues[OF p(1,3) assms(3)]
  have "pass_ok s is t'"
    using assms(1) req(1) requeues_waiting[OF req(1)] safe_trans[OF p(2)]
    by (auto simp: pass_ok_def requeues_def safe_step_def)
  moreover have "recovered (r_id r) t'"
    using req requeues_queued[OF req(1) p(3)] requeues_ready(1)[OF req(1)] by (simp add: recovered_def)
  ultimately show "pass_ok s is t' \<and> recovered (r_id r) t'" by blast
  show "recovered i t \<Longrightarrow> recovered i t'"
    using recovered_keep[OF p(1) req(1)] by simp
qed

lemma orphan_pass:
  assumes "run_inv t" "safe_step s t" "recovered (r_id r) t \<or> has_status Queued (r_id r) t"
    and "requeue_orphan env k r t = Inr t'"
  shows "run_inv t' \<and> safe_step s t'" "recovered (r_id r) t'" "recovered i t \<Longrightarrow> recovered i t'"
    "has_status Queued i t \<Longrightarrow> has_status Queued i t'"
proof -
  have q: "has_status Queued (r_id r) t" using assms(3) by (auto simp: recovered_def)
  note req = requeue_orphan_requeues[OF assms(1) q assms(4)]
  show "run_inv t' \<and> safe_step s t'"
    using req safe_trans[OF assms(2)] by (auto simp: requeues_def safe_step_def)
  have q': "has_status Queued i t'" if "has_status Queued i t" for i
    using requeues_has_queued[OF req _ that] by simp
  then show "has_status Queued i t \<Longrightarrow> has_status Queued i t'" .
  show "recovered (r_id r) t'"
    using q'[OF q] requeues_processing[OF assms(1) req] requeues_ready(1)[OF req]
    by (simp add: recovered_def)
  show "recovered i t \<Longrightarrow> recovered i t'" using recovered_keep[OF assms(1) req] by simp
qed

text \<open>The two loops, from the states they start in.\<close>

lemma expired_waiting:
  assumes "run_inv s" and "r \<in> set (expired_runs env locked n s)"
  shows "waiting_row (r_id r) s"
proof -
  have "r \<in> set (agent_runs s) \<and> r_status r = Running"
    using order_limit_memD[OF assms(2)[unfolded expired_runs_def]] by simp
  then show ?thesis
    using run_invD(1)[OF assms(1)] by (auto simp: waiting_row_def find_run_unique)
qed

lemma orphan_queued:
  assumes "run_inv s" and "r \<in> set (orphaned_runs env locked secs n s)"
  shows "has_status Queued (r_id r) s"
proof -
  have "r \<in> set (agent_runs s) \<and> r_status r = Queued"
    using order_limit_memD[OF assms(2)[unfolded orphaned_runs_def]] by simp
  then show ?thesis
    using run_invD(1)[OF assms(1)] by (auto simp: has_status_def find_run_unique)
qed

lemma recover_loop:
  assumes inv: "run_inv s" and ok: "each_row (recover_one env) k rs s = Inr t"
    and rs: "\<forall>r \<in> set rs. waiting_row (r_id r) s"
  shows "run_inv t \<and> safe_step s t" and "\<forall>r \<in> set rs. recovered (r_id r) t"
proof -
  let ?is = "r_id ` set rs"
  have start: "pass_ok s ?is s"
    using inv rs by (simp add: pass_ok_def safe_refl)
  have "pass_ok s ?is t \<and> (\<forall>r \<in> set rs. recovered (r_id r) t)"
  proof (rule each_row_effect[where P = "pass_ok s ?is" and Q = "\<lambda>r. r_id r \<in> ?is",
      OF ok start])
    show "pass_ok s ?is u' \<and> recovered (r_id r) u'"
      if "r_id r \<in> ?is" "pass_ok s ?is u" "recover_one env m r u = Inr u'" for m r u u'
      by (rule recover_one_pass(1)[OF that(2,1,3)])
    show "recovered (r_id q) u'"
      if "r_id r \<in> ?is" "pass_ok s ?is u" "recovered (r_id q) u" "recover_one env m r u = Inr u'"
      for m r q u u'
      by (rule recover_one_pass(2)[OF that(2,1,4,3)])
  qed simp
  then show "run_inv t \<and> safe_step s t" "\<forall>r \<in> set rs. recovered (r_id r) t"
    by (simp_all add: pass_ok_def)
qed

lemma orphan_loop:
  assumes inv: "run_inv s" and ok: "each_row (requeue_orphan env) k rs s = Inr t"
    and rs: "\<forall>r \<in> set rs. has_status Queued (r_id r) s" and pre: "\<forall>i \<in> is. recovered i s"
  shows "run_inv t \<and> safe_step s t" and "\<forall>r \<in> set rs. recovered (r_id r) t"
    and "\<forall>i \<in> is. recovered i t"
proof -
  let ?js = "r_id ` set rs"
  let ?P = "\<lambda>t. run_inv t \<and> safe_step s t \<and> (\<forall>j \<in> ?js. has_status Queued j t) \<and> (\<forall>i \<in> is. recovered i t)"
  have start: "?P s" using inv pre rs by (simp add: safe_refl)
  have "?P t \<and> (\<forall>r \<in> set rs. recovered (r_id r) t)"
  proof (rule each_row_effect[where P = ?P and Q = "\<lambda>r. r_id r \<in> ?js", OF ok start])
    fix m r u u' assume a: "r_id r \<in> ?js" "?P u" "requeue_orphan env m r u = Inr u'"
    from a(1,2) have u: "run_inv u" "safe_step s u" "has_status Queued (r_id r) u" by blast+
    note st = orphan_pass[OF u(1,2) disjI2[OF u(3)] a(3)]
    have "\<forall>j \<in> ?js. has_status Queued j u'" "\<forall>i \<in> is. recovered i u'"
      using a(2) st(3,4) by blast+
    with st(1,2) show "?P u' \<and> recovered (r_id r) u'" by simp
    show "recovered (r_id q) u \<Longrightarrow> recovered (r_id q) u'" for q by (rule st(3))
  qed simp
  then show "run_inv t \<and> safe_step s t" "\<forall>r \<in> set rs. recovered (r_id r) t"
    "\<forall>i \<in> is. recovered i t" by simp_all
qed

lemma recover_stale_cases:
  assumes "recover_stale env locked limit secs s = Inr (n, s')"
  obtains t where "1 \<le> limit \<and> limit \<le> 100" "0 \<le> secs \<and> secs \<le> 3600"
    "each_row (recover_one env) 0 (expired_runs env locked (nat limit) s) s = Inr t"
    "nat limit \<le> length (expired_runs env locked (nat limit) s)" "s' = t"
    "n = length (expired_runs env locked (nat limit) s)"
  | t rest where "1 \<le> limit \<and> limit \<le> 100" "0 \<le> secs \<and> secs \<le> 3600"
    "each_row (recover_one env) 0 (expired_runs env locked (nat limit) s) s = Inr t"
    "rest = orphaned_runs env locked secs (nat limit - length (expired_runs env locked (nat limit) s)) t"
    "each_row (requeue_orphan env) (length (expired_runs env locked (nat limit) s)) rest t = Inr s'"
    "n = length (expired_runs env locked (nat limit) s) + length rest"
  using assms that by (auto simp: recover_stale_def Let_def split: if_splits)

lemma recover_stale_safe:
  assumes inv: "run_inv s" and ok: "recover_stale env locked limit secs s = Inr (n, s')"
  shows "safe_step s s'"
  using ok
proof (cases rule: recover_stale_cases)
  case (1 t)
  then show ?thesis using recover_loop(1)[OF inv 1(3)] expired_waiting[OF inv] by simp
next
  case (2 t rest)
  have t: "run_inv t \<and> safe_step s t"
    using recover_loop(1)[OF inv 2(3)] expired_waiting[OF inv] by simp
  have "safe_step t s'"
    using orphan_loop(1)[OF _ 2(5), of "{}"] t orphan_queued[of t] 2(4) by simp
  with t safe_trans show ?thesis by blast
qed

lemma recover_stale_expired:
  assumes inv: "run_inv s" and ok: "recover_stale env locked limit secs s = Inr (n, s')"
    and r: "r \<in> set (expired_runs env locked (nat limit) s)"
  shows "recovered (r_id r) s'"
  using ok
proof (cases rule: recover_stale_cases)
  case (1 t)
  then show ?thesis using recover_loop(2)[OF inv 1(3)] expired_waiting[OF inv] r by simp
next
  case (2 t rest)
  have t: "run_inv t" "\<forall>i \<in> r_id ` set (expired_runs env locked (nat limit) s). recovered i t"
    using recover_loop[OF inv 2(3)] expired_waiting[OF inv] by simp_all
  then show ?thesis
    using orphan_loop(3)[OF t(1) 2(5) _ t(2)] orphan_queued[of t] 2(4) r by simp
qed

lemma recover_stale_orphan:
  assumes inv: "run_inv s" and ok: "recover_stale env locked limit secs s = Inr (n, s')"
    and t: "each_row (recover_one env) 0 (expired_runs env locked (nat limit) s) s = Inr t"
    and r: "r \<in> set (orphaned_runs env locked secs
        (nat limit - length (expired_runs env locked (nat limit) s)) t)"
  shows "recovered (r_id r) s'"
  using ok
proof (cases rule: recover_stale_cases)
  case (1 u)
  with r show ?thesis by (simp add: orphaned_runs_def order_limit_def)
next
  case (2 u rest)
  have [simp]: "u = t" using t 2(3) by simp
  have "run_inv t" using recover_loop(1)[OF inv t] expired_waiting[OF inv] by simp
  with 2(5) show ?thesis
    using orphan_loop(2)[of t env _ rest s' "{}"] orphan_queued[of t] r by (simp add: 2(4))
qed

text \<open>The pass returns: no trigger, constraint or key stops it when the identifiers are new.\<close>

lemma recover_loop_total:
  assumes inv: "run_inv s" and fresh: "fresh_jobs env k n s" "k + length rs \<le> n"
    and rs: "\<forall>r \<in> set rs. waiting_row (r_id r) s"
  shows "\<exists>t. each_row (recover_one env) k rs s = Inr t \<and> run_inv t \<and> fresh_jobs env (k + length rs) n t"
proof -
  let ?is = "r_id ` set rs"
  let ?P = "\<lambda>k t. pass_ok s ?is t \<and> fresh_jobs env k n t"
  have "\<exists>t. each_row (recover_one env) k rs s = Inr t \<and> ?P (k + length rs) t"
  proof (rule each_row_total[where n = n and P = ?P and Q = "\<lambda>r. r_id r \<in> ?is"])
    show "?P k s" using inv rs fresh by (simp add: pass_ok_def safe_refl)
    fix m t and r :: run_row assume m: "m < n" and a: "r_id r \<in> ?is" "?P m t"
    then have p: "run_inv t" "waiting_row (r_id r) t" "fresh_jobs env m n t"
      by (auto simp: pass_ok_def)
    obtain t' where t': "recover_one env m r t = Inr t'"
      using recover_one_total[OF p m] by blast
    then show "\<exists>t'. recover_one env m r t = Inr t' \<and> ?P (Suc m) t'"
      using a recover_one_pass(1)[of s ?is t r] recover_one_requeues(1)[OF p(1,2) t']
        fresh_next[OF p(3) m] by (auto simp: requeues_def)
  qed (use fresh in simp_all)
  then show ?thesis by (auto simp: pass_ok_def)
qed

lemma orphan_loop_total:
  assumes inv: "run_inv s" and fresh: "fresh_jobs env k n s" "k + length rs \<le> n"
    and rs: "\<forall>r \<in> set rs. has_status Queued (r_id r) s"
  shows "\<exists>t. each_row (requeue_orphan env) k rs s = Inr t"
proof -
  let ?js = "r_id ` set rs"
  let ?P = "\<lambda>k t. run_inv t \<and> (\<forall>j \<in> ?js. has_status Queued j t) \<and> fresh_jobs env k n t"
  have "\<exists>t. each_row (requeue_orphan env) k rs s = Inr t \<and> ?P (k + length rs) t"
  proof (rule each_row_total[where n = n and P = ?P and Q = "\<lambda>r. r_id r \<in> ?js"])
    show "?P k s" using inv rs fresh by simp
    fix m t and r :: run_row assume m: "m < n" and a: "r_id r \<in> ?js" "?P m t"
    then have p: "run_inv t" "has_status Queued (r_id r) t" "fresh_jobs env m n t" by auto
    obtain t' where t': "requeue_orphan env m r t = Inr t'"
      using requeue_orphan_total[OF p m] by blast
    note st = orphan_pass[OF p(1) safe_refl[OF p(1)] disjI2[OF p(2)] t']
    have "fresh_jobs env (Suc m) n t'"
      using requeue_orphan_requeues[OF p(1,2) t'] fresh_next[OF p(3) m] by (auto simp: requeues_def)
    with a t' st(1,4) show "\<exists>t'. requeue_orphan env m r t = Inr t' \<and> ?P (Suc m) t'"
      by auto
  qed (use fresh in simp_all)
  then show ?thesis by blast
qed

lemma recover_stale_total:
  assumes inv: "run_inv s" and fresh: "fresh_jobs env 0 (nat limit) s"
    and args: "1 \<le> limit" "limit \<le> 100" "0 \<le> secs" "secs \<le> 3600"
  shows "\<exists>n s'. recover_stale env locked limit secs s = Inr (n, s')"
proof -
  let ?rs = "expired_runs env locked (nat limit) s"
  have few: "length ?rs \<le> nat limit"
    unfolding expired_runs_def by (rule order_limit_length)
  obtain t where t: "each_row (recover_one env) 0 ?rs s = Inr t" "run_inv t"
      "fresh_jobs env (length ?rs) (nat limit) t"
    using recover_loop_total[OF inv fresh, of ?rs] expired_waiting[OF inv] few by auto
  have "length (orphaned_runs env locked secs (nat limit - length ?rs) t) \<le> nat limit - length ?rs"
    unfolding orphaned_runs_def by (rule order_limit_length)
  with few have len: "length ?rs + length (orphaned_runs env locked secs (nat limit - length ?rs) t) \<le> nat limit"
    by linarith
  obtain u where "each_row (requeue_orphan env) (length ?rs)
      (orphaned_runs env locked secs (nat limit - length ?rs) t) t = Inr u"
    using orphan_loop_total[OF t(2,3) len] orphan_queued[OF t(2)] by blast
  with t(1) args show ?thesis by (simp add: recover_stale_def Let_def)
qed

end
