(* ===== verification/Run_Contract.thy ===== *)
theory Run_Contract
  imports Run_Recovery
begin

text \<open>
  What the run state store promises to a worker: its transactions return, a successful claim makes
  it the only owner, a worker that lost the run can no longer write it, and a failed attempt is
  retried a bounded number of times.
\<close>

section \<open>The transactions return\<close>

text \<open>A terminal status, the queue and the waiting room are always legal from a running run.\<close>

lemma cancel_locked_total:
  assumes inv: "run_inv s" and row: "find_run (r_id run) s = Some row" "\<not> terminal (r_status row)"
  shows "\<exists>s'. cancel_locked env run job w s = Inr s'"
proof -
  have "\<exists>s1. update_run env (r_id run) (finish env Cancelled) s = Inr s1"
    using live_cases[OF row(2)] 
    by (intro update_run_total[OF inv refl row(1)]) (auto simp: finish_def run_row_check_def)
  then show ?thesis by (auto simp: cancel_locked_def)
qed

lemma claim_recover_total:
  assumes inv: "run_inv s" and row: "find_run (r_id run) s = Some run" "r_status run = Running"
  shows "\<exists>s'. claim_recover env run s = Inr s'"
proof -
  let ?s1 = "update_receipts (\<lambda>x. rc_run x = r_id run \<and> rc_status x = Processing)
                (\<lambda>x. x\<lparr>rc_status := Superseded, rc_updated := tx_now env,
                       rc_error := Some ''lease_expired''\<rparr>) s"
  have "\<exists>s1. update_run env (r_id run) (requeue env) ?s1 = Inr s1"
    using row(2) by (intro update_run_total[OF inv _ row(1)]) (auto simp: requeue_def run_row_check_def)
  then show ?thesis by (auto simp: claim_recover_def Let_def)
qed

lemma claim_start_total:
  assumes inv: "run_inv s" and row: "find_run (r_id run) s = Some row" "r_status row = Queued"
  shows "\<exists>x s'. claim_start env job run prof agent w lease s = Inr (x, s')"
proof -
  have "\<exists>s1. update_run env (r_id run) (start_attempt env w lease) s = Inr s1"
    using row(2) by (intro update_run_total[OF inv refl row(1)])
      (auto simp: start_attempt_def run_row_check_def)
  then show ?thesis by (auto simp: claim_start_def Let_def)
qed

lemma claim_total:
  assumes inv: "run_inv s" and lease: "3 \<le> lease" "lease \<le> 300"
  shows "\<exists>x s'. claim env job w lease s = Inr (x, s')"
proof (cases "claim env job w lease s")
  case (Inr y)
  then show ?thesis by (cases y) simp
next
  case (Inl e)
  from Inl lease obtain d where d: "validate_job job s = Some d"
    by (auto simp: claim_def split: option.splits)
  from Inl lease d obtain run where run: "find_run_in (j_run job) (j_workspace job) s = Some run"
    by (auto simp: claim_def Let_def split: if_splits option.splits)
  note r = find_run_inD[OF inv run]
  obtain prof where prof: "claim_profile run s = Some prof"
    using Inl lease d run by (auto simp: claim_def Let_def split: if_splits option.splits)
  note e = Inl[unfolded claim_def Let_def d run option.case prof]
  have tail: "(if r_cancel_requested run \<noteq> None
       then bind_res (cancel_locked env run job w s1) (\<lambda>s2. Inr (Ack, s2))
       else claim_start env job run prof (jp_agent d) w lease s1) \<noteq> Inl e"
    if pre: "r_status run = Queued \<and> s1 = s \<or> r_status run = Running \<and>
         expired (r_lease_expires run) (tx_now env) \<and> claim_recover env run s = Inr s1" for s1
  proof -
    obtain row where row: "safe_step s s1" "find_run (r_id run) s1 = Some row" "r_status row = Queued"
      by (rule claim_ready[OF inv d run pre]) (simp add: r(3))
    then have "run_inv s1" by (simp add: safe_step_def)
    with row show ?thesis
      using cancel_locked_total[of s1 run row env job w]
        claim_start_total[of s1 run row env job prof "jp_agent d" w lease]
      by auto
  qed
  have "\<exists>s1. (if r_status run = Running then claim_recover env run s else Inr s) = Inr s1"
    using claim_recover_total[OF inv] r(1,3) by auto
  moreover have "r_status run = Queued" if "\<not> terminal (r_status run)" "r_status run \<noteq> WaitingForApproval"
    "r_status run \<noteq> Running" using live_cases[OF that(1)] that by blast
  ultimately show ?thesis
    using e lease tail by (auto split: if_splits)
qed

lemma owner_row:
  assumes "run_inv s" and "owned_processing env job w s = Some (run, rc)"
  shows "find_run (r_id run) s = Some run" "r_status run = Running"
  using owned_processingD[OF assms(2)] run_invD(1)[OF assms(1)] by (auto simp: find_run_unique)

lemma owner_update_total:
  assumes inv: "run_inv s" and own: "owned_processing env job w s = Some (run, rc)"
    and f: "run_row_check run \<Longrightarrow> run_row_check (f run)"
  shows "\<exists>s1. update_run env (r_id run) f s = Inr s1"
  using owner_row[OF inv own] f by (intro update_run_total[OF inv refl]) auto

lemma owner_cancel_total:
  assumes inv: "run_inv s" and own: "owned_processing env job w s = Some (run, rc)"
  shows "\<exists>s1. cancel_locked env run job w s = Inr s1"
  using owner_row[OF inv own] by (intro cancel_locked_total[OF inv]) auto

lemma complete_success_total:
  assumes inv: "run_inv s"
  shows "\<exists>x s'. complete_success env job w s = Inr (x, s')"
proof (cases "owned_processing env job w s")
  case None
  then show ?thesis by (simp add: complete_success_def ex_bool_eq)
next
  case (Some own)
  then obtain run rc where own: "owned_processing env job w s = Some (run, rc)" by (cases own) auto
  have "\<exists>s1. update_run env (r_id run) (\<lambda>r. (finish env Succeeded r)\<lparr>r_failure := None\<rparr>) s = Inr s1"
    by (rule owner_update_total[OF inv own]) (simp add: finish_def run_row_check_def)
  with own owner_cancel_total[OF inv own] show ?thesis
    by (auto simp: complete_success_def)
qed

lemma wait_for_approval_total:
  assumes inv: "run_inv s"
  shows "\<exists>x s'. wait_for_approval env job w cid aid s = Inr (x, s')"
proof (cases "owned_processing env job w s")
  case None
  then show ?thesis by (simp add: wait_for_approval_def ex_bool_eq)
next
  case (Some own)
  then obtain run rc where own: "owned_processing env job w s = Some (run, rc)" by (cases own) auto
  have "\<exists>s1. update_run env (r_id run) (park env) s = Inr s1"
    by (rule owner_update_total[OF inv own]) (simp add: park_def run_row_check_def)
  with own owner_cancel_total[OF inv own] show ?thesis
    by (auto simp: wait_for_approval_def)
qed

lemma schedule_retry_total:
  assumes inv: "run_inv s" and own: "owned_processing env job w s = Some (run, rc)"
    and fresh: "fresh_jobs env 0 1 s"
  shows "\<exists>x s'. schedule_retry env job run code s = Inr (x, s')"
proof -
  obtain s1 where s1: "update_run env (r_id run) (requeue env) s = Inr s1"
    using owner_update_total[OF inv own, of "requeue env"] by (auto simp: requeue_def run_row_check_def)
  have "fresh_jobs env 0 1 s1"
    using fresh update_run_tables(8)[OF s1] by (simp add: fresh_jobs_def)
  with s1 show ?thesis
    by (simp add: schedule_retry_def Let_def fresh_jobs_def insert_outbox_Inr ex_bool_eq)
qed

lemma complete_failure_total:
  assumes inv: "run_inv s" and fresh: "fresh_jobs env 0 1 s" and code: "code \<noteq> []" "length code \<le> 100"
  shows "\<exists>x s'. complete_failure env job w code retryable s = Inr (x, s')"
proof (cases "owned_processing env job w s")
  case None
  with code show ?thesis by (simp add: complete_failure_def ex_bool_eq)
next
  case (Some own)
  then obtain run rc where own: "owned_processing env job w s = Some (run, rc)" by (cases own) auto
  have "1 \<le> length code" using code(1) by (cases code) auto
  then have "\<exists>s1. update_run env (r_id run) (\<lambda>r. (finish env Failed r)\<lparr>r_failure := Some code\<rparr>) s = Inr s1"
    using code(2) by (intro owner_update_total[OF inv own]) (simp add: finish_def run_row_check_def)
  with own code owner_cancel_total[OF inv own] schedule_retry_total[OF inv own fresh] show ?thesis
    by (auto simp: complete_failure_def fail_run_def)
qed

section \<open>A claim makes an owner\<close>

lemma find_receipt_processing:
  "\<exists>rc. find_receipt (j_id job) (processing_receipt env job w l s) = Some rc \<and>
    rc_status rc = Processing \<and> rc_worker rc = Some w \<and> rc_lease_expires rc = l"
proof (cases "sql_exists (\<lambda>x. rc_job x = j_id job) (receipts s)")
  case True
  then obtain x where "find (\<lambda>x. rc_job x = j_id job) (receipts s) = Some x"
    by (cases "find (\<lambda>x. rc_job x = j_id job) (receipts s)") (auto simp: sql_exists_iff find_None_iff)
  moreover from this have "rc_job x = j_id job" by (auto dest: find_SomeD)
  ultimately show ?thesis
    using True by (simp add: find_receipt_def processing_receipt_def find_sql_update)
next
  case False
  then have "find (\<lambda>x. rc_job x = j_id job) (receipts s) = None"
    by (simp add: sql_exists_iff find_None_iff)
  with False show ?thesis
    by (simp add: find_receipt_def processing_receipt_def find_append)
qed

lemma claim_start_owner:
  assumes row: "find_run (j_run job) s = Some row"
    and run: "r_id run = j_run job" "r_attempt row = r_attempt run"
    and ok: "claim_start env job run prof agent w lease s = Inr (x, s')"
  obtains rc where "find_run (j_run job) s' = Some (start_attempt env w lease row)"
    "find_receipt (j_id job) s' = Some rc" "rc_status rc = Processing" "rc_worker rc = Some w"
    "rc_lease_expires rc = Some (tx_now env + seconds lease)"
    "x = Execute (context_of job run prof (Suc (r_attempt row)) agent)"
proof -
  let ?l = "Some (tx_now env + seconds lease)"
  obtain s1 ty p where s1: "update_run env (r_id run) (start_attempt env w lease) s = Inr s1"
    and s': "s' = append_run_event env (r_workspace run) (r_id run) ty p (processing_receipt env job w ?l s1)"
    and x: "x = Execute (context_of job run prof (Suc (r_attempt run)) agent)"
    using ok by (auto simp: claim_start_def Let_def)
  have "find_run (j_run job) s1 = Some (start_attempt env w lease row)"
    using find_run_after_update[OF s1, of "j_run job"] row run(1) find_run_SomeD[OF row] by simp
  then have "find_run (j_run job) s' = Some (start_attempt env w lease row)"
    by (simp add: s' find_run_def)
  moreover obtain rc where "find_receipt (j_id job) s' = Some rc \<and>
    rc_status rc = Processing \<and> rc_worker rc = Some w \<and> rc_lease_expires rc = ?l"
    using find_receipt_processing[of job env w ?l s1] by (auto simp: s' find_receipt_def)
  ultimately show thesis using that x run(2) by simp
qed

lemma claim_owner:
  assumes inv: "run_inv s" and ok: "claim env job w lease s = Inr (Execute ctx, s')"
  obtains old run rc where "find_run (j_run job) s = Some old"
    "find_run (j_run job) s' = Some run" "r_status run = Running" "r_lease_owner run = Some w"
    "r_lease_expires run = Some (tx_now env + seconds lease)" "r_workspace run = j_workspace job"
    "r_cancel_requested run = None" "r_attempt run = Suc (r_attempt old)" "x_attempt ctx = r_attempt run"
    "find_receipt (j_id job) s' = Some rc" "rc_status rc = Processing" "rc_worker rc = Some w"
    "rc_lease_expires rc = Some (tx_now env + seconds lease)" "x_run ctx = j_run job" "x_job ctx = j_id job"
    "known_job (j_id job) (j_run job) s"
  using ok
proof (cases rule: claim_cases)
  case (start run d prof s1)
  note run = find_run_inD[OF inv start(2)]
  obtain row where row: "safe_step s s1" "find_run (j_run job) s1 = Some row"
      "r_attempt row = r_attempt run"
    by (rule claim_ready[OF inv start(1,2,3)])
  then have le: "run_le run row"
    using run(1) unfolding safe_step_def run_mono_def by (metis option.inject)
  have cancel: "r_cancel_requested row = None"
    using start(3,4) row(2) run(1) claim_recover_row[OF inv run(1)] by (auto simp: requeue_def)
  obtain rc where rc: "find_run (j_run job) s' = Some (start_attempt env w lease row)"
    "find_receipt (j_id job) s' = Some rc" "rc_status rc = Processing" "rc_worker rc = Some w"
    "rc_lease_expires rc = Some (tx_now env + seconds lease)"
    "Execute ctx = Execute (context_of job run prof (Suc (r_attempt row)) (jp_agent d))"
    by (rule claim_start_owner[OF row(2) run(3) row(3) start(7)])
  show thesis
    using that[OF run(1) rc(1) _ _ _ _ _ _ _ rc(2,3,4,5)] rc(6) le cancel run row(3)
      validate_job_known[OF start(1)]
    by (simp add: start_attempt_def context_of_def run_le_def)
qed simp_all

text \<open>The new owner can write until its lease runs out.\<close>

lemma claim_owns:
  assumes inv: "run_inv s" and ok: "claim env job w lease s = Inr (Execute ctx, s')"
    and t: "tx_now env' < tx_now env + seconds lease"
  obtains run rc where "owned_processing env' job w s' = Some (run, rc)" "r_attempt run = x_attempt ctx"
    "r_cancel_requested run = None" "known_job (j_id job) (j_run job) s'"
proof -
  obtain run rc where o: "find_run (j_run job) s' = Some run" "r_status run = Running"
    "r_lease_owner run = Some w" "r_lease_expires run = Some (tx_now env + seconds lease)"
    "r_workspace run = j_workspace job" "r_cancel_requested run = None"
    "x_attempt ctx = r_attempt run"
    "find_receipt (j_id job) s' = Some rc" "rc_status rc = Processing" "rc_worker rc = Some w"
    "rc_lease_expires rc = Some (tx_now env + seconds lease)" "known_job (j_id job) (j_run job) s"
    by (rule claim_owner[OF inv ok])
  have inv': "run_inv s'" using claim_safe[OF inv ok] by (simp add: safe_step_def)
  have "find_run_in (j_run job) (j_workspace job) s' = Some run"
    unfolding find_run_in_def
    using o(1,5) run_invD(1)[OF inv'] by (intro find_unique_conj) (auto dest: find_run_SomeD)
  then have own: "owned_processing env' job w s' = Some (run, rc)"
    using o t by (simp add: owned_processing_def expired_def)
  have "outbox s' = outbox s"
    using ok
  proof (cases rule: claim_cases)
    case (start r d prof s1)
    then have "outbox s1 = outbox s"
      using update_run_tables(8) by (fastforce simp: claim_recover_def Let_def)
    with start(7) show ?thesis
      using update_run_tables(8) by (fastforce simp: claim_start_def Let_def)
  qed simp_all
  with o(12) have "known_job (j_id job) (j_run job) s'" by (simp add: known_job_def)
  with own o(6,7) that show thesis by simp
qed

text \<open>Nobody else owns the run in the state the claim leaves.\<close>

lemma one_owner:
  assumes inv: "run_inv s"
    and own: "owned_processing env job w s = Some (run, rc)" "known_job (j_id job) (j_run job) s"
    and own': "owned_processing env' job' w' s = Some (run', rc')" "known_job (j_id job') (j_run job') s"
    and same: "j_run job' = j_run job"
  shows "w' = w" and "j_id job' = j_id job"
proof -
  have "[rc'] = [rc]"
    using owned_processing_only[OF inv own(2,1)] owned_processing_only[OF inv own'(2,1)] same by simp
  then show "w' = w" "j_id job' = j_id job"
    using owned_processingD(5,9)[OF own(1)] owned_processingD(5,9)[OF own'(1)] by auto
qed

lemma claim_lease: "claim env job w lease s = Inr r \<Longrightarrow> 3 \<le> lease \<and> lease \<le> 300"
  by (simp add: claim_def split: if_splits)

lemma claim_only_owner:
  assumes inv: "run_inv s" and ok: "claim env job w lease s = Inr (Execute ctx, s')"
    and other: "j_run job' = j_run job" "w' \<noteq> w \<or> j_id job' \<noteq> j_id job"
    and known: "known_job (j_id job') (j_run job') s'"
  shows "owned_processing env' job' w' s' = None"
proof (rule ccontr)
  assume "owned_processing env' job' w' s' \<noteq> None"
  then obtain run' rc' where own: "owned_processing env' job' w' s' = Some (run', rc')" by auto
  have inv': "run_inv s'" using claim_safe[OF inv ok] by (simp add: safe_step_def)
  have "tx_now env < tx_now env + seconds lease" using claim_lease[OF ok] by simp
  then obtain run rc where "owned_processing env job w s' = Some (run, rc)"
    "known_job (j_id job) (j_run job) s'"
    by (rule claim_owns[OF inv ok])
  from one_owner[OF inv' this own known other(1)] other(2) show False by simp
qed

section \<open>Retries\<close>

lemma round_div_bounds:
  assumes "0 < d" and "a * d \<le> n" and "n \<le> b * d"
  shows "a \<le> round_div n d" and "round_div n d \<le> b"
proof -
  let ?q = "n div d" and ?r = "n mod d"
  have n: "n = ?q * d + ?r" by simp
  have r: "0 \<le> ?r" "?r < d" using assms(1) by simp_all
  have lo: "a \<le> ?q" using zdiv_mono1[OF assms(2,1)] assms(1) by simp
  have hi: "?q + 1 \<le> b" if "0 < ?r"
  proof -
    have "?q * d < b * d" using n that assms(3) by linarith
    then show ?thesis using assms(1) by (simp add: mult_less_cancel_right)
  qed
  have "?q \<le> b"
  proof -
    have "?q * d \<le> b * d" using n r(1) assms(3) by linarith
    then show ?thesis using assms(1) by simp
  qed
  moreover have "0 < ?r" if "d \<le> 2 * ?r" using that assms(1) by simp
  ultimately show "a \<le> round_div n d" "round_div n d \<le> b"
    using lo hi by (auto simp: round_div_def Let_def)
qed

lemma jittered_bounds:
  assumes "0 \<le> base" and "h \<le> 65535"
  shows "base * 1000 \<le> jittered_ms base h" and "jittered_ms base h \<le> base * 1250"
proof -
  have h: "int h \<le> 65535" using assms(2) by simp
  have lo: "base * 1000 * (4 * 65535) \<le> base * 1000 * (4 * 65535 + int h)"
    using assms(1) by (intro mult_left_mono) simp_all
  have "base * 1000 * (4 * 65535 + int h) \<le> base * 1000 * (4 * 65535 + 65535)"
    using assms(1) h by (intro mult_left_mono) simp_all
  then have hi: "base * 1000 * (4 * 65535 + int h) \<le> base * 1250 * (4 * 65535)" by simp
  show "base * 1000 \<le> jittered_ms base h" "jittered_ms base h \<le> base * 1250"
    unfolding jittered_ms_def using round_div_bounds[OF _ lo hi] by simp_all
qed

definition retry_base :: "nat \<Rightarrow> int" where
  "retry_base attempt = min 60 (2 ^ min attempt 6)"

lemma retry_delay_bounds:
  "retry_base attempt * 1000 \<le> retry_delay_ms run attempt"
  "retry_delay_ms run attempt \<le> retry_base attempt * 1250"
  using jittered_bounds[of "retry_base attempt"] digest_head16_bound
  by (simp_all add: retry_delay_ms_def retry_base_def)

text \<open>What an update, a receipt and an event leave of the run that was written.\<close>

lemma find_after_write:
  assumes "update_run env (r_id run) f s = Inr s1" and "find_run (r_id run) s = Some run"
    and "\<And>r. r_id (f r) = r_id r"
  shows "find_run (r_id run) s1 = Some (f run)"
  using find_run_after_update[OF assms(1,3), of "r_id run"] assms(2) by simp

lemma find_run_receipt_done [simp]: "find_run i (receipt_done env job st err s) = find_run i s"
  by (simp add: find_run_def)

lemma schedule_retry_effect:
  assumes inv: "run_inv s" and own: "owned_processing env job w s = Some (run, rc)"
    and ok: "schedule_retry env job run code s = Inr (x, s')"
  shows "x \<and> has_status Queued (r_id run) s' \<and>
    outbox s' = outbox s @
      [outbox_job env 0 (tx_now env + retry_delay_ms (r_id run) (r_attempt run) * 1000) run]"
proof -
  let ?t = "tx_now env + retry_delay_ms (r_id run) (r_attempt run) * 1000"
  obtain s1 p where s1: "update_run env (r_id run) (requeue env) s = Inr s1"
    and s': "s' = (append_run_event env (r_workspace run) (r_id run) ''run.retry_scheduled'' p
          (receipt_done env job RFailed (Some code) s1))\<lparr>outbox := outbox s1 @ [outbox_job env 0 ?t run]\<rparr>"
    and "x"
    using ok by (auto simp: schedule_retry_def Let_def insert_outbox_Inr)
  have "find_run (r_id run) s' = find_run (r_id run) s1"
    by (simp add: s' find_run_def)
  then have "find_run (r_id run) s' = Some (requeue env run)"
    using find_after_write[OF s1 owner_row(1)[OF inv own]] by simp
  then show ?thesis
    using \<open>x\<close> update_run_tables(8)[OF s1] by (simp add: has_status_def s')
qed

lemma fail_run_effect:
  assumes inv: "run_inv s" and own: "owned_processing env job w s = Some (run, rc)"
    and ok: "fail_run env job run code s = Inr (x, s')"
  shows "x \<and> has_status Failed (r_id run) s' \<and> outbox s' = outbox s"
proof -
  let ?f = "\<lambda>r. (finish env Failed r)\<lparr>r_failure := Some code\<rparr>"
  obtain s1 p where s1: "update_run env (r_id run) ?f s = Inr s1"
    and s': "s' = append_run_event env (r_workspace run) (r_id run) ''run.failed'' p
          (receipt_done env job RFailed (Some code) s1)"
    and "x"
    using ok by (auto simp: fail_run_def)
  have "find_run (r_id run) s' = Some (?f run)"
    using find_after_write[OF s1 owner_row(1)[OF inv own]] by (simp add: s')
  then show ?thesis
    using \<open>x\<close> update_run_tables(8)[OF s1] by (simp add: has_status_def s' finish_def)
qed

lemma complete_success_effect:
  assumes inv: "run_inv s" and own: "owned_processing env job w s = Some (run, rc)"
    and cancel: "r_cancel_requested run = None"
    and ok: "complete_success env job w s = Inr (x, s')"
  shows "x \<and> has_status Succeeded (r_id run) s' \<and> outbox s' = outbox s"
proof -
  let ?f = "\<lambda>r. (finish env Succeeded r)\<lparr>r_failure := None\<rparr>"
  obtain s1 p where s1: "update_run env (r_id run) ?f s = Inr s1"
    and s': "s' = append_run_event env (r_workspace run) (r_id run) ''run.succeeded'' p
          (receipt_done env job RSucceeded None s1)"
    and "x"
    using ok own cancel by (auto simp: complete_success_def)
  have "find_run (r_id run) s' = Some (?f run)"
    using find_after_write[OF s1 owner_row(1)[OF inv own]] by (simp add: s')
  then show ?thesis
    using \<open>x\<close> update_run_tables(8)[OF s1] by (simp add: has_status_def s' finish_def)
qed

lemma cancel_locked_effect:
  assumes inv: "run_inv s" and own: "owned_processing env job w s = Some (run, rc)"
    and ok: "cancel_locked env run job w s = Inr s'"
  shows "has_status Cancelled (r_id run) s' \<and> outbox s' = outbox s"
proof -
  have "r_status run \<noteq> Cancelled" using owner_row(2)[OF inv own] by simp
  then obtain s1 p where s1: "update_run env (r_id run) (finish env Cancelled) s = Inr s1"
    and s': "s' = terminal_receipt env job RCancelled w
        (append_run_event env (r_workspace run) (r_id run) ''run.cancelled'' p s1)"
    using ok by (auto simp: cancel_locked_def)
  have "find_run (r_id run) s' = find_run (r_id run) s1"
    by (simp add: s' find_run_def)
  then have "find_run (r_id run) s' = Some (finish env Cancelled run)"
    using find_after_write[OF s1 owner_row(1)[OF inv own]] by simp
  then show ?thesis
    using update_run_tables(8)[OF s1] by (simp add: has_status_def s' finish_def)
qed

end
