(* ===== verification/Samples.thy ===== *)
theory Samples
  imports Workspaces Run_Contract
begin

text \<open>
  A small concrete installation the witnesses of the properties evaluate on: one workspace with an
  owner and a member, one custom agent, and one queued run whose job has been published.
\<close>

definition alice :: principal where
  "alice = \<lparr>issuer = ''iss'', subject = ''alice''\<rparr>"

definition bob :: principal where
  "bob = \<lparr>issuer = ''iss'', subject = ''bob''\<rparr>"

definition env_at :: "time \<Rightarrow> nat \<Rightarrow> txenv" where
  "env_at t k = \<lparr>tx_now = t, tx_clock = (\<lambda>_. t), tx_uuid = (\<lambda>n. of_nat (k + n))\<rparr>"

definition sample_agent :: agent_row where
  "sample_agent = \<lparr>a_id = 30, a_workspace = 10, a_name = ''helper'', a_instructions = ''help'',
     a_model_profile = ''default'', a_issuer = ''iss'', a_subject = ''alice'', a_created = 0\<rparr>"

definition sample_run :: run_row where
  "sample_run = \<lparr>r_id = 20, r_workspace = 10, r_agent = Some 30, r_tenant_agent = None,
     r_snapshot = None, r_issuer = ''iss'', r_subject = ''alice'', r_input = ''hello'',
     r_request_hash = ''h'', r_idempotency_key = ''key'', r_trace = 50, r_status = Queued,
     r_attempt = 0, r_cancel_requested = None, r_lease_owner = None, r_lease_expires = None,
     r_finished = None, r_failure = None, r_created = 0, r_updated = 0\<rparr>"

definition sample_outbox :: outbox_row where
  "sample_outbox = \<lparr>o_id = 40, o_workspace = 10, o_run = 20, o_topic = run_topic,
     o_payload = \<lparr>p_run = 20, p_workspace = 10, p_agent = 30, p_trace = 50, p_kind = None\<rparr>,
     o_attempts = 0, o_available = 0, o_published = Some 1, o_dead = None, o_error = None,
     o_created = 0\<rparr>"

definition sample_job :: worker_job where
  "sample_job = \<lparr>j_id = 40, j_workspace = 10, j_run = 20, j_topic = run_topic,
     j_payload = \<lparr>jp_run = 20, jp_workspace = 10, jp_agent = 30, jp_trace = 50, jp_kind = Custom\<rparr>\<rparr>"

definition queued_db :: db where
  "queued_db = empty_db\<lparr>workspaces := [\<lparr>w_id = 10, w_name = ''lab''\<rparr>],
     memberships := [\<lparr>m_workspace = 10, m_issuer = ''iss'', m_subject = ''alice'', m_role = Owner\<rparr>,
                     \<lparr>m_workspace = 10, m_issuer = ''iss'', m_subject = ''bob'', m_role = Member\<rparr>],
     agent_definitions := [sample_agent], agent_runs := [sample_run], outbox := [sample_outbox]\<rparr>"

text \<open>The run in the hands of worker \<open>w1\<close>, from instant 0 and for thirty seconds.\<close>

definition running_run :: run_row where
  "running_run = sample_run\<lparr>r_status := Running, r_attempt := 1, r_lease_owner := Some ''w1'',
     r_lease_expires := Some 30000000\<rparr>"

definition running_receipt :: receipt_row where
  "running_receipt = \<lparr>rc_job = 40, rc_workspace = 10, rc_run = 20, rc_status = Processing,
     rc_delivery = 1, rc_worker = Some ''w1'', rc_lease_expires = Some 30000000, rc_error = None,
     rc_updated = 0\<rparr>"

definition running_event :: event_row where
  "running_event = \<lparr>e_workspace = 10, e_run = 20, e_no = 1, e_type = ''run.started'',
     e_payload = [(''attempt'', JInt 1), (''job_id'', JStr (uuid_str 40))], e_created = 0\<rparr>"

definition running_db :: db where
  "running_db = queued_db\<lparr>agent_runs := [running_run], receipts := [running_receipt],
     run_events := [running_event]\<rparr>"

lemmas sample_defs =
  alice_def bob_def env_at_def sample_agent_def sample_run_def sample_outbox_def sample_job_def
  queued_db_def running_run_def running_receipt_def running_event_def running_db_def empty_db_def
  run_topic_def

lemma queued_db_inv: "run_inv queued_db"
  by (simp add: run_inv_def keys_ok_def linked_def rows_ok_def run_row_check_def exclusive_def
      processing_def known_job_def journal_ok_def events_of_def sample_defs)

lemma running_db_inv: "run_inv running_db"
  by (simp add: run_inv_def keys_ok_def linked_def rows_ok_def run_row_check_def exclusive_def
      processing_def known_job_def journal_ok_def events_of_def sample_defs excl_run_def)

lemma sample_known: "known_job (j_id sample_job) (j_run sample_job) queued_db"
    "known_job (j_id sample_job) (j_run sample_job) running_db"
  by (simp_all add: known_job_def sample_defs)

definition sample_context :: exec_context where
  "sample_context = \<lparr>x_job = 40, x_workspace = 10, x_run = 20, x_agent = 30, x_trace = 50,
     x_input = ''hello'', x_instructions = Some ''help'', x_model_profile = Some ''default'',
     x_attempt = 1, x_kind = Custom, x_snapshot = None, x_allowed_tools = None, x_tool_aliases = None\<rparr>"

lemmas claim_defs =
  claim_def validate_job_def find_outbox_def validate_payload_def find_receipt_def find_run_in_def
  run_target_def run_kind_def claim_profile_def expired_def claim_start_def update_run_def
  find_run_def start_attempt_def run_row_check_def sync_goal_task_def clear_retrieval_context_def
  processing_receipt_def sql_exists_def append_run_event_def next_event_no_def events_of_def
  context_of_def seconds_def

lemma sample_claim:
  "claim (env_at 0 60) sample_job ''w1'' 30 queued_db = Inr (Execute sample_context, running_db)"
  by (simp add: claim_defs sample_defs sample_context_def)

lemma sample_owned:
  "owned_processing (env_at t k) sample_job ''w1'' running_db =
    (if t < 30000000 then Some (running_run, running_receipt) else None)"
  by (simp add: owned_processing_def find_run_in_def find_receipt_def expired_def sample_defs)

lemma sample_fresh: "fresh_jobs (env_at t 60) 0 n queued_db \<longleftrightarrow> fresh_jobs (env_at t 60) 0 n running_db"
  by (simp add: fresh_jobs_def sample_defs)

end
