(* ===== verification/Run_Properties.thy ===== *)
theory Run_Properties
  imports Samples
begin

text \<open>
  The properties of the run state store (\<open>run_state.py\<close>), each with a concrete instance.
\<close>

section \<open>Ownership\<close>

text \<open>C4: After a claim by worker \<open>w\<close> under job \<open>job\<close>, no other worker and no other job of
  the same run owns it, whatever the clock says: its success, failure or approval wait is refused
  and changes nothing. This is the split-brain safety of the lease protocol.\<close>

theorem claim_excludes_others:
  assumes "run_inv s" and "claim env job w lease s = Inr (Execute ctx, s')"
    and "j_run job' = j_run job" and "w' \<noteq> w \<or> j_id job' \<noteq> j_id job"
    and "known_job (j_id job') (j_run job') s'"
  shows "complete_success env' job' w' s' = Inr (False, s') \<and>
    wait_for_approval env' job' w' cid aid s' = Inr (False, s') \<and>
    complete_failure env' job' w' code retryable s' =
      (if code = [] \<or> length code > 100 then Inl (ValueError ''invalid error_code'')
       else Inr (False, s'))"
  using claim_only_owner[OF assms]
  by (simp add: complete_success_def wait_for_approval_def complete_failure_def)

theorem claim_excludes_others_witness:
  "complete_success (env_at 5 70) sample_job ''w2'' running_db = Inr (False, running_db)"
  using claim_excludes_others[OF queued_db_inv sample_claim, of sample_job "''w2''" "env_at 5 70"]
    sample_known by simp

text \<open>A worker that claimed a run and reports success before its lease runs out ends the run:
  the report is accepted and the run is succeeded.\<close>

theorem claim_then_success:
  assumes "run_inv s" and "claim env job w lease s = Inr (Execute ctx, s')"
    and "tx_now env' < tx_now env + seconds lease"
  shows "\<exists>s''. complete_success env' job w s' = Inr (True, s'') \<and> run_inv s'' \<and>
    has_status Succeeded (j_run job) s''"
proof -
  have inv: "run_inv s'" using claim_safe[OF assms(1,2)] by (simp add: safe_step_def)
  obtain run rc where own: "owned_processing env' job w s' = Some (run, rc)"
    "r_cancel_requested run = None" "known_job (j_id job) (j_run job) s'"
    by (rule claim_owns[OF assms])
  obtain x s'' where ok: "complete_success env' job w s' = Inr (x, s'')"
    using complete_success_total[OF inv] by blast
  then show ?thesis
    using complete_success_effect[OF inv own(1,2) ok] owned_processingD(2)[OF own(1)]
      complete_success_safe[OF inv own(3) ok] by (auto simp: safe_step_def)
qed

theorem claim_then_success_witness:
  "\<exists>s''. complete_success (env_at 5 70) sample_job ''w1'' running_db = Inr (True, s'') \<and>
    run_inv s'' \<and> has_status Succeeded (j_run sample_job) s''"
  using claim_then_success[OF queued_db_inv sample_claim, of "env_at 5 70"]
  by (simp add: env_at_def seconds_def)

text \<open>C30: Claiming always returns: in every state of the invariant no trigger, check or key of the
  database rejects it.\<close>

theorem claim_returns:
  assumes "run_inv s" and "3 \<le> lease" and "lease \<le> 300"
  shows "\<exists>x s'. claim env job w lease s = Inr (x, s') \<and> run_inv s'"
  using claim_total[OF assms, of env job w] claim_safe[OF assms(1)] by (fastforce simp: safe_step_def)

theorem claim_returns_witness:
  "\<exists>x s'. claim (env_at 40000000 70) sample_job ''w2'' 30 running_db = Inr (x, s') \<and> run_inv s'"
  by (rule claim_returns[OF running_db_inv]) simp_all

text \<open>A job of a queued run that was published and not yet received starts the next attempt:
  the claim gives the worker the context of the run, with the attempt counted up by one.\<close>

theorem queued_job_starts:
  assumes inv: "run_inv s" and lease: "3 \<le> lease" "lease \<le> 300"
    and job: "validate_job job s = Some d" "find_receipt (j_id job) s = None"
    and run: "find_run_in (j_run job) (j_workspace job) s = Some run" "r_status run = Queued"
      "r_cancel_requested run = None" "claim_profile run s = Some prof"
    and fits: "run_target run = Some (jp_agent d)" "run_kind run = jp_kind d" "r_trace run = jp_trace d"
  shows "\<exists>s'. claim env job w lease s =
      Inr (Execute (context_of job run prof (Suc (r_attempt run)) (jp_agent d)), s') \<and>
    has_status Running (j_run job) s'"
proof -
  note r = find_run_inD[OF inv run(1)]
  have claim: "claim env job w lease s = claim_start env job run prof (jp_agent d) w lease s"
    using lease job run fits by (simp add: claim_def)
  obtain x s' where ok: "claim_start env job run prof (jp_agent d) w lease s = Inr (x, s')"
    using claim_start_total[OF inv] r(1,3) run(2) by metis
  obtain rc where "find_run (j_run job) s' = Some (start_attempt env w lease run)"
    "x = Execute (context_of job run prof (Suc (r_attempt run)) (jp_agent d))"
    by (rule claim_start_owner[OF r(1,3) refl ok])
  with claim ok show ?thesis by (auto simp: has_status_def start_attempt_def)
qed

theorem queued_job_starts_witness:
  "\<exists>ctx s'. claim (env_at 0 60) sample_job ''w1'' 30 queued_db = Inr (Execute ctx, s') \<and>
    has_status Running 20 s'"
proof -
  have "\<exists>s'. claim (env_at 0 60) sample_job ''w1'' 30 queued_db =
      Inr (Execute (context_of sample_job sample_run
        \<lparr>rp_instructions = Some ''help'', rp_model_profile = Some ''default'', rp_allowed = None,
         rp_aliases = None\<rparr> (Suc (r_attempt sample_run)) (jp_agent (j_payload sample_job))), s') \<and>
    has_status Running (j_run sample_job) s'"
    by (rule queued_job_starts[OF queued_db_inv])
      (simp_all add: claim_defs sample_defs)
  then show ?thesis by (auto simp: sample_job_def)
qed

section \<open>Failure and recovery\<close>

text \<open>C28: A failed attempt of an uncancelled run is retried exactly when the error is retryable and
  fewer than three attempts have started: the run is queued again with one new deliverable job,
  available after a delay of at least the exponential base (at most 60 seconds) and at most a
  quarter more. Otherwise the run ends failed and no job is added.\<close>

theorem failure_policy:
  assumes inv: "run_inv s" and fresh: "fresh_jobs env 0 1 s"
    and code: "code \<noteq> []" "length code \<le> 100"
    and own: "owned_processing env job w s = Some (run, rc)" "r_cancel_requested run = None"
  shows "\<exists>s'. complete_failure env job w code retryable s = Inr (True, s') \<and>
    (if retryable \<and> r_attempt run < MAX_RUN_ATTEMPTS
     then has_status Queued (j_run job) s' \<and>
       (\<exists>x. outbox s' = outbox s @ [x] \<and> deliverable x \<and> o_run x = j_run job \<and>
          tx_now env + 1000000 * retry_base (r_attempt run) \<le> o_available x \<and>
          o_available x \<le> tx_now env + 1250000 * retry_base (r_attempt run))
     else has_status Failed (j_run job) s' \<and> outbox s' = outbox s)"
proof -
  have id: "r_id run = j_run job" by (rule owned_processingD(2)[OF own(1)])
  obtain x s' where ok: "complete_failure env job w code retryable s = Inr (x, s')"
    using complete_failure_total[OF inv fresh code] by blast
  show ?thesis
  proof (cases "retryable \<and> r_attempt run < MAX_RUN_ATTEMPTS")
    case True
    then have "schedule_retry env job run code s = Inr (x, s')"
      using ok own code by (simp add: complete_failure_def)
    note eff = schedule_retry_effect[OF inv own(1) this]
    have "tx_now env + 1000000 * retry_base (r_attempt run) \<le>
        tx_now env + retry_delay_ms (r_id run) (r_attempt run) * 1000"
      "tx_now env + retry_delay_ms (r_id run) (r_attempt run) * 1000 \<le>
        tx_now env + 1250000 * retry_base (r_attempt run)"
      using retry_delay_bounds by (simp_all add: mult.commute)
    with True eff ok id show ?thesis
      by (auto simp: outbox_job_def deliverable_def)
  next
    case False
    then have "fail_run env job run code s = Inr (x, s')"
      using ok own code by (auto simp: complete_failure_def)
    from False fail_run_effect[OF inv own(1) this] ok id show ?thesis by auto
  qed
qed

theorem failure_policy_witness:
  "\<exists>s'. complete_failure (env_at 5 70) sample_job ''w1'' ''boom'' True running_db = Inr (True, s') \<and>
    has_status Queued 20 s'"
proof -
  have fresh: "fresh_jobs (env_at 5 70) 0 1 running_db"
    by (simp add: fresh_jobs_def sample_defs)
  have own: "owned_processing (env_at 5 70) sample_job ''w1'' running_db =
      Some (running_run, running_receipt)"
    by (simp add: sample_owned)
  have run: "r_cancel_requested running_run = None" "r_attempt running_run < MAX_RUN_ATTEMPTS"
    "j_run sample_job = 20"
    by (simp_all add: MAX_RUN_ATTEMPTS_def sample_defs)
  show ?thesis
    using failure_policy[OF running_db_inv fresh _ _ own run(1), of "''boom''" True] run(2,3) by auto
qed

text \<open>C29: Recovery of a run whose lease has expired leaves it queued, held by no receipt, with a
  job the relay can publish; the same holds for a queued run whose job was lost.\<close>

theorem recovery_requeues:
  assumes "run_inv s" and "recover_stale env locked limit secs s = Inr (n, s')"
    and "each_row (recover_one env) 0 (expired_runs env locked (nat limit) s) s = Inr t"
    and "r \<in> set (expired_runs env locked (nat limit) s) \<or>
      r \<in> set (orphaned_runs env locked secs
        (nat limit - length (expired_runs env locked (nat limit) s)) t)"
  shows "has_status Queued (r_id r) s' \<and> processing (r_id r) s' = [] \<and> job_ready (r_id r) s' \<and>
    run_inv s'"
  using recover_stale_expired[OF assms(1,2)] recover_stale_orphan[OF assms(1,2,3)]
    recover_stale_safe[OF assms(1,2)] assms(4)
  by (auto simp: recovered_def safe_step_def)

lemma sample_expired:
  "expired_runs (env_at 40000000 70) (\<lambda>_. False) 10 running_db = [running_run]"
  by (simp add: expired_runs_def order_limit_def sample_defs)

lemma uuid_of_nat_eq:
  "m < 2 ^ 128 \<Longrightarrow> n < 2 ^ 128 \<Longrightarrow> (of_nat m :: uuid) = of_nat n \<longleftrightarrow> m = n"
  by (simp add: word_of_nat_eq_iff take_bit_nat_eq_self)

lemma env_at_uuid: "k + i < 2 ^ 128 \<Longrightarrow> k + j < 2 ^ 128 \<Longrightarrow>
    tx_uuid (env_at t k) i = tx_uuid (env_at t k) j \<longleftrightarrow> i = j"
  using uuid_of_nat_eq[of "k + i" "k + j"] by (simp add: env_at_def)

lemma env_at_uuid_not: "m < 2 ^ 128 \<Longrightarrow> k + i < 2 ^ 128 \<Longrightarrow> m \<noteq> k + i \<Longrightarrow>
    (of_nat m :: uuid) \<noteq> tx_uuid (env_at t k) i"
  using uuid_of_nat_eq[of m "k + i"] by (simp add: env_at_def)

lemma sample_env_fresh: "fresh_jobs (env_at t 70) 0 10 running_db"
proof -
  have "inj_on (tx_uuid (env_at t 70)) {0..<10}"
    by (auto simp: inj_on_def env_at_uuid)
  moreover have "(40 :: uuid) \<noteq> tx_uuid (env_at t 70) i" if "i < 10" for i
    using env_at_uuid_not[of 40 70 i t] that by simp
  ultimately show ?thesis
    by (simp add: fresh_jobs_def running_db_def queued_db_def sample_outbox_def)
qed

theorem recovery_requeues_witness:
  "\<exists>n s'. recover_stale (env_at 40000000 70) (\<lambda>_. False) 10 15 running_db = Inr (n, s') \<and>
    has_status Queued 20 s' \<and> job_ready 20 s'"
proof -
  let ?env = "env_at 40000000 70"
  obtain n s' where ok: "recover_stale ?env (\<lambda>_. False) 10 15 running_db = Inr (n, s')"
    using recover_stale_total[OF running_db_inv, of ?env 10 15 "\<lambda>_. False"] sample_env_fresh
    by (auto simp del: split_paired_Ex)
  obtain t where t: "each_row (recover_one ?env) 0
      (expired_runs ?env (\<lambda>_. False) (nat 10) running_db) running_db = Inr t"
    using ok by (auto elim!: recover_stale_cases)
  have "r_id running_run = 20" by (simp add: sample_defs)
  with recovery_requeues[OF running_db_inv ok t, of running_run] ok show ?thesis
    by (auto simp: sample_expired)
qed

end
