(* ===== verification/Tool_Contracts.thy ===== *)
theory Tool_Contracts
  imports Schema
begin

text \<open>
  Tool contracts (\<open>tool_contracts.py\<close>): the canonical text of a JSON value and its hash, the JSON
  Schema subset a tool registers with, and the validation of arguments and results against it.
  \<open>json.dumps\<close> also fails on nesting deeper than the interpreter's recursion limit, which is not
  modelled.
\<close>

section \<open>Canonical JSON and hashes\<close>

definition MAX_ARGUMENT_BYTES :: nat where "MAX_ARGUMENT_BYTES = 32 * 1024"

definition MAX_RESULT_BYTES :: nat where "MAX_RESULT_BYTES = 64 * 1024"

definition MAX_SCHEMA_BYTES :: nat where "MAX_SCHEMA_BYTES = 32 * 1024"

definition MAX_CONTRACT_BYTES :: nat where "MAX_CONTRACT_BYTES = 96 * 1024"

definition MAX_SCHEMA_DEPTH :: nat where "MAX_SCHEMA_DEPTH = 16"

definition canonical_json :: "json \<Rightarrow> nat \<Rightarrow> string res" where
  "canonical_json v limit =
    (if \<not> all_finite v then Inl (ToolContractError ''invalid_json'')
     else if length (utf8 (dumps v)) > limit then Inl (ToolContractError ''payload_too_large'')
     else Inr (dumps v))"

definition hash_arguments :: "json \<Rightarrow> (string \<times> string) res" where
  "hash_arguments args =
    bind_res (canonical_json args MAX_ARGUMENT_BYTES) (\<lambda>c. Inr (c, sha256_hex c))"

fun side_effect_str :: "side_effect \<Rightarrow> string" where
  "side_effect_str ReadEffect = ''read''"
| "side_effect_str WriteEffect = ''write''"
| "side_effect_str Destructive = ''destructive''"
| "side_effect_str ExternalCommunication = ''external_communication''"

definition hash_tool_contract ::
    "string \<Rightarrow> string \<Rightarrow> json \<Rightarrow> json option \<Rightarrow> side_effect \<Rightarrow> string res" where
  "hash_tool_contract server remote input output eff =
    bind_res (canonical_json
      (JObj [(''server_key'', JStr server), (''remote_name'', JStr remote), (''input_schema'', input),
             (''output_schema'', case output of None \<Rightarrow> JNull | Some v \<Rightarrow> v),
             (''side_effect'', JStr (side_effect_str eff))]) MAX_CONTRACT_BYTES)
      (\<lambda>c. Inr (sha256_hex c))"

section \<open>Schemas\<close>

definition INPUT_SCHEMA_KEYS :: "string list" where
  "INPUT_SCHEMA_KEYS = [''$schema'', ''title'', ''description'', ''type'', ''properties'',
     ''required'', ''additionalProperties'']"

definition VALUE_SCHEMA_KEYS :: "string list" where
  "VALUE_SCHEMA_KEYS = [''title'', ''description'', ''type'', ''properties'', ''required'',
     ''additionalProperties'', ''items'', ''enum'', ''minLength'', ''maxLength'', ''minimum'',
     ''maximum'', ''minItems'', ''maxItems'']"

definition JSON_TYPES :: "string list" where
  "JSON_TYPES = [''object'', ''array'', ''string'', ''integer'', ''number'', ''boolean'', ''null'']"

definition contract_err :: "string \<Rightarrow> 'a res" where
  "contract_err c = Inl (ToolContractError c)"

lemma contract_err_Inr [simp]: "contract_err c \<noteq> Inr x" "Inr x \<noteq> contract_err c"
  by (simp_all add: contract_err_def)

definition uses_keys :: "dict \<Rightarrow> string list \<Rightarrow> bool" where
  "uses_keys d ks \<longleftrightarrow> list_ex (\<lambda>k. k \<in> set ks) (map fst d)"

definition known_keys :: "dict \<Rightarrow> string list \<Rightarrow> bool" where
  "known_keys d ks \<longleftrightarrow> list_all (\<lambda>k. k \<in> set ks) (map fst d)"

text \<open>\<open>dict.get(k)\<close>, where a stored \<open>null\<close> and a missing key are both \<open>None\<close>.\<close>

definition get_some :: "dict \<Rightarrow> string \<Rightarrow> json option" where
  "get_some d k = (case map_of d k of Some JNull \<Rightarrow> None | r \<Rightarrow> r)"

text \<open>
  \<open>value_type not in _JSON_TYPES\<close> hashes the value, and a list or a dict cannot be hashed: the
  membership test itself raises.
\<close>

definition schema_type :: "dict \<Rightarrow> string res" where
  "schema_type d =
    (case map_of d ''type'' of
       Some (JStr t) \<Rightarrow> if t \<in> set JSON_TYPES then Inr t else contract_err ''unsupported_schema_type''
     | Some (JArr _) \<Rightarrow> Inl (TypeError ''unhashable type: list'')
     | Some (JObj _) \<Rightarrow> Inl (TypeError ''unhashable type: dict'')
     | _ \<Rightarrow> contract_err ''unsupported_schema_type'')"

definition number_bound_ok :: "json option \<Rightarrow> bool" where
  "number_bound_ok b = (case b of None \<Rightarrow> True | Some v \<Rightarrow> \<not> is_bool v \<and> (is_int v \<or> is_float v))"

definition size_bound_ok :: "json option \<Rightarrow> bool" where
  "size_bound_ok b = (case b of None \<Rightarrow> True | Some (JInt i) \<Rightarrow> 0 \<le> i | _ \<Rightarrow> False)"

definition bounds_ordered :: "json option \<Rightarrow> json option \<Rightarrow> bool" where
  "bounds_ordered a b = (case (a, b) of (Some x, Some y) \<Rightarrow> \<not> py_less y x | _ \<Rightarrow> True)"

definition validate_non_negative_bounds :: "dict \<Rightarrow> string \<Rightarrow> string \<Rightarrow> unit res" where
  "validate_non_negative_bounds d lo hi =
    (let a = get_some d lo; b = get_some d hi
     in if \<not> size_bound_ok a \<or> \<not> size_bound_ok b then contract_err ''invalid_schema_size_bound''
        else if \<not> bounds_ordered a b then contract_err ''invalid_schema_bounds''
        else Inr ())"

definition field_or :: "dict \<Rightarrow> string \<Rightarrow> json \<Rightarrow> json" where
  "field_or d k v = (case map_of d k of None \<Rightarrow> v | Some w \<Rightarrow> w)"

definition required_ok :: "dict \<Rightarrow> json \<Rightarrow> bool" where
  "required_ok properties req \<longleftrightarrow> is_list req \<and> list_all is_str (the_list req) \<and>
    distinct (map the_str (the_list req)) \<and>
    list_all (\<lambda>r. the_str r \<in> set (map fst properties)) (the_list req)"

definition node_keywords :: "dict \<Rightarrow> string \<Rightarrow> unit res" where
  "node_keywords d t =
    (if list_ex (\<lambda>k. case map_of d k of None \<Rightarrow> False | Some v \<Rightarrow> \<not> is_str v) [''title'', ''description'']
     then contract_err ''invalid_schema_metadata''
     else if (case get_some d ''enum'' of None \<Rightarrow> False | Some v \<Rightarrow> \<not> is_list v \<or> the_list v = [])
     then contract_err ''invalid_schema_enum''
     else if t \<noteq> ''object'' \<and> uses_keys d [''properties'', ''required'', ''additionalProperties'']
     then contract_err ''schema_constraint_type_mismatch''
     else if t \<noteq> ''array'' \<and> uses_keys d [''items'', ''minItems'', ''maxItems'']
     then contract_err ''schema_constraint_type_mismatch''
     else if t \<noteq> ''string'' \<and> uses_keys d [''minLength'', ''maxLength'']
     then contract_err ''schema_constraint_type_mismatch''
     else if t \<noteq> ''integer'' \<and> t \<noteq> ''number'' \<and> uses_keys d [''minimum'', ''maximum'']
     then contract_err ''schema_constraint_type_mismatch''
     else Inr ())"

text \<open>The recursion ends because a node below depth 16 is refused before its children are read.\<close>

function validate_schema_node :: "bool \<Rightarrow> nat \<Rightarrow> json \<Rightarrow> unit res" where
  "validate_schema_node at_root depth schema =
    (if depth > MAX_SCHEMA_DEPTH then contract_err ''schema_too_deep''
     else case schema of
       JObj d \<Rightarrow>
         if \<not> known_keys d (if at_root then INPUT_SCHEMA_KEYS else VALUE_SCHEMA_KEYS)
         then contract_err ''unsupported_schema_keyword''
         else bind_res (schema_type d) (\<lambda>t. bind_res (node_keywords d t) (\<lambda>_.
           if t = ''object'' then
             (case field_or d ''properties'' (JObj []) of
                JObj ps \<Rightarrow>
                  if \<not> required_ok ps (field_or d ''required'' (JArr []))
                  then contract_err ''invalid_schema_required''
                  else if \<not> is_bool (field_or d ''additionalProperties'' (JBool False))
                  then contract_err ''unsupported_additional_properties''
                  else each_res (\<lambda>(name, child).
                    if name = [] then contract_err ''invalid_schema_property_name''
                    else validate_schema_node False (Suc depth) child) ps
              | _ \<Rightarrow> contract_err ''invalid_schema_properties'')
           else if t = ''array'' then
             bind_res (validate_non_negative_bounds d ''minItems'' ''maxItems'') (\<lambda>_.
               case map_of d ''items'' of
                 Some (JObj i) \<Rightarrow> validate_schema_node False (Suc depth) (JObj i)
               | _ \<Rightarrow> contract_err ''array_items_required'')
           else if t = ''string'' then validate_non_negative_bounds d ''minLength'' ''maxLength''
           else if t = ''integer'' \<or> t = ''number'' then
             (let a = get_some d ''minimum''; b = get_some d ''maximum''
              in if \<not> number_bound_ok a \<or> \<not> number_bound_ok b
                 then contract_err ''invalid_schema_number_bound''
                 else if \<not> bounds_ordered a b then contract_err ''invalid_schema_bounds''
                 else Inr ())
           else Inr ()))
     | _ \<Rightarrow> contract_err ''invalid_schema'')"
  by pat_completeness auto
termination
  by (relation "measure (\<lambda>(at_root, depth, schema). Suc MAX_SCHEMA_DEPTH - depth)") auto

declare validate_schema_node.simps [simp del]

definition validate_registration_schema :: "dict \<Rightarrow> side_effect option \<Rightarrow> bool \<Rightarrow> unit res" where
  "validate_registration_schema d eff output =
    bind_res (canonical_json (JObj d) MAX_SCHEMA_BYTES) (\<lambda>_.
      if map_of d ''type'' \<noteq> Some (JStr ''object'') then contract_err ''schema_root_must_be_object''
      else if \<not> known_keys d (if output then VALUE_SCHEMA_KEYS else INPUT_SCHEMA_KEYS)
      then contract_err ''unsupported_schema_keyword''
      else bind_res (validate_schema_node True 0 (JObj d)) (\<lambda>_.
        if \<not> output \<and> map_of d ''additionalProperties'' \<noteq> Some (JBool False)
        then contract_err ''input_schema_must_forbid_unknown_fields''
        else if \<not> output \<and> (case eff of None \<Rightarrow> False | Some e \<Rightarrow> e \<noteq> ReadEffect) \<and>
          (case map_of (the_dict (field_or d ''properties'' (JObj []))) ''idempotency_key'' of
             Some (JObj i) \<Rightarrow> map_of i ''type'' \<noteq> Some (JStr ''string'')
           | _ \<Rightarrow> True)
        then contract_err ''mutation_requires_idempotency_key''
        else if \<not> output \<and> (case eff of None \<Rightarrow> False | Some e \<Rightarrow> e \<noteq> ReadEffect) \<and>
          JStr ''idempotency_key'' \<notin> set (the_list (field_or d ''required'' (JArr [])))
        then contract_err ''mutation_requires_idempotency_key''
        else Inr ()))"

section \<open>Values\<close>

lemma map_of_size: "map_of d k = Some v \<Longrightarrow> size v < size (JObj d)"
proof (induction d)
  case Nil
  then show ?case by simp
next
  case (Cons kv d)
  then show ?case by (cases kv) (auto split: if_splits)
qed

lemma in_set_size: "v \<in> set xs \<Longrightarrow> size v < size (JArr xs)"
  by (induction xs) auto

definition too_small :: "json \<Rightarrow> json option \<Rightarrow> bool" where
  "too_small v m = (case m of None \<Rightarrow> False | Some x \<Rightarrow> py_less v x)"

definition too_large :: "json \<Rightarrow> json option \<Rightarrow> bool" where
  "too_large v m = (case m of None \<Rightarrow> False | Some x \<Rightarrow> py_less x v)"

definition validate_number_bounds :: "json \<Rightarrow> dict \<Rightarrow> unit res" where
  "validate_number_bounds v d =
    (if too_small v (get_some d ''minimum'') then contract_err ''schema_number_too_small''
     else if too_large v (get_some d ''maximum'') then contract_err ''schema_number_too_large''
     else Inr ())"

definition validate_string :: "json \<Rightarrow> dict \<Rightarrow> unit res" where
  "validate_string v d =
    (if \<not> is_str v then contract_err ''schema_type_mismatch''
     else let n = JInt (int (length (the_str v)))
       in if too_small n (get_some d ''minLength'') then contract_err ''schema_string_too_short''
          else if too_large n (get_some d ''maxLength'') then contract_err ''schema_string_too_long''
          else Inr ())"

text \<open>
  \<open>"enum" in schema and value not in schema["enum"]\<close>. A registered schema has a list there, or
  \<open>null\<close>, which registration accepts and the membership test cannot iterate.
\<close>

definition check_enum :: "json \<Rightarrow> dict \<Rightarrow> unit res" where
  "check_enum v d =
    (case map_of d ''enum'' of
       None \<Rightarrow> Inr ()
     | Some (JArr es) \<Rightarrow>
         if list_ex (\<lambda>x. py_eq v x) es then Inr () else contract_err ''schema_enum_mismatch''
     | Some _ \<Rightarrow> Inl (TypeError ''argument is not iterable''))"

text \<open>
  \<open>validate_value\<close> of a value against a registered schema; it descends into the value. A schema
  without \<open>type\<close> or \<open>items\<close> raises \<open>KeyError\<close>.
\<close>

function validate_value :: "json \<Rightarrow> json \<Rightarrow> unit res" where
  "validate_value v schema =
    (let d = the_dict schema
     in bind_res
       (case map_of d ''type'' of
          None \<Rightarrow> Inl (KeyError ''type'')
        | Some ty \<Rightarrow>
          if ty = JStr ''object'' then
            (case v of
               JObj kvs \<Rightarrow>
                 let ps = the_dict (field_or d ''properties'' (JObj []))
                 in if list_ex (\<lambda>k. map_of kvs (the_str k) = None) (the_list (field_or d ''required'' (JArr [])))
                    then contract_err ''schema_required_field_missing''
                    else if field_or d ''additionalProperties'' (JBool False) = JBool False \<and>
                       \<not> known_keys kvs (map fst ps)
                    then contract_err ''schema_unknown_field''
                    else each_res (\<lambda>(k, child). case map_of kvs k of
                        None \<Rightarrow> Inr () | Some w \<Rightarrow> validate_value w child) ps
             | _ \<Rightarrow> contract_err ''schema_type_mismatch'')
          else if ty = JStr ''array'' then
            (case v of
               JArr xs \<Rightarrow>
                 let n = JInt (int (length xs))
                 in if too_small n (get_some d ''minItems'') then contract_err ''schema_array_too_short''
                    else if too_large n (get_some d ''maxItems'') then contract_err ''schema_array_too_long''
                    else each_res (\<lambda>x. case map_of d ''items'' of
                        None \<Rightarrow> Inl (KeyError ''items'') | Some i \<Rightarrow> validate_value x i) xs
             | _ \<Rightarrow> contract_err ''schema_type_mismatch'')
          else if ty = JStr ''string'' then validate_string v d
          else if ty = JStr ''integer'' then
            (if is_bool v \<or> \<not> is_int v then contract_err ''schema_type_mismatch''
             else validate_number_bounds v d)
          else if ty = JStr ''number'' then
            (if is_bool v \<or> \<not> (is_int v \<or> is_float v) then contract_err ''schema_type_mismatch''
             else validate_number_bounds v d)
          else if ty = JStr ''boolean'' then
            (if \<not> is_bool v then contract_err ''schema_type_mismatch'' else Inr ())
          else if ty = JStr ''null'' \<and> v \<noteq> JNull then contract_err ''schema_type_mismatch''
          else Inr ())
       (\<lambda>_. check_enum v d))"
  by pat_completeness auto
termination
  by (relation "measure (\<lambda>(v, schema). size v)") (auto dest: map_of_size in_set_size)

declare validate_value.simps [simp del]

definition validate_arguments :: "json \<Rightarrow> json \<Rightarrow> (string \<times> string) res" where
  "validate_arguments args schema =
    (if \<not> is_dict args then contract_err ''arguments_must_be_object''
     else bind_res (hash_arguments args) (\<lambda>h. bind_res (validate_value args schema) (\<lambda>_. Inr h)))"

definition validate_result :: "json \<Rightarrow> json option \<Rightarrow> unit res" where
  "validate_result result schema =
    bind_res (canonical_json result MAX_RESULT_BYTES) (\<lambda>_.
      case schema of None \<Rightarrow> Inr () | Some sc \<Rightarrow> validate_value result sc)"

section \<open>What an accepted value has\<close>

lemma validate_value_object:
  assumes "validate_value v (JObj d) = Inr ()" and "map_of d ''type'' = Some (JStr ''object'')"
  obtains kvs where "v = JObj kvs"
    "\<forall>k \<in> set (the_list (field_or d ''required'' (JArr []))). map_of kvs (the_str k) \<noteq> None"
    "field_or d ''additionalProperties'' (JBool False) = JBool False \<Longrightarrow>
       fst ` set kvs \<subseteq> fst ` set (the_dict (field_or d ''properties'' (JObj [])))"
    "\<forall>(k, child) \<in> set (the_dict (field_or d ''properties'' (JObj []))).
       \<forall>w. map_of kvs k = Some w \<longrightarrow> validate_value w child = Inr ()"
proof -
  obtain kvs where v: "v = JObj kvs"
    using assms(1)[unfolded validate_value.simps[of v]] assms(2) by (cases v) (auto simp: Let_def)
  note ok = assms(1)[unfolded v, unfolded validate_value.simps[of _ "JObj d"]]
  have "\<forall>k \<in> set (the_list (field_or d ''required'' (JArr []))). map_of kvs (the_str k) \<noteq> None"
    using ok assms(2) by (auto simp: Let_def list_ex_iff split: if_splits)
  moreover have "fst ` set kvs \<subseteq> fst ` set (the_dict (field_or d ''properties'' (JObj [])))"
    if "field_or d ''additionalProperties'' (JBool False) = JBool False"
    using ok assms(2) that by (force simp: Let_def known_keys_def list_all_iff split: if_splits)
  moreover have "\<forall>(k, child) \<in> set (the_dict (field_or d ''properties'' (JObj []))).
       \<forall>w. map_of kvs k = Some w \<longrightarrow> validate_value w child = Inr ()"
    using ok assms(2) by (fastforce simp: Let_def split: if_splits option.splits)
  ultimately show thesis using that v by blast
qed

lemma validate_value_string:
  assumes "validate_value v (JObj d) = Inr ()" and "map_of d ''type'' = Some (JStr ''string'')"
  shows "is_str v"
  using assms(1)[unfolded validate_value.simps[of v]] assms(2)
  by (auto simp: Let_def validate_string_def split: if_splits)

lemma registered_mutation:
  assumes "validate_registration_schema d (Some eff) False = Inr ()" and "eff \<noteq> ReadEffect"
  shows "\<exists>i. map_of (the_dict (field_or d ''properties'' (JObj []))) ''idempotency_key'' = Some (JObj i) \<and>
    map_of i ''type'' = Some (JStr ''string'')"
    and "JStr ''idempotency_key'' \<in> set (the_list (field_or d ''required'' (JArr [])))"
  using assms
  by (auto simp: validate_registration_schema_def split: if_splits option.splits json.splits)

lemma registered_input:
  assumes "validate_registration_schema d eff False = Inr ()"
  shows "map_of d ''type'' = Some (JStr ''object'')"
    and "map_of d ''additionalProperties'' = Some (JBool False)"
    and "validate_schema_node True 0 (JObj d) = Inr ()"
  using assms by (auto simp: validate_registration_schema_def split: if_splits)

end
