(* ===== verification/Execution_Fence.thy ===== *)
theory Execution_Fence
  imports Workspaces Run_Contract
begin

text \<open>
  The fence every executor and tool write passes (\<open>execution_fence.py\<close>): the run must still be
  running this very attempt, under a live lease and without a cancellation request, and its
  requester must still be allowed to run agents.
\<close>

text \<open>The fence reads \<open>clock_timestamp()\<close> twice, from the \<open>k\<close>-th reading of the transaction on.\<close>

definition executable_run :: "txenv \<Rightarrow> nat \<Rightarrow> exec_context \<Rightarrow> db \<Rightarrow> run_row res" where
  "executable_run env k ctx s =
    (case find_run_in (x_run ctx) (x_workspace ctx) s of
       None \<Rightarrow> Inl (ToolContractError ''execution_fenced'')
     | Some run \<Rightarrow>
       if r_status run \<noteq> Running \<or>
          (case r_lease_expires run of None \<Rightarrow> True | Some l \<Rightarrow> l \<le> tx_clock env k) \<or>
          r_cancel_requested run \<noteq> None \<or>
          r_attempt run \<noteq> x_attempt ctx \<or>
          (if x_kind ctx = Standard then r_tenant_agent run else r_agent run) \<noteq> Some (x_agent ctx) \<or>
          (x_kind ctx = Standard) \<noteq> (r_tenant_agent run \<noteq> None) \<or>
          r_trace run \<noteq> x_trace ctx
       then Inl (ToolContractError ''execution_fenced'')
       else if \<not> sql_exists (\<lambda>x. rc_job x = x_job ctx \<and> rc_workspace x = x_workspace ctx \<and>
            rc_run x = x_run ctx \<and> rc_status x = Processing \<and> rc_worker x = r_lease_owner run \<and>
            rc_worker x \<noteq> None \<and>
            (case rc_lease_expires x of None \<Rightarrow> False | Some l \<Rightarrow> l > tx_clock env (Suc k))) (receipts s)
       then Inl (ToolContractError ''execution_fenced'')
       else (case authorize (member_role (x_workspace ctx) (r_issuer run) (r_subject run) s) RunAgents of
               Inl _ \<Rightarrow> Inl (ToolContractError ''requester_not_authorized'')
             | Inr _ \<Rightarrow> Inr run))"

lemma executable_runD:
  assumes "executable_run env k ctx s = Inr run"
  shows "find_run_in (x_run ctx) (x_workspace ctx) s = Some run" "r_status run = Running"
    "r_cancel_requested run = None" "r_attempt run = x_attempt ctx" "r_trace run = x_trace ctx"
    "\<exists>l. r_lease_expires run = Some l \<and> tx_clock env k < l"
    "\<exists>x \<in> set (receipts s). rc_job x = x_job ctx \<and> rc_run x = x_run ctx \<and> rc_status x = Processing \<and>
       rc_worker x = r_lease_owner run"
    "\<exists>ro. member_role (x_workspace ctx) (r_issuer run) (r_subject run) s = Some ro \<and>
       RunAgents \<in> set (grants ro)"
  using assms
  by (auto simp: executable_run_def sql_exists_iff split: option.splits if_splits sum.splits)

lemma executable_run_Inl:
  "executable_run env k ctx s = Inl e \<Longrightarrow>
    e = ToolContractError ''execution_fenced'' \<or> e = ToolContractError ''requester_not_authorized''"
  by (auto simp: executable_run_def split: option.splits if_splits sum.splits)

text \<open>The fence reads three tables.\<close>

lemma executable_run_cong:
  assumes "agent_runs s' = agent_runs s" "receipts s' = receipts s" "memberships s' = memberships s"
  shows "executable_run env k ctx s' = executable_run env k ctx s"
  unfolding executable_run_def find_run_in_def assms(1,2) member_role_cong[OF assms(3)] by (rule refl)

text \<open>An attempt that is not the one of the run is fenced.\<close>

lemma stale_attempt_fenced:
  assumes "run_inv s" and "find_run (x_run ctx) s = Some run" and "r_attempt run \<noteq> x_attempt ctx"
  shows "executable_run env k ctx s = Inl (ToolContractError ''execution_fenced'')"
proof (cases "find_run_in (x_run ctx) (x_workspace ctx) s")
  case None
  then show ?thesis by (simp add: executable_run_def)
next
  case (Some r)
  then have "r = run" using find_run_inD(1)[OF assms(1)] assms(2) by simp
  with Some assms(3) show ?thesis by (simp add: executable_run_def)
qed

text \<open>The owner of a fenced-in attempt is the only job that processes the run.\<close>

lemma executable_run_processing:
  assumes "run_inv s" and "executable_run env k ctx s = Inr run"
  shows "\<exists>x. processing (x_run ctx) s = [x] \<and> rc_job x = x_job ctx \<and> rc_worker x = r_lease_owner run"
proof -
  obtain x where x: "x \<in> set (receipts s)" "rc_job x = x_job ctx" "rc_run x = x_run ctx"
    "rc_status x = Processing" "rc_worker x = r_lease_owner run"
    using executable_runD(7)[OF assms(2)] by blast
  have "length (processing (x_run ctx) s) \<le> 1"
    using run_invD(7)[OF assms(1) find_run_inD(2)[OF assms(1) executable_runD(1)[OF assms(2)]]]
      find_run_inD(3)[OF assms(1) executable_runD(1)[OF assms(2)]] by (simp add: excl_run_def)
  moreover have "x \<in> set (processing (x_run ctx) s)" using x by (simp add: processing_def)
  ultimately have "processing (x_run ctx) s = [x]" by (intro singleton_of_member)
  with x(2,5) show ?thesis by auto
qed

end
