(* ===== verification/Tool_Governance.thy ===== *)
theory Tool_Governance
  imports Tool_Contracts Execution_Fence
begin

text \<open>
  The tool governance repository (\<open>tool_repository.py\<close>): the registry of tools and policies, the
  plan of a tool call, human approvals, and the transactions that start and finish a call. The
  approval-latency metric the code observes on a decision is left out.
\<close>

section \<open>Registry\<close>

text \<open>No policy is a denial; some side effects always need an approval.\<close>

definition force_approval :: "side_effect \<Rightarrow> bool" where
  "force_approval e \<longleftrightarrow> e = Destructive \<or> e = ExternalCommunication"

definition effective_policy :: "policy_decision option \<Rightarrow> side_effect \<Rightarrow> policy_decision" where
  "effective_policy d e =
    (case d of None \<Rightarrow> Deny | Some Deny \<Rightarrow> Deny
     | Some p \<Rightarrow> if force_approval e then RequireApproval else p)"

definition find_tool :: "uuid \<Rightarrow> string \<Rightarrow> db \<Rightarrow> tool_row option" where
  "find_tool ws name s = find (\<lambda>t. t_workspace t = ws \<and> t_name t = name) (tool_definitions s)"

definition find_policy :: "tool_row \<Rightarrow> db \<Rightarrow> policy_row option" where
  "find_policy t s = find (\<lambda>p. tp_tool p = t_id t \<and> tp_workspace p = t_workspace t) (tool_policies s)"

definition policy_of :: "tool_row \<Rightarrow> db \<Rightarrow> policy_decision option" where
  "policy_of t s = map_option tp_decision (find_policy t s)"

definition contract_of :: "tool_row \<Rightarrow> string res" where
  "contract_of t = hash_tool_contract (t_server_key t) (t_remote_name t) (t_input_schema t)
     (t_output_schema t) (t_side_effect t)"

record tool_input =
  ti_server_key :: string
  ti_remote_name :: string
  ti_description :: string
  ti_input_schema :: dict
  ti_output_schema :: "dict option"
  ti_side_effect :: side_effect
  ti_enabled :: bool

definition new_tool :: "txenv \<Rightarrow> principal \<Rightarrow> uuid \<Rightarrow> string \<Rightarrow> tool_input \<Rightarrow> tool_row" where
  "new_tool env pr ws name b =
    \<lparr>t_id = tx_uuid env 0, t_workspace = ws, t_name = name, t_server_key = ti_server_key b,
     t_remote_name = ti_remote_name b, t_description = ti_description b,
     t_input_schema = JObj (ti_input_schema b),
     t_output_schema = map_option JObj (ti_output_schema b), t_side_effect = ti_side_effect b,
     t_enabled = ti_enabled b, t_issuer = issuer pr, t_subject = subject pr,
     t_created = tx_now env, t_updated = tx_now env\<rparr>"

text \<open>The columns \<open>ON CONFLICT (workspace_id,name) DO UPDATE\<close> rewrites.\<close>

definition rewrite_tool :: "tool_row \<Rightarrow> tool_row \<Rightarrow> tool_row" where
  "rewrite_tool n t = t\<lparr>t_server_key := t_server_key n, t_remote_name := t_remote_name n,
     t_description := t_description n, t_input_schema := t_input_schema n,
     t_output_schema := t_output_schema n, t_side_effect := t_side_effect n,
     t_enabled := t_enabled n, t_updated := t_updated n\<rparr>"

definition upsert_tool ::
    "txenv \<Rightarrow> principal \<Rightarrow> uuid \<Rightarrow> string \<Rightarrow> tool_input \<Rightarrow> string \<Rightarrow> db \<Rightarrow> (tool_row \<times> db) res" where
  "upsert_tool env pr ws name b req s =
    bind_res (validate_registration_schema (ti_input_schema b) (Some (ti_side_effect b)) False) (\<lambda>_.
    bind_res (case ti_output_schema b of None \<Rightarrow> Inr ()
              | Some o' \<Rightarrow> validate_registration_schema o' None True) (\<lambda>_.
    bind_res (scoped pr ws ManageTools s) (\<lambda>_.
      let n = new_tool env pr ws name b;
          same = (\<lambda>t. t_workspace t = ws \<and> t_name t = name);
          log = audit pr ws ''tool.upserted'' req (Some name)
      in case find_tool ws name s of
           Some t \<Rightarrow> Inr (rewrite_tool n t,
             log (s\<lparr>tool_definitions := sql_update same (rewrite_tool n) (tool_definitions s)\<rparr>))
         | None \<Rightarrow>
             if sql_exists (\<lambda>t. t_id t = t_id n) (tool_definitions s)
             then Inl (UniqueViolation ''tool_definitions_pkey'')
             else Inr (n, log (s\<lparr>tool_definitions := tool_definitions s @ [n]\<rparr>)))))"

definition list_tools ::
    "principal \<Rightarrow> uuid \<Rightarrow> db \<Rightarrow> nat \<Rightarrow> string option \<Rightarrow> (tool_row \<times> policy_row option) list res" where
  "list_tools pr ws s n c =
    bind_res (scoped pr ws PermRead s) (\<lambda>_.
      Inr (map (\<lambda>t. (t, find_policy t s))
        (keyset_query t_name (\<lambda>t. t_workspace t = ws) (tool_definitions s) n c)))"

fun decision_str :: "policy_decision \<Rightarrow> string" where
  "decision_str Allow = ''allow''"
| "decision_str Deny = ''deny''"
| "decision_str RequireApproval = ''require_approval''"

definition set_policy ::
    "txenv \<Rightarrow> principal \<Rightarrow> uuid \<Rightarrow> string \<Rightarrow> policy_decision \<Rightarrow> string \<Rightarrow> string \<Rightarrow> db \<Rightarrow>
     (policy_row \<times> db) res" where
  "set_policy env pr ws name d reason req s =
    bind_res (scoped pr ws ManageTools s) (\<lambda>_.
      case find_tool ws name s of
        None \<Rightarrow> Inl (HTTPException 404)
      | Some t \<Rightarrow>
          let p = \<lparr>tp_workspace = ws, tp_tool = t_id t, tp_decision = d, tp_reason = reason,
                   tp_issuer = issuer pr, tp_subject = subject pr, tp_updated = tx_now env\<rparr>;
              same = (\<lambda>x. tp_workspace x = ws \<and> tp_tool x = t_id t);
              ps = (if sql_exists same (tool_policies s)
                    then sql_update same (\<lambda>_. p) (tool_policies s) else tool_policies s @ [p])
          in Inr (p, audit pr ws (''tool.policy_set.'' @ decision_str d) req (Some name)
                 (s\<lparr>tool_policies := ps\<rparr>)))"

section \<open>Approvals\<close>

definition approval_for_call :: "uuid \<Rightarrow> db \<Rightarrow> approval_row option" where
  "approval_for_call cid s = find (\<lambda>a. ap_call a = cid) (tool_approvals s)"

fun approval_str :: "approval_status \<Rightarrow> string" where
  "approval_str Pending = ''pending''"
| "approval_str Approved = ''approved''"
| "approval_str Rejected = ''rejected''"
| "approval_str Expired = ''expired''"
| "approval_str ApprovalCancelled = ''cancelled''"

text \<open>\<open>_cancel_run\<close>: the run of a refused or lapsed approval ends, with two journal entries.\<close>

definition cancel_governed_run :: "txenv \<Rightarrow> run_row \<Rightarrow> string \<Rightarrow> dict \<Rightarrow> db \<Rightarrow> db res" where
  "cancel_governed_run env run ev payload s =
    bind_res (update_run env (r_id run) (finish env Cancelled) s) (\<lambda>s1.
      Inr (append_run_event env (r_workspace run) (r_id run) ''run.cancelled'' [(''reason'', JStr ev)]
        (append_run_event env (r_workspace run) (r_id run) ev payload s1)))"

definition live_call :: "call_status \<Rightarrow> bool" where
  "live_call st \<longleftrightarrow> st \<in> {Planned, PendingApproval, CallApproved, CallRunning}"

definition cancel_call :: "txenv \<Rightarrow> string \<Rightarrow> call_row \<Rightarrow> call_row" where
  "cancel_call env code c = c\<lparr>c_status := CallCancelled, c_error := Some code,
     c_finished := Some (tx_now env), c_updated := tx_now env\<rparr>"

definition cancel_approval :: "txenv \<Rightarrow> approval_row \<Rightarrow> approval_status \<Rightarrow> string \<Rightarrow> db \<Rightarrow> db res" where
  "cancel_approval env a st ev s =
    bind_res (update_approvals (\<lambda>x. ap_id x = ap_id a \<and> ap_status x = Pending)
        (\<lambda>x. x\<lparr>ap_status := st, ap_decided := Some (tx_now env)\<rparr>) s) (\<lambda>s1.
    bind_res (update_calls (\<lambda>c. c_id c = ap_call a \<and> live_call (c_status c))
        (cancel_call env (approval_str st)) s1) (\<lambda>s2.
      case find_run_in (ap_run a) (ap_workspace a) s2 of
        Some run \<Rightarrow>
          if r_status run = Running \<or> r_status run = WaitingForApproval
          then cancel_governed_run env run ev
                 [(''approval_id'', JStr (uuid_str (ap_id a))),
                  (''tool_call_id'', JStr (uuid_str (ap_call a)))] s2
          else Inr s2
      | None \<Rightarrow> Inr s2))"

fun cancel_approvals ::
    "txenv \<Rightarrow> approval_row list \<Rightarrow> approval_status \<Rightarrow> string \<Rightarrow> db \<Rightarrow> db res" where
  "cancel_approvals env [] st ev s = Inr s"
| "cancel_approvals env (a # as) st ev s =
    bind_res (cancel_approval env a st ev s) (cancel_approvals env as st ev)"

definition due_approvals ::
    "txenv \<Rightarrow> (uuid \<Rightarrow> bool) \<Rightarrow> (approval_row \<Rightarrow> bool) \<Rightarrow> db \<Rightarrow> approval_row list" where
  "due_approvals env locked p s =
    sort_key (\<lambda>a. (ap_expires a, ap_id a))
      (filter (\<lambda>a. p a \<and> ap_status a = Pending \<and> ap_expires a \<le> tx_now env \<and> \<not> locked (ap_id a))
        (tool_approvals s))"

definition expire_due :: "txenv \<Rightarrow> (uuid \<Rightarrow> bool) \<Rightarrow> int \<Rightarrow> db \<Rightarrow> (nat \<times> db) res" where
  "expire_due env locked limit s =
    (if \<not> (1 \<le> limit \<and> limit \<le> 500) then Inl (ValueError ''limit must be between 1 and 500'')
     else let due = take (nat limit) (due_approvals env locked (\<lambda>_. True) s)
       in bind_res (cancel_approvals env due Expired ''tool.approval_expired'' s)
            (\<lambda>s1. Inr (length due, s1)))"

definition list_approvals ::
    "txenv \<Rightarrow> (uuid \<Rightarrow> bool) \<Rightarrow> principal \<Rightarrow> uuid \<Rightarrow> nat \<Rightarrow> uuid option \<Rightarrow> approval_status option \<Rightarrow> db \<Rightarrow>
     (approval_row list \<times> db) res" where
  "list_approvals env locked pr ws n c st s =
    bind_res (scoped pr ws ApproveTools s) (\<lambda>_.
      bind_res (cancel_approvals env (due_approvals env locked (\<lambda>a. ap_workspace a = ws) s)
          Expired ''tool.approval_expired'' s) (\<lambda>s1.
        Inr (keyset_query ap_id
          (\<lambda>a. ap_workspace a = ws \<and> (st = None \<or> st = Some (ap_status a))) (tool_approvals s1) n c, s1)))"

section \<open>The actions of a run\<close>

text \<open>The public name of a tool: the first alias of the frozen snapshot that stands for it.\<close>

definition action_name :: "run_row \<Rightarrow> string \<Rightarrow> string" where
  "action_name r stored =
    (case r_snapshot r of
       Some (JObj d) \<Rightarrow>
         (case map_of d ''tool_aliases'' of
            Some (JObj al) \<Rightarrow>
              (case find (\<lambda>(public, internal). internal = JStr stored) al of
                 Some (public, _) \<Rightarrow> public | None \<Rightarrow> stored)
          | _ \<Rightarrow> stored)
     | _ \<Rightarrow> stored)"

record run_action =
  ra_call :: call_row
  ra_name :: string
  ra_side_effect :: side_effect
  ra_approval :: "(uuid \<times> approval_status) option"

definition tool_of_call :: "call_row \<Rightarrow> db \<Rightarrow> tool_row option" where
  "tool_of_call c s = find (\<lambda>t. t_id t = c_tool c \<and> t_workspace t = c_workspace c) (tool_definitions s)"

definition run_action_of :: "db \<Rightarrow> call_row \<Rightarrow> run_action option" where
  "run_action_of s c =
    (case (tool_of_call c s, find_run_in (c_run c) (c_workspace c) s) of
       (Some t, Some r) \<Rightarrow> Some \<lparr>ra_call = c, ra_name = action_name r (t_name t),
           ra_side_effect = t_side_effect t,
           ra_approval = map_option (\<lambda>a. (ap_id a, ap_status a))
             (find (\<lambda>a. ap_call a = c_id c \<and> ap_workspace a = c_workspace c) (tool_approvals s))\<rparr>
     | _ \<Rightarrow> None)"

definition list_run_actions ::
    "principal \<Rightarrow> uuid \<Rightarrow> uuid \<Rightarrow> nat \<Rightarrow> uuid option \<Rightarrow> db \<Rightarrow> run_action list res" where
  "list_run_actions pr ws run n cursor s =
    bind_res (scoped pr ws PermRead s) (\<lambda>_.
      if find_run_in run ws s = None then Inl (HTTPException 404)
      else bind_res (case cursor of
          None \<Rightarrow> Inr None
        | Some i \<Rightarrow> (case find (\<lambda>c. c_workspace c = ws \<and> c_run c = run \<and> c_id c = i) (tool_calls s) of
                       None \<Rightarrow> Inl (HTTPException 404) | Some c \<Rightarrow> Inr (Some (c_created c, i)))) (\<lambda>b.
        Inr (map (the \<circ> run_action_of s)
          (order_limit (\<lambda>c. (c_created c, c_id c)) n
            (\<lambda>c. c_workspace c = ws \<and> c_run c = run \<and> run_action_of s c \<noteq> None \<and>
                 after_cursor b (c_created c, c_id c)) (tool_calls s)))))"

section \<open>Deciding an approval\<close>

definition reread_approval :: "uuid \<Rightarrow> db \<Rightarrow> (approval_row \<times> db) res" where
  "reread_approval i s =
    (case find_approval i s of None \<Rightarrow> Inl (TypeError ''NoneType'') | Some a \<Rightarrow> Inr (a, s))"

definition invalidate_approval :: "txenv \<Rightarrow> approval_row \<Rightarrow> db \<Rightarrow> (approval_row \<times> db) res" where
  "invalidate_approval env a s =
    bind_res (cancel_approval env a ApprovalCancelled ''tool.approval_invalidated'' s)
      (reread_approval (ap_id a))"

definition decided_by :: "txenv \<Rightarrow> principal \<Rightarrow> approval_status \<Rightarrow> approval_row \<Rightarrow> approval_row" where
  "decided_by env pr st x = x\<lparr>ap_status := st, ap_approver_issuer := Some (issuer pr),
     ap_approver_subject := Some (subject pr), ap_decided := Some (tx_now env)\<rparr>"

definition reject_approval ::
    "txenv \<Rightarrow> principal \<Rightarrow> uuid \<Rightarrow> string \<Rightarrow> approval_row \<Rightarrow> run_row \<Rightarrow> db \<Rightarrow> (approval_row \<times> db) res" where
  "reject_approval env pr ws req a run s =
    bind_res (update_approvals (\<lambda>x. ap_id x = ap_id a) (decided_by env pr Rejected) s) (\<lambda>s1.
    bind_res (update_calls (\<lambda>c. c_id c = ap_call a)
        (\<lambda>c. c\<lparr>c_status := CallDenied, c_updated := tx_now env, c_finished := Some (tx_now env)\<rparr>) s1) (\<lambda>s2.
    bind_res (cancel_governed_run env run ''tool.rejected''
        [(''approval_id'', JStr (uuid_str (ap_id a)))] s2) (\<lambda>s3.
      reread_approval (ap_id a)
        (audit pr ws ''tool.approval_rejected'' req (Some (uuid_str (ap_call a))) s3))))"

definition accept_approval ::
    "txenv \<Rightarrow> principal \<Rightarrow> uuid \<Rightarrow> string \<Rightarrow> approval_row \<Rightarrow> run_row \<Rightarrow> db \<Rightarrow> (approval_row \<times> db) res" where
  "accept_approval env pr ws req a run s =
    bind_res (update_approvals (\<lambda>x. ap_id x = ap_id a) (decided_by env pr Approved) s) (\<lambda>s1.
    bind_res (update_calls (\<lambda>c. c_id c = ap_call a)
        (\<lambda>c. c\<lparr>c_status := CallApproved, c_updated := tx_now env\<rparr>) s1) (\<lambda>s2.
    bind_res (update_run env (r_id run) (requeue env) s2) (\<lambda>s3.
      let s4 = append_run_event env ws (r_id run) ''run.resumed''
                 [(''approval_id'', JStr (uuid_str (ap_id a)))]
                 (append_run_event env ws (r_id run) ''tool.approved''
                   [(''tool_call_id'', JStr (uuid_str (ap_call a))),
                    (''approval_id'', JStr (uuid_str (ap_id a)))] s3)
      in bind_res (insert_outbox (outbox_job env 0 (tx_now env) run) s4) (\<lambda>s5.
        reread_approval (ap_id a)
          (audit pr ws ''tool.approval_approved'' req (Some (uuid_str (ap_call a))) s5)))))"

definition decide_approval ::
    "txenv \<Rightarrow> principal \<Rightarrow> uuid \<Rightarrow> uuid \<Rightarrow> string \<Rightarrow> string \<Rightarrow> db \<Rightarrow> (approval_row \<times> db) res" where
  "decide_approval env pr ws i decision req s =
    bind_res (scoped pr ws ApproveTools s) (\<lambda>_.
      case find (\<lambda>a. ap_workspace a = ws \<and> ap_id a = i) (tool_approvals s) of
        None \<Rightarrow> Inl (HTTPException 404)
      | Some a \<Rightarrow>
      case find_call (ap_call a) s of
        None \<Rightarrow> Inl (HTTPException 404)
      | Some c \<Rightarrow>
      case tool_of_call c s of
        None \<Rightarrow> Inl (HTTPException 404)
      | Some t \<Rightarrow>
      if ap_status a \<noteq> Pending then Inr (a, s)
      else if ap_expires a \<le> tx_now env
      then bind_res (cancel_approval env a Expired ''tool.approval_expired'' s) (reread_approval i)
      else case find_run_in (ap_run a) ws s of
        None \<Rightarrow> Inl (HTTPException 409)
      | Some run \<Rightarrow>
      if r_status run \<noteq> WaitingForApproval then Inl (HTTPException 409)
      else if decision = ''rejected'' then reject_approval env pr ws req a run s
      else bind_res (contract_of t) (\<lambda>h.
        if ap_contract_hash a \<noteq> c_contract_hash c \<or> ap_contract_hash a \<noteq> h
        then invalidate_approval env a s
        else if \<not> is_ok (authorize (member_role ws (ap_requester_issuer a) (ap_requester_subject a) s) RunAgents)
        then invalidate_approval env a s
        else case validate_arguments (c_arguments c) (t_input_schema t) of
          Inl (ToolContractError _) \<Rightarrow> invalidate_approval env a s
        | Inl e \<Rightarrow> Inl e
        | Inr _ \<Rightarrow>
          if \<not> t_enabled t \<or> effective_policy (policy_of t s) (t_side_effect t) = Deny
          then invalidate_approval env a s
          else accept_approval env pr ws req a run s))"

section \<open>Planning a call\<close>

datatype plan_action = PlanExecute | PlanApproval | PlanDeny | PlanReplay

record call_plan =
  pl_action :: plan_action
  pl_call :: uuid
  pl_tool :: tool_row
  pl_approval :: "uuid option"
  pl_result :: "json option"
  pl_error :: "string option"

definition plan :: "plan_action \<Rightarrow> uuid \<Rightarrow> tool_row \<Rightarrow> call_plan" where
  "plan act cid t = \<lparr>pl_action = act, pl_call = cid, pl_tool = t, pl_approval = None,
     pl_result = None, pl_error = None\<rparr>"

definition deny_plan :: "uuid \<Rightarrow> tool_row \<Rightarrow> string \<Rightarrow> call_plan" where
  "deny_plan cid t code = (plan PlanDeny cid t)\<lparr>pl_error := Some code\<rparr>"

text \<open>\<open>_CALL_KEY\<close>: one to 128 characters of \<open>[A-Za-z0-9_.:-]\<close>.\<close>

definition call_key_char :: "char \<Rightarrow> bool" where
  "call_key_char c \<longleftrightarrow>
    (let n = of_char c :: nat
     in 65 \<le> n \<and> n \<le> 90 \<or> 97 \<le> n \<and> n \<le> 122 \<or> 48 \<le> n \<and> n \<le> 57 \<or> c \<in> set ''_.:-'')"

definition call_key_ok :: "string \<Rightarrow> bool" where
  "call_key_ok k \<longleftrightarrow> 1 \<le> length k \<and> length k \<le> 128 \<and> list_all call_key_char k"

definition new_call ::
    "txenv \<Rightarrow> uuid \<Rightarrow> uuid \<Rightarrow> uuid \<Rightarrow> tool_row \<Rightarrow> string \<Rightarrow> json \<Rightarrow> string \<Rightarrow> string \<Rightarrow>
     call_status \<Rightarrow> policy_decision \<Rightarrow> string option \<Rightarrow> time option \<Rightarrow> call_row" where
  "new_call env cid ws run t key args ahash chash st pol err fin =
    \<lparr>c_id = cid, c_workspace = ws, c_run = run, c_tool = t_id t, c_key = key, c_arguments = args,
     c_arguments_hash = ahash, c_contract_hash = chash, c_status = st, c_policy = pol,
     c_result = None, c_error = err, c_attempt = 0, c_created = tx_now env, c_updated = tx_now env,
     c_started = None, c_finished = fin\<rparr>"

definition new_approval ::
    "txenv \<Rightarrow> uuid \<Rightarrow> run_row \<Rightarrow> uuid \<Rightarrow> tool_row \<Rightarrow> json \<Rightarrow> string \<Rightarrow> string \<Rightarrow> string \<Rightarrow> approval_row" where
  "new_approval env aid run cid t args ahash chash reason =
    \<lparr>ap_id = aid, ap_workspace = r_workspace run, ap_run = r_id run, ap_call = cid,
     ap_action = t_name t, ap_arguments = args, ap_arguments_hash = ahash,
     ap_contract_hash = chash, ap_requester_issuer = r_issuer run,
     ap_requester_subject = r_subject run, ap_approver_issuer = None, ap_approver_subject = None,
     ap_status = Pending, ap_reason = reason, ap_expires = tx_now env + seconds 900,
     ap_created = tx_now env, ap_decided = None\<rparr>"

definition create_approval ::
    "txenv \<Rightarrow> nat \<Rightarrow> run_row \<Rightarrow> uuid \<Rightarrow> tool_row \<Rightarrow> json \<Rightarrow> string \<Rightarrow> string \<Rightarrow> db \<Rightarrow> (call_plan \<times> db) res" where
  "create_approval env k run cid t args ahash reason s =
    (let aid = tx_uuid env k
     in case find_call cid s of
       None \<Rightarrow> Inl (ToolContractError ''unknown_tool_call'')
     | Some c \<Rightarrow>
       bind_res (update_calls (\<lambda>x. c_id x = cid)
           (\<lambda>x. x\<lparr>c_status := PendingApproval, c_policy := RequireApproval, c_updated := tx_now env\<rparr>) s) (\<lambda>s1.
       bind_res (insert_approval (new_approval env aid run cid t args ahash (c_contract_hash c) reason) s1) (\<lambda>s2.
         Inr ((plan PlanApproval cid t)\<lparr>pl_approval := Some aid\<rparr>,
           append_run_event env (r_workspace run) (r_id run) ''tool.approval_requested''
             [(''tool'', JStr (t_name t)), (''tool_call_id'', JStr (uuid_str cid)),
              (''approval_id'', JStr (uuid_str aid))] s2))))"

text \<open>\<open>_denied_plan\<close>, for a requester that lost the permission to run agents.\<close>

definition find_key :: "uuid \<Rightarrow> string \<Rightarrow> db \<Rightarrow> call_row option" where
  "find_key run key s = find (\<lambda>c. c_run c = run \<and> c_key c = key) (tool_calls s)"

definition denied_plan ::
    "txenv \<Rightarrow> run_row \<Rightarrow> string \<Rightarrow> string \<Rightarrow> json \<Rightarrow> string \<Rightarrow> db \<Rightarrow> (call_plan \<times> db) res" where
  "denied_plan env run key name args code s =
    (case find_tool (r_workspace run) name s of
       None \<Rightarrow> Inl (ToolContractError ''unknown_tool'')
     | Some t \<Rightarrow>
       bind_res (validate_arguments args (t_input_schema t)) (\<lambda>h.
       bind_res (contract_of t) (\<lambda>ch.
       case find_key (r_id run) key s of
         Some old \<Rightarrow> Inr (deny_plan (c_id old) t code, s)
       | None \<Rightarrow>
         let cid = tx_uuid env 0
         in bind_res (insert_call (new_call env cid (r_workspace run) (r_id run) t key args (snd h) ch
                CallDenied Deny (Some code) (Some (tx_now env))) s) (\<lambda>s1.
           Inr (deny_plan cid t code,
             append_run_event env (r_workspace run) (r_id run) ''tool.denied''
               [(''tool'', JStr name), (''call_key'', JStr key), (''reason'', JStr code)] s1)))))"

text \<open>The contract of a planned call changed: its pending approval and the call are withdrawn.\<close>

definition withdraw_call ::
    "txenv \<Rightarrow> exec_context \<Rightarrow> string \<Rightarrow> string \<Rightarrow> tool_row \<Rightarrow> call_row \<Rightarrow> db \<Rightarrow> (call_plan \<times> db) res" where
  "withdraw_call env ctx key name t old s =
    bind_res
      (case approval_for_call (c_id old) s of
         Some a \<Rightarrow>
           if ap_status a = Pending
           then update_approvals (\<lambda>x. ap_id x = ap_id a)
                  (\<lambda>x. x\<lparr>ap_status := ApprovalCancelled, ap_decided := Some (tx_now env)\<rparr>) s
           else Inr s
       | None \<Rightarrow> Inr s) (\<lambda>s1.
    bind_res
      (if live_call (c_status old)
       then update_calls (\<lambda>x. c_id x = c_id old) (cancel_call env ''tool_contract_changed'') s1
       else Inr s1) (\<lambda>s2.
      Inr (deny_plan (c_id old) t ''tool_contract_changed'',
        append_run_event env (x_workspace ctx) (x_run ctx) ''tool.contract_changed''
          [(''tool'', JStr name), (''call_key'', JStr key)] s2)))"

definition refuse_call :: "txenv \<Rightarrow> call_status \<Rightarrow> call_row \<Rightarrow> call_row" where
  "refuse_call env st c = c\<lparr>c_status := st, c_error := Some ''policy_denied'',
     c_updated := tx_now env, c_finished := Some (tx_now env)\<rparr>"

text \<open>A call key that was used before: the same tool and arguments, or a conflict.\<close>

definition prepare_existing ::
    "txenv \<Rightarrow> exec_context \<Rightarrow> run_row \<Rightarrow> tool_row \<Rightarrow> string \<Rightarrow> string \<Rightarrow> json \<Rightarrow> string \<Rightarrow> string \<Rightarrow>
     policy_decision \<Rightarrow> string \<Rightarrow> call_row \<Rightarrow> db \<Rightarrow> (call_plan \<times> db) res" where
  "prepare_existing env ctx run t key name args ahash chash eff reason old s =
    (if c_tool old \<noteq> t_id t \<or> c_arguments_hash old \<noteq> ahash
     then Inl (ToolContractError ''call_key_conflict'')
     else if c_status old = CallSucceeded
     then Inr ((plan PlanReplay (c_id old) t)\<lparr>pl_result := c_result old\<rparr>, s)
     else if c_contract_hash old \<noteq> chash then withdraw_call env ctx key name t old s
     else if c_status old \<in> {CallFailed, CallDenied, CallCancelled}
     then Inr (deny_plan (c_id old) t
            (case c_error old of Some (x # xs) \<Rightarrow> x # xs | _ \<Rightarrow> ''tool_call_terminal''), s)
     else
       let approval = approval_for_call (c_id old) s;
           approved = (case approval of None \<Rightarrow> False | Some a \<Rightarrow> ap_status a = Approved)
       in case (case approval of Some a \<Rightarrow> if ap_status a = Pending then Some a else None | None \<Rightarrow> None) of
            Some a \<Rightarrow> Inr ((plan PlanApproval (c_id old) t)\<lparr>pl_approval := Some (ap_id a)\<rparr>, s)
          | None \<Rightarrow>
            if eff = Deny then
              bind_res (update_calls (\<lambda>x. c_id x = c_id old)
                  (refuse_call env (if c_status old \<in> {CallApproved, CallRunning} then CallCancelled
                                    else CallDenied)) s) (\<lambda>s1.
                Inr (deny_plan (c_id old) t ''policy_denied'',
                  append_run_event env (x_workspace ctx) (x_run ctx) ''tool.denied''
                    [(''tool'', JStr name), (''call_key'', JStr key)] s1))
            else if eff = RequireApproval \<and> \<not> approved then
              if c_status old \<noteq> Planned
              then Inr (deny_plan (c_id old) t ''approval_required_after_execution_started'', s)
              else create_approval env 0 run (c_id old) t args ahash reason s
            else Inr (plan PlanExecute (c_id old) t, s))"

definition prepare_new ::
    "txenv \<Rightarrow> exec_context \<Rightarrow> run_row \<Rightarrow> tool_row \<Rightarrow> string \<Rightarrow> string \<Rightarrow> json \<Rightarrow> string \<Rightarrow> string \<Rightarrow>
     policy_decision \<Rightarrow> string \<Rightarrow> db \<Rightarrow> (call_plan \<times> db) res" where
  "prepare_new env ctx run t key name args ahash chash eff reason s =
    (let cid = tx_uuid env 0;
         call = new_call env cid (x_workspace ctx) (x_run ctx) t key args ahash chash
     in if eff = Deny then
          bind_res (insert_call (call CallDenied Deny (Some ''policy_denied'') (Some (tx_now env))) s) (\<lambda>s1.
            Inr (deny_plan cid t ''policy_denied'',
              append_run_event env (x_workspace ctx) (x_run ctx) ''tool.denied''
                [(''tool'', JStr name), (''call_key'', JStr key)] s1))
        else
          bind_res (insert_call
              (call (if eff = RequireApproval then PendingApproval else Planned) eff None None) s) (\<lambda>s1.
          let s2 = append_run_event env (x_workspace ctx) (x_run ctx) ''tool.call_planned''
                     [(''tool'', JStr name), (''call_key'', JStr key),
                      (''side_effect'', JStr (side_effect_str (t_side_effect t))),
                      (''policy_decision'', JStr (decision_str eff))] s1
          in if eff = RequireApproval then create_approval env 1 run cid t args ahash reason s2
             else Inr (plan PlanExecute cid t, s2)))"

definition policy_reason :: "tool_row \<Rightarrow> db \<Rightarrow> string" where
  "policy_reason t s =
    (case find_policy t s of
       None \<Rightarrow> ''No explicit allow policy is configured.''
     | Some p \<Rightarrow> if tp_reason p = [] then ''No explicit allow policy is configured.'' else tp_reason p)"

definition call_policy :: "tool_row \<Rightarrow> db \<Rightarrow> policy_decision" where
  "call_policy t s =
    (if t_enabled t then effective_policy (policy_of t s) (t_side_effect t) else Deny)"

definition prepare_call ::
    "txenv \<Rightarrow> exec_context \<Rightarrow> string \<Rightarrow> string \<Rightarrow> json \<Rightarrow> db \<Rightarrow> (call_plan \<times> db) res" where
  "prepare_call env ctx key name args s =
    (if \<not> call_key_ok key then Inl (ToolContractError ''invalid_call_key'')
     else bind_res (executable_run env 0 ctx s) (\<lambda>run.
       if \<not> is_ok (authorize (member_role (x_workspace ctx) (r_issuer run) (r_subject run) s) RunAgents)
       then denied_plan env run key name args ''requester_not_authorized'' s
       else case find_tool (x_workspace ctx) name s of
         None \<Rightarrow> Inl (ToolContractError ''unknown_tool'')
       | Some t \<Rightarrow>
         bind_res (validate_arguments args (t_input_schema t)) (\<lambda>h.
         bind_res (contract_of t) (\<lambda>ch.
           case find_key (x_run ctx) key s of
             Some old \<Rightarrow>
               prepare_existing env ctx run t key name args (snd h) ch (call_policy t s)
                 (policy_reason t s) old s
           | None \<Rightarrow>
               prepare_new env ctx run t key name args (snd h) ch (call_policy t s)
                 (policy_reason t s) s))))"

section \<open>Starting and finishing a call\<close>

record tool_execution =
  te_call :: uuid
  te_server_key :: string
  te_remote_name :: string
  te_arguments :: json
  te_output_schema :: "json option"

definition approval_matches :: "call_row \<Rightarrow> approval_row option \<Rightarrow> bool" where
  "approval_matches c a =
    (case a of None \<Rightarrow> False
     | Some a \<Rightarrow> ap_status a = Approved \<and> ap_arguments_hash a = c_arguments_hash c \<and>
         ap_contract_hash a = c_contract_hash c \<and> py_eq (ap_arguments a) (c_arguments c))"

definition start_call :: "txenv \<Rightarrow> call_row \<Rightarrow> call_row" where
  "start_call env c = c\<lparr>c_status := CallRunning, c_attempt := c_attempt c + 1,
     c_started := (case c_started c of None \<Rightarrow> Some (tx_now env) | Some t \<Rightarrow> Some t),
     c_updated := tx_now env, c_error := None\<rparr>"

definition mark_running ::
    "txenv \<Rightarrow> uuid \<Rightarrow> exec_context \<Rightarrow> db \<Rightarrow> (tool_execution \<times> db) res" where
  "mark_running env cid ctx s =
    bind_res (executable_run env 0 ctx s) (\<lambda>_.
      case (case find_call cid s of None \<Rightarrow> None
            | Some c \<Rightarrow> map_option (Pair c) (tool_of_call c s)) of
        None \<Rightarrow> Inl (ToolContractError ''unknown_tool_call'')
      | Some (c, t) \<Rightarrow>
        if c_run c \<noteq> x_run ctx then Inl (ToolContractError ''unknown_tool_call'')
        else case find_run_in (c_run c) (c_workspace c) s of
          None \<Rightarrow> Inl (ToolContractError ''run_not_executable'')
        | Some run \<Rightarrow>
          if r_status run \<noteq> Running then Inl (ToolContractError ''run_not_executable'')
          else if \<not> is_ok (authorize (member_role (c_workspace c) (r_issuer run) (r_subject run) s) RunAgents)
          then Inl (ToolContractError ''requester_not_authorized'')
          else if \<not> t_enabled t then Inl (ToolContractError ''tool_disabled'')
          else bind_res (contract_of t) (\<lambda>h.
            if c_contract_hash c \<noteq> h then Inl (ToolContractError ''tool_contract_changed'')
            else
              let eff = effective_policy (policy_of t s) (t_side_effect t)
              in if eff = Deny then Inl (ToolContractError ''policy_denied'')
                 else bind_res (validate_arguments (c_arguments c) (t_input_schema t)) (\<lambda>_.
                   if eff = RequireApproval \<and> \<not> approval_matches c (approval_for_call cid s)
                   then Inl (ToolContractError ''approval_missing_or_stale'')
                   else if c_status c \<notin> {Planned, CallApproved, CallRunning}
                   then Inl (ToolContractError ''tool_call_not_executable'')
                   else bind_res (update_calls (\<lambda>x. c_id x = cid) (start_call env) s) (\<lambda>s1.
                     Inr (\<lparr>te_call = cid, te_server_key = t_server_key t,
                           te_remote_name = t_remote_name t, te_arguments = c_arguments c,
                           te_output_schema = t_output_schema t\<rparr>,
                       append_run_event env (c_workspace c) (c_run c) ''tool.started''
                         [(''tool_call_id'', JStr (uuid_str cid)),
                          (''attempt'', JInt (int (c_attempt c + 1)))] s1)))))"

definition finish_call :: "txenv \<Rightarrow> json \<Rightarrow> call_row \<Rightarrow> call_row" where
  "finish_call env v c = c\<lparr>c_status := CallSucceeded, c_result := Some v, c_error := None,
     c_finished := Some (tx_now env), c_updated := tx_now env\<rparr>"

definition tool_complete_success ::
    "txenv \<Rightarrow> uuid \<Rightarrow> json \<Rightarrow> exec_context \<Rightarrow> db \<Rightarrow> (bool \<times> db) res" where
  "tool_complete_success env cid v ctx s =
    bind_res (executable_run env 0 ctx s) (\<lambda>_.
      case (case find_call cid s of None \<Rightarrow> None
            | Some c \<Rightarrow> map_option (Pair c) (tool_of_call c s)) of
        None \<Rightarrow> Inr (False, s)
      | Some (c, t) \<Rightarrow>
        if c_status c \<noteq> CallRunning \<or> c_run c \<noteq> x_run ctx then Inr (False, s)
        else bind_res (validate_result v (t_output_schema t)) (\<lambda>_.
          bind_res (update_calls (\<lambda>x. c_id x = cid) (finish_call env v) s) (\<lambda>s1.
            Inr (True, append_run_event env (c_workspace c) (c_run c) ''tool.succeeded''
              [(''tool_call_id'', JStr (uuid_str cid))] s1))))"

definition tool_complete_failure ::
    "txenv \<Rightarrow> uuid \<Rightarrow> string \<Rightarrow> bool \<Rightarrow> exec_context \<Rightarrow> db \<Rightarrow> (bool \<times> db) res" where
  "tool_complete_failure env cid code retryable ctx s =
    (if code = [] \<or> length code > 100 then Inl (ValueError ''invalid error_code'')
     else bind_res (executable_run env 0 ctx s) (\<lambda>_.
       case find_call cid s of
         None \<Rightarrow> Inr (False, s)
       | Some c \<Rightarrow>
         if c_status c \<noteq> CallRunning \<or> c_run c \<noteq> x_run ctx then Inr (False, s)
         else
           let approved = (case approval_for_call cid s of None \<Rightarrow> False | Some a \<Rightarrow> ap_status a = Approved);
               back = (\<lambda>x. x\<lparr>c_status := if approved then CallApproved else Planned,
                            c_error := Some code, c_updated := tx_now env\<rparr>);
               fail = (\<lambda>x. x\<lparr>c_status := CallFailed, c_error := Some code,
                            c_finished := Some (tx_now env), c_updated := tx_now env\<rparr>)
           in bind_res (update_calls (\<lambda>x. c_id x = cid) (if retryable then back else fail) s) (\<lambda>s1.
                Inr (True, append_run_event env (c_workspace c) (c_run c)
                  (if retryable then ''tool.retry_scheduled'' else ''tool.failed'')
                  [(''tool_call_id'', JStr (uuid_str cid)), (''error_code'', JStr code)] s1))))"

end
