(* ===== verification/Tool_Invariants.thy ===== *)
theory Tool_Invariants
  imports Tool_Governance
begin

text \<open>
  The invariant of tool calls and approvals: an approval belongs to one call and repeats the
  digests of its arguments and contract, and the two statuses agree. Every transaction keeps it, and from it
  follows that no transition trigger and no unique key of the two tables ever rejects a write.
\<close>

section \<open>Statuses that agree\<close>

fun agrees :: "call_status \<Rightarrow> approval_status option \<Rightarrow> bool" where
  "agrees st None = (st \<noteq> PendingApproval \<and> st \<noteq> CallApproved)"
| "agrees st (Some Pending) = (st = PendingApproval)"
| "agrees st (Some Approved) = (st \<in> {CallApproved, CallRunning, CallSucceeded, CallFailed, CallCancelled})"
| "agrees st (Some Rejected) = (st = CallDenied)"
| "agrees st (Some Expired) = (st = CallCancelled)"
| "agrees st (Some ApprovalCancelled) = (st = CallCancelled)"

fun_cases agrees_someE: "agrees st (Some x)"

definition approves :: "approval_row \<Rightarrow> call_row \<Rightarrow> bool" where
  "approves a c \<longleftrightarrow> c_id c = ap_call a \<and> c_run c = ap_run a \<and>
    c_arguments_hash c = ap_arguments_hash a \<and> c_contract_hash c = ap_contract_hash a"

definition approval_status_of :: "uuid \<Rightarrow> db \<Rightarrow> approval_status option" where
  "approval_status_of cid s = map_option ap_status (approval_for_call cid s)"

definition governed :: "db \<Rightarrow> bool" where
  "governed s \<longleftrightarrow> distinct (map c_id (tool_calls s)) \<and>
    distinct (map (\<lambda>c. (c_run c, c_key c)) (tool_calls s)) \<and>
    distinct (map ap_id (tool_approvals s)) \<and> distinct (map ap_call (tool_approvals s)) \<and>
    (\<forall>a \<in> set (tool_approvals s). \<exists>c \<in> set (tool_calls s). approves a c) \<and>
    (\<forall>c \<in> set (tool_calls s). agrees (c_status c) (approval_status_of (c_id c) s))"

lemma governed_empty: "governed empty_db"
  by (simp add: governed_def empty_db_def)

lemma governed_cong:
  "tool_calls s' = tool_calls s \<Longrightarrow> tool_approvals s' = tool_approvals s \<Longrightarrow> governed s' = governed s"
  by (simp add: governed_def approval_status_of_def approval_for_call_def)

lemma governedD:
  assumes "governed s"
  shows "distinct (map c_id (tool_calls s))" "distinct (map ap_id (tool_approvals s))"
    "distinct (map ap_call (tool_approvals s))"
    "\<And>a. a \<in> set (tool_approvals s) \<Longrightarrow> \<exists>c \<in> set (tool_calls s). approves a c"
    "\<And>c. c \<in> set (tool_calls s) \<Longrightarrow> agrees (c_status c) (approval_status_of (c_id c) s)"
  using assms by (auto simp: governed_def)

lemma find_call_unique:
  "governed s \<Longrightarrow> find_call i s = Some c \<longleftrightarrow> c \<in> set (tool_calls s) \<and> c_id c = i"
  unfolding find_call_def by (rule find_Some_iff_unique) (simp add: governedD)

lemma approval_for_call_unique:
  "governed s \<Longrightarrow> approval_for_call i s = Some a \<longleftrightarrow> a \<in> set (tool_approvals s) \<and> ap_call a = i"
  unfolding approval_for_call_def by (rule find_Some_iff_unique) (simp add: governedD)

lemma find_approval_unique:
  "governed s \<Longrightarrow> find_approval i s = Some a \<longleftrightarrow> a \<in> set (tool_approvals s) \<and> ap_id a = i"
  unfolding find_approval_def by (rule find_Some_iff_unique) (simp add: governedD)

text \<open>The call of an approval, and what their statuses say of each other.\<close>

lemma governed_pair:
  assumes "governed s" and "a \<in> set (tool_approvals s)"
  obtains c where "c \<in> set (tool_calls s)" "approves a c" "agrees (c_status c) (Some (ap_status a))"
    "approval_for_call (c_id c) s = Some a"
proof -
  obtain c where c: "c \<in> set (tool_calls s)" "approves a c"
    using governedD(4)[OF assms] by blast
  have "approval_for_call (c_id c) s = Some a"
    using assms c(2) by (simp add: approval_for_call_unique approves_def)
  with governedD(5)[OF assms(1) c(1)] that[OF c] show thesis
    by (simp add: approval_status_of_def)
qed

section \<open>The rule of the transactions\<close>

text \<open>The updates of calls and approvals write the status and its times and nothing else.\<close>

definition call_frame :: "(call_row \<Rightarrow> call_row) \<Rightarrow> bool" where
  "call_frame f \<longleftrightarrow> (\<forall>c. c_id (f c) = c_id c \<and> c_run (f c) = c_run c \<and>
    c_workspace (f c) = c_workspace c \<and> c_key (f c) = c_key c \<and> c_arguments (f c) = c_arguments c \<and>
    c_arguments_hash (f c) = c_arguments_hash c \<and> c_contract_hash (f c) = c_contract_hash c \<and>
    c_tool (f c) = c_tool c)"

definition approval_frame :: "(approval_row \<Rightarrow> approval_row) \<Rightarrow> bool" where
  "approval_frame g \<longleftrightarrow> (\<forall>a. ap_id (g a) = ap_id a \<and> ap_call (g a) = ap_call a \<and>
    ap_run (g a) = ap_run a \<and> ap_workspace (g a) = ap_workspace a \<and>
    ap_arguments (g a) = ap_arguments a \<and> ap_arguments_hash (g a) = ap_arguments_hash a \<and>
    ap_contract_hash (g a) = ap_contract_hash a)"

lemma approval_frame_id [simp]: "approval_frame id" "approval_frame (\<lambda>x. x)"
  by (simp_all add: approval_frame_def)

lemma governed_update:
  assumes gov: "governed s"
    and calls: "tool_calls s' = sql_update p f (tool_calls s)" "call_frame f"
    and apps: "tool_approvals s' = sql_update q g (tool_approvals s)" "approval_frame g"
    and agree: "\<And>c x. c \<in> set (tool_calls s) \<Longrightarrow> x = approval_for_call (c_id c) s \<Longrightarrow>
      agrees (c_status c) (map_option ap_status x) \<Longrightarrow>
      (\<And>a. x = Some a \<Longrightarrow> a \<in> set (tool_approvals s) \<and> approves a c) \<Longrightarrow>
      agrees (c_status (if p c then f c else c)) (map_option (\<lambda>a. ap_status (if q a then g a else a)) x)"
  shows "governed s'"
proof -
  have found: "approval_for_call i s' = map_option (\<lambda>a. if q a then g a else a) (approval_for_call i s)" for i
    unfolding approval_for_call_def apps(1) using apps(2)
    by (intro find_sql_update) (simp add: approval_frame_def)
  have keys: "map c_id (tool_calls s') = map c_id (tool_calls s)"
    "map (\<lambda>c. (c_run c, c_key c)) (tool_calls s') = map (\<lambda>c. (c_run c, c_key c)) (tool_calls s)"
    "map ap_id (tool_approvals s') = map ap_id (tool_approvals s)"
    "map ap_call (tool_approvals s') = map ap_call (tool_approvals s)"
    unfolding calls(1) apps(1) using calls(2) apps(2)
    by (auto intro!: sql_update_keys simp: call_frame_def approval_frame_def)
  have "\<exists>c \<in> set (tool_calls s'). approves a c" if mem: "a \<in> set (tool_approvals s')" for a
  proof -
    obtain b where b: "b \<in> set (tool_approvals s)" "a = (if q b then g b else b)"
      using mem unfolding apps(1) set_sql_update by blast
    obtain c where c: "c \<in> set (tool_calls s)" "approves b c" using governedD(4)[OF gov b(1)] by blast
    have "approves a (if p c then f c else c)"
      using c(2) b(2) calls(2) apps(2) by (auto simp: approves_def call_frame_def approval_frame_def)
    then show ?thesis using c(1) unfolding calls(1) set_sql_update by blast
  qed
  moreover have "agrees (c_status d) (approval_status_of (c_id d) s')" if mem: "d \<in> set (tool_calls s')" for d
  proof -
    obtain c where c: "c \<in> set (tool_calls s)" "d = (if p c then f c else c)"
      using mem unfolding calls(1) set_sql_update by blast
    have id: "c_id d = c_id c" using c(2) calls(2) by (simp add: call_frame_def)
    have "a \<in> set (tool_approvals s) \<and> approves a c" if a: "approval_for_call (c_id c) s = Some a" for a
    proof -
      have "a \<in> set (tool_approvals s)" "ap_call a = c_id c"
        using a gov by (simp_all add: approval_for_call_unique)
      moreover from this obtain c' where "c' \<in> set (tool_calls s)" "approves a c'"
        using governedD(4)[OF gov] by blast
      ultimately show ?thesis
        using c(1) governedD(1)[OF gov] by (auto simp: approves_def distinct_map dest: inj_onD)
    qed
    then have "agrees (c_status (if p c then f c else c))
        (map_option (\<lambda>a. ap_status (if q a then g a else a)) (approval_for_call (c_id c) s))"
      using governedD(5)[OF gov c(1)] by (intro agree[OF c(1) refl]) (auto simp: approval_status_of_def)
    then show ?thesis
      unfolding approval_status_of_def id found option.map_comp comp_def unfolding c(2) .
  qed
  ultimately show ?thesis
    using gov keys unfolding governed_def by metis
qed

section \<open>The transactions keep it\<close>

text \<open>The run part: these transactions write a run only to cancel it or to queue it again.\<close>

lemma tool_writes_safe:
  assumes "run_inv s" and "update_approvals q g s = Inr s1" and "update_calls p f s1 = Inr s2"
  shows "safe_step s s2" "agent_runs s2 = agent_runs s"
  using assms by (auto intro!: safe_same_tables simp: update_approvals_Inr update_calls_Inr)

lemma cancel_governed_run_step:
  assumes inv: "run_inv s" and row: "find_run (r_id run) s = Some row" "\<not> terminal (r_status row)"
    and ok: "cancel_governed_run env run ev p s = Inr s'"
  shows "safe_step s s'" "tool_calls s' = tool_calls s" "tool_approvals s' = tool_approvals s"
    "has_status Cancelled (r_id run) s'"
proof -
  obtain s1 where s1: "update_run env (r_id run) (finish env Cancelled) s = Inr s1"
    and s': "s' = append_run_event env (r_workspace run) (r_id run) ''run.cancelled'' [(''reason'', JStr ev)]
        (append_run_event env (r_workspace run) (r_id run) ev p s1)"
    using ok by (auto simp: cancel_governed_run_def)
  have excl: "excl_run (finish env Cancelled row) ps" if "excl_run row ps" for ps
    using that by (simp add: excl_run_def finish_def)
  have st: "safe_step s s1"
    by (rule plain_update_safe[OF inv s1 row(1) write_ids(2) run_le_cancel[OF row(2)] excl])
  have app: "safe_step t (append_run_event env ws i ty q t)" if "run_inv t" for ws i ty q t
    using that by (intro safe_same_runs) (simp_all add: run_inv_append)
  have inv1: "run_inv s1" using st by (simp add: safe_step_def)
  show "safe_step s s'"
    unfolding s' by (rule safe_trans[OF st safe_trans[OF app[OF inv1] app[OF run_inv_append[OF inv1]]]])
  show "tool_calls s' = tool_calls s" "tool_approvals s' = tool_approvals s"
    using update_run_tables[OF s1] by (simp_all add: s')
  have "find_run (r_id run) s1 = Some (finish env Cancelled row)"
    using find_run_after_update[OF s1, of "r_id run"] row(1) find_run_SomeD[OF row(1)] by simp
  then show "has_status Cancelled (r_id run) s'"
    by (simp add: has_status_def s' finish_def)
qed

lemma cancel_governed_run_total:
  assumes inv: "run_inv s" and row: "find_run (r_id run) s = Some row" "\<not> terminal (r_status row)"
  shows "\<exists>s'. cancel_governed_run env run ev p s = Inr s'"
proof -
  have "\<exists>s1. update_run env (r_id run) (finish env Cancelled) s = Inr s1"
    using live_cases[OF row(2)]
    by (intro update_run_total[OF inv refl row(1)]) (auto simp: finish_def run_row_check_def)
  then show ?thesis by (auto simp: cancel_governed_run_def)
qed

lemma approval_decision_ok:
  "ap_status a = Pending \<Longrightarrow> approval_update_ok a (a\<lparr>ap_status := st, ap_decided := t\<rparr>)"
  "ap_status a = Pending \<Longrightarrow> approval_update_ok a (decided_by env pr st a)"
  by (simp_all add: approval_update_ok_def decided_by_def)

lemma call_frames [simp]:
  "call_frame (cancel_call env code)" "call_frame (refuse_call env st)" "call_frame (start_call env)"
  "call_frame (finish_call env v)"
  "call_frame (\<lambda>c. c\<lparr>c_status := st, c_updated := t, c_finished := u\<rparr>)"
  "call_frame (\<lambda>c. c\<lparr>c_status := st, c_updated := t\<rparr>)"
  "call_frame (\<lambda>x. x\<lparr>c_status := st, c_error := e, c_updated := t\<rparr>)"
  "call_frame (\<lambda>x. x\<lparr>c_status := st, c_error := e, c_finished := u, c_updated := t\<rparr>)"
  by (simp_all add: call_frame_def cancel_call_def refuse_call_def start_call_def finish_call_def)

lemma approval_frames [simp]:
  "approval_frame (\<lambda>x. x\<lparr>ap_status := st, ap_decided := t\<rparr>)" "approval_frame (decided_by env pr st)"
  by (simp_all add: approval_frame_def decided_by_def)

lemma written_status [simp]:
  "c_status (cancel_call env code c) = CallCancelled" "c_status (refuse_call env st c) = st"
  "c_status (start_call env c) = CallRunning" "c_status (finish_call env v c) = CallSucceeded"
  "ap_status (decided_by env pr ast a) = ast" "ap_id (decided_by env pr ast a) = ap_id a"
  by (simp_all add: cancel_call_def refuse_call_def start_call_def finish_call_def decided_by_def)

text \<open>A pending approval and its call are written together.\<close>

lemma pending_pair_governed:
  assumes gov: "governed s" and a: "a \<in> set (tool_approvals s)" "ap_status a = Pending"
    and f: "call_frame f" "\<And>c. c_status (f c) = cst"
    and g: "approval_frame g" "\<And>x. ap_status (g x) = ast" and agr: "agrees cst (Some ast)"
    and p: "\<And>c. c_status c = PendingApproval \<Longrightarrow> p c \<longleftrightarrow> c_id c = ap_call a"
      "\<And>c. p c \<Longrightarrow> c_id c = ap_call a"
    and q: "\<And>x. ap_status x = Pending \<Longrightarrow> q x \<longleftrightarrow> ap_id x = ap_id a" "\<And>x. q x \<Longrightarrow> ap_id x = ap_id a"
    and calls: "tool_calls s' = sql_update p f (tool_calls s)"
    and apps: "tool_approvals s' = sql_update q g (tool_approvals s)"
  shows "governed s'"
proof (rule governed_update[OF gov calls f(1) apps g(1)])
  fix c x
  assume c: "c \<in> set (tool_calls s)" and x: "x = approval_for_call (c_id c) s"
    and old: "agrees (c_status c) (map_option ap_status x)"
    and ax: "\<And>a. x = Some a \<Longrightarrow> a \<in> set (tool_approvals s) \<and> approves a c"
  show "agrees (c_status (if p c then f c else c)) (map_option (\<lambda>a. ap_status (if q a then g a else a)) x)"
  proof (cases "c_id c = ap_call a")
    case True
    then have xa: "x = Some a" using x gov a(1) by (simp add: approval_for_call_unique)
    then have "c_status c = PendingApproval" using old a(2) by simp
    then show ?thesis using True xa p(1) q(1)[OF a(2)] f(2) g(2) agr by simp
  next
    case False
    have "\<not> q b" if "x = Some b" for b
    proof
      assume "q b"
      then have "ap_id b = ap_id a" by (rule q(2))
      then have "b = a"
        using ax[OF that] a(1) governedD(2)[OF gov] by (auto simp: distinct_map dest: inj_onD)
      with ax[OF that] False show False by (simp add: approves_def)
    qed
    moreover have "\<not> p c" using p(2) False by blast
    ultimately show ?thesis using old by (cases x) simp_all
  qed
qed

lemma cancel_approval_steps:
  assumes "cancel_approval env a st ev s = Inr s'"
  obtains s1 s2 where
    "update_approvals (\<lambda>x. ap_id x = ap_id a \<and> ap_status x = Pending)
        (\<lambda>x. x\<lparr>ap_status := st, ap_decided := Some (tx_now env)\<rparr>) s = Inr s1"
    "update_calls (\<lambda>c. c_id c = ap_call a \<and> live_call (c_status c))
        (cancel_call env (approval_str st)) s1 = Inr s2"
    "s' = s2 \<or> (\<exists>run p. find_run_in (ap_run a) (ap_workspace a) s2 = Some run \<and>
       (r_status run = Running \<or> r_status run = WaitingForApproval) \<and>
       cancel_governed_run env run ev p s2 = Inr s')"
proof -
  obtain s1 s2 where s12: "update_approvals (\<lambda>x. ap_id x = ap_id a \<and> ap_status x = Pending)
        (\<lambda>x. x\<lparr>ap_status := st, ap_decided := Some (tx_now env)\<rparr>) s = Inr s1"
      "update_calls (\<lambda>c. c_id c = ap_call a \<and> live_call (c_status c))
        (cancel_call env (approval_str st)) s1 = Inr s2"
    and tail: "(case find_run_in (ap_run a) (ap_workspace a) s2 of
        Some run \<Rightarrow>
          if r_status run = Running \<or> r_status run = WaitingForApproval
          then cancel_governed_run env run ev
                 [(''approval_id'', JStr (uuid_str (ap_id a))),
                  (''tool_call_id'', JStr (uuid_str (ap_call a)))] s2
          else Inr s2
      | None \<Rightarrow> Inr s2) = Inr s'"
    using assms unfolding cancel_approval_def bind_res_Inr by blast
  show thesis
  proof (cases "find_run_in (ap_run a) (ap_workspace a) s2")
    case None
    with tail show ?thesis by (intro that[OF s12]) simp
  next
    case (Some run)
    with tail show ?thesis by (intro that[OF s12]) (auto split: if_splits)
  qed
qed

lemma cancel_approval_step:
  assumes inv: "run_inv s" and gov: "governed s" and a: "a \<in> set (tool_approvals s)" "ap_status a = Pending"
    and st: "st = Expired \<or> st = ApprovalCancelled"
    and ok: "cancel_approval env a st ev s = Inr s'"
  shows "safe_step s s'" "governed s'"
    "tool_approvals s' = sql_update (\<lambda>x. ap_id x = ap_id a \<and> ap_status x = Pending)
        (\<lambda>x. x\<lparr>ap_status := st, ap_decided := Some (tx_now env)\<rparr>) (tool_approvals s)"
proof -
  obtain s1 s2 where s1: "update_approvals (\<lambda>x. ap_id x = ap_id a \<and> ap_status x = Pending)
        (\<lambda>x. x\<lparr>ap_status := st, ap_decided := Some (tx_now env)\<rparr>) s = Inr s1"
    and s2: "update_calls (\<lambda>c. c_id c = ap_call a \<and> live_call (c_status c))
        (cancel_call env (approval_str st)) s1 = Inr s2"
    and tail: "s' = s2 \<or> (\<exists>run p. find_run_in (ap_run a) (ap_workspace a) s2 = Some run \<and>
       (r_status run = Running \<or> r_status run = WaitingForApproval) \<and>
       cancel_governed_run env run ev p s2 = Inr s')"
    by (rule cancel_approval_steps[OF ok])
  note w = tool_writes_safe[OF inv s1 s2]
  have tabs: "tool_calls s2 = sql_update (\<lambda>c. c_id c = ap_call a \<and> live_call (c_status c))
        (cancel_call env (approval_str st)) (tool_calls s)"
    "tool_approvals s2 = sql_update (\<lambda>x. ap_id x = ap_id a \<and> ap_status x = Pending)
        (\<lambda>x. x\<lparr>ap_status := st, ap_decided := Some (tx_now env)\<rparr>) (tool_approvals s)"
    using s1 s2 by (auto simp: update_approvals_Inr update_calls_Inr)
  have gov2: "governed s2"
    by (rule pending_pair_governed[OF gov a, where cst = CallCancelled and ast = st, OF _ _ _ _ _ _ _ _ _ tabs])
      (use st in \<open>auto simp: live_call_def\<close>)
  have "safe_step s2 s' \<and> tool_calls s' = tool_calls s2 \<and> tool_approvals s' = tool_approvals s2"
  proof (cases "s' = s2")
    case True
    then show ?thesis using w(1) safe_refl[of s2] by (simp add: safe_step_def)
  next
    case False
    then obtain run p where run: "find_run_in (ap_run a) (ap_workspace a) s2 = Some run"
      "r_status run = Running \<or> r_status run = WaitingForApproval"
      "cancel_governed_run env run ev p s2 = Inr s'" using tail by blast
    have inv2: "run_inv s2" using w(1) by (simp add: safe_step_def)
    have row: "find_run (r_id run) s2 = Some run" using find_run_inD[OF inv2 run(1)] by simp
    have "\<not> terminal (r_status run)" using run(2) by auto
    with cancel_governed_run_step(1,2,3)[OF inv2 row _ run(3)] show ?thesis by simp
  qed
  with w(1) gov2 tabs(2) governed_cong[of s' s2] safe_trans
  show "safe_step s s'" "governed s'"
    "tool_approvals s' = sql_update (\<lambda>x. ap_id x = ap_id a \<and> ap_status x = Pending)
        (\<lambda>x. x\<lparr>ap_status := st, ap_decided := Some (tx_now env)\<rparr>) (tool_approvals s)"
    by auto
qed

lemma cancel_approval_total:
  assumes inv: "run_inv s" and gov: "governed s" and a: "a \<in> set (tool_approvals s)" "ap_status a = Pending"
  shows "\<exists>s'. cancel_approval env a st ev s = Inr s'"
proof -
  have "\<exists>s1. update_approvals (\<lambda>x. ap_id x = ap_id a \<and> ap_status x = Pending)
        (\<lambda>x. x\<lparr>ap_status := st, ap_decided := Some (tx_now env)\<rparr>) s = Inr s1"
    by (auto simp: update_approvals_Inr approval_decision_ok)
  then obtain s1 where s1: "update_approvals (\<lambda>x. ap_id x = ap_id a \<and> ap_status x = Pending)
        (\<lambda>x. x\<lparr>ap_status := st, ap_decided := Some (tx_now env)\<rparr>) s = Inr s1" by blast
  have "call_transition_ok cst CallCancelled" if "live_call cst" for cst
    using that by (auto simp: live_call_def)
  then obtain s2 where s2: "update_calls (\<lambda>c. c_id c = ap_call a \<and> live_call (c_status c))
        (cancel_call env (approval_str st)) s1 = Inr s2"
    by (auto simp: update_calls_Inr)
  have inv2: "run_inv s2" using tool_writes_safe(1)[OF inv s1 s2] by (simp add: safe_step_def)
  have "\<exists>s'. cancel_governed_run env run ev p s2 = Inr s'"
    if "find_run_in (ap_run a) (ap_workspace a) s2 = Some run"
      "r_status run = Running \<or> r_status run = WaitingForApproval" for run p
    using that find_run_inD[OF inv2 that(1)] by (intro cancel_governed_run_total[OF inv2]) auto
  with s1 s2 show ?thesis
    by (auto simp: cancel_approval_def split: option.splits)
qed

end
