(* ===== verification/Agent_Runtime.thy ===== *)
theory Agent_Runtime
  imports Workspaces Run_Contract
begin

text \<open>
  The API's side of runs (\<open>agent_repository.py\<close>, \<open>agents.py\<close>, \<open>run_results.py\<close>): custom agents,
  the idempotent creation of a run with its first event and its job in one transaction, the
  cancellation, and the listings and the result a requester reads.
\<close>

section \<open>What the API returns\<close>

record run_view =
  v_id :: uuid
  v_workspace :: uuid
  v_agent :: "uuid option"
  v_trace :: uuid
  v_status :: run_status
  v_attempt :: nat
  v_cancel_requested :: "time option"
  v_finished :: "time option"
  v_failure :: "string option"
  v_created :: time
  v_updated :: time

definition view_run :: "run_row \<Rightarrow> run_view" where
  "view_run r = \<lparr>v_id = r_id r, v_workspace = r_workspace r, v_agent = run_target r,
     v_trace = r_trace r, v_status = r_status r, v_attempt = r_attempt r,
     v_cancel_requested = r_cancel_requested r, v_finished = r_finished r, v_failure = r_failure r,
     v_created = r_created r, v_updated = r_updated r\<rparr>"

section \<open>Agents\<close>

definition create_agent ::
    "txenv \<Rightarrow> principal \<Rightarrow> uuid \<Rightarrow> string \<Rightarrow> string \<Rightarrow> string \<Rightarrow> string \<Rightarrow> db \<Rightarrow> (agent_row \<times> db) res" where
  "create_agent env pr ws name ins prof req s =
    bind_res (scoped pr ws ManageAgents s) (\<lambda>_.
      let i = tx_uuid env 0;
          a = \<lparr>a_id = i, a_workspace = ws, a_name = name, a_instructions = ins, a_model_profile = prof,
               a_issuer = issuer pr, a_subject = subject pr, a_created = tx_now env\<rparr>
      in if sql_exists (\<lambda>x. a_id x = i) (agent_definitions s)
         then Inl (UniqueViolation ''agent_definitions_pkey'')
         else Inr (a, audit pr ws ''agent.created'' req None
                (s\<lparr>agent_definitions := agent_definitions s @ [a]\<rparr>)))"

definition list_agents ::
    "principal \<Rightarrow> uuid \<Rightarrow> db \<Rightarrow> nat \<Rightarrow> uuid option \<Rightarrow> agent_row list res" where
  "list_agents pr ws s n c =
    bind_res (scoped pr ws PermRead s) (\<lambda>_.
      Inr (keyset_query a_id (\<lambda>a. a_workspace a = ws) (agent_definitions s) n c))"

definition find_agent :: "uuid \<Rightarrow> uuid \<Rightarrow> db \<Rightarrow> agent_row option" where
  "find_agent ws i s = find (\<lambda>a. a_workspace a = ws \<and> a_id a = i) (agent_definitions s)"

definition get_agent :: "principal \<Rightarrow> uuid \<Rightarrow> uuid \<Rightarrow> db \<Rightarrow> agent_row res" where
  "get_agent pr ws i s =
    bind_res (scoped pr ws PermRead s) (\<lambda>_.
      case find_agent ws i s of None \<Rightarrow> Inl (HTTPException 404) | Some a \<Rightarrow> Inr a)"

section \<open>Creating a run\<close>

definition run_fingerprint :: "uuid \<Rightarrow> string \<Rightarrow> string" where
  "run_fingerprint agent inp = sha256_hex (dumps_ascii
     (JObj [(''agent_id'', JStr (uuid_str agent)), (''input'', JStr inp)]))"

definition same_request :: "principal \<Rightarrow> uuid \<Rightarrow> string \<Rightarrow> run_row \<Rightarrow> bool" where
  "same_request pr ws key r \<longleftrightarrow> r_workspace r = ws \<and> r_issuer r = issuer pr \<and>
     r_subject r = subject pr \<and> r_idempotency_key r = key"

definition new_run ::
    "txenv \<Rightarrow> principal \<Rightarrow> uuid \<Rightarrow> uuid \<Rightarrow> string \<Rightarrow> string \<Rightarrow> run_row" where
  "new_run env pr ws agent inp key =
    \<lparr>r_id = tx_uuid env 0, r_workspace = ws, r_agent = Some agent, r_tenant_agent = None,
     r_snapshot = None, r_issuer = issuer pr, r_subject = subject pr, r_input = inp,
     r_request_hash = run_fingerprint agent inp, r_idempotency_key = key,
     r_trace = tx_uuid env 1, r_status = Queued, r_attempt = 0, r_cancel_requested = None,
     r_lease_owner = None, r_lease_expires = None, r_finished = None, r_failure = None,
     r_created = tx_now env, r_updated = tx_now env\<rparr>"

text \<open>The job of a custom run omits the agent kind.\<close>

definition new_run_job :: "txenv \<Rightarrow> run_row \<Rightarrow> uuid \<Rightarrow> outbox_row" where
  "new_run_job env r agent =
    \<lparr>o_id = tx_uuid env 3, o_workspace = r_workspace r, o_run = r_id r, o_topic = run_topic,
     o_payload = \<lparr>p_run = r_id r, p_workspace = r_workspace r, p_agent = agent,
                  p_trace = r_trace r, p_kind = None\<rparr>,
     o_attempts = 0, o_available = tx_now env, o_published = None, o_dead = None, o_error = None,
     o_created = tx_now env\<rparr>"

definition create_run ::
    "txenv \<Rightarrow> principal \<Rightarrow> uuid \<Rightarrow> uuid \<Rightarrow> string \<Rightarrow> string \<Rightarrow> string \<Rightarrow> db \<Rightarrow>
     ((run_view \<times> bool) \<times> db) res" where
  "create_run env pr ws agent inp key req s =
    bind_res (scoped pr ws RunAgents s) (\<lambda>_.
      if find_agent ws agent s = None then Inl (HTTPException 404)
      else case find (same_request pr ws key) (agent_runs s) of
        Some old \<Rightarrow>
          if r_request_hash old \<noteq> run_fingerprint agent inp then Inl (HTTPException 409)
          else Inr ((view_run old, False), s)
      | None \<Rightarrow>
          let r = new_run env pr ws agent inp key
          in bind_res (insert_run r s) (\<lambda>s1.
             bind_res (insert_first_event env ws (r_id r) ''run.queued''
                         [(''request_id'', JStr req)] s1) (\<lambda>s2.
             bind_res (insert_outbox (new_run_job env r agent) s2) (\<lambda>s3.
               Inr ((view_run r, True), audit pr ws ''agent_run.created'' req None s3)))))"

section \<open>Reading runs\<close>

definition find_workspace_run :: "uuid \<Rightarrow> uuid \<Rightarrow> db \<Rightarrow> run_row option" where
  "find_workspace_run ws i s = find (\<lambda>r. r_workspace r = ws \<and> r_id r = i) (agent_runs s)"

definition get_run :: "principal \<Rightarrow> uuid \<Rightarrow> uuid \<Rightarrow> db \<Rightarrow> run_view res" where
  "get_run pr ws i s =
    bind_res (scoped pr ws PermRead s) (\<lambda>_.
      case find_workspace_run ws i s of
        None \<Rightarrow> Inl (HTTPException 404)
      | Some r \<Rightarrow> Inr (view_run r))"

record run_summary =
  sm_run :: run_view
  sm_agent_name :: "string option"
  sm_mine :: bool

definition agent_name :: "run_row \<Rightarrow> db \<Rightarrow> string option" where
  "agent_name r s =
    (case map_option a_name (case r_agent r of None \<Rightarrow> None
            | Some i \<Rightarrow> find_agent (r_workspace r) i s) of
       Some n \<Rightarrow> Some n
     | None \<Rightarrow> map_option ta_display_name (case r_tenant_agent r of None \<Rightarrow> None
            | Some i \<Rightarrow> find (\<lambda>t. ta_id t = i \<and> ta_workspace t = r_workspace r) (tenant_agents s)))"

definition mine :: "principal \<Rightarrow> run_row \<Rightarrow> bool" where
  "mine pr r \<longleftrightarrow> r_issuer r = issuer pr \<and> r_subject r = subject pr"

definition summary :: "principal \<Rightarrow> db \<Rightarrow> run_row \<Rightarrow> run_summary" where
  "summary pr s r = \<lparr>sm_run = view_run r, sm_agent_name = agent_name r s, sm_mine = mine pr r\<rparr>"

text \<open>The filters of the history, and its order: newest first, ties by the larger id.\<close>

definition history_filter ::
    "principal \<Rightarrow> uuid \<Rightarrow> run_status option \<Rightarrow> uuid option \<Rightarrow> bool \<Rightarrow> run_row \<Rightarrow> bool" where
  "history_filter pr ws st agent only_mine r \<longleftrightarrow> r_workspace r = ws \<and>
    (st = None \<or> st = Some (r_status r)) \<and>
    (agent = None \<or> r_agent r = agent \<or> r_tenant_agent r = agent) \<and>
    (\<not> only_mine \<or> mine pr r)"

definition newest_first :: "run_row \<Rightarrow> int \<times> int" where
  "newest_first r = (- r_created r, - uint (r_id r))"

definition list_runs ::
    "principal \<Rightarrow> uuid \<Rightarrow> nat \<Rightarrow> uuid option \<Rightarrow> run_status option \<Rightarrow> uuid option \<Rightarrow> bool \<Rightarrow> db \<Rightarrow>
     run_summary list res" where
  "list_runs pr ws n cursor st agent only_mine s =
    bind_res (scoped pr ws PermRead s) (\<lambda>_.
      bind_res (case cursor of
          None \<Rightarrow> Inr None
        | Some c \<Rightarrow> (case find_workspace_run ws c s of
                       None \<Rightarrow> Inl (HTTPException 404)
                     | Some r \<Rightarrow> Inr (Some (r_created r, r_id r)))) (\<lambda>boundary.
        Inr (map (summary pr s)
          (order_limit newest_first n
            (\<lambda>r. history_filter pr ws st agent only_mine r \<and>
                 (case boundary of None \<Rightarrow> True | Some b \<Rightarrow> (r_created r, r_id r) < b))
            (agent_runs s)))))"

definition list_events ::
    "principal \<Rightarrow> uuid \<Rightarrow> uuid \<Rightarrow> db \<Rightarrow> nat \<Rightarrow> nat \<Rightarrow> event_row list res" where
  "list_events pr ws run s n c =
    bind_res (scoped pr ws PermRead s) (\<lambda>_.
      if find_workspace_run ws run s = None then Inl (HTTPException 404)
      else Inr (keyset_query e_no (\<lambda>e. e_workspace e = ws \<and> e_run e = run) (run_events s) n (Some c)))"

section \<open>Cancelling a run\<close>

definition cancel_waiting_tools :: "txenv \<Rightarrow> uuid \<Rightarrow> db \<Rightarrow> db res" where
  "cancel_waiting_tools env run s =
    bind_res (update_approvals (\<lambda>a. ap_run a = run \<and> ap_status a = Pending)
        (\<lambda>a. a\<lparr>ap_status := ApprovalCancelled, ap_decided := Some (tx_now env)\<rparr>) s) (\<lambda>s1.
      update_calls (\<lambda>c. c_run c = run \<and> c_status c \<in> {Planned, PendingApproval, CallApproved})
        (\<lambda>c. c\<lparr>c_status := CallCancelled, c_error := Some ''run_cancelled'',
               c_finished := Some (tx_now env), c_updated := tx_now env\<rparr>) s1)"

definition request_cancel :: "txenv \<Rightarrow> run_row \<Rightarrow> run_row" where
  "request_cancel env r = r\<lparr>r_cancel_requested := Some (tx_now env), r_updated := tx_now env\<rparr>"

definition cancel_now :: "txenv \<Rightarrow> run_row \<Rightarrow> run_row" where
  "cancel_now env r = (finish env Cancelled r)\<lparr>r_cancel_requested :=
     (case r_cancel_requested r of None \<Rightarrow> Some (tx_now env) | Some t \<Rightarrow> Some t)\<rparr>"

definition cancel_run ::
    "txenv \<Rightarrow> principal \<Rightarrow> uuid \<Rightarrow> uuid \<Rightarrow> string \<Rightarrow> db \<Rightarrow> (run_view \<times> db) res" where
  "cancel_run env pr ws i req s =
    bind_res (scoped pr ws PermRead s) (\<lambda>member.
      case find_workspace_run ws i s of
        None \<Rightarrow> Inl (HTTPException 404)
      | Some run \<Rightarrow>
        bind_res (if mine pr run then Inr () else authorize (Some (snd member)) CancelAnyRun) (\<lambda>_.
        if terminal (r_status run) then Inr (view_run run, s)
        else bind_res (cancel_waiting_tools env i s) (\<lambda>s1.
          if r_status run = Running
          then if r_cancel_requested run = None
               then bind_res (update_run env i (request_cancel env) s1) (\<lambda>s2.
                 Inr (view_run (request_cancel env run),
                   audit pr ws ''agent_run.cancel_requested'' req None
                     (append_run_event env ws i ''run.cancel_requested''
                       [(''request_id'', JStr req)] s2)))
               else Inr (view_run run, s1)
          else bind_res (update_run env i (cancel_now env) s1) (\<lambda>s2.
                 Inr (view_run (cancel_now env run),
                   audit pr ws ''agent_run.cancelled'' req None
                     (append_run_event env ws i ''run.cancelled''
                       [(''request_id'', JStr req), (''reason'', JStr ''requested'')] s2))))))"

section \<open>The result of a run\<close>

text \<open>
  A recorded model response, validated: the text, the names of the selected tools, the token counts
  and the finish reason. The token counts are strict integers, so a boolean is refused.
\<close>

record model_response =
  mr_text :: "string option"
  mr_tools :: "string list"
  mr_input :: nat
  mr_output :: nat
  mr_finish :: string

fun nat_field :: "json option \<Rightarrow> nat option" where
  "nat_field (Some (JInt i)) = (if 0 \<le> i then Some (nat i) else None)"
| "nat_field _ = None"

fun text_field :: "json option \<Rightarrow> string option option" where
  "text_field (Some JNull) = Some None"
| "text_field (Some (JStr t)) = (if length t \<le> 100000 then Some (Some t) else None)"
| "text_field _ = None"

fun tool_selection :: "json \<Rightarrow> string option" where
  "tool_selection (JObj d) =
    (case map_of d ''name'' of
       Some (JStr n) \<Rightarrow> if 1 \<le> length n \<and> length n \<le> 200 then Some n else None
     | _ \<Rightarrow> None)"
| "tool_selection _ = None"

fun all_some :: "'a option list \<Rightarrow> 'a list option" where
  "all_some [] = Some []"
| "all_some (None # xs) = None"
| "all_some (Some x # xs) = map_option ((#) x) (all_some xs)"

fun validate_response :: "json \<Rightarrow> model_response option" where
  "validate_response (JObj d) =
    (case (text_field (map_of d ''text''), map_of d ''tool_calls'', map_of d ''usage'',
           map_of d ''finish_reason'') of
       (Some text, Some (JArr calls), Some (JObj u), Some (JStr reason)) \<Rightarrow>
         (case (all_some (map tool_selection calls), nat_field (map_of u ''input_tokens''),
                nat_field (map_of u ''output_tokens'')) of
            (Some names, Some i, Some n) \<Rightarrow>
              if length calls \<le> 16
              then Some \<lparr>mr_text = text, mr_tools = names, mr_input = i, mr_output = n, mr_finish = reason\<rparr>
              else None
          | _ \<Rightarrow> None)
     | _ \<Rightarrow> None)"
| "validate_response _ = None"

record run_result =
  rn_run :: uuid
  rn_status :: run_status
  rn_output :: "string option"
  rn_reason :: "string option"
  rn_failure :: "string option"
  rn_input_tokens :: nat
  rn_output_tokens :: nat
  rn_tools :: "string list"
  rn_steps :: "(nat \<times> string \<times> string \<times> string \<times> nat \<times> nat) list"

definition summarize_result :: "run_row \<Rightarrow> step_row list \<Rightarrow> run_result res" where
  "summarize_result run rows =
    (if \<not> terminal (r_status run) then Inl (ValueError ''run_result_not_ready'')
     else if length rows > 32 \<or> map st_no rows \<noteq> [0..<length rows]
     then Inl (ValueError ''run_result_unavailable'')
     else case all_some (map (validate_response \<circ> st_response) rows) of
       None \<Rightarrow> Inl (ValueError ''validation'')
     | Some rs \<Rightarrow>
         let result = (\<lambda>output reason.
               \<lparr>rn_run = r_id run, rn_status = r_status run, rn_output = output, rn_reason = reason,
                rn_failure = r_failure run, rn_input_tokens = sum_list (map mr_input rs),
                rn_output_tokens = sum_list (map mr_output rs),
                rn_tools = sort (remdups (concat (map mr_tools rs))),
                rn_steps = map2 (\<lambda>row x. (st_no row, st_provider row, st_model row, mr_finish x,
                  mr_input x, mr_output x)) rows rs\<rparr>)
         in if r_status run = Succeeded
            then if rs = [] \<or> mr_finish (last rs) \<notin> {''stop'', ''refusal''} \<or> mr_tools (last rs) \<noteq> []
                 then Inl (ValueError ''run_result_unavailable'')
                 else case mr_text (last rs) of
                   None \<Rightarrow> Inl (ValueError ''run_result_unavailable'')
                 | Some t \<Rightarrow> if t = [] then Inl (ValueError ''run_result_unavailable'')
                              else Inr (result (Some t) (Some (mr_finish (last rs))))
            else Inr (result None None))"

definition get_result :: "principal \<Rightarrow> uuid \<Rightarrow> uuid \<Rightarrow> db \<Rightarrow> run_result res" where
  "get_result pr ws i s =
    bind_res (scoped pr ws PermRead s) (\<lambda>_.
      case find (\<lambda>r. r_workspace r = ws \<and> r_id r = i \<and> mine pr r) (agent_runs s) of
        None \<Rightarrow> Inl (HTTPException 404)
      | Some run \<Rightarrow>
          if \<not> terminal (r_status run) then Inl (HTTPException 409)
          else case summarize_result run
                 (order_limit st_no 33 (\<lambda>m. st_workspace m = ws \<and> st_run m = i) (model_steps s)) of
            Inl _ \<Rightarrow> Inl (HTTPException 409)
          | Inr x \<Rightarrow> Inr x)"

section \<open>The API's transactions are safe steps\<close>

lemma scoped_tables [simp]: "scoped pr ws p (audit q w a r t s) = scoped pr ws p s"
  by (rule scoped_cong_tables) simp_all

lemma safe_audit: "safe_step s t \<Longrightarrow> safe_step s (audit pr ws a req x t)"
  using run_inv_cong[of "audit pr ws a req x t" t]
  by (auto simp: safe_step_def run_mono_def find_run_def)

lemma create_agent_safe:
  assumes "run_inv s" and "create_agent env pr ws name ins prof req s = Inr (x, s')"
  shows "safe_step s s'"
  using assms by (intro safe_same_tables) (auto simp: create_agent_def Let_def split: if_splits)

lemma excl_run_no_receipts: "processing i s = [] \<Longrightarrow> excl_run r (processing i s)"
  by simp

text \<open>A new run: no receipt, no job and no event mentions its identifier yet.\<close>

lemma insert_run_inv:
  assumes inv: "run_inv s" and ok: "insert_run r s = Inr s'"
  shows "run_inv s'"
proof -
  have new: "r_id r \<notin> r_id ` set (agent_runs s)" and check: "run_row_check r"
    and s': "s' = s\<lparr>agent_runs := agent_runs s @ [r]\<rparr>"
    using ok by (auto simp: insert_run_Inr)
  have none: "processing (r_id r) s = []"
  proof -
    have "rc_run x \<noteq> r_id r" if "x \<in> set (receipts s)" for x
    proof
      assume eq: "rc_run x = r_id r"
      have "known_job (rc_job x) (rc_run x) s" using run_invD(4)[OF inv] that by blast
      then obtain ob where "ob \<in> set (outbox s)" "o_run ob = r_id r"
        by (auto simp: known_job_def eq)
      then show False using inv new unfolding run_inv_def linked_def by (metis image_eqI)
    qed
    then show ?thesis by (auto simp: processing_def filter_empty_conv)
  qed
  show ?thesis
  proof (rule run_invI)
    show "keys_ok s'" using run_invD(1,2,3)[OF inv] new by (auto simp: keys_ok_def s')
    show "linked s'" using inv by (auto simp: run_inv_def linked_def known_job_def s')
    show "rows_ok s'" using inv check by (auto simp: run_inv_def rows_ok_def s')
    show "exclusive s'"
      using run_invD(7)[OF inv] none by (auto simp: exclusive_def s' processing_def)
    show "journal_ok s'" using run_invD(5)[OF inv] journal_cong[of s' s] by (simp add: s')
  qed
qed

lemma insert_run_safe:
  "run_inv s \<Longrightarrow> insert_run r s = Inr s' \<Longrightarrow> safe_step s s'"
  by (simp add: safe_step_def insert_run_inv run_mono_insert)

lemma append_event_safe: "run_inv s \<Longrightarrow> safe_step s (append_run_event env ws i ty p s)"
  by (rule safe_same_runs) (simp_all add: run_inv_append)

lemma create_run_cases:
  assumes "create_run env pr ws agent inp key req s = Inr ((v, fresh), s')"
  obtains (replay) old where "\<not> fresh" "s' = s" "v = view_run old"
      "find (same_request pr ws key) (agent_runs s) = Some old"
      "r_request_hash old = run_fingerprint agent inp"
  | (created) r s1 s2 s3 where "fresh" "v = view_run r" "r = new_run env pr ws agent inp key"
      "find (same_request pr ws key) (agent_runs s) = None" "find_agent ws agent s \<noteq> None"
      "insert_run r s = Inr s1"
      "insert_first_event env ws (r_id r) ''run.queued'' [(''request_id'', JStr req)] s1 = Inr s2"
      "insert_outbox (new_run_job env r agent) s2 = Inr s3"
      "s' = audit pr ws ''agent_run.created'' req None s3"
  using assms by (auto simp: create_run_def Let_def split: if_splits option.splits)

lemma create_run_safe:
  assumes inv: "run_inv s" and ok: "create_run env pr ws agent inp key req s = Inr ((v, fresh), s')"
  shows "safe_step s s'"
  using ok
proof (cases rule: create_run_cases)
  case replay
  then show ?thesis using inv by (simp add: safe_refl)
next
  case (created r s1 s2 s3)
  have st1: "safe_step s s1" by (rule insert_run_safe[OF inv created(6)])
  then have inv1: "run_inv s1" by (simp add: safe_step_def)
  have s2: "s2 = append_run_event env ws (r_id r) ''run.queued'' [(''request_id'', JStr req)] s1"
    by (rule insert_first_event_append[OF run_invD(5)[OF inv1] created(7)])
  have st2: "safe_step s1 s2" unfolding s2 by (rule append_event_safe[OF inv1])
  have "find_run (r_id r) s1 = Some r"
  proof -
    have "find_run (r_id r) s = None"
      using created(6) by (auto simp: find_run_def find_None_iff insert_run_Inr)
    then show ?thesis using created(6) by (auto simp: find_run_def find_append insert_run_Inr)
  qed
  then have "find_run (o_run (new_run_job env r agent)) s2 = Some r"
    by (simp add: s2 new_run_job_def)
  then have "safe_step s2 s3"
    using insert_outbox_safe[OF _ created(8)] st2 by (simp add: safe_step_def)
  with st1 st2 have "safe_step s s3" using safe_trans by blast
  then show ?thesis unfolding created(9) by (rule safe_audit)
qed

lemma cancel_waiting_tools_ok:
  "\<exists>s'. cancel_waiting_tools env run s = Inr s'"
proof -
  have "approval_update_ok a (a\<lparr>ap_status := ApprovalCancelled, ap_decided := Some t\<rparr>)"
    if "ap_status a = Pending" for a t
    using that by (simp add: approval_update_ok_def)
  moreover have "call_transition_ok (c_status c) CallCancelled"
    if "c_status c \<in> {Planned, PendingApproval, CallApproved}" for c
    using that by auto
  ultimately show ?thesis
    by (auto simp: cancel_waiting_tools_def update_approvals_Inr update_calls_Inr)
qed

lemma cancel_waiting_tools_tables:
  assumes "cancel_waiting_tools env run s = Inr s'"
  shows "agent_runs s' = agent_runs s" "receipts s' = receipts s" "outbox s' = outbox s"
    "run_events s' = run_events s" "workspaces s' = workspaces s" "memberships s' = memberships s"
  using assms by (auto simp: cancel_waiting_tools_def update_approvals_Inr update_calls_Inr)

lemma cancel_run_cases:
  assumes "cancel_run env pr ws i req s = Inr (v, s')"
  obtains (ended) run where "find_workspace_run ws i s = Some run" "terminal (r_status run)"
      "s' = s" "v = view_run run"
  | (again) run where "find_workspace_run ws i s = Some run" "r_status run = Running"
      "r_cancel_requested run \<noteq> None" "cancel_waiting_tools env i s = Inr s'" "v = view_run run"
  | (asked) run s1 s2 where "find_workspace_run ws i s = Some run" "r_status run = Running"
      "r_cancel_requested run = None" "cancel_waiting_tools env i s = Inr s1"
      "update_run env i (request_cancel env) s1 = Inr s2" "v = view_run (request_cancel env run)"
      "s' = audit pr ws ''agent_run.cancel_requested'' req None
         (append_run_event env ws i ''run.cancel_requested'' [(''request_id'', JStr req)] s2)"
  | (now) run s1 s2 where "find_workspace_run ws i s = Some run"
      "r_status run = Queued \<or> r_status run = WaitingForApproval"
      "cancel_waiting_tools env i s = Inr s1" "update_run env i (cancel_now env) s1 = Inr s2"
      "v = view_run (cancel_now env run)"
      "s' = audit pr ws ''agent_run.cancelled'' req None
         (append_run_event env ws i ''run.cancelled''
           [(''request_id'', JStr req), (''reason'', JStr ''requested'')] s2)"
proof -
  from assms obtain run where run: "find_workspace_run ws i s = Some run"
    by (auto simp: cancel_run_def split: option.splits)
  note ok = assms[unfolded cancel_run_def run option.case]
  show thesis
  proof (cases "terminal (r_status run)")
    case True
    with ok run show thesis by (intro that(1)) auto
  next
    case False
    from live_cases[OF False] show thesis
    proof (elim disjE)
      assume q: "r_status run = Queued"
      with ok run show thesis by (auto split: if_splits intro: that(4))
    next
      assume r: "r_status run = Running"
      show thesis
      proof (cases "r_cancel_requested run = None")
        case True
        with ok run r show thesis by (auto intro: that(3))
      next
        case False
        with ok run r show thesis by (auto intro: that(2))
      qed
    next
      assume w: "r_status run = WaitingForApproval"
      with ok run show thesis by (auto split: if_splits intro: that(4))
    qed
  qed
qed

lemma find_workspace_runD:
  assumes "run_inv s" and "find_workspace_run ws i s = Some run"
  shows "find_run i s = Some run" "r_workspace run = ws"
proof -
  have "run \<in> set (agent_runs s) \<and> r_id run = i \<and> r_workspace run = ws"
    using assms(2) by (auto simp: find_workspace_run_def dest: find_SomeD)
  then show "find_run i s = Some run" "r_workspace run = ws"
    using run_invD(1)[OF assms(1)] by (simp_all add: find_run_unique)
qed

lemma run_le_cancel_now [simp]: "\<not> terminal (r_status r) \<Longrightarrow> run_le r (cancel_now env r)"
  using run_le_cancel[of r env] by (simp add: run_le_def cancel_now_def phase_def)

lemma run_le_request_cancel [simp]: "\<not> terminal (r_status r) \<Longrightarrow> run_le r (request_cancel env r)"
  by (simp add: run_le_def request_cancel_def phase_def)

lemma cancel_writes [simp]:
  "r_id (cancel_now env r) = r_id r" "r_id (request_cancel env r) = r_id r"
  "r_status (cancel_now env r) = Cancelled" "r_status (request_cancel env r) = r_status r"
  by (simp_all add: cancel_now_def request_cancel_def finish_def)

lemma cancel_run_safe:
  assumes inv: "run_inv s" and ok: "cancel_run env pr ws i req s = Inr (v, s')"
  shows "safe_step s s'"
proof -
  have tools: "safe_step s t \<and> find_run j t = find_run j s" if "cancel_waiting_tools env i s = Inr t" for t j
    using cancel_waiting_tools_tables[OF that] safe_same_tables[OF inv] by (simp add: find_run_def)
  have wrote: "safe_step s (audit pr ws a req None (append_run_event env ws i ty p s2))"
    if t: "cancel_waiting_tools env i s = Inr s1" and upd: "update_run env i f s1 = Inr s2"
      and row: "find_run i s = Some run" and f: "\<And>r. r_id (f r) = r_id r" "run_le run (f run)"
      and excl: "\<And>ps. excl_run run ps \<Longrightarrow> excl_run (f run) ps" for s1 s2 f run a ty p
  proof -
    have "run_inv s1" "find_run i s1 = Some run"
      using tools[OF t, of i] row by (simp_all add: safe_step_def)
    then have "safe_step s1 s2"
      using upd f excl by (intro plain_update_safe[OF _ upd, of run]) auto
    then have "safe_step s s2" using tools[OF t, of i] safe_trans by blast
    then have "safe_step s (append_run_event env ws i ty p s2)"
      using append_event_safe safe_trans unfolding safe_step_def by blast
    then show ?thesis by (rule safe_audit)
  qed
  show ?thesis
    using ok
  proof (cases rule: cancel_run_cases)
    case (ended run)
    then show ?thesis using inv by (simp add: safe_refl)
  next
    case (again run)
    then show ?thesis using tools by simp
  next
    case (asked run s1 s2)
    show ?thesis
      unfolding asked(7)
      by (rule wrote[OF asked(4,5) find_workspace_runD(1)[OF inv asked(1)]])
        (simp_all add: asked(2) excl_run_def request_cancel_def run_le_def phase_def)
  next
    case (now run s1 s2)
    show ?thesis
      unfolding now(6)
      by (rule wrote[OF now(3,4) find_workspace_runD(1)[OF inv now(1)]])
        (use now(2) in \<open>auto simp: excl_run_def\<close>)
  qed
qed

text \<open>After a cancellation the run is cancelled, or is running with the request on its row.\<close>

lemma cancel_run_result:
  assumes inv: "run_inv s" and ok: "cancel_run env pr ws i req s = Inr (v, s')"
  shows "\<exists>run. find_run i s' = Some run \<and> v = view_run run \<and>
    (terminal (r_status run) \<or> r_status run = Running \<and> r_cancel_requested run \<noteq> None)"
proof -
  have found: "find_run i (audit pr ws a req None (append_run_event env ws i ty p s2)) = Some (f run)"
    if t: "cancel_waiting_tools env i s = Inr s1" and upd: "update_run env i f s1 = Inr s2"
      and row: "find_run i s = Some run" and f: "\<And>r. r_id (f r) = r_id r" for s1 s2 f run a ty p
  proof -
    have "find_run i s1 = Some run"
      using cancel_waiting_tools_tables(1)[OF t] row by (simp add: find_run_def)
    then have "find_run i s2 = Some (f run)"
      using find_run_after_update[OF upd f, of i] find_run_SomeD[of i s1 run] by simp
    then show ?thesis by (simp add: find_run_def)
  qed
  show ?thesis
    using ok
  proof (cases rule: cancel_run_cases)
    case (ended run)
    then show ?thesis using find_workspace_runD[OF inv] by auto
  next
    case (again run)
    then show ?thesis
      using find_workspace_runD(1)[OF inv] cancel_waiting_tools_tables(1) by (auto simp: find_run_def)
  next
    case (asked run s1 s2)
    then show ?thesis
      using found[OF asked(4,5) find_workspace_runD(1)[OF inv asked(1)]] by (simp add: request_cancel_def)
  next
    case (now run s1 s2)
    then show ?thesis
      using found[OF now(3,4) find_workspace_runD(1)[OF inv now(1)]] by simp
  qed
qed

section \<open>Listings meet the paging contract\<close>

text \<open>A refused listing shows nothing; the states of the contract are those where it is allowed.\<close>

definition rows_or_none :: "'a list res \<Rightarrow> 'a list" where
  "rows_or_none m = (case m of Inl _ \<Rightarrow> [] | Inr xs \<Rightarrow> xs)"

definition workspace_agents :: "uuid \<Rightarrow> db \<Rightarrow> agent_row list" where
  "workspace_agents ws s = sort_key a_id (filter (\<lambda>a. a_workspace a = ws) (agent_definitions s))"

definition agents_readable :: "principal \<Rightarrow> uuid \<Rightarrow> db \<Rightarrow> bool" where
  "agents_readable pr ws s \<longleftrightarrow>
    distinct (map a_id (agent_definitions s)) \<and> is_ok (scoped pr ws PermRead s)"

interpretation agent_pages: keyset a_id "workspace_agents ws"
    "\<lambda>s n c. rows_or_none (list_agents pr ws s n c)" "agents_readable pr ws" for pr ws
proof unfold_locales
  fix s :: db and n c
  assume ok: "agents_readable pr ws s"
  then show "sorted_wrt (<) (map a_id (workspace_agents ws s))"
    unfolding workspace_agents_def by (intro keyset_query_sorted) (simp add: agents_readable_def)
  from ok show "rows_or_none (list_agents pr ws s n c) =
      take n (filter (\<lambda>r. after_cursor c (a_id r)) (workspace_agents ws s))"
    by (auto simp: agents_readable_def is_ok_iff list_agents_def rows_or_none_def
        workspace_agents_def keyset_query_take)
qed

text \<open>The journal is read from the cursor 0 on, which is before every number.\<close>

definition run_journal :: "uuid \<Rightarrow> uuid \<Rightarrow> db \<Rightarrow> event_row list" where
  "run_journal ws run s =
    sort_key e_no (filter (\<lambda>e. e_workspace e = ws \<and> e_run e = run) (run_events s))"

definition journal_readable :: "principal \<Rightarrow> uuid \<Rightarrow> uuid \<Rightarrow> db \<Rightarrow> bool" where
  "journal_readable pr ws run s \<longleftrightarrow> journal_ok s \<and> is_ok (scoped pr ws PermRead s) \<and>
    find_workspace_run ws run s \<noteq> None"

lemma journal_positive:
  assumes "journal_ok s" and "e \<in> set (run_events s)"
  shows "0 < e_no e"
proof -
  have "e_no e \<in> set (map e_no (events_of (e_run e) s))"
    using assms(2) by (auto simp: events_of_def)
  also have "\<dots> = set (map Suc [0..<length (events_of (e_run e) s)])"
    using assms(1) unfolding journal_ok_def by metis
  finally show ?thesis by auto
qed

lemma run_journal_sorted:
  assumes "journal_ok s"
  shows "sorted_wrt (<) (map e_no (run_journal ws run s))"
proof -
  have "map e_no (events_of run s) = map Suc [0..<length (events_of run s)]"
    using assms unfolding journal_ok_def by blast
  then have "distinct (map e_no (events_of run s))"
    by (metis distinct_map distinct_upt inj_Suc)
  then have "distinct (map e_no (filter (\<lambda>e. e_workspace e = ws) (events_of run s)))"
    by (rule distinct_map_filter_key)
  moreover have "filter (\<lambda>e. e_workspace e = ws) (events_of run s) =
      filter (\<lambda>e. e_workspace e = ws \<and> e_run e = run) (run_events s)"
    by (simp add: events_of_def conj_commute)
  ultimately show ?thesis
    unfolding run_journal_def by (intro strict_sorted_key) simp
qed

interpretation event_pages: keyset e_no "run_journal ws run"
    "\<lambda>s n c. rows_or_none (list_events pr ws run s n (case c of None \<Rightarrow> 0 | Some k \<Rightarrow> k))"
    "journal_readable pr ws run" for pr ws run
proof unfold_locales
  fix s :: db and n c
  assume ok: "journal_readable pr ws run s"
  then show "sorted_wrt (<) (map e_no (run_journal ws run s))"
    by (intro run_journal_sorted) (simp add: journal_readable_def)
  have pos: "0 < e_no e" if "e \<in> set (run_journal ws run s)" for e
    using ok that journal_positive by (auto simp: journal_readable_def run_journal_def)
  have cursor: "filter (\<lambda>r. after_cursor (Some (case c of None \<Rightarrow> 0 | Some k \<Rightarrow> k)) (e_no r))
        (run_journal ws run s) = filter (\<lambda>r. after_cursor c (e_no r)) (run_journal ws run s)"
    using pos by (intro filter_cong) (auto simp: after_cursor_def split: option.splits)
  have "rows_or_none (list_events pr ws run s n k) =
      take n (filter (\<lambda>r. after_cursor (Some k) (e_no r)) (run_journal ws run s))" for k
    using ok by (auto simp: journal_readable_def is_ok_iff list_events_def rows_or_none_def
        run_journal_def keyset_query_take)
  with cursor show "rows_or_none (list_events pr ws run s n (case c of None \<Rightarrow> 0 | Some k \<Rightarrow> k)) =
      take n (filter (\<lambda>r. after_cursor c (e_no r)) (run_journal ws run s))"
    by simp
qed

end
