(* ===== verification/Tool_Safety.thy ===== *)
theory Tool_Safety
  imports Tool_Invariants Agent_Runtime
begin

text \<open>
  Every transaction of the tool repository keeps the invariant of the runs and the invariant of
  calls and approvals, and none of them can run into a transition trigger.
\<close>

definition tool_step :: "db \<Rightarrow> db \<Rightarrow> bool" where
  "tool_step s s' \<longleftrightarrow> safe_step s s' \<and> governed s'"

lemma tool_stepI: "safe_step s s' \<Longrightarrow> governed s' \<Longrightarrow> tool_step s s'"
  by (simp add: tool_step_def)

lemma tool_refl: "run_inv s \<Longrightarrow> governed s \<Longrightarrow> tool_step s s"
  by (simp add: tool_step_def safe_refl)

lemma tool_trans: "tool_step s t \<Longrightarrow> tool_step t u \<Longrightarrow> tool_step s u"
  unfolding tool_step_def using safe_trans by blast

lemma tool_stepD: "tool_step s s' \<Longrightarrow> run_inv s'" "tool_step s s' \<Longrightarrow> governed s'"
  "tool_step s s' \<Longrightarrow> safe_step s s'"
  by (simp_all add: tool_step_def safe_step_def)

lemma tool_audit: "tool_step s t \<Longrightarrow> tool_step s (audit pr ws a req x t)"
  unfolding tool_step_def using safe_audit governed_cong[of "audit pr ws a req x t" t] by simp

lemma tool_journal: "tool_step s t \<Longrightarrow> tool_step s (append_run_event env ws i ty p t)"
  unfolding tool_step_def
  using append_event_safe[of t] safe_trans governed_cong[of "append_run_event env ws i ty p t" t]
  by (auto simp: safe_step_def)

text \<open>A step that writes only calls and approvals.\<close>

lemma tool_only:
  assumes "run_inv s" "agent_runs s' = agent_runs s" "receipts s' = receipts s"
    "outbox s' = outbox s" "run_events s' = run_events s" "governed s'"
  shows "tool_step s s'"
  using assms safe_same_tables by (simp add: tool_step_def)

section \<open>Approvals that lapse\<close>

lemma due_approvals_member:
  "a \<in> set (due_approvals env locked p s) \<longleftrightarrow> a \<in> set (tool_approvals s) \<and> p a \<and>
    ap_status a = Pending \<and> ap_expires a \<le> tx_now env \<and> \<not> locked (ap_id a)"
  by (auto simp: due_approvals_def)

lemma due_approvals_distinct:
  assumes "governed s"
  shows "distinct (map ap_id (due_approvals env locked p s))"
  using governedD(2)[OF assms] distinct_map_filter_key[of ap_id "tool_approvals s"]
  by (auto simp: due_approvals_def distinct_map)

definition still_pending :: "approval_row list \<Rightarrow> db \<Rightarrow> bool" where
  "still_pending as s \<longleftrightarrow> distinct (map ap_id as) \<and>
    (\<forall>a \<in> set as. a \<in> set (tool_approvals s) \<and> ap_status a = Pending)"

lemma due_still_pending: "governed s \<Longrightarrow> still_pending (due_approvals env locked p s) s"
  by (simp add: still_pending_def due_approvals_distinct due_approvals_member)

lemma still_pending_take: "still_pending as s \<Longrightarrow> still_pending (take n as) s"
  unfolding still_pending_def take_map[symmetric]
  by (auto dest: in_set_takeD distinct_take)

lemma sql_update_twice:
  assumes "\<And>x. q x \<Longrightarrow> \<not> p (f x)"
  shows "sql_update p f (sql_update q f t) = sql_update (\<lambda>x. q x \<or> p x) f t"
  using assms by (induction t) simp_all

lemma cancel_approvals_step:
  assumes "run_inv s" and "governed s" and "still_pending as s" and "st = Expired \<or> st = ApprovalCancelled"
  shows "\<exists>s'. cancel_approvals env as st ev s = Inr s' \<and> tool_step s s' \<and>
    tool_approvals s' = sql_update (\<lambda>x. ap_id x \<in> ap_id ` set as \<and> ap_status x = Pending)
      (\<lambda>x. x\<lparr>ap_status := st, ap_decided := Some (tx_now env)\<rparr>) (tool_approvals s)"
  using assms(1,2,3)
proof (induction as arbitrary: s)
  case Nil
  then show ?case by (simp add: tool_refl sql_update_none)
next
  case (Cons a as)
  have a: "a \<in> set (tool_approvals s)" "ap_status a = Pending"
    using Cons.prems(3) by (simp_all add: still_pending_def)
  obtain t where t: "cancel_approval env a st ev s = Inr t"
    using cancel_approval_total[OF Cons.prems(1,2) a] by blast
  note step = cancel_approval_step[OF Cons.prems(1,2) a assms(4) t]
  have inv: "run_inv t" using step(1) by (simp add: safe_step_def)
  have "b \<in> set (tool_approvals t)" if b: "b \<in> set as" for b
  proof -
    have "b \<in> set (tool_approvals s)" "ap_id b \<noteq> ap_id a"
      using Cons.prems(3) b by (auto simp: still_pending_def image_iff)
    then show ?thesis unfolding step(3) set_sql_update by (intro image_eqI[of _ _ b]) simp_all
  qed
  then have "still_pending as t" using Cons.prems(3) by (simp add: still_pending_def)
  from Cons.IH[OF inv step(2) this] obtain u where u: "cancel_approvals env as st ev t = Inr u"
    "tool_step t u" "tool_approvals u = sql_update (\<lambda>x. ap_id x \<in> ap_id ` set as \<and> ap_status x = Pending)
      (\<lambda>x. x\<lparr>ap_status := st, ap_decided := Some (tx_now env)\<rparr>) (tool_approvals t)" by blast
  have "st \<noteq> Pending" using assms(4) by auto
  then have twice: "tool_approvals u = sql_update (\<lambda>x. (ap_id x = ap_id a \<and> ap_status x = Pending) \<or>
        (ap_id x \<in> ap_id ` set as \<and> ap_status x = Pending))
      (\<lambda>x. x\<lparr>ap_status := st, ap_decided := Some (tx_now env)\<rparr>) (tool_approvals s)"
    unfolding u(3) step(3) by (intro sql_update_twice) simp
  have "tool_approvals u = sql_update (\<lambda>x. ap_id x \<in> ap_id ` set (a # as) \<and> ap_status x = Pending)
      (\<lambda>x. x\<lparr>ap_status := st, ap_decided := Some (tx_now env)\<rparr>) (tool_approvals s)"
    unfolding twice list.set image_insert insert_iff conj_disj_distribR by (rule refl)
  with t u step tool_trans[OF tool_stepI[OF step(1,2)] u(2)] show ?case by simp
qed

lemma cancel_approvals_safe:
  assumes "run_inv s" and "governed s" and "still_pending as s"
    and ok: "cancel_approvals env as Expired ev s = Inr s'"
  shows "tool_step s s'"
    "tool_approvals s' = sql_update (\<lambda>x. ap_id x \<in> ap_id ` set as \<and> ap_status x = Pending)
      (\<lambda>x. x\<lparr>ap_status := Expired, ap_decided := Some (tx_now env)\<rparr>) (tool_approvals s)"
  using cancel_approvals_step[OF assms(1,2,3) disjI1[OF refl], of env ev] unfolding ok by simp_all

lemma expire_due_safe:
  assumes "run_inv s" and "governed s" and ok: "expire_due env locked limit s = Inr (n, s')"
  shows "tool_step s s'"
proof -
  have "cancel_approvals env (take (nat limit) (due_approvals env locked (\<lambda>_. True) s)) Expired
      ''tool.approval_expired'' s = Inr s'"
    using ok by (auto simp: expire_due_def Let_def split: if_splits)
  then show ?thesis
    by (rule cancel_approvals_safe(1)[OF assms(1,2) still_pending_take[OF due_still_pending[OF assms(2)]]])
qed

lemma expire_due_total:
  assumes "run_inv s" and "governed s" and "1 \<le> limit" and "limit \<le> 500"
  shows "\<exists>s'. expire_due env locked limit s =
      Inr (length (take (nat limit) (due_approvals env locked (\<lambda>_. True) s)), s')"
proof -
  obtain t where "cancel_approvals env (take (nat limit) (due_approvals env locked (\<lambda>_. True) s)) Expired
      ''tool.approval_expired'' s = Inr t"
    using cancel_approvals_step[OF assms(1,2) still_pending_take[OF due_still_pending[OF assms(2)]]
        disjI1[OF refl]] by blast
  then show ?thesis using assms(3,4) by (simp add: expire_due_def Let_def)
qed

lemma list_approvals_safe:
  assumes "run_inv s" and "governed s" and ok: "list_approvals env locked pr ws n c st s = Inr (as, s')"
  shows "tool_step s s'"
proof -
  have "cancel_approvals env (due_approvals env locked (\<lambda>a. ap_workspace a = ws) s) Expired
      ''tool.approval_expired'' s = Inr s'"
    using ok by (auto simp: list_approvals_def)
  then show ?thesis
    by (rule cancel_approvals_safe(1)[OF assms(1,2) due_still_pending[OF assms(2)]])
qed

section \<open>Cancelling the tools of a run\<close>

lemma cancel_waiting_tools_governed:
  assumes gov: "governed s" and ok: "cancel_waiting_tools env run s = Inr s'"
  shows "governed s'"
proof -
  have "tool_calls s' = sql_update (\<lambda>c. c_run c = run \<and> c_status c \<in> {Planned, PendingApproval, CallApproved})
        (\<lambda>c. c\<lparr>c_status := CallCancelled, c_error := Some ''run_cancelled'',
               c_finished := Some (tx_now env), c_updated := tx_now env\<rparr>) (tool_calls s)"
    "tool_approvals s' = sql_update (\<lambda>a. ap_run a = run \<and> ap_status a = Pending)
        (\<lambda>a. a\<lparr>ap_status := ApprovalCancelled, ap_decided := Some (tx_now env)\<rparr>) (tool_approvals s)"
    using ok by (auto simp: cancel_waiting_tools_def update_approvals_Inr update_calls_Inr)
  note tabs = this
  show ?thesis
  proof (rule governed_update[OF gov tabs(1) _ tabs(2)])
    fix c x
    assume "agrees (c_status c) (map_option ap_status x)"
      and "\<And>a. x = Some a \<Longrightarrow> a \<in> set (tool_approvals s) \<and> approves a c"
    then show "agrees (c_status (if c_run c = run \<and> c_status c \<in> {Planned, PendingApproval, CallApproved}
          then c\<lparr>c_status := CallCancelled, c_error := Some ''run_cancelled'',
               c_finished := Some (tx_now env), c_updated := tx_now env\<rparr> else c))
        (map_option (\<lambda>a. ap_status (if ap_run a = run \<and> ap_status a = Pending
          then a\<lparr>ap_status := ApprovalCancelled, ap_decided := Some (tx_now env)\<rparr> else a)) x)"
      by (cases x) (auto simp: approves_def elim!: agrees_someE)
  qed (simp_all add: call_frame_def approval_frame_def)
qed

lemma cancel_run_governed:
  assumes gov: "governed s" and ok: "cancel_run env pr ws i req s = Inr (v, s')"
  shows "governed s'"
proof -
  have written: "governed (audit pr ws a req None (append_run_event env ws i ty p s2))"
    if t: "cancel_waiting_tools env i s = Inr s1" and u: "update_run env i f s1 = Inr s2" for s1 s2 f a ty p
    using cancel_waiting_tools_governed[OF gov t] update_run_tables(11,12)[OF u]
      governed_cong[of "audit pr ws a req None (append_run_event env ws i ty p s2)" s1] by simp
  from ok show ?thesis
    by (cases rule: cancel_run_cases) (use gov written cancel_waiting_tools_governed[OF gov] in auto)
qed

section \<open>Decisions\<close>

lemma find_approval_update:
  assumes "tool_approvals s' = sql_update q g (tool_approvals s)" and "approval_frame g"
  shows "find_approval i s' = map_option (\<lambda>a. if q a then g a else a) (find_approval i s)"
  unfolding find_approval_def assms(1) using assms(2)
  by (intro find_sql_update) (simp add: approval_frame_def)

lemma reread_approval_Inr:
  "reread_approval i s = Inr (x, s') \<longleftrightarrow> s' = s \<and> find_approval i s = Some x"
  by (auto simp: reread_approval_def split: option.splits)

text \<open>The two writes a decision starts with, for either outcome.\<close>

lemma decision_writes:
  assumes inv: "run_inv s" and gov: "governed s" and a: "a \<in> set (tool_approvals s)" "ap_status a = Pending"
    and s1: "update_approvals (\<lambda>x. ap_id x = ap_id a) (decided_by env pr ast) s = Inr s1"
    and s2: "update_calls (\<lambda>c. c_id c = ap_call a) f s1 = Inr s2"
    and f: "call_frame f" "\<And>c. c_status (f c) = cst" and agr: "agrees cst (Some ast)"
  shows "tool_step s s2" "agent_runs s2 = agent_runs s" "outbox s2 = outbox s" "receipts s2 = receipts s"
    "find_approval (ap_id a) s2 = Some (decided_by env pr ast a)"
proof -
  have tabs: "tool_calls s2 = sql_update (\<lambda>c. c_id c = ap_call a) f (tool_calls s)"
    "tool_approvals s2 = sql_update (\<lambda>x. ap_id x = ap_id a) (decided_by env pr ast) (tool_approvals s)"
    and "agent_runs s2 = agent_runs s" "outbox s2 = outbox s" "receipts s2 = receipts s"
    using s1 s2 by (auto simp: update_approvals_Inr update_calls_Inr)
  then show "agent_runs s2 = agent_runs s" "outbox s2 = outbox s" "receipts s2 = receipts s" by simp_all
  have "governed s2"
    by (rule pending_pair_governed[OF gov a f approval_frames(2) _ agr _ _ _ _ tabs]) simp_all
  with tool_writes_safe(1)[OF inv s1 s2] show "tool_step s s2" by (rule tool_stepI)
  have "find_approval (ap_id a) s = Some a" using a(1) gov by (simp add: find_approval_unique)
  then show "find_approval (ap_id a) s2 = Some (decided_by env pr ast a)"
    using find_approval_update[OF tabs(2) approval_frames(2), of "ap_id a"] by simp
qed

lemma decision_writes_total:
  assumes gov: "governed s" and a: "a \<in> set (tool_approvals s)" "ap_status a = Pending"
    and f: "\<And>c. c_status (f c) = cst" "call_transition_ok PendingApproval cst"
  shows "\<exists>s1 s2. update_approvals (\<lambda>x. ap_id x = ap_id a) (decided_by env pr ast) s = Inr s1 \<and>
    update_calls (\<lambda>c. c_id c = ap_call a) f s1 = Inr s2"
proof -
  have one: "x = a" if "x \<in> set (tool_approvals s)" "ap_id x = ap_id a" for x
    using that a(1) governedD(2)[OF gov] by (auto simp: distinct_map dest: inj_onD)
  have "approval_update_ok x (decided_by env pr ast x)"
    if "x \<in> set (tool_approvals s)" "ap_id x = ap_id a" for x
    using one[OF that] a(2) by (simp add: approval_decision_ok)
  then obtain s1 where s1: "update_approvals (\<lambda>x. ap_id x = ap_id a) (decided_by env pr ast) s = Inr s1"
    by (auto simp: update_approvals_Inr)
  have "c_status c = PendingApproval" if c: "c \<in> set (tool_calls s)" "c_id c = ap_call a" for c
  proof -
    have "approval_for_call (c_id c) s = Some a" using a(1) c(2) gov by (simp add: approval_for_call_unique)
    with governedD(5)[OF gov c(1)] a(2) show ?thesis by (simp add: approval_status_of_def)
  qed
  then obtain s2 where "update_calls (\<lambda>c. c_id c = ap_call a) f s1 = Inr s2"
    using s1 f by (auto simp: update_calls_Inr update_approvals_Inr)
  with s1 show ?thesis by blast
qed

lemma find_approval_tables: "tool_approvals s' = tool_approvals s \<Longrightarrow> find_approval i s' = find_approval i s"
  by (simp add: find_approval_def)

lemma reject_approval_step:
  assumes inv: "run_inv s" and gov: "governed s" and a: "a \<in> set (tool_approvals s)" "ap_status a = Pending"
    and run: "find_run (r_id run) s = Some run" "r_status run = WaitingForApproval"
  shows "\<exists>s'. reject_approval env pr ws req a run s = Inr (decided_by env pr Rejected a, s') \<and>
    tool_step s s' \<and> has_status Cancelled (r_id run) s'"
proof -
  let ?f = "\<lambda>c. c\<lparr>c_status := CallDenied, c_updated := tx_now env, c_finished := Some (tx_now env)\<rparr>"
  have f: "call_frame ?f" by (simp add: call_frame_def)
  have st: "c_status (?f c) = CallDenied" for c by simp
  obtain s1 s2 where s1: "update_approvals (\<lambda>x. ap_id x = ap_id a) (decided_by env pr Rejected) s = Inr s1"
    and s2: "update_calls (\<lambda>c. c_id c = ap_call a) ?f s1 = Inr s2"
    using decision_writes_total[OF gov a, where f = ?f and cst = CallDenied and env = env and pr = pr and ast = Rejected]
    by auto
  have agr: "agrees CallDenied (Some Rejected)" by simp
  note w = decision_writes[OF inv gov a s1 s2 f st agr]
  have inv2: "run_inv s2" using w(1) by (rule tool_stepD)
  have run2: "find_run (r_id run) s2 = Some run" using run(1) w(2) by (simp add: find_run_def)
  have live: "\<not> terminal (r_status run)" using run(2) by simp
  obtain s3 where s3: "cancel_governed_run env run ''tool.rejected''
      [(''approval_id'', JStr (uuid_str (ap_id a)))] s2 = Inr s3"
    using cancel_governed_run_total[OF inv2 run2 live] by blast
  note c = cancel_governed_run_step[OF inv2 run2 live s3]
  have "tool_step s2 s3"
    using c(1) governed_cong[OF c(2,3)] tool_stepD(2)[OF w(1)] by (simp add: tool_step_def)
  with w(1) have step: "tool_step s s3" by (rule tool_trans)
  let ?s4 = "audit pr ws ''tool.approval_rejected'' req (Some (uuid_str (ap_call a))) s3"
  have "find_approval (ap_id a) ?s4 = Some (decided_by env pr Rejected a)"
    using w(5) c(3) find_approval_tables[of ?s4 s2] by simp
  moreover have "has_status Cancelled (r_id run) ?s4"
    using c(4) by (simp add: has_status_def find_run_def)
  ultimately show ?thesis
    using s1 s2 s3 tool_audit[OF step]
    by (intro exI[of _ ?s4]) (simp add: reject_approval_def reread_approval_Inr)
qed

lemma excl_requeue: "excl_run run ps \<Longrightarrow> r_status run \<in> {Queued, WaitingForApproval} \<Longrightarrow> excl_run (requeue env run) ps"
  by (auto simp: excl_run_def requeue_def)

lemma accept_approval_step:
  assumes inv: "run_inv s" and gov: "governed s" and a: "a \<in> set (tool_approvals s)" "ap_status a = Pending"
    and run: "find_run (r_id run) s = Some run" "r_status run = WaitingForApproval"
    and fresh: "\<forall>x \<in> set (outbox s). o_id x \<noteq> tx_uuid env 0"
  shows "\<exists>s'. accept_approval env pr ws req a run s = Inr (decided_by env pr Approved a, s') \<and>
    tool_step s s' \<and> has_status Queued (r_id run) s' \<and> job_ready (r_id run) s'"
proof -
  let ?f = "\<lambda>c. c\<lparr>c_status := CallApproved, c_updated := tx_now env\<rparr>"
  have f: "call_frame ?f" by (simp add: call_frame_def)
  have st: "c_status (?f c) = CallApproved" for c by simp
  obtain s1 s2 where s1: "update_approvals (\<lambda>x. ap_id x = ap_id a) (decided_by env pr Approved) s = Inr s1"
    and s2: "update_calls (\<lambda>c. c_id c = ap_call a) ?f s1 = Inr s2"
    using decision_writes_total[OF gov a, where f = ?f and cst = CallApproved and env = env and pr = pr and ast = Approved]
    by auto
  have agr: "agrees CallApproved (Some Approved)" by simp
  note w = decision_writes[OF inv gov a s1 s2 f st agr]
  have inv2: "run_inv s2" using w(1) by (rule tool_stepD)
  have run2: "find_run (r_id run) s2 = Some run" using run(1) w(2) by (simp add: find_run_def)
  have check: "run_row_check (requeue env run)" "run_transition_ok (r_status run) (r_status (requeue env run))"
    using run_invD(6)[OF inv] find_run_SomeD[OF run(1)] run(2)
    by (auto simp: run_row_check_def requeue_def)
  obtain s3 where s3: "update_run env (r_id run) (requeue env) s2 = Inr s3"
    using run2 check by (simp add: update_run_def)
  note t3 = update_run_tables[OF s3]
  have safe3: "safe_step s2 s3"
    using run(2) by (intro plain_update_safe[OF inv2 s3 run2 write_ids(1) run_le_requeue]) (auto intro: excl_requeue)
  then have step3: "tool_step s2 s3"
    using governed_cong[of s3 s2] t3 tool_stepD(2)[OF w(1)] by (simp add: tool_step_def)
  let ?s4 = "append_run_event env ws (r_id run) ''run.resumed''
                 [(''approval_id'', JStr (uuid_str (ap_id a)))]
                 (append_run_event env ws (r_id run) ''tool.approved''
                   [(''tool_call_id'', JStr (uuid_str (ap_call a))),
                    (''approval_id'', JStr (uuid_str (ap_id a)))] s3)"
  have step4: "tool_step s ?s4"
    by (intro tool_journal tool_trans[OF w(1) step3])
  have found3: "find_run (r_id run) s3 = Some (requeue env run)"
    using find_run_after_update[OF s3 write_ids(1), of "r_id run"] run2 by simp
  let ?ob = "outbox_job env 0 (tx_now env) run"
  let ?s5 = "?s4\<lparr>outbox := outbox ?s4 @ [?ob]\<rparr>"
  have s5: "insert_outbox ?ob ?s4 = Inr ?s5"
    using fresh w(3) t3 by (simp add: insert_outbox_Inr)
  have "safe_step ?s4 ?s5"
    using insert_outbox_safe[OF tool_stepD(1)[OF step4] s5, of "requeue env run"] found3 by simp
  then have "tool_step ?s4 ?s5"
    using tool_stepD(2)[OF step4] governed_cong[of ?s5 ?s4] by (simp add: tool_step_def)
  with step4 have step5: "tool_step s ?s5" by (rule tool_trans)
  let ?s6 = "audit pr ws ''tool.approval_approved'' req (Some (uuid_str (ap_call a))) ?s5"
  have "find_approval (ap_id a) ?s6 = Some (decided_by env pr Approved a)"
    using w(5) t3 find_approval_tables[of ?s6 s2] by simp
  moreover have "has_status Queued (r_id run) ?s6"
    using found3 by (simp add: has_status_def find_run_def)
  moreover have "job_ready (r_id run) ?s6" by (simp add: job_ready_def)
  ultimately show ?thesis
    using s1 s2 s3 s5 tool_audit[OF step5]
    by (intro exI[of _ ?s6]) (simp add: accept_approval_def Let_def reread_approval_Inr)
qed

lemma cancel_approval_reread:
  assumes inv: "run_inv s" and gov: "governed s" and a: "a \<in> set (tool_approvals s)" "ap_status a = Pending"
    and st: "st = Expired \<or> st = ApprovalCancelled"
  shows "\<exists>s'. bind_res (cancel_approval env a st ev s) (reread_approval (ap_id a)) =
      Inr (a\<lparr>ap_status := st, ap_decided := Some (tx_now env)\<rparr>, s') \<and> tool_step s s'"
proof -
  obtain t where t: "cancel_approval env a st ev s = Inr t"
    using cancel_approval_total[OF inv gov a] by blast
  note c = cancel_approval_step[OF inv gov a st t]
  have "find_approval (ap_id a) s = Some a" using a(1) gov by (simp add: find_approval_unique)
  then have "find_approval (ap_id a) t = Some (a\<lparr>ap_status := st, ap_decided := Some (tx_now env)\<rparr>)"
    using find_approval_update[OF c(3) approval_frames(1), of "ap_id a"] a(2) by simp
  with t tool_stepI[OF c(1,2)] show ?thesis by (auto simp: reread_approval_Inr)
qed

lemma accept_approval_fresh:
  assumes "accept_approval env pr ws req a run s = Inr (x, s')"
  shows "\<forall>y \<in> set (outbox s). o_id y \<noteq> tx_uuid env 0"
  using assms
  by (auto simp: accept_approval_def Let_def update_approvals_Inr update_calls_Inr insert_outbox_Inr
      dest!: update_run_tables(8))

text \<open>How a decision commits, by the state of the approval and its run.\<close>

lemma decide_approval_cases [consumes 1, case_names settled lapsed rejected withdrawn accepted]:
  assumes "decide_approval env pr ws i decision req s = Inr (x, s')"
  obtains a where "a \<in> set (tool_approvals s)" "ap_id a = i" "ap_status a \<noteq> Pending" "x = a" "s' = s"
  | a where "a \<in> set (tool_approvals s)" "ap_id a = i" "ap_status a = Pending" "ap_expires a \<le> tx_now env"
      "bind_res (cancel_approval env a Expired ''tool.approval_expired'' s) (reread_approval i) = Inr (x, s')"
  | a run where "a \<in> set (tool_approvals s)" "ap_id a = i" "ap_status a = Pending"
      "tx_now env < ap_expires a" "find_run_in (ap_run a) ws s = Some run"
      "r_status run = WaitingForApproval" "decision = ''rejected''"
      "reject_approval env pr ws req a run s = Inr (x, s')"
  | a run where "a \<in> set (tool_approvals s)" "ap_id a = i" "ap_status a = Pending"
      "tx_now env < ap_expires a" "find_run_in (ap_run a) ws s = Some run"
      "r_status run = WaitingForApproval" "decision \<noteq> ''rejected''"
      "invalidate_approval env a s = Inr (x, s')"
  | a c t run where "a \<in> set (tool_approvals s)" "ap_id a = i" "ap_status a = Pending"
      "tx_now env < ap_expires a" "find_run_in (ap_run a) ws s = Some run"
      "r_status run = WaitingForApproval" "decision \<noteq> ''rejected''"
      "find_call (ap_call a) s = Some c" "tool_of_call c s = Some t"
      "contract_of t = Inr (ap_contract_hash a)" "c_contract_hash c = ap_contract_hash a"
      "t_enabled t" "effective_policy (policy_of t s) (t_side_effect t) \<noteq> Deny"
      "accept_approval env pr ws req a run s = Inr (x, s')"
proof -
  from assms obtain a c t where a: "find (\<lambda>a. ap_workspace a = ws \<and> ap_id a = i) (tool_approvals s) = Some a"
    and c: "find_call (ap_call a) s = Some c" and t: "tool_of_call c s = Some t"
    by (auto simp: decide_approval_def split: option.splits)
  have mem: "a \<in> set (tool_approvals s)" "ap_id a = i" using find_SomeD[OF a] by simp_all
  note ok = assms[unfolded decide_approval_def a c t option.case bind_res_Inr]
  show thesis
  proof (cases "ap_status a = Pending")
    case False
    with ok mem show ?thesis by (intro that(1)) auto
  next
    case pend: True
    show ?thesis
    proof (cases "ap_expires a \<le> tx_now env")
      case True
      with ok mem pend show ?thesis by (intro that(2)) auto
    next
      case live: False
      with ok pend obtain run where run: "find_run_in (ap_run a) ws s = Some run"
        by (auto split: option.splits)
      from ok pend live run have wait: "r_status run = WaitingForApproval" by (auto split: if_splits)
      show ?thesis
      proof (cases "decision = ''rejected''")
        case True
        with ok pend live run wait mem show ?thesis by (intro that(3)) auto
      next
        case False
        with ok pend live run wait obtain h where h: "contract_of t = Inr h"
          "invalidate_approval env a s = Inr (x, s') \<or> ap_contract_hash a = c_contract_hash c \<and>
            ap_contract_hash a = h \<and> t_enabled t \<and>
            effective_policy (policy_of t s) (t_side_effect t) \<noteq> Deny \<and>
            accept_approval env pr ws req a run s = Inr (x, s')"
          by (auto split: if_splits sum.splits err.splits)
        then show ?thesis
        proof (elim disjE conjE)
          assume "invalidate_approval env a s = Inr (x, s')"
          with False live run wait mem pend show ?thesis by (intro that(4)) auto
        next
          assume "ap_contract_hash a = c_contract_hash c" "ap_contract_hash a = h" "t_enabled t"
            "effective_policy (policy_of t s) (t_side_effect t) \<noteq> Deny"
            "accept_approval env pr ws req a run s = Inr (x, s')"
          with False live run wait mem pend c t h(1) show ?thesis by (intro that(5)[of a run c t]) auto
        qed
      qed
    qed
  qed
qed

lemma decide_approval_safe:
  assumes inv: "run_inv s" and gov: "governed s"
    and ok: "decide_approval env pr ws i decision req s = Inr (x, s')"
  shows "tool_step s s'"
  using ok
proof (cases rule: decide_approval_cases)
  case (settled a)
  then show ?thesis using tool_refl[OF inv gov] by simp
next
  case (lapsed a)
  show ?thesis
    using cancel_approval_reread[OF inv gov lapsed(1,3) disjI1[OF refl], of env "''tool.approval_expired''"]
    unfolding lapsed(2,5) by auto
next
  case (rejected a run)
  note r = find_run_inD[OF inv rejected(5)]
  have "find_run (r_id run) s = Some run" using r by simp
  from reject_approval_step[OF inv gov rejected(1,3) this rejected(6), of env pr ws req]
  show ?thesis unfolding rejected(8) by auto
next
  case (withdrawn a run)
  show ?thesis
    using cancel_approval_reread[OF inv gov withdrawn(1,3) disjI2[OF refl], of env "''tool.approval_invalidated''"]
    unfolding withdrawn(8)[unfolded invalidate_approval_def] by auto
next
  case (accepted a c t run)
  note r = find_run_inD[OF inv accepted(5)]
  have "find_run (r_id run) s = Some run" using r by simp
  from accept_approval_step[OF inv gov accepted(1,3) this accepted(6) accept_approval_fresh[OF accepted(14)],
      of pr ws req]
  show ?thesis unfolding accepted(14) by auto
qed

end
