(* ===== verification/Call_Safety.thy ===== *)
theory Call_Safety
  imports Tool_Safety
begin

text \<open>
  The transactions of one tool call: planning it, starting it and finishing it keep both
  invariants, and none of them is rejected by a transition trigger.
\<close>

section \<open>One call changes its status\<close>

lemma call_update_governed:
  assumes gov: "governed s"
    and tabs: "tool_calls s' = sql_update (\<lambda>x. c_id x = i) f (tool_calls s)"
      "tool_approvals s' = tool_approvals s"
    and f: "call_frame f"
    and agr: "\<And>c. c \<in> set (tool_calls s) \<Longrightarrow> c_id c = i \<Longrightarrow>
      agrees (c_status (f c)) (approval_status_of i s)"
  shows "governed s'"
proof (rule governed_update[OF gov tabs(1) f _ approval_frame_id(2)])
  show "tool_approvals s' = sql_update (\<lambda>_. False) (\<lambda>x. x) (tool_approvals s)"
    by (simp add: tabs(2) sql_update_none)
qed (use agr in \<open>auto simp: approval_status_of_def option.map_comp comp_def\<close>)

lemma find_callD: "find_call i s = Some c \<Longrightarrow> c \<in> set (tool_calls s) \<and> c_id c = i"
  by (auto simp: find_call_def dest: find_SomeD)

lemma only_call:
  assumes "governed s" and "c \<in> set (tool_calls s)" and "d \<in> set (tool_calls s)" and "c_id d = c_id c"
  shows "d = c"
  using assms governedD(1)[OF assms(1)] by (auto simp: distinct_map dest: inj_onD)

text \<open>The rule for one call: its new status must agree with its approval.\<close>

lemma one_call_step:
  assumes inv: "run_inv s" and gov: "governed s" and c: "c \<in> set (tool_calls s)"
    and f: "call_frame f" and agr: "agrees (c_status (f c)) (approval_status_of (c_id c) s)"
    and ok: "update_calls (\<lambda>x. c_id x = c_id c) f s = Inr s'"
  shows "tool_step s s'" "find_call (c_id c) s' = Some (f c)" "tool_approvals s' = tool_approvals s"
    "agent_runs s' = agent_runs s"
proof -
  have tabs: "tool_calls s' = sql_update (\<lambda>x. c_id x = c_id c) f (tool_calls s)"
    "tool_approvals s' = tool_approvals s" "agent_runs s' = agent_runs s" "receipts s' = receipts s"
    "outbox s' = outbox s" "run_events s' = run_events s"
    using ok by (auto simp: update_calls_Inr)
  then show "tool_approvals s' = tool_approvals s" "agent_runs s' = agent_runs s" by simp_all
  have "governed s'"
    by (rule call_update_governed[OF gov tabs(1,2) f]) (use only_call[OF gov c] agr in auto)
  then show "tool_step s s'" using tabs by (intro tool_only[OF inv]) simp_all
  have "find_call (c_id c) s = Some c" using gov c by (simp add: find_call_unique)
  moreover have "find_call (c_id c) s' =
      map_option (\<lambda>x. if c_id x = c_id c then f x else x) (find_call (c_id c) s)"
    unfolding find_call_def tabs(1) using f by (intro find_sql_update) (simp add: call_frame_def)
  ultimately show "find_call (c_id c) s' = Some (f c)" by simp
qed

lemma one_call_total:
  assumes gov: "governed s" and c: "c \<in> set (tool_calls s)"
    and tr: "call_transition_ok (c_status c) (c_status (f c))"
  shows "\<exists>s'. update_calls (\<lambda>x. c_id x = c_id c) f s = Inr s'"
  using tr only_call[OF gov c] by (auto simp: update_calls_Inr)

text \<open>What the invariant says of a call by its status.\<close>

lemma call_agrees:
  assumes "governed s" and "c \<in> set (tool_calls s)"
  shows "agrees (c_status c) (map_option ap_status (approval_for_call (c_id c) s))"
  using governedD(5)[OF assms] by (simp add: approval_status_of_def)

lemma pending_of_call:
  assumes gov: "governed s" and c: "c \<in> set (tool_calls s)" "c_status c = PendingApproval"
  obtains a where "approval_for_call (c_id c) s = Some a" "ap_status a = Pending"
  using call_agrees[OF gov c(1)] c(2)
  by (cases "approval_for_call (c_id c) s") (auto elim!: agrees_someE)

lemma settled_call_agrees:
  assumes "agrees st (map_option ap_status x)"
    and "\<And>a. x = Some a \<Longrightarrow> ap_status a \<noteq> Pending" and "live_call st"
  shows "st \<in> {Planned, CallApproved, CallRunning}" "agrees CallCancelled (map_option ap_status x)"
    "st = Planned \<Longrightarrow> x = None"
  using assms by (cases x; cases st; auto simp: live_call_def elim!: agrees_someE)+

section \<open>Starting and finishing a call\<close>

lemma mark_running_cases:
  assumes "mark_running env cid ctx s = Inr (x, s')"
  obtains run c t h s1 where "executable_run env 0 ctx s = Inr run" "find_call cid s = Some c"
    "tool_of_call c s = Some t" "c_run c = x_run ctx" "t_enabled t" "contract_of t = Inr (c_contract_hash c)"
    "effective_policy (policy_of t s) (t_side_effect t) \<noteq> Deny"
    "validate_arguments (c_arguments c) (t_input_schema t) = Inr h"
    "effective_policy (policy_of t s) (t_side_effect t) = RequireApproval \<Longrightarrow>
       approval_matches c (approval_for_call cid s)"
    "c_status c \<in> {Planned, CallApproved, CallRunning}"
    "update_calls (\<lambda>x. c_id x = cid) (start_call env) s = Inr s1"
    "x = \<lparr>te_call = cid, te_server_key = t_server_key t, te_remote_name = t_remote_name t,
       te_arguments = c_arguments c, te_output_schema = t_output_schema t\<rparr>"
    "s' = append_run_event env (c_workspace c) (c_run c) ''tool.started''
       [(''tool_call_id'', JStr (uuid_str cid)), (''attempt'', JInt (int (c_attempt c + 1)))] s1"
proof -
  from assms obtain run c t where run: "executable_run env 0 ctx s = Inr run"
    and c: "find_call cid s = Some c" and t: "tool_of_call c s = Some t"
    by (auto simp: mark_running_def split: option.splits)
  note ok = assms[unfolded mark_running_def run c t bind_res_simps option.case option.map prod.case]
  from ok obtain r where r: "c_run c = x_run ctx" "find_run_in (c_run c) (c_workspace c) s = Some r"
    by (auto split: if_splits option.splits)
  note ok2 = ok[unfolded r(2) option.case]
  from ok2 r(1) have en: "t_enabled t" by (auto split: if_splits)
  from ok2 r(1) en obtain h where ch: "contract_of t = Inr (c_contract_hash c)"
    and rest: "effective_policy (policy_of t s) (t_side_effect t) \<noteq> Deny"
    "validate_arguments (c_arguments c) (t_input_schema t) = Inr h"
    "\<not> (effective_policy (policy_of t s) (t_side_effect t) = RequireApproval \<and>
       \<not> approval_matches c (approval_for_call cid s))"
    "c_status c \<in> {Planned, CallApproved, CallRunning}"
    by (auto simp: Let_def split: if_splits)
  from ok2 r(1) en ch rest obtain s1 where
    "update_calls (\<lambda>x. c_id x = cid) (start_call env) s = Inr s1"
    "x = \<lparr>te_call = cid, te_server_key = t_server_key t, te_remote_name = t_remote_name t,
       te_arguments = c_arguments c, te_output_schema = t_output_schema t\<rparr>"
    "s' = append_run_event env (c_workspace c) (c_run c) ''tool.started''
       [(''tool_call_id'', JStr (uuid_str cid)), (''attempt'', JInt (int (c_attempt c + 1)))] s1"
    by (auto simp: Let_def split: if_splits)
  with run c t r(1) en ch rest show thesis by (intro that[of run c t h s1]) blast+
qed

text \<open>An approval that matches is approved.\<close>

lemma approval_matches_approved:
  "approval_matches c x \<Longrightarrow> \<exists>a. x = Some a \<and> ap_status a = Approved \<and>
    ap_arguments_hash a = c_arguments_hash c \<and> ap_contract_hash a = c_contract_hash c"
  by (auto simp: approval_matches_def split: option.splits)

lemma mark_running_step:
  assumes inv: "run_inv s" and gov: "governed s" and ok: "mark_running env cid ctx s = Inr (x, s')"
  shows "tool_step s s'"
    "\<exists>c. find_call cid s = Some c \<and> find_call cid s' = Some (start_call env c)"
  using ok
proof (atomize(full), cases rule: mark_running_cases)
  case (1 run c t h s1)
  note c = find_callD[OF 1(2)]
  have agr: "agrees (c_status (start_call env c)) (approval_status_of (c_id c) s)"
    using call_agrees[OF gov, of c] c 1(10)
    by (cases "approval_for_call cid s")
      (auto simp: approval_status_of_def elim!: agrees_someE)
  have upd: "update_calls (\<lambda>x. c_id x = c_id c) (start_call env) s = Inr s1" using 1(11) c by simp
  note st = one_call_step[OF inv gov _ call_frames(3) agr upd]
  show "tool_step s s' \<and> (\<exists>c. find_call cid s = Some c \<and> find_call cid s' = Some (start_call env c))"
    using st(1,2) c 1(2) tool_journal unfolding 1(13) by (auto simp: find_call_def)
qed

lemma tool_complete_success_cases:
  assumes "tool_complete_success env cid v ctx s = Inr (b, s')"
  obtains "\<not> b" "s' = s"
  | run c t s1 where "b" "executable_run env 0 ctx s = Inr run" "find_call cid s = Some c"
      "tool_of_call c s = Some t" "c_status c = CallRunning" "c_run c = x_run ctx"
      "validate_result v (t_output_schema t) = Inr ()"
      "update_calls (\<lambda>x. c_id x = cid) (finish_call env v) s = Inr s1"
      "s' = append_run_event env (c_workspace c) (c_run c) ''tool.succeeded''
         [(''tool_call_id'', JStr (uuid_str cid))] s1"
proof -
  from assms obtain run where run: "executable_run env 0 ctx s = Inr run"
    by (auto simp: tool_complete_success_def)
  note ok = assms[unfolded tool_complete_success_def run bind_res_simps]
  show thesis
  proof (cases b)
    case False
    with ok that(1) show ?thesis by (auto split: option.splits if_splits)
  next
    case True
    then obtain c t where ct: "find_call cid s = Some c" "tool_of_call c s = Some t"
      using ok by (auto split: option.splits)
    with ok True run show ?thesis by (auto split: if_splits intro!: that(2))
  qed
qed

lemma tool_complete_success_step:
  assumes inv: "run_inv s" and gov: "governed s"
    and ok: "tool_complete_success env cid v ctx s = Inr (b, s')"
  shows "tool_step s s'"
    "b \<Longrightarrow> \<exists>c. find_call cid s = Some c \<and> find_call cid s' = Some (finish_call env v c)"
  using ok
proof (atomize(full), cases rule: tool_complete_success_cases)
  case 1
  then show "tool_step s s' \<and> (b \<longrightarrow> (\<exists>c. find_call cid s = Some c \<and> find_call cid s' = Some (finish_call env v c)))"
    using tool_refl[OF inv gov] by simp
next
  case (2 run c t s1)
  note c = find_callD[OF 2(3)]
  have agr: "agrees (c_status (finish_call env v c)) (approval_status_of (c_id c) s)"
    using call_agrees[OF gov, of c] c 2(5)
    by (cases "approval_for_call cid s")
      (auto simp: approval_status_of_def elim!: agrees_someE)
  have upd: "update_calls (\<lambda>x. c_id x = c_id c) (finish_call env v) s = Inr s1" using 2(8) c by simp
  note st = one_call_step[OF inv gov _ call_frames(4) agr upd]
  show "tool_step s s' \<and> (b \<longrightarrow> (\<exists>c. find_call cid s = Some c \<and> find_call cid s' = Some (finish_call env v c)))"
    using st(1,2) c 2(3) tool_journal unfolding 2(9) by (auto simp: find_call_def)
qed

text \<open>What a failed call is set to: back to be started again, or failed.\<close>

definition failed_call :: "txenv \<Rightarrow> string \<Rightarrow> bool \<Rightarrow> bool \<Rightarrow> call_row \<Rightarrow> call_row" where
  "failed_call env code retryable approved c =
    (if retryable
     then c\<lparr>c_status := if approved then CallApproved else Planned, c_error := Some code,
            c_updated := tx_now env\<rparr>
     else c\<lparr>c_status := CallFailed, c_error := Some code, c_finished := Some (tx_now env),
            c_updated := tx_now env\<rparr>)"

lemma failed_call_frame [simp]: "call_frame (failed_call env code r a)"
  by (simp add: failed_call_def call_frame_def)

definition call_approved :: "uuid \<Rightarrow> db \<Rightarrow> bool" where
  "call_approved cid s =
    (case approval_for_call cid s of None \<Rightarrow> False | Some a \<Rightarrow> ap_status a = Approved)"

lemma tool_complete_failure_cases:
  assumes "tool_complete_failure env cid code retryable ctx s = Inr (b, s')"
  obtains "\<not> b" "s' = s"
  | run c s1 where "b" "executable_run env 0 ctx s = Inr run" "find_call cid s = Some c"
      "c_status c = CallRunning" "c_run c = x_run ctx"
      "update_calls (\<lambda>x. c_id x = cid) (failed_call env code retryable (call_approved cid s)) s = Inr s1"
      "s' = append_run_event env (c_workspace c) (c_run c)
         (if retryable then ''tool.retry_scheduled'' else ''tool.failed'')
         [(''tool_call_id'', JStr (uuid_str cid)), (''error_code'', JStr code)] s1"
proof -
  have fc: "failed_call env code True a = (\<lambda>c. c\<lparr>c_status := if a then CallApproved else Planned,
        c_error := Some code, c_updated := tx_now env\<rparr>)"
    "failed_call env code False a = (\<lambda>c. c\<lparr>c_status := CallFailed, c_error := Some code,
        c_finished := Some (tx_now env), c_updated := tx_now env\<rparr>)" for a
    by (simp_all add: failed_call_def fun_eq_iff)
  from assms obtain run where run: "executable_run env 0 ctx s = Inr run"
    by (auto simp: tool_complete_failure_def split: if_splits)
  note ok = assms[unfolded tool_complete_failure_def run bind_res_simps, folded call_approved_def fc]
  show thesis
  proof (cases b)
    case False
    with ok that(1) show ?thesis by (auto simp: Let_def split: option.splits if_splits)
  next
    case True
    then obtain c where "find_call cid s = Some c"
      using ok by (auto split: option.splits if_splits)
    with ok True run show ?thesis
      by (cases retryable) (auto simp: Let_def fc split: if_splits intro!: that(2))
  qed
qed

lemma tool_complete_failure_step:
  assumes inv: "run_inv s" and gov: "governed s"
    and ok: "tool_complete_failure env cid code retryable ctx s = Inr (b, s')"
  shows "tool_step s s'"
  using ok
proof (cases rule: tool_complete_failure_cases)
  case 1
  then show ?thesis using tool_refl[OF inv gov] by simp
next
  case (2 run c s1)
  note c = find_callD[OF 2(3)]
  have agr: "agrees (c_status (failed_call env code retryable (call_approved cid s) c)) (approval_status_of (c_id c) s)"
    using call_agrees[OF gov, of c] c 2(4)
    by (cases "approval_for_call cid s")
      (auto simp: approval_status_of_def failed_call_def call_approved_def elim!: agrees_someE)
  have upd: "update_calls (\<lambda>x. c_id x = c_id c) (failed_call env code retryable (call_approved cid s)) s = Inr s1"
    using 2(6) c by simp
  show ?thesis
    unfolding 2(7) using c by (intro tool_journal one_call_step(1)[OF inv gov _ failed_call_frame agr upd]) simp
qed

section \<open>Planning a call\<close>

text \<open>A contract that changed: the approval, if it is pending, and the live call end together.\<close>

lemma withdraw_call_step:
  assumes inv: "run_inv s" and gov: "governed s" and old: "old \<in> set (tool_calls s)"
    and ok: "withdraw_call env ctx key name t old s = Inr (p, s')"
  shows "tool_step s s'"
proof (cases "c_status old = PendingApproval")
  case True
  then obtain a where a: "approval_for_call (c_id old) s = Some a" "ap_status a = Pending"
    using pending_of_call[OF gov old] by blast
  have mem: "a \<in> set (tool_approvals s)" "ap_call a = c_id old"
    using a(1) gov by (simp_all add: approval_for_call_unique)
  from ok True a obtain s1 s2 where s1: "update_approvals (\<lambda>x. ap_id x = ap_id a)
        (\<lambda>x. x\<lparr>ap_status := ApprovalCancelled, ap_decided := Some (tx_now env)\<rparr>) s = Inr s1"
    and s2: "update_calls (\<lambda>x. c_id x = ap_call a) (cancel_call env ''tool_contract_changed'') s1 = Inr s2"
    and s': "s' = append_run_event env (x_workspace ctx) (x_run ctx) ''tool.contract_changed''
          [(''tool'', JStr name), (''call_key'', JStr key)] s2"
    using mem(2) by (auto simp: withdraw_call_def live_call_def)
  have tabs: "tool_calls s2 = sql_update (\<lambda>x. c_id x = ap_call a) (cancel_call env ''tool_contract_changed'') (tool_calls s)"
    "tool_approvals s2 = sql_update (\<lambda>x. ap_id x = ap_id a)
        (\<lambda>x. x\<lparr>ap_status := ApprovalCancelled, ap_decided := Some (tx_now env)\<rparr>) (tool_approvals s)"
    using s1 s2 by (auto simp: update_approvals_Inr update_calls_Inr)
  have agr: "agrees CallCancelled (Some ApprovalCancelled)" by simp
  have "governed s2"
    by (rule pending_pair_governed[OF gov mem(1) a(2) call_frames(1) written_status(1) approval_frames(1) _ agr _ _ _ _ tabs])
      simp_all
  with tool_writes_safe(1)[OF inv s1 s2] show ?thesis
    unfolding s' by (intro tool_journal tool_stepI)
next
  case False
  have nopend: "ap_status a \<noteq> Pending" if "approval_for_call (c_id old) s = Some a" for a
    using call_agrees[OF gov old] False that by (cases "ap_status a") auto
  from ok nopend obtain s2 where
    s2: "(if live_call (c_status old)
       then update_calls (\<lambda>x. c_id x = c_id old) (cancel_call env ''tool_contract_changed'') s
       else Inr s) = Inr s2"
    and s': "s' = append_run_event env (x_workspace ctx) (x_run ctx) ''tool.contract_changed''
          [(''tool'', JStr name), (''call_key'', JStr key)] s2"
    by (cases "approval_for_call (c_id old) s") (auto simp: withdraw_call_def)
  have "tool_step s s2"
  proof (cases "live_call (c_status old)")
    case True
    have "agrees (c_status (cancel_call env ''tool_contract_changed'' old)) (approval_status_of (c_id old) s)"
      using settled_call_agrees(2)[OF call_agrees[OF gov old] nopend True] by (simp add: approval_status_of_def)
    with s2 True show ?thesis by (intro one_call_step(1)[OF inv gov old call_frames(1)]) simp_all
  next
    case False
    with s2 show ?thesis using tool_refl[OF inv gov] by simp
  qed
  then show ?thesis unfolding s' by (rule tool_journal)
qed

text \<open>
  A new call that waits for an approval is written first and its approval after it: in between,
  everything but this call agrees.
\<close>

definition governed_but :: "uuid \<Rightarrow> db \<Rightarrow> bool" where
  "governed_but i s \<longleftrightarrow> distinct (map c_id (tool_calls s)) \<and>
    distinct (map (\<lambda>c. (c_run c, c_key c)) (tool_calls s)) \<and>
    distinct (map ap_id (tool_approvals s)) \<and> distinct (map ap_call (tool_approvals s)) \<and>
    (\<forall>a \<in> set (tool_approvals s). \<exists>c \<in> set (tool_calls s). approves a c) \<and>
    (\<forall>c \<in> set (tool_calls s). c_id c \<noteq> i \<longrightarrow> agrees (c_status c) (approval_status_of (c_id c) s)) \<and>
    approval_for_call i s = None"

lemma governed_but_cong:
  "tool_calls s' = tool_calls s \<Longrightarrow> tool_approvals s' = tool_approvals s \<Longrightarrow>
    governed_but i s' = governed_but i s"
  by (simp add: governed_but_def approval_status_of_def approval_for_call_def)

lemma governed_butI: "governed s \<Longrightarrow> approval_for_call i s = None \<Longrightarrow> governed_but i s"
  by (simp add: governed_but_def governed_def)

lemma governed_of_but:
  assumes "governed_but i s"
    and "\<And>c. c \<in> set (tool_calls s) \<Longrightarrow> c_id c = i \<Longrightarrow> agrees (c_status c) None"
  shows "governed s"
  using assms by (auto simp: governed_but_def governed_def approval_status_of_def)

lemma insert_call_but:
  assumes gov: "governed s" and ok: "insert_call c s = Inr s'"
  shows "governed_but (c_id c) s'"
proof -
  have new: "\<forall>x \<in> set (tool_calls s). c_id x \<noteq> c_id c"
    "\<forall>x \<in> set (tool_calls s). \<not> (c_run x = c_run c \<and> c_key x = c_key c)"
    and s': "tool_calls s' = tool_calls s @ [c]" "tool_approvals s' = tool_approvals s"
    using ok by (auto simp: insert_call_Inr)
  have st: "approval_for_call i s' = approval_for_call i s" for i
    by (simp add: approval_for_call_def s'(2))
  have "\<forall>a \<in> set (tool_approvals s). ap_call a \<noteq> c_id c"
    using governedD(4)[OF gov] new(1) by (auto simp: approves_def) metis
  then have "approval_for_call (c_id c) s = None"
    by (auto simp: approval_for_call_def find_None_iff)
  then show ?thesis
    using gov new unfolding governed_but_def governed_def approval_status_of_def st
    by (auto simp: s')
qed

lemma create_approval_step:
  assumes inv: "run_inv s" and but: "governed_but i s" and c: "find_call i s = Some c"
    and run: "c_run c = r_id run" and hash: "c_arguments_hash c = h"
    and ok: "create_approval env k run i t args h reason s = Inr (p, s')"
  shows "safe_step s s'" "governed s'"
proof -
  let ?f = "\<lambda>x. x\<lparr>c_status := PendingApproval, c_policy := RequireApproval, c_updated := tx_now env\<rparr>"
  let ?a = "new_approval env (tx_uuid env k) run i t args h (c_contract_hash c) reason"
  from ok c obtain s1 s2 where s1: "update_calls (\<lambda>x. c_id x = i) ?f s = Inr s1"
    and s2: "insert_approval ?a s1 = Inr s2" and s': "\<exists>pl. s' = append_run_event env (r_workspace run) (r_id run)
       ''tool.approval_requested'' pl s2"
    by (auto simp: create_approval_def Let_def)
  have tabs: "tool_calls s2 = sql_update (\<lambda>x. c_id x = i) ?f (tool_calls s)"
    "tool_approvals s2 = tool_approvals s @ [?a]"
    and new: "\<forall>x \<in> set (tool_approvals s). ap_id x \<noteq> ap_id ?a" "\<forall>x \<in> set (tool_approvals s). ap_call x \<noteq> i"
    using s1 s2 by (auto simp: update_calls_Inr insert_approval_Inr new_approval_def)
  have f: "call_frame ?f" by (simp add: call_frame_def)
  note ap = new_approval_def
  have keys: "map c_id (tool_calls s2) = map c_id (tool_calls s)"
    "map (\<lambda>c. (c_run c, c_key c)) (tool_calls s2) = map (\<lambda>c. (c_run c, c_key c)) (tool_calls s)"
    unfolding tabs(1) by (auto intro!: sql_update_keys)
  have found: "approval_for_call j s2 = (if j = i then Some ?a else approval_for_call j s)" for j
  proof -
    have "approval_for_call i s = None" using but by (simp add: governed_but_def)
    then show ?thesis
      by (cases "approval_for_call j s") (auto simp: approval_for_call_def tabs(2) find_append ap)
  qed
  have member: "?f c \<in> set (tool_calls s2)"
    using find_callD[OF c] unfolding tabs(1) set_sql_update by force
  have "governed s2"
    unfolding governed_def
  proof (intro conjI ballI)
    show "distinct (map c_id (tool_calls s2))" "distinct (map (\<lambda>c. (c_run c, c_key c)) (tool_calls s2))"
      "distinct (map ap_id (tool_approvals s2))" "distinct (map ap_call (tool_approvals s2))"
      using but keys new by (auto simp: governed_but_def tabs(2) ap)
    show "\<exists>d \<in> set (tool_calls s2). approves b d" if b: "b \<in> set (tool_approvals s2)" for b
    proof (cases "b = ?a")
      case True
      then have "approves b (?f c)"
        using find_callD[OF c] run hash by (simp add: approves_def ap)
      with member show ?thesis by blast
    next
      case False
      with b obtain d where d: "d \<in> set (tool_calls s)" "approves b d"
        using but by (auto simp: tabs(2) governed_but_def)
      then have "(if c_id d = i then ?f d else d) \<in> set (tool_calls s2)"
        unfolding tabs(1) set_sql_update by (rule_tac imageI)
      moreover have "approves b (if c_id d = i then ?f d else d)" using d(2) by (simp add: approves_def)
      ultimately show ?thesis by blast
    qed
    show "agrees (c_status d) (approval_status_of (c_id d) s2)" if d: "d \<in> set (tool_calls s2)" for d
    proof -
      obtain e where e: "e \<in> set (tool_calls s)" "d = (if c_id e = i then ?f e else e)"
        using d unfolding tabs(1) set_sql_update by blast
      show ?thesis
        using e but by (auto simp: approval_status_of_def found governed_but_def ap)
    qed
  qed
  moreover from s' obtain pl where pl: "s' = append_run_event env (r_workspace run) (r_id run)
       ''tool.approval_requested'' pl s2" by blast
  ultimately show "governed s'" using governed_cong[of s' s2] by simp
  have "safe_step s s2"
    using s1 s2 by (intro safe_same_tables[OF inv]) (auto simp: update_calls_Inr insert_approval_Inr)
  moreover from this have "safe_step s2 s'" unfolding pl by (intro append_event_safe) (simp add: safe_step_def)
  ultimately show "safe_step s s'" by (rule safe_trans)
qed

lemma find_keyD: "find_key run key s = Some c \<Longrightarrow> c \<in> set (tool_calls s) \<and> c_run c = run \<and> c_key c = key"
  by (auto simp: find_key_def dest: find_SomeD)

text \<open>The ways a call key that was used before is planned again.\<close>

lemma prepare_existing_cases [consumes 1, case_names replay withdrawn ended pending refused started asked execute]:
  assumes "prepare_existing env ctx run t key name args h ch eff reason old s = Inr (p, s')"
  obtains "c_status old = CallSucceeded" "p = (plan PlanReplay (c_id old) t)\<lparr>pl_result := c_result old\<rparr>" "s' = s"
  | "c_contract_hash old \<noteq> ch" "withdraw_call env ctx key name t old s = Inr (p, s')"
  | code where "c_status old \<in> {CallFailed, CallDenied, CallCancelled}" "p = deny_plan (c_id old) t code" "s' = s"
  | a where "approval_for_call (c_id old) s = Some a" "ap_status a = Pending"
      "p = (plan PlanApproval (c_id old) t)\<lparr>pl_approval := Some (ap_id a)\<rparr>" "s' = s"
  | s1 where "eff = Deny" "live_call (c_status old)" "\<And>a. approval_for_call (c_id old) s = Some a \<Longrightarrow> ap_status a \<noteq> Pending"
      "p = deny_plan (c_id old) t ''policy_denied''"
      "update_calls (\<lambda>x. c_id x = c_id old)
         (refuse_call env (if c_status old \<in> {CallApproved, CallRunning} then CallCancelled else CallDenied)) s = Inr s1"
      "s' = append_run_event env (x_workspace ctx) (x_run ctx) ''tool.denied''
         [(''tool'', JStr name), (''call_key'', JStr key)] s1"
  | "eff = RequireApproval" "c_status old \<noteq> Planned" "p = deny_plan (c_id old) t ''approval_required_after_execution_started''" "s' = s"
  | "eff = RequireApproval" "c_status old = Planned" "c_arguments_hash old = h" "c_tool old = t_id t"
      "create_approval env 0 run (c_id old) t args h reason s = Inr (p, s')"
  | "eff \<noteq> Deny" "c_arguments_hash old = h" "c_tool old = t_id t" "c_contract_hash old = ch" "live_call (c_status old)"
      "eff = RequireApproval \<Longrightarrow> call_approved (c_id old) s" "p = plan PlanExecute (c_id old) t" "s' = s"
proof -
  from assms have key: "c_tool old = t_id t" "c_arguments_hash old = h"
    by (auto simp: prepare_existing_def split: if_splits)
  note ok = assms[unfolded prepare_existing_def key]
  show thesis
  proof (cases "c_status old = CallSucceeded")
    case True
    with ok that(1) show ?thesis by simp
  next
    case notsucc: False
    show ?thesis
    proof (cases "c_contract_hash old = ch")
      case False
      with ok notsucc that(2) show ?thesis by simp
    next
      case same: True
      show ?thesis
      proof (cases "c_status old \<in> {CallFailed, CallDenied, CallCancelled}")
        case True
        with ok notsucc same that(3)[OF True] show ?thesis by (auto split: if_splits)
      next
        case live: False
        then have lc: "live_call (c_status old)"
          using notsucc by (cases "c_status old") (auto simp: live_call_def)
        note ok2 = ok[unfolded Let_def, folded call_approved_def]
        show ?thesis
        proof (cases "\<exists>a. approval_for_call (c_id old) s = Some a \<and> ap_status a = Pending")
          case True
          then obtain a where a: "approval_for_call (c_id old) s = Some a" "ap_status a = Pending" by blast
          with ok2 notsucc same live that(4)[OF a] show ?thesis by simp
        next
          case nopend: False
          then have none: "(case approval_for_call (c_id old) s of
              Some a \<Rightarrow> if ap_status a = Pending then Some a else None | None \<Rightarrow> None) = None"
            by (auto split: option.splits)
          have ok3: "(if eff = Deny then
              bind_res (update_calls (\<lambda>x. c_id x = c_id old)
                  (refuse_call env (if c_status old \<in> {CallApproved, CallRunning} then CallCancelled
                                    else CallDenied)) s) (\<lambda>s1.
                Inr (deny_plan (c_id old) t ''policy_denied'',
                  append_run_event env (x_workspace ctx) (x_run ctx) ''tool.denied''
                    [(''tool'', JStr name), (''call_key'', JStr key)] s1))
            else if eff = RequireApproval \<and> \<not> call_approved (c_id old) s then
              if c_status old \<noteq> Planned
              then Inr (deny_plan (c_id old) t ''approval_required_after_execution_started'', s)
              else create_approval env 0 run (c_id old) t args h reason s
            else Inr (plan PlanExecute (c_id old) t, s)) = Inr (p, s')"
            using ok2 notsucc same live unfolding none by (simp cong: if_cong)
          show ?thesis
          proof (cases "eff = Deny")
            case True
            with ok3 obtain s1 where "update_calls (\<lambda>x. c_id x = c_id old)
                  (refuse_call env (if c_status old \<in> {CallApproved, CallRunning} then CallCancelled
                                    else CallDenied)) s = Inr s1"
              "p = deny_plan (c_id old) t ''policy_denied''"
              "s' = append_run_event env (x_workspace ctx) (x_run ctx) ''tool.denied''
                    [(''tool'', JStr name), (''call_key'', JStr key)] s1"
              unfolding bind_res_Inr if_P[OF True] by auto
            with True lc nopend show ?thesis by (intro that(5)) auto
          next
            case nodeny: False
            show ?thesis
            proof (cases "eff = RequireApproval \<and> \<not> call_approved (c_id old) s")
              case True
              with ok3 nodeny key that(6,7) show ?thesis by (cases "c_status old = Planned") auto
            next
              case False
              with ok3 nodeny key same lc show ?thesis by (intro that(8)) (auto split: if_splits)
            qed
          qed
        qed
      qed
    qed
  qed
qed

lemma prepare_existing_step:
  assumes inv: "run_inv s" and gov: "governed s" and old: "old \<in> set (tool_calls s)"
    and run: "c_run old = r_id run"
    and ok: "prepare_existing env ctx run t key name args h ch eff reason old s = Inr (p, s')"
  shows "tool_step s s'"
  using ok
proof (cases rule: prepare_existing_cases)
  case withdrawn
  then show ?thesis by (intro withdraw_call_step[OF inv gov old])
next
  case (refused s1)
  note sc = settled_call_agrees[OF call_agrees[OF gov old] refused(3,2)]
  have agr: "agrees (c_status (refuse_call env (if c_status old \<in> {CallApproved, CallRunning} then CallCancelled else CallDenied) old))
      (approval_status_of (c_id old) s)"
    using sc by (auto simp: approval_status_of_def)
  show ?thesis
    unfolding refused(6) by (intro tool_journal one_call_step(1)[OF inv gov old call_frames(2) agr refused(5)])
next
  case asked
  have none: "approval_for_call (c_id old) s = None"
    using call_agrees[OF gov old] asked(2)
    by (cases "approval_for_call (c_id old) s") (auto elim!: agrees_someE)
  have "find_call (c_id old) s = Some old" using gov old by (simp add: find_call_unique)
  from create_approval_step[OF inv governed_butI[OF gov none] this run asked(3,5)]
  show ?thesis by (rule tool_stepI)
qed (use tool_refl[OF inv gov] in auto)

lemma new_call_fields [simp]:
  "c_id (new_call env i ws run t key args h ch st pol err fin) = i"
  "c_run (new_call env i ws run t key args h ch st pol err fin) = run"
  "c_arguments_hash (new_call env i ws run t key args h ch st pol err fin) = h"
  "c_contract_hash (new_call env i ws run t key args h ch st pol err fin) = ch"
  "c_status (new_call env i ws run t key args h ch st pol err fin) = st"
  "c_arguments (new_call env i ws run t key args h ch st pol err fin) = args"
  "c_tool (new_call env i ws run t key args h ch st pol err fin) = t_id t"
  "c_key (new_call env i ws run t key args h ch st pol err fin) = key"
  "c_workspace (new_call env i ws run t key args h ch st pol err fin) = ws"
  "c_attempt (new_call env i ws run t key args h ch st pol err fin) = 0"
  by (simp_all add: new_call_def)

lemma insert_call_find:
  assumes "insert_call c s = Inr s'"
  shows "find_call (c_id c) s' = Some c"
proof -
  have "find_call (c_id c) s = None" "tool_calls s' = tool_calls s @ [c]"
    using assms by (auto simp: insert_call_Inr find_call_def find_None_iff)
  then show ?thesis by (simp add: find_call_def find_append)
qed

lemma insert_call_step:
  assumes inv: "run_inv s" and gov: "governed s" and ok: "insert_call c s = Inr s'"
    and st: "c_status c \<noteq> PendingApproval" "c_status c \<noteq> CallApproved"
  shows "tool_step s s'"
proof -
  have but: "governed_but (c_id c) s'" by (rule insert_call_but[OF gov ok])
  have "governed s'"
  proof (rule governed_of_but[OF but])
    fix d assume "d \<in> set (tool_calls s')" "c_id d = c_id c"
    then have "d = c" using ok by (auto simp: insert_call_Inr)
    with st show "agrees (c_status d) None" by simp
  qed
  then show ?thesis
    using ok by (intro tool_only[OF inv]) (auto simp: insert_call_Inr)
qed

lemma prepare_new_step:
  assumes inv: "run_inv s" and gov: "governed s" and run: "r_id run = x_run ctx"
    and ok: "prepare_new env ctx run t key name args h ch eff reason s = Inr (p, s')"
  shows "tool_step s s'"
proof (cases "eff = RequireApproval")
  case False
  then obtain c s1 ty pl where ins: "insert_call c s = Inr s1" "c_status c = CallDenied \<or> c_status c = Planned"
    and s': "s' = append_run_event env (x_workspace ctx) (x_run ctx) ty pl s1"
    using ok by (auto simp: prepare_new_def Let_def split: if_splits)
  then show ?thesis
    unfolding s' by (intro tool_journal insert_call_step[OF inv gov ins(1)]) auto
next
  case True
  let ?c = "new_call env (tx_uuid env 0) (x_workspace ctx) (x_run ctx) t key args h ch PendingApproval
      RequireApproval None None"
  from True ok obtain s1 s2 pl where ins: "insert_call ?c s = Inr s1"
    and s2: "s2 = append_run_event env (x_workspace ctx) (x_run ctx) ''tool.call_planned'' pl s1"
    and cr: "create_approval env 1 run (tx_uuid env 0) t args h reason s2 = Inr (p, s')"
    by (auto simp: prepare_new_def Let_def)
  have safe1: "safe_step s s1"
    using ins by (intro safe_same_tables[OF inv]) (auto simp: insert_call_Inr)
  then have "safe_step s1 s2"
    unfolding s2 by (intro append_event_safe) (simp add: safe_step_def)
  with safe1 have safe2: "safe_step s s2" by (rule safe_trans)
  then have inv2: "run_inv s2" by (simp add: safe_step_def)
  have but: "governed_but (tx_uuid env 0) s2"
    using insert_call_but[OF gov ins] governed_but_cong[of s2 s1] by (simp add: s2)
  have "find_call (tx_uuid env 0) s2 = Some ?c"
    using insert_call_find[OF ins] by (simp add: s2 find_call_def)
  from create_approval_step[OF inv2 but this _ _ cr] run have "safe_step s2 s'" "governed s'" by simp_all
  with safe2 show ?thesis using safe_trans by (auto simp: tool_step_def)
qed

text \<open>The fence has checked the requester, so the denial of \<open>_denied_plan\<close> is never reached.\<close>

lemma prepare_call_cases:
  assumes "prepare_call env ctx key name args s = Inr (p, s')"
  obtains run t h ch where "call_key_ok key" "executable_run env 0 ctx s = Inr run"
    "find_tool (x_workspace ctx) name s = Some t" "validate_arguments args (t_input_schema t) = Inr h"
    "contract_of t = Inr ch"
    "(\<exists>old. find_key (x_run ctx) key s = Some old \<and>
        prepare_existing env ctx run t key name args (snd h) ch (call_policy t s) (policy_reason t s) old s = Inr (p, s')) \<or>
     find_key (x_run ctx) key s = None \<and>
        prepare_new env ctx run t key name args (snd h) ch (call_policy t s) (policy_reason t s) s = Inr (p, s')"
proof -
  from assms obtain run where key: "call_key_ok key" and run: "executable_run env 0 ctx s = Inr run"
    by (auto simp: prepare_call_def split: if_splits)
  have auth: "is_ok (authorize (member_role (x_workspace ctx) (r_issuer run) (r_subject run) s) RunAgents)"
    using executable_runD(8)[OF run] by (auto simp: is_ok_iff)
  from assms key run auth obtain t where t: "find_tool (x_workspace ctx) name s = Some t"
    by (auto simp: prepare_call_def split: option.splits)
  note ok = assms[unfolded prepare_call_def run t bind_res_simps option.case]
  from ok key auth obtain h ch where "validate_arguments args (t_input_schema t) = Inr h"
    "contract_of t = Inr ch"
    "(case find_key (x_run ctx) key s of
        Some old \<Rightarrow> prepare_existing env ctx run t key name args (snd h) ch (call_policy t s) (policy_reason t s) old s
      | None \<Rightarrow> prepare_new env ctx run t key name args (snd h) ch (call_policy t s) (policy_reason t s) s) = Inr (p, s')"
    by auto
  with key run t show thesis by (intro that[of run t h ch]) (auto split: option.splits)
qed

lemma prepare_call_step:
  assumes inv: "run_inv s" and gov: "governed s" and ok: "prepare_call env ctx key name args s = Inr (p, s')"
  shows "tool_step s s'"
  using ok
proof (cases rule: prepare_call_cases)
  case (1 run t h ch)
  have run: "r_id run = x_run ctx"
    using find_run_inD(3)[OF inv executable_runD(1)[OF 1(2)]] .
  from 1(6) show ?thesis
  proof (elim disjE exE conjE)
    fix old assume old: "find_key (x_run ctx) key s = Some old"
      and p: "prepare_existing env ctx run t key name args (snd h) ch (call_policy t s) (policy_reason t s) old s = Inr (p, s')"
    show ?thesis using find_keyD[OF old] run by (intro prepare_existing_step[OF inv gov _ _ p]) auto
  next
    assume p: "prepare_new env ctx run t key name args (snd h) ch (call_policy t s) (policy_reason t s) s = Inr (p, s')"
    show ?thesis by (rule prepare_new_step[OF inv gov run p])
  qed
qed

end
