(* ===== verification/Tool_Properties.thy ===== *)
theory Tool_Properties
  imports Call_Safety Samples
begin

text \<open>
  The properties of tool governance (\<open>tool_contracts.py\<close>, \<open>tool_repository.py\<close>), each with a concrete
  instance: a destructive tool whose call was approved by the owner of the workspace.
\<close>

section \<open>The size of a text\<close>

text \<open>A bound on the length of \<open>dumps v\<close> that does not need the text.\<close>

fun text_bound :: "json \<Rightarrow> nat"
  and text_bound_list :: "json list \<Rightarrow> nat"
  and text_bound_items :: "dict \<Rightarrow> nat" where
  "text_bound JNull = 4"
| "text_bound (JBool b) = 5"
| "text_bound (JInt i) = length (int_str i)"
| "text_bound (JFloat x r) = length r"
| "text_bound (JStr s) = 2 + 6 * length s"
| "text_bound (JArr xs) = 2 + text_bound_list xs"
| "text_bound (JObj d) = 2 + text_bound_items d"
| "text_bound_list [] = 0"
| "text_bound_list (x # xs) = Suc (text_bound x + text_bound_list xs)"
| "text_bound_items [] = 0"
| "text_bound_items ((k, v) # d) = 4 + 6 * length k + text_bound v + text_bound_items d"

lemma json_escape_length: "length (json_escape c) \<le> 6"
  by (simp add: json_escape_def Let_def)

lemma json_string_length: "length (json_string json_escape s) \<le> 2 + 6 * length s"
proof -
  have "length (concat (map json_escape s)) \<le> 6 * length s"
  proof (induction s)
    case Nil
    then show ?case by simp
  next
    case (Cons c s)
    then show ?case using json_escape_length[of c] by simp
  qed
  then show ?thesis by (simp add: json_string_def)
qed

lemma comma_sep_length: "length (comma_sep ss) \<le> sum_list (map (\<lambda>s. Suc (length s)) ss)"
  by (induction ss rule: comma_sep.induct) auto

lemma sum_list_sort_key: "sum_list (map g (sort_key k xs)) = (sum_list (map g xs) :: nat)"
  by (simp flip: sum_mset_sum_list)

lemma dumps_length:
  "length (dumps_with json_escape v) \<le> text_bound v"
  "sum_list (map (\<lambda>s. Suc (length s)) (dumps_list json_escape vs)) \<le> text_bound_list vs"
  "sum_list (map (\<lambda>(k, s). Suc (length (json_string json_escape k @ '':'' @ s))) (dumps_items json_escape d))
    \<le> text_bound_items d"
proof (induction v and vs and d rule: text_bound_text_bound_list_text_bound_items.induct)
  case (5 s)
  then show ?case using json_string_length[of s] by simp
next
  case (6 xs)
  then show ?case using comma_sep_length[of "dumps_list json_escape xs"] by simp
next
  case (7 d)
  let ?f = "\<lambda>(k, s). json_string json_escape k @ '':'' @ s"
  let ?ss = "map ?f (sort_key fst (dumps_items json_escape d))"
  have "(\<lambda>s. Suc (length s)) \<circ> ?f = (\<lambda>(k, s). Suc (length (json_string json_escape k @ '':'' @ s)))"
    by (auto simp: fun_eq_iff)
  then have "sum_list (map (\<lambda>s. Suc (length s)) ?ss) \<le> text_bound_items d"
    unfolding map_map using "7.IH" by (simp only: sum_list_sort_key)
  then show ?case using comma_sep_length[of ?ss] by simp
next
  case (11 k v d)
  then show ?case using json_string_length[of k] by simp
qed auto

lemma utf8_dumps_length: "2 * text_bound v \<le> n \<Longrightarrow> length (utf8 (dumps v)) \<le> n"
  using dumps_length(1)[of v] utf8_length_bounds[of "dumps v"] by (simp add: dumps_def)

section \<open>A governed call\<close>

definition sample_schema :: dict where
  "sample_schema =
    [(''type'', JStr ''object''),
     (''properties'', JObj [(''idempotency_key'', JObj [(''type'', JStr ''string'')]),
        (''host'', JObj [(''type'', JStr ''string''), (''maxLength'', JInt 20)])]),
     (''required'', JArr [JStr ''idempotency_key'', JStr ''host'']),
     (''additionalProperties'', JBool False)]"

definition sample_tool :: tool_row where
  "sample_tool = \<lparr>t_id = 60, t_workspace = 10, t_name = ''restart'', t_server_key = ''ops'',
     t_remote_name = ''restart'', t_description = ''restart a host'', t_input_schema = JObj sample_schema,
     t_output_schema = None, t_side_effect = Destructive, t_enabled = True, t_issuer = ''iss'',
     t_subject = ''alice'', t_created = 0, t_updated = 0\<rparr>"

definition sample_arguments :: json where
  "sample_arguments = JObj [(''idempotency_key'', JStr ''k1''), (''host'', JStr ''db'')]"

definition sample_contract_json :: json where
  "sample_contract_json = JObj [(''server_key'', JStr ''ops''), (''remote_name'', JStr ''restart''),
     (''input_schema'', JObj sample_schema), (''output_schema'', JNull), (''side_effect'', JStr ''destructive'')]"

lemma sample_sizes:
  "length (utf8 (dumps sample_contract_json)) \<le> MAX_CONTRACT_BYTES"
  "length (utf8 (dumps sample_arguments)) \<le> MAX_ARGUMENT_BYTES"
  "length (utf8 (dumps (JObj sample_schema))) \<le> MAX_SCHEMA_BYTES"
  by (rule utf8_dumps_length,
      simp add: sample_contract_json_def sample_arguments_def sample_schema_def int_str_def nat_str.simps
        MAX_CONTRACT_BYTES_def MAX_ARGUMENT_BYTES_def MAX_SCHEMA_BYTES_def)+

lemma sample_finite: "all_finite sample_contract_json" "all_finite sample_arguments" "all_finite (JObj sample_schema)"
  by code_simp+

lemma sample_contract: "contract_of sample_tool = Inr (sha256_hex (dumps sample_contract_json))"
  using sample_sizes(1) sample_finite(1)
  by (simp add: contract_of_def hash_tool_contract_def canonical_json_def sample_tool_def
      sample_contract_json_def)

lemma sample_value: "validate_value sample_arguments (JObj sample_schema) = Inr ()"
  by code_simp

lemma sample_validated:
  "validate_arguments sample_arguments (JObj sample_schema) =
    Inr (dumps sample_arguments, sha256_hex (dumps sample_arguments))"
  using sample_sizes(2) sample_finite(2) sample_value
  by (simp add: validate_arguments_def hash_arguments_def canonical_json_def)
    (simp add: sample_arguments_def)

lemma sample_node: "validate_schema_node True 0 (JObj sample_schema) = Inr ()"
  by code_simp

lemma sample_registered: "validate_registration_schema sample_schema (Some Destructive) False = Inr ()"
  using sample_sizes(3) sample_finite(3) sample_node
  by (simp add: validate_registration_schema_def canonical_json_def)
    (simp add: sample_schema_def known_keys_def INPUT_SCHEMA_KEYS_def field_or_def)

definition sample_policy :: policy_row where
  "sample_policy = \<lparr>tp_workspace = 10, tp_tool = 60, tp_decision = Allow, tp_reason = ''ok'',
     tp_issuer = ''iss'', tp_subject = ''alice'', tp_updated = 0\<rparr>"

definition sample_call :: "call_status \<Rightarrow> call_row" where
  "sample_call st = \<lparr>c_id = 61, c_workspace = 10, c_run = 20, c_tool = 60, c_key = ''step-0'',
     c_arguments = sample_arguments, c_arguments_hash = sha256_hex (dumps sample_arguments),
     c_contract_hash = sha256_hex (dumps sample_contract_json), c_status = st, c_policy = RequireApproval,
     c_result = (if st = CallSucceeded then Some (JBool True) else None), c_error = None, c_attempt = 0,
     c_created = 0, c_updated = 0, c_started = None, c_finished = None\<rparr>"

definition sample_approval :: "approval_status \<Rightarrow> approval_row" where
  "sample_approval st = \<lparr>ap_id = 62, ap_workspace = 10, ap_run = 20, ap_call = 61, ap_action = ''restart'',
     ap_arguments = sample_arguments, ap_arguments_hash = sha256_hex (dumps sample_arguments),
     ap_contract_hash = sha256_hex (dumps sample_contract_json), ap_requester_issuer = ''iss'',
     ap_requester_subject = ''alice'', ap_approver_issuer = None, ap_approver_subject = None,
     ap_status = st, ap_reason = ''risky'', ap_expires = 900000000, ap_created = 0, ap_decided = None\<rparr>"

definition with_call :: "call_status \<Rightarrow> approval_status \<Rightarrow> db \<Rightarrow> db" where
  "with_call st ast s = s\<lparr>tool_definitions := [sample_tool], tool_policies := [sample_policy],
     tool_calls := [sample_call st], tool_approvals := [sample_approval ast]\<rparr>"

definition approved_db :: db where
  "approved_db = with_call CallApproved Approved running_db"

text \<open>The same call while the run waits for the decision.\<close>

definition waiting_db :: db where
  "waiting_db = with_call PendingApproval Pending (running_db\<lparr>agent_runs :=
     [running_run\<lparr>r_status := WaitingForApproval, r_lease_owner := None, r_lease_expires := None\<rparr>],
     receipts := [running_receipt\<lparr>rc_status := RSucceeded, rc_worker := None, rc_lease_expires := None\<rparr>]\<rparr>)"

definition succeeded_db :: db where
  "succeeded_db = with_call CallSucceeded Approved running_db"

lemmas governed_defs =
  governed_def approval_status_of_def approval_for_call_def approves_def with_call_def sample_call_def
  sample_approval_def

lemma sample_governed: "governed approved_db" "governed waiting_db" "governed succeeded_db"
  by (simp_all add: governed_defs approved_db_def waiting_db_def succeeded_db_def)

lemma with_call_inv: "run_inv (with_call st ast s) = run_inv s"
  by (rule run_inv_cong) (simp_all add: with_call_def)

lemma sample_invs: "run_inv approved_db" "run_inv succeeded_db"
  by (simp_all add: approved_db_def succeeded_db_def with_call_inv running_db_inv)

lemma waiting_inv: "run_inv waiting_db"
  by (simp add: waiting_db_def with_call_inv)
    (simp add: run_inv_def keys_ok_def linked_def rows_ok_def run_row_check_def exclusive_def
      processing_def known_job_def journal_ok_def events_of_def sample_defs excl_run_def)

lemma sample_may_run:
  "member_role 10 ''iss'' ''alice'' (with_call st ast running_db) = Some Owner"
  by (simp add: member_role_def with_call_def sample_defs)

lemma sample_executable:
  "executable_run (env_at 5 200) 0 sample_context (with_call st ast running_db) = Inr running_run"
proof -
  have run: "find_run_in 20 10 (with_call st ast running_db) = Some running_run"
    "receipts (with_call st ast running_db) = [running_receipt]"
    "r_issuer running_run = ''iss''" "r_subject running_run = ''alice''"
    by (simp_all add: find_run_in_def with_call_def sample_defs)
  have "r_status running_run = Running" "r_lease_expires running_run = Some 30000000"
    "r_cancel_requested running_run = None" "r_attempt running_run = 1" "r_agent running_run = Some 30"
    "r_tenant_agent running_run = None" "r_trace running_run = 50" "r_lease_owner running_run = Some ''w1''"
    by (simp_all add: running_run_def sample_run_def)
  with run sample_may_run[of st ast] show ?thesis
    by (simp add: executable_run_def sql_exists_def sample_context_def running_receipt_def env_at_def
        authorize_def all_permissions_def)
qed

lemma sample_rows:
  "find_call 61 (with_call st ast s) = Some (sample_call st)"
  "tool_of_call (sample_call st') (with_call st ast s) = Some sample_tool"
  "approval_for_call 61 (with_call st ast s) = Some (sample_approval ast)"
  "find_tool 10 ''restart'' (with_call st ast s) = Some sample_tool"
  "find_key 20 ''step-0'' (with_call st ast s) = Some (sample_call st)"
  "policy_of sample_tool (with_call st ast s) = Some Allow"
  by (simp_all add: find_call_def tool_of_call_def approval_for_call_def find_tool_def find_key_def
      policy_of_def find_policy_def with_call_def sample_call_def sample_tool_def sample_approval_def
      sample_policy_def)

lemma sample_args_eq: "py_eq sample_arguments sample_arguments"
  by code_simp

lemma sample_marked:
  "\<exists>x s'. mark_running (env_at 5 200) 61 sample_context approved_db = Inr (x, s')"
proof -
  have run: "find_run_in 20 10 (with_call CallApproved Approved running_db) = Some running_run"
    "r_status running_run = Running" "r_issuer running_run = ''iss''" "r_subject running_run = ''alice''"
    by (simp_all add: find_run_in_def with_call_def sample_defs)
  have eff: "effective_policy (Some Allow) (t_side_effect sample_tool) = RequireApproval" "t_enabled sample_tool"
    "t_input_schema sample_tool = JObj sample_schema"
    by (simp_all add: effective_policy_def force_approval_def sample_tool_def)
  have call: "c_run (sample_call CallApproved) = 20" "c_workspace (sample_call CallApproved) = 10"
    "c_contract_hash (sample_call CallApproved) = sha256_hex (dumps sample_contract_json)"
    "c_arguments (sample_call CallApproved) = sample_arguments" "c_status (sample_call CallApproved) = CallApproved"
    "x_run sample_context = 20" "c_tool (sample_call CallApproved) = 60"
    by (simp_all add: sample_call_def sample_context_def)
  have match: "approval_matches (sample_call CallApproved) (Some (sample_approval Approved))"
    by (simp add: approval_matches_def sample_call_def sample_approval_def sample_args_eq)
  obtain s1 where upd: "update_calls (\<lambda>x. c_id x = 61) (start_call (env_at 5 200))
      (with_call CallApproved Approved running_db) = Inr s1"
    using one_call_total[of approved_db "sample_call CallApproved" "start_call (env_at 5 200)"] sample_governed(1)
    by (auto simp: approved_db_def with_call_def sample_call_def)
  show ?thesis
    by (simp add: mark_running_def approved_db_def sample_executable sample_rows run eff call match
        sample_may_run sample_contract sample_validated upd authorize_def all_permissions_def)
qed

section \<open>Starting a call\<close>

text \<open>C5: A tool call starts only under governance. When \<open>mark_running\<close> lets a call start, the run is
  running this very attempt, uncancelled, for a requester who may run agents; the tool is enabled and
  its contract is the one the call was planned with; an explicit policy allows it; the arguments fit
  the schema; and where the policy or the side effect of the tool asks for a human decision, that very
  call with those very arguments was approved under that very contract.\<close>

theorem tool_start_authorised:
  assumes "mark_running env cid ctx s = Inr (x, s')"
  shows "\<exists>c t run. find_call cid s = Some c \<and> tool_of_call c s = Some t \<and>
    find_run_in (x_run ctx) (x_workspace ctx) s = Some run \<and> c_run c = x_run ctx \<and>
    r_status run = Running \<and> r_cancel_requested run = None \<and> r_attempt run = x_attempt ctx \<and>
    is_ok (authorize (member_role (x_workspace ctx) (r_issuer run) (r_subject run) s) RunAgents) \<and>
    t_enabled t \<and> contract_of t = Inr (c_contract_hash c) \<and>
    (\<exists>p. policy_of t s = Some p \<and> p \<noteq> Deny) \<and>
    is_ok (validate_arguments (c_arguments c) (t_input_schema t)) \<and> te_arguments x = c_arguments c \<and>
    (force_approval (t_side_effect t) \<or> policy_of t s = Some RequireApproval \<longrightarrow>
      (\<exists>a. approval_for_call cid s = Some a \<and> ap_status a = Approved \<and>
         ap_arguments_hash a = c_arguments_hash c \<and> ap_contract_hash a = c_contract_hash c \<and>
         py_eq (ap_arguments a) (c_arguments c)))"
proof -
  obtain run c t h s1 where r: "executable_run env 0 ctx s = Inr run" and c: "find_call cid s = Some c"
    and t: "tool_of_call c s = Some t" "c_run c = x_run ctx" "t_enabled t"
      "contract_of t = Inr (c_contract_hash c)"
    and eff: "effective_policy (policy_of t s) (t_side_effect t) \<noteq> Deny"
    and v: "validate_arguments (c_arguments c) (t_input_schema t) = Inr h"
    and ask: "effective_policy (policy_of t s) (t_side_effect t) = RequireApproval \<Longrightarrow>
       approval_matches c (approval_for_call cid s)"
    and x: "x = \<lparr>te_call = cid, te_server_key = t_server_key t, te_remote_name = t_remote_name t,
       te_arguments = c_arguments c, te_output_schema = t_output_schema t\<rparr>"
    by (rule mark_running_cases[OF assms]) blast
  obtain p where p: "policy_of t s = Some p" "p \<noteq> Deny"
    using eff that by (cases "policy_of t s") (force simp: effective_policy_def)+
  have need: "\<exists>a. approval_for_call cid s = Some a \<and> ap_status a = Approved \<and>
         ap_arguments_hash a = c_arguments_hash c \<and> ap_contract_hash a = c_contract_hash c \<and>
         py_eq (ap_arguments a) (c_arguments c)"
    if "force_approval (t_side_effect t) \<or> policy_of t s = Some RequireApproval"
  proof -
    have "effective_policy (policy_of t s) (t_side_effect t) = RequireApproval"
      using that p by (cases p) (auto simp: effective_policy_def)
    from ask[OF this] show ?thesis by (auto simp: approval_matches_def split: option.splits)
  qed
  have may: "is_ok (authorize (member_role (x_workspace ctx) (r_issuer run) (r_subject run) s) RunAgents)"
    using executable_runD(8)[OF r] by (auto simp: is_ok_iff)
  show ?thesis
    using executable_runD[OF r] c t p v x need may by (intro exI[of _ c] exI[of _ t] exI[of _ run]) simp
qed

theorem tool_start_authorised_witness:
  "\<exists>a. approval_for_call 61 approved_db = Some a \<and> ap_status a = Approved"
proof -
  obtain x s' where "mark_running (env_at 5 200) 61 sample_context approved_db = Inr (x, s')"
    using sample_marked by blast
  from tool_start_authorised[OF this] show ?thesis
    by (auto simp: approved_db_def sample_rows force_approval_def sample_tool_def)
qed

text \<open>C27: A call key is idempotent. Planning a call under a key whose call of this run already
  succeeded changes nothing and returns the stored result of that call; any other tool or other
  arguments under the same key are refused.\<close>

theorem succeeded_call_replayed:
  assumes "find_key (x_run ctx) key s = Some old" and "c_status old = CallSucceeded"
    and "prepare_call env ctx key name args s = Inr (p, s')"
  shows "s' = s \<and> pl_action p = PlanReplay \<and> pl_call p = c_id old \<and> pl_result p = c_result old \<and>
    (\<exists>h. hash_arguments args = Inr h \<and> snd h = c_arguments_hash old)"
proof -
  obtain run t h ch where v: "validate_arguments args (t_input_schema t) = Inr h"
    and ex: "prepare_existing env ctx run t key name args (snd h) ch (call_policy t s) (policy_reason t s) old s
      = Inr (p, s')"
    by (rule prepare_call_cases[OF assms(3)]) (auto simp: assms(1))
  have "hash_arguments args = Inr h" using v by (auto simp: validate_arguments_def split: if_splits)
  with ex assms(2) show ?thesis by (auto simp: prepare_existing_def plan_def split: if_splits)
qed

theorem succeeded_call_replayed_witness:
  "\<exists>p. prepare_call (env_at 5 200) sample_context ''step-0'' ''restart'' sample_arguments succeeded_db = Inr (p, succeeded_db) \<and>
    pl_result p = Some (JBool True)"
proof -
  have ctx: "x_run sample_context = 20" "x_workspace sample_context = 10"
    "r_issuer running_run = ''iss''" "r_subject running_run = ''alice''"
    by (simp_all add: sample_context_def sample_defs)
  have call: "c_tool (sample_call CallSucceeded) = t_id sample_tool" "c_status (sample_call CallSucceeded) = CallSucceeded"
    "c_arguments_hash (sample_call CallSucceeded) = sha256_hex (dumps sample_arguments)"
    "t_input_schema sample_tool = JObj sample_schema"
    by (simp_all add: sample_call_def sample_tool_def)
  have key: "call_key_ok ''step-0''" by (simp add: call_key_ok_def call_key_char_def Let_def)
  have old: "find_key (x_run sample_context) ''step-0'' succeeded_db = Some (sample_call CallSucceeded)"
    by (simp add: succeeded_db_def sample_rows ctx)
  obtain p where ok: "prepare_call (env_at 5 200) sample_context ''step-0'' ''restart'' sample_arguments succeeded_db
      = Inr (p, succeeded_db)"
    using old by (simp add: prepare_call_def key succeeded_db_def sample_executable ctx sample_may_run
        sample_rows call sample_validated sample_contract prepare_existing_def authorize_def all_permissions_def)
  from succeeded_call_replayed[OF old call(2) ok] ok show ?thesis by (simp add: sample_call_def)
qed

text \<open>C22: An approval is decided once, before it expires, and moves the run accordingly. A decided
  approval is returned unchanged; approving one requires that it has not expired, records who approved
  it and queues its run with a job the relay can publish; rejecting one ends the run cancelled.\<close>

theorem approval_decision:
  assumes "run_inv s" and "governed s" and "find_approval i s = Some a"
    and "decide_approval env pr ws i decision req s = Inr (x, s')"
  shows "(ap_status a \<noteq> Pending \<longrightarrow> x = a \<and> s' = s) \<and>
    (ap_status a = Pending \<and> ap_status x = Approved \<longrightarrow> tx_now env < ap_expires a \<and> decision \<noteq> ''rejected'' \<and>
       x = decided_by env pr Approved a \<and> has_status Queued (ap_run a) s' \<and> job_ready (ap_run a) s') \<and>
    (ap_status a = Pending \<and> ap_status x = Rejected \<longrightarrow>
       x = decided_by env pr Rejected a \<and> has_status Cancelled (ap_run a) s') \<and>
    (ap_expires a \<le> tx_now env \<longrightarrow> ap_status a = Pending \<longrightarrow> ap_status x = Expired) \<and> ap_status x \<noteq> Pending"
proof -
  have a: "a \<in> set (tool_approvals s)" "ap_id a = i"
    using find_approval_unique[OF assms(2)] assms(3) by auto
  have uniq: "b = a" if "b \<in> set (tool_approvals s)" "ap_id b = i" for b
    using find_approval_unique[OF assms(2), of i b] that assms(3) by simp
  from assms(4) show ?thesis
  proof (cases rule: decide_approval_cases)
    case (settled b)
    with uniq show ?thesis by auto
  next
    case (lapsed b)
    with uniq have b: "b = a" by blast
    obtain t where "bind_res (cancel_approval env a Expired ''tool.approval_expired'' s) (reread_approval (ap_id a)) =
        Inr (a\<lparr>ap_status := Expired, ap_decided := Some (tx_now env)\<rparr>, t)"
      using cancel_approval_reread[OF assms(1,2), of a Expired] lapsed b by blast
    with lapsed b a(2) show ?thesis by auto
  next
    case (rejected b run)
    with uniq have b: "b = a" by blast
    note rej = rejected[unfolded b] and r = find_run_inD[OF assms(1) rejected(5)]
    from r(1,3) have run: "find_run (r_id run) s = Some run" by simp
    obtain t where t: "reject_approval env pr ws req a run s = Inr (decided_by env pr Rejected a, t)"
      "has_status Cancelled (r_id run) t"
      using reject_approval_step[OF assms(1,2) rej(1,3) run rej(6), of env pr ws req] by blast
    from rej t r(3) b show ?thesis by auto
  next
    case (withdrawn b run)
    with uniq have b: "b = a" by blast
    obtain t where "invalidate_approval env a s =
        Inr (a\<lparr>ap_status := ApprovalCancelled, ap_decided := Some (tx_now env)\<rparr>, t)"
      using cancel_approval_reread[OF assms(1,2), of a ApprovalCancelled] withdrawn b
      unfolding invalidate_approval_def by blast
    with withdrawn b show ?thesis by auto
  next
    case (accepted b c t run)
    with uniq have b: "b = a" by blast
    note acc = accepted[unfolded b] and r = find_run_inD[OF assms(1) accepted(5)]
    from r(1,3) have run: "find_run (r_id run) s = Some run" by simp
    obtain u where u: "accept_approval env pr ws req a run s = Inr (decided_by env pr Approved a, u)"
      "has_status Queued (r_id run) u" "job_ready (r_id run) u"
      using accept_approval_step[OF assms(1,2) acc(1,3) run acc(6) accept_approval_fresh[OF acc(14)], of pr ws req]
      by blast
    from acc u r(3) b show ?thesis by auto
  qed
qed

theorem approval_decision_witness:
  "\<exists>s'. decide_approval (env_at 5 300) alice 10 62 ''approved'' ''req'' waiting_db =
      Inr (decided_by (env_at 5 300) alice Approved (sample_approval Pending), s') \<and>
    has_status Queued 20 s' \<and> job_ready 20 s'"
proof -
  let ?run = "running_run\<lparr>r_status := WaitingForApproval, r_lease_owner := None, r_lease_expires := None\<rparr>"
  have a: "sample_approval Pending \<in> set (tool_approvals waiting_db)" "ap_status (sample_approval Pending) = Pending"
    "find_approval 62 waiting_db = Some (sample_approval Pending)"
    "find (\<lambda>a. ap_workspace a = 10 \<and> ap_id a = 62) (tool_approvals waiting_db) = Some (sample_approval Pending)"
    "ap_call (sample_approval Pending) = 61" "ap_run (sample_approval Pending) = 20"
    "ap_expires (sample_approval Pending) = 900000000" "ap_requester_issuer (sample_approval Pending) = ''iss''"
    "ap_requester_subject (sample_approval Pending) = ''alice''"
    "ap_contract_hash (sample_approval Pending) = sha256_hex (dumps sample_contract_json)"
    by (simp_all add: waiting_db_def with_call_def sample_approval_def find_approval_def)
  have run: "find_run_in 20 10 waiting_db = Some ?run" "find_run 20 waiting_db = Some ?run" "r_id ?run = 20"
    by (simp_all add: waiting_db_def with_call_def find_run_in_def find_run_def sample_defs)
  have alice: "issuer alice = ''iss''" "subject alice = ''alice''" by (simp_all add: alice_def)
  have role: "member_role 10 ''iss'' ''alice'' waiting_db = Some Owner" "find_workspace 10 waiting_db = Some \<lparr>w_id = 10, w_name = ''lab''\<rparr>"
    by (simp_all add: waiting_db_def with_call_def member_role_def find_workspace_def sample_defs)
  have call: "find_call 61 waiting_db = Some (sample_call PendingApproval)"
    "tool_of_call (sample_call PendingApproval) waiting_db = Some sample_tool"
    "policy_of sample_tool waiting_db = Some Allow"
    by (simp_all add: waiting_db_def sample_rows)
  have rows: "c_contract_hash (sample_call PendingApproval) = sha256_hex (dumps sample_contract_json)"
    "c_arguments (sample_call PendingApproval) = sample_arguments" "t_input_schema sample_tool = JObj sample_schema"
    "t_enabled sample_tool" "effective_policy (Some Allow) (t_side_effect sample_tool) \<noteq> Deny"
    by (simp_all add: sample_call_def sample_tool_def effective_policy_def force_approval_def)
  have fresh: "\<forall>x \<in> set (outbox waiting_db). o_id x \<noteq> tx_uuid (env_at 5 300) 0"
    by (simp add: waiting_db_def with_call_def sample_defs)
  have "r_status ?run = WaitingForApproval" by simp
  from accept_approval_step[OF waiting_inv sample_governed(2) a(1,2) run(2)[folded run(3)] this fresh]
  obtain s' where acc: "accept_approval (env_at 5 300) alice 10 ''req'' (sample_approval Pending) ?run waiting_db =
      Inr (decided_by (env_at 5 300) alice Approved (sample_approval Pending), s')" by blast
  have now: "tx_now (env_at 5 300) = 5" by (simp add: env_at_def)
  have ok: "decide_approval (env_at 5 300) alice 10 62 ''approved'' ''req'' waiting_db =
      Inr (decided_by (env_at 5 300) alice Approved (sample_approval Pending), s')"
    by (simp add: decide_approval_def scoped_def alice role a call run rows sample_contract sample_validated
        acc now authorize_def all_permissions_def)
  from approval_decision[OF waiting_inv sample_governed(2) a(3) ok] ok a(2,6) show ?thesis by simp
qed

section \<open>Arguments and contracts\<close>

text \<open>C38: A tool that changes something is only ever called with an idempotency key. The arguments
  that pass validation against the registered input schema of a tool that is not read-only are an
  object with a string \<open>idempotency_key\<close>, and have no field the schema does not declare.\<close>

theorem mutation_carries_key:
  assumes "validate_registration_schema d (Some eff) False = Inr ()" and "eff \<noteq> ReadEffect"
    and "validate_arguments args (JObj d) = Inr h"
  shows "\<exists>kvs k. args = JObj kvs \<and> map_of kvs ''idempotency_key'' = Some (JStr k) \<and>
    fst ` set kvs \<subseteq> fst ` set (the_dict (field_or d ''properties'' (JObj [])))"
proof -
  note in_schema = registered_input[OF assms(1)]
  obtain i where i: "map_of (the_dict (field_or d ''properties'' (JObj []))) ''idempotency_key'' = Some (JObj i)"
    "map_of i ''type'' = Some (JStr ''string'')"
    using registered_mutation(1)[OF assms(1,2)] by blast
  have req: "JStr ''idempotency_key'' \<in> set (the_list (field_or d ''required'' (JArr [])))"
    by (rule registered_mutation(2)[OF assms(1,2)])
  have add: "field_or d ''additionalProperties'' (JBool False) = JBool False"
    using in_schema(2) by (simp add: field_or_def)
  from assms(3) have "validate_value args (JObj d) = Inr ()"
    by (auto simp: validate_arguments_def split: if_splits)
  then obtain kvs where kvs: "args = JObj kvs"
    "\<forall>k \<in> set (the_list (field_or d ''required'' (JArr []))). map_of kvs (the_str k) \<noteq> None"
    "fst ` set kvs \<subseteq> fst ` set (the_dict (field_or d ''properties'' (JObj [])))"
    "\<forall>(k, child) \<in> set (the_dict (field_or d ''properties'' (JObj []))).
       \<forall>w. map_of kvs k = Some w \<longrightarrow> validate_value w child = Inr ()"
    by (rule validate_value_object[OF _ in_schema(1)]) (use add in blast)
  from kvs(2) req have "map_of kvs (the_str (JStr ''idempotency_key'')) \<noteq> None" by blast
  then obtain w where w: "map_of kvs ''idempotency_key'' = Some w" by auto
  have "validate_value w (JObj i) = Inr ()" using kvs(4) map_of_SomeD[OF i(1)] w by blast
  from validate_value_string[OF this i(2)] obtain k where "w = JStr k" by (cases w) auto
  with kvs w show ?thesis by blast
qed

theorem mutation_carries_key_witness:
  "\<exists>kvs k. sample_arguments = JObj kvs \<and> map_of kvs ''idempotency_key'' = Some (JStr k)"
  using mutation_carries_key[OF sample_registered _ sample_validated] by blast

text \<open>The digest of the arguments of a call does not depend on the order of its top-level fields, so a
  retry that builds the same object in another order keeps its call key and its approval.\<close>

theorem digest_field_order:
  assumes "distinct (map fst d)" and "mset d = mset e"
  shows "hash_arguments (JObj d) = hash_arguments (JObj e)"
proof -
  have items: "all_finite_items xs \<longleftrightarrow> (\<forall>kv \<in> set xs. all_finite (snd kv))" for xs
    by (induction xs) auto
  have "set d = set e" using assms(2) by (rule mset_eq_setD)
  then have "all_finite (JObj d) = all_finite (JObj e)" by (simp add: items)
  moreover have "dumps (JObj d) = dumps (JObj e)"
    unfolding dumps_def by (rule dumps_key_order[OF assms])
  ultimately show ?thesis by (simp only: hash_arguments_def canonical_json_def)
qed

theorem digest_field_order_witness:
  "hash_arguments (JObj [(''a'', JInt 1), (''b'', JNull)]) = hash_arguments (JObj [(''b'', JNull), (''a'', JInt 1)])"
  by (rule digest_field_order) simp_all

text \<open>Registration does not reject every malformed schema with a \<open>ToolContractError\<close>: a \<open>type\<close>
  that is a list or an object raises \<open>TypeError\<close> while it is checked, and a property with
  \<open>"enum": null\<close> is accepted and then makes every call that sets the property raise \<open>TypeError\<close>.\<close>

definition null_enum_schema :: dict where
  "null_enum_schema =
    [(''type'', JStr ''object''), (''properties'', JObj [(''x'', JObj [(''type'', JStr ''string''), (''enum'', JNull)])]),
     (''additionalProperties'', JBool False)]"

lemma null_enum_registered: "validate_registration_schema null_enum_schema (Some ReadEffect) False = Inr ()"
proof -
  have "length (utf8 (dumps (JObj null_enum_schema))) \<le> MAX_SCHEMA_BYTES"
    by (rule utf8_dumps_length) (simp add: null_enum_schema_def MAX_SCHEMA_BYTES_def)
  moreover have "validate_schema_node True 0 (JObj null_enum_schema) = Inr ()" by code_simp
  moreover have "all_finite (JObj null_enum_schema)" by code_simp
  ultimately show ?thesis
    by (simp add: validate_registration_schema_def canonical_json_def)
      (simp add: null_enum_schema_def known_keys_def INPUT_SCHEMA_KEYS_def)
qed

theorem malformed_schemas_raise:
  "schema_type [(''type'', JArr xs)] = Inl (TypeError ''unhashable type: list'') \<and>
   validate_registration_schema null_enum_schema (Some ReadEffect) False = Inr () \<and>
   validate_value (JObj [(''x'', JStr v)]) (JObj null_enum_schema) = Inl (TypeError ''argument is not iterable'')"
proof -
  have "validate_value (JStr v) (JObj [(''type'', JStr ''string''), (''enum'', JNull)]) =
      Inl (TypeError ''argument is not iterable'')"
    by (subst validate_value.simps) (simp add: validate_string_def Let_def get_some_def too_small_def
        too_large_def check_enum_def)
  then have "validate_value (JObj [(''x'', JStr v)]) (JObj null_enum_schema) = Inl (TypeError ''argument is not iterable'')"
    by (subst validate_value.simps) (simp add: null_enum_schema_def Let_def field_or_def known_keys_def)
  then show ?thesis using null_enum_registered by (simp add: schema_type_def)
qed

section \<open>Schemas\<close>

text \<open>The schemas nested in a schema, through the properties of an object and the items of an array.\<close>

inductive subschema :: "json \<Rightarrow> nat \<Rightarrow> json \<Rightarrow> bool" for sc where
  here: "subschema sc 0 sc"
| property: "subschema sc n (JObj d) \<Longrightarrow> map_of d ''type'' = Some (JStr ''object'') \<Longrightarrow>
    field_or d ''properties'' (JObj []) = JObj ps \<Longrightarrow> (name, child) \<in> set ps \<Longrightarrow> subschema sc (Suc n) child"
| item: "subschema sc n (JObj d) \<Longrightarrow> map_of d ''type'' = Some (JStr ''array'') \<Longrightarrow>
    map_of d ''items'' = Some i \<Longrightarrow> subschema sc (Suc n) i"

lemma validate_schema_node_obj:
  assumes "validate_schema_node r n c = Inr ()"
  obtains d t where "c = JObj d" "n \<le> MAX_SCHEMA_DEPTH" "schema_type d = Inr t"
    "known_keys d (if r then INPUT_SCHEMA_KEYS else VALUE_SCHEMA_KEYS)"
proof -
  note ok = assms[unfolded validate_schema_node.simps[of r n c]]
  from ok obtain d where d: "c = JObj d" and n: "n \<le> MAX_SCHEMA_DEPTH"
    by (cases c) (simp_all split: if_splits)
  note ok' = ok[unfolded d json.case]
  from ok' n have k: "known_keys d (if r then INPUT_SCHEMA_KEYS else VALUE_SCHEMA_KEYS)"
    by (simp split: if_splits)
  from ok' n k obtain t where "schema_type d = Inr t" by (cases "schema_type d") simp_all
  with d n k show thesis by (intro that)
qed

lemma validate_schema_node_property:
  assumes "validate_schema_node r n (JObj d) = Inr ()" and "map_of d ''type'' = Some (JStr ''object'')"
    and "field_or d ''properties'' (JObj []) = JObj ps" and "(name, child) \<in> set ps"
  shows "validate_schema_node False (Suc n) child = Inr ()"
  using assms(1)
  by (subst (asm) validate_schema_node.simps)
    (use assms(2-) in \<open>auto simp: schema_type_def split: if_splits\<close>)

lemma validate_schema_node_item:
  assumes "validate_schema_node r n (JObj d) = Inr ()" and "map_of d ''type'' = Some (JStr ''array'')"
    and "map_of d ''items'' = Some i"
  shows "validate_schema_node False (Suc n) i = Inr ()"
  using assms(1)
  by (subst (asm) validate_schema_node.simps)
    (use assms(2-) in \<open>auto simp: schema_type_def split: if_splits json.splits\<close>)

lemma subschema_validated:
  "subschema sc n c \<Longrightarrow> validate_schema_node True 0 sc = Inr () \<Longrightarrow> validate_schema_node (n = 0) n c = Inr ()"
proof (induction rule: subschema.induct)
  case here
  then show ?case by simp
next
  case (property n d ps name child)
  then show ?case using validate_schema_node_property[of "n = 0" n d ps name child] by simp
next
  case (item n d i)
  then show ?case using validate_schema_node_item[of "n = 0" n d i] by simp
qed

text \<open>Every schema nested in a registered input schema is an object of a supported type with
  supported keywords only, and the nesting is at most sixteen deep, so validating a value against it
  cannot recurse without bound.\<close>

theorem schema_nesting_bounded:
  assumes "validate_registration_schema d eff False = Inr ()" and "subschema (JObj d) n c"
  shows "n \<le> 16 \<and> (\<exists>e t. c = JObj e \<and> schema_type e = Inr t \<and> t \<in> set JSON_TYPES \<and>
    known_keys e (if n = 0 then INPUT_SCHEMA_KEYS else VALUE_SCHEMA_KEYS))"
proof -
  have "validate_schema_node (n = 0) n c = Inr ()"
    using subschema_validated[OF assms(2)] registered_input(3)[OF assms(1)] by simp
  then obtain e t where "c = JObj e" "n \<le> MAX_SCHEMA_DEPTH" "schema_type e = Inr t"
    "known_keys e (if n = 0 then INPUT_SCHEMA_KEYS else VALUE_SCHEMA_KEYS)"
    by (rule validate_schema_node_obj)
  moreover from this(3) have "t \<in> set JSON_TYPES"
    by (auto simp: schema_type_def split: option.splits json.splits if_splits)
  ultimately show ?thesis by (simp add: MAX_SCHEMA_DEPTH_def)
qed

theorem schema_nesting_bounded_witness:
  "\<exists>e t. JObj [(''type'', JStr ''string''), (''maxLength'', JInt 20)] = JObj e \<and> schema_type e = Inr t \<and>
    t \<in> set JSON_TYPES"
proof -
  have "subschema (JObj sample_schema) (Suc 0) (JObj [(''type'', JStr ''string''), (''maxLength'', JInt 20)])"
  proof (rule subschema.property[OF subschema.here])
    show "map_of sample_schema ''type'' = Some (JStr ''object'')" by (simp add: sample_schema_def)
    show "field_or sample_schema ''properties'' (JObj []) = JObj
        [(''idempotency_key'', JObj [(''type'', JStr ''string'')]),
         (''host'', JObj [(''type'', JStr ''string''), (''maxLength'', JInt 20)])]"
      by (simp add: sample_schema_def field_or_def)
  qed (rule list.set_intros(2)[OF list.set_intros(1)])
  from schema_nesting_bounded[OF sample_registered this] show ?thesis by blast
qed

section \<open>Finishing and expiring\<close>

text \<open>C26: The result of a tool call is written once. After a completion that was accepted, every
  later completion or failure report of the same call, from any worker and any attempt, is refused or
  ignored and changes nothing.\<close>

theorem result_written_once:
  assumes "run_inv s" and "governed s" and "tool_complete_success env cid v ctx s = Inr (True, s1)"
    and "tool_complete_success env' cid w ctx' s1 = Inr (b, s2) \<or>
      tool_complete_failure env' cid code retryable ctx' s1 = Inr (b, s2)"
  shows "s2 = s1 \<and> \<not> b \<and> (\<exists>c. find_call cid s1 = Some c \<and> c_status c = CallSucceeded \<and> c_result c = Some v)"
proof -
  obtain c where c: "find_call cid s1 = Some (finish_call env v c)"
    using tool_complete_success_step(2)[OF assms(1-3)] by blast
  then have st: "c_status (finish_call env v c) \<noteq> CallRunning" by simp
  from assms(4) have "s2 = s1 \<and> \<not> b"
  proof
    assume "tool_complete_success env' cid w ctx' s1 = Inr (b, s2)"
    then show ?thesis by (cases rule: tool_complete_success_cases) (use c st in auto)
  next
    assume "tool_complete_failure env' cid code retryable ctx' s1 = Inr (b, s2)"
    then show ?thesis by (cases rule: tool_complete_failure_cases) (use c st in auto)
  qed
  with c show ?thesis by (simp add: finish_call_def)
qed

definition started_db :: db where
  "started_db = with_call CallRunning Approved running_db"

theorem result_written_once_witness:
  "\<exists>s1 c. tool_complete_success (env_at 5 200) 61 (JBool True) sample_context started_db = Inr (True, s1) \<and>
    find_call 61 s1 = Some c \<and> c_status c = CallSucceeded \<and> c_result c = Some (JBool True)"
proof -
  have inv: "run_inv started_db" "governed started_db"
    by (simp add: started_db_def with_call_inv running_db_inv) (simp add: started_db_def governed_defs)
  have call: "c_status (sample_call CallRunning) = CallRunning" "c_run (sample_call CallRunning) = x_run sample_context"
    "t_output_schema sample_tool = None"
    by (simp_all add: sample_call_def sample_tool_def sample_context_def)
  have v: "validate_result (JBool True) None = Inr ()"
    by (simp add: validate_result_def canonical_json_def dumps_def utf8_def utf8_char_def MAX_RESULT_BYTES_def)
  obtain s0 where upd: "update_calls (\<lambda>x. c_id x = 61) (finish_call (env_at 5 200) (JBool True)) started_db = Inr s0"
    using one_call_total[OF inv(2), of "sample_call CallRunning" "finish_call (env_at 5 200) (JBool True)"]
    by (auto simp: started_db_def with_call_def sample_call_def)
  then obtain s1 where s1: "s1 = append_run_event (env_at 5 200) (c_workspace (sample_call CallRunning)) (c_run (sample_call CallRunning))
      ''tool.succeeded'' [(''tool_call_id'', JStr (uuid_str 61))] s0" by blast
  have one: "tool_complete_success (env_at 5 200) 61 (JBool True) sample_context started_db = Inr (True, s1)"
    using upd by (simp add: tool_complete_success_def started_db_def sample_executable sample_rows call v s1)
  have same: "agent_runs s1 = agent_runs started_db" "receipts s1 = receipts started_db" "memberships s1 = memberships started_db"
    using upd by (auto simp: s1 update_calls_Inr append_run_event_tables)
  have "executable_run (env_at 5 200) 0 sample_context s1 = Inr running_run"
    using executable_run_cong[OF same] by (simp add: started_db_def sample_executable)
  moreover obtain c where c: "find_call 61 s1 = Some (finish_call (env_at 5 200) (JBool True) c)"
    using tool_complete_success_step(2)[OF inv one] by blast
  ultimately have two: "tool_complete_failure (env_at 5 200) 61 ''late'' True sample_context s1 = Inr (False, s1)"
    by (simp add: tool_complete_failure_def)
  from result_written_once[OF inv one disjI2[OF two]] one show ?thesis by blast
qed

text \<open>Expiry is exact. One expiry pass expires precisely the pending approvals whose time has
  come and that no other transaction holds, in batches of at most the limit, and leaves every other
  approval as it was.\<close>

theorem expiry_exact:
  assumes "run_inv s" and "governed s" and "expire_due env locked limit s = Inr (n, s')"
    and "length (due_approvals env locked (\<lambda>_. True) s) \<le> nat limit" and "find_approval i s = Some a"
  shows "find_approval i s' =
    Some (if ap_status a = Pending \<and> ap_expires a \<le> tx_now env \<and> \<not> locked i
          then a\<lparr>ap_status := Expired, ap_decided := Some (tx_now env)\<rparr> else a)"
proof -
  let ?due = "due_approvals env locked (\<lambda>_. True) s"
  from assms(3,4) have ok: "cancel_approvals env ?due Expired ''tool.approval_expired'' s = Inr s'"
    by (auto simp: expire_due_def Let_def split: if_splits)
  note eff = cancel_approvals_safe(2)[OF assms(1,2) due_still_pending[OF assms(2)] ok]
  have a: "a \<in> set (tool_approvals s)" "ap_id a = i"
    using find_approval_unique[OF assms(2)] assms(5) by auto
  have "i \<in> ap_id ` set ?due \<longleftrightarrow> ap_status a = Pending \<and> ap_expires a \<le> tx_now env \<and> \<not> locked i"
  proof
    assume "i \<in> ap_id ` set ?due"
    then obtain b where b: "b \<in> set ?due" "ap_id b = i" by auto
    then have "b \<in> set (tool_approvals s)" by (simp add: due_approvals_member)
    then have "b = a" using find_approval_unique[OF assms(2), of i b] b(2) assms(5) by simp
    with b show "ap_status a = Pending \<and> ap_expires a \<le> tx_now env \<and> \<not> locked i"
      by (simp add: due_approvals_member)
  next
    assume "ap_status a = Pending \<and> ap_expires a \<le> tx_now env \<and> \<not> locked i"
    with a have "a \<in> set ?due" by (simp add: due_approvals_member)
    with a(2) show "i \<in> ap_id ` set ?due" by blast
  qed
  with a show ?thesis
    by (auto simp: find_approval_update[OF eff approval_frames(1)] assms(5))
qed

theorem expiry_exact_witness:
  "\<exists>s'. expire_due (env_at 900000000 400) (\<lambda>_. False) 100 waiting_db = Inr (1, s') \<and>
    (\<exists>a. find_approval 62 s' = Some a \<and> ap_status a = Expired)"
proof -
  have due: "due_approvals (env_at 900000000 400) (\<lambda>_. False) (\<lambda>_. True) waiting_db = [sample_approval Pending]"
    by (simp add: due_approvals_def waiting_db_def with_call_def sample_approval_def env_at_def)
  have a: "find_approval 62 waiting_db = Some (sample_approval Pending)"
    by (simp add: waiting_db_def with_call_def sample_approval_def find_approval_def)
  obtain s' where ok: "expire_due (env_at 900000000 400) (\<lambda>_. False) 100 waiting_db = Inr (1, s')"
    using expire_due_total[OF waiting_inv sample_governed(2), of 100 "env_at 900000000 400" "\<lambda>_. False"]
    by (auto simp: due)
  have "find_approval 62 s' = Some ((sample_approval Pending)\<lparr>ap_status := Expired, ap_decided := Some 900000000\<rparr>)"
    using expiry_exact[OF waiting_inv sample_governed(2) ok _ a] by (simp add: due) (simp add: sample_approval_def env_at_def)
  with ok show ?thesis by simp
qed

end
