(* ===== verification/Spend.thy ===== *)
theory Spend
  imports Workspaces
begin

text \<open>
  Spend accounting (\<open>spend.py\<close>, \<open>spend_repository.py\<close>): the price of a call, the append-only ledger,
  the budget of a workspace and the alerts of its thresholds. Costs are integers of micros. The
  calendar of the database (\<open>date_trunc('month', ...)\<close> in UTC) is a parameter. Metrics are left out.
\<close>

section \<open>Prices\<close>

definition TOKENS_PER_PRICE_UNIT :: int where "TOKENS_PER_PRICE_UNIT = 1000000"

definition MAX_PRICE_MICROS :: int where "MAX_PRICE_MICROS = 1000000000000"

definition MAX_LIMIT_MICROS :: int where "MAX_LIMIT_MICROS = 1000000000000000"

definition MAX_SOURCE_KEY_LENGTH :: nat where "MAX_SOURCE_KEY_LENGTH = 200"

definition MAX_ALERT_THRESHOLDS :: nat where "MAX_ALERT_THRESHOLDS = 5"

record model_price =
  input_rate :: int
  output_rate :: int

definition model_price :: "int \<Rightarrow> int \<Rightarrow> model_price res" where
  "model_price i r =
    (if 0 \<le> i \<and> i \<le> MAX_PRICE_MICROS \<and> 0 \<le> r \<and> r \<le> MAX_PRICE_MICROS
     then Inr \<lparr>input_rate = i, output_rate = r\<rparr>
     else Inl (ValueError ''model prices must be between 0 and 10^12 micros''))"

text \<open>\<open>-(-total // TOKENS_PER_PRICE_UNIT)\<close>, with the floor division of Python.\<close>

definition cost_micros :: "model_price \<Rightarrow> int \<Rightarrow> int \<Rightarrow> int res" where
  "cost_micros p i r =
    (if i < 0 \<or> r < 0 then Inl (ValueError ''token counts cannot be negative'')
     else Inr (- ((- (i * input_rate p + r * output_rate p)) div TOKENS_PER_PRICE_UNIT)))"

type_synonym spend_policy = "((string \<times> string) \<times> model_price) list"

definition price :: "spend_policy \<Rightarrow> string \<Rightarrow> string \<Rightarrow> model_price res" where
  "price policy provider model =
    (case map_of policy (provider, model) of
       None \<Rightarrow> Inl (SpendPricingError ''model_price_not_configured'')
     | Some p \<Rightarrow> Inr p)"

definition policy_cost :: "spend_policy \<Rightarrow> string \<Rightarrow> string \<Rightarrow> int \<Rightarrow> int \<Rightarrow> int res" where
  "policy_cost policy provider model i r = bind_res (price policy provider model) (\<lambda>p. cost_micros p i r)"

record embedding_spend =
  es_provider :: string
  es_model :: string
  es_price :: model_price

definition embedding_cost :: "embedding_spend \<Rightarrow> int \<Rightarrow> int res" where
  "embedding_cost e n = cost_micros (es_price e) n 0"

section \<open>Budget decisions\<close>

record budget_verdict =
  bd_allowed :: bool
  bd_reason :: string
  bd_limit :: "int option"
  bd_consumed :: int

definition remaining_micros :: "budget_verdict \<Rightarrow> int option" where
  "remaining_micros d = map_option (\<lambda>l. max 0 (l - bd_consumed d)) (bd_limit d)"

definition budget_decision :: "int option \<Rightarrow> enforcement option \<Rightarrow> int \<Rightarrow> budget_verdict res" where
  "budget_decision limit enf consumed =
    (if consumed < 0 then Inl (ValueError ''consumed spend cannot be negative'')
     else case (limit, enf) of
       (Some l, Some e) \<Rightarrow>
         if consumed < l then Inr \<lparr>bd_allowed = True, bd_reason = ''within_budget'', bd_limit = Some l, bd_consumed = consumed\<rparr>
         else if e = Monitor then Inr \<lparr>bd_allowed = True, bd_reason = ''monitor'', bd_limit = Some l, bd_consumed = consumed\<rparr>
         else Inr \<lparr>bd_allowed = False, bd_reason = ''exhausted'', bd_limit = Some l, bd_consumed = consumed\<rparr>
     | _ \<Rightarrow> Inr \<lparr>bd_allowed = True, bd_reason = ''no_limit'', bd_limit = None, bd_consumed = consumed\<rparr>)"

section \<open>Source keys\<close>

definition agent_step_source_key :: "uuid \<Rightarrow> nat \<Rightarrow> string" where
  "agent_step_source_key run n = ''agent-run:'' @ uuid_str run @ '':step:'' @ nat_str n"

definition judge_case_source_key :: "uuid \<Rightarrow> uuid \<Rightarrow> string" where
  "judge_case_source_key run c = ''eval-judge:'' @ uuid_str run @ '':case:'' @ uuid_str c"

definition run_retrieval_source_key :: "uuid \<Rightarrow> string" where
  "run_retrieval_source_key run = ''agent-run:'' @ uuid_str run @ '':retrieval''"

definition answer_cache_embedding_source_key :: "uuid \<Rightarrow> string" where
  "answer_cache_embedding_source_key run = ''agent-run:'' @ uuid_str run @ '':answer-cache-embedding''"

definition adhoc_retrieval_source_key :: "uuid \<Rightarrow> string" where
  "adhoc_retrieval_source_key r = ''retrieval:'' @ uuid_str r"

definition knowledge_source_key :: "uuid \<Rightarrow> string" where
  "knowledge_source_key i = ''knowledge-source:'' @ uuid_str i"

section \<open>Thresholds\<close>

text \<open>\<open>sorted(set(values))\<close>.\<close>

definition sorted_set :: "int list \<Rightarrow> int list" where
  "sorted_set xs = sort (remdups xs)"

definition normalize_thresholds :: "int list \<Rightarrow> int list res" where
  "normalize_thresholds xs =
    (let ts = sorted_set xs
     in if length ts > MAX_ALERT_THRESHOLDS then Inl (ValueError ''at most 5 alert thresholds are allowed'')
        else if list_ex (\<lambda>t. \<not> (1 \<le> t \<and> t \<le> 100)) ts
        then Inl (ValueError ''alert thresholds must be between 1 and 100 percent'')
        else Inr ts)"

definition crossed_thresholds :: "int list \<Rightarrow> int option \<Rightarrow> int \<Rightarrow> int list" where
  "crossed_thresholds ts limit consumed =
    (case limit of None \<Rightarrow> []
     | Some l \<Rightarrow> filter (\<lambda>t. t * l \<le> consumed * 100) (sorted_set ts))"

record budget_input =
  bi_limit :: int
  bi_enforcement :: enforcement
  bi_thresholds :: "int list"

text \<open>\<open>BudgetInput\<close>: the field constraints hold of the input, the thresholds are normalised.\<close>

definition validate_budget :: "int \<Rightarrow> enforcement \<Rightarrow> int list \<Rightarrow> budget_input res" where
  "validate_budget l e ts =
    (if \<not> (0 \<le> l \<and> l \<le> MAX_LIMIT_MICROS) \<or> length ts > MAX_ALERT_THRESHOLDS
     then Inl (HTTPException 422)
     else case normalize_thresholds ts of
       Inl _ \<Rightarrow> Inl (HTTPException 422)
     | Inr n \<Rightarrow> Inr \<lparr>bi_limit = l, bi_enforcement = e, bi_thresholds = n\<rparr>)"

section \<open>The accounting period\<close>

text \<open>
  \<open>month_start t\<close> is \<open>date_trunc('month', t AT TIME ZONE 'UTC') AT TIME ZONE 'UTC'\<close> and
  \<open>next_month m\<close> is \<open>m + interval '1 month'\<close>: the calendar belongs to the database.
\<close>

record calendar =
  month_start :: "time \<Rightarrow> time"
  next_month :: "time \<Rightarrow> time"

definition in_period :: "calendar \<Rightarrow> time \<Rightarrow> time \<Rightarrow> bool" where
  "in_period cal now t \<longleftrightarrow> month_start cal now \<le> t \<and> t < next_month cal (month_start cal now)"

definition period_records :: "calendar \<Rightarrow> time \<Rightarrow> uuid \<Rightarrow> db \<Rightarrow> spend_row list" where
  "period_records cal now ws s =
    filter (\<lambda>x. sp_workspace x = ws \<and> in_period cal now (sp_occurred x)) (spend_records s)"

definition period_consumption :: "calendar \<Rightarrow> time \<Rightarrow> uuid \<Rightarrow> db \<Rightarrow> int" where
  "period_consumption cal now ws s = sum_list (map sp_cost (period_records cal now ws s))"

definition load_budget :: "uuid \<Rightarrow> db \<Rightarrow> budget_row option" where
  "load_budget ws s = find (\<lambda>b. b_workspace b = ws) (spend_budgets s)"

definition period_alerts :: "calendar \<Rightarrow> time \<Rightarrow> uuid \<Rightarrow> db \<Rightarrow> alert_row list" where
  "period_alerts cal now ws s =
    sort_key al_threshold
      (filter (\<lambda>a. al_workspace a = ws \<and> al_period a = month_start cal now) (spend_alerts s))"

section \<open>Alerts\<close>

text \<open>The widths of the columns: an arithmetic result or a value that does not fit raises.\<close>

definition bigint :: "int \<Rightarrow> int res" where
  "bigint n = (if - (2 ^ 63) \<le> n \<and> n < 2 ^ 63 then Inr n else Inl (RaiseException ''bigint out of range''))"

definition int4 :: "int \<Rightarrow> int res" where
  "int4 n = (if - (2 ^ 31) \<le> n \<and> n < 2 ^ 31 then Inr n else Inl (RaiseException ''integer out of range''))"

definition new_alert :: "txenv \<Rightarrow> calendar \<Rightarrow> nat \<Rightarrow> budget_row \<Rightarrow> int \<Rightarrow> int \<Rightarrow> alert_row" where
  "new_alert env cal k b consumed t =
    \<lparr>al_id = tx_uuid env k, al_workspace = b_workspace b, al_period = month_start cal (tx_now env),
     al_threshold = t, al_limit = b_limit b, al_consumed = consumed, al_enforcement = b_enforcement b,
     al_created = tx_now env\<rparr>"

definition new_alert_job :: "txenv \<Rightarrow> alert_row \<Rightarrow> alert_outbox_row" where
  "new_alert_job env a =
    \<lparr>ao_alert = al_id a, ao_workspace = al_workspace a, ao_attempts = 0, ao_available = tx_now env,
     ao_lease_owner = None, ao_lease_expires = None, ao_delivered = None, ao_dead = None,
     ao_error = None, ao_created = tx_now env, ao_updated = tx_now env\<rparr>"

text \<open>
  The crossed thresholds in the order of the array, each inserted unless its alert exists;
  \<open>k\<close> counts the identifiers drawn from \<open>gen_random_uuid()\<close>.
\<close>

fun raise_alerts ::
    "txenv \<Rightarrow> calendar \<Rightarrow> budget_row \<Rightarrow> int \<Rightarrow> nat \<Rightarrow> int list \<Rightarrow> db \<Rightarrow> (int list \<times> db) res" where
  "raise_alerts env cal b consumed k [] s = Inr ([], s)"
| "raise_alerts env cal b consumed k (t # ts) s =
    (let a = new_alert env cal k b consumed t
     in if \<not> t * b_limit b \<le> consumed * 100 \<or>
           sql_exists (\<lambda>x. al_workspace x = b_workspace b \<and> al_period x = al_period a \<and> al_threshold x = t)
             (spend_alerts s)
        then raise_alerts env cal b consumed (Suc k) ts s
        else if sql_exists (\<lambda>x. al_id x = al_id a) (spend_alerts s)
        then Inl (UniqueViolation ''workspace_spend_alerts_pkey'')
        else bind_res (raise_alerts env cal b consumed (Suc k) ts
            (s\<lparr>spend_alerts := spend_alerts s @ [a], alert_outbox := alert_outbox s @ [new_alert_job env a]\<rparr>))
          (\<lambda>(fired, s'). Inr (t # fired, s')))"

definition raise_threshold_alerts ::
    "txenv \<Rightarrow> calendar \<Rightarrow> nat \<Rightarrow> uuid \<Rightarrow> db \<Rightarrow> (int list \<times> db) res" where
  "raise_threshold_alerts env cal k ws s =
    bind_res (bigint (period_consumption cal (tx_now env) ws s)) (\<lambda>consumed.
      case load_budget ws s of
        None \<Rightarrow> Inr ([], s)
      | Some b \<Rightarrow>
          bind_res (if b_thresholds b = [] then Inr 0 else bigint (consumed * 100)) (\<lambda>_.
          bind_res (raise_alerts env cal b consumed k (b_thresholds b) s) (\<lambda>(fired, s').
            Inr (sort fired, s'))))"

definition evaluate_budget :: "calendar \<Rightarrow> time \<Rightarrow> uuid \<Rightarrow> db \<Rightarrow> budget_verdict res" where
  "evaluate_budget cal now ws s =
    bind_res (bigint (period_consumption cal now ws s)) (\<lambda>consumed.
      budget_decision (map_option b_limit (load_budget ws s))
        (map_option b_enforcement (load_budget ws s)) consumed)"

section \<open>The ledger\<close>

text \<open>The constraints and widths of \<open>workspace_spend_records\<close>.\<close>

definition spend_row_check :: "spend_row \<Rightarrow> unit res" where
  "spend_row_check x =
    bind_res (int4 (sp_input x)) (\<lambda>_. bind_res (int4 (sp_output x)) (\<lambda>_. bind_res (bigint (sp_cost x)) (\<lambda>_.
      if 1 \<le> length (sp_source_key x) \<and> length (sp_source_key x) \<le> MAX_SOURCE_KEY_LENGTH \<and>
         1 \<le> length (sp_provider x) \<and> length (sp_provider x) \<le> 64 \<and>
         1 \<le> length (sp_model x) \<and> length (sp_model x) \<le> 128 \<and>
         0 \<le> sp_input x \<and> 0 \<le> sp_output x \<and> 0 \<le> sp_cost x
      then Inr () else Inl (CheckViolation ''workspace_spend_records''))))"

text \<open>A priced call: what the caller of \<open>record_spend\<close> passes.\<close>

record charge =
  ch_workspace :: uuid
  ch_source_key :: string
  ch_category :: spend_category
  ch_provider :: string
  ch_model :: string
  ch_input :: int
  ch_output :: int
  ch_cost :: int

definition spend_row_of :: "txenv \<Rightarrow> nat \<Rightarrow> charge \<Rightarrow> spend_row" where
  "spend_row_of env k c =
    \<lparr>sp_id = tx_uuid env k, sp_workspace = ch_workspace c, sp_source_key = ch_source_key c,
     sp_category = ch_category c, sp_provider = ch_provider c, sp_model = ch_model c,
     sp_input = ch_input c, sp_output = ch_output c, sp_cost = ch_cost c, sp_occurred = tx_now env\<rparr>"

definition charged :: "uuid \<Rightarrow> string \<Rightarrow> db \<Rightarrow> bool" where
  "charged ws key s \<longleftrightarrow> sql_exists (\<lambda>x. sp_workspace x = ws \<and> sp_source_key x = key) (spend_records s)"

text \<open>\<open>SpendWrite\<close>: whether the row is new, and the thresholds it crossed.\<close>

record spend_write =
  sw_recorded :: bool
  sw_alerts :: "int list"

definition record_spend :: "txenv \<Rightarrow> calendar \<Rightarrow> charge \<Rightarrow> db \<Rightarrow> (spend_write \<times> db) res" where
  "record_spend env cal c s =
    (let x = spend_row_of env 0 c
     in bind_res (spend_row_check x) (\<lambda>_.
       if charged (ch_workspace c) (ch_source_key c) s
       then Inr (\<lparr>sw_recorded = False, sw_alerts = []\<rparr>, s)
       else if sql_exists (\<lambda>y. sp_id y = sp_id x) (spend_records s)
       then Inl (UniqueViolation ''workspace_spend_records_pkey'')
       else bind_res (raise_threshold_alerts env cal 1 (ch_workspace c)
           (s\<lparr>spend_records := spend_records s @ [x]\<rparr>)) (\<lambda>(fired, s').
         Inr (\<lparr>sw_recorded = True, sw_alerts = fired\<rparr>, s'))))"

section \<open>The repository\<close>

definition new_budget :: "txenv \<Rightarrow> principal \<Rightarrow> uuid \<Rightarrow> budget_input \<Rightarrow> budget_row" where
  "new_budget env pr ws b =
    \<lparr>b_workspace = ws, b_limit = bi_limit b, b_enforcement = bi_enforcement b,
     b_thresholds = bi_thresholds b, b_issuer = issuer pr, b_subject = subject pr,
     b_updated = tx_now env\<rparr>"

definition new_budget_event :: "principal \<Rightarrow> uuid \<Rightarrow> budget_input \<Rightarrow> string \<Rightarrow> budget_event_row" where
  "new_budget_event pr ws b req =
    \<lparr>be_workspace = ws, be_limit = bi_limit b, be_enforcement = bi_enforcement b,
     be_thresholds = bi_thresholds b, be_issuer = issuer pr, be_subject = subject pr, be_request = req\<rparr>"

definition set_budget ::
    "txenv \<Rightarrow> calendar \<Rightarrow> principal \<Rightarrow> uuid \<Rightarrow> budget_input \<Rightarrow> string \<Rightarrow> db \<Rightarrow> (budget_row \<times> db) res" where
  "set_budget env cal pr ws b req s =
    bind_res (scoped pr ws ManageSpend s) (\<lambda>_.
      let row = new_budget env pr ws b;
          same = (\<lambda>x. b_workspace x = ws);
          s1 = s\<lparr>spend_budgets := (if sql_exists same (spend_budgets s)
                 then sql_update same (\<lambda>_. row) (spend_budgets s) else spend_budgets s @ [row]),
               budget_events := budget_events s @ [new_budget_event pr ws b req]\<rparr>
      in bind_res (raise_threshold_alerts env cal 0 ws s1) (\<lambda>(fired, s2).
           Inr (row, audit pr ws ''spend.budget.set'' req None s2)))"

record category_total =
  ct_category :: spend_category
  ct_calls :: nat
  ct_input :: int
  ct_output :: int
  ct_cost :: int

fun category_str :: "spend_category \<Rightarrow> string" where
  "category_str AgentRunSpend = ''agent_run''"
| "category_str EvaluationJudgeSpend = ''evaluation_judge''"
| "category_str EmbeddingSpendCat = ''embedding''"

definition category_total :: "spend_row list \<Rightarrow> spend_category \<Rightarrow> category_total" where
  "category_total xs c =
    (let ys = filter (\<lambda>x. sp_category x = c) xs
     in \<lparr>ct_category = c, ct_calls = length ys, ct_input = sum_list (map sp_input ys),
         ct_output = sum_list (map sp_output ys), ct_cost = sum_list (map sp_cost ys)\<rparr>)"

text \<open>\<open>GROUP BY category ORDER BY category\<close>: the order is the one of the texts.\<close>

definition category_totals :: "spend_row list \<Rightarrow> category_total list" where
  "category_totals xs =
    map (category_total xs)
      (filter (\<lambda>c. list_ex (\<lambda>x. sp_category x = c) xs) [AgentRunSpend, EmbeddingSpendCat, EvaluationJudgeSpend])"

record spend_summary =
  su_workspace :: uuid
  su_start :: time
  su_end :: time
  su_consumed :: int
  su_limit :: "int option"
  su_enforcement :: "enforcement option"
  su_remaining :: "int option"
  su_exhausted :: bool
  su_thresholds :: "int list"
  su_alerts :: "alert_row list"
  su_categories :: "category_total list"

definition spend_summary :: "calendar \<Rightarrow> time \<Rightarrow> principal \<Rightarrow> uuid \<Rightarrow> db \<Rightarrow> spend_summary res" where
  "spend_summary cal now pr ws s =
    bind_res (scoped pr ws PermRead s) (\<lambda>_.
    bind_res (bigint (period_consumption cal now ws s)) (\<lambda>consumed.
    let b = load_budget ws s
    in bind_res (budget_decision (map_option b_limit b) (map_option b_enforcement b) consumed) (\<lambda>d.
      Inr \<lparr>su_workspace = ws, su_start = month_start cal now,
           su_end = next_month cal (month_start cal now), su_consumed = consumed,
           su_limit = bd_limit d, su_enforcement = map_option b_enforcement b,
           su_remaining = remaining_micros d, su_exhausted = (\<not> bd_allowed d),
           su_thresholds = (case b of None \<Rightarrow> [] | Some x \<Rightarrow> b_thresholds x),
           su_alerts = period_alerts cal now ws s,
           su_categories = category_totals (period_records cal now ws s)\<rparr>)))"

text \<open>\<open>ORDER BY occurred_at DESC,id DESC\<close>.\<close>

definition newest_spend :: "spend_row \<Rightarrow> int \<times> int" where
  "newest_spend x = (- sp_occurred x, - uint (sp_id x))"

definition list_records ::
    "principal \<Rightarrow> uuid \<Rightarrow> nat \<Rightarrow> uuid option \<Rightarrow> spend_category option \<Rightarrow> db \<Rightarrow> spend_row list res" where
  "list_records pr ws n cursor cat s =
    bind_res (scoped pr ws PermRead s) (\<lambda>_.
    bind_res (case cursor of
        None \<Rightarrow> Inr None
      | Some i \<Rightarrow> (case find (\<lambda>x. sp_workspace x = ws \<and> sp_id x = i) (spend_records s) of
                     None \<Rightarrow> Inl (HTTPException 404) | Some x \<Rightarrow> Inr (Some (sp_occurred x, i)))) (\<lambda>b.
      Inr (order_limit newest_spend n
        (\<lambda>x. sp_workspace x = ws \<and> (cat = None \<or> cat = Some (sp_category x)) \<and>
             (case b of None \<Rightarrow> True | Some c \<Rightarrow> (sp_occurred x, sp_id x) < c)) (spend_records s))))"

text \<open>The route \<open>list_spend_records\<close>: a page and the cursor of the next one.\<close>

definition list_spend_records ::
    "principal \<Rightarrow> uuid \<Rightarrow> nat \<Rightarrow> uuid option \<Rightarrow> spend_category option \<Rightarrow> db \<Rightarrow> (spend_row list \<times> uuid option) res" where
  "list_spend_records pr ws n cursor cat s =
    bind_res (list_records pr ws (Suc n) cursor cat s) (\<lambda>rows. Inr (page sp_id n rows))"

section \<open>Rounding\<close>

text \<open>The cost is the least number of micros that covers the price of the tokens.\<close>

lemma cost_micros_bounds:
  assumes "cost_micros p i r = Inr c"
  shows "i * input_rate p + r * output_rate p \<le> c * TOKENS_PER_PRICE_UNIT"
    and "c * TOKENS_PER_PRICE_UNIT < i * input_rate p + r * output_rate p + TOKENS_PER_PRICE_UNIT"
proof -
  let ?t = "i * input_rate p + r * output_rate p"
  have c: "c = - ((- ?t) div 1000000)"
    using assms by (simp add: cost_micros_def TOKENS_PER_PRICE_UNIT_def split: if_splits)
  have "(- ?t) div 1000000 * 1000000 + (- ?t) mod 1000000 = - ?t" by (rule div_mult_mod_eq)
  moreover have "0 \<le> (- ?t) mod 1000000" "(- ?t) mod 1000000 < 1000000" by simp_all
  ultimately show "?t \<le> c * TOKENS_PER_PRICE_UNIT" "c * TOKENS_PER_PRICE_UNIT < ?t + TOKENS_PER_PRICE_UNIT"
    unfolding c TOKENS_PER_PRICE_UNIT_def by linarith+
qed

lemma cost_micros_nonneg:
  assumes "cost_micros p i r = Inr c" and "0 \<le> input_rate p" and "0 \<le> output_rate p"
  shows "0 \<le> c"
proof -
  have "0 \<le> i" "0 \<le> r" using assms(1) by (auto simp: cost_micros_def split: if_splits)
  then have "0 \<le> i * input_rate p + r * output_rate p" using assms(2,3) by simp
  then have "0 \<le> c * TOKENS_PER_PRICE_UNIT" using cost_micros_bounds(1)[OF assms(1)] by linarith
  then show ?thesis by (simp add: TOKENS_PER_PRICE_UNIT_def zero_le_mult_iff)
qed

end
