(* ===== verification/Spend_Ledger.thy ===== *)
theory Spend_Ledger
  imports Spend
begin

text \<open>
  The invariant of the spend tables, and what a charge and a budget decision do to them: a unit of
  work is charged once, a threshold of a period is alerted once, and every alert has one delivery
  intent.
\<close>

section \<open>The invariant\<close>

definition alert_key :: "alert_row \<Rightarrow> uuid \<times> time \<times> int" where
  "alert_key a = (al_workspace a, al_period a, al_threshold a)"

definition ledger_ok :: "db \<Rightarrow> bool" where
  "ledger_ok s \<longleftrightarrow> distinct (map sp_id (spend_records s)) \<and>
    distinct (map (\<lambda>x. (sp_workspace x, sp_source_key x)) (spend_records s)) \<and>
    (\<forall>x \<in> set (spend_records s). 0 \<le> sp_cost x) \<and>
    distinct (map al_id (spend_alerts s)) \<and> distinct (map alert_key (spend_alerts s)) \<and>
    map (\<lambda>x. (ao_alert x, ao_workspace x)) (alert_outbox s) =
      map (\<lambda>a. (al_id a, al_workspace a)) (spend_alerts s) \<and>
    distinct (map b_workspace (spend_budgets s))"

lemma ledger_empty: "ledger_ok empty_db"
  by (simp add: ledger_ok_def empty_db_def)

lemma ledger_cong:
  assumes "spend_records s' = spend_records s" "spend_alerts s' = spend_alerts s"
    "alert_outbox s' = alert_outbox s" "spend_budgets s' = spend_budgets s"
  shows "ledger_ok s' = ledger_ok s"
  using assms by (simp add: ledger_ok_def)

definition alerted :: "uuid \<Rightarrow> time \<Rightarrow> int \<Rightarrow> db \<Rightarrow> bool" where
  "alerted ws p t s \<longleftrightarrow> (\<exists>a \<in> set (spend_alerts s). alert_key a = (ws, p, t))"

definition crossed :: "budget_row \<Rightarrow> int \<Rightarrow> int \<Rightarrow> bool" where
  "crossed b consumed t \<longleftrightarrow> t * b_limit b \<le> consumed * 100"

lemma alerted_iff:
  "alerted ws p t s \<longleftrightarrow>
    sql_exists (\<lambda>x. al_workspace x = ws \<and> al_period x = p \<and> al_threshold x = t) (spend_alerts s)"
  by (auto simp: alerted_def sql_exists_iff alert_key_def)

lemma alerted_cong: "spend_alerts s' = spend_alerts s \<Longrightarrow> alerted ws p t s' = alerted ws p t s"
  by (simp add: alerted_def)

lemma raise_alerts_Cons:
  "raise_alerts env cal b consumed k (t # ts) s =
    (if \<not> crossed b consumed t \<or> alerted (b_workspace b) (month_start cal (tx_now env)) t s
     then raise_alerts env cal b consumed (Suc k) ts s
     else if sql_exists (\<lambda>x. al_id x = tx_uuid env k) (spend_alerts s)
     then Inl (UniqueViolation ''workspace_spend_alerts_pkey'')
     else bind_res (raise_alerts env cal b consumed (Suc k) ts
         (s\<lparr>spend_alerts := spend_alerts s @ [new_alert env cal k b consumed t],
            alert_outbox := alert_outbox s @ [new_alert_job env (new_alert env cal k b consumed t)]\<rparr>))
       (\<lambda>(fired, s'). Inr (t # fired, s')))"
  by (simp add: Let_def crossed_def alerted_iff new_alert_def)

declare raise_alerts.simps(2) [simp del]

section \<open>Raising alerts\<close>

text \<open>What one raised alert does.\<close>

lemma add_alert_ok:
  assumes "ledger_ok s" and "\<not> alerted (b_workspace b) (month_start cal (tx_now env)) t s"
    and "\<not> sql_exists (\<lambda>x. al_id x = tx_uuid env k) (spend_alerts s)"
  shows "ledger_ok (s\<lparr>spend_alerts := spend_alerts s @ [new_alert env cal k b consumed t],
      alert_outbox := alert_outbox s @ [new_alert_job env (new_alert env cal k b consumed t)]\<rparr>)"
  using assms
  by (auto simp: ledger_ok_def alerted_def sql_exists_iff new_alert_def new_alert_job_def alert_key_def)

lemma alerted_add:
  "alerted ws p u (s\<lparr>spend_alerts := spend_alerts s @ [new_alert env cal k b consumed t], alert_outbox := xs\<rparr>) \<longleftrightarrow>
    alerted ws p u s \<or> ws = b_workspace b \<and> p = month_start cal (tx_now env) \<and> u = t"
  by (auto simp: alerted_def alert_key_def new_alert_def)

text \<open>Only the alerts and their delivery intents are written.\<close>

definition alerts_only :: "db \<Rightarrow> db \<Rightarrow> bool" where
  "alerts_only s s' \<longleftrightarrow> (\<exists>as xs. s' = s\<lparr>spend_alerts := as, alert_outbox := xs\<rparr>)"

lemma alerts_only_tables:
  assumes "alerts_only s s'"
  shows "spend_records s' = spend_records s" "spend_budgets s' = spend_budgets s"
    "budget_events s' = budget_events s" "agent_runs s' = agent_runs s" "receipts s' = receipts s"
    "outbox s' = outbox s" "run_events s' = run_events s" "tool_calls s' = tool_calls s"
    "tool_approvals s' = tool_approvals s" "workspaces s' = workspaces s"
    "memberships s' = memberships s" "model_steps s' = model_steps s" "answer_cache s' = answer_cache s"
    "tool_definitions s' = tool_definitions s" "tool_policies s' = tool_policies s"
    "run_retrievals s' = run_retrievals s" "retrieval_contexts s' = retrieval_contexts s"
  using assms by (auto simp: alerts_only_def)

lemma alerts_only_refl: "alerts_only s s"
  unfolding alerts_only_def by (intro exI[of _ "spend_alerts s"] exI[of _ "alert_outbox s"]) simp

lemma alerts_only_add:
  "alerts_only (s\<lparr>spend_alerts := as, alert_outbox := xs\<rparr>) s' \<Longrightarrow> alerts_only s s'"
  unfolding alerts_only_def by auto

lemma raise_alerts_effect:
  assumes "raise_alerts env cal b consumed k ts s = Inr (fired, s')" and "ledger_ok s"
  shows "ledger_ok s' \<and> alerts_only s s' \<and> distinct fired \<and>
    set fired = {t \<in> set ts. crossed b consumed t \<and> \<not> alerted (b_workspace b) (month_start cal (tx_now env)) t s} \<and>
    (\<forall>ws p u. alerted ws p u s' \<longleftrightarrow>
      alerted ws p u s \<or> ws = b_workspace b \<and> p = month_start cal (tx_now env) \<and> u \<in> set fired)"
  using assms
proof (induction ts arbitrary: k s fired)
  case Nil
  then show ?case by (simp add: alerts_only_refl)
next
  case (Cons t ts)
  let ?p = "month_start cal (tx_now env)"
  show ?case
  proof (cases "\<not> crossed b consumed t \<or> alerted (b_workspace b) ?p t s")
    case True
    then have "raise_alerts env cal b consumed (Suc k) ts s = Inr (fired, s')"
      using Cons.prems(1) by (simp add: raise_alerts_Cons)
    from Cons.IH[OF this Cons.prems(2)] True show ?thesis by auto
  next
    case False
    let ?s1 = "s\<lparr>spend_alerts := spend_alerts s @ [new_alert env cal k b consumed t],
            alert_outbox := alert_outbox s @ [new_alert_job env (new_alert env cal k b consumed t)]\<rparr>"
    from False Cons.prems(1) obtain fired1 where new: "\<not> sql_exists (\<lambda>x. al_id x = tx_uuid env k) (spend_alerts s)"
      and rest: "raise_alerts env cal b consumed (Suc k) ts ?s1 = Inr (fired1, s')" and fired: "fired = t # fired1"
      by (auto simp: raise_alerts_Cons split: if_splits)
    have "ledger_ok ?s1" using add_alert_ok[OF Cons.prems(2) _ new] False by blast
    from Cons.IH[OF rest this] have ih: "ledger_ok s'" "alerts_only ?s1 s'" "distinct fired1"
      "set fired1 = {u \<in> set ts. crossed b consumed u \<and> \<not> alerted (b_workspace b) ?p u ?s1}"
      "\<And>ws p u. alerted ws p u s' \<longleftrightarrow> alerted ws p u ?s1 \<or> ws = b_workspace b \<and> p = ?p \<and> u \<in> set fired1"
      by blast+
    have "set fired = {u \<in> set (t # ts). crossed b consumed u \<and> \<not> alerted (b_workspace b) ?p u s}" "t \<notin> set fired1"
      using False by (auto simp: fired ih(4) alerted_add)
    moreover have "alerted ws p u s' \<longleftrightarrow> alerted ws p u s \<or> ws = b_workspace b \<and> p = ?p \<and> u \<in> set fired" for ws p u
      unfolding ih(5) alerted_add fired by auto
    ultimately show ?thesis using ih(1,3) alerts_only_add[OF ih(2)] fired by auto
  qed
qed

lemma raise_alerts_total:
  assumes "inj_on (tx_uuid env) {k..<k + length ts}"
    and "\<forall>i \<in> {k..<k + length ts}. \<forall>a \<in> set (spend_alerts s). al_id a \<noteq> tx_uuid env i"
  shows "\<exists>fired s'. raise_alerts env cal b consumed k ts s = Inr (fired, s')"
  using assms
proof (induction ts arbitrary: k s)
  case Nil
  then show ?case by simp
next
  case (Cons t ts)
  have sub: "inj_on (tx_uuid env) {Suc k..<Suc k + length ts}"
    using Cons.prems(1) by (rule inj_on_subset) auto
  have "tx_uuid env k \<noteq> tx_uuid env i" if "i \<in> {Suc k..<Suc k + length ts}" for i
    using inj_onD[OF Cons.prems(1), of k i] that by auto
  with Cons.prems(2) have fresh: "\<forall>i \<in> {Suc k..<Suc k + length ts}.
      \<forall>a \<in> set (spend_alerts s @ [new_alert env cal k b consumed t]). al_id a \<noteq> tx_uuid env i"
    by (auto simp: new_alert_def)
  have "\<not> sql_exists (\<lambda>x. al_id x = tx_uuid env k) (spend_alerts s)"
    using Cons.prems(2) by (auto simp: sql_exists_iff)
  moreover obtain f1 u1 where "raise_alerts env cal b consumed (Suc k) ts s = Inr (f1, u1)"
    using Cons.IH[OF sub, of s] fresh by auto
  moreover obtain f2 u2 where "raise_alerts env cal b consumed (Suc k) ts
      (s\<lparr>spend_alerts := spend_alerts s @ [new_alert env cal k b consumed t],
         alert_outbox := alert_outbox s @ [new_alert_job env (new_alert env cal k b consumed t)]\<rparr>) = Inr (f2, u2)"
    using Cons.IH[OF sub] fresh by fastforce
  ultimately show ?case by (simp add: raise_alerts_Cons)
qed

lemma find_budget_unique:
  "ledger_ok s \<Longrightarrow> load_budget ws s = Some b \<longleftrightarrow> b \<in> set (spend_budgets s) \<and> b_workspace b = ws"
  unfolding load_budget_def by (rule find_Some_iff_unique) (simp add: ledger_ok_def)

text \<open>
  The SQL statement raises exactly what \<open>crossed_thresholds\<close> computes and was not raised before,
  in ascending order.
\<close>

lemma raise_threshold_alerts_effect:
  assumes ok: "raise_threshold_alerts env cal k ws s = Inr (fired, s')" and inv: "ledger_ok s"
  shows "ledger_ok s'" "alerts_only s s'"
    "fired = filter (\<lambda>t. \<not> alerted ws (month_start cal (tx_now env)) t s)
       (case load_budget ws s of None \<Rightarrow> []
        | Some b \<Rightarrow> crossed_thresholds (b_thresholds b) (Some (b_limit b)) (period_consumption cal (tx_now env) ws s))"
    "\<And>ws' p t. alerted ws' p t s' \<longleftrightarrow> alerted ws' p t s \<or> ws' = ws \<and> p = month_start cal (tx_now env) \<and> t \<in> set fired"
proof -
  let ?p = "month_start cal (tx_now env)" and ?c = "period_consumption cal (tx_now env) ws s"
  have "ledger_ok s' \<and> alerts_only s s' \<and> fired = filter (\<lambda>t. \<not> alerted ws ?p t s)
       (case load_budget ws s of None \<Rightarrow> [] | Some b \<Rightarrow> crossed_thresholds (b_thresholds b) (Some (b_limit b)) ?c) \<and>
    (\<forall>ws' p t. alerted ws' p t s' \<longleftrightarrow> alerted ws' p t s \<or> ws' = ws \<and> p = ?p \<and> t \<in> set fired)"
  proof (cases "load_budget ws s")
    case None
    with ok inv show ?thesis
      by (auto simp: raise_threshold_alerts_def alerts_only_refl bigint_def split: if_splits)
  next
    case (Some b)
    then have ws: "b_workspace b = ws" by (auto simp: load_budget_def dest: find_SomeD)
    from ok Some obtain raw where raw: "raise_alerts env cal b ?c k (b_thresholds b) s = Inr (raw, s')"
      "fired = sort raw"
      by (auto simp: raise_threshold_alerts_def bigint_def split: if_splits)
    note eff = raise_alerts_effect[OF raw(1) inv, unfolded ws]
    have mem: "set fired = set raw" by (simp add: raw(2))
    have "set (sort raw) = set (filter (\<lambda>t. \<not> alerted ws ?p t s) (crossed_thresholds (b_thresholds b) (Some (b_limit b)) ?c))"
      using eff by (auto simp: crossed_thresholds_def sorted_set_def crossed_def)
    then have "sort raw = filter (\<lambda>t. \<not> alerted ws ?p t s) (crossed_thresholds (b_thresholds b) (Some (b_limit b)) ?c)"
      using eff by (intro sorted_distinct_set_unique)
        (simp_all add: crossed_thresholds_def sorted_set_def sorted_wrt_filter)
    then have "fired = filter (\<lambda>t. \<not> alerted ws ?p t s)
        (case load_budget ws s of None \<Rightarrow> [] | Some b \<Rightarrow> crossed_thresholds (b_thresholds b) (Some (b_limit b)) ?c)"
      by (simp add: raw(2) Some)
    with eff show ?thesis unfolding mem by blast
  qed
  then show "ledger_ok s'" "alerts_only s s'"
    "fired = filter (\<lambda>t. \<not> alerted ws ?p t s)
       (case load_budget ws s of None \<Rightarrow> [] | Some b \<Rightarrow> crossed_thresholds (b_thresholds b) (Some (b_limit b)) ?c)"
    "\<And>ws' p t. alerted ws' p t s' \<longleftrightarrow> alerted ws' p t s \<or> ws' = ws \<and> p = ?p \<and> t \<in> set fired"
    by blast+
qed

lemma raise_threshold_alerts_total:
  assumes "inj_on (tx_uuid env) {k..<k + n}"
    and "\<forall>i \<in> {k..<k + n}. \<forall>a \<in> set (spend_alerts s). al_id a \<noteq> tx_uuid env i"
    and "0 \<le> period_consumption cal (tx_now env) ws s" "period_consumption cal (tx_now env) ws s * 100 < 2 ^ 63"
    and "\<And>b. load_budget ws s = Some b \<Longrightarrow> length (b_thresholds b) \<le> n"
  shows "\<exists>fired s'. raise_threshold_alerts env cal k ws s = Inr (fired, s')"
proof -
  let ?c = "period_consumption cal (tx_now env) ws s"
  have fit: "bigint ?c = Inr ?c" "bigint (?c * 100) = Inr (?c * 100)"
    using assms(3,4) by (simp_all add: bigint_def)
  show ?thesis
  proof (cases "load_budget ws s")
    case None
    with fit show ?thesis by (simp add: raise_threshold_alerts_def)
  next
    case (Some b)
    have "\<exists>f u. raise_alerts env cal b ?c k (b_thresholds b) s = Inr (f, u)"
      using assms(1,2) assms(5)[OF Some] by (intro raise_alerts_total) (auto intro: inj_on_subset)
    with fit Some show ?thesis by (auto simp: raise_threshold_alerts_def)
  qed
qed

text \<open>
  After a charge or a budget decision no crossed threshold of the current period is without an alert.
\<close>

definition alerts_current :: "calendar \<Rightarrow> time \<Rightarrow> uuid \<Rightarrow> db \<Rightarrow> bool" where
  "alerts_current cal now ws s =
    (case load_budget ws s of None \<Rightarrow> True
     | Some b \<Rightarrow> list_all (\<lambda>t. \<not> crossed b (period_consumption cal now ws s) t \<or>
         sql_exists (\<lambda>a. alert_key a = (ws, month_start cal now, t)) (spend_alerts s)) (b_thresholds b))"

lemma alerts_current_iff:
  "alerts_current cal now ws s \<longleftrightarrow>
    (\<forall>b. load_budget ws s = Some b \<longrightarrow> (\<forall>t \<in> set (b_thresholds b).
       crossed b (period_consumption cal now ws s) t \<longrightarrow> alerted ws (month_start cal now) t s))"
  by (auto simp: alerts_current_def list_all_iff sql_exists_iff alerted_def split: option.splits)

lemma period_consumption_cong:
  "spend_records s' = spend_records s \<Longrightarrow> period_consumption cal now ws s' = period_consumption cal now ws s"
  by (simp add: period_consumption_def period_records_def)

lemma load_budget_cong: "spend_budgets s' = spend_budgets s \<Longrightarrow> load_budget ws s' = load_budget ws s"
  by (simp add: load_budget_def)

lemma raise_threshold_alerts_current:
  assumes "raise_threshold_alerts env cal k ws s = Inr (fired, s')" and "ledger_ok s"
  shows "alerts_current cal (tx_now env) ws s'"
proof -
  note eff = raise_threshold_alerts_effect[OF assms]
  note t = alerts_only_tables[OF eff(2)]
  show ?thesis
    unfolding alerts_current_iff period_consumption_cong[OF t(1)] load_budget_cong[OF t(2)] eff(4) eff(3)
    by (auto simp: crossed_thresholds_def sorted_set_def crossed_def)
qed

section \<open>Charging\<close>

lemma charged_iff:
  "charged ws key s \<longleftrightarrow> (ws, key) \<in> (\<lambda>x. (sp_workspace x, sp_source_key x)) ` set (spend_records s)"
  by (auto simp: charged_def sql_exists_iff)

lemma record_spend_charged:
  assumes "charged (ch_workspace c) (ch_source_key c) s" and "record_spend env cal c s = Inr (w, s')"
  shows "s' = s" "\<not> sw_recorded w" "sw_alerts w = []"
  using assms by (auto simp: record_spend_def Let_def)

lemma record_spend_fresh:
  assumes inv: "ledger_ok s" and new: "\<not> charged (ch_workspace c) (ch_source_key c) s"
    and ok: "record_spend env cal c s = Inr (w, s')"
  shows "sw_recorded w" "spend_records s' = spend_records s @ [spend_row_of env 0 c]"
    "alerts_only (s\<lparr>spend_records := spend_records s @ [spend_row_of env 0 c]\<rparr>) s'"
    "ledger_ok s'" "alerts_current cal (tx_now env) (ch_workspace c) s'" "0 \<le> ch_cost c"
    "sw_alerts w = filter (\<lambda>t. \<not> alerted (ch_workspace c) (month_start cal (tx_now env)) t s)
       (case load_budget (ch_workspace c) s of None \<Rightarrow> []
        | Some b \<Rightarrow> crossed_thresholds (b_thresholds b) (Some (b_limit b))
            (period_consumption cal (tx_now env) (ch_workspace c) s'))"
proof -
  let ?x = "spend_row_of env 0 c" and ?s1 = "s\<lparr>spend_records := spend_records s @ [spend_row_of env 0 c]\<rparr>"
  from ok new obtain fired where chk: "spend_row_check ?x = Inr ()"
    and id: "\<not> sql_exists (\<lambda>y. sp_id y = sp_id ?x) (spend_records s)"
    and raise: "raise_threshold_alerts env cal 1 (ch_workspace c) ?s1 = Inr (fired, s')"
    and w: "w = \<lparr>sw_recorded = True, sw_alerts = fired\<rparr>"
    by (auto simp: record_spend_def Let_def split: if_splits)
  show cost: "0 \<le> ch_cost c" using chk by (auto simp: spend_row_check_def spend_row_of_def split: if_splits)
  have inv1: "ledger_ok ?s1"
    using inv id new cost by (auto simp: ledger_ok_def sql_exists_iff charged_iff spend_row_of_def)
  note eff = raise_threshold_alerts_effect[OF raise inv1]
  note t = alerts_only_tables[OF eff(2)]
  show "sw_recorded w" using w by simp
  show "alerts_only ?s1 s'" by (rule eff(2))
  show "spend_records s' = spend_records s @ [?x]" using t(1) by simp
  show "ledger_ok s'" by (rule eff(1))
  show "alerts_current cal (tx_now env) (ch_workspace c) s'"
    by (rule raise_threshold_alerts_current[OF raise inv1])
  show "sw_alerts w = filter (\<lambda>t. \<not> alerted (ch_workspace c) (month_start cal (tx_now env)) t s)
       (case load_budget (ch_workspace c) s of None \<Rightarrow> []
        | Some b \<Rightarrow> crossed_thresholds (b_thresholds b) (Some (b_limit b))
            (period_consumption cal (tx_now env) (ch_workspace c) s'))"
    unfolding period_consumption_cong[OF t(1)] using eff(3) by (simp add: w load_budget_def alerted_def)
qed

lemma record_spend_marks:
  assumes "ledger_ok s" and "record_spend env cal c s = Inr (w, s')"
  shows "ledger_ok s'" "charged (ch_workspace c) (ch_source_key c) s'"
    "sw_recorded w \<longleftrightarrow> \<not> charged (ch_workspace c) (ch_source_key c) s"
    "\<And>ws key. charged ws key s \<Longrightarrow> charged ws key s'"
proof -
  have "ledger_ok s' \<and> charged (ch_workspace c) (ch_source_key c) s' \<and>
    (sw_recorded w \<longleftrightarrow> \<not> charged (ch_workspace c) (ch_source_key c) s) \<and>
    (\<forall>ws key. charged ws key s \<longrightarrow> charged ws key s')"
  proof (cases "charged (ch_workspace c) (ch_source_key c) s")
    case True
    from record_spend_charged[OF this assms(2)] True assms(1) show ?thesis by simp
  next
    case False
    note new = record_spend_fresh[OF assms(1) False assms(2)]
    from new(1,4) False show ?thesis by (auto simp: charged_iff new(2) spend_row_of_def)
  qed
  then show "ledger_ok s'" "charged (ch_workspace c) (ch_source_key c) s'"
    "sw_recorded w \<longleftrightarrow> \<not> charged (ch_workspace c) (ch_source_key c) s"
    "\<And>ws key. charged ws key s \<Longrightarrow> charged ws key s'" by blast+
qed

lemma record_spend_tables:
  assumes "record_spend env cal c s = Inr (w, s')" and "ledger_ok s"
  shows "\<exists>rs as xs. s' = s\<lparr>spend_records := rs, spend_alerts := as, alert_outbox := xs\<rparr>"
proof (cases "charged (ch_workspace c) (ch_source_key c) s")
  case True
  from record_spend_charged(1)[OF this assms(1)] show ?thesis
    by (intro exI[of _ "spend_records s"] exI[of _ "spend_alerts s"] exI[of _ "alert_outbox s"]) simp
next
  case False
  from record_spend_fresh(3)[OF assms(2) False assms(1)] show ?thesis
    by (auto simp: alerts_only_def)
qed

text \<open>What the charge adds to the consumption of the period it happens in.\<close>

definition calendar_ok :: "calendar \<Rightarrow> bool" where
  "calendar_ok cal \<longleftrightarrow> (\<forall>t. month_start cal t \<le> t \<and> t < next_month cal (month_start cal t))"

lemma in_period_now: "calendar_ok cal \<Longrightarrow> in_period cal t t"
  by (simp add: calendar_ok_def in_period_def)

lemma record_spend_consumption:
  assumes "calendar_ok cal" and "ledger_ok s" and "record_spend env cal c s = Inr (w, s')"
  shows "period_consumption cal (tx_now env) (ch_workspace c) s' =
    period_consumption cal (tx_now env) (ch_workspace c) s + (if sw_recorded w then ch_cost c else 0)"
    "ws \<noteq> ch_workspace c \<Longrightarrow> period_consumption cal now ws s' = period_consumption cal now ws s"
proof -
  have "period_consumption cal (tx_now env) (ch_workspace c) s' =
      period_consumption cal (tx_now env) (ch_workspace c) s + (if sw_recorded w then ch_cost c else 0) \<and>
    (ws \<noteq> ch_workspace c \<longrightarrow> period_consumption cal now ws s' = period_consumption cal now ws s)"
  proof (cases "charged (ch_workspace c) (ch_source_key c) s")
    case True
    from record_spend_charged[OF this assms(3)] show ?thesis by simp
  next
    case False
    note new = record_spend_fresh[OF assms(2) False assms(3)]
    from new(1) in_period_now[OF assms(1)] show ?thesis
      by (simp add: period_consumption_def period_records_def new(2) spend_row_of_def)
  qed
  then show "period_consumption cal (tx_now env) (ch_workspace c) s' =
      period_consumption cal (tx_now env) (ch_workspace c) s + (if sw_recorded w then ch_cost c else 0)"
    "ws \<noteq> ch_workspace c \<Longrightarrow> period_consumption cal now ws s' = period_consumption cal now ws s"
    by blast+
qed

lemma period_consumption_nonneg: "ledger_ok s \<Longrightarrow> 0 \<le> period_consumption cal now ws s"
  unfolding period_consumption_def period_records_def ledger_ok_def by (intro sum_list_nonneg) auto

section \<open>Setting the budget\<close>

lemma load_budget_upsert:
  "load_budget ws (s\<lparr>spend_budgets := (if sql_exists (\<lambda>x. b_workspace x = b_workspace row) (spend_budgets s)
      then sql_update (\<lambda>x. b_workspace x = b_workspace row) (\<lambda>_. row) (spend_budgets s) else spend_budgets s @ [row])\<rparr>) =
    (if ws = b_workspace row then Some row else load_budget ws s)"
proof -
  have "find (\<lambda>x. b_workspace x = ws) (sql_update (\<lambda>x. b_workspace x = b_workspace row) (\<lambda>_. row) bs) =
      (if ws = b_workspace row then Some row else find (\<lambda>x. b_workspace x = ws) bs)"
    if "\<exists>x \<in> set bs. b_workspace x = b_workspace row" for bs
    using that
  proof (induction bs)
    case Nil
    then show ?case by simp
  next
    case (Cons x bs)
    show ?case
    proof (cases "\<exists>y \<in> set bs. b_workspace y = b_workspace row")
      case True
      from Cons.IH[OF this] show ?thesis by auto
    next
      case False
      with Cons.prems have "b_workspace x = b_workspace row" by auto
      moreover from False have "sql_update (\<lambda>x. b_workspace x = b_workspace row) (\<lambda>_. row) bs = bs"
        by (intro sql_update_none) auto
      ultimately show ?thesis by auto
    qed
  qed
  moreover have "find (\<lambda>x. b_workspace x = ws) (bs @ [row]) =
      (if ws = b_workspace row then Some row else find (\<lambda>x. b_workspace x = ws) bs)"
    if "\<not> (\<exists>x \<in> set bs. b_workspace x = b_workspace row)" for bs
  proof -
    have "find (\<lambda>x. b_workspace x = b_workspace row) bs = None"
      using that by (auto simp: find_None_iff)
    then show ?thesis by (auto simp: find_append split: option.splits)
  qed
  ultimately show ?thesis by (cases "ws = b_workspace row") (simp_all add: load_budget_def sql_exists_iff)
qed

lemma set_budget_effect:
  assumes inv: "ledger_ok s" and ok: "set_budget env cal pr ws b req s = Inr (row, s')"
  shows "ledger_ok s'" "load_budget ws s' = Some row" "b_limit row = bi_limit b"
    "b_enforcement row = bi_enforcement b" "b_thresholds row = bi_thresholds b"
    "\<And>v. v \<noteq> ws \<Longrightarrow> load_budget v s' = load_budget v s"
    "spend_records s' = spend_records s" "alerts_current cal (tx_now env) ws s'"
    "is_ok (scoped pr ws ManageSpend s)"
    "\<And>v p t. alerted v p t s \<Longrightarrow> alerted v p t s'"
proof -
  let ?same = "\<lambda>x. b_workspace x = ws"
  let ?bs = "if sql_exists ?same (spend_budgets s)
      then sql_update ?same (\<lambda>_. row) (spend_budgets s) else spend_budgets s @ [row]"
  let ?s1 = "s\<lparr>spend_budgets := ?bs, budget_events := budget_events s @ [new_budget_event pr ws b req]\<rparr>"
  from ok obtain fired s2 where row: "row = new_budget env pr ws b"
    and sc: "\<exists>x. scoped pr ws ManageSpend s = Inr x"
    and raise: "raise_threshold_alerts env cal 0 ws ?s1 = Inr (fired, s2)"
    and s': "s' = audit pr ws ''spend.budget.set'' req None s2"
    by (auto simp: set_budget_def Let_def)
  have ws: "b_workspace row = ws" by (simp add: row new_budget_def)
  have "map b_workspace (sql_update ?same (\<lambda>_. row) bs) = map b_workspace bs" for bs
    by (induction bs) (auto simp: ws)
  then have inv1: "ledger_ok ?s1"
    using inv by (auto simp: ledger_ok_def sql_exists_iff ws)
  note eff = raise_threshold_alerts_effect[OF raise inv1]
  note t = alerts_only_tables[OF eff(2)]
  have aud: "spend_records s' = spend_records s2" "spend_alerts s' = spend_alerts s2"
    "alert_outbox s' = alert_outbox s2" "spend_budgets s' = spend_budgets s2"
    by (simp_all add: s' audit_tables)
  show "ledger_ok s'" using eff(1) ledger_cong[OF aud] by simp
  have load: "load_budget v s' = (if v = ws then Some row else load_budget v s)" for v
  proof -
    have "load_budget v s' = load_budget v (s\<lparr>spend_budgets := ?bs\<rparr>)"
      by (simp add: load_budget_def aud t)
    also have "\<dots> = (if v = ws then Some row else load_budget v s)"
      by (rule load_budget_upsert[of v row s, unfolded ws])
    finally show ?thesis .
  qed
  then show "load_budget ws s' = Some row" by simp
  show "load_budget v s' = load_budget v s" if "v \<noteq> ws" for v using load that by simp
  show "b_limit row = bi_limit b" "b_enforcement row = bi_enforcement b" "b_thresholds row = bi_thresholds b"
    by (simp_all add: row new_budget_def)
  show "spend_records s' = spend_records s" by (simp add: aud t)
  show "is_ok (scoped pr ws ManageSpend s)" using sc by (simp add: is_ok_iff)
  have "alerts_current cal (tx_now env) ws s2" by (rule raise_threshold_alerts_current[OF raise inv1])
  then show "alerts_current cal (tx_now env) ws s'"
    unfolding alerts_current_iff period_consumption_cong[OF aud(1)] load_budget_cong[OF aud(4)]
      alerted_cong[OF aud(2)] .
  show "alerted v p u s'" if "alerted v p u s" for v p u
    using that unfolding alerted_cong[OF aud(2)] eff(4) by (simp add: alerted_def)
qed

end
