(* ===== verification/Spend_Properties.thy ===== *)
theory Spend_Properties
  imports Spend_Ledger Samples
begin

text \<open>
  The properties of spend accounting, each with a concrete instance: prices, source keys, the
  append-only ledger, threshold alerts and the budget check.
\<close>

section \<open>Units of work\<close>

text \<open>The six kinds of paid work, and the key each is charged under.\<close>

datatype paid_work =
    AgentStep uuid nat
  | JudgeCase uuid uuid
  | RunRetrieval uuid
  | AnswerCacheEmbedding uuid
  | AdhocRetrieval uuid
  | KnowledgeSource uuid

fun source_key :: "paid_work \<Rightarrow> string" where
  "source_key (AgentStep run n) = agent_step_source_key run n"
| "source_key (JudgeCase run c) = judge_case_source_key run c"
| "source_key (RunRetrieval run) = run_retrieval_source_key run"
| "source_key (AnswerCacheEmbedding run) = answer_cache_embedding_source_key run"
| "source_key (AdhocRetrieval r) = adhoc_retrieval_source_key r"
| "source_key (KnowledgeSource i) = knowledge_source_key i"

lemmas source_key_defs =
  agent_step_source_key_def judge_case_source_key_def run_retrieval_source_key_def
  answer_cache_embedding_source_key_def adhoc_retrieval_source_key_def knowledge_source_key_def

lemma uuid_prefix:
  "uuid_str u @ xs = uuid_str v @ ys \<longleftrightarrow> u = v \<and> xs = ys"
  using uuid_str_inj[of u v] by (auto simp: append_eq_append_conv)

lemma source_key_inj: "source_key a = source_key b \<Longrightarrow> a = b"
  by (cases a; cases b) (auto simp: source_key_defs uuid_prefix dest: uuid_str_inj nat_str_inj)

section \<open>Charges in flight\<close>

text \<open>The charges of the calls that were in flight when the budget was checked, in any order.\<close>

fun charge_all :: "calendar \<Rightarrow> (txenv \<times> charge) list \<Rightarrow> db \<Rightarrow> db res" where
  "charge_all cal [] s = Inr s"
| "charge_all cal ((env, c) # cs) s = bind_res (record_spend env cal c s) (\<lambda>(w, s'). charge_all cal cs s')"

lemma period_consumption_month:
  "month_start cal now = month_start cal now' \<Longrightarrow>
    period_consumption cal now ws s = period_consumption cal now' ws s"
  by (simp add: period_consumption_def period_records_def in_period_def)

lemma record_spend_cost_nonneg: "record_spend env cal c s = Inr (w, s') \<Longrightarrow> 0 \<le> ch_cost c"
  by (auto simp: record_spend_def Let_def spend_row_check_def spend_row_of_def split: if_splits)

lemma record_spend_step_bound:
  assumes "calendar_ok cal" and "ledger_ok s" and "record_spend env cal c s = Inr (w, s')"
    and "month_start cal (tx_now env) = month_start cal now"
  shows "period_consumption cal now (ch_workspace c) s' \<le> period_consumption cal now (ch_workspace c) s + ch_cost c"
  using record_spend_consumption(1)[OF assms(1-3)] record_spend_cost_nonneg[OF assms(3)]
    period_consumption_month[OF assms(4)] by simp

lemma charge_all_bound:
  assumes "calendar_ok cal" and "ledger_ok s" and "charge_all cal cs s = Inr s'"
    and "\<forall>(env, c) \<in> set cs. ch_workspace c = ws \<and> month_start cal (tx_now env) = month_start cal now"
  shows "period_consumption cal now ws s' \<le> period_consumption cal now ws s + sum_list (map (ch_cost \<circ> snd) cs)"
  using assms(2-)
proof (induction cs arbitrary: s)
  case Nil
  then show ?case by simp
next
  case (Cons ec cs)
  obtain env c where ec: "ec = (env, c)" by (cases ec)
  from Cons.prems(2) obtain w s1 where one: "record_spend env cal c s = Inr (w, s1)"
    and rest: "charge_all cal cs s1 = Inr s'" by (auto simp: ec)
  have ws: "ch_workspace c = ws" "month_start cal (tx_now env) = month_start cal now"
    using Cons.prems(3) by (auto simp: ec)
  show ?case
    using Cons.IH[OF record_spend_marks(1)[OF Cons.prems(1) one] rest] Cons.prems(3)
      record_spend_step_bound[OF assms(1) Cons.prems(1) one ws(2)] by (simp add: ec ws)
qed

lemma evaluate_budget_allows:
  "evaluate_budget cal now ws s = Inr d \<Longrightarrow> bd_allowed d \<longleftrightarrow>
    (\<forall>b. load_budget ws s = Some b \<longrightarrow> b_enforcement b = Enforce \<longrightarrow> period_consumption cal now ws s < b_limit b)"
  by (cases "load_budget ws s")
    (auto simp: evaluate_budget_def budget_decision_def bigint_def split: if_splits,
      (metis enforcement.exhaust)+)

lemma category_totals_sum:
  "sum_list (map ct_cost (category_totals xs)) = sum_list (map sp_cost xs)"
proof -
  have part: "sum_list (map sp_cost xs) =
      sum_list (map sp_cost (filter (\<lambda>x. sp_category x = AgentRunSpend) xs)) +
      sum_list (map sp_cost (filter (\<lambda>x. sp_category x = EmbeddingSpendCat) xs)) +
      sum_list (map sp_cost (filter (\<lambda>x. sp_category x = EvaluationJudgeSpend) xs))"
  proof (induction xs)
    case Nil
    then show ?case by simp
  next
    case (Cons x xs)
    then show ?case by (cases "sp_category x") simp_all
  qed
  have none: "sum_list (map sp_cost (filter (\<lambda>x. sp_category x = c) xs)) = 0"
    if "\<not> list_ex (\<lambda>x. sp_category x = c) xs" for c
  proof -
    have "filter (\<lambda>x. sp_category x = c) xs = []"
      using that by (auto simp: list_ex_iff filter_empty_conv)
    then show ?thesis by simp
  qed
  show ?thesis
    by (simp add: part category_totals_def category_total_def Let_def none)
qed

section \<open>A month of thirty days, and a workspace with a budget\<close>

definition sample_calendar :: calendar where
  "sample_calendar = \<lparr>month_start = (\<lambda>t. t div 1000 * 1000), next_month = (\<lambda>m. m + 1000)\<rparr>"

lemma sample_calendar_ok: "calendar_ok sample_calendar"
proof -
  have "t div 1000 * 1000 \<le> t \<and> t < t div 1000 * 1000 + 1000" for t :: int
    using div_mult_mod_eq[of t 1000] pos_mod_bound[of 1000 t] pos_mod_sign[of 1000 t] by linarith
  then show ?thesis by (simp add: calendar_ok_def sample_calendar_def)
qed

definition sample_budget :: budget_row where
  "sample_budget = \<lparr>b_workspace = 10, b_limit = 100, b_enforcement = Enforce, b_thresholds = [50, 100],
     b_issuer = ''iss'', b_subject = ''alice'', b_updated = 0\<rparr>"

definition budget_db :: db where
  "budget_db = running_db\<lparr>spend_budgets := [sample_budget]\<rparr>"

definition sample_charge :: charge where
  "sample_charge = \<lparr>ch_workspace = 10, ch_source_key = ''agent-run:20:step:0'', ch_category = AgentRunSpend,
     ch_provider = ''openai'', ch_model = ''m'', ch_input = 10, ch_output = 5, ch_cost = 60\<rparr>"

definition charged_row :: spend_row where
  "charged_row = spend_row_of (env_at 5 70) 0 sample_charge"

definition charged_db :: db where
  "charged_db = budget_db\<lparr>spend_records := [charged_row],
     spend_alerts := [new_alert (env_at 5 70) sample_calendar 1 sample_budget 60 50],
     alert_outbox := [new_alert_job (env_at 5 70) (new_alert (env_at 5 70) sample_calendar 1 sample_budget 60 50)]\<rparr>"

lemmas spend_sample_defs = sample_budget_def budget_db_def sample_charge_def charged_row_def charged_db_def
  sample_calendar_def sample_defs

lemma budget_db_ledger: "ledger_ok budget_db"
  by (simp add: ledger_ok_def spend_sample_defs)

lemma sample_charged:
  "record_spend (env_at 5 70) sample_calendar sample_charge budget_db =
    Inr (\<lparr>sw_recorded = True, sw_alerts = [50]\<rparr>, charged_db)"
  by (simp add: record_spend_def Let_def spend_row_check_def spend_row_of_def int4_def bigint_def
      charged_def sql_exists_def raise_threshold_alerts_def period_consumption_def period_records_def
      in_period_def load_budget_def raise_alerts_Cons crossed_def alerted_iff new_alert_def
      new_alert_job_def MAX_SOURCE_KEY_LENGTH_def spend_sample_defs)

section \<open>The properties\<close>

text \<open>C20: A unit of work is charged at most once. The first charge under a source key appends one
  row; a retry or a recovered attempt that charges the same key again, at any time and with any
  amounts, changes nothing and reports that nothing was recorded, so the key is never in the ledger
  twice.\<close>

theorem charged_once:
  assumes "ledger_ok s" and "record_spend env cal c s = Inr (w, s1)"
    and "ch_workspace c' = ch_workspace c" and "ch_source_key c' = ch_source_key c"
    and "record_spend env' cal c' s1 = Inr (w', s2)"
  shows "s2 = s1 \<and> \<not> sw_recorded w' \<and>
    length (filter (\<lambda>x. sp_workspace x = ch_workspace c \<and> sp_source_key x = ch_source_key c) (spend_records s1)) = 1"
proof -
  note m = record_spend_marks[OF assms(1,2)]
  let ?key = "\<lambda>x. (sp_workspace x, sp_source_key x)" and ?k = "(ch_workspace c, ch_source_key c)"
  have "distinct (map ?key (spend_records s1))" using m(1) by (simp add: ledger_ok_def)
  then have "length (filter (\<lambda>x. ?key x = ?k) (spend_records s1)) \<le> 1"
    by (intro length_le1_of_key[where key = ?key and k = ?k]) (auto simp: distinct_map_filter_key)
  moreover have "filter (\<lambda>x. ?key x = ?k) (spend_records s1) \<noteq> []"
    using m(2) by (auto simp: charged_iff filter_empty_conv)
  ultimately show ?thesis
    using record_spend_charged[OF _ assms(5)] m(2) assms(3,4) by (simp add: le_Suc_eq)
qed

theorem charged_once_witness:
  "length (filter (\<lambda>x. sp_workspace x = 10 \<and> sp_source_key x = ''agent-run:20:step:0'') (spend_records charged_db)) = 1"
proof -
  have again: "record_spend (env_at 9 90) sample_calendar sample_charge charged_db =
      Inr (\<lparr>sw_recorded = False, sw_alerts = []\<rparr>, charged_db)"
    by (simp add: record_spend_def Let_def spend_row_check_def spend_row_of_def int4_def bigint_def
        charged_def sql_exists_def MAX_SOURCE_KEY_LENGTH_def spend_sample_defs)
  from charged_once[OF budget_db_ledger sample_charged _ _ again] show ?thesis
    by (simp add: sample_charge_def)
qed

text \<open>C33: The alerts of a charge are the thresholds \<open>crossed_thresholds\<close> computes for the new
  consumption of the month, in ascending order, less those alerted before: the SQL statement agrees
  with the reference function, no crossing is missed, and none is alerted or queued for delivery
  twice.\<close>

theorem alerts_match_thresholds:
  assumes "ledger_ok s" and "record_spend env cal c s = Inr (w, s')"
    and "\<not> charged (ch_workspace c) (ch_source_key c) s"
  shows "sw_alerts w =
      filter (\<lambda>t. \<not> list_ex (\<lambda>a. alert_key a = (ch_workspace c, month_start cal (tx_now env), t)) (spend_alerts s))
        (case load_budget (ch_workspace c) s of None \<Rightarrow> []
         | Some b \<Rightarrow> crossed_thresholds (b_thresholds b) (Some (b_limit b))
             (period_consumption cal (tx_now env) (ch_workspace c) s')) \<and>
    alerts_current cal (tx_now env) (ch_workspace c) s' \<and>
    distinct (map alert_key (spend_alerts s')) \<and>
    map ao_alert (alert_outbox s') = map al_id (spend_alerts s')"
proof -
  note new = record_spend_fresh[OF assms(1,3,2)]
  have "map fst (map (\<lambda>x. (ao_alert x, ao_workspace x)) (alert_outbox s')) =
      map fst (map (\<lambda>a. (al_id a, al_workspace a)) (spend_alerts s'))"
    using new(4) by (simp add: ledger_ok_def)
  moreover have "list_ex (\<lambda>a. alert_key a = (ws, p, t)) (spend_alerts s) = alerted ws p t s" for ws p t
    by (simp add: alerted_def list_ex_iff)
  ultimately show ?thesis using new(4,5,7) by (simp add: ledger_ok_def comp_def)
qed

theorem alerts_match_thresholds_witness:
  "alerts_current sample_calendar 5 10 charged_db \<and> map ao_alert (alert_outbox charged_db) = [71]"
  using alerts_match_thresholds[OF budget_db_ledger sample_charged]
  by (simp add: charged_def sql_exists_def new_alert_def spend_sample_defs)

text \<open>C32: The budget check bounds the month. When it allows a call under an enforced limit, the
  month was below the limit, and whatever calls are then charged in the month, concurrently and in
  any order, leave it below the limit plus the sum of their costs.\<close>

theorem budget_overshoot_bounded:
  assumes "calendar_ok cal" and "ledger_ok s" and "load_budget ws s = Some b" and "b_enforcement b = Enforce"
    and "evaluate_budget cal now ws s = Inr d" and "bd_allowed d"
    and "list_all (\<lambda>(env, c). ch_workspace c = ws \<and> month_start cal (tx_now env) = month_start cal now) cs"
    and "charge_all cal cs s = Inr s'"
  shows "period_consumption cal now ws s' < b_limit b + sum_list (map (ch_cost \<circ> snd) cs)"
proof -
  have "period_consumption cal now ws s < b_limit b"
    using evaluate_budget_allows[OF assms(5)] assms(3,4,6) by blast
  moreover have "period_consumption cal now ws s' \<le>
      period_consumption cal now ws s + sum_list (map (ch_cost \<circ> snd) cs)"
    using assms(7) by (intro charge_all_bound[OF assms(1,2,8)]) (simp add: list_all_iff)
  ultimately show ?thesis by linarith
qed

theorem budget_overshoot_bounded_witness:
  "period_consumption sample_calendar 5 10 charged_db < 160"
proof -
  have b: "load_budget 10 budget_db = Some sample_budget" "b_enforcement sample_budget = Enforce"
    by (simp_all add: load_budget_def spend_sample_defs)
  have d: "evaluate_budget sample_calendar 5 10 budget_db =
      Inr \<lparr>bd_allowed = True, bd_reason = ''within_budget'', bd_limit = Some 100, bd_consumed = 0\<rparr>"
    by (simp add: evaluate_budget_def b period_consumption_def period_records_def bigint_def
        budget_decision_def) (simp add: spend_sample_defs bigint_def)
  have c: "charge_all sample_calendar [(env_at 5 70, sample_charge)] budget_db = Inr charged_db"
    by (simp add: sample_charged)
  show ?thesis
    using budget_overshoot_bounded[OF sample_calendar_ok budget_db_ledger b d _ _ c]
    by (simp add: sample_charge_def sample_budget_def env_at_def)
qed

text \<open>The check always decides while the month fits the column, as its three branches say.\<close>

lemma evaluate_budget_total:
  assumes "ledger_ok s" and "period_consumption cal now ws s < 2 ^ 63"
  shows "\<exists>d. evaluate_budget cal now ws s = Inr d \<and>
    (bd_allowed d \<longleftrightarrow> (case load_budget ws s of None \<Rightarrow> True
       | Some b \<Rightarrow> b_enforcement b = Monitor \<or> period_consumption cal now ws s < b_limit b)) \<and>
    bd_consumed d = period_consumption cal now ws s"
proof -
  let ?c = "period_consumption cal now ws s"
  have c: "0 \<le> ?c" by (rule period_consumption_nonneg[OF assms(1)])
  then have fit: "bigint ?c = Inr ?c" using assms(2) by (simp add: bigint_def)
  have "\<exists>d. evaluate_budget cal now ws s = Inr d \<and> bd_consumed d = ?c"
    using c by (cases "load_budget ws s") (simp_all add: evaluate_budget_def fit budget_decision_def)
  then obtain d where d: "evaluate_budget cal now ws s = Inr d" "bd_consumed d = ?c" by blast
  have "bd_allowed d \<longleftrightarrow> (case load_budget ws s of None \<Rightarrow> True
       | Some b \<Rightarrow> b_enforcement b = Monitor \<or> ?c < b_limit b)"
    using evaluate_budget_allows[OF d(1)]
    by (cases "load_budget ws s") (simp_all, metis enforcement.exhaust enforcement.distinct(1))
  with d show ?thesis by blast
qed

text \<open>A call is refused exactly when its workspace has an enforced budget whose limit the month
  has reached; without a budget, or with a monitored one, it is always allowed.\<close>

theorem budget_refusal:
  assumes "ledger_ok s" and "period_consumption cal now ws s < 2 ^ 63"
  shows "\<exists>d. evaluate_budget cal now ws s = Inr d \<and>
    (bd_allowed d \<longleftrightarrow> (case load_budget ws s of None \<Rightarrow> True
       | Some b \<Rightarrow> b_enforcement b = Monitor \<or> period_consumption cal now ws s < b_limit b)) \<and>
    bd_consumed d = period_consumption cal now ws s"
  by (rule evaluate_budget_total[OF assms])

theorem budget_refusal_witness:
  "\<exists>d. evaluate_budget sample_calendar 5 10 charged_db = Inr d \<and> bd_allowed d \<and> bd_consumed d = 60"
proof -
  have inv: "ledger_ok charged_db" by (rule record_spend_marks(1)[OF budget_db_ledger sample_charged])
  have c: "period_consumption sample_calendar 5 10 charged_db = 60"
    by (simp add: period_consumption_def period_records_def in_period_def spend_row_of_def spend_sample_defs)
  have b: "load_budget 10 charged_db = Some sample_budget"
    by (simp add: load_budget_def spend_sample_defs)
  from budget_refusal[OF inv, of sample_calendar 5 10] show ?thesis
    by (simp add: c b) (simp add: sample_budget_def)
qed

text \<open>The cost of a call is the least whole number of micros that covers the price of its
  tokens: it never undercharges, and overcharges by less than one micro.\<close>

theorem cost_is_rounded_up:
  assumes "policy_cost policy provider model i r = Inr c" and "price policy provider model = Inr p"
  shows "i * input_rate p + r * output_rate p \<le> c * 1000000 \<and>
    (\<forall>k. i * input_rate p + r * output_rate p \<le> k * 1000000 \<longrightarrow> c \<le> k)"
proof -
  have c: "cost_micros p i r = Inr c" using assms by (simp add: policy_cost_def)
  note b = cost_micros_bounds[OF c, unfolded TOKENS_PER_PRICE_UNIT_def]
  have "c \<le> k" if "i * input_rate p + r * output_rate p \<le> k * 1000000" for k
  proof -
    have "c * 1000000 < (k + 1) * 1000000" using that b(2) by (simp add: algebra_simps)
    then show ?thesis by simp
  qed
  with b(1) show ?thesis by blast
qed

theorem cost_is_rounded_up_witness:
  "policy_cost [((''openai'', ''m''), \<lparr>input_rate = 3, output_rate = 7\<rparr>)] ''openai'' ''m'' 1 0 = Inr 1 \<and>
    (3::int) \<le> 1 * 1000000"
proof -
  let ?p = "[((''openai'', ''m''), \<lparr>input_rate = 3, output_rate = 7\<rparr>)]"
  have c: "policy_cost ?p ''openai'' ''m'' 1 0 = Inr 1"
    by (simp add: policy_cost_def price_def cost_micros_def TOKENS_PER_PRICE_UNIT_def)
  have "price ?p ''openai'' ''m'' = Inr \<lparr>input_rate = 3, output_rate = 7\<rparr>"
    by (simp add: price_def)
  from cost_is_rounded_up[OF c this] c show ?thesis by simp
qed

text \<open>Two different units of paid work are never charged under one source key: the six key
  formats are injective and do not overlap, so exactly-once accounting never drops a charge.\<close>

theorem source_keys_distinct: "inj source_key"
  using source_key_inj by (rule injI)

text \<open>The category totals of a summary add up to the consumption of the month, and the summary
  says that the budget is exhausted exactly when the pre-call check refuses.\<close>

theorem summary_consistent:
  assumes "spend_summary cal now pr ws s = Inr x"
  shows "sum_list (map ct_cost (su_categories x)) = su_consumed x \<and>
    (\<exists>d. evaluate_budget cal now ws s = Inr d \<and> su_exhausted x = (\<not> bd_allowed d) \<and>
       su_remaining x = remaining_micros d)"
proof -
  from assms obtain d where d: "evaluate_budget cal now ws s = Inr d" "su_exhausted x = (\<not> bd_allowed d)"
    "su_remaining x = remaining_micros d" and c: "su_consumed x = period_consumption cal now ws s"
    and cat: "su_categories x = category_totals (period_records cal now ws s)"
    by (auto simp: spend_summary_def evaluate_budget_def bigint_def Let_def split: if_splits)
  from d show ?thesis by (simp add: cat c category_totals_sum period_consumption_def)
qed

theorem summary_consistent_witness:
  "\<exists>x. spend_summary sample_calendar 5 bob 10 charged_db = Inr x \<and>
    sum_list (map ct_cost (su_categories x)) = su_consumed x \<and> su_consumed x = 60"
proof -
  have "\<exists>x. spend_summary sample_calendar 5 bob 10 charged_db = Inr x \<and> su_consumed x = 60"
    by (simp add: spend_summary_def scoped_def find_workspace_def member_role_def authorize_def
        period_consumption_def period_records_def in_period_def spend_row_of_def bigint_def Let_def
        load_budget_def budget_decision_def spend_sample_defs)
  with summary_consistent show ?thesis by blast
qed

end
