(* ===== verification/Rag_Properties.thy ===== *)
theory Rag_Properties
  imports Rag
begin

text \<open>
  The chunks of a document cover it, stay within their bounds and always exist; a citation names one
  source and version.
\<close>

section \<open>One chunk\<close>

lemma substr_length: "e \<le> length s \<Longrightarrow> length (substr s st e) = e - st"
  by (simp add: substr_def)

lemma substr_nth: "st + i < e \<Longrightarrow> e \<le> length s \<Longrightarrow> substr s st e ! i = s ! (st + i)"
  by (simp add: substr_def)

lemma chunk_at_mem:
  assumes "c \<in> set (chunk_at s i st e)" and "e \<le> length s"
  shows "st \<le> tc_start c" "tc_start c < tc_end c" "tc_end c \<le> e" "tc_index c = i"
    "tc_content c = substr s (tc_start c) (tc_end c)" "tc_hash c = sha256_hex (tc_content c)"
proof -
  let ?seg = "substr s st e"
  let ?n = "length ?seg - length (lstrip ?seg)" and ?k = "length (rstrip ?seg)"
  have nb: "\<not> list_all py_space ?seg" and c: "c = \<lparr>tc_index = i, tc_start = st + ?n, tc_end = st + ?k,
      tc_content = strip ?seg, tc_hash = sha256_hex (strip ?seg)\<rparr>"
    using assms(1) by (auto simp: chunk_at_def Let_def strip_empty split: if_splits)
  note st = strip_slice[OF nb]
  have k: "?k \<le> e - st" using rstrip_length[of ?seg] substr_length[OF assms(2), of st] by simp
  have "rstrip ?seg = take ?k (drop st s)"
    using rstrip_take[of ?seg] k by (simp add: substr_def min_absorb1)
  then have "strip ?seg = substr s (st + ?n) (st + ?k)"
    unfolding st(1) drop_take_substr[symmetric] by (rule arg_cong)
  with c st(2) k show "st \<le> tc_start c" "tc_start c < tc_end c" "tc_end c \<le> e" "tc_index c = i"
    "tc_content c = substr s (tc_start c) (tc_end c)" "tc_hash c = sha256_hex (tc_content c)"
    by (auto simp del: )
qed

lemma chunk_at_covers:
  assumes "st \<le> j" and "j < e" and "e \<le> length s" and "\<not> py_space (s ! j)"
  shows "\<exists>c \<in> set (chunk_at s i st e). tc_start c \<le> j \<and> j < tc_end c"
proof -
  let ?seg = "substr s st e"
  have len: "j - st < length ?seg" using assms(1-3) by (simp add: substr_length)
  have at: "\<not> py_space (?seg ! (j - st))" using assms by (simp add: substr_nth)
  note cov = strip_covers[OF len at]
  have "\<not> list_all py_space ?seg" using len at by (metis list_all_length)
  then have "strip ?seg \<noteq> []" by (simp add: strip_empty)
  then show ?thesis using cov assms(1) by (simp add: chunk_at_def Let_def) linarith
qed

lemma chunk_at_index: "map tc_index (chunk_at s i st e) = [i..<i + length (chunk_at s i st e)]"
  by (simp add: chunk_at_def Let_def)

section \<open>The loop\<close>

lemma chunk_loop_mem:
  "c \<in> set (chunk_loop s m ov i st) \<Longrightarrow>
    st \<le> tc_start c \<and> tc_start c < tc_end c \<and> tc_end c \<le> length s \<and> tc_end c - tc_start c \<le> m \<and>
    tc_content c = substr s (tc_start c) (tc_end c) \<and> tc_hash c = sha256_hex (tc_content c)"
proof (induction s m ov i st rule: chunk_loop.induct)
  case (1 s m ov i st)
  show ?case
  proof (cases "length s \<le> st \<or> m = 0")
    case True
    with "1.prems" show ?thesis by (simp add: chunk_loop.simps[of s])
  next
    case False
    let ?e = "chunk_end s m st"
    note e = chunk_end_bounds[of st s m]
    from False "1.prems" consider "c \<in> set (chunk_at s i st ?e)"
      | "\<not> length s \<le> ?e" "c \<in> set (chunk_loop s m ov (i + length (chunk_at s i st ?e))
            (if ?e - ov \<le> st then ?e else ?e - ov))"
      by (auto simp: chunk_loop.simps[of s m ov i st] Let_def split: if_splits)
    then show ?thesis
    proof cases
      case 1
      from chunk_at_mem[OF this] e False show ?thesis by auto
    next
      case 2
      have "st \<le> (if ?e - ov \<le> st then ?e else ?e - ov)" using e False by auto
      with "1.IH"[OF False refl refl 2] show ?thesis by auto
    qed
  qed
qed

lemma chunk_loop_covers:
  "st \<le> j \<Longrightarrow> j < length s \<Longrightarrow> \<not> py_space (s ! j) \<Longrightarrow> 0 < m \<Longrightarrow>
    \<exists>c \<in> set (chunk_loop s m ov i st). tc_start c \<le> j \<and> j < tc_end c"
proof (induction s m ov i st rule: chunk_loop.induct)
  case (1 s m ov i st)
  then have go: "\<not> (length s \<le> st \<or> m = 0)" by simp
  let ?e = "chunk_end s m st" and ?cs = "chunk_at s i st (chunk_end s m st)"
  note e = chunk_end_bounds[of st s m]
  have loop: "chunk_loop s m ov i st = ?cs @ (if length s \<le> ?e then []
      else chunk_loop s m ov (i + length ?cs) (if ?e - ov \<le> st then ?e else ?e - ov))"
    using go by (simp add: chunk_loop.simps[of s m ov i st] Let_def)
  show ?case
  proof (cases "j < ?e")
    case True
    have "\<exists>c \<in> set ?cs. tc_start c \<le> j \<and> j < tc_end c"
      by (rule chunk_at_covers) (use True e go "1.prems" in auto)
    then show ?thesis unfolding loop by auto
  next
    case False
    with "1.prems" have more: "\<not> length s \<le> ?e" by simp
    have "\<exists>c \<in> set (chunk_loop s m ov (i + length ?cs) (if ?e - ov \<le> st then ?e else ?e - ov)).
        tc_start c \<le> j \<and> j < tc_end c"
      by (rule "1.IH"[OF go refl refl more]) (use False "1.prems" in auto)
    then show ?thesis unfolding loop using more by auto
  qed
qed

lemma upt_join: "[i..<i + a] @ [i + a..<i + a + b] = [i..<i + a + (b::nat)]"
  using upt_add_eq_append[of i "i + a" b] by simp

lemma chunk_loop_index:
  "map tc_index (chunk_loop s m ov i st) = [i..<i + length (chunk_loop s m ov i st)]"
proof (induction s m ov i st rule: chunk_loop.induct)
  case (1 s m ov i st)
  show ?case
  proof (cases "length s \<le> st \<or> m = 0")
    case True
    then show ?thesis by (simp add: chunk_loop.simps[of s])
  next
    case False
    let ?e = "chunk_end s m st" and ?cs = "chunk_at s i st (chunk_end s m st)"
    have loop: "chunk_loop s m ov i st = ?cs @ (if length s \<le> ?e then []
        else chunk_loop s m ov (i + length ?cs) (if ?e - ov \<le> st then ?e else ?e - ov))"
      using False by (simp add: chunk_loop.simps[of s m ov i st] Let_def)
    show ?thesis
    proof (cases "length s \<le> ?e")
      case True
      then show ?thesis unfolding loop by (simp add: chunk_at_index)
    next
      case more: False
      then have "map tc_index (chunk_loop s m ov i st) =
          [i..<i + length ?cs] @ [i + length ?cs..<i + length ?cs + length
            (chunk_loop s m ov (i + length ?cs) (if ?e - ov \<le> st then ?e else ?e - ov))]"
        using "1.IH"[OF False refl refl more] by (simp only: loop map_append chunk_at_index if_False)
      then show ?thesis unfolding upt_join by (simp only: loop if_False more length_append add.assoc)
    qed
  qed
qed

section \<open>The properties\<close>

text \<open>C37: Chunking a document always ends with its chunks. For valid bounds it fails only on a blank
  document; otherwise there is at least one chunk, the chunks are numbered from zero, each is the text
  between its offsets, at most \<open>max_chars\<close> long and with its digest, and every character of the
  normalised document that is not white space lies in a chunk.\<close>

theorem chunks_cover_document:
  assumes "200 \<le> m" and "m \<le> 4000" and "0 \<le> ov" and "ov < m" and "normalize_document s = Inr n"
  shows "\<exists>cs. chunk_text s m ov = Inr cs \<and> cs \<noteq> [] \<and> map tc_index cs = [0..<length cs] \<and>
    (\<forall>c \<in> set cs. tc_content c = substr n (tc_start c) (tc_end c) \<and> tc_start c < tc_end c \<and>
       tc_end c \<le> length n \<and> int (length (tc_content c)) \<le> m \<and> tc_hash c = sha256_hex (tc_content c)) \<and>
    (\<forall>j < length n. py_space (n ! j) \<or> (\<exists>c \<in> set cs. tc_start c \<le> j \<and> j < tc_end c))"
proof -
  let ?cs = "chunk_loop n (nat m) (nat ov) 0 0"
  have cover: "\<exists>c \<in> set ?cs. tc_start c \<le> j \<and> j < tc_end c" if "j < length n" "\<not> py_space (n ! j)" for j
    using that assms(1) by (intro chunk_loop_covers) auto
  obtain t where t: "n = strip t" "n \<noteq> []"
    using assms(5) by (auto simp: normalize_document_def Let_def split: if_splits)
  have "\<not> list_all py_space n" using strip_nonblank[of t] strip_empty[of t] t by simp
  then obtain j where "j < length n" "\<not> py_space (n ! j)" by (auto simp: list_all_length)
  with cover[OF this] have ne: "?cs \<noteq> []" by auto
  have each: "tc_content c = substr n (tc_start c) (tc_end c) \<and> tc_start c < tc_end c \<and>
       tc_end c \<le> length n \<and> int (length (tc_content c)) \<le> m \<and> tc_hash c = sha256_hex (tc_content c)"
    if "c \<in> set ?cs" for c
  proof -
    note mem = chunk_loop_mem[OF that]
    then have "length (tc_content c) = tc_end c - tc_start c" by (simp add: substr_length)
    with mem assms(1) have "int (length (tc_content c)) \<le> m" by linarith
    with mem show ?thesis by simp
  qed
  have "chunk_text s m ov = Inr ?cs" using assms ne by (simp add: chunk_text_def Let_def)
  moreover have "map tc_index ?cs = [0..<length ?cs]" using chunk_loop_index[of n "nat m" "nat ov" 0 0] by simp
  ultimately show ?thesis using ne each cover by blast
qed

theorem chunks_cover_document_witness:
  "\<exists>cs. chunk_text (''ab cd'' @ newline) 200 20 = Inr cs \<and> cs \<noteq> [] \<and> map tc_index cs = [0..<length cs]"
proof -
  have "normalize_document (''ab cd'' @ newline) = Inr ''ab cd''"
    by code_simp
  from chunks_cover_document[OF _ _ _ _ this, of 200 20] show ?thesis by auto
qed

section \<open>Citations\<close>

lemma utf8_char_inj: "utf8_char c @ xs = utf8_char d @ ys \<Longrightarrow> c = d \<and> xs = ys"
proof -
  assume eq: "utf8_char c @ xs = utf8_char d @ ys"
  let ?m = "of_char c :: nat" and ?n = "of_char d :: nat"
  have lt: "?m < 256" "?n < 256" by simp_all
  have "(?m = ?n \<or> ?m div 64 = ?n div 64 \<and> ?m mod 64 = ?n mod 64) \<and> xs = ys"
    using eq lt by (auto simp: utf8_char_def Let_def split: if_splits)
  then have same: "?m = ?n \<and> xs = ys" by (metis div_mult_mod_eq)
  then show ?thesis by (metis of_char_eq_iff)
qed

lemma utf8_inj: "utf8 s = utf8 t \<Longrightarrow> s = t"
proof (induction s arbitrary: t)
  case Nil
  then show ?case by (cases t) (auto simp: utf8_def utf8_char_def Let_def split: if_splits)
next
  case (Cons c s)
  show ?case
  proof (cases t)
    case Nil
    with Cons.prems show ?thesis by (auto simp: utf8_def utf8_char_def Let_def split: if_splits)
  next
    case (Cons d u)
    with Cons.prems have "utf8_char c @ utf8 s = utf8_char d @ utf8 u" by (simp add: utf8_def)
    with Cons Cons.IH show ?thesis using utf8_char_inj by blast
  qed
qed

lemma utf8_byte: "n \<in> set (utf8 s) \<Longrightarrow> n < 256"
proof (induction s)
  case Nil
  then show ?case by simp
next
  case (Cons c s)
  have "(of_char c :: nat) < 4 * 64" using nat_of_char_less_256[of c] by simp
  then have "(of_char c :: nat) div 64 < 4" by (rule less_mult_imp_div_less)
  then have "\<forall>m \<in> set (utf8_char c). m < 256" by (auto simp: utf8_char_def Let_def)
  with Cons show ?case by (auto simp: utf8_def)
qed

lemma of_upper_hex: "n < 16 \<Longrightarrow> (of_char (upper_hex n) :: nat) = (if n < 10 then 48 + n else 55 + n)"
  by (simp add: upper_hex_def)

lemma upper_hex_inj: "m < 16 \<Longrightarrow> n < 16 \<Longrightarrow> upper_hex m = upper_hex n \<Longrightarrow> m = n"
proof -
  assume b: "m < 16" "n < 16" and eq: "upper_hex m = upper_hex n"
  have "(if m < 10 then 48 + m else 55 + m) = (if n < 10 then 48 + n else (55::nat) + n)"
    using of_upper_hex[OF b(1)] of_upper_hex[OF b(2)] unfolding eq by (rule trans[OF sym])
  with b show "m = n" by (simp split: if_splits)
qed

lemma unreserved_less: "unreserved n \<Longrightarrow> n < 128 \<and> n \<noteq> 37 \<and> n \<noteq> 64"
  by (auto simp: unreserved_def)

lemma char_of_eq: "m < 256 \<Longrightarrow> n < 256 \<Longrightarrow> (char_of (m::nat) = char_of n) = (m = n)"
  using inj_on_eq_iff[OF inj_on_char_of_nat, of m n] by simp

lemma percent: "CHR ''%'' = char_of (37::nat)"
  by code_simp

lemma quote_byte_inj:
  assumes "m < 256" and "n < 256" and "quote_byte m @ xs = quote_byte n @ ys"
  shows "m = n \<and> xs = ys"
proof -
  have hex: "m div 16 < 16" "n div 16 < 16" "m mod 16 < 16" "n mod 16 < 16" using assms(1,2) by auto
  consider "unreserved m" "unreserved n" | "unreserved m" "\<not> unreserved n" | "\<not> unreserved m" "unreserved n"
    | "\<not> unreserved m" "\<not> unreserved n" by blast
  then show ?thesis
  proof cases
    case 1
    with assms show ?thesis by (simp add: quote_byte_def char_of_eq)
  next
    case 2
    with assms unreserved_less[OF 2(1)] show ?thesis by (simp add: quote_byte_def percent char_of_eq)
  next
    case 3
    with assms unreserved_less[OF 3(2)] show ?thesis by (simp add: quote_byte_def percent char_of_eq)
  next
    case 4
    then have "upper_hex (m div 16) = upper_hex (n div 16)" "upper_hex (m mod 16) = upper_hex (n mod 16)" "xs = ys"
      using assms(3) by (simp_all add: quote_byte_def)
    then have "m div 16 = n div 16" "m mod 16 = n mod 16" using upper_hex_inj hex by blast+
    then show ?thesis using \<open>xs = ys\<close> by (metis div_mult_mod_eq)
  qed
qed

lemma quote_bytes_inj:
  "\<forall>n \<in> set xs \<union> set ys. n < 256 \<Longrightarrow> concat (map quote_byte xs) = concat (map quote_byte ys) \<Longrightarrow> xs = ys"
proof (induction xs arbitrary: ys)
  case Nil
  then show ?case by (cases ys) (auto simp: quote_byte_def split: if_splits)
next
  case (Cons x xs)
  then obtain y zs where ys: "ys = y # zs" by (cases ys) (auto simp: quote_byte_def split: if_splits)
  with Cons.prems have "x = y \<and> concat (map quote_byte xs) = concat (map quote_byte zs)"
    by (intro quote_byte_inj) auto
  with Cons ys show ?case by auto
qed

lemma quote_inj: "quote s = quote t \<Longrightarrow> s = t"
  unfolding quote_def using quote_bytes_inj[of "utf8 s" "utf8 t"] utf8_byte utf8_inj by blast

lemma quote_no_at: "CHR ''@'' \<notin> set (quote s)"
proof -
  have byte: "of_char c \<noteq> (64::nat)" if "n < 256" and "c \<in> set (quote_byte n)" for n c
  proof -
    have hex: "n div 16 < 16" "n mod 16 < 16" using that(1) by auto
    from that(2) consider "unreserved n" "c = char_of n" | "c = CHR ''%''" | "c = upper_hex (n div 16)"
      | "c = upper_hex (n mod 16)"
      by (auto simp: quote_byte_def split: if_splits)
    then show ?thesis
    proof cases
      case 1
      then have "of_char c = n" using that(1) by (simp add: of_char_of del: of_char_mod_256) 
      with unreserved_less[OF 1(1)] show ?thesis by simp
    next
      case 2
      then show ?thesis by simp
    next
      case 3
      then show ?thesis using of_upper_hex[OF hex(1)] hex by (simp split: if_splits)
    next
      case 4
      then show ?thesis using of_upper_hex[OF hex(2)] hex by (simp split: if_splits)
    qed
  qed
  show ?thesis
  proof
    assume "CHR ''@'' \<in> set (quote s)"
    then obtain n where "n \<in> set (utf8 s)" "CHR ''@'' \<in> set (quote_byte n)" by (auto simp: quote_def)
    from byte[OF utf8_byte[OF this(1)] this(2)] show False by simp
  qed
qed

text \<open>A citation identifies its evidence: two sources or two versions of a source never share a
  citation identifier, whatever characters their keys contain.\<close>

theorem citations_distinct:
  "retrieval_citation_id k v = retrieval_citation_id k' v' \<longleftrightarrow> k = k' \<and> v = v'"
proof
  assume "retrieval_citation_id k v = retrieval_citation_id k' v'"
  then have eq: "quote k @ CHR ''@'' # quote v = quote k' @ CHR ''@'' # quote v'"
    by (simp add: retrieval_citation_id_def)
  then have "quote k = quote k' \<and> quote v = quote v'"
    using append_Cons_eq_iff[OF quote_no_at[of k] quote_no_at[of v]] by blast
  then show "k = k' \<and> v = v'" using quote_inj by blast
qed simp

end
