(* ===== verification/Model_Routing.thy ===== *)
theory Model_Routing
  imports Json
begin

text \<open>
  Model routing (\<open>model_routing.py\<close>): the vendor-neutral values a provider adapter exchanges with the
  executor, and the router that picks a candidate under the policy of a request.
\<close>

section \<open>Values at the provider boundary\<close>

datatype capability = TextCap | ToolsCap | StructuredOutput | Streaming

datatype provider_health = Healthy | Degraded | Unhealthy

record model_candidate =
  mc_provider :: string
  mc_model :: string
  mc_capabilities :: "capability list"
  mc_quality :: int
  mc_cost :: int

record routing_request =
  rq_capabilities :: "capability list"
  rq_providers :: "string list"
  rq_max_quality :: "int option"
  rq_max_cost :: "int option"

record routing_decision =
  rd_candidate :: model_candidate
  rd_reason :: string

record provider_tool_call =
  pc_id :: string
  pc_name :: string
  pc_arguments :: dict

record provider_message =
  pm_role :: string
  pm_content :: string
  pm_tool_call :: "provider_tool_call option"
  pm_tool_call_id :: "string option"

record provider_tool =
  pt_name :: string
  pt_description :: string
  pt_schema :: json

record provider_request =
  pq_id :: string
  pq_messages :: "provider_message list"
  pq_tools :: "provider_tool list"
  pq_max_output :: int

record provider_usage =
  us_input :: int
  us_output :: int

record provider_response =
  rs_text :: "string option"
  rs_tool_calls :: "provider_tool_call list"
  rs_structured :: "dict option"
  rs_usage :: provider_usage
  rs_finish :: string

section \<open>The router\<close>

record model_router =
  mo_candidates :: "model_candidate list"
  mo_health :: "(string \<times> provider_health) list"

definition new_router :: "model_candidate list \<Rightarrow> (string \<times> provider_health) list \<Rightarrow> model_router res" where
  "new_router cs h =
    (if cs = [] then Inl (ValueError ''at least one model candidate is required'')
     else Inr \<lparr>mo_candidates = cs, mo_health = h\<rparr>)"

definition provider_health :: "model_router \<Rightarrow> string \<Rightarrow> provider_health" where
  "provider_health r p = (case map_of (mo_health r) p of None \<Rightarrow> Healthy | Some h \<Rightarrow> h)"

definition set_provider_health :: "string \<Rightarrow> provider_health \<Rightarrow> model_router \<Rightarrow> model_router" where
  "set_provider_health p h r = r\<lparr>mo_health := (p, h) # filter (\<lambda>(q, _). q \<noteq> p) (mo_health r)\<rparr>"

definition policy_eligible :: "routing_request \<Rightarrow> model_candidate \<Rightarrow> bool" where
  "policy_eligible q c \<longleftrightarrow> mc_provider c \<in> set (rq_providers q) \<and>
    list_all (\<lambda>k. k \<in> set (mc_capabilities c)) (rq_capabilities q) \<and>
    (case rq_max_quality q of None \<Rightarrow> True | Some m \<Rightarrow> mc_quality c \<le> m) \<and>
    (case rq_max_cost q of None \<Rightarrow> True | Some m \<Rightarrow> mc_cost c \<le> m)"

definition route_key :: "model_router \<Rightarrow> model_candidate \<Rightarrow> bool \<times> int \<times> int \<times> string \<times> string" where
  "route_key r c = (provider_health r (mc_provider c) \<noteq> Healthy, - mc_quality c, mc_cost c,
     mc_provider c, mc_model c)"

definition route :: "model_router \<Rightarrow> routing_request \<Rightarrow> routing_decision res" where
  "route r q =
    (let allowed = filter (policy_eligible q) (mo_candidates r);
         eligible = filter (\<lambda>c. provider_health r (mc_provider c) \<noteq> Unhealthy) allowed
     in if allowed = [] then Inl (ProviderError ''no_compatible_model'' False)
        else if eligible = [] then Inl (ProviderError ''no_healthy_provider'' True)
        else let c = hd (sort_key (route_key r) eligible)
          in Inr \<lparr>rd_candidate = c,
            rd_reason = (if provider_health r (mc_provider c) = Healthy
              then ''capabilities_policy_health_quality_cost''
              else ''capabilities_policy_degraded_fallback_quality_cost'')\<rparr>)"

section \<open>The choice\<close>

definition candidates_for :: "model_router \<Rightarrow> routing_request \<Rightarrow> model_candidate list" where
  "candidates_for r q =
    filter (\<lambda>c. policy_eligible q c \<and> provider_health r (mc_provider c) \<noteq> Unhealthy) (mo_candidates r)"

lemma hd_sort_key:
  assumes "xs \<noteq> []"
  shows "hd (sort_key k xs) \<in> set xs" "\<And>y. y \<in> set xs \<Longrightarrow> k (hd (sort_key k xs)) \<le> k y"
proof -
  have ne: "sort_key k xs \<noteq> []" using assms by (metis length_0_conv length_sort)
  from hd_in_set[OF this] show "hd (sort_key k xs) \<in> set xs" by simp
  fix y assume "y \<in> set xs"
  then have "y \<in> set (sort_key k xs)" by simp
  moreover have "sorted (map k (sort_key k xs))" by simp
  ultimately show "k (hd (sort_key k xs)) \<le> k y"
    using ne by (cases "sort_key k xs") auto
qed

lemma route_Inr:
  assumes "route r q = Inr d"
  shows "rd_candidate d = hd (sort_key (route_key r) (candidates_for r q))" "candidates_for r q \<noteq> []"
    "rd_reason d = (if provider_health r (mc_provider (rd_candidate d)) = Healthy
       then ''capabilities_policy_health_quality_cost''
       else ''capabilities_policy_degraded_fallback_quality_cost'')"
  using assms by (auto simp: route_def Let_def candidates_for_def split: if_splits)

lemma route_total:
  "route r q = (if filter (policy_eligible q) (mo_candidates r) = [] then Inl (ProviderError ''no_compatible_model'' False)
    else if candidates_for r q = [] then Inl (ProviderError ''no_healthy_provider'' True)
    else Inr \<lparr>rd_candidate = hd (sort_key (route_key r) (candidates_for r q)),
      rd_reason = (if provider_health r (mc_provider (hd (sort_key (route_key r) (candidates_for r q)))) = Healthy
        then ''capabilities_policy_health_quality_cost''
        else ''capabilities_policy_degraded_fallback_quality_cost'')\<rparr>)"
  by (simp add: route_def Let_def candidates_for_def conj_commute)

section \<open>The properties\<close>

definition sample_router :: model_router where
  "sample_router = \<lparr>mo_candidates =
     [\<lparr>mc_provider = ''openai'', mc_model = ''m'', mc_capabilities = [TextCap, ToolsCap], mc_quality = 2, mc_cost = 9\<rparr>,
      \<lparr>mc_provider = ''local'', mc_model = ''s'', mc_capabilities = [TextCap], mc_quality = 1, mc_cost = 1\<rparr>],
     mo_health = [(''openai'', Degraded)]\<rparr>"

definition sample_request :: routing_request where
  "sample_request = \<lparr>rq_capabilities = [TextCap], rq_providers = [''openai'', ''local''],
     rq_max_quality = None, rq_max_cost = None\<rparr>"

text \<open>Routing never relaxes the policy. The chosen candidate comes from an allowed provider that is
  not unhealthy, has every required capability and respects the quality and cost ceilings; a degraded
  provider is chosen only when no healthy one qualifies, and among equals in health the candidate has
  the highest quality, then the lowest cost, then the least names.\<close>

theorem route_respects_policy:
  assumes "route r q = Inr d"
  shows "rd_candidate d \<in> set (mo_candidates r) \<and> policy_eligible q (rd_candidate d) \<and>
    provider_health r (mc_provider (rd_candidate d)) \<noteq> Unhealthy \<and>
    (\<forall>c \<in> set (candidates_for r q). route_key r (rd_candidate d) \<le> route_key r c) \<and>
    (provider_health r (mc_provider (rd_candidate d)) = Degraded \<longrightarrow>
       (\<forall>c \<in> set (candidates_for r q). provider_health r (mc_provider c) \<noteq> Healthy))"
proof -
  note d = route_Inr[OF assms]
  have mem: "rd_candidate d \<in> set (candidates_for r q)" and least:
    "\<And>c. c \<in> set (candidates_for r q) \<Longrightarrow> route_key r (rd_candidate d) \<le> route_key r c"
    using hd_sort_key[OF d(2), where k = "route_key r"] unfolding d(1) by blast+
  have "provider_health r (mc_provider c) \<noteq> Healthy"
    if "provider_health r (mc_provider (rd_candidate d)) = Degraded" "c \<in> set (candidates_for r q)" for c
    using least[OF that(2)] that(1) by (auto simp: route_key_def less_eq_prod_def)
  with mem least show ?thesis by (auto simp: candidates_for_def)
qed

theorem route_respects_policy_witness:
  "\<exists>d. route sample_router sample_request = Inr d \<and> mc_provider (rd_candidate d) = ''local''"
proof -
  have "\<exists>d. route sample_router sample_request = Inr d"
    unfolding route_total
    by (simp add: candidates_for_def sample_router_def sample_request_def policy_eligible_def provider_health_def)
  then obtain d where d: "route sample_router sample_request = Inr d" by blast
  have c: "rd_candidate d \<in> set (mo_candidates sample_router)"
    "provider_health sample_router (mc_provider (rd_candidate d)) = Degraded \<longrightarrow>
       (\<forall>c \<in> set (candidates_for sample_router sample_request). provider_health sample_router (mc_provider c) \<noteq> Healthy)"
    using route_respects_policy[OF d] by blast+
  have "\<exists>c \<in> set (candidates_for sample_router sample_request). provider_health sample_router (mc_provider c) = Healthy"
    by (simp add: candidates_for_def sample_router_def sample_request_def policy_eligible_def provider_health_def)
  with c d show ?thesis by (auto simp: sample_router_def provider_health_def)
qed

text \<open>The route does not depend on the order in which the operator lists the candidates, as long as
  no provider lists a model twice.\<close>

theorem route_order_independent:
  assumes "mset (mo_candidates r) = mset (mo_candidates r')" and "mo_health r = mo_health r'"
    and "distinct (map (\<lambda>c. (mc_provider c, mc_model c)) (mo_candidates r))"
  shows "route r q = route r' q"
proof -
  have key: "route_key r = route_key r'" and h: "provider_health r = provider_health r'"
    using assms(2) by (auto simp: fun_eq_iff route_key_def provider_health_def)
  have cand: "mset (candidates_for r q) = mset (candidates_for r' q)"
    using assms(1) by (simp add: candidates_for_def h)
  have "inj_on (route_key r) (set (candidates_for r q))"
  proof (rule inj_onI)
    fix a b assume ab: "a \<in> set (candidates_for r q)" "b \<in> set (candidates_for r q)" "route_key r a = route_key r b"
    then have "(mc_provider a, mc_model a) = (mc_provider b, mc_model b)" by (simp add: route_key_def)
    moreover have "a \<in> set (mo_candidates r)" "b \<in> set (mo_candidates r)" using ab by (simp_all add: candidates_for_def)
    ultimately show "a = b" using assms(3) by (auto simp: distinct_map dest: inj_onD)
  qed
  then have "sort_key (route_key r) (candidates_for r q) = sort_key (route_key r) (candidates_for r' q)"
    using cand by (intro sort_key_inj_key_eq) simp_all
  moreover have "candidates_for r q = [] \<longleftrightarrow> candidates_for r' q = []"
    using cand by (metis mset_zero_iff)
  moreover have "filter (policy_eligible q) (mo_candidates r) = [] \<longleftrightarrow> filter (policy_eligible q) (mo_candidates r') = []"
    using assms(1) by (metis mset_filter mset_zero_iff)
  ultimately show ?thesis unfolding route_total by (simp add: key h)
qed

theorem route_order_independent_witness:
  "route sample_router sample_request = route (sample_router\<lparr>mo_candidates := rev (mo_candidates sample_router)\<rparr>) sample_request"
  by (rule route_order_independent) (simp_all add: sample_router_def)

end
