(* ===== verification/Executor_Store.thy ===== *)
theory Executor_Store
  imports Spend_Ledger Execution_Fence Model_Routing Rag
begin

text \<open>
  The journal of the executor (\<open>executor_store.py\<close>): model steps and their charges, the answer cache and
  the retrieval snapshot of a run, each behind the execution fence. A stored response is the JSON that
  \<open>encode_response\<close> writes; a value of another shape is refused by \<open>decode_response\<close> where Python would
  build the dataclass and fail at its first use. The order of keys that \<open>jsonb\<close> does not keep and the
  metrics are left out. Distances between embeddings are computed by the database: a parameter.
\<close>

section \<open>Responses as JSON\<close>

definition encode_call :: "provider_tool_call \<Rightarrow> json" where
  "encode_call c = JObj [(''id'', JStr (pc_id c)), (''name'', JStr (pc_name c)), (''arguments'', JObj (pc_arguments c))]"

definition encode_usage :: "provider_usage \<Rightarrow> json" where
  "encode_usage u = JObj [(''input_tokens'', JInt (us_input u)), (''output_tokens'', JInt (us_output u))]"

definition encode_response :: "provider_response \<Rightarrow> json" where
  "encode_response r = JObj [(''text'', json_opt JStr (rs_text r)),
     (''tool_calls'', JArr (map encode_call (rs_tool_calls r))),
     (''structured_output'', json_opt JObj (rs_structured r)), (''usage'', encode_usage (rs_usage r)),
     (''finish_reason'', JStr (rs_finish r))]"

definition field :: "dict \<Rightarrow> string \<Rightarrow> json res" where
  "field d k = (case map_of d k of None \<Rightarrow> Inl (KeyError k) | Some v \<Rightarrow> Inr v)"

text \<open>\<open>ProviderToolCall(**call)\<close> and \<open>ProviderUsage(**usage)\<close>: exactly the declared keywords.\<close>

definition exact_keys :: "dict \<Rightarrow> string list \<Rightarrow> bool" where
  "exact_keys d ks \<longleftrightarrow> list_all (\<lambda>k. k \<in> set ks) (map fst d) \<and> list_all (\<lambda>k. k \<in> set (map fst d)) ks"

fun decode_call :: "json \<Rightarrow> provider_tool_call res" where
  "decode_call (JObj d) =
    (if \<not> exact_keys d [''id'', ''name'', ''arguments''] then Inl (TypeError ''ProviderToolCall'')
     else case (map_of d ''id'', map_of d ''name'', map_of d ''arguments'') of
       (Some (JStr i), Some (JStr n), Some (JObj a)) \<Rightarrow> Inr \<lparr>pc_id = i, pc_name = n, pc_arguments = a\<rparr>
     | _ \<Rightarrow> Inl (TypeError ''ProviderToolCall''))"
| "decode_call _ = Inl (TypeError ''ProviderToolCall'')"

fun decode_usage :: "json \<Rightarrow> provider_usage res" where
  "decode_usage (JObj d) =
    (if \<not> exact_keys d [''input_tokens'', ''output_tokens''] then Inl (TypeError ''ProviderUsage'')
     else case (map_of d ''input_tokens'', map_of d ''output_tokens'') of
       (Some (JInt i), Some (JInt n)) \<Rightarrow> Inr \<lparr>us_input = i, us_output = n\<rparr>
     | _ \<Rightarrow> Inl (TypeError ''ProviderUsage''))"
| "decode_usage _ = Inl (TypeError ''ProviderUsage'')"

fun decode_text :: "json \<Rightarrow> string option res" where
  "decode_text JNull = Inr None"
| "decode_text (JStr s) = Inr (Some s)"
| "decode_text _ = Inl (TypeError ''text'')"

fun decode_structured :: "json \<Rightarrow> dict option res" where
  "decode_structured JNull = Inr None"
| "decode_structured (JObj d) = Inr (Some d)"
| "decode_structured _ = Inl (TypeError ''structured_output'')"

fun decode_response :: "json \<Rightarrow> provider_response res" where
  "decode_response (JObj d) =
    bind_res (bind_res (field d ''text'') decode_text) (\<lambda>text.
    bind_res (bind_res (field d ''tool_calls'')
        (\<lambda>v. case v of JArr cs \<Rightarrow> map_res decode_call cs | _ \<Rightarrow> Inl (TypeError ''tool_calls''))) (\<lambda>calls.
    bind_res (bind_res (field d ''structured_output'') decode_structured) (\<lambda>structured.
    bind_res (bind_res (field d ''usage'') decode_usage) (\<lambda>usage.
    bind_res (bind_res (field d ''finish_reason'')
        (\<lambda>v. case v of JStr s \<Rightarrow> Inr s | _ \<Rightarrow> Inl (TypeError ''finish_reason''))) (\<lambda>fin.
      Inr \<lparr>rs_text = text, rs_tool_calls = calls, rs_structured = structured, rs_usage = usage,
            rs_finish = fin\<rparr>)))))"
| "decode_response _ = Inl (TypeError ''response'')"

definition vector_literal :: "rat list \<Rightarrow> unit res" where
  "vector_literal v =
    (if 1 \<le> length v \<and> length v \<le> 4096 then Inr ()
     else Inl (ValueError ''embedding dimensions must be between 1 and 4096''))"

section \<open>Budget before egress\<close>

definition run_event :: "txenv \<Rightarrow> exec_context \<Rightarrow> string \<Rightarrow> dict \<Rightarrow> db \<Rightarrow> db" where
  "run_event env ctx ty p s = append_run_event env (x_workspace ctx) (x_run ctx) ty p s"

text \<open>
  The transaction of a refusal commits its journal entry before the error is raised: the result says
  whether to raise, beside the state that was committed.
\<close>

definition authorize_spend ::
    "txenv \<Rightarrow> calendar \<Rightarrow> spend_policy option \<Rightarrow> exec_context \<Rightarrow> db \<Rightarrow> (err option \<times> db) res" where
  "authorize_spend env cal policy ctx s =
    (case policy of None \<Rightarrow> Inr (None, s)
     | Some _ \<Rightarrow>
       bind_res (executable_run env 0 ctx s) (\<lambda>_.
       bind_res (evaluate_budget cal (tx_now env) (x_workspace ctx) s) (\<lambda>d.
         if bd_allowed d then Inr (None, s)
         else Inr (Some (ToolContractError ''workspace_budget_exhausted''),
           run_event env ctx ''spend.denied''
             [(''limit_micros'', json_opt JInt (bd_limit d)), (''consumed_micros'', JInt (bd_consumed d))] s))))"

definition store_check :: "txenv \<Rightarrow> exec_context \<Rightarrow> db \<Rightarrow> run_row res" where
  "store_check env ctx s = executable_run env 0 ctx s"

definition authorize_semantic_cache_spend ::
    "txenv \<Rightarrow> calendar \<Rightarrow> embedding_spend option \<Rightarrow> exec_context \<Rightarrow> db \<Rightarrow> unit res" where
  "authorize_semantic_cache_spend env cal es ctx s =
    (case es of None \<Rightarrow> Inr ()
     | Some _ \<Rightarrow>
       bind_res (executable_run env 0 ctx s) (\<lambda>_.
       bind_res (evaluate_budget cal (tx_now env) (x_workspace ctx) s) (\<lambda>d.
         if bd_allowed d then Inr () else Inl (SpendLimitExceeded ''workspace_budget_exhausted''))))"

definition record_semantic_cache_embedding ::
    "txenv \<Rightarrow> calendar \<Rightarrow> embedding_spend option \<Rightarrow> exec_context \<Rightarrow> int \<Rightarrow> db \<Rightarrow> (unit \<times> db) res" where
  "record_semantic_cache_embedding env cal es ctx n s =
    (case es of None \<Rightarrow> Inr ((), s)
     | Some e \<Rightarrow>
       bind_res (embedding_cost e n) (\<lambda>cost.
       bind_res (executable_run env 0 ctx s) (\<lambda>_.
       bind_res (record_spend env cal
           \<lparr>ch_workspace = x_workspace ctx, ch_source_key = answer_cache_embedding_source_key (x_run ctx),
            ch_category = EmbeddingSpendCat, ch_provider = es_provider e, ch_model = es_model e,
            ch_input = n, ch_output = 0, ch_cost = cost\<rparr> s) (\<lambda>(w, s1).
         Inr ((), run_event env ctx ''answer_cache.embedding.completed''
           [(''provider'', JStr (es_provider e)), (''model'', JStr (es_model e)),
            (''input_tokens'', JInt n), (''cost_micros'', JInt cost)] s1)))))"

section \<open>Steps\<close>

definition find_step :: "exec_context \<Rightarrow> nat \<Rightarrow> db \<Rightarrow> step_row option" where
  "find_step ctx n s =
    find (\<lambda>m. st_workspace m = x_workspace ctx \<and> st_run m = x_run ctx \<and> st_no m = n) (model_steps s)"

definition load_step :: "txenv \<Rightarrow> exec_context \<Rightarrow> nat \<Rightarrow> db \<Rightarrow> provider_response option res" where
  "load_step env ctx n s =
    bind_res (executable_run env 0 ctx s) (\<lambda>_.
      case find_step ctx n s of None \<Rightarrow> Inr None
      | Some m \<Rightarrow> bind_res (decode_response (st_response m)) (\<lambda>r. Inr (Some r)))"

definition step_row_of ::
    "txenv \<Rightarrow> exec_context \<Rightarrow> nat \<Rightarrow> model_candidate \<Rightarrow> string \<Rightarrow> provider_response \<Rightarrow> step_row" where
  "step_row_of env ctx n c reason r =
    \<lparr>st_workspace = x_workspace ctx, st_run = x_run ctx, st_no = n, st_provider = mc_provider c,
     st_model = mc_model c, st_reason = reason, st_response = encode_response r, st_created = tx_now env\<rparr>"

text \<open>The journal entry of a completed model call; a cached one has more fields.\<close>

definition completed_payload ::
    "nat \<Rightarrow> model_candidate \<Rightarrow> string \<Rightarrow> int \<Rightarrow> int \<Rightarrow> string \<Rightarrow> int option \<Rightarrow> dict \<Rightarrow> dict" where
  "completed_payload n c reason i r fin cost extra =
    [(''step'', JInt (int n)), (''provider'', JStr (mc_provider c)), (''model'', JStr (mc_model c)),
     (''routing_reason'', JStr reason), (''input_tokens'', JInt i), (''output_tokens'', JInt r),
     (''finish_reason'', JStr fin), (''cost_micros'', json_opt JInt cost)] @ extra"

section \<open>The answer cache\<close>

definition same_entry :: "uuid \<Rightarrow> uuid \<Rightarrow> string \<Rightarrow> answer_cache_row \<Rightarrow> bool" where
  "same_entry ws agent key x \<longleftrightarrow> ac_workspace x = ws \<and> ac_agent x = agent \<and> ac_key x = key"

definition cache_hit :: "txenv \<Rightarrow> exec_context \<Rightarrow> string \<Rightarrow> db \<Rightarrow> db" where
  "cache_hit env ctx key s = s\<lparr>answer_cache :=
     sql_update (same_entry (x_workspace ctx) (x_agent ctx) key)
       (\<lambda>x. x\<lparr>ac_hits := ac_hits x + 1, ac_last_used := tx_now env\<rparr>) (answer_cache s)\<rparr>"

text \<open>A cached answer becomes a step of this run that costs nothing.\<close>

definition restore_entry ::
    "txenv \<Rightarrow> exec_context \<Rightarrow> nat \<Rightarrow> model_candidate \<Rightarrow> string \<Rightarrow> dict \<Rightarrow> answer_cache_row \<Rightarrow> db \<Rightarrow>
     (provider_response option \<times> db) res" where
  "restore_entry env ctx n c reason extra row s =
    bind_res (decode_response (ac_response row)) (\<lambda>r.
    bind_res (insert_step (step_row_of env ctx n c reason r) s) (\<lambda>s1.
      Inr (Some r, run_event env ctx ''model.completed''
        (completed_payload n c reason 0 0 (rs_finish r) (Some 0) ((''cache_hit'', JBool True) # extra))
        (cache_hit env ctx (ac_key row) s1))))"

definition restore_answer_cache ::
    "txenv \<Rightarrow> exec_context \<Rightarrow> nat \<Rightarrow> model_candidate \<Rightarrow> string \<Rightarrow> db \<Rightarrow> (provider_response option \<times> db) res" where
  "restore_answer_cache env ctx n c key s =
    bind_res (executable_run env 0 ctx s) (\<lambda>_.
      case find (\<lambda>x. same_entry (x_workspace ctx) (x_agent ctx) key x \<and> ac_provider x = mc_provider c \<and>
             ac_model x = mc_model c \<and> tx_now env < ac_expires x) (answer_cache s) of
        None \<Rightarrow> Inr (None, s)
      | Some row \<Rightarrow> restore_entry env ctx n c ''workspace_answer_cache'' [] row s)"

text \<open>
  \<open>vo_distance u v\<close> is the cosine distance \<open>u <=> v\<close> and \<open>vo_json q\<close> the JSON of \<open>round(q, 6)\<close>.
\<close>

record vector_ops =
  vo_distance :: "rat list \<Rightarrow> rat list \<Rightarrow> rat"
  vo_json :: "rat \<Rightarrow> json"

record semantic_query =
  sq_scope :: string
  sq_model :: string
  sq_dims :: int
  sq_vector :: "rat list"
  sq_threshold :: rat

definition semantic_candidates ::
    "txenv \<Rightarrow> exec_context \<Rightarrow> model_candidate \<Rightarrow> semantic_query \<Rightarrow> answer_cache_row \<Rightarrow> bool" where
  "semantic_candidates env ctx c q x \<longleftrightarrow> ac_workspace x = x_workspace ctx \<and> ac_agent x = x_agent ctx \<and>
     ac_scope x = Some (sq_scope q) \<and> ac_provider x = mc_provider c \<and> ac_model x = mc_model c \<and>
     ac_embedding_model x = Some (sq_model q) \<and> ac_embedding_dims x = Some (sq_dims q) \<and>
     ac_embedding x \<noteq> None \<and> tx_now env < ac_expires x"

definition entry_distance :: "vector_ops \<Rightarrow> semantic_query \<Rightarrow> answer_cache_row \<Rightarrow> rat" where
  "entry_distance vo q x =
    (case ac_embedding x of None \<Rightarrow> 0 | Some v \<Rightarrow> vo_distance vo v (sq_vector q))"

definition restore_semantic_answer_cache ::
    "txenv \<Rightarrow> vector_ops \<Rightarrow> exec_context \<Rightarrow> nat \<Rightarrow> model_candidate \<Rightarrow> semantic_query \<Rightarrow> db \<Rightarrow>
     (provider_response option \<times> db) res" where
  "restore_semantic_answer_cache env vo ctx n c q s =
    bind_res (vector_literal (sq_vector q)) (\<lambda>_.
    bind_res (executable_run env 0 ctx s) (\<lambda>_.
      case order_limit (\<lambda>x. (entry_distance vo q x, ac_key x)) 1 (semantic_candidates env ctx c q) (answer_cache s) of
        [] \<Rightarrow> Inr (None, s)
      | row # _ \<Rightarrow>
          let sim = 1 - entry_distance vo q row
          in if sim < sq_threshold q then Inr (None, s)
             else restore_entry env ctx n c ''workspace_semantic_answer_cache''
                    [(''cache_match'', JStr ''semantic''), (''similarity'', vo_json vo sim)] row s))"

text \<open>What the executor asks \<open>save\<close> to cache: the key, its time to live and the semantic columns.\<close>

record cache_request =
  ce_key :: string
  ce_ttl :: int
  ce_scope :: "string option"
  ce_question :: "string option"
  ce_embedding :: "rat list option"
  ce_model :: "string option"
  ce_dims :: "int option"

definition cache_row_of ::
    "txenv \<Rightarrow> exec_context \<Rightarrow> model_candidate \<Rightarrow> provider_response \<Rightarrow> cache_request \<Rightarrow> answer_cache_row" where
  "cache_row_of env ctx c r q =
    \<lparr>ac_workspace = x_workspace ctx, ac_agent = x_agent ctx, ac_key = ce_key q,
     ac_provider = mc_provider c, ac_model = mc_model c,
     ac_response = encode_response (r\<lparr>rs_usage := \<lparr>us_input = 0, us_output = 0\<rparr>\<rparr>), ac_hits = 0,
     ac_created = tx_now env, ac_last_used = tx_now env, ac_expires = tx_now env + seconds (ce_ttl q),
     ac_scope = ce_scope q, ac_question = ce_question q, ac_embedding_model = ce_model q,
     ac_embedding_dims = ce_dims q, ac_embedding = ce_embedding q\<rparr>"

definition option_ok :: "('a \<Rightarrow> bool) \<Rightarrow> 'a option \<Rightarrow> bool" where
  "option_ok p x = (case x of None \<Rightarrow> True | Some v \<Rightarrow> p v)"

text \<open>The checks of \<open>workspace_answer_cache\<close>; the keys are digests.\<close>

definition cache_row_check :: "answer_cache_row \<Rightarrow> bool" where
  "cache_row_check x \<longleftrightarrow> length (ac_key x) = 64 \<and> ac_created x < ac_expires x \<and>
     option_ok (\<lambda>k. length k = 64) (ac_scope x) \<and>
     option_ok (\<lambda>w. 1 \<le> length w \<and> length w \<le> 12000) (ac_question x) \<and>
     option_ok (\<lambda>m. 1 \<le> length m \<and> length m \<le> 255) (ac_embedding_model x) \<and>
     option_ok (\<lambda>d. 1 \<le> d \<and> d \<le> 4096) (ac_embedding_dims x) \<and>
     (ac_embedding x = None \<or> ac_scope x \<noteq> None \<and> ac_question x \<noteq> None \<and>
        ac_embedding_model x \<noteq> None \<and> ac_embedding_dims x \<noteq> None)"

text \<open>\<open>ON CONFLICT (workspace_id,agent_id,cache_key) DO UPDATE\<close> keeps the hits and the creation time.\<close>

definition merge_entry :: "answer_cache_row \<Rightarrow> answer_cache_row \<Rightarrow> answer_cache_row" where
  "merge_entry new old = new\<lparr>ac_hits := ac_hits old, ac_created := ac_created old\<rparr>"

definition upsert_cache :: "answer_cache_row \<Rightarrow> db \<Rightarrow> db res" where
  "upsert_cache row s =
    (let same = same_entry (ac_workspace row) (ac_agent row) (ac_key row)
     in if \<not> cache_row_check row then Inl (CheckViolation ''workspace_answer_cache'')
        else if sql_exists same (answer_cache s)
        then Inr (s\<lparr>answer_cache := sql_update same (merge_entry row) (answer_cache s)\<rparr>)
        else Inr (s\<lparr>answer_cache := answer_cache s @ [row]\<rparr>))"

definition step_charge ::
    "exec_context \<Rightarrow> nat \<Rightarrow> model_candidate \<Rightarrow> provider_response \<Rightarrow> int \<Rightarrow> charge" where
  "step_charge ctx n c r cost =
    \<lparr>ch_workspace = x_workspace ctx, ch_source_key = agent_step_source_key (x_run ctx) n,
     ch_category = AgentRunSpend, ch_provider = mc_provider c, ch_model = mc_model c,
     ch_input = us_input (rs_usage r), ch_output = us_output (rs_usage r), ch_cost = cost\<rparr>"

definition step_cost ::
    "spend_policy option \<Rightarrow> model_candidate \<Rightarrow> provider_response \<Rightarrow> int option res" where
  "step_cost policy c r =
    (case policy of None \<Rightarrow> Inr None
     | Some p \<Rightarrow>
       (case policy_cost p (mc_provider c) (mc_model c) (us_input (rs_usage r)) (us_output (rs_usage r)) of
          Inl (SpendPricingError e) \<Rightarrow> Inl (ToolContractError e)
        | Inl e \<Rightarrow> Inl e
        | Inr cost \<Rightarrow> Inr (Some cost)))"

definition save_step ::
    "txenv \<Rightarrow> calendar \<Rightarrow> spend_policy option \<Rightarrow> exec_context \<Rightarrow> nat \<Rightarrow> routing_decision \<Rightarrow>
     provider_response \<Rightarrow> cache_request option \<Rightarrow> db \<Rightarrow> (unit \<times> db) res" where
  "save_step env cal policy ctx n d r cache s =
    bind_res (step_cost policy (rd_candidate d) r) (\<lambda>cost.
    bind_res (executable_run env 0 ctx s) (\<lambda>_.
    bind_res (insert_step (step_row_of env ctx n (rd_candidate d) (rd_reason d) r) s) (\<lambda>s1.
    bind_res (case cost of None \<Rightarrow> Inr s1
        | Some k \<Rightarrow> bind_res (record_spend env cal (step_charge ctx n (rd_candidate d) r k) s1) (\<lambda>(w, t). Inr t)) (\<lambda>s2.
    bind_res (case cache of None \<Rightarrow> Inr s2
        | Some q \<Rightarrow> if ce_ttl q \<le> 0 then Inr s2
            else bind_res (case ce_embedding q of None \<Rightarrow> Inr () | Some v \<Rightarrow> vector_literal v) (\<lambda>_.
              upsert_cache (cache_row_of env ctx (rd_candidate d) r q) s2)) (\<lambda>s3.
      Inr ((), run_event env ctx ''model.completed''
        (completed_payload n (rd_candidate d) (rd_reason d) (us_input (rs_usage r)) (us_output (rs_usage r))
           (rs_finish r) cost []) s3))))))"

section \<open>The retrieval snapshot\<close>

record retrieval_result =
  rv_chunks :: "retrieved_chunk list"
  rv_tokens :: int

record retrieval_snapshot =
  sn_context :: string
  sn_tokens :: int
  sn_count :: nat

definition snapshot_lost :: "'a res" where
  "snapshot_lost = Inl (ToolContractError ''retrieval_snapshot_unavailable'')"

text \<open>
  The chunks of current sources that a requester may read, each with its source: the join and the
  access clause both queries share.
\<close>

definition chunk_readable :: "run_row \<Rightarrow> db \<Rightarrow> rag_chunk_row \<Rightarrow> rag_source_row \<Rightarrow> bool" where
  "chunk_readable run s c g \<longleftrightarrow> gs_id g = gc_source c \<and> gs_workspace g = gc_workspace c \<and> gs_current g \<and>
     (gc_scope c = WorkspaceScope \<or>
      sql_exists (\<lambda>a. ga_workspace a = gc_workspace c \<and> ga_source a = gc_source c \<and>
          ga_issuer a = r_issuer run \<and> ga_subject a = r_subject run) (rag_acl s))"

definition readable_chunks :: "run_row \<Rightarrow> uuid \<Rightarrow> db \<Rightarrow> (rag_chunk_row \<times> rag_source_row) list" where
  "readable_chunks run ws s =
    [(c, g). c \<leftarrow> rag_chunks s, g \<leftarrow> rag_sources s, gc_workspace c = ws \<and> chunk_readable run s c g]"

definition still_matches :: "retrieval_chunk_row \<Rightarrow> rag_chunk_row \<times> rag_source_row \<Rightarrow> bool" where
  "still_matches p cg = (case cg of (c, g) \<Rightarrow> gc_id c = rk_chunk p \<and> gc_source c = rk_source p \<and>
     gs_key g = rk_source_key p \<and> gc_version c = rk_version p \<and> gc_index c = rk_index p \<and>
     gc_content_hash c = rk_content_hash p)"

definition visible_positions :: "run_row \<Rightarrow> exec_context \<Rightarrow> db \<Rightarrow> nat list" where
  "visible_positions run ctx s =
    sort [rk_position p. p \<leftarrow> retrieval_chunks s, cg \<leftarrow> readable_chunks run (x_workspace ctx) s,
      rk_workspace p = x_workspace ctx \<and> rk_run p = x_run ctx \<and> still_matches p cg]"

definition find_retrieval :: "exec_context \<Rightarrow> db \<Rightarrow> run_retrieval_row option" where
  "find_retrieval ctx s =
    find (\<lambda>r. rr_workspace r = x_workspace ctx \<and> rr_run r = x_run ctx) (run_retrievals s)"

definition find_context :: "exec_context \<Rightarrow> db \<Rightarrow> string option" where
  "find_context ctx s = map_option rx_text
     (find (\<lambda>x. rx_run x = x_run ctx \<and> rx_workspace x = x_workspace ctx) (retrieval_contexts s))"

definition load_retrieval :: "txenv \<Rightarrow> exec_context \<Rightarrow> db \<Rightarrow> retrieval_snapshot option res" where
  "load_retrieval env ctx s =
    bind_res (executable_run env 0 ctx s) (\<lambda>run.
      case find_retrieval ctx s of None \<Rightarrow> Inr None
      | Some r \<Rightarrow>
        (case find_context ctx s of None \<Rightarrow> snapshot_lost
         | Some text \<Rightarrow>
           if rr_query_hash r \<noteq> sha256_hex (x_input ctx) then snapshot_lost
           else if sha256_hex text \<noteq> rr_context_hash r then snapshot_lost
           else if rr_chunk_count r \<noteq> 0 \<and> length (visible_positions run ctx s) \<noteq> rr_chunk_count r
           then snapshot_lost
           else Inr (Some \<lparr>sn_context = text, sn_tokens = rr_tokens r, sn_count = rr_chunk_count r\<rparr>)))"

text \<open>\<open>current.get(chunk.id)\<close>: the last row with the identifier, as in the dict of the rows.\<close>

definition current_chunk :: "run_row \<Rightarrow> uuid \<Rightarrow> uuid \<Rightarrow> db \<Rightarrow> (rag_chunk_row \<times> rag_source_row) option" where
  "current_chunk run ws i s = find (\<lambda>(c, g). gc_id c = i) (rev (readable_chunks run ws s))"

definition chunk_current :: "run_row \<Rightarrow> uuid \<Rightarrow> db \<Rightarrow> retrieved_chunk \<Rightarrow> bool" where
  "chunk_current run ws s c =
    (case current_chunk run ws (rt_id c) s of None \<Rightarrow> False
     | Some (row, g) \<Rightarrow> gc_source row = rt_source c \<and> gs_key g = rt_source_key c \<and>
         gc_version row = rt_version c \<and> gc_index row = rt_index c \<and>
         gc_content_hash row = sha256_hex (rt_content c))"

definition provenance_row :: "exec_context \<Rightarrow> nat \<Rightarrow> retrieved_chunk \<Rightarrow> retrieval_chunk_row" where
  "provenance_row ctx n c =
    \<lparr>rk_run = x_run ctx, rk_workspace = x_workspace ctx, rk_position = n, rk_chunk = rt_id c,
     rk_source = rt_source c, rk_source_key = rt_source_key c, rk_version = rt_version c,
     rk_index = rt_index c, rk_content_hash = sha256_hex (rt_content c)\<rparr>"

fun insert_provenance :: "exec_context \<Rightarrow> nat \<Rightarrow> retrieved_chunk list \<Rightarrow> db \<Rightarrow> db res" where
  "insert_provenance ctx n [] s = Inr s"
| "insert_provenance ctx n (c # cs) s =
    (if sql_exists (\<lambda>p. rk_run p = x_run ctx \<and> (rk_position p = n \<or> rk_chunk p = rt_id c)) (retrieval_chunks s)
     then Inl (UniqueViolation ''agent_run_retrieval_chunks'')
     else if \<not> n \<le> 49 then Inl (CheckViolation ''agent_run_retrieval_chunks_position'')
     else insert_provenance ctx (Suc n) cs
       (s\<lparr>retrieval_chunks := retrieval_chunks s @ [provenance_row ctx n c]\<rparr>))"

definition evidence_text :: "retrieved_chunk list \<Rightarrow> string" where
  "evidence_text cs = (if cs = [] then [] else build_untrusted_context cs)"

definition insert_retrieval ::
    "txenv \<Rightarrow> exec_context \<Rightarrow> retrieval_result \<Rightarrow> db \<Rightarrow> db res" where
  "insert_retrieval env ctx v s =
    (let text = evidence_text (rv_chunks v);
         row = \<lparr>rr_run = x_run ctx, rr_workspace = x_workspace ctx, rr_query_hash = sha256_hex (x_input ctx),
                rr_context_hash = sha256_hex text, rr_tokens = rv_tokens v,
                rr_chunk_count = length (rv_chunks v)\<rparr>
     in if rv_tokens v < 0 \<or> \<not> length (rv_chunks v) \<le> 50 then Inl (CheckViolation ''agent_run_retrievals'')
        else if sql_exists (\<lambda>r. rr_run r = x_run ctx) (run_retrievals s) then Inr s
        else if sql_exists (\<lambda>x. rx_run x = x_run ctx) (retrieval_contexts s)
        then Inl (UniqueViolation ''agent_run_retrieval_context_pkey'')
        else if \<not> length text \<le> 200000 then Inl (CheckViolation ''agent_run_retrieval_context'')
        else bind_res (insert_provenance ctx 0 (rv_chunks v)
            (s\<lparr>run_retrievals := run_retrievals s @ [row],
               retrieval_contexts := retrieval_contexts s @
                 [\<lparr>rx_run = x_run ctx, rx_workspace = x_workspace ctx, rx_text = text\<rparr>]\<rparr>)) (\<lambda>s1.
          Inr (run_event env ctx ''retrieval.completed''
            [(''chunk_count'', JInt (int (length (rv_chunks v)))),
             (''embedding_input_tokens'', JInt (rv_tokens v))] s1)))"

definition save_retrieval ::
    "txenv \<Rightarrow> exec_context \<Rightarrow> retrieval_result \<Rightarrow> db \<Rightarrow> (retrieval_snapshot \<times> db) res" where
  "save_retrieval env ctx v s =
    (let text = evidence_text (rv_chunks v)
     in bind_res (executable_run env 0 ctx s) (\<lambda>run.
        if list_ex (\<lambda>c. \<not> chunk_current run (x_workspace ctx) s c) (rv_chunks v) then snapshot_lost
        else bind_res (insert_retrieval env ctx v s) (\<lambda>s1.
          case (find_retrieval ctx s1, find_context ctx s1) of
            (Some r, Some t) \<Rightarrow>
              if rr_query_hash r \<noteq> sha256_hex (x_input ctx) \<or> rr_context_hash r \<noteq> sha256_hex text \<or> t \<noteq> text
              then snapshot_lost
              else Inr (\<lparr>sn_context = t, sn_tokens = rr_tokens r, sn_count = rr_chunk_count r\<rparr>, s1)
          | _ \<Rightarrow> snapshot_lost)))"

section \<open>Round trips\<close>

lemma decode_encode_call [simp]: "decode_call (encode_call c) = Inr c"
  by (simp add: encode_call_def exact_keys_def)

lemma decode_encode_calls [simp]: "map_res decode_call (map encode_call cs) = Inr cs"
  by (induction cs) simp_all

lemma decode_encode_usage [simp]: "decode_usage (encode_usage u) = Inr u"
  by (simp add: encode_usage_def exact_keys_def)

lemma decode_encode_opt [simp]:
  "decode_text (json_opt JStr x) = Inr x" "decode_structured (json_opt JObj y) = Inr y"
  by (cases x; simp add: json_opt_def) (cases y; simp add: json_opt_def)

lemma decode_encode_response [simp]: "decode_response (encode_response r) = Inr r"
  by (simp add: encode_response_def field_def)

end
