(* ===== verification/Web_Address.thy ===== *)
theory Web_Address
  imports Prelude
begin

text \<open>
  Addresses of external services. The parts of a URL are those \<open>urlsplit\<close> returns, and whether a host
  is a literal address that is globally routable is what \<open>ip_address\<close> says of it (\<open>None\<close>: not a literal
  address); both are parameters of the definitions that use them.
\<close>

record url_parts =
  ur_scheme :: string
  ur_hostname :: "string option"
  ur_username :: "string option"
  ur_password :: "string option"
  ur_netloc :: string
  ur_query :: string
  ur_fragment :: string
  ur_port :: "nat option"

definition lower_char :: "char \<Rightarrow> char" where
  "lower_char c = (let n = of_char c :: nat in if 65 \<le> n \<and> n \<le> 90 then char_of (n + 32) else c)"

definition rstrip_char :: "char \<Rightarrow> string \<Rightarrow> string" where
  "rstrip_char c s = rev (dropWhile (\<lambda>x. x = c) (rev s))"

text \<open>\<open>hostname.rstrip(".").lower()\<close> of a host name in ASCII.\<close>

definition plain_host :: "string \<Rightarrow> string" where
  "plain_host h = map lower_char (rstrip_char CHR ''.'' h)"

definition host_of :: "url_parts \<Rightarrow> string" where
  "host_of u = (case ur_hostname u of None \<Rightarrow> [] | Some h \<Rightarrow> h)"

text \<open>An HTTPS address on the default port, without credentials, query or fragment.\<close>

definition plain_https :: "url_parts \<Rightarrow> bool" where
  "plain_https u \<longleftrightarrow> ur_scheme u = ''https'' \<and> host_of u \<noteq> [] \<and> ur_username u = None \<and> ur_password u = None \<and>
     ur_query u = [] \<and> ur_fragment u = [] \<and> ur_port u \<in> {None, Some 443}"

section \<open>Searching in strings\<close>

fun occurs :: "string \<Rightarrow> string \<Rightarrow> bool" where
  "occurs t [] = (t = [])"
| "occurs t (c # s) = (take (length t) (c # s) = t \<or> occurs t s)"

definition starts_with :: "string \<Rightarrow> string \<Rightarrow> bool" where
  "starts_with s t \<longleftrightarrow> take (length t) s = t"

definition ends_with :: "string \<Rightarrow> string \<Rightarrow> bool" where
  "ends_with s t \<longleftrightarrow> length t \<le> length s \<and> drop (length s - length t) s = t"

end
