(* ===== verification/Alert_Delivery.thy ===== *)
theory Alert_Delivery
  imports Spend_Ledger Execution_Fence Web_Address
begin

text \<open>
  Delivery of budget alerts (\<open>spend_alert_worker.py\<close>): a worker claims one intent under a lease, sends
  the signed alert to the operator's webhook, and records the outcome if it still holds the lease. A
  retryable failure is tried again a bounded number of times. Metrics and log lines are left out.

  Timestamps are printed by the parameter \<open>fmt\<close>; the answer of the webhook is an argument
  of a pass, and so is what the rest of the system commits while the request is under way.
\<close>

definition MAX_DELIVERY_ATTEMPTS :: nat where
  "MAX_DELIVERY_ATTEMPTS = 5"

definition MAX_RESPONSE_BYTES :: nat where
  "MAX_RESPONSE_BYTES = 16 * 1024"

definition EVENT_TYPE :: string where
  "EVENT_TYPE = ''spend.threshold.reached.v1''"

definition delivery_retry_ms :: "uuid \<Rightarrow> nat \<Rightarrow> int" where
  "delivery_retry_ms i attempts =
    jittered_ms (min 300 (2 ^ min attempts 8)) (digest_head16 (uuid_str i @ '':'' @ nat_str attempts))"

section \<open>The webhook\<close>

record alert_webhook =
  wh_url :: string
  wh_secret :: string
  wh_bearer :: "string option"
  wh_timeout :: rat

definition check_webhook :: "(string \<Rightarrow> url_parts) \<Rightarrow> (string \<Rightarrow> bool option) \<Rightarrow> alert_webhook \<Rightarrow> unit res" where
  "check_webhook urlsplit is_global wh =
    (let u = urlsplit (wh_url wh)
     in if \<not> plain_https u
        then Inl (ValueError ''alert webhook must be an HTTPS URL on port 443 without credentials/query'')
        else let h = plain_host (host_of u)
          in if h = ''localhost'' then Inl (ValueError ''alert webhook hostname is not allowed'')
             else if is_global h = Some False
             then Inl (ValueError ''alert webhook literal IP must be globally routable'')
             else if length (wh_secret wh) < 32
             then Inl (ValueError ''alert webhook signing secret must be at least 32 characters'')
             else if \<not> (1 / 10 \<le> wh_timeout wh \<and> wh_timeout wh \<le> 60)
             then Inl (ValueError ''alert webhook timeout must be between 0.1 and 60 seconds'')
             else Inr ())"

section \<open>The request\<close>

text \<open>\<open>hmac.new(key, message, sha256).hexdigest()\<close> on bytes.\<close>

definition hmac_key :: "nat list \<Rightarrow> nat list" where
  "hmac_key k = (let k' = if 64 < length k then sha256_bytes k else k in k' @ replicate (64 - length k') 0)"

definition hmac_sha256 :: "nat list \<Rightarrow> nat list \<Rightarrow> nat list" where
  "hmac_sha256 k m =
    sha256_bytes (map (\<lambda>b. b XOR 92) (hmac_key k) @ sha256_bytes (map (\<lambda>b. b XOR 54) (hmac_key k) @ m))"

definition signature :: "string \<Rightarrow> int \<Rightarrow> string \<Rightarrow> string" where
  "signature secret timestamp body =
    ''v1='' @ concat (map (\<lambda>b. hex_digits 2 b) (hmac_sha256 (utf8 secret) (utf8 (int_str timestamp @ ''.'' @ body))))"

record iso_format =
  iso_time :: "time \<Rightarrow> string"
  iso_date :: "time \<Rightarrow> string"

fun enforcement_str :: "enforcement \<Rightarrow> string" where
  "enforcement_str Enforce = ''enforce''"
| "enforcement_str Monitor = ''monitor''"

definition alert_payload :: "iso_format \<Rightarrow> alert_row \<Rightarrow> json" where
  "alert_payload fmt a = JObj
    [(''event'', JStr EVENT_TYPE), (''event_id'', JStr (uuid_str (al_id a))),
     (''occurred_at'', JStr (iso_time fmt (al_created a))),
     (''workspace_id'', JStr (uuid_str (al_workspace a))),
     (''period_start'', JStr (iso_date fmt (al_period a))),
     (''threshold_percent'', JInt (al_threshold a)), (''monthly_limit_micros'', JInt (al_limit a)),
     (''consumed_micros'', JInt (al_consumed a)), (''enforcement'', JStr (enforcement_str (al_enforcement a)))]"

record alert_request =
  aq_url :: string
  aq_headers :: "(string \<times> string) list"
  aq_body :: string

definition alert_request_of :: "iso_format \<Rightarrow> alert_webhook \<Rightarrow> int \<Rightarrow> alert_row \<Rightarrow> alert_request" where
  "alert_request_of fmt wh timestamp a =
    (let body = dumps_ascii (alert_payload fmt a)
     in \<lparr>aq_url = wh_url wh,
         aq_headers = [(''content-type'', ''application/json''), (''nexora-event'', EVENT_TYPE),
           (''nexora-delivery-id'', uuid_str (al_id a)), (''nexora-timestamp'', int_str timestamp),
           (''nexora-signature'', signature (wh_secret wh) timestamp body)] @
           (case wh_bearer wh of None \<Rightarrow> []
            | Some t \<Rightarrow> if t = [] then [] else [(''authorization'', ''Bearer '' @ t)]),
         aq_body = body\<rparr>)"

section \<open>The answer\<close>

text \<open>What the HTTP client reports: a status with the sizes of the chunks that were read, or a failure.\<close>

datatype webhook_answer =
    Responded nat "nat list"
  | TimedOut
  | TransportFailed
  | OtherException string
  | PassCancelled

datatype delivery = Delivered | DeliveryFailed string bool | DeliveryCancelled

definition raise_for_status :: "nat \<Rightarrow> delivery" where
  "raise_for_status st =
    (if 200 \<le> st \<and> st < 300 then Delivered
     else if 300 \<le> st \<and> st < 400 then DeliveryFailed ''alert_redirect_forbidden'' False
     else if st \<in> {408, 425, 429} \<or> 500 \<le> st \<and> st < 600 then DeliveryFailed ''alert_unavailable'' True
     else DeliveryFailed ''alert_rejected'' False)"

text \<open>The body is drained chunk by chunk until it is too large.\<close>

fun drained :: "nat \<Rightarrow> nat list \<Rightarrow> bool" where
  "drained k [] = True"
| "drained k (n # ns) = (k + n \<le> MAX_RESPONSE_BYTES \<and> drained (k + n) ns)"

fun deliver :: "webhook_answer \<Rightarrow> delivery" where
  "deliver (Responded st chunks) =
    (if drained 0 chunks then raise_for_status st else DeliveryFailed ''alert_response_too_large'' False)"
| "deliver TimedOut = DeliveryFailed ''alert_timeout'' True"
| "deliver TransportFailed = DeliveryFailed ''alert_unavailable'' True"
| "deliver (OtherException name) = DeliveryFailed (take 100 name) True"
| "deliver PassCancelled = DeliveryCancelled"

section \<open>The intents\<close>

definition open_intent :: "alert_outbox_row \<Rightarrow> bool" where
  "open_intent x \<longleftrightarrow> ao_delivered x = None \<and> ao_dead x = None"

definition claimable :: "txenv \<Rightarrow> (uuid \<Rightarrow> bool) \<Rightarrow> db \<Rightarrow> alert_outbox_row \<Rightarrow> bool" where
  "claimable env locked s x \<longleftrightarrow> open_intent x \<and> ao_available x \<le> tx_now env \<and>
     (case ao_lease_expires x of None \<Rightarrow> True | Some l \<Rightarrow> l < tx_now env) \<and> \<not> locked (ao_alert x) \<and>
     sql_exists (\<lambda>a. al_id a = ao_alert x) (spend_alerts s)"

text \<open>The trigger \<open>enforce_spend_alert_outbox_update\<close> and the row constraints.\<close>

definition intent_update_ok :: "alert_outbox_row \<Rightarrow> alert_outbox_row \<Rightarrow> bool" where
  "intent_update_ok old new \<longleftrightarrow> ao_alert new = ao_alert old \<and> ao_workspace new = ao_workspace old \<and>
     ao_created new = ao_created old \<and>
     (ao_delivered old = None \<or> ao_delivered new = ao_delivered old) \<and>
     (ao_dead old = None \<or> ao_dead new = ao_dead old)"

definition intent_row_check :: "alert_outbox_row \<Rightarrow> bool" where
  "intent_row_check x \<longleftrightarrow> (ao_lease_owner x = None) = (ao_lease_expires x = None) \<and>
     (ao_delivered x = None \<or> ao_dead x = None) \<and>
     (case ao_lease_owner x of None \<Rightarrow> True | Some w \<Rightarrow> 1 \<le> length w \<and> length w \<le> 100) \<and>
     (case ao_error x of None \<Rightarrow> True | Some e \<Rightarrow> 1 \<le> length e \<and> length e \<le> 100)"

definition update_intents ::
    "(alert_outbox_row \<Rightarrow> bool) \<Rightarrow> (alert_outbox_row \<Rightarrow> alert_outbox_row) \<Rightarrow> db \<Rightarrow> db res" where
  "update_intents p f s =
    (if \<exists>x \<in> set (alert_outbox s). p x \<and> \<not> intent_update_ok x (f x)
     then Inl (RaiseException ''spend alert notification'')
     else if \<exists>x \<in> set (alert_outbox s). p x \<and> \<not> intent_row_check (f x)
     then Inl (CheckViolation ''workspace_spend_alert_outbox'')
     else Inr (s\<lparr>alert_outbox := sql_update p f (alert_outbox s)\<rparr>))"

definition lease_intent :: "txenv \<Rightarrow> string \<Rightarrow> int \<Rightarrow> alert_outbox_row \<Rightarrow> alert_outbox_row" where
  "lease_intent env w lease x = x\<lparr>ao_lease_owner := Some w,
     ao_lease_expires := Some (tx_now env + seconds lease), ao_updated := tx_now env\<rparr>"

definition claim_alert ::
    "txenv \<Rightarrow> (uuid \<Rightarrow> bool) \<Rightarrow> string \<Rightarrow> int \<Rightarrow> db \<Rightarrow> ((alert_outbox_row \<times> alert_row) option \<times> db) res" where
  "claim_alert env locked w lease s =
    (case order_limit (\<lambda>x. (ao_available x, ao_created x, ao_alert x)) 1 (claimable env locked s) (alert_outbox s) of
       [] \<Rightarrow> Inr (None, s)
     | x # _ \<Rightarrow>
       bind_res (update_intents (\<lambda>y. ao_alert y = ao_alert x) (lease_intent env w lease) s) (\<lambda>s1.
         Inr (map_option (Pair x) (find (\<lambda>a. al_id a = ao_alert x) (spend_alerts s)), s1)))"

text \<open>An outcome is recorded while the worker still owns the open intent.\<close>

definition held_intent :: "uuid \<Rightarrow> string \<Rightarrow> alert_outbox_row \<Rightarrow> bool" where
  "held_intent i w x \<longleftrightarrow> ao_alert x = i \<and> open_intent x \<and> ao_lease_owner x = Some w"

definition succeed_intent :: "txenv \<Rightarrow> alert_outbox_row \<Rightarrow> alert_outbox_row" where
  "succeed_intent env x = x\<lparr>ao_delivered := Some (tx_now env), ao_attempts := ao_attempts x + 1,
     ao_error := None, ao_lease_owner := None, ao_lease_expires := None, ao_updated := tx_now env\<rparr>"

definition alert_succeed :: "txenv \<Rightarrow> string \<Rightarrow> uuid \<Rightarrow> db \<Rightarrow> (bool \<times> db) res" where
  "alert_succeed env w i s =
    bind_res (update_intents (held_intent i w) (succeed_intent env) s) (\<lambda>s1.
      Inr (rowcount (held_intent i w) (alert_outbox s) = 1, s1))"

definition abandon_intent :: "txenv \<Rightarrow> nat \<Rightarrow> string \<Rightarrow> alert_outbox_row \<Rightarrow> alert_outbox_row" where
  "abandon_intent env attempts code x = x\<lparr>ao_attempts := attempts, ao_dead := Some (tx_now env),
     ao_error := Some (take 100 code), ao_lease_owner := None, ao_lease_expires := None,
     ao_updated := tx_now env\<rparr>"

definition retry_intent :: "txenv \<Rightarrow> nat \<Rightarrow> string \<Rightarrow> alert_outbox_row \<Rightarrow> alert_outbox_row" where
  "retry_intent env attempts code x = x\<lparr>ao_attempts := attempts,
     ao_available := tx_now env + delivery_retry_ms (ao_alert x) attempts * 1000,
     ao_error := Some (take 100 code), ao_lease_owner := None, ao_lease_expires := None,
     ao_updated := tx_now env\<rparr>"

text \<open>\<open>attempts\<close> is the count the claim read.\<close>

definition alert_fail :: "txenv \<Rightarrow> string \<Rightarrow> uuid \<Rightarrow> nat \<Rightarrow> string \<Rightarrow> bool \<Rightarrow> db \<Rightarrow> (bool \<times> db) res" where
  "alert_fail env w i attempts code retryable s =
    (let n = attempts + 1; abandoned = \<not> retryable \<or> MAX_DELIVERY_ATTEMPTS \<le> n
     in bind_res (update_intents (held_intent i w)
          (if abandoned then abandon_intent env n code else retry_intent env n code) s) (\<lambda>s1.
        Inr (abandoned, s1)))"

section \<open>A pass\<close>

record alert_notifier =
  an_webhook :: alert_webhook
  an_worker :: string
  an_lease :: int
  an_iso :: iso_format

definition new_notifier :: "iso_format \<Rightarrow> alert_webhook \<Rightarrow> string \<Rightarrow> int \<Rightarrow> alert_notifier res" where
  "new_notifier fmt wh w lease =
    (if \<not> (3 \<le> lease \<and> lease \<le> 300) then Inl (ValueError ''lease_seconds must be between 3 and 300'')
     else Inr \<lparr>an_webhook = wh, an_worker = w, an_lease = lease, an_iso = fmt\<rparr>)"

text \<open>
  What a pass leaves: nothing to do, a request that was sent and settled, or a request during which the
  pass was cancelled. Between the claim and the settlement the rest of the system commits \<open>others\<close>.
\<close>

datatype alert_pass = Idle | Settled alert_request | Interrupted alert_request

definition settle_alert ::
    "txenv \<Rightarrow> string \<Rightarrow> alert_outbox_row \<Rightarrow> delivery \<Rightarrow> db \<Rightarrow> (bool \<times> db) res" where
  "settle_alert env w x d s =
    (case d of
       Delivered \<Rightarrow> alert_succeed env w (ao_alert x) s
     | DeliveryFailed code retryable \<Rightarrow> alert_fail env w (ao_alert x) (ao_attempts x) code retryable s
     | DeliveryCancelled \<Rightarrow> Inr (False, s))"

definition alert_pass ::
    "txenv \<Rightarrow> txenv \<Rightarrow> (uuid \<Rightarrow> bool) \<Rightarrow> (db \<Rightarrow> db) \<Rightarrow> int \<Rightarrow> webhook_answer \<Rightarrow> alert_notifier \<Rightarrow> db \<Rightarrow>
     (alert_pass \<times> db) res" where
  "alert_pass env1 env2 locked others clock answer nt s =
    bind_res (claim_alert env1 locked (an_worker nt) (an_lease nt) s) (\<lambda>(claimed, s1).
      case claimed of None \<Rightarrow> Inr (Idle, s1)
      | Some (x, a) \<Rightarrow>
        let q = alert_request_of (an_iso nt) (an_webhook nt) clock a
        in if deliver answer = DeliveryCancelled then Inr (Interrupted q, others s1)
           else bind_res (settle_alert env2 (an_worker nt) x (deliver answer) (others s1)) (\<lambda>(b, s2).
             Inr (Settled q, s2)))"

section \<open>The invariant of the intents\<close>

text \<open>
  Every intent belongs to its alert (the ledger's invariant); a closed one is either delivered or
  abandoned and holds no lease; an open one has attempts left.
\<close>

definition intent_ok :: "alert_outbox_row \<Rightarrow> bool" where
  "intent_ok x \<longleftrightarrow> intent_row_check x \<and> ao_attempts x \<le> MAX_DELIVERY_ATTEMPTS \<and>
     (open_intent x \<longrightarrow> ao_attempts x < MAX_DELIVERY_ATTEMPTS) \<and>
     (\<not> open_intent x \<longrightarrow> ao_lease_owner x = None)"

definition intents_ok :: "db \<Rightarrow> bool" where
  "intents_ok s \<longleftrightarrow> (\<forall>x \<in> set (alert_outbox s). intent_ok x)"

text \<open>Intents only move forward: their identity stays, and a closed one is never touched again.\<close>

definition intent_le :: "alert_outbox_row \<Rightarrow> alert_outbox_row \<Rightarrow> bool" where
  "intent_le x y \<longleftrightarrow> ao_alert y = ao_alert x \<and> ao_workspace y = ao_workspace x \<and>
     (\<not> open_intent x \<longrightarrow> y = x)"

definition intents_mono :: "db \<Rightarrow> db \<Rightarrow> bool" where
  "intents_mono s s' \<longleftrightarrow>
    (\<forall>x \<in> set (alert_outbox s). \<exists>y \<in> set (alert_outbox s'). intent_le x y)"

lemma intents_ok_empty: "intents_ok empty_db"
  by (simp add: intents_ok_def empty_db_def)

lemma intents_mono_refl: "alert_outbox s' = alert_outbox s \<Longrightarrow> intents_mono s s'"
  by (auto simp: intents_mono_def intent_le_def)

lemma intent_le_trans: "intent_le x y \<Longrightarrow> intent_le y z \<Longrightarrow> intent_le x z"
  by (auto simp: intent_le_def)

lemma intents_mono_trans: "intents_mono s t \<Longrightarrow> intents_mono t u \<Longrightarrow> intents_mono s u"
  unfolding intents_mono_def using intent_le_trans by meson

lemma intents_mono_append: "alert_outbox s' = alert_outbox s @ xs \<Longrightarrow> intents_mono s s'"
  by (auto simp: intents_mono_def intent_le_def)

lemma update_intents_Inr:
  "update_intents p f s = Inr s' \<longleftrightarrow>
    (\<forall>x \<in> set (alert_outbox s). p x \<longrightarrow> intent_update_ok x (f x) \<and> intent_row_check (f x)) \<and>
    s' = s\<lparr>alert_outbox := sql_update p f (alert_outbox s)\<rparr>"
  by (auto simp: update_intents_def)

text \<open>An update of open intents.\<close>

lemma update_intents_ok:
  assumes inv: "intents_ok s" and up: "update_intents p f s = Inr s'"
    and "\<And>x. x \<in> set (alert_outbox s) \<Longrightarrow> p x \<Longrightarrow> intent_ok x \<Longrightarrow> open_intent x \<and> (intent_row_check (f x) \<longrightarrow> intent_ok (f x))"
  shows "intents_ok s'" "intents_mono s s'" "s' = s\<lparr>alert_outbox := alert_outbox s'\<rparr>"
    "map (\<lambda>x. (ao_alert x, ao_workspace x)) (alert_outbox s') = map (\<lambda>x. (ao_alert x, ao_workspace x)) (alert_outbox s)"
proof -
  have s': "s' = s\<lparr>alert_outbox := sql_update p f (alert_outbox s)\<rparr>"
    and upd: "\<And>x. x \<in> set (alert_outbox s) \<Longrightarrow> p x \<Longrightarrow> intent_update_ok x (f x) \<and> intent_row_check (f x)"
    using up by (auto simp: update_intents_Inr)
  show "intents_ok s'"
    using inv assms(3) upd by (auto simp: intents_ok_def s' set_sql_update)
  have "intent_le x (if p x then f x else x)" if "x \<in> set (alert_outbox s)" for x
    using that inv assms(3)[OF that] upd[OF that] by (auto simp: intents_ok_def intent_le_def intent_update_ok_def)
  moreover have "(if p x then f x else x) \<in> set (alert_outbox s')" if "x \<in> set (alert_outbox s)" for x
    using that by (auto simp: s' sql_update_def)
  ultimately show "intents_mono s s'" unfolding intents_mono_def by blast
  show "s' = s\<lparr>alert_outbox := alert_outbox s'\<rparr>" by (simp add: s')
  show "map (\<lambda>x. (ao_alert x, ao_workspace x)) (alert_outbox s') = map (\<lambda>x. (ao_alert x, ao_workspace x)) (alert_outbox s)"
    using upd by (auto simp: s' sql_update_def intent_update_ok_def)
qed

lemma claim_alert_cases:
  assumes "claim_alert env locked w lease s = Inr (r, s')"
  obtains (none) "r = None" "s' = s"
  | (claimed) x a where "x \<in> set (alert_outbox s)" "claimable env locked s x"
      "find (\<lambda>a. al_id a = ao_alert x) (spend_alerts s) = Some a" "r = Some (x, a)"
      "update_intents (\<lambda>y. ao_alert y = ao_alert x) (lease_intent env w lease) s = Inr s'"
proof (cases "order_limit (\<lambda>x. (ao_available x, ao_created x, ao_alert x)) 1 (claimable env locked s) (alert_outbox s)")
  case Nil
  then show ?thesis using assms none by (simp add: claim_alert_def)
next
  case (Cons x xs)
  then have x: "x \<in> set (alert_outbox s)" "claimable env locked s x"
    using order_limit_memD[of x "\<lambda>x. (ao_available x, ao_created x, ao_alert x)" 1 "claimable env locked s" "alert_outbox s"]
    by simp_all
  then obtain a where "find (\<lambda>a. al_id a = ao_alert x) (spend_alerts s) = Some a"
    by (cases "find (\<lambda>a. al_id a = ao_alert x) (spend_alerts s)")
      (auto simp: claimable_def sql_exists_iff find_None_iff)
  with Cons assms x show ?thesis by (auto simp: claim_alert_def intro!: claimed)
qed

lemma lease_intent_ok:
  "intent_ok x \<Longrightarrow> open_intent x \<Longrightarrow> intent_row_check (lease_intent env w lease x) \<Longrightarrow> intent_ok (lease_intent env w lease x)"
  by (simp add: intent_ok_def lease_intent_def open_intent_def)

lemma take_error: "1 \<le> length (take 100 e) \<and> length (take 100 e) \<le> 100 \<longleftrightarrow> e \<noteq> []"
  by (cases e) auto

text \<open>The three transactions of a pass.\<close>

lemma intent_by_id:
  assumes "ledger_ok s" and "x \<in> set (alert_outbox s)" and "y \<in> set (alert_outbox s)" and "ao_alert x = ao_alert y"
  shows "x = y"
proof -
  have "map ao_alert (alert_outbox s) = map fst (map (\<lambda>x. (ao_alert x, ao_workspace x)) (alert_outbox s))" by simp
  also have "\<dots> = map al_id (spend_alerts s)" using assms(1) unfolding ledger_ok_def by simp
  finally have "distinct (map ao_alert (alert_outbox s))" using assms(1) by (simp add: ledger_ok_def)
  then show ?thesis using assms(2-4) by (auto simp: distinct_map inj_on_def)
qed

lemma claim_alert_effect:
  assumes ledger: "ledger_ok s" and inv: "intents_ok s" and ok: "claim_alert env locked w lease s = Inr (r, s')"
  shows "intents_ok s'" "intents_mono s s'" "s' = s\<lparr>alert_outbox := alert_outbox s'\<rparr>"
    "map (\<lambda>x. (ao_alert x, ao_workspace x)) (alert_outbox s') = map (\<lambda>x. (ao_alert x, ao_workspace x)) (alert_outbox s)"
proof -
  have "(intents_ok s' \<and> intents_mono s s') \<and> s' = s\<lparr>alert_outbox := alert_outbox s'\<rparr> \<and>
    map (\<lambda>x. (ao_alert x, ao_workspace x)) (alert_outbox s') = map (\<lambda>x. (ao_alert x, ao_workspace x)) (alert_outbox s)"
    using ok
  proof (cases rule: claim_alert_cases)
    case none
    then show ?thesis using inv by (simp add: intents_mono_refl)
  next
    case (claimed x a)
    have op: "open_intent y" if "y \<in> set (alert_outbox s)" "ao_alert y = ao_alert x" for y
      using intent_by_id[OF ledger that(1) claimed(1) that(2)] claimed(2) by (simp add: claimable_def)
    have step: "open_intent y \<and> (intent_row_check (lease_intent env w lease y) \<longrightarrow> intent_ok (lease_intent env w lease y))"
      if "y \<in> set (alert_outbox s)" "ao_alert y = ao_alert x" "intent_ok y" for y
      using op[OF that(1,2)] lease_intent_ok[OF that(3)] by blast
    note u = update_intents_ok[OF inv claimed(5) step]
    from u show ?thesis by (intro conjI)
  qed
  then show "intents_ok s'" "intents_mono s s'" "s' = s\<lparr>alert_outbox := alert_outbox s'\<rparr>"
    "map (\<lambda>x. (ao_alert x, ao_workspace x)) (alert_outbox s') = map (\<lambda>x. (ao_alert x, ao_workspace x)) (alert_outbox s)"
    by blast+
qed

lemma alert_succeed_effect:
  assumes inv: "intents_ok s" and ok: "alert_succeed env w i s = Inr (b, s')"
  shows "intents_ok s'" "intents_mono s s'" "s' = s\<lparr>alert_outbox := alert_outbox s'\<rparr>"
    "map (\<lambda>x. (ao_alert x, ao_workspace x)) (alert_outbox s') = map (\<lambda>x. (ao_alert x, ao_workspace x)) (alert_outbox s)"
proof -
  have up: "update_intents (held_intent i w) (succeed_intent env) s = Inr s'"
    using ok by (auto simp: alert_succeed_def)
  have step: "open_intent x \<and> (intent_row_check (succeed_intent env x) \<longrightarrow> intent_ok (succeed_intent env x))"
    if "x \<in> set (alert_outbox s)" "held_intent i w x" "intent_ok x" for x
    using that by (auto simp: held_intent_def intent_ok_def succeed_intent_def open_intent_def)
  note u = update_intents_ok[OF inv up step]
  from u show "intents_ok s'" "intents_mono s s'" "s' = s\<lparr>alert_outbox := alert_outbox s'\<rparr>"
    "map (\<lambda>x. (ao_alert x, ao_workspace x)) (alert_outbox s') = map (\<lambda>x. (ao_alert x, ao_workspace x)) (alert_outbox s)"
    by blast+
qed

lemma alert_fail_effect:
  assumes inv: "intents_ok s" and n: "attempts < MAX_DELIVERY_ATTEMPTS"
    and ok: "alert_fail env w i attempts code retryable s = Inr (b, s')"
  shows "intents_ok s'" "intents_mono s s'" "s' = s\<lparr>alert_outbox := alert_outbox s'\<rparr>"
    "map (\<lambda>x. (ao_alert x, ao_workspace x)) (alert_outbox s') = map (\<lambda>x. (ao_alert x, ao_workspace x)) (alert_outbox s)"
proof -
  define dead where "dead = (\<not> retryable \<or> MAX_DELIVERY_ATTEMPTS \<le> attempts + 1)"
  let ?f = "if dead then abandon_intent env (attempts + 1) code else retry_intent env (attempts + 1) code"
  have up: "update_intents (held_intent i w) ?f s = Inr s'"
    using ok by (auto simp: alert_fail_def Let_def dead_def)
  have step: "open_intent x \<and> (intent_row_check (?f x) \<longrightarrow> intent_ok (?f x))"
    if "x \<in> set (alert_outbox s)" "held_intent i w x" "intent_ok x" for x
    using that n dead_def
    by (auto simp: held_intent_def intent_ok_def abandon_intent_def retry_intent_def open_intent_def)
  note u = update_intents_ok[OF inv up step]
  from u show "intents_ok s'" "intents_mono s s'" "s' = s\<lparr>alert_outbox := alert_outbox s'\<rparr>"
    "map (\<lambda>x. (ao_alert x, ao_workspace x)) (alert_outbox s') = map (\<lambda>x. (ao_alert x, ao_workspace x)) (alert_outbox s)"
    by blast+
qed

section \<open>New intents\<close>

text \<open>A charge or a new budget adds one fresh intent for every alert it raises.\<close>

definition new_intents :: "db \<Rightarrow> db \<Rightarrow> bool" where
  "new_intents s s' \<longleftrightarrow> (\<exists>xs. alert_outbox s' = alert_outbox s @ xs \<and> (\<forall>x \<in> set xs. intent_ok x))"

lemma new_intents_same [simp]: "alert_outbox s' = alert_outbox s \<Longrightarrow> new_intents s s'"
  by (simp add: new_intents_def)

lemma new_intents_trans: "new_intents s t \<Longrightarrow> new_intents t u \<Longrightarrow> new_intents s u"
  unfolding new_intents_def by (metis append_assoc set_append Un_iff)

lemma new_intents_ok: "intents_ok s \<Longrightarrow> new_intents s s' \<Longrightarrow> intents_ok s' \<and> intents_mono s s'"
  by (auto simp: new_intents_def intents_ok_def intro: intents_mono_append)

lemma new_alert_job_ok: "intent_ok (new_alert_job env a)"
  by (simp add: intent_ok_def intent_row_check_def new_alert_job_def open_intent_def MAX_DELIVERY_ATTEMPTS_def)

lemma raise_alerts_intents: "raise_alerts env cal b c k ts t = Inr (f, t') \<Longrightarrow> new_intents t t'"
proof (induction ts arbitrary: k t f)
  case (Cons n ts)
  show ?case
  proof (cases "\<not> crossed b c n \<or> alerted (b_workspace b) (month_start cal (tx_now env)) n t")
    case True
    with Cons show ?thesis by (auto simp: raise_alerts_Cons)
  next
    case False
    let ?t = "t\<lparr>spend_alerts := spend_alerts t @ [new_alert env cal k b c n],
       alert_outbox := alert_outbox t @ [new_alert_job env (new_alert env cal k b c n)]\<rparr>"
    obtain f' where "raise_alerts env cal b c (Suc k) ts ?t = Inr (f', t')"
      using Cons.prems False by (auto simp: raise_alerts_Cons split: if_splits)
    from Cons.IH[OF this] have "new_intents ?t t'" .
    moreover have "new_intents t ?t" using new_alert_job_ok by (simp add: new_intents_def)
    ultimately show ?thesis using new_intents_trans by blast
  qed
qed simp

lemma raise_threshold_intents: "raise_threshold_alerts env cal k ws t = Inr (f, t') \<Longrightarrow> new_intents t t'"
  by (auto simp: raise_threshold_alerts_def split: option.splits dest: raise_alerts_intents)

lemma record_spend_intents:
  assumes "record_spend env cal c s = Inr (w, s')"
  shows "new_intents s s'"
proof (cases "charged (ch_workspace c) (ch_source_key c) s")
  case True
  then show ?thesis using assms by (auto simp: record_spend_def Let_def)
next
  case False
  then obtain f where "raise_threshold_alerts env cal 1 (ch_workspace c)
      (s\<lparr>spend_records := spend_records s @ [spend_row_of env 0 c]\<rparr>) = Inr (f, s')"
    using assms by (auto simp: record_spend_def Let_def split: if_splits)
  from raise_threshold_intents[OF this] show ?thesis by (simp add: new_intents_def)
qed

end
