(* ===== verification/Executor_Safety.thy ===== *)
theory Executor_Safety
  imports Executor_Store Tool_Safety Samples Alert_Delivery
begin

text \<open>
  What the transactions of the executor's journal leave alone, and their properties: a step is saved and
  charged once, the budget is checked before egress, and cached answers and retrieval snapshots stay
  within their scope.
\<close>

section \<open>Frames\<close>

text \<open>The tables of runs, tools and workspaces are left as they are; the journal only grows.\<close>

definition exec_frame :: "db \<Rightarrow> db \<Rightarrow> bool" where
  "exec_frame s s' \<longleftrightarrow> agent_runs s' = agent_runs s \<and> receipts s' = receipts s \<and> outbox s' = outbox s \<and>
     tool_calls s' = tool_calls s \<and> tool_approvals s' = tool_approvals s \<and>
     tool_definitions s' = tool_definitions s \<and> tool_policies s' = tool_policies s \<and>
     workspaces s' = workspaces s \<and> memberships s' = memberships s \<and>
     security_events s' = security_events s \<and> (journal_ok s \<longrightarrow> journal_ok s') \<and>
     (\<exists>es. run_events s' = run_events s @ es) \<and> (\<exists>ms. model_steps s' = model_steps s @ ms) \<and>
     (\<exists>rs. spend_records s' = spend_records s @ rs) \<and> new_intents s s' \<and> run_tasks s' = run_tasks s \<and>
     task_dependencies s' = task_dependencies s \<and> task_evidence s' = task_evidence s"

lemma exec_refl [simp]: "exec_frame s s"
  by (simp add: exec_frame_def)

lemma exec_trans: "exec_frame s t \<Longrightarrow> exec_frame t u \<Longrightarrow> exec_frame s u"
  by (auto simp: exec_frame_def intro: new_intents_trans)

lemma run_event_extends: "\<exists>e. run_events (run_event env ctx ty p t) = run_events t @ [e]"
  unfolding run_event_def append_run_event_def by simp

lemma exec_event:
  assumes "exec_frame s t"
  shows "exec_frame s (run_event env ctx ty p t)"
proof -
  obtain e where "run_events (run_event env ctx ty p t) = run_events t @ [e]"
    using run_event_extends by blast
  moreover have "journal_ok t \<longrightarrow> journal_ok (run_event env ctx ty p t)"
    by (simp add: run_event_def journal_append)
  ultimately have "exec_frame t (run_event env ctx ty p t)"
    by (simp add: exec_frame_def) (simp add: run_event_def)
  with assms show ?thesis by (rule exec_trans)
qed

lemma exec_step: "insert_step m s = Inr s' \<Longrightarrow> exec_frame s s'"
  by (auto simp: insert_step_Inr exec_frame_def journal_ok_def events_of_def)

lemma exec_hit: "exec_frame s t \<Longrightarrow> exec_frame s (cache_hit env ctx key t)"
  by (auto simp: exec_frame_def cache_hit_def journal_ok_def events_of_def new_intents_def)

lemma exec_upsert: "upsert_cache row s = Inr s' \<Longrightarrow> exec_frame s s'"
  by (auto simp: upsert_cache_def Let_def exec_frame_def journal_ok_def events_of_def split: if_splits)

lemma exec_spend:
  assumes "record_spend env cal c s = Inr (w, s')" and "ledger_ok s"
  shows "exec_frame s s'"
proof -
  have "\<exists>rs. spend_records s' = spend_records s @ rs"
  proof (cases "charged (ch_workspace c) (ch_source_key c) s")
    case True
    from record_spend_charged(1)[OF this assms(1)] show ?thesis by simp
  next
    case False
    from record_spend_fresh(2)[OF assms(2) False assms(1)] show ?thesis by simp
  qed
  with record_spend_tables[OF assms] record_spend_intents[OF assms(1)] show ?thesis
    by (auto simp: exec_frame_def journal_ok_def events_of_def)
qed

lemma exec_provenance: "insert_provenance ctx n cs s = Inr s' \<Longrightarrow> exec_frame s s'"
proof (induction cs arbitrary: n s)
  case Nil
  then show ?case by simp
next
  case (Cons c cs)
  then have "insert_provenance ctx (Suc n) cs (s\<lparr>retrieval_chunks := retrieval_chunks s @ [provenance_row ctx n c]\<rparr>) = Inr s'"
    by (simp split: if_splits)
  from Cons.IH[OF this] show ?case
    by (simp add: exec_frame_def journal_ok_def events_of_def new_intents_def)
qed

lemma exec_frame_safe:
  assumes "run_inv s" and "governed s" and "exec_frame s s'"
  shows "tool_step s s'"
proof -
  have "run_inv s'"
    using assms(1,3) by (auto simp: run_inv_def exec_frame_def keys_ok_def linked_def known_job_def
        rows_ok_def exclusive_def processing_def)
  moreover have "agent_runs s' = agent_runs s" "governed s'"
    using assms(2,3) governed_cong[of s' s] by (simp_all add: exec_frame_def)
  ultimately show ?thesis by (intro tool_stepI safe_same_runs)
qed

text \<open>The spend tables: untouched, or changed by one charge.\<close>

definition ledger_frame :: "db \<Rightarrow> db \<Rightarrow> bool" where
  "ledger_frame s s' \<longleftrightarrow> spend_records s' = spend_records s \<and> spend_alerts s' = spend_alerts s \<and>
     alert_outbox s' = alert_outbox s \<and> spend_budgets s' = spend_budgets s"

lemma ledger_frame_ok: "ledger_frame s s' \<Longrightarrow> ledger_ok s' = ledger_ok s"
  unfolding ledger_frame_def by (intro ledger_cong) simp_all

lemma ledger_frame_refl [simp]: "ledger_frame s s"
  by (simp add: ledger_frame_def)

lemma ledger_frames [simp]:
  "ledger_frame s (run_event env ctx ty p t) = ledger_frame s t"
  "ledger_frame s (cache_hit env ctx key t) = ledger_frame s t"
  by (simp_all add: ledger_frame_def run_event_def cache_hit_def)

section \<open>The operations\<close>

lemma authorize_spend_cases:
  assumes "authorize_spend env cal policy ctx s = Inr (e, s')"
  obtains (off) "policy = None" "e = None" "s' = s"
  | (allowed) run d where "executable_run env 0 ctx s = Inr run"
      "evaluate_budget cal (tx_now env) (x_workspace ctx) s = Inr d" "bd_allowed d" "e = None" "s' = s"
  | (denied) run d where "executable_run env 0 ctx s = Inr run"
      "evaluate_budget cal (tx_now env) (x_workspace ctx) s = Inr d" "\<not> bd_allowed d"
      "e = Some (ToolContractError ''workspace_budget_exhausted'')"
      "s' = run_event env ctx ''spend.denied''
         [(''limit_micros'', json_opt JInt (bd_limit d)), (''consumed_micros'', JInt (bd_consumed d))] s"
proof (cases policy)
  case None
  with assms show ?thesis by (intro off) (simp_all add: authorize_spend_def)
next
  case (Some p)
  show ?thesis
  proof (cases "executable_run env 0 ctx s")
    case (Inl e0)
    with assms Some show ?thesis by (simp add: authorize_spend_def)
  next
    case run: (Inr run)
    show ?thesis
    proof (cases "evaluate_budget cal (tx_now env) (x_workspace ctx) s")
      case (Inl e0)
      with assms Some run show ?thesis by (simp add: authorize_spend_def)
    next
      case d: (Inr d)
      show ?thesis
      proof (cases "bd_allowed d")
        case True
        with assms Some run d show ?thesis by (intro allowed) (simp_all add: authorize_spend_def)
      next
        case False
        with assms Some run d show ?thesis by (intro denied) (auto simp: authorize_spend_def)
      qed
    qed
  qed
qed

lemma authorize_spend_frame:
  assumes "authorize_spend env cal policy ctx s = Inr (e, s')"
  shows "exec_frame s s'" "ledger_frame s s'"
  using assms by (cases rule: authorize_spend_cases; simp add: exec_event)+

lemma record_semantic_frame:
  assumes "record_semantic_cache_embedding env cal es ctx n s = Inr (u, s')" and "ledger_ok s"
  shows "exec_frame s s'" "ledger_ok s'"
proof -
  have "exec_frame s s' \<and> ledger_ok s'"
  proof (cases es)
    case None
    with assms show ?thesis by (simp add: record_semantic_cache_embedding_def)
  next
    case (Some e)
    with assms(1) obtain c w s1 p where r: "record_spend env cal c s = Inr (w, s1)"
      and s': "s' = run_event env ctx ''answer_cache.embedding.completed'' p s1"
      by (auto simp: record_semantic_cache_embedding_def)
    have "ledger_frame s1 s'" by (simp add: s')
    from ledger_frame_ok[OF this] record_spend_marks(1)[OF assms(2) r] have "ledger_ok s'" by simp
    with exec_event[OF exec_spend[OF r assms(2)]] s' show ?thesis by simp
  qed
  then show "exec_frame s s'" "ledger_ok s'" by simp_all
qed

lemma insert_step_ledger: "insert_step m s = Inr s' \<Longrightarrow> ledger_frame s s'"
  by (auto simp: insert_step_Inr ledger_frame_def)

lemma restore_entry_cases:
  assumes "restore_entry env ctx n c reason extra row s = Inr (x, s')"
  obtains r s1 where "decode_response (ac_response row) = Inr r" "x = Some r"
    "insert_step (step_row_of env ctx n c reason r) s = Inr s1"
    "s' = run_event env ctx ''model.completed''
        (completed_payload n c reason 0 0 (rs_finish r) (Some 0) ((''cache_hit'', JBool True) # extra))
        (cache_hit env ctx (ac_key row) s1)"
  using assms by (auto simp: restore_entry_def)

lemma restore_entry_frame:
  assumes "restore_entry env ctx n c reason extra row s = Inr (x, s')"
  shows "exec_frame s s'" "ledger_frame s s'"
proof -
  obtain r s1 where s1: "insert_step (step_row_of env ctx n c reason r) s = Inr s1"
    and s': "s' = run_event env ctx ''model.completed''
        (completed_payload n c reason 0 0 (rs_finish r) (Some 0) ((''cache_hit'', JBool True) # extra))
        (cache_hit env ctx (ac_key row) s1)"
    by (rule restore_entry_cases[OF assms])
  show "exec_frame s s'" unfolding s' by (intro exec_event exec_hit exec_step[OF s1])
  show "ledger_frame s s'" unfolding s' using insert_step_ledger[OF s1] by simp
qed

lemma restore_answer_cache_cases:
  assumes "restore_answer_cache env ctx n c key s = Inr (x, s')"
  obtains (miss) "x = None" "s' = s"
  | (hit) row where "row \<in> set (answer_cache s)" "same_entry (x_workspace ctx) (x_agent ctx) key row"
      "ac_provider row = mc_provider c" "ac_model row = mc_model c" "tx_now env < ac_expires row"
      "restore_entry env ctx n c ''workspace_answer_cache'' [] row s = Inr (x, s')"
  using assms by (auto simp: restore_answer_cache_def split: option.splits dest: find_SomeD intro: that)

lemma restore_semantic_cases:
  assumes "restore_semantic_answer_cache env vo ctx n c q s = Inr (x, s')"
  obtains (miss) "x = None" "s' = s"
  | (hit) row where "row \<in> set (answer_cache s)" "semantic_candidates env ctx c q row"
      "sq_threshold q \<le> 1 - entry_distance vo q row"
      "\<And>y. y \<in> set (answer_cache s) \<Longrightarrow> semantic_candidates env ctx c q y \<Longrightarrow>
         entry_distance vo q row \<le> entry_distance vo q y"
      "\<exists>extra. restore_entry env ctx n c ''workspace_semantic_answer_cache'' extra row s = Inr (x, s')"
proof -
  let ?k = "\<lambda>x. (entry_distance vo q x, ac_key x)"
  let ?o = "order_limit ?k 1 (semantic_candidates env ctx c q) (answer_cache s)"
  show thesis
  proof (cases ?o)
    case Nil
    with assms show ?thesis by (intro miss) (auto simp: restore_semantic_answer_cache_def)
  next
    case (Cons row rest)
    then have rest: "rest = []" using order_limit_length[of ?k 1 "semantic_candidates env ctx c q" "answer_cache s"] by simp
    have row: "row \<in> set ?o" using Cons by simp
    have least: "entry_distance vo q row \<le> entry_distance vo q y"
      if "y \<in> set (answer_cache s)" "semantic_candidates env ctx c q y" for y
    proof (cases "y = row")
      case True
      then show ?thesis by simp
    next
      case False
      then have "y \<notin> set ?o" using Cons rest by simp
      from order_limit_least[OF row that this] show ?thesis by (auto simp: less_eq_prod_def)
    qed
    show ?thesis
    proof (cases "1 - entry_distance vo q row < sq_threshold q")
      case True
      with assms Cons show ?thesis by (intro miss) (auto simp: restore_semantic_answer_cache_def Let_def)
    next
      case False
      with assms Cons have "\<exists>extra. restore_entry env ctx n c ''workspace_semantic_answer_cache'' extra row s = Inr (x, s')"
        by (auto simp: restore_semantic_answer_cache_def Let_def)
      with False least order_limit_memD[OF row] show ?thesis by (intro hit) auto
    qed
  qed
qed

lemma restore_frames:
  assumes "restore_answer_cache env ctx n c key s = Inr (x, s') \<or>
    restore_semantic_answer_cache env vo ctx n c q s = Inr (x, s')"
  shows "exec_frame s s'" "ledger_frame s s'"
proof -
  have "exec_frame s s' \<and> ledger_frame s s'"
    using assms
  proof
    assume "restore_answer_cache env ctx n c key s = Inr (x, s')"
    then show ?thesis
      by (cases rule: restore_answer_cache_cases) (use restore_entry_frame in auto)
  next
    assume "restore_semantic_answer_cache env vo ctx n c q s = Inr (x, s')"
    then show ?thesis
    proof (cases rule: restore_semantic_cases)
      case miss
      then show ?thesis by simp
    next
      case (hit row)
      then obtain extra where "restore_entry env ctx n c ''workspace_semantic_answer_cache'' extra row s = Inr (x, s')"
        by blast
      from restore_entry_frame[OF this] show ?thesis by simp
    qed
  qed
  then show "exec_frame s s'" "ledger_frame s s'" by simp_all
qed

lemma save_step_cases:
  assumes "save_step env cal policy ctx n d r cache s = Inr (u, s')"
  obtains cost run s1 s2 s3 where "step_cost policy (rd_candidate d) r = Inr cost"
    "executable_run env 0 ctx s = Inr run"
    "insert_step (step_row_of env ctx n (rd_candidate d) (rd_reason d) r) s = Inr s1"
    "cost = None \<and> s2 = s1 \<or>
      (\<exists>k w. cost = Some k \<and> record_spend env cal (step_charge ctx n (rd_candidate d) r k) s1 = Inr (w, s2))"
    "s3 = s2 \<and> option_ok (\<lambda>q. ce_ttl q \<le> 0) cache \<or>
      (\<exists>q. cache = Some q \<and> upsert_cache (cache_row_of env ctx (rd_candidate d) r q) s2 = Inr s3)"
    "s' = run_event env ctx ''model.completed''
        (completed_payload n (rd_candidate d) (rd_reason d) (us_input (rs_usage r)) (us_output (rs_usage r))
           (rs_finish r) cost []) s3"
proof -
  from assms[unfolded save_step_def bind_res_Inr]
  obtain cost run s1 s2 s3 where a: "step_cost policy (rd_candidate d) r = Inr cost"
    "executable_run env 0 ctx s = Inr run"
    "insert_step (step_row_of env ctx n (rd_candidate d) (rd_reason d) r) s = Inr s1"
    and b: "(case cost of None \<Rightarrow> Inr s1
        | Some k \<Rightarrow> bind_res (record_spend env cal (step_charge ctx n (rd_candidate d) r k) s1) (\<lambda>(w, t). Inr t)) = Inr s2"
    and c: "(case cache of None \<Rightarrow> Inr s2
        | Some q \<Rightarrow> if ce_ttl q \<le> 0 then Inr s2
            else bind_res (case ce_embedding q of None \<Rightarrow> Inr () | Some v \<Rightarrow> vector_literal v) (\<lambda>_.
              upsert_cache (cache_row_of env ctx (rd_candidate d) r q) s2)) = Inr s3"
    and d: "s' = run_event env ctx ''model.completed''
        (completed_payload n (rd_candidate d) (rd_reason d) (us_input (rs_usage r)) (us_output (rs_usage r))
           (rs_finish r) cost []) s3"
    by blast
  have b': "cost = None \<and> s2 = s1 \<or>
      (\<exists>k w. cost = Some k \<and> record_spend env cal (step_charge ctx n (rd_candidate d) r k) s1 = Inr (w, s2))"
    using b by (cases cost) auto
  have c': "s3 = s2 \<and> option_ok (\<lambda>q. ce_ttl q \<le> 0) cache \<or>
      (\<exists>q. cache = Some q \<and> upsert_cache (cache_row_of env ctx (rd_candidate d) r q) s2 = Inr s3)"
    using c by (cases cache) (auto simp: option_ok_def split: if_splits)
  show thesis by (rule that[OF a b' c' d])
qed

lemma upsert_cache_keeps:
  assumes "upsert_cache row s = Inr s'"
  shows "model_steps s' = model_steps s" "ledger_frame s s'"
  using assms by (auto simp: upsert_cache_def Let_def ledger_frame_def split: if_splits)

lemma save_step_frame:
  assumes ok: "save_step env cal policy ctx n d r cache s = Inr (u, s')" and inv: "ledger_ok s"
  shows "exec_frame s s'" "ledger_ok s'"
    "model_steps s' = model_steps s @ [step_row_of env ctx n (rd_candidate d) (rd_reason d) r]"
    "\<And>p. policy = Some p \<Longrightarrow> charged (x_workspace ctx) (agent_step_source_key (x_run ctx) n) s'"
proof -
  let ?row = "step_row_of env ctx n (rd_candidate d) (rd_reason d) r"
  obtain cost run s1 s2 s3 where cost: "step_cost policy (rd_candidate d) r = Inr cost"
    and s1: "insert_step ?row s = Inr s1"
    and s2: "cost = None \<and> s2 = s1 \<or>
      (\<exists>k w. cost = Some k \<and> record_spend env cal (step_charge ctx n (rd_candidate d) r k) s1 = Inr (w, s2))"
    and s3: "s3 = s2 \<and> option_ok (\<lambda>q. ce_ttl q \<le> 0) cache \<or>
      (\<exists>q. cache = Some q \<and> upsert_cache (cache_row_of env ctx (rd_candidate d) r q) s2 = Inr s3)"
    and s': "s' = run_event env ctx ''model.completed''
        (completed_payload n (rd_candidate d) (rd_reason d) (us_input (rs_usage r)) (us_output (rs_usage r))
           (rs_finish r) cost []) s3"
    by (rule save_step_cases[OF ok])
  have l1: "ledger_ok s1" using ledger_frame_ok[OF insert_step_ledger[OF s1]] inv by simp
  have mid: "exec_frame s1 s2" "ledger_ok s2" "model_steps s2 = model_steps s1"
    "cost \<noteq> None \<Longrightarrow> charged (x_workspace ctx) (agent_step_source_key (x_run ctx) n) s2"
  proof -
    have "exec_frame s1 s2 \<and> ledger_ok s2 \<and> model_steps s2 = model_steps s1 \<and>
      (cost \<noteq> None \<longrightarrow> charged (x_workspace ctx) (agent_step_source_key (x_run ctx) n) s2)"
      using s2
    proof (elim disjE exE conjE)
      assume "cost = None" "s2 = s1"
      with l1 show ?thesis by simp
    next
      fix k w assume "cost = Some k"
        and r: "record_spend env cal (step_charge ctx n (rd_candidate d) r k) s1 = Inr (w, s2)"
      have "model_steps s2 = model_steps s1" using record_spend_tables[OF r l1] by auto
      with exec_spend[OF r l1] record_spend_marks(1,2)[OF l1 r] show ?thesis by (simp add: step_charge_def)
    qed
    then show "exec_frame s1 s2" "ledger_ok s2" "model_steps s2 = model_steps s1"
      "cost \<noteq> None \<Longrightarrow> charged (x_workspace ctx) (agent_step_source_key (x_run ctx) n) s2" by blast+
  qed
  have frames: "exec_frame s2 s3" "ledger_frame s2 s3" "model_steps s3 = model_steps s2"
    using s3 exec_upsert upsert_cache_keeps by (force, force, force)
  have top: "exec_frame s2 s3" "ledger_ok s3" "model_steps s3 = model_steps s2" "spend_records s3 = spend_records s2"
    using frames ledger_frame_ok[OF frames(2)] mid(2) by (simp_all add: ledger_frame_def)
  show "exec_frame s s'" unfolding s'
    by (intro exec_event exec_trans[OF exec_step[OF s1]] exec_trans[OF mid(1)] top(1))
  have "ledger_frame s3 s'" by (simp add: s')
  from ledger_frame_ok[OF this] top(2) show "ledger_ok s'" by simp
  show "model_steps s' = model_steps s @ [?row]"
    using s1 top(3) mid(3) by (auto simp: s' run_event_def insert_step_Inr)
  show "charged (x_workspace ctx) (agent_step_source_key (x_run ctx) n) s'" if "policy = Some p" for p
  proof -
    have "cost \<noteq> None" using cost that by (auto simp: step_cost_def split: sum.splits err.splits)
    from mid(4)[OF this] show ?thesis by (simp add: s' run_event_def charged_def top(4))
  qed
qed

lemma insert_retrieval_cases:
  assumes "insert_retrieval env ctx v s = Inr t"
  obtains "t = s" "sql_exists (\<lambda>r. rr_run r = x_run ctx) (run_retrievals s)"
  | r c t1 p where "insert_provenance ctx 0 (rv_chunks v)
        (s\<lparr>run_retrievals := run_retrievals s @ [r], retrieval_contexts := retrieval_contexts s @ [c]\<rparr>) = Inr t1"
      "t = run_event env ctx ''retrieval.completed'' p t1"
      "r = \<lparr>rr_run = x_run ctx, rr_workspace = x_workspace ctx, rr_query_hash = sha256_hex (x_input ctx),
            rr_context_hash = sha256_hex (evidence_text (rv_chunks v)), rr_tokens = rv_tokens v,
            rr_chunk_count = length (rv_chunks v)\<rparr>"
      "c = \<lparr>rx_run = x_run ctx, rx_workspace = x_workspace ctx, rx_text = evidence_text (rv_chunks v)\<rparr>"
      "\<not> sql_exists (\<lambda>r. rr_run r = x_run ctx) (run_retrievals s)"
      "\<not> sql_exists (\<lambda>x. rx_run x = x_run ctx) (retrieval_contexts s)"
      "0 \<le> rv_tokens v" "length (rv_chunks v) \<le> 50" "length (evidence_text (rv_chunks v)) \<le> 200000"
proof (cases "sql_exists (\<lambda>r. rr_run r = x_run ctx) (run_retrievals s)")
  case True
  with assms show ?thesis by (intro that(1)) (simp_all add: insert_retrieval_def Let_def split: if_splits)
next
  case False
  let ?r = "\<lparr>rr_run = x_run ctx, rr_workspace = x_workspace ctx, rr_query_hash = sha256_hex (x_input ctx),
            rr_context_hash = sha256_hex (evidence_text (rv_chunks v)), rr_tokens = rv_tokens v,
            rr_chunk_count = length (rv_chunks v)\<rparr>"
  let ?c = "\<lparr>rx_run = x_run ctx, rx_workspace = x_workspace ctx, rx_text = evidence_text (rv_chunks v)\<rparr>"
  let ?u = "s\<lparr>run_retrievals := run_retrievals s @ [?r], retrieval_contexts := retrieval_contexts s @ [?c]\<rparr>"
  show ?thesis
  proof (cases "insert_provenance ctx 0 (rv_chunks v) ?u")
    case (Inl e)
    with assms False show ?thesis by (simp add: insert_retrieval_def Let_def split: if_splits)
  next
    case (Inr t1)
    from assms False have g: "\<not> sql_exists (\<lambda>x. rx_run x = x_run ctx) (retrieval_contexts s)"
      "0 \<le> rv_tokens v" "length (rv_chunks v) \<le> 50" "length (evidence_text (rv_chunks v)) \<le> 200000"
      by (simp_all add: insert_retrieval_def Let_def split: if_splits)
    with assms False Inr obtain p where "t = run_event env ctx ''retrieval.completed'' p t1"
      by (auto simp: insert_retrieval_def Let_def)
    from that(2)[OF Inr this refl refl False g] show ?thesis .
  qed
qed

lemma save_retrieval_frame:
  assumes "save_retrieval env ctx v s = Inr (sn, s')"
  shows "exec_frame s s'" "ledger_frame s s'"
proof -
  have keep: "ledger_frame t t'" if "insert_provenance ctx n cs t = Inr t'" for n cs t t'
    using that
  proof (induction cs arbitrary: n t)
    case Nil
    then show ?case by simp
  next
    case (Cons c cs)
    then have "insert_provenance ctx (Suc n) cs (t\<lparr>retrieval_chunks := retrieval_chunks t @ [provenance_row ctx n c]\<rparr>) = Inr t'"
      by (simp split: if_splits)
    from Cons.IH[OF this] show ?case by (simp add: ledger_frame_def)
  qed
  have ins: "exec_frame s t \<and> ledger_frame s t" if "insert_retrieval env ctx v s = Inr t" for t
  proof (cases rule: insert_retrieval_cases[OF that])
    case 1
    then show ?thesis by simp
  next
    case (2 r c t1 p)
    let ?u = "s\<lparr>run_retrievals := run_retrievals s @ [r], retrieval_contexts := retrieval_contexts s @ [c]\<rparr>"
    have "exec_frame s ?u" by (simp add: exec_frame_def journal_ok_def events_of_def)
    from exec_event[OF exec_trans[OF this exec_provenance[OF 2(1)]]] have "exec_frame s t" by (simp add: 2(2))
    moreover have "ledger_frame s t" using keep[OF 2(1)] by (simp add: 2(2) ledger_frame_def run_event_def)
    ultimately show ?thesis by simp
  qed
  have "\<exists>t. insert_retrieval env ctx v s = Inr t \<and> s' = t"
    using assms by (auto simp: save_retrieval_def Let_def snapshot_lost_def split: if_splits option.splits)
  with ins show "exec_frame s s'" "ledger_frame s s'" by blast+
qed

end
