(* ===== verification/Executor_Samples.thy ===== *)
theory Executor_Samples
  imports Executor_Store Samples
begin

text \<open>
  Concrete data of the executor's journal for the witnesses: one model, one answer, a cached entry, a
  corpus of one chunk, and a charge that fits the sample budget.
\<close>

definition sample_candidate :: model_candidate where
  "sample_candidate = \<lparr>mc_provider = ''openai'', mc_model = ''m'', mc_capabilities = [], mc_quality = 1,
     mc_cost = 1\<rparr>"

definition sample_decision :: routing_decision where
  "sample_decision = \<lparr>rd_candidate = sample_candidate, rd_reason = ''best''\<rparr>"

definition sample_response :: provider_response where
  "sample_response = \<lparr>rs_text = Some ''hi'', rs_tool_calls = [], rs_structured = None,
     rs_usage = \<lparr>us_input = 3, us_output = 2\<rparr>, rs_finish = ''stop''\<rparr>"

definition sample_prices :: spend_policy where
  "sample_prices = [((''openai'', ''m''), \<lparr>input_rate = 3, output_rate = 7\<rparr>)]"

definition digest_text :: string where
  "digest_text = replicate 64 (CHR ''a'')"

definition sample_cache_request :: cache_request where
  "sample_cache_request = \<lparr>ce_key = digest_text, ce_ttl = 60, ce_scope = None, ce_question = None,
     ce_embedding = None, ce_model = None, ce_dims = None\<rparr>"

definition sample_entry :: answer_cache_row where
  "sample_entry = cache_row_of (env_at 0 1) sample_context sample_candidate sample_response
     (sample_cache_request\<lparr>ce_scope := Some digest_text, ce_question := Some ''hello'', ce_embedding := Some [1],
       ce_model := Some ''e'', ce_dims := Some 1\<rparr>)"

definition sample_query :: semantic_query where
  "sample_query = \<lparr>sq_scope = digest_text, sq_model = ''e'', sq_dims = 1, sq_vector = [1], sq_threshold = 1/2\<rparr>"

definition sample_vector_ops :: vector_ops where
  "sample_vector_ops = \<lparr>vo_distance = (\<lambda>u v. if u = v then 0 else 1), vo_json = (\<lambda>_. JNull)\<rparr>"

definition cached_db :: db where
  "cached_db = running_db\<lparr>answer_cache := [sample_entry]\<rparr>"

definition sample_chunk :: retrieved_chunk where
  "sample_chunk = \<lparr>rt_id = 80, rt_source = 81, rt_source_key = ''doc'', rt_version = ''1'', rt_index = 0,
     rt_content = ''text''\<rparr>"

definition corpus_db :: db where
  "corpus_db = running_db\<lparr>
     rag_sources := [\<lparr>gs_id = 81, gs_workspace = 10, gs_key = ''doc'', gs_version = ''1'', gs_current = True\<rparr>],
     rag_chunks := [\<lparr>gc_id = 80, gc_workspace = 10, gc_source = 81, gc_version = ''1'', gc_index = 0,
       gc_content_hash = sha256_hex ''text'', gc_scope = WorkspaceScope\<rparr>]\<rparr>"

definition sample_retrieval :: retrieval_result where
  "sample_retrieval = \<lparr>rv_chunks = [sample_chunk], rv_tokens = 4\<rparr>"

definition retrieved_db :: db where
  "retrieved_db = corpus_db\<lparr>
     run_retrievals := [\<lparr>rr_run = 20, rr_workspace = 10, rr_query_hash = sha256_hex ''hello'',
       rr_context_hash = sha256_hex ''context'', rr_tokens = 4, rr_chunk_count = 1\<rparr>],
     retrieval_contexts := [\<lparr>rx_run = 20, rx_workspace = 10, rx_text = ''context''\<rparr>],
     retrieval_chunks := [provenance_row sample_context 0 sample_chunk]\<rparr>"

lemma sample_fence:
  assumes "agent_runs s = agent_runs running_db" "receipts s = receipts running_db"
    "memberships s = memberships running_db"
  shows "executable_run (env_at 5 k) 0 sample_context s = Inr running_run"
  unfolding executable_run_cong[OF assms]
  by (simp add: executable_run_def find_run_in_def sql_exists_def authorize_def member_role_def
      all_permissions_def sample_context_def sample_defs)

lemmas executor_sample_defs =
  sample_candidate_def sample_decision_def sample_response_def sample_cache_request_def sample_entry_def
  sample_query_def sample_vector_ops_def cached_db_def sample_chunk_def corpus_db_def sample_retrieval_def

lemma digest_length [simp]: "length digest_text = 64"
  by (simp add: digest_text_def)

end
