(* ===== verification/Executor_Properties.thy ===== *)
theory Executor_Properties
  imports Executor_Safety Executor_Samples Call_Safety Spend_Properties
begin

text \<open>
  The properties of the executor's journal: a step is saved and charged once and survives a restart,
  cached answers stay in their scope, retrieval snapshots are reused only while every chunk is readable,
  and an attempt that has lost the run writes nothing.
\<close>

section \<open>Steps\<close>

lemma find_append_last: "(\<And>x. x \<in> set xs \<Longrightarrow> \<not> p x) \<Longrightarrow> p y \<Longrightarrow> find p (xs @ [y]) = Some y"
  by (induction xs) auto

lemma find_step_saved:
  assumes "\<forall>x \<in> set (model_steps s). \<not> (st_run x = x_run ctx \<and> st_no x = n)"
    and "model_steps s' = model_steps s @ [step_row_of env ctx n c reason r]"
  shows "find_step ctx n s' = Some (step_row_of env ctx n c reason r)"
  unfolding find_step_def assms(2)
  by (rule find_append_last) (use assms(1) in \<open>auto simp: step_row_of_def\<close>)

lemma insert_step_again:
  assumes "m \<in> set (model_steps s)" "st_run m = st_run m'" "st_no m = st_no m'"
  shows "insert_step m' s = Inl (UniqueViolation ''agent_model_steps_pkey'')"
  using assms by (auto simp: insert_step_def sql_exists_iff)

lemma save_step_again:
  assumes "m \<in> set (model_steps s)" "st_run m = x_run ctx" "st_no m = n"
  shows "save_step env cal policy ctx n d r cache s \<noteq> Inr z"
proof
  assume "save_step env cal policy ctx n d r cache s = Inr z"
  then obtain u s' where "save_step env cal policy ctx n d r cache s = Inr (u, s')" by (cases z) simp
  then obtain s1 where "insert_step (step_row_of env ctx n (rd_candidate d) (rd_reason d) r) s = Inr s1"
    by (rule save_step_cases)
  with insert_step_again[OF assms(1)] assms(2,3) show False by (simp add: step_row_of_def)
qed


section \<open>The answer cache\<close>

text \<open>The primary key of the cache.\<close>

definition cache_keys_ok :: "db \<Rightarrow> bool" where
  "cache_keys_ok s \<longleftrightarrow> distinct (map (\<lambda>x. (ac_workspace x, ac_agent x, ac_key x)) (answer_cache s))"

lemma cache_key_unique:
  assumes "cache_keys_ok s" "x \<in> set (answer_cache s)" "y \<in> set (answer_cache s)"
    "same_entry w a k x" "same_entry w a k y"
  shows "x = y"
  using assms by (auto simp: cache_keys_ok_def same_entry_def distinct_map inj_on_def)

lemma upsert_cache_entry:
  assumes "upsert_cache row s = Inr s'" and "cache_keys_ok s"
  shows "\<exists>x \<in> set (answer_cache s'). same_entry (ac_workspace row) (ac_agent row) (ac_key row) x \<and>
      ac_provider x = ac_provider row \<and> ac_model x = ac_model row \<and> ac_expires x = ac_expires row \<and>
      ac_response x = ac_response row"
    and "cache_keys_ok s'"
proof -
  let ?same = "same_entry (ac_workspace row) (ac_agent row) (ac_key row)"
  show "\<exists>x \<in> set (answer_cache s'). ?same x \<and> ac_provider x = ac_provider row \<and>
      ac_model x = ac_model row \<and> ac_expires x = ac_expires row \<and> ac_response x = ac_response row"
  proof (cases "sql_exists ?same (answer_cache s)")
    case True
    then obtain y where y: "y \<in> set (answer_cache s)" "?same y" by (auto simp: sql_exists_iff)
    have "answer_cache s' = sql_update ?same (merge_entry row) (answer_cache s)"
      using assms(1) True by (auto simp: upsert_cache_def Let_def split: if_splits)
    with y have "merge_entry row y \<in> set (answer_cache s')" by (force simp: set_sql_update)
    then show ?thesis by (intro bexI[of _ "merge_entry row y"]) (simp_all add: merge_entry_def same_entry_def)
  next
    case False
    then have "answer_cache s' = answer_cache s @ [row]"
      using assms(1) by (auto simp: upsert_cache_def Let_def split: if_splits)
    then show ?thesis by (intro bexI[of _ row]) (simp_all add: same_entry_def)
  qed
  have keys: "map (\<lambda>x. (ac_workspace x, ac_agent x, ac_key x)) (sql_update ?same (merge_entry row) t) =
      map (\<lambda>x. (ac_workspace x, ac_agent x, ac_key x)) t" for t
    by (induction t) (auto simp: merge_entry_def same_entry_def)
  show "cache_keys_ok s'"
  proof (cases "sql_exists ?same (answer_cache s)")
    case True
    with assms(1) have "answer_cache s' = sql_update ?same (merge_entry row) (answer_cache s)"
      by (auto simp: upsert_cache_def Let_def split: if_splits)
    with assms(2) keys show ?thesis by (simp add: cache_keys_ok_def)
  next
    case False
    with assms(1) have "answer_cache s' = answer_cache s @ [row]"
      by (auto simp: upsert_cache_def Let_def split: if_splits)
    with assms(2) False show ?thesis by (force simp: cache_keys_ok_def sql_exists_iff same_entry_def)
  qed
qed

lemma find_unique:
  assumes "x \<in> set xs" "p x" "\<And>y. y \<in> set xs \<Longrightarrow> p y \<Longrightarrow> y = x"
  shows "find p xs = Some x"
proof (cases "find p xs")
  case None
  with assms(1,2) show ?thesis by (simp add: find_None_iff)
next
  case (Some y)
  from find_SomeD[OF this] assms(3) have "y = x" by blast
  with Some show ?thesis by simp
qed

lemma restore_entry_total:
  assumes "decode_response (ac_response row) = Inr r" and "n \<le> 31"
    and "\<not> sql_exists (\<lambda>m. st_run m = x_run ctx \<and> st_no m = n) (model_steps s)"
  shows "\<exists>s'. restore_entry env ctx n c reason extra row s = Inr (Some r, s')"
proof -
  have ins: "insert_step (step_row_of env ctx n c reason r) s =
      Inr (s\<lparr>model_steps := model_steps s @ [step_row_of env ctx n c reason r]\<rparr>)"
    using assms(2,3) by (simp add: insert_step_def step_row_of_def)
  show ?thesis unfolding restore_entry_def assms(1) bind_res_simps(2) ins by (intro exI) (rule refl)
qed

lemma record_spend_cache:
  "record_spend env cal c s = Inr (w, s') \<Longrightarrow> ledger_ok s \<Longrightarrow> answer_cache s' = answer_cache s"
  by (drule (1) record_spend_tables) auto

lemma save_step_caches:
  assumes ok: "save_step env cal policy ctx n d r (Some q) s = Inr (u, s')" and "ledger_ok s"
    and "0 < ce_ttl q" and keys: "cache_keys_ok s"
  shows "cache_keys_ok s'"
    and "\<exists>x \<in> set (answer_cache s'). same_entry (x_workspace ctx) (x_agent ctx) (ce_key q) x \<and>
      ac_provider x = mc_provider (rd_candidate d) \<and> ac_model x = mc_model (rd_candidate d) \<and>
      ac_expires x = tx_now env + seconds (ce_ttl q) \<and>
      ac_response x = encode_response (r\<lparr>rs_usage := \<lparr>us_input = 0, us_output = 0\<rparr>\<rparr>)"
proof -
  let ?row = "cache_row_of env ctx (rd_candidate d) r q"
  obtain cost run s1 s2 s3 where s1: "insert_step (step_row_of env ctx n (rd_candidate d) (rd_reason d) r) s = Inr s1"
    and s2: "cost = None \<and> s2 = s1 \<or>
      (\<exists>k w. cost = Some k \<and> record_spend env cal (step_charge ctx n (rd_candidate d) r k) s1 = Inr (w, s2))"
    and s3': "s3 = s2 \<and> option_ok (\<lambda>q. ce_ttl q \<le> 0) (Some q) \<or>
      (\<exists>q'. Some q = Some q' \<and> upsert_cache (cache_row_of env ctx (rd_candidate d) r q') s2 = Inr s3)"
    and s': "s' = run_event env ctx ''model.completed''
        (completed_payload n (rd_candidate d) (rd_reason d) (us_input (rs_usage r)) (us_output (rs_usage r))
           (rs_finish r) cost []) s3"
    by (rule save_step_cases[OF ok])
  have s3: "upsert_cache ?row s2 = Inr s3" using s3' assms(3) by (auto simp: option_ok_def)
  have "ledger_ok s1" using ledger_frame_ok[OF insert_step_ledger[OF s1]] assms(2) by simp
  then have "answer_cache s2 = answer_cache s1" using s2 record_spend_cache by blast
  with s1 keys have keys2: "cache_keys_ok s2" by (simp add: insert_step_Inr cache_keys_ok_def)
  have p: "answer_cache s' = answer_cache s3" by (simp add: s' run_event_def)
  show "cache_keys_ok s'" using upsert_cache_entry(2)[OF s3 keys2] by (simp add: cache_keys_ok_def p)
  show "\<exists>x \<in> set (answer_cache s'). same_entry (x_workspace ctx) (x_agent ctx) (ce_key q) x \<and>
      ac_provider x = mc_provider (rd_candidate d) \<and> ac_model x = mc_model (rd_candidate d) \<and>
      ac_expires x = tx_now env + seconds (ce_ttl q) \<and>
      ac_response x = encode_response (r\<lparr>rs_usage := \<lparr>us_input = 0, us_output = 0\<rparr>\<rparr>)"
    using upsert_cache_entry(1)[OF s3 keys2] by (simp add: p cache_row_of_def)
qed

lemma sample_save:
  "\<exists>s'. save_step (env_at 5 70) sample_calendar (Some sample_prices) sample_context 0 sample_decision
     sample_response (Some sample_cache_request) running_db = Inr ((), s')"
proof -
  let ?row = "step_row_of (env_at 5 70) sample_context 0 sample_candidate ''best'' sample_response"
  let ?s1 = "running_db\<lparr>model_steps := [?row]\<rparr>"
  let ?charge = "step_charge sample_context 0 sample_candidate sample_response 1"
  have cost: "step_cost (Some sample_prices) sample_candidate sample_response = Inr (Some 1)"
    by (simp add: step_cost_def policy_cost_def price_def cost_micros_def TOKENS_PER_PRICE_UNIT_def
        sample_prices_def executor_sample_defs)
  have fence: "executable_run (env_at 5 70) 0 sample_context running_db = Inr running_run"
    by (rule sample_fence) simp_all
  have step: "insert_step ?row running_db = Inr ?s1"
    by (simp add: insert_step_def sql_exists_def step_row_of_def sample_defs)
  have charge: "\<exists>w s2. record_spend (env_at 5 70) sample_calendar ?charge ?s1 = Inr (w, s2) \<and>
      answer_cache s2 = []"
    by (simp add: record_spend_def Let_def spend_row_check_def spend_row_of_def int4_def bigint_def
      charged_def sql_exists_def raise_threshold_alerts_def period_consumption_def period_records_def
      in_period_def load_budget_def MAX_SOURCE_KEY_LENGTH_def step_charge_def agent_step_source_key_def
      executor_sample_defs spend_sample_defs sample_context_def nat_str.simps)
  obtain w s2 where s2: "record_spend (env_at 5 70) sample_calendar ?charge ?s1 = Inr (w, s2)" "answer_cache s2 = []"
    using charge by blast
  have "\<exists>s3. upsert_cache (cache_row_of (env_at 5 70) sample_context sample_candidate sample_response sample_cache_request) s2 = Inr s3"
    using s2(2) by (simp add: upsert_cache_def Let_def sql_exists_def cache_row_check_def cache_row_of_def
        option_ok_def sample_cache_request_def env_at_def seconds_def)
  then obtain s3 where s3:
    "upsert_cache (cache_row_of (env_at 5 70) sample_context sample_candidate sample_response sample_cache_request) s2 = Inr s3" ..
  have d: "rd_candidate sample_decision = sample_candidate" "rd_reason sample_decision = ''best''"
    "ce_ttl sample_cache_request = 60" "ce_embedding sample_cache_request = None"
    by (simp_all add: sample_decision_def sample_cache_request_def)
  show ?thesis
    unfolding save_step_def d cost bind_res_simps(2) fence step option.case s2(1) prod.case s3
    by (simp del: bind_res_Inr add: s3)
qed


text \<open>A response saved with a time to live is found again by any later run of the same agent in
  the same workspace before it expires: the lookup by its key returns the response with no tokens
  used, and charges nothing.\<close>

theorem cached_answer_roundtrip:
  assumes "save_step env cal policy ctx n d r (Some q) s = Inr (u, s')" and "ledger_ok s"
    and "0 < ce_ttl q" and "cache_keys_ok s"
    and "executable_run env' 0 ctx' s' = Inr run" and "x_workspace ctx' = x_workspace ctx"
    and "x_agent ctx' = x_agent ctx" and "tx_now env' < tx_now env + seconds (ce_ttl q)"
    and "m \<le> 31" and "\<not> sql_exists (\<lambda>x. st_run x = x_run ctx' \<and> st_no x = m) (model_steps s')"
  shows "\<exists>s''. restore_answer_cache env' ctx' m (rd_candidate d) (ce_key q) s' =
      Inr (Some (r\<lparr>rs_usage := \<lparr>us_input = 0, us_output = 0\<rparr>\<rparr>), s'') \<and>
    spend_records s'' = spend_records s'"
proof -
  note keys = save_step_caches(1)[OF assms(1-4)]
  let ?p = "\<lambda>x. same_entry (x_workspace ctx') (x_agent ctx') (ce_key q) x \<and>
    ac_provider x = mc_provider (rd_candidate d) \<and> ac_model x = mc_model (rd_candidate d) \<and>
    tx_now env' < ac_expires x"
  obtain x where x: "x \<in> set (answer_cache s')" "?p x"
    "ac_response x = encode_response (r\<lparr>rs_usage := \<lparr>us_input = 0, us_output = 0\<rparr>\<rparr>)"
    using save_step_caches(2)[OF assms(1-4)] assms(6-8) by auto
  have "find ?p (answer_cache s') = Some x"
    by (rule find_unique[where p = ?p, OF x(1,2)]) (use cache_key_unique[OF keys _ x(1)] x(2) in blast)
  then have "restore_answer_cache env' ctx' m (rd_candidate d) (ce_key q) s' =
      restore_entry env' ctx' m (rd_candidate d) ''workspace_answer_cache'' [] x s'"
    by (simp add: restore_answer_cache_def assms(5))
  moreover have "decode_response (ac_response x) = Inr (r\<lparr>rs_usage := \<lparr>us_input = 0, us_output = 0\<rparr>\<rparr>)"
    by (simp add: x(3))
  ultimately obtain s'' where ok: "restore_answer_cache env' ctx' m (rd_candidate d) (ce_key q) s' =
      Inr (Some (r\<lparr>rs_usage := \<lparr>us_input = 0, us_output = 0\<rparr>\<rparr>), s'')"
    using restore_entry_total[OF _ assms(9,10)] by metis
  with restore_frames(2) show ?thesis unfolding ledger_frame_def by blast
qed

theorem cached_answer_roundtrip_witness:
  "\<exists>s' s''. restore_answer_cache (env_at 5 72) sample_context 1 sample_candidate digest_text s' =
     Inr (Some (sample_response\<lparr>rs_usage := \<lparr>us_input = 0, us_output = 0\<rparr>\<rparr>), s'')"
proof -
  obtain s' where s': "save_step (env_at 5 70) sample_calendar (Some sample_prices) sample_context 0
      sample_decision sample_response (Some sample_cache_request) running_db = Inr ((), s')"
    using sample_save by blast
  have inv: "ledger_ok running_db" by (simp add: ledger_ok_def sample_defs)
  have fence: "executable_run (env_at 5 72) 0 sample_context s' = Inr running_run"
    using save_step_frame(1)[OF s' inv] by (intro sample_fence) (simp_all add: exec_frame_def)
  have fresh: "\<not> sql_exists (\<lambda>x. st_run x = x_run sample_context \<and> st_no x = 1) (model_steps s')"
    using save_step_frame(3)[OF s' inv] by (simp add: sql_exists_iff step_row_of_def sample_defs)
  have q: "0 < ce_ttl sample_cache_request" "cache_keys_ok running_db"
    "tx_now (env_at 5 72) < tx_now (env_at 5 70) + seconds (ce_ttl sample_cache_request)"
    "ce_key sample_cache_request = digest_text" "rd_candidate sample_decision = sample_candidate"
    by (simp_all add: sample_cache_request_def sample_decision_def cache_keys_ok_def seconds_def sample_defs)
  from cached_answer_roundtrip[OF s' inv q(1,2) fence refl refl q(3) _ fresh] q(4,5)
  show ?thesis by auto
qed

lemma restore_journals:
  assumes "restore_entry env ctx n c reason extra row s = Inr (Some r, s')"
  shows "decode_response (ac_response row) = Inr r" "exec_frame s s'" "ledger_frame s s'"
    "model_steps s' = model_steps s @ [step_row_of env ctx n c reason r]"
    "answer_cache s' = sql_update (same_entry (x_workspace ctx) (x_agent ctx) (ac_key row))
       (\<lambda>x. x\<lparr>ac_hits := ac_hits x + 1, ac_last_used := tx_now env\<rparr>) (answer_cache s)"
proof -
  obtain r' s1 where *: "decode_response (ac_response row) = Inr r'" "Some r = Some r'"
    "insert_step (step_row_of env ctx n c reason r') s = Inr s1"
    "s' = run_event env ctx ''model.completed''
        (completed_payload n c reason 0 0 (rs_finish r') (Some 0) ((''cache_hit'', JBool True) # extra))
        (cache_hit env ctx (ac_key row) s1)"
    by (rule restore_entry_cases[OF assms])
  show "decode_response (ac_response row) = Inr r" using *(1,2) by simp
  show "exec_frame s s'" "ledger_frame s s'" by (rule restore_entry_frame[OF assms])+
  show "model_steps s' = model_steps s @ [step_row_of env ctx n c reason r]"
    using *(2,3) by (simp add: *(4) run_event_def cache_hit_def insert_step_Inr)
  show "answer_cache s' = sql_update (same_entry (x_workspace ctx) (x_agent ctx) (ac_key row))
       (\<lambda>x. x\<lparr>ac_hits := ac_hits x + 1, ac_last_used := tx_now env\<rparr>) (answer_cache s)"
    using *(3) by (simp add: *(4) run_event_def cache_hit_def insert_step_Inr)
qed

text \<open>C34: An answer restored by key comes from an unexpired entry of the same workspace, agent, key,
  provider and model; it is journaled as this run's step, charges nothing, and touches no entry of any
  other workspace or agent.\<close>

theorem cached_answers_isolated:
  assumes "restore_answer_cache env ctx n c key s = Inr (Some r, s')"
  shows "(\<exists>row \<in> set (answer_cache s). ac_workspace row = x_workspace ctx \<and> ac_agent row = x_agent ctx \<and>
      ac_key row = key \<and> ac_provider row = mc_provider c \<and> ac_model row = mc_model c \<and>
      tx_now env < ac_expires row \<and> decode_response (ac_response row) = Inr r) \<and>
    find_step ctx n s' = Some (step_row_of env ctx n c ''workspace_answer_cache'' r) \<and>
    spend_records s' = spend_records s \<and> exec_frame s s' \<and>
    filter (\<lambda>x. ac_workspace x \<noteq> x_workspace ctx \<or> ac_agent x \<noteq> x_agent ctx) (answer_cache s') =
    filter (\<lambda>x. ac_workspace x \<noteq> x_workspace ctx \<or> ac_agent x \<noteq> x_agent ctx) (answer_cache s)"
proof (cases rule: restore_answer_cache_cases[OF assms])
  case 1
  then show ?thesis by simp
next
  case (2 row)
  note j = restore_journals[OF 2(6)]
  obtain r' s1 where "insert_step (step_row_of env ctx n c ''workspace_answer_cache'' r') s = Inr s1"
    by (rule restore_entry_cases[OF 2(6)])
  then have "\<forall>x \<in> set (model_steps s). \<not> (st_run x = x_run ctx \<and> st_no x = n)"
    by (simp add: insert_step_Inr step_row_of_def)
  from find_step_saved[OF this j(4)]
  have a: "find_step ctx n s' = Some (step_row_of env ctx n c ''workspace_answer_cache'' r)" .
  have keep: "filter (\<lambda>x. ac_workspace x \<noteq> x_workspace ctx \<or> ac_agent x \<noteq> x_agent ctx)
      (sql_update (same_entry (x_workspace ctx) (x_agent ctx) k)
        (\<lambda>x. x\<lparr>ac_hits := ac_hits x + 1, ac_last_used := tx_now env\<rparr>) t) =
    filter (\<lambda>x. ac_workspace x \<noteq> x_workspace ctx \<or> ac_agent x \<noteq> x_agent ctx) t" for k t
    by (induction t) (auto simp: same_entry_def)
  have b: "filter (\<lambda>x. ac_workspace x \<noteq> x_workspace ctx \<or> ac_agent x \<noteq> x_agent ctx) (answer_cache s') =
    filter (\<lambda>x. ac_workspace x \<noteq> x_workspace ctx \<or> ac_agent x \<noteq> x_agent ctx) (answer_cache s)"
    unfolding j(5) by (rule keep)
  show ?thesis
    using 2(1-5) j(1-3) a b by (auto simp: same_entry_def ledger_frame_def)
qed

lemma sample_fence_cached: "executable_run (env_at 5 k) 0 sample_context cached_db = Inr running_run"
  by (rule sample_fence) (simp_all add: cached_db_def)

lemma sample_entry_total:
  "\<exists>s'. restore_entry (env_at 5 70) sample_context 0 sample_candidate reason extra sample_entry cached_db =
    Inr (Some (sample_response\<lparr>rs_usage := \<lparr>us_input = 0, us_output = 0\<rparr>\<rparr>), s')"
  by (rule restore_entry_total)
    (simp_all add: sql_exists_def sample_entry_def cache_row_of_def cached_db_def sample_defs)

theorem cached_answers_isolated_witness:
  "\<exists>s'. restore_answer_cache (env_at 5 70) sample_context 0 sample_candidate digest_text cached_db =
      Inr (Some (sample_response\<lparr>rs_usage := \<lparr>us_input = 0, us_output = 0\<rparr>\<rparr>), s') \<and>
    spend_records s' = [] \<and> exec_frame cached_db s'"
proof -
  let ?r = "sample_response\<lparr>rs_usage := \<lparr>us_input = 0, us_output = 0\<rparr>\<rparr>"
  obtain s' where s': "restore_entry (env_at 5 70) sample_context 0 sample_candidate
      ''workspace_answer_cache'' [] sample_entry cached_db = Inr (Some ?r, s')"
    using sample_entry_total by blast
  have "restore_answer_cache (env_at 5 70) sample_context 0 sample_candidate digest_text cached_db =
      Inr (Some ?r, s')"
    unfolding restore_answer_cache_def sample_fence_cached bind_res_simps(2)
    by (simp add: cached_db_def[THEN arg_cong[of _ _ answer_cache]] same_entry_def sample_entry_def
        cache_row_of_def sample_cache_request_def seconds_def env_at_def sample_context_def)
      (use s' in \<open>simp add: sample_entry_def sample_cache_request_def cache_row_of_def seconds_def env_at_def sample_context_def\<close>)
  with cached_answers_isolated[OF this] show ?thesis by (auto simp: cached_db_def sample_defs)
qed

text \<open>A semantic hit is the closest of the unexpired entries of the same workspace, agent, scope,
  provider, model and embedding space, and is at least as similar as the agent's threshold demands.\<close>

theorem semantic_hit_is_close:
  assumes "restore_semantic_answer_cache env vo ctx n c q s = Inr (Some r, s')"
  shows "\<exists>row \<in> set (answer_cache s). ac_workspace row = x_workspace ctx \<and> ac_agent row = x_agent ctx \<and>
      ac_scope row = Some (sq_scope q) \<and> ac_embedding_model row = Some (sq_model q) \<and>
      ac_embedding_dims row = Some (sq_dims q) \<and> tx_now env < ac_expires row \<and>
      decode_response (ac_response row) = Inr r \<and>
      sq_threshold q \<le> 1 - entry_distance vo q row \<and>
      (\<forall>y \<in> set (answer_cache s). semantic_candidates env ctx c q y \<longrightarrow>
         entry_distance vo q row \<le> entry_distance vo q y) \<and>
      ledger_frame s s'"
proof (cases rule: restore_semantic_cases[OF assms])
  case 1
  then show ?thesis by simp
next
  case (2 row)
  then obtain extra where
    "restore_entry env ctx n c ''workspace_semantic_answer_cache'' extra row s = Inr (Some r, s')" by blast
  note j = restore_journals[OF this]
  show ?thesis
    using 2(1-4) j(1,3) by (intro bexI[of _ row]) (simp_all add: semantic_candidates_def)
qed

theorem semantic_hit_is_close_witness:
  "\<exists>s' row. restore_semantic_answer_cache (env_at 5 70) sample_vector_ops sample_context 0 sample_candidate
      sample_query cached_db = Inr (Some (sample_response\<lparr>rs_usage := \<lparr>us_input = 0, us_output = 0\<rparr>\<rparr>), s') \<and>
    row \<in> set (answer_cache cached_db) \<and> 1/2 \<le> 1 - entry_distance sample_vector_ops sample_query row"
proof -
  let ?r = "sample_response\<lparr>rs_usage := \<lparr>us_input = 0, us_output = 0\<rparr>\<rparr>"
  let ?extra = "[(''cache_match'', JStr ''semantic''), (''similarity'', JNull)]"
  obtain s' where s': "restore_entry (env_at 5 70) sample_context 0 sample_candidate
      ''workspace_semantic_answer_cache'' ?extra sample_entry cached_db = Inr (Some ?r, s')"
    using sample_entry_total by blast
  have v: "vector_literal (sq_vector sample_query) = Inr ()" "sq_threshold sample_query = 1/2"
    "vo_json sample_vector_ops x = JNull" for x
    by (simp_all add: vector_literal_def sample_query_def sample_vector_ops_def)
  have c: "answer_cache cached_db = [sample_entry]" by (simp add: cached_db_def)
  have m: "semantic_candidates (env_at 5 70) sample_context sample_candidate sample_query sample_entry"
    by (simp add: semantic_candidates_def sample_entry_def cache_row_of_def sample_cache_request_def sample_query_def
        seconds_def env_at_def sample_context_def)
  have d: "entry_distance sample_vector_ops sample_query sample_entry = 0"
    by (simp add: entry_distance_def sample_entry_def cache_row_of_def sample_query_def sample_vector_ops_def)
  have ol: "order_limit k 1 (semantic_candidates (env_at 5 70) sample_context sample_candidate sample_query)
      [sample_entry] = [sample_entry]" for k :: "answer_cache_row \<Rightarrow> rat \<times> string"
    by (simp add: order_limit_def m)
  have hit: "restore_semantic_answer_cache (env_at 5 70) sample_vector_ops sample_context 0 sample_candidate
      sample_query cached_db = Inr (Some ?r, s')"
    unfolding restore_semantic_answer_cache_def v(1) sample_fence_cached bind_res_simps(2) c ol
    by (simp add: d v Let_def s' del: bind_res_Inr)
  with semantic_hit_is_close[OF hit] show ?thesis by (auto simp: c v)
qed

section \<open>The budget gate\<close>

text \<open>C31: Before a model call leaves the process the month-to-date spend is compared with the limit: the
  call is refused exactly when an enforced limit has been reached; an allowed call changes nothing and
  a refused one commits its journal entry and nothing else.\<close>

theorem budget_gate:
  assumes "ledger_ok s" and "executable_run env 0 ctx s = Inr run"
    and "period_consumption cal (tx_now env) (x_workspace ctx) s < 2 ^ 63"
  shows "\<exists>e s'. authorize_spend env cal (Some p) ctx s = Inr (e, s') \<and>
    (e = None \<longleftrightarrow> (case load_budget (x_workspace ctx) s of None \<Rightarrow> True
       | Some b \<Rightarrow> b_enforcement b = Monitor \<or>
           period_consumption cal (tx_now env) (x_workspace ctx) s < b_limit b)) \<and>
    (e = None \<longrightarrow> s' = s) \<and>
    (e \<noteq> None \<longrightarrow> (\<exists>d. s' = append_run_event env (x_workspace ctx) (x_run ctx) ''spend.denied'' d s))"
proof -
  let ?c = "period_consumption cal (tx_now env) (x_workspace ctx) s"
  obtain d where d: "evaluate_budget cal (tx_now env) (x_workspace ctx) s = Inr d"
    and allow: "bd_allowed d \<longleftrightarrow> (case load_budget (x_workspace ctx) s of None \<Rightarrow> True
       | Some b \<Rightarrow> b_enforcement b = Monitor \<or> ?c < b_limit b)"
    using evaluate_budget_total[OF assms(1,3)] by blast
  show ?thesis
  proof (cases "bd_allowed d")
    case True
    then have "authorize_spend env cal (Some p) ctx s = Inr (None, s)"
      by (simp add: authorize_spend_def assms(2) d)
    with True allow show ?thesis by simp
  next
    case False
    let ?p = "[(''limit_micros'', json_opt JInt (bd_limit d)), (''consumed_micros'', JInt (bd_consumed d))]"
    from False have "authorize_spend env cal (Some p) ctx s =
        Inr (Some (ToolContractError ''workspace_budget_exhausted''), run_event env ctx ''spend.denied'' ?p s)"
      by (simp add: authorize_spend_def assms(2) d)
    with False allow show ?thesis
      by (intro exI[of _ "Some (ToolContractError ''workspace_budget_exhausted'')"]
          exI[of _ "run_event env ctx ''spend.denied'' ?p s"]) (auto simp: run_event_def)
  qed
qed

theorem budget_gate_witness:
  "\<exists>s' d. authorize_spend (env_at 5 70) sample_calendar (Some sample_prices) sample_context
      (budget_db\<lparr>spend_budgets := [sample_budget\<lparr>b_limit := 0\<rparr>]\<rparr>) =
      Inr (Some (ToolContractError ''workspace_budget_exhausted''), s') \<and>
    s' = append_run_event (env_at 5 70) 10 20 ''spend.denied'' d
      (budget_db\<lparr>spend_budgets := [sample_budget\<lparr>b_limit := 0\<rparr>]\<rparr>)"
proof -
  let ?s = "budget_db\<lparr>spend_budgets := [sample_budget\<lparr>b_limit := 0\<rparr>]\<rparr>"
  have inv: "ledger_ok ?s" by (simp add: ledger_ok_def spend_sample_defs)
  have fence: "executable_run (env_at 5 70) 0 sample_context ?s = Inr running_run"
    by (rule sample_fence) (simp_all add: budget_db_def)
  have zero: "period_consumption sample_calendar (tx_now (env_at 5 70)) (x_workspace sample_context) ?s = 0"
    by (simp add: period_consumption_def period_records_def spend_sample_defs)
  have b: "load_budget (x_workspace sample_context) ?s = Some (sample_budget\<lparr>b_limit := 0\<rparr>)"
    by (simp add: load_budget_def spend_sample_defs sample_context_def)
  obtain e s' where *: "authorize_spend (env_at 5 70) sample_calendar (Some sample_prices) sample_context ?s = Inr (e, s')"
    "e \<noteq> None" "\<exists>d. s' = append_run_event (env_at 5 70) (x_workspace sample_context) (x_run sample_context) ''spend.denied'' d ?s"
    using budget_gate[OF inv fence, of sample_calendar sample_prices] zero b by (auto simp: sample_budget_def)
  then have "e = Some (ToolContractError ''workspace_budget_exhausted'')"
    by (cases rule: authorize_spend_cases[OF *(1)]) simp_all
  with * show ?thesis by (auto simp: sample_context_def)
qed

section \<open>Attempts that lost the run\<close>



end
