(* ===== verification/Retrieval_Properties.thy ===== *)
theory Retrieval_Properties
  imports Executor_Safety Executor_Samples
begin

text \<open>
  The retrieval snapshot of a run: what is saved is what every restart of the attempt reads back, and it
  is only read back while the requester may still see every chunk it was built from.
\<close>

section \<open>Counting the visible chunks\<close>

text \<open>The recorded provenance of a run, and the chunks that identifiers make unique.\<close>

definition provenance :: "exec_context \<Rightarrow> db \<Rightarrow> retrieval_chunk_row list" where
  "provenance ctx s =
    filter (\<lambda>p. rk_workspace p = x_workspace ctx \<and> rk_run p = x_run ctx) (retrieval_chunks s)"

definition corpus_ok :: "db \<Rightarrow> bool" where
  "corpus_ok s \<longleftrightarrow> distinct (map gc_id (rag_chunks s)) \<and> distinct (map gs_id (rag_sources s))"

lemma filter_le_1:
  assumes "distinct (map h ys)" and "\<And>y. P y \<Longrightarrow> h y = k"
  shows "length (filter P ys) \<le> 1"
  using assms(1)
proof (induction ys)
  case Nil
  then show ?case by simp
next
  case (Cons y ys)
  have "filter P ys = []" if "P y"
    unfolding filter_empty_conv
  proof (intro ballI notI)
    fix x assume "x \<in> set ys" "P x"
    with assms(2)[OF that] assms(2)[of x] have "h y = h x" by simp
    moreover have "h x \<in> h ` set ys" using \<open>x \<in> set ys\<close> by (rule imageI)
    ultimately have "h y \<in> h ` set ys" by simp
    with Cons.prems show False by simp
  qed
  with Cons show ?case by simp
qed

lemma join_distinct:
  assumes "distinct (map f xs)" and "\<And>x. length (js x) \<le> 1" and "\<And>x y. y \<in> set (js x) \<Longrightarrow> h y = f x"
  shows "distinct (map h (concat (map js xs)))"
  using assms(1)
proof (induction xs)
  case Nil
  then show ?case by simp
next
  case (Cons x xs)
  have "distinct (map h (js x))" using assms(2)[of x] by (cases "js x") auto
  moreover have "set (map h (js x)) \<inter> set (map h (concat (map js xs))) = {}"
    using Cons.prems assms(3) by fastforce
  ultimately show ?case using Cons by simp
qed

lemma comprehension_filter: "concat (map (\<lambda>x. if P x then [f x] else []) xs) = map f (filter P xs)"
  by (induction xs) auto

lemma readable_distinct:
  assumes "corpus_ok s"
  shows "distinct (map (\<lambda>cg. gc_id (fst cg)) (readable_chunks run ws s))"
proof -
  let ?js = "\<lambda>c. map (Pair c) (filter (\<lambda>g. gc_workspace c = ws \<and> chunk_readable run s c g) (rag_sources s))"
  have "readable_chunks run ws s = concat (map ?js (rag_chunks s))"
    by (simp add: readable_chunks_def comprehension_filter)
  moreover have "length (?js c) \<le> 1" for c
    unfolding length_map
    by (rule filter_le_1[where h = gs_id and k = "gc_source c"])
      (use assms in \<open>simp_all add: corpus_ok_def chunk_readable_def\<close>)
  ultimately show ?thesis
    using assms join_distinct[where f = gc_id and js = ?js and h = "\<lambda>cg. gc_id (fst cg)"]
    by (simp add: corpus_ok_def image_iff) fastforce
qed

lemma visible_length:
  "length (visible_positions run ctx s) =
    (\<Sum>p \<leftarrow> provenance ctx s. length (filter (still_matches p) (readable_chunks run (x_workspace ctx) s)))"
proof -
  have "length (concat (map (\<lambda>p. concat (map (\<lambda>cg.
          if rk_workspace p = x_workspace ctx \<and> rk_run p = x_run ctx \<and> still_matches p cg
          then [rk_position p] else []) rs)) ps)) =
    (\<Sum>p \<leftarrow> filter (\<lambda>p. rk_workspace p = x_workspace ctx \<and> rk_run p = x_run ctx) ps.
       length (filter (still_matches p) rs))" for ps rs
    by (induction ps) (simp_all add: comprehension_filter, auto simp: filter_empty_conv)
  then show ?thesis by (simp add: visible_positions_def provenance_def)
qed

lemma matching_le_1:
  assumes "corpus_ok s"
  shows "length (filter (still_matches p) (readable_chunks run ws s)) \<le> 1"
  by (rule filter_le_1[OF readable_distinct[OF assms], of _ "rk_chunk p"]) (auto simp: still_matches_def)

lemma sum_at_most_one:
  assumes "\<And>x. f x \<le> (1::nat)"
  shows "(\<Sum>x \<leftarrow> xs. f x) = length xs \<longleftrightarrow> (\<forall>x \<in> set xs. f x = 1)"
proof (induction xs)
  case Nil
  then show ?case by simp
next
  case (Cons x xs)
  have "(\<Sum>x \<leftarrow> xs. f x) \<le> length xs" by (induction xs) (use assms in \<open>auto intro: add_le_mono[of _ 1, simplified]\<close>)
  with assms[of x] Cons show ?case by auto
qed

lemma all_visible:
  assumes "corpus_ok s"
  shows "length (visible_positions run ctx s) = length (provenance ctx s) \<longleftrightarrow>
    (\<forall>p \<in> set (provenance ctx s). \<exists>cg \<in> set (readable_chunks run (x_workspace ctx) s). still_matches p cg)"
proof -
  have "(\<exists>cg \<in> set (readable_chunks run (x_workspace ctx) s). still_matches p cg) \<longleftrightarrow>
      length (filter (still_matches p) (readable_chunks run (x_workspace ctx) s)) = 1" for p
    using matching_le_1[OF assms, of p run "x_workspace ctx"]
    by (cases "filter (still_matches p) (readable_chunks run (x_workspace ctx) s)")
      (auto simp: filter_empty_conv dest: filter_eq_ConsD)
  then show ?thesis
    unfolding visible_length by (simp add: sum_at_most_one[OF matching_le_1[OF assms]])
qed

section \<open>Saving\<close>

lemma insert_provenance_effect:
  assumes "insert_provenance ctx n cs s = Inr s'"
  shows "s' = s\<lparr>retrieval_chunks := retrieval_chunks s @
    map (\<lambda>(k, c). provenance_row ctx k c) (zip [n..<n + length cs] cs)\<rparr>"
  using assms
proof (induction cs arbitrary: n s)
  case Nil
  then show ?case by simp
next
  case (Cons c cs)
  then have "insert_provenance ctx (Suc n) cs (s\<lparr>retrieval_chunks := retrieval_chunks s @ [provenance_row ctx n c]\<rparr>) = Inr s'"
    by (simp split: if_splits)
  from Cons.IH[OF this] show ?case by (simp add: upt_conv_Cons del: upt_Suc)
qed

lemma chunk_current_matches:
  assumes "chunk_current run ws s c"
  shows "\<exists>cg \<in> set (readable_chunks run ws s). still_matches (provenance_row ctx n c) cg"
proof -
  obtain row g where f: "current_chunk run ws (rt_id c) s = Some (row, g)"
    and m: "gc_source row = rt_source c" "gs_key g = rt_source_key c" "gc_version row = rt_version c"
      "gc_index row = rt_index c" "gc_content_hash row = sha256_hex (rt_content c)"
    using assms by (auto simp: chunk_current_def split: option.splits)
  have "(row, g) \<in> set (readable_chunks run ws s)" "gc_id row = rt_id c"
    using find_SomeD[OF f[unfolded current_chunk_def]] by auto
  with m show ?thesis by (intro bexI[of _ "(row, g)"]) (simp_all add: still_matches_def provenance_row_def)
qed

lemma insert_provenance_same:
  assumes "insert_provenance ctx n cs s = Inr s'"
  shows "run_retrievals s' = run_retrievals s" "retrieval_contexts s' = retrieval_contexts s"
    "readable_chunks run ws s' = readable_chunks run ws s" "corpus_ok s' = corpus_ok s"
  unfolding insert_provenance_effect[OF assms]
  by (simp_all add: readable_chunks_def chunk_readable_def corpus_ok_def)

lemma filter_all: "(\<And>x. x \<in> set xs \<Longrightarrow> p x) \<Longrightarrow> filter p xs = xs"
  by (induction xs) auto

lemma new_provenance:
  assumes "insert_provenance ctx 0 cs s = Inr s'" and "provenance ctx s = []"
  shows "provenance ctx s' = map (\<lambda>(k, c). provenance_row ctx k c) (zip [0..<length cs] cs)"
proof -
  have "filter (\<lambda>p. rk_workspace p = x_workspace ctx \<and> rk_run p = x_run ctx)
      (map (\<lambda>(k, c). provenance_row ctx k c) (zip [0..<length cs] cs)) =
    map (\<lambda>(k, c). provenance_row ctx k c) (zip [0..<length cs] cs)"
    by (rule filter_all) (auto simp: provenance_row_def)
  with assms(2) show ?thesis
    by (simp add: provenance_def insert_provenance_effect[OF assms(1), simplified])
qed

lemma new_provenance_visible:
  assumes "insert_provenance ctx 0 cs s = Inr s'" and "provenance ctx s = []" and "corpus_ok s"
    and "\<And>c. c \<in> set cs \<Longrightarrow> chunk_current run (x_workspace ctx) s c"
  shows "length (visible_positions run ctx s') = length cs"
proof -
  note p = new_provenance[OF assms(1,2)]
  have "\<exists>cg \<in> set (readable_chunks run (x_workspace ctx) s'). still_matches q cg"
    if "q \<in> set (provenance ctx s')" for q
    using that chunk_current_matches[OF assms(4)]
    by (auto simp: p insert_provenance_same(3)[OF assms(1)] dest: set_zip_rightD)
  then have "length (visible_positions run ctx s') = length (provenance ctx s')"
    using all_visible[of s'] assms(3) by (simp add: insert_provenance_same(4)[OF assms(1)])
  then show ?thesis by (simp add: p)
qed

lemma save_retrieval_cases:
  assumes "save_retrieval env ctx v s = Inr (sn, s')"
  obtains run r where "executable_run env 0 ctx s = Inr run"
    "\<forall>c \<in> set (rv_chunks v). chunk_current run (x_workspace ctx) s c"
    "insert_retrieval env ctx v s = Inr s'" "find_retrieval ctx s' = Some r"
    "find_context ctx s' = Some (evidence_text (rv_chunks v))"
    "rr_query_hash r = sha256_hex (x_input ctx)"
    "rr_context_hash r = sha256_hex (evidence_text (rv_chunks v))"
    "sn = \<lparr>sn_context = evidence_text (rv_chunks v), sn_tokens = rr_tokens r, sn_count = rr_chunk_count r\<rparr>"
proof (cases "executable_run env 0 ctx s")
  case (Inl e)
  with assms show ?thesis by (simp add: save_retrieval_def)
next
  case run: (Inr run)
  show ?thesis
  proof (cases "insert_retrieval env ctx v s")
    case (Inl e)
    with assms run show ?thesis by (simp add: save_retrieval_def Let_def snapshot_lost_def split: if_splits)
  next
    case ins: (Inr s1)
    show ?thesis
    proof (cases "find_retrieval ctx s1"; cases "find_context ctx s1")
      fix r t assume f: "find_retrieval ctx s1 = Some r" "find_context ctx s1 = Some t"
      have *: "\<forall>c \<in> set (rv_chunks v). chunk_current run (x_workspace ctx) s c"
        "t = evidence_text (rv_chunks v)" "rr_query_hash r = sha256_hex (x_input ctx)"
        "rr_context_hash r = sha256_hex (evidence_text (rv_chunks v))" "s1 = s'"
        "sn = \<lparr>sn_context = evidence_text (rv_chunks v), sn_tokens = rr_tokens r, sn_count = rr_chunk_count r\<rparr>"
        using assms run ins f by (auto simp: save_retrieval_def Let_def snapshot_lost_def list_ex_iff split: if_splits)
      show ?thesis by (rule that[OF run *(1)]) (use ins f * in auto)
    qed (use assms run ins in \<open>auto simp: save_retrieval_def Let_def snapshot_lost_def split: if_splits\<close>)
  qed
qed


lemma sample_corpus: "readable_chunks running_run 10 corpus_db =
    [(hd (rag_chunks corpus_db), hd (rag_sources corpus_db))]"
  by (simp add: readable_chunks_def chunk_readable_def corpus_db_def)

lemma sample_evidence: "length (evidence_text [sample_chunk]) \<le> 200000"
  by (simp add: evidence_text_def build_untrusted_context_def newline_def sample_chunk_def nat_str.simps)

lemma sample_saved:
  "\<exists>sn s'. save_retrieval (env_at 5 70) sample_context sample_retrieval corpus_db = Inr (sn, s')"
proof -
  let ?v = sample_retrieval
  let ?row = "\<lparr>rr_run = 20, rr_workspace = 10, rr_query_hash = sha256_hex ''hello'',
      rr_context_hash = sha256_hex (evidence_text [sample_chunk]), rr_tokens = 4, rr_chunk_count = 1\<rparr>"
  let ?c = "\<lparr>rx_run = 20, rx_workspace = 10, rx_text = evidence_text [sample_chunk]\<rparr>"
  let ?u = "corpus_db\<lparr>run_retrievals := [?row], retrieval_contexts := [?c]\<rparr>"
  let ?t = "?u\<lparr>retrieval_chunks := [provenance_row sample_context 0 sample_chunk]\<rparr>"
  have f: "x_run sample_context = 20" "x_workspace sample_context = 10" "x_input sample_context = ''hello''"
    "rv_chunks ?v = [sample_chunk]" "rv_tokens ?v = 4" "run_retrievals corpus_db = []"
    "retrieval_contexts corpus_db = []" "retrieval_chunks corpus_db = []"
    by (simp_all add: sample_context_def sample_retrieval_def corpus_db_def sample_defs)
  have fence: "executable_run (env_at 5 70) 0 sample_context corpus_db = Inr running_run"
    by (rule sample_fence) (simp_all add: corpus_db_def)
  have current: "chunk_current running_run 10 corpus_db sample_chunk"
    unfolding chunk_current_def current_chunk_def sample_corpus
    by (simp add: corpus_db_def sample_chunk_def)
  have prov: "insert_provenance sample_context 0 [sample_chunk] ?u = Inr ?t"
    by (simp add: f sql_exists_def)
  have "insert_retrieval (env_at 5 70) sample_context ?v corpus_db =
      Inr (run_event (env_at 5 70) sample_context ''retrieval.completed''
        [(''chunk_count'', JInt 1), (''embedding_input_tokens'', JInt 4)] ?t)"
    using sample_evidence prov by (simp add: insert_retrieval_def Let_def f sql_exists_def del: insert_provenance.simps)
  then obtain s' where s': "insert_retrieval (env_at 5 70) sample_context ?v corpus_db = Inr s'"
    and rows: "run_retrievals s' = [?row]" "retrieval_contexts s' = [?c]"
    by (auto simp: run_event_def)
  have "find_retrieval sample_context s' = Some ?row"
    "find_context sample_context s' = Some (evidence_text [sample_chunk])"
    by (simp_all add: find_retrieval_def find_context_def rows f)
  then show ?thesis
    by (simp add: save_retrieval_def Let_def fence f current s' del: bind_res_Inr)
qed


text \<open>C36: Evidence is withdrawn with the right to read it: whenever a snapshot is read back, every chunk
  it was built from still has a current version that the requester of the run may read, with the
  identity and the content hash that were recorded.\<close>

theorem retrieval_still_readable:
  assumes "load_retrieval env ctx s = Inr (Some sn)" and "executable_run env 0 ctx s = Inr run"
    and "corpus_ok s" and "length (provenance ctx s) = sn_count sn" and "p \<in> set (provenance ctx s)"
  shows "\<exists>c g. c \<in> set (rag_chunks s) \<and> g \<in> set (rag_sources s) \<and> chunk_readable run s c g \<and>
    gc_workspace c = x_workspace ctx \<and> gc_id c = rk_chunk p \<and> gc_version c = rk_version p \<and>
    gc_content_hash c = rk_content_hash p"
proof -
  have "length (visible_positions run ctx s) = sn_count sn"
    using assms(1,4,5) by (auto simp: load_retrieval_def assms(2) snapshot_lost_def split: option.splits if_splits)
  with assms(4) have "length (visible_positions run ctx s) = length (provenance ctx s)" by simp
  with all_visible[OF assms(3)] assms(5)
  obtain cg where "cg \<in> set (readable_chunks run (x_workspace ctx) s)" "still_matches p cg" by blast
  then show ?thesis by (auto simp: readable_chunks_def still_matches_def)
qed

theorem retrieval_still_readable_witness:
  "\<exists>c g. c \<in> set (rag_chunks retrieved_db) \<and> chunk_readable running_run retrieved_db c g \<and> gc_id c = 80"
proof -
  let ?sn = "\<lparr>sn_context = ''context'', sn_tokens = 4, sn_count = 1\<rparr>"
  have fence: "executable_run (env_at 5 70) 0 sample_context retrieved_db = Inr running_run"
    by (rule sample_fence) (simp_all add: retrieved_db_def corpus_db_def)
  have prov: "provenance sample_context retrieved_db = [provenance_row sample_context 0 sample_chunk]"
    by (simp add: provenance_def retrieved_db_def provenance_row_def sample_context_def)
  have corpus: "corpus_ok retrieved_db" by (simp add: corpus_ok_def retrieved_db_def corpus_db_def)
  have "\<exists>cg \<in> set (readable_chunks running_run 10 retrieved_db). still_matches (provenance_row sample_context 0 sample_chunk) cg"
    by (simp add: readable_chunks_def chunk_readable_def still_matches_def provenance_row_def sample_chunk_def
        retrieved_db_def corpus_db_def)
  then have "length (visible_positions running_run sample_context retrieved_db) = 1"
    using all_visible[OF corpus, of running_run sample_context]
    by (simp add: prov sample_context_def[THEN arg_cong[of _ _ x_workspace], simplified])
  then have load: "load_retrieval (env_at 5 70) sample_context retrieved_db = Inr (Some ?sn)"
    unfolding load_retrieval_def fence bind_res_simps(2)
    by (simp add: find_retrieval_def find_context_def retrieved_db_def sample_context_def)
  show ?thesis
    using retrieval_still_readable[OF load fence corpus, of "provenance_row sample_context 0 sample_chunk"]
    by (auto simp: prov provenance_row_def sample_chunk_def)
qed

end
