(* ===== verification/Python_Text.thy ===== *)
theory Python_Text
  imports Json Rag
begin

text \<open>
  What the code uses of Python's text functions on values that come from a request: \<open>str\<close> and
  \<open>repr\<close> of a JSON value, and the parser behind \<open>UUID(text)\<close> and \<open>int(text, 16)\<close>. Characters are
  code points below 256, of which 0x20 to 0x7e and 0xa1 to 0xff without the soft hyphen are printable.
\<close>

section \<open>str and repr\<close>

fun join_with :: "string \<Rightarrow> string list \<Rightarrow> string" where
  "join_with sep [] = []"
| "join_with sep [s] = s"
| "join_with sep (s # t # ts) = s @ sep @ join_with sep (t # ts)"

definition printable :: "char \<Rightarrow> bool" where
  "printable c \<longleftrightarrow> (let n = of_char c :: nat in 32 \<le> n \<and> n \<le> 126 \<or> 161 \<le> n \<and> n \<noteq> 173)"

definition squote :: char where
  "squote = char_of (39::nat)"

definition dquote :: char where
  "dquote = char_of (34::nat)"

definition backslash :: char where
  "backslash = char_of (92::nat)"

definition repr_char :: "char \<Rightarrow> char \<Rightarrow> string" where
  "repr_char q c =
    (let n = of_char c :: nat
     in if c = q \<or> c = backslash then [backslash, c]
        else if n = 9 then [backslash, CHR ''t'']
        else if n = 10 then [backslash, CHR ''n'']
        else if n = 13 then [backslash, CHR ''r'']
        else if printable c then [c]
        else [backslash, CHR ''x''] @ hex_digits 2 n)"

definition repr_str :: "string \<Rightarrow> string" where
  "repr_str s =
    (let q = if squote \<in> set s \<and> dquote \<notin> set s then dquote else squote
     in [q] @ concat (map (repr_char q) s) @ [q])"

fun repr_float :: "pyfloat \<Rightarrow> string \<Rightarrow> string" where
  "repr_float (Finite x) r = r"
| "repr_float PosInf r = ''inf''"
| "repr_float NegInf r = ''-inf''"
| "repr_float NotANumber r = ''nan''"

fun py_repr :: "json \<Rightarrow> string"
  and py_repr_list :: "json list \<Rightarrow> string list"
  and py_repr_items :: "dict \<Rightarrow> string list" where
  "py_repr JNull = ''None''"
| "py_repr (JBool b) = (if b then ''True'' else ''False'')"
| "py_repr (JInt i) = int_str i"
| "py_repr (JFloat x r) = repr_float x r"
| "py_repr (JStr s) = repr_str s"
| "py_repr (JArr xs) = ''['' @ join_with '', '' (py_repr_list xs) @ '']''"
| "py_repr (JObj d) = ''{'' @ join_with '', '' (py_repr_items d) @ ''}''"
| "py_repr_list [] = []"
| "py_repr_list (x # xs) = py_repr x # py_repr_list xs"
| "py_repr_items [] = []"
| "py_repr_items ((k, v) # d) = (repr_str k @ '': '' @ py_repr v) # py_repr_items d"

fun py_str :: "json \<Rightarrow> string" where
  "py_str (JStr s) = s"
| "py_str v = py_repr v"

section \<open>Hexadecimal integers\<close>

definition hex_value :: "char \<Rightarrow> nat option" where
  "hex_value c =
    (let n = of_char c :: nat
     in if 48 \<le> n \<and> n \<le> 57 then Some (n - 48)
        else if 97 \<le> n \<and> n \<le> 102 then Some (n - 87)
        else if 65 \<le> n \<and> n \<le> 70 then Some (n - 55)
        else None)"

text \<open>Digits with single underscores between them, after the first digit.\<close>

fun hex_rest :: "nat \<Rightarrow> string \<Rightarrow> nat option" where
  "hex_rest n [] = Some n"
| "hex_rest n (c # cs) =
    (if c = CHR ''_''
     then (case cs of [] \<Rightarrow> None
           | d # ds \<Rightarrow> (case hex_value d of None \<Rightarrow> None | Some v \<Rightarrow> hex_rest (16 * n + v) ds))
     else (case hex_value c of None \<Rightarrow> None | Some v \<Rightarrow> hex_rest (16 * n + v) cs))"

definition hex_number :: "string \<Rightarrow> nat option" where
  "hex_number s =
    (case s of [] \<Rightarrow> None
     | c # cs \<Rightarrow> (case hex_value c of None \<Rightarrow> None | Some v \<Rightarrow> hex_rest v cs))"

definition drop_sign :: "string \<Rightarrow> string" where
  "drop_sign s = (if take 1 s = ''+'' then drop 1 s else s)"

definition drop_0x :: "string \<Rightarrow> string" where
  "drop_0x s =
    (if take 2 s = ''0x'' \<or> take 2 s = ''0X''
     then (if take 1 (drop 2 s) = ''_'' then drop 3 s else drop 2 s) else s)"

text \<open>\<open>int(text, 16)\<close> of a text without a minus sign.\<close>

definition parse_hex :: "string \<Rightarrow> nat option" where
  "parse_hex s = hex_number (drop_0x (drop_sign (strip s)))"

section \<open>UUID\<close>

text \<open>\<open>text.replace(p, "")\<close> for a pattern that is not empty.\<close>

fun remove_all :: "string \<Rightarrow> string \<Rightarrow> string" where
  "remove_all p [] = []"
| "remove_all p (c # cs) =
    (if take (length p) (c # cs) = p then remove_all p (drop (length p - 1) cs)
     else c # remove_all p cs)"

definition strip_braces :: "string \<Rightarrow> string" where
  "strip_braces s =
    (let brace = (\<lambda>c. c \<in> set ''{}'') in rev (dropWhile brace (rev (dropWhile brace s))))"

definition uuid_of :: "string \<Rightarrow> uuid option" where
  "uuid_of s =
    (let h = filter (\<lambda>c. c \<noteq> CHR ''-'')
               (strip_braces (remove_all ''uuid:'' (remove_all ''urn:'' s)))
     in if length h \<noteq> 32 then None else map_option of_nat (parse_hex h))"

text \<open>\<open>UUID(str(u))\<close> is \<open>u\<close>.\<close>

definition hex_char :: "char \<Rightarrow> bool" where
  "hex_char c \<longleftrightarrow> (\<exists>n < 16. c = digit_char n)"

lemma hex_value_digit: "n < 16 \<Longrightarrow> hex_value (digit_char n) = Some n"
  using of_char_digit_char[of n] by (simp add: hex_value_def Let_def)

lemma digit_char_neq:
  assumes "n < 16" and "(of_char c :: nat) < 48 \<or> 57 < (of_char c :: nat) \<and> (of_char c :: nat) < 97 \<or> 102 < (of_char c :: nat)"
  shows "digit_char n \<noteq> c"
  using assms of_char_digit_char[of n] by (auto split: if_splits)

lemma hex_char_neq:
  assumes "hex_char c" and "(of_char d :: nat) < 48 \<or> 57 < (of_char d :: nat) \<and> (of_char d :: nat) < 97 \<or> 102 < (of_char d :: nat)"
  shows "c \<noteq> d"
  using assms digit_char_neq by (auto simp: hex_char_def)

lemma hex_char_not_space: "hex_char c \<Longrightarrow> \<not> py_space c"
  using of_char_digit_char by (auto simp: hex_char_def py_space_def Let_def split: if_splits)

lemma hex_char_digit: "hex_char (digit_char (n mod 16))"
  unfolding hex_char_def by (rule exI[of _ "n mod 16"]) simp

lemma hex_digits_chars: "c \<in> set (hex_digits k n) \<Longrightarrow> hex_char c"
  by (induction k arbitrary: n) (auto simp: hex_char_digit)

lemma hex_rest_append:
  assumes "list_all hex_char xs"
  shows "hex_rest m (xs @ ys) = (case hex_rest m xs of None \<Rightarrow> None | Some v \<Rightarrow> hex_rest v ys)"
  using assms
proof (induction xs arbitrary: m)
  case (Cons c xs)
  then have "c \<noteq> CHR ''_''" by (intro hex_char_neq) auto
  with Cons show ?case by (auto split: option.splits)
qed simp

lemma hex_rest_digits: "hex_rest m (hex_digits k n) = Some (16 ^ k * m + n mod 16 ^ k)"
proof (induction k arbitrary: n)
  case (Suc k)
  have d: "digit_char (n mod 16) \<noteq> CHR ''_''" by (rule digit_char_neq) simp_all
  have "list_all hex_char (hex_digits k (n div 16))"
    using hex_digits_chars by (auto simp: list_all_iff)
  then have "hex_rest m (hex_digits (Suc k) n) = Some (16 * (16 ^ k * m + n div 16 mod 16 ^ k) + n mod 16)"
    using d by (simp add: hex_rest_append Suc hex_value_digit)
  also have "n mod 16 ^ Suc k = 16 * (n div 16 mod 16 ^ k) + n mod 16"
    by (metis (no_types) mod_mult2_eq mult.commute power_Suc add.commute)
  ultimately show ?case by (simp add: algebra_simps)
qed simp

lemma hex_number_digits: "0 < k \<Longrightarrow> hex_number (hex_digits k n) = Some (n mod 16 ^ k)"
proof -
  assume k: "0 < k"
  obtain c cs where h: "hex_digits k n = c # cs"
    using length_hex_digits[of k n] k by (cases "hex_digits k n") auto
  then have "c \<noteq> CHR ''_''" using hex_digits_chars[of c k n] by (intro hex_char_neq) auto
  with hex_rest_digits[of 0 k n] h show ?thesis
    by (auto simp: hex_number_def split: option.splits)
qed

lemma remove_all_none:
  assumes "d \<in> set p" and "d \<notin> set s"
  shows "remove_all p s = s"
  using assms
proof (induction s)
  case (Cons c cs)
  have "take (length p) (c # cs) \<noteq> p"
    using Cons.prems by (metis in_set_takeD)
  with Cons show ?case by simp
qed simp

lemma uuid_str_chars: "c \<in> set (uuid_str u) \<Longrightarrow> hex_char c \<or> c = CHR ''-''"
  unfolding uuid_str_def Let_def
  by (auto dest!: in_set_takeD in_set_dropD hex_digits_chars)

lemma filter_hex: "filter (\<lambda>c. c \<noteq> CHR ''-'') (take i (drop j (hex_digits k n))) = take i (drop j (hex_digits k n))"
proof (rule filter_True, intro ballI)
  fix c assume "c \<in> set (take i (drop j (hex_digits k n)))"
  then have "hex_char c" by (auto dest!: in_set_takeD in_set_dropD hex_digits_chars)
  then show "c \<noteq> CHR ''-''" by (rule hex_char_neq) simp
qed

lemma uuid_str_digits: "filter (\<lambda>c. c \<noteq> CHR ''-'') (uuid_str u) = hex_digits 32 (unat u)"
proof -
  let ?h = "hex_digits 32 (unat u)"
  have "filter (\<lambda>c. c \<noteq> CHR ''-'') (drop 20 ?h) = drop 20 ?h"
    using filter_hex[of 32 20 32 "unat u"] by simp
  moreover have "filter (\<lambda>c. c \<noteq> CHR ''-'') (take 8 ?h) = take 8 ?h"
    using filter_hex[of 8 0 32 "unat u"] by simp
  moreover have "?h = take 8 ?h @ take 4 (drop 8 ?h) @ take 4 (drop 12 ?h) @ take 4 (drop 16 ?h) @ drop 20 ?h"
    by (smt (verit) append_take_drop_id drop_drop add.commute numeral_plus_numeral add_num_simps)
  ultimately show ?thesis
    by (simp only: uuid_str_def Let_def filter_append filter_hex) simp
qed

lemma dropWhile_none: "\<forall>c \<in> set s. \<not> P c \<Longrightarrow> dropWhile P s = s"
  by (cases s) auto

lemma strip_hex: "\<forall>c \<in> set s. hex_char c \<Longrightarrow> strip s = s"
  by (simp add: strip_def lstrip_def rstrip_def dropWhile_none hex_char_not_space)

lemma take_neq: "d \<in> set p \<Longrightarrow> d \<notin> set s \<Longrightarrow> take n s \<noteq> p"
  by (auto dest: in_set_takeD)

lemma parse_hex_digits:
  assumes "2 \<le> k"
  shows "parse_hex (hex_digits k n) = Some (n mod 16 ^ k)"
proof -
  let ?h = "hex_digits k n"
  have h: "\<forall>c \<in> set ?h. hex_char c" using hex_digits_chars by blast
  have no: "c \<in> set ?h \<Longrightarrow> c \<noteq> CHR ''+'' \<and> c \<noteq> CHR ''x'' \<and> c \<noteq> CHR ''X''" for c
    using h hex_char_neq[of c "CHR ''+''"] hex_char_neq[of c "CHR ''x''"] hex_char_neq[of c "CHR ''X''"] by simp
  have "take 1 ?h \<noteq> ''+''" using no by (intro take_neq[of "CHR ''+''"]) auto
  moreover have "take 2 ?h \<noteq> ''0x''" using no by (intro take_neq[of "CHR ''x''"]) auto
  moreover have "take 2 ?h \<noteq> ''0X''" using no by (intro take_neq[of "CHR ''X''"]) auto
  ultimately have "drop_sign ?h = ?h" "drop_0x ?h = ?h"
    unfolding drop_sign_def drop_0x_def by simp_all
  then show ?thesis
    using strip_hex[OF h] hex_number_digits[of k n] assms by (simp add: parse_hex_def)
qed

theorem uuid_of_uuid_str: "uuid_of (uuid_str u) = Some u"
proof -
  have chars: "c \<in> set (uuid_str u) \<Longrightarrow> c \<noteq> CHR '':'' \<and> c \<notin> set ''{}''" for c
    using uuid_str_chars[of c u] by (auto dest: hex_char_neq[of _ "CHR '':''"] hex_char_neq[of _ "CHR ''{''"] hex_char_neq[of _ "CHR ''}''"])
  then have "remove_all ''urn:'' (uuid_str u) = uuid_str u" "remove_all ''uuid:'' (uuid_str u) = uuid_str u"
    by (auto intro!: remove_all_none[of "CHR '':''"])
  moreover have "strip_braces (uuid_str u) = uuid_str u"
    using chars by (simp add: strip_braces_def Let_def dropWhile_none)
  moreover have "unat u mod 16 ^ 32 = unat u"
    using unsigned_less[of u, where 'a=nat] by (intro mod_less) simp
  ultimately show ?thesis
    by (simp add: uuid_of_def uuid_str_digits parse_hex_digits)
qed

end
