(* ===== verification/Run_Tasks.thy ===== *)
theory Run_Tasks
  imports Python_Text Tool_Governance
begin

text \<open>
  The task graph of a run (\<open>task_repository.py\<close>, \<open>tasks.py\<close>, \<open>task_mcp.py\<close>): the model plans
  follow-up tasks below the goal of a standard run and closes each of them with evidence, a tool call
  that only reads and that finished after the action it confirms. The identifier, title and tool
  names arrive as JSON arguments of a tool call.
\<close>

section \<open>Views\<close>

record run_task_view =
  tv_task :: task_row
  tv_dependencies :: "uuid list"
  tv_evidence :: "task_evidence_row list"

definition task_view :: "db \<Rightarrow> task_row \<Rightarrow> run_task_view" where
  "task_view s k =
    \<lparr>tv_task = k,
     tv_dependencies = sort (map kd_depends_on (filter (\<lambda>d. kd_task d = k_id k) (task_dependencies s))),
     tv_evidence = sort_key (\<lambda>e. (ke_created e, ke_id e)) (filter (\<lambda>e. ke_task e = k_id k) (task_evidence s))\<rparr>"

definition list_tasks ::
    "principal \<Rightarrow> uuid \<Rightarrow> uuid \<Rightarrow> db \<Rightarrow> nat \<Rightarrow> uuid option \<Rightarrow> run_task_view list res" where
  "list_tasks pr ws run s n c =
    bind_res (scoped pr ws PermRead s) (\<lambda>_.
      if find_run_in run ws s = None then Inl (HTTPException 404)
      else Inr (map (task_view s)
             (keyset_query k_id (\<lambda>k. k_workspace k = ws \<and> k_run k = run) (run_tasks s) n c)))"

section \<open>Arguments\<close>

definition text_arg :: "dict \<Rightarrow> string \<Rightarrow> string" where
  "text_arg d k = (case map_of d k of None \<Rightarrow> [] | Some v \<Rightarrow> py_str v)"

definition task_uuid :: "json \<Rightarrow> string \<Rightarrow> uuid res" where
  "task_uuid v code = (case uuid_of (py_str v) of None \<Rightarrow> Inl (RunTaskError code) | Some u \<Rightarrow> Inr u)"

fun task_uuids :: "json list \<Rightarrow> string \<Rightarrow> uuid list res" where
  "task_uuids [] code = Inr []"
| "task_uuids (v # vs) code =
    bind_res (task_uuid v code) (\<lambda>u. bind_res (task_uuids vs code) (\<lambda>us. Inr (u # us)))"

definition action_arg :: "dict \<Rightarrow> string option" where
  "action_arg d =
    (case map_of d ''action_tool'' of None \<Rightarrow> None | Some JNull \<Rightarrow> None | Some v \<Rightarrow> Some (py_str v))"

definition task_request_hash :: "string \<Rightarrow> string \<Rightarrow> string option \<Rightarrow> uuid list \<Rightarrow> string" where
  "task_request_hash title description action deps =
    sha256_hex (dumps (JObj [(''title'', JStr title), (''description'', JStr description),
      (''action_tool'', case action of None \<Rightarrow> JNull | Some a \<Rightarrow> JStr a),
      (''depends_on'', JArr (map JStr (sort (map uuid_str deps))))]))"

text \<open>The governed name of a tool the run may use.\<close>

definition internal_tool :: "exec_context \<Rightarrow> string \<Rightarrow> string res" where
  "internal_tool ctx name =
    (if (case x_allowed_tools ctx of None \<Rightarrow> False | Some al \<Rightarrow> name \<notin> set al)
     then Inl (RunTaskError ''task_tool_not_allowed'')
     else Inr (case x_tool_aliases ctx of None \<Rightarrow> name
               | Some al \<Rightarrow> (case map_of al name of None \<Rightarrow> name | Some g \<Rightarrow> g)))"

section \<open>Inserts\<close>

text \<open>\<open>btrim\<close> strips spaces only.\<close>

definition btrim :: "string \<Rightarrow> string" where
  "btrim s = (let sp = (\<lambda>c. c = CHR '' '') in rev (dropWhile sp (rev (dropWhile sp s))))"

definition length_between :: "nat \<Rightarrow> nat \<Rightarrow> string \<Rightarrow> bool" where
  "length_between a b s \<longleftrightarrow> a \<le> length s \<and> length s \<le> b"

definition task_row_check :: "task_row \<Rightarrow> bool" where
  "task_row_check k \<longleftrightarrow> length_between 1 300 (btrim (k_title k)) \<and> length (k_description k) \<le> 2000 \<and>
     (case k_action_tool k of None \<Rightarrow> True | Some a \<Rightarrow> length_between 2 64 a) \<and>
     length_between 8 128 (k_idempotency_key k) \<and> length (k_request_hash k) = 64"

definition insert_task :: "task_row \<Rightarrow> db \<Rightarrow> db res" where
  "insert_task k s =
    (if \<not> task_row_check k then Inl (CheckViolation ''run_tasks'')
     else if sql_exists (\<lambda>x. k_id x = k_id k) (run_tasks s) then Inl (UniqueViolation ''run_tasks_pkey'')
     else if sql_exists (\<lambda>x. k_run x = k_run k \<and> k_idempotency_key x = k_idempotency_key k) (run_tasks s)
     then Inl (UniqueViolation ''run_tasks_idempotency'')
     else Inr (s\<lparr>run_tasks := run_tasks s @ [k]\<rparr>))"

definition insert_dependency :: "task_dependency_row \<Rightarrow> db \<Rightarrow> db res" where
  "insert_dependency d s =
    (if kd_task d = kd_depends_on d then Inl (CheckViolation ''run_task_dependencies'')
     else if sql_exists (\<lambda>x. kd_task x = kd_task d \<and> kd_depends_on x = kd_depends_on d) (task_dependencies s)
     then Inl (UniqueViolation ''run_task_dependencies_pkey'')
     else Inr (s\<lparr>task_dependencies := task_dependencies s @ [d]\<rparr>))"

fun insert_dependencies :: "uuid \<Rightarrow> uuid \<Rightarrow> uuid \<Rightarrow> uuid list \<Rightarrow> db \<Rightarrow> db res" where
  "insert_dependencies ws run task [] s = Inr s"
| "insert_dependencies ws run task (d # ds) s =
    bind_res (insert_dependency \<lparr>kd_workspace = ws, kd_run = run, kd_task = task, kd_depends_on = d\<rparr> s)
      (insert_dependencies ws run task ds)"

definition evidence_row_check :: "task_evidence_row \<Rightarrow> bool" where
  "evidence_row_check e \<longleftrightarrow> length_between 2 64 (ke_tool e) \<and> length_between 1 2000 (btrim (ke_summary e)) \<and>
     length_between 8 128 (ke_idempotency_key e)"

definition insert_evidence :: "task_evidence_row \<Rightarrow> db \<Rightarrow> db res" where
  "insert_evidence e s =
    (if \<not> evidence_row_check e then Inl (CheckViolation ''run_task_evidence'')
     else if sql_exists (\<lambda>x. ke_id x = ke_id e) (task_evidence s) then Inl (UniqueViolation ''run_task_evidence_pkey'')
     else if sql_exists (\<lambda>x. ke_run x = ke_run e \<and> ke_idempotency_key x = ke_idempotency_key e) (task_evidence s)
     then Inl (UniqueViolation ''run_task_evidence_idempotency'')
     else Inr (s\<lparr>task_evidence := task_evidence s @ [e]\<rparr>))"

section \<open>Planning a follow-up\<close>

fun task_status_str :: "task_status \<Rightarrow> string" where
  "task_status_str TPlanned = ''planned''"
| "task_status_str TRunning = ''running''"
| "task_status_str TSucceeded = ''succeeded''"
| "task_status_str TFailed = ''failed''"
| "task_status_str TCancelled = ''cancelled''"
| "task_status_str TBlocked = ''blocked''"

fun verification_str :: "verification_state \<Rightarrow> string" where
  "verification_str NotRequired = ''not_required''"
| "verification_str VPending = ''pending''"
| "verification_str Verified = ''verified''"
| "verification_str VFailed = ''failed''"

definition task_answer :: "uuid \<Rightarrow> task_status \<Rightarrow> verification_state \<Rightarrow> dict" where
  "task_answer i st v = [(''task_id'', JStr (uuid_str i)), (''status'', JStr (task_status_str st)),
     (''verification_state'', JStr (verification_str v))]"

definition find_goal :: "exec_context \<Rightarrow> db \<Rightarrow> task_row option" where
  "find_goal ctx s =
    find (\<lambda>k. k_workspace k = x_workspace ctx \<and> k_run k = x_run ctx \<and> k_kind k = GoalTask) (run_tasks s)"

definition find_task_key :: "uuid \<Rightarrow> string \<Rightarrow> db \<Rightarrow> task_row option" where
  "find_task_key run key s = find (\<lambda>k. k_run k = run \<and> k_idempotency_key k = key) (run_tasks s)"

text \<open>A follow-up may act through an enabled tool with side effects, and not through a task tool.\<close>

definition action_tool_ok :: "exec_context \<Rightarrow> string option \<Rightarrow> db \<Rightarrow> unit res" where
  "action_tool_ok ctx action s =
    (case action of None \<Rightarrow> Inr ()
     | Some a \<Rightarrow> bind_res (internal_tool ctx a) (\<lambda>name.
         case find_tool (x_workspace ctx) name s of
           None \<Rightarrow> Inl (RunTaskError ''task_action_tool_invalid'')
         | Some t \<Rightarrow> guard_res (t_enabled t \<and> t_server_key t \<noteq> ''tasks'' \<and> t_side_effect t \<noteq> ReadEffect)
                       (RunTaskError ''task_action_tool_invalid'')))"

definition dependencies_ok :: "exec_context \<Rightarrow> uuid list \<Rightarrow> db \<Rightarrow> bool" where
  "dependencies_ok ctx deps s \<longleftrightarrow>
    set (map k_id (filter (\<lambda>k. k_workspace k = x_workspace ctx \<and> k_run k = x_run ctx \<and> k_id k \<in> set deps)
      (run_tasks s))) = set deps"

definition new_follow_up ::
    "txenv \<Rightarrow> exec_context \<Rightarrow> uuid \<Rightarrow> string \<Rightarrow> string \<Rightarrow> string option \<Rightarrow> string \<Rightarrow> string \<Rightarrow> task_row" where
  "new_follow_up env ctx goal title description action key hash =
    \<lparr>k_id = tx_uuid env 0, k_workspace = x_workspace ctx, k_run = x_run ctx, k_parent = Some goal,
     k_kind = FollowUpTask, k_title = title, k_description = description, k_status = TPlanned,
     k_action_tool = action,
     k_verification = (if action \<noteq> None \<and> action \<noteq> Some [] then VPending else NotRequired),
     k_idempotency_key = key, k_request_hash = hash, k_created = tx_now env, k_updated = tx_now env,
     k_completed = None\<rparr>"

definition plan_follow_up ::
    "txenv \<Rightarrow> exec_context \<Rightarrow> string \<Rightarrow> string \<Rightarrow> string option \<Rightarrow> string \<Rightarrow> uuid list \<Rightarrow> db \<Rightarrow> (json \<times> db) res" where
  "plan_follow_up env ctx title description action key deps s =
    (let hash = task_request_hash title description action deps
     in bind_res (executable_run env 0 ctx s) (\<lambda>_.
        case find_task_key (x_run ctx) key s of
          Some k \<Rightarrow>
            if k_request_hash k \<noteq> hash then Inl (RunTaskError ''task_idempotency_conflict'')
            else Inr (JObj (task_answer (k_id k) (k_status k) (k_verification k)), s)
        | None \<Rightarrow>
          (case find_goal ctx s of
             None \<Rightarrow> Inl (RunTaskError ''task_goal_missing'')
           | Some goal \<Rightarrow>
             bind_res (action_tool_ok ctx action s) (\<lambda>_.
             if deps \<noteq> [] \<and> \<not> dependencies_ok ctx deps s
             then Inl (RunTaskError ''task_dependency_cross_run'')
             else let k = new_follow_up env ctx (k_id goal) title description action key hash
               in bind_res (insert_task k s) (\<lambda>s1.
                  bind_res (insert_dependencies (x_workspace ctx) (x_run ctx) (k_id k) deps s1) (\<lambda>s2.
                  Inr (JObj (task_answer (k_id k) TPlanned (k_verification k)),
                    append_run_event env (x_workspace ctx) (x_run ctx) ''task.created''
                      [(''task_id'', JStr (uuid_str (k_id k))),
                       (''parent_task_id'', JStr (uuid_str (k_id goal))),
                       (''action_tool'', case action of None \<Rightarrow> JNull | Some a \<Rightarrow> JStr a)] s2)))))))"

definition create_follow_up :: "txenv \<Rightarrow> exec_context \<Rightarrow> dict \<Rightarrow> db \<Rightarrow> (json \<times> db) res" where
  "create_follow_up env ctx args s =
    (case (case map_of args ''depends_on'' of None \<Rightarrow> JArr [] | Some v \<Rightarrow> v) of
       JArr raw \<Rightarrow>
         bind_res (task_uuids raw ''task_dependency_invalid'') (\<lambda>deps.
           if \<not> distinct deps then Inl (RunTaskError ''task_dependency_duplicate'')
           else plan_follow_up env ctx (strip (text_arg args ''title'')) (strip (text_arg args ''description''))
                  (action_arg args) (text_arg args ''idempotency_key'') deps s)
     | _ \<Rightarrow> Inl (RunTaskError ''task_dependencies_invalid''))"

section \<open>Closing a task with evidence\<close>

text \<open>The latest call of a tool of this kind that succeeded in the run at or after an instant.\<close>

definition call_finished_since :: "time \<Rightarrow> call_row \<Rightarrow> bool" where
  "call_finished_since since c = (case c_finished c of None \<Rightarrow> False | Some f \<Rightarrow> since \<le> f)"

definition observed :: "exec_context \<Rightarrow> string \<Rightarrow> (side_effect \<Rightarrow> bool) \<Rightarrow> time \<Rightarrow> db \<Rightarrow> call_row \<Rightarrow> bool" where
  "observed ctx name p since s c \<longleftrightarrow> c_workspace c = x_workspace ctx \<and> c_run c = x_run ctx \<and>
     (case tool_of_call c s of None \<Rightarrow> False | Some t \<Rightarrow> t_name t = name \<and> p (t_side_effect t)) \<and>
     c_status c = CallSucceeded \<and> call_finished_since since c"

definition finished_at :: "call_row \<Rightarrow> time" where
  "finished_at c = (case c_finished c of None \<Rightarrow> 0 | Some f \<Rightarrow> f)"

definition latest_call ::
    "exec_context \<Rightarrow> string \<Rightarrow> (side_effect \<Rightarrow> bool) \<Rightarrow> time \<Rightarrow> db \<Rightarrow> call_row option" where
  "latest_call ctx name p since s =
    (case order_limit (\<lambda>c. (- finished_at c, - uint (c_id c))) 1 (observed ctx name p since s) (tool_calls s) of
       [] \<Rightarrow> None | c # _ \<Rightarrow> Some c)"

text \<open>The action of a task, when it has one, and the instant its verification may not precede.\<close>

definition observed_action :: "exec_context \<Rightarrow> task_row \<Rightarrow> db \<Rightarrow> (uuid option \<times> time) res" where
  "observed_action ctx k s =
    (case k_action_tool k of None \<Rightarrow> Inr (None, k_created k)
     | Some a \<Rightarrow> bind_res (internal_tool ctx a) (\<lambda>name.
         case latest_call ctx name (\<lambda>e. e \<noteq> ReadEffect) (k_created k) s of
           None \<Rightarrow> Inl (RunTaskError ''task_action_not_observed'')
         | Some c \<Rightarrow> Inr (Some (c_id c), finished_at c)))"

definition incomplete_dependency :: "uuid \<Rightarrow> db \<Rightarrow> bool" where
  "incomplete_dependency i s =
    sql_exists (\<lambda>d. kd_task d = i \<and>
      sql_exists (\<lambda>t. k_id t = kd_depends_on d \<and> k_status t \<noteq> TSucceeded) (run_tasks s)) (task_dependencies s)"

definition find_evidence_key :: "uuid \<Rightarrow> string \<Rightarrow> db \<Rightarrow> task_evidence_row option" where
  "find_evidence_key run key s = find (\<lambda>e. ke_run e = run \<and> ke_idempotency_key e = key) (task_evidence s)"

definition find_task :: "uuid \<Rightarrow> db \<Rightarrow> task_row option" where
  "find_task i s = find (\<lambda>k. k_id k = i) (run_tasks s)"

definition find_follow_up :: "exec_context \<Rightarrow> uuid \<Rightarrow> db \<Rightarrow> task_row option" where
  "find_follow_up ctx i s =
    find (\<lambda>k. k_id k = i \<and> k_workspace k = x_workspace ctx \<and> k_run k = x_run ctx \<and> k_kind k = FollowUpTask)
      (run_tasks s)"

definition close_task :: "txenv \<Rightarrow> bool \<Rightarrow> task_row \<Rightarrow> task_row" where
  "close_task env ok k =
    k\<lparr>k_status := (if ok then TSucceeded else TFailed), k_verification := (if ok then Verified else VFailed),
      k_completed := Some (tx_now env), k_updated := tx_now env\<rparr>"

definition record_evidence ::
    "txenv \<Rightarrow> exec_context \<Rightarrow> uuid \<Rightarrow> string \<Rightarrow> string \<Rightarrow> bool \<Rightarrow> string \<Rightarrow> uuid option \<Rightarrow> uuid \<Rightarrow> db \<Rightarrow>
     (json \<times> db) res" where
  "record_evidence env ctx task tool summary ok key action call s =
    (let e = \<lparr>ke_id = tx_uuid env 0, ke_workspace = x_workspace ctx, ke_run = x_run ctx, ke_task = task,
              ke_action_call = action, ke_verification_call = call, ke_tool = tool, ke_summary = summary,
              ke_satisfied = ok, ke_idempotency_key = key, ke_created = tx_now env\<rparr>
     in bind_res (insert_evidence e s) (\<lambda>s1.
        let s2 = s1\<lparr>run_tasks := sql_update (\<lambda>k. k_id k = task) (close_task env ok) (run_tasks s1)\<rparr>
        in Inr (JObj (task_answer task (if ok then TSucceeded else TFailed) (if ok then Verified else VFailed)
                  @ [(''evidence_id'', JStr (uuid_str (ke_id e)))]),
             append_run_event env (x_workspace ctx) (x_run ctx)
               (if ok then ''task.verified'' else ''task.verification_failed'')
               [(''task_id'', JStr (uuid_str task)), (''verification_tool'', JStr tool),
                (''verification_tool_call_id'', JStr (uuid_str call))] s2)))"

definition verify_task ::
    "txenv \<Rightarrow> exec_context \<Rightarrow> uuid \<Rightarrow> string \<Rightarrow> string \<Rightarrow> bool \<Rightarrow> string \<Rightarrow> db \<Rightarrow> (json \<times> db) res" where
  "verify_task env ctx i tool summary ok key s =
    bind_res (executable_run env 0 ctx s) (\<lambda>_.
    case find_evidence_key (x_run ctx) key s of
      Some e \<Rightarrow>
        if ke_task e \<noteq> i \<or> ke_satisfied e \<noteq> ok
        then Inl (RunTaskError ''task_verification_idempotency_conflict'')
        else (case find_task i s of
                None \<Rightarrow> Inl (TypeError ''NoneType'')
              | Some k \<Rightarrow> Inr (JObj (task_answer i (k_status k) (k_verification k)), s))
    | None \<Rightarrow>
      (case find_follow_up ctx i s of
         None \<Rightarrow> Inl (RunTaskError ''task_not_found'')
       | Some k \<Rightarrow>
         if k_status k \<in> {TSucceeded, TFailed, TCancelled}
         then Inl (RunTaskError ''task_already_terminal'')
         else if incomplete_dependency i s then Inl (RunTaskError ''task_dependency_incomplete'')
         else bind_res (observed_action ctx k s) (\<lambda>(action, since).
              bind_res (internal_tool ctx tool) (\<lambda>name.
              case latest_call ctx name (\<lambda>e. e = ReadEffect) since s of
                None \<Rightarrow> Inl (RunTaskError ''task_verification_evidence_missing'')
              | Some c \<Rightarrow> record_evidence env ctx i tool summary ok key action (c_id c) s))))"

definition verify :: "txenv \<Rightarrow> exec_context \<Rightarrow> dict \<Rightarrow> db \<Rightarrow> (json \<times> db) res" where
  "verify env ctx args s =
    bind_res (task_uuid (case map_of args ''task_id'' of None \<Rightarrow> JNull | Some v \<Rightarrow> v) ''task_id_invalid'') (\<lambda>i.
      case map_of args ''satisfied'' of
        Some (JBool ok) \<Rightarrow> verify_task env ctx i (text_arg args ''verification_tool'')
          (strip (text_arg args ''summary'')) ok (text_arg args ''idempotency_key'') s
      | _ \<Rightarrow> Inl (RunTaskError ''task_verification_invalid''))"

section \<open>The adapter\<close>

text \<open>
  The server \<open>tasks\<close> of the gateway: only standard runs have a task graph. A refusal of the repository
  becomes an adapter error that is not retried, other exceptions pass.
\<close>

datatype task_reply = TaskResult json | TaskRefused string

definition reply_of :: "(json \<times> db) res \<Rightarrow> db \<Rightarrow> (task_reply \<times> db) res" where
  "reply_of r s =
    (case r of
       Inr (v, s') \<Rightarrow> Inr (TaskResult v, s')
     | Inl (RunTaskError code) \<Rightarrow> Inr (TaskRefused code, s)
     | Inl e \<Rightarrow> Inl e)"

definition task_call :: "txenv \<Rightarrow> exec_context \<Rightarrow> string \<Rightarrow> dict \<Rightarrow> db \<Rightarrow> (task_reply \<times> db) res" where
  "task_call env ctx remote args s =
    (if x_kind ctx \<noteq> Standard then Inr (TaskRefused ''task_standard_run_required'', s)
     else if remote = ''child.create'' then reply_of (create_follow_up env ctx args s) s
     else if remote = ''task.verify'' then reply_of (verify env ctx args s) s
     else Inr (TaskRefused ''task_operation_unknown'', s))"

end
