(* ===== verification/Outbox.thy ===== *)
theory Outbox
  imports Run_Contract
begin

text \<open>
  The relay (\<open>outbox.py\<close>): pending jobs are read in order of creation and sent to the stream; a
  job whose send fails is retried with a growing delay and put aside after ten failures. The stream
  is outside the program: \<open>xadd n m\<close> is what sending the \<open>n\<close>-th message \<open>m\<close> did, \<open>None\<close> or the
  class name of the exception.
\<close>

definition MAX_ATTEMPTS :: nat where
  "MAX_ATTEMPTS = 10"

definition publish_retry_ms :: "uuid \<Rightarrow> nat \<Rightarrow> int" where
  "publish_retry_ms job attempts =
    jittered_ms (min 300 (2 ^ min attempts 8)) (digest_head16 (uuid_str job @ '':'' @ nat_str attempts))"

fun kind_str :: "agent_kind \<Rightarrow> string" where
  "kind_str Custom = ''custom''"
| "kind_str Standard = ''standard''"

definition payload_json :: "payload_row \<Rightarrow> json" where
  "payload_json p = JObj ([(''run_id'', JStr (uuid_str (p_run p))),
     (''workspace_id'', JStr (uuid_str (p_workspace p))), (''agent_id'', JStr (uuid_str (p_agent p))),
     (''trace_id'', JStr (uuid_str (p_trace p)))] @
     (case p_kind p of None \<Rightarrow> [] | Some k \<Rightarrow> [(''agent_kind'', JStr (kind_str k))]))"

definition job_message :: "outbox_row \<Rightarrow> string" where
  "job_message x = dumps_ascii (JObj [(''job_id'', JStr (uuid_str (o_id x))),
     (''workspace_id'', JStr (uuid_str (o_workspace x))), (''run_id'', JStr (uuid_str (o_run x))),
     (''topic'', JStr (o_topic x)), (''payload'', payload_json (o_payload x))])"

definition pending_jobs :: "txenv \<Rightarrow> (uuid \<Rightarrow> bool) \<Rightarrow> nat \<Rightarrow> db \<Rightarrow> outbox_row list" where
  "pending_jobs env locked n s =
    order_limit (\<lambda>x. (o_created x, o_id x)) n
      (\<lambda>x. deliverable x \<and> o_available x \<le> tx_now env \<and> \<not> locked (o_id x)) (outbox s)"

definition mark_sent :: "txenv \<Rightarrow> outbox_row \<Rightarrow> outbox_row" where
  "mark_sent env x =
    x\<lparr>o_attempts := o_attempts x + 1, o_published := Some (tx_now env), o_error := None\<rparr>"

definition mark_failed :: "txenv \<Rightarrow> nat \<Rightarrow> uuid \<Rightarrow> string \<Rightarrow> outbox_row \<Rightarrow> outbox_row" where
  "mark_failed env attempts i exc x =
    (if attempts \<ge> MAX_ATTEMPTS
     then x\<lparr>o_attempts := attempts, o_dead := Some (tx_now env), o_error := Some (take 100 exc)\<rparr>
     else x\<lparr>o_attempts := attempts,
            o_available := tx_now env + publish_retry_ms i attempts * 1000,
            o_error := Some (take 100 exc)\<rparr>)"

text \<open>The loop returns the number of jobs it sent and the messages it offered to the stream.\<close>

fun publish_rows ::
    "txenv \<Rightarrow> (nat \<Rightarrow> string \<Rightarrow> string option) \<Rightarrow> nat \<Rightarrow> outbox_row list \<Rightarrow> outbox_row list \<Rightarrow>
     nat \<times> outbox_row list" where
  "publish_rows env xadd k [] t = (0, t)"
| "publish_rows env xadd k (row # rows) t =
    (case xadd k (job_message row) of
       None \<Rightarrow>
         (let (n, t') = publish_rows env xadd (Suc k) rows
                (sql_update (\<lambda>x. o_id x = o_id row) (mark_sent env) t)
          in (Suc n, t'))
     | Some exc \<Rightarrow>
         publish_rows env xadd (Suc k) rows
           (sql_update (\<lambda>x. o_id x = o_id row)
              (mark_failed env (o_attempts row + 1) (o_id row) exc) t))"

definition publish_batch ::
    "txenv \<Rightarrow> (uuid \<Rightarrow> bool) \<Rightarrow> (nat \<Rightarrow> string \<Rightarrow> string option) \<Rightarrow> int \<Rightarrow> db \<Rightarrow> (nat \<times> db) res" where
  "publish_batch env locked xadd limit s =
    (if \<not> (1 \<le> limit \<and> limit \<le> 100) then Inl (ValueError ''limit must be between 1 and 100'')
     else let (n, t) = publish_rows env xadd 0 (pending_jobs env locked (nat limit) s) (outbox s)
          in Inr (n, s\<lparr>outbox := t\<rparr>))"

section \<open>What a batch does to the jobs\<close>

text \<open>One step of a job under a send: sent, put aside, or delayed with one more attempt.\<close>

definition relayed :: "txenv \<Rightarrow> outbox_row \<Rightarrow> outbox_row \<Rightarrow> bool" where
  "relayed env x y \<longleftrightarrow> y = mark_sent env x \<or>
    (\<exists>exc. y = mark_failed env (o_attempts x + 1) (o_id x) exc x)"

lemma relay_fields [simp]:
  "o_id (mark_sent env x) = o_id x" "o_id (mark_failed env a i e x) = o_id x"
  "o_run (mark_sent env x) = o_run x" "o_run (mark_failed env a i e x) = o_run x"
  "o_workspace (mark_sent env x) = o_workspace x" "o_workspace (mark_failed env a i e x) = o_workspace x"
  "o_payload (mark_sent env x) = o_payload x" "o_payload (mark_failed env a i e x) = o_payload x"
  "o_topic (mark_sent env x) = o_topic x" "o_topic (mark_failed env a i e x) = o_topic x"
  by (simp_all add: mark_sent_def mark_failed_def)

lemma relayed_fields:
  "relayed env x y \<Longrightarrow> o_id y = o_id x \<and> o_run y = o_run x \<and> o_workspace y = o_workspace x \<and>
    o_topic y = o_topic x \<and> o_payload y = o_payload x"
  by (auto simp: relayed_def)

text \<open>
  A batch maps each row of the table to itself, when it was not selected, and to one step
  otherwise.
\<close>

lemma publish_rows_map:
  assumes "distinct (map o_id t)" and "distinct (map o_id rows)" and "set rows \<subseteq> set t"
    and "publish_rows env xadd k rows t = (n, t')"
  shows "list_all2 (\<lambda>x y. if x \<in> set rows then relayed env x y else y = x) t t'"
  using assms
proof (induction rows arbitrary: k n t t')
  case Nil
  then show ?case by (simp add: list_all2_same)
next
  case (Cons row rows)
  let ?f = "case xadd k (job_message row) of None \<Rightarrow> mark_sent env
      | Some exc \<Rightarrow> mark_failed env (o_attempts row + 1) (o_id row) exc"
  let ?u = "sql_update (\<lambda>x. o_id x = o_id row) ?f t"
  have f: "o_id (?f x) = o_id x" for x by (simp split: option.splits)
  obtain m where m: "publish_rows env xadd (Suc k) rows ?u = (m, t')"
    using Cons.prems(4) by (auto split: option.splits prod.splits)
  have row: "row \<in> set t" "\<And>x. x \<in> set t \<Longrightarrow> o_id x = o_id row \<Longrightarrow> x = row"
    using Cons.prems(1,3) by (auto simp: distinct_map dest: inj_onD)
  have keep: "x \<in> set ?u" if "x \<in> set t" "o_id x \<noteq> o_id row" for x
    using that by (force simp: set_sql_update)
  have sub: "set rows \<subseteq> set ?u"
  proof
    fix x assume x: "x \<in> set rows"
    then have "o_id x \<in> o_id ` set rows" by (rule imageI)
    then have "o_id x \<noteq> o_id row" using Cons.prems(2) by auto
    moreover have "x \<in> set t" using x Cons.prems(3) by auto
    ultimately show "x \<in> set ?u" by (intro keep)
  qed
  have "distinct (map o_id ?u)"
    using Cons.prems(1) by (simp only: sql_update_keys[where key = o_id, OF f])
  from Cons.IH[OF this _ sub m] Cons.prems(2)
  have tail: "list_all2 (\<lambda>x y. if x \<in> set rows then relayed env x y else y = x) ?u t'" by simp
  have rel: "relayed env row (?f row)"
    by (auto simp: relayed_def split: option.splits)
  have not_in: "?f row \<notin> set rows"
    using Cons.prems(2) f[of row] by (auto simp: image_iff)
  show ?case
    unfolding list_all2_conv_all_nth
  proof (intro conjI allI impI)
    show "length t = length t'" using tail by (auto dest: list_all2_lengthD)
    fix i assume i: "i < length t"
    then have y: "if ?u ! i \<in> set rows then relayed env (?u ! i) (t' ! i) else t' ! i = ?u ! i"
      using tail by (simp add: list_all2_conv_all_nth)
    have u: "?u ! i = (if o_id (t ! i) = o_id row then ?f (t ! i) else t ! i)"
      using i by (simp add: sql_update_def)
    show "if t ! i \<in> set (row # rows) then relayed env (t ! i) (t' ! i) else t' ! i = t ! i"
    proof (cases "o_id (t ! i) = o_id row")
      case True
      then have "t ! i = row" using row(2)[of "t ! i"] i by simp
      then show ?thesis using y u True rel not_in by simp
    next
      case False
      then show ?thesis using y u by auto
    qed
  qed
qed

lemma pending_jobs_member:
  assumes "x \<in> set (pending_jobs env locked n s)"
  shows "x \<in> set (outbox s) \<and> deliverable x \<and> o_available x \<le> tx_now env"
  using order_limit_memD[OF assms[unfolded pending_jobs_def]] by simp

lemma publish_batch_map:
  assumes "distinct (map o_id (outbox s))"
    and "publish_batch env locked xadd limit s = Inr (n, s')"
  shows "list_all2 (\<lambda>x y. if x \<in> set (pending_jobs env locked (nat limit) s) then relayed env x y else y = x)
      (outbox s) (outbox s')" and "s' = s\<lparr>outbox := outbox s'\<rparr>"
proof -
  obtain t where t: "publish_rows env xadd 0 (pending_jobs env locked (nat limit) s) (outbox s) = (n, t)"
    and s': "s' = s\<lparr>outbox := t\<rparr>"
    using assms(2) by (auto simp: publish_batch_def split: if_splits prod.splits)
  have "distinct (map o_id (pending_jobs env locked (nat limit) s))"
    unfolding pending_jobs_def by (rule distinct_order_limit[OF assms(1)])
  moreover have "set (pending_jobs env locked (nat limit) s) \<subseteq> set (outbox s)"
    using pending_jobs_member by blast
  ultimately show "list_all2 (\<lambda>x y. if x \<in> set (pending_jobs env locked (nat limit) s)
      then relayed env x y else y = x) (outbox s) (outbox s')"
    using publish_rows_map[OF assms(1) _ _ t] by (simp add: s')
  show "s' = s\<lparr>outbox := outbox s'\<rparr>" by (simp add: s')
qed

lemma publish_batch_fields:
  assumes "distinct (map o_id (outbox s))"
    and "publish_batch env locked xadd limit s = Inr (n, s')"
  shows "map (\<lambda>x. (o_id x, o_run x)) (outbox s') = map (\<lambda>x. (o_id x, o_run x)) (outbox s)"
proof -
  have "list_all2 (\<lambda>x y. (o_id x, o_run x) = (o_id y, o_run y)) (outbox s) (outbox s')"
    using publish_batch_map(1)[OF assms]
    by (rule list_all2_mono) (auto simp: relayed_fields split: if_splits)
  then show ?thesis
    by (simp add: list_all2_conv_all_nth list_eq_iff_nth_eq)
qed

lemma known_job_map:
  "known_job j run s \<longleftrightarrow> (j, run) \<in> set (map (\<lambda>x. (o_id x, o_run x)) (outbox s))"
  by (force simp: known_job_def)

text \<open>The invariant and the attempts: a relay never touches a run.\<close>

lemma publish_batch_safe:
  assumes inv: "run_inv s" and ok: "publish_batch env locked xadd limit s = Inr (n, s')"
  shows "safe_step s s'"
proof -
  note f = publish_batch_fields[OF run_invD(3)[OF inv] ok]
  note t = publish_batch_map(2)[OF run_invD(3)[OF inv] ok]
  have same: "agent_runs s' = agent_runs s" "receipts s' = receipts s" "run_events s' = run_events s"
    by (subst t, simp)+
  have known: "known_job j run s' = known_job j run s" for j run
    by (simp only: known_job_map f)
  have "map fst (map (\<lambda>x. (o_id x, o_run x)) (outbox s')) =
      map fst (map (\<lambda>x. (o_id x, o_run x)) (outbox s))"
    by (simp only: f)
  then have ids: "map o_id (outbox s') = map o_id (outbox s)" by (simp add: comp_def)
  have "map snd (map (\<lambda>x. (o_id x, o_run x)) (outbox s')) =
      map snd (map (\<lambda>x. (o_id x, o_run x)) (outbox s))"
    by (simp only: f)
  then have "map o_run (outbox s') = map o_run (outbox s)" by (simp add: comp_def)
  then have "o_run ` set (outbox s') = o_run ` set (outbox s)" by (metis list.set_map)
  then have runs: "(\<forall>x \<in> set (outbox s'). P (o_run x)) \<longleftrightarrow> (\<forall>x \<in> set (outbox s). P (o_run x))" for P
    by (metis (mono_tags, lifting) image_iff)
  have "linked s'"
    using inv runs[of "\<lambda>i. \<exists>r \<in> set (agent_runs s). r_id r = i"]
    by (simp add: run_inv_def linked_def known same)
  then have "run_inv s'"
    using inv journal_cong[OF same(3)] ids
    by (simp add: run_inv_def keys_ok_def rows_ok_def exclusive_def processing_def same)
  then show ?thesis by (rule safe_same_runs) (rule same(1))
qed

text \<open>A job that can be delivered has failed fewer than ten times; after the tenth it is put aside.\<close>

definition attempts_ok :: "db \<Rightarrow> bool" where
  "attempts_ok s \<longleftrightarrow> (\<forall>x \<in> set (outbox s). deliverable x \<longrightarrow> o_attempts x < MAX_ATTEMPTS)"

lemma relayed_attempts:
  assumes "relayed env x y"
  shows "o_attempts y = o_attempts x + 1"
    and "deliverable y \<Longrightarrow> o_attempts y < MAX_ATTEMPTS"
    and "y = mark_sent env x \<or> \<not> deliverable y \<or> tx_now env < o_available y"
proof -
  show "o_attempts y = o_attempts x + 1" "deliverable y \<Longrightarrow> o_attempts y < MAX_ATTEMPTS"
    using assms by (auto simp: relayed_def mark_sent_def mark_failed_def deliverable_def split: if_splits)
  have "0 < publish_retry_ms i n" for i n
  proof -
    have "(1::int) \<le> 2 ^ min n 8" by simp
    then have base: "1 \<le> min 300 ((2::int) ^ min n 8)" by simp
    then have "min 300 (2 ^ min n 8) * 1000 \<le> publish_retry_ms i n"
      unfolding publish_retry_ms_def using digest_head16_bound by (intro jittered_bounds(1)) auto
    with base show ?thesis by linarith
  qed
  then show "y = mark_sent env x \<or> \<not> deliverable y \<or> tx_now env < o_available y"
    using assms by (auto simp: relayed_def mark_failed_def deliverable_def)
qed

lemma publish_batch_attempts:
  assumes "distinct (map o_id (outbox s))" and "attempts_ok s"
    and "publish_batch env locked xadd limit s = Inr (n, s')"
  shows "attempts_ok s'"
proof -
  have "\<exists>x \<in> set (outbox s). y = x \<or> relayed env x y" if "y \<in> set (outbox s')" for y
    using publish_batch_map(1)[OF assms(1,3)] that
    unfolding list_all2_conv_all_nth in_set_conv_nth by (metis nth_mem)
  then show ?thesis
    using assms(2) relayed_attempts(2) unfolding attempts_ok_def by blast
qed

end
