(* ===== verification/Frames.thy ===== *)
theory Frames
  imports Spend_Ledger Executor_Safety Call_Safety Outbox
begin

text \<open>
  The interfaces between the components: a property of the database that reads none of the tables a
  component writes is untouched by every transaction of that component. \<open>run_frame\<close> is the interface
  of the run state store, the run API and the relay, \<open>tool_frame\<close> that of tool governance; each is
  interpreted on the invariants of the other components.
\<close>

section \<open>Properties that read no run table\<close>

locale run_frame =
  fixes V :: "db \<Rightarrow> bool"
  assumes V_runs: "V (s\<lparr>agent_runs := a\<rparr>) = V s"
    and V_receipts: "V (s\<lparr>receipts := b\<rparr>) = V s"
    and V_enqueue: "V s \<Longrightarrow> V (s\<lparr>outbox := outbox s @ [x]\<rparr>)"
    and V_relay: "V s \<Longrightarrow> map (\<lambda>x. (o_id x, o_run x)) c = map (\<lambda>x. (o_id x, o_run x)) (outbox s) \<Longrightarrow>
      V (s\<lparr>outbox := c\<rparr>)"
    and V_journal: "V s \<Longrightarrow> V (s\<lparr>run_events := run_events s @ [d]\<rparr>)"
    and V_goal: "V s \<Longrightarrow> V (s\<lparr>run_tasks := sync_goal_task env r r' (run_tasks s)\<rparr>)"
    and V_contexts: "V (s\<lparr>retrieval_contexts := f\<rparr>) = V s"
    and V_audit: "V s \<Longrightarrow> V (s\<lparr>security_events := security_events s @ [g]\<rparr>)"
begin

lemmas V_tables = V_runs V_receipts V_contexts

lemma V_run_update:
  assumes "update_run env i f s = Inr s'" and "V s"
  shows "V s'"
proof (cases "s' = s")
  case False
  then obtain r where s': "s' = s\<lparr>agent_runs := sql_update (\<lambda>x. r_id x = i) f (agent_runs s),
      run_tasks := sync_goal_task env r (f r) (run_tasks s),
      retrieval_contexts := clear_retrieval_context r (f r) (retrieval_contexts s)\<rparr>"
    using assms(1) by (auto simp: update_run_Inr)
  have "V (s\<lparr>agent_runs := sql_update (\<lambda>x. r_id x = i) f (agent_runs s)\<rparr>)" using assms(2) by (simp add: V_tables)
  from V_goal[OF this, of env r "f r"] show ?thesis unfolding s' by (simp add: V_tables)
qed (use assms(2) in simp)

lemma V_insert_run: "insert_run r s = Inr s' \<Longrightarrow> V s \<Longrightarrow> V s'"
  by (auto simp: insert_run_def V_tables split: if_splits)

lemma V_insert_outbox: "insert_outbox x s = Inr s' \<Longrightarrow> V s \<Longrightarrow> V s'"
  by (auto simp: insert_outbox_def V_enqueue split: if_splits)

lemma V_first_event: "insert_first_event env ws i ty p s = Inr s' \<Longrightarrow> V s \<Longrightarrow> V s'"
  by (auto simp: insert_first_event_def V_journal split: if_splits)

lemma V_event: "V s \<Longrightarrow> V (append_run_event env ws i ty p s)"
  by (simp add: append_run_event_def V_journal)

lemma V_log: "V s \<Longrightarrow> V (audit pr ws a req x s)"
  by (simp add: audit_def V_audit)

lemma V_update_receipts: "V (update_receipts p f s) = V s"
  by (simp add: update_receipts_def V_tables)

lemma V_receipt_done: "V (receipt_done env job st e s) = V s"
  by (simp add: receipt_done_def V_update_receipts)

lemma V_terminal_receipt: "V (terminal_receipt env job st w s) = V s"
  by (simp add: terminal_receipt_def V_tables)

lemma V_processing_receipt: "V (processing_receipt env job w l s) = V s"
  by (simp add: processing_receipt_def V_tables)

lemmas V_simps = V_tables V_event V_log V_update_receipts V_receipt_done V_terminal_receipt V_processing_receipt
lemmas V_dests = V_run_update V_insert_run V_insert_outbox V_first_event

lemma V_cancel_locked: "cancel_locked env run job w s = Inr s' \<Longrightarrow> V s \<Longrightarrow> V s'"
  by (auto simp: cancel_locked_def V_simps split: if_splits dest!: V_dests)

lemma V_claim_recover: "claim_recover env run s = Inr s' \<Longrightarrow> V s \<Longrightarrow> V s'"
  by (auto simp: claim_recover_def Let_def V_simps dest!: V_dests)

lemma V_claim_start: "claim_start env job run prof agent w lease s = Inr (x, s') \<Longrightarrow> V s \<Longrightarrow> V s'"
  by (auto simp: claim_start_def Let_def V_simps dest!: V_dests)

lemma V_claim: "claim env job w lease s = Inr (x, s') \<Longrightarrow> V s \<Longrightarrow> V s'"
  by (erule claim_cases) (auto simp: V_simps dest!: V_cancel_locked V_claim_recover V_claim_start split: if_splits)

lemma V_renew_lease: "renew_lease env jid rid w lease s = Inr (x, s') \<Longrightarrow> V s \<Longrightarrow> V s'"
  by (auto simp: renew_lease_def Let_def V_simps)

lemma V_wait: "wait_for_approval env job w cid aid s = Inr (x, s') \<Longrightarrow> V s \<Longrightarrow> V s'"
  by (auto simp: wait_for_approval_def V_simps split: option.splits if_splits dest!: V_dests V_cancel_locked)

lemma V_success: "complete_success env job w s = Inr (x, s') \<Longrightarrow> V s \<Longrightarrow> V s'"
  by (auto simp: complete_success_def V_simps split: option.splits if_splits dest!: V_dests V_cancel_locked)

lemma V_retry: "schedule_retry env job run code s = Inr (x, s') \<Longrightarrow> V s \<Longrightarrow> V s'"
  by (auto simp: schedule_retry_def Let_def V_simps dest!: V_dests)

lemma V_fail: "fail_run env job run code s = Inr (x, s') \<Longrightarrow> V s \<Longrightarrow> V s'"
  by (auto simp: fail_run_def V_simps dest!: V_dests)

lemma V_failure: "complete_failure env job w code r s = Inr (x, s') \<Longrightarrow> V s \<Longrightarrow> V s'"
  by (auto simp: complete_failure_def V_simps split: option.splits if_splits
      dest!: V_cancel_locked V_retry V_fail)

lemma V_recover_one: "recover_one env k run s = Inr s' \<Longrightarrow> V s \<Longrightarrow> V s'"
  by (auto simp: recover_one_def Let_def V_simps dest!: V_dests)

lemma V_requeue_orphan: "requeue_orphan env k run s = Inr s' \<Longrightarrow> V s \<Longrightarrow> V s'"
  by (auto simp: requeue_orphan_def V_simps dest!: V_dests)

lemma V_each_row:
  assumes "\<And>k r s s'. f k r s = Inr s' \<Longrightarrow> V s \<Longrightarrow> V s'" and "each_row f k rs s = Inr s'" and "V s"
  shows "V s'"
  using assms(2,3) by (induction rs arbitrary: k s) (auto dest: assms(1))

lemma V_recover_rows: "each_row (recover_one env) k rs s = Inr s' \<Longrightarrow> V s \<Longrightarrow> V s'"
  by (rule V_each_row[OF V_recover_one])

lemma V_orphan_rows: "each_row (requeue_orphan env) k rs s = Inr s' \<Longrightarrow> V s \<Longrightarrow> V s'"
  by (rule V_each_row[OF V_requeue_orphan])

lemma V_recover: "recover_stale env locked limit secs s = Inr (n, s') \<Longrightarrow> V s \<Longrightarrow> V s'"
  by (auto simp: recover_stale_def Let_def split: if_splits
      dest!: V_recover_rows V_orphan_rows)

lemma V_publish:
  assumes "run_inv s" and "publish_batch env locked xadd limit s = Inr (n, s')" and "V s"
  shows "V s'"
  using V_relay[OF assms(3) publish_batch_fields[OF run_invD(3)[OF assms(1)] assms(2)]]
    publish_batch_map(2)[OF run_invD(3)[OF assms(1)] assms(2)] by simp

lemma V_create_run: "create_run env pr ws agent inp key req s = Inr (x, s') \<Longrightarrow> V s \<Longrightarrow> V s'"
  by (auto simp: create_run_def Let_def V_simps split: if_splits option.splits dest!: V_dests)

end

section \<open>Properties that read no tool table either\<close>

locale tool_frame = run_frame +
  assumes V_definitions: "V (s\<lparr>tool_definitions := a'\<rparr>) = V s"
    and V_policies: "V (s\<lparr>tool_policies := b'\<rparr>) = V s"
    and V_calls: "V (s\<lparr>tool_calls := c'\<rparr>) = V s"
    and V_approvals: "V (s\<lparr>tool_approvals := d'\<rparr>) = V s"
begin

lemmas V_tool_tables = V_definitions V_policies V_calls V_approvals

lemma V_update_calls: "update_calls p f s = Inr s' \<Longrightarrow> V s \<Longrightarrow> V s'"
  by (auto simp: update_calls_Inr V_tool_tables)

lemma V_update_approvals: "update_approvals p f s = Inr s' \<Longrightarrow> V s \<Longrightarrow> V s'"
  by (auto simp: update_approvals_Inr V_tool_tables)

lemma V_insert_call: "insert_call c s = Inr s' \<Longrightarrow> V s \<Longrightarrow> V s'"
  by (auto simp: insert_call_Inr V_tool_tables)

lemma V_insert_approval: "insert_approval a s = Inr s' \<Longrightarrow> V s \<Longrightarrow> V s'"
  by (auto simp: insert_approval_Inr V_tool_tables)

lemmas V_tool_dests = V_update_calls V_update_approvals V_insert_call V_insert_approval V_dests

lemma V_cancel_governed: "cancel_governed_run env run ev p s = Inr s' \<Longrightarrow> V s \<Longrightarrow> V s'"
  by (auto simp: cancel_governed_run_def V_simps dest!: V_tool_dests)

lemma V_cancel_approval: "cancel_approval env a st ev s = Inr s' \<Longrightarrow> V s \<Longrightarrow> V s'"
  by (auto simp: cancel_approval_def split: option.splits if_splits dest!: V_tool_dests V_cancel_governed)

lemma V_cancel_approvals: "cancel_approvals env as st ev s = Inr s' \<Longrightarrow> V s \<Longrightarrow> V s'"
  by (induction as arbitrary: s) (auto dest: V_cancel_approval)

lemma V_expire: "expire_due env locked limit s = Inr (n, s') \<Longrightarrow> V s \<Longrightarrow> V s'"
  by (auto simp: expire_due_def Let_def split: if_splits dest!: V_cancel_approvals)

lemma V_list_approvals: "list_approvals env locked pr ws n c st s = Inr (x, s') \<Longrightarrow> V s \<Longrightarrow> V s'"
  by (auto simp: list_approvals_def dest!: V_cancel_approvals)

lemma V_upsert_tool: "upsert_tool env pr ws name b req s = Inr (x, s') \<Longrightarrow> V s \<Longrightarrow> V s'"
  by (auto simp: upsert_tool_def Let_def V_simps V_tool_tables split: if_splits option.splits)

lemma V_set_policy: "set_policy env pr ws name d reason req s = Inr (x, s') \<Longrightarrow> V s \<Longrightarrow> V s'"
  by (auto simp: set_policy_def Let_def V_simps V_tool_tables split: option.splits)

lemma V_reread: "reread_approval i s = Inr (x, s') \<Longrightarrow> s' = s"
  by (auto simp: reread_approval_def split: option.splits)

lemma V_invalidate: "invalidate_approval env a s = Inr (x, s') \<Longrightarrow> V s \<Longrightarrow> V s'"
  by (auto simp: invalidate_approval_def dest!: V_cancel_approval V_reread)

lemma V_reject: "reject_approval env pr ws req a run s = Inr (x, s') \<Longrightarrow> V s \<Longrightarrow> V s'"
  by (auto simp: reject_approval_def V_simps dest!: V_tool_dests V_cancel_governed V_reread)

lemma V_accept: "accept_approval env pr ws req a run s = Inr (x, s') \<Longrightarrow> V s \<Longrightarrow> V s'"
  by (auto simp: accept_approval_def Let_def V_simps dest!: V_tool_dests V_reread)

lemma V_decide: "decide_approval env pr ws i decision req s = Inr (x, s') \<Longrightarrow> V s \<Longrightarrow> V s'"
  by (auto simp: decide_approval_def split: option.splits if_splits sum.splits err.splits
      dest!: V_cancel_approval V_reread V_reject V_accept V_invalidate)

lemma V_waiting_tools: "cancel_waiting_tools env i s = Inr s' \<Longrightarrow> V s \<Longrightarrow> V s'"
  by (auto simp: cancel_waiting_tools_def dest!: V_tool_dests)

lemma V_cancel_run:
  assumes "cancel_run env pr ws i req s = Inr (x, s')" and "V s"
  shows "V s'"
  using assms(1)
proof (cases rule: cancel_run_cases)
  case (asked run s1 s2)
  then show ?thesis using V_run_update[OF asked(5) V_waiting_tools[OF asked(4) assms(2)]] by (simp add: V_simps)
next
  case (now run s1 s2)
  then show ?thesis using V_run_update[OF now(4) V_waiting_tools[OF now(3) assms(2)]] by (simp add: V_simps)
qed (use assms(2) V_waiting_tools in auto)

lemma V_create_approval: "create_approval env k run cid t args h reason s = Inr (x, s') \<Longrightarrow> V s \<Longrightarrow> V s'"
  by (auto simp: create_approval_def Let_def V_simps split: option.splits dest!: V_tool_dests)

lemma V_denied_plan: "denied_plan env run key name args code s = Inr (x, s') \<Longrightarrow> V s \<Longrightarrow> V s'"
  by (auto simp: denied_plan_def Let_def V_simps split: option.splits dest!: V_tool_dests)

lemma V_withdraw: "withdraw_call env ctx key name t old s = Inr (x, s') \<Longrightarrow> V s \<Longrightarrow> V s'"
  by (auto simp: withdraw_call_def V_simps split: option.splits if_splits dest!: V_tool_dests)

lemma V_prepare_existing:
  "prepare_existing env ctx run t key name args h ch eff reason old s = Inr (x, s') \<Longrightarrow> V s \<Longrightarrow> V s'"
  by (erule prepare_existing_cases) (auto simp: V_simps dest!: V_tool_dests V_create_approval V_withdraw)

lemma V_prepare_new:
  "prepare_new env ctx run t key name args h ch eff reason s = Inr (x, s') \<Longrightarrow> V s \<Longrightarrow> V s'"
  by (auto simp: prepare_new_def Let_def V_simps split: if_splits dest!: V_tool_dests V_create_approval)

lemma V_prepare: "prepare_call env ctx key name args s = Inr (x, s') \<Longrightarrow> V s \<Longrightarrow> V s'"
  by (auto simp: prepare_call_def split: if_splits option.splits
      dest!: V_denied_plan V_prepare_existing V_prepare_new)

lemma V_mark_running: "mark_running env cid ctx s = Inr (x, s') \<Longrightarrow> V s \<Longrightarrow> V s'"
  by (erule mark_running_cases) (auto simp: V_simps dest!: V_tool_dests)

lemma V_tool_success: "tool_complete_success env cid v ctx s = Inr (x, s') \<Longrightarrow> V s \<Longrightarrow> V s'"
  by (erule tool_complete_success_cases) (auto simp: V_simps dest!: V_tool_dests)

lemma V_tool_failure: "tool_complete_failure env cid code r ctx s = Inr (x, s') \<Longrightarrow> V s \<Longrightarrow> V s'"
  by (erule tool_complete_failure_cases) (auto simp: V_simps dest!: V_tool_dests)

end

section \<open>The invariants of the components\<close>

interpretation governed_frame: run_frame governed
  by unfold_locales (simp_all add: governed_def approval_status_of_def approval_for_call_def)

interpretation ledger_frame: tool_frame ledger_ok
  by unfold_locales (simp_all add: ledger_ok_def)

lemma known_job_iff: "known_job j r s \<longleftrightarrow> (j, r) \<in> set (map (\<lambda>x. (o_id x, o_run x)) (outbox s))"
  by (auto simp: known_job_def)

interpretation job_frame: tool_frame "known_job j r" for j r
  by unfold_locales (auto simp: known_job_iff)

end
