(* ===== verification/Task_Safety.thy ===== *)
theory Task_Safety
  imports Run_Tasks Frames
begin

text \<open>
  The invariant of the task graph: a task depends only on older tasks of its own run, a follow-up is
  closed by one piece of evidence and only after everything it depends on succeeded. Both operations
  of the repository keep it, and so does every transaction of the other components.
\<close>

section \<open>Order of insertion\<close>

definition precedes :: "'a list \<Rightarrow> 'a \<Rightarrow> 'a \<Rightarrow> bool" where
  "precedes xs a b \<longleftrightarrow> (\<exists>us vs. xs = us @ b # vs \<and> a \<in> set us)"

lemma precedes_append: "precedes xs a b \<Longrightarrow> precedes (xs @ ys) a b"
  unfolding precedes_def by (metis append_Cons append_assoc)

lemma precedes_snoc: "a \<in> set xs \<Longrightarrow> precedes (xs @ [b]) a b"
  by (auto simp: precedes_def)

lemma precedes_mem: "precedes xs a b \<Longrightarrow> a \<in> set xs \<and> b \<in> set xs"
  by (auto simp: precedes_def)

definition place :: "'a list \<Rightarrow> 'a \<Rightarrow> nat" where
  "place xs a = length (takeWhile (\<lambda>x. x \<noteq> a) xs)"

lemma precedes_place:
  assumes "distinct xs" and "precedes xs a b"
  shows "place xs a < place xs b"
proof -
  obtain us vs where xs: "xs = us @ b # vs" and a: "a \<in> set us" using assms(2) by (auto simp: precedes_def)
  have "place xs b = length us"
    using assms(1) by (auto simp: place_def xs takeWhile_append)
  moreover obtain u1 u2 where "us = u1 @ a # u2" "a \<notin> set u1" using split_list_first[OF a] by blast
  then have "place xs a < length us" by (auto simp: place_def xs takeWhile_append)
  ultimately show ?thesis by simp
qed

lemma precedes_acyclic:
  assumes "distinct xs" and "\<And>a b. (a, b) \<in> r \<Longrightarrow> precedes xs a b"
  shows "acyclic r"
proof (rule wf_acyclic, rule wf_subset[OF wf_measure])
  show "r \<subseteq> measure (place xs)" using precedes_place[OF assms(1)] assms(2) by auto
qed

section \<open>The invariant\<close>

definition task_kept :: "task_row \<Rightarrow> task_row \<Rightarrow> bool" where
  "task_kept k k' \<longleftrightarrow> k_id k' = k_id k \<and> k_run k' = k_run k \<and> k_kind k' = k_kind k \<and>
     (k_kind k = FollowUpTask \<longrightarrow> k_status k' = k_status k)"

definition task_edges :: "db \<Rightarrow> (uuid \<times> uuid) set" where
  "task_edges s = (\<lambda>d. (kd_depends_on d, kd_task d)) ` set (task_dependencies s)"

definition closed_by :: "task_evidence_row \<Rightarrow> task_row \<Rightarrow> bool" where
  "closed_by e k \<longleftrightarrow> k_id k = ke_task e \<and> k_run k = ke_run e \<and> k_kind k = FollowUpTask \<and>
     k_status k = (if ke_satisfied e then TSucceeded else TFailed)"

text \<open>Everything a closed follow-up depends on that is itself a follow-up succeeded.\<close>

definition supported :: "task_row list \<Rightarrow> (uuid \<times> uuid) set \<Rightarrow> task_row \<Rightarrow> bool" where
  "supported ts E k \<longleftrightarrow>
    (\<forall>t \<in> set ts. (k_id t, k_id k) \<in> E \<longrightarrow> k_kind t = FollowUpTask \<longrightarrow> k_status t = TSucceeded)"

definition tasks_ok :: "db \<Rightarrow> bool" where
  "tasks_ok s \<longleftrightarrow> distinct (map k_id (run_tasks s)) \<and>
     (\<forall>(a, b) \<in> task_edges s. precedes (map k_id (run_tasks s)) a b) \<and>
     (\<forall>(a, b) \<in> task_edges s. \<forall>k \<in> set (run_tasks s). \<forall>t \<in> set (run_tasks s).
        k_id k = b \<longrightarrow> k_id t = a \<longrightarrow> k_run t = k_run k) \<and>
     distinct (map ke_task (task_evidence s)) \<and>
     (\<forall>e \<in> set (task_evidence s). \<exists>k \<in> set (run_tasks s). closed_by e k) \<and>
     (\<forall>k \<in> set (run_tasks s). k_kind k = FollowUpTask \<longrightarrow> k_status k = TPlanned \<or>
        (\<exists>e \<in> set (task_evidence s). closed_by e k) \<and> supported (run_tasks s) (task_edges s) k)"

lemma tasks_okD:
  assumes "tasks_ok s"
  shows "distinct (map k_id (run_tasks s))"
    and "(a, b) \<in> task_edges s \<Longrightarrow> precedes (map k_id (run_tasks s)) a b"
    and "(a, b) \<in> task_edges s \<Longrightarrow> k \<in> set (run_tasks s) \<Longrightarrow> t \<in> set (run_tasks s) \<Longrightarrow> k_id k = b \<Longrightarrow>
      k_id t = a \<Longrightarrow> k_run t = k_run k"
    and "distinct (map ke_task (task_evidence s))"
    and "e \<in> set (task_evidence s) \<Longrightarrow> \<exists>k \<in> set (run_tasks s). closed_by e k"
    and "k \<in> set (run_tasks s) \<Longrightarrow> k_kind k = FollowUpTask \<Longrightarrow> k_status k = TPlanned \<or>
      (\<exists>e \<in> set (task_evidence s). closed_by e k) \<and> supported (run_tasks s) (task_edges s) k"
  using assms unfolding tasks_ok_def by blast+

lemma tasks_ok_empty: "tasks_ok empty_db"
  by (simp add: tasks_ok_def empty_db_def task_edges_def)

lemma tasks_ok_cong:
  assumes "run_tasks s' = run_tasks s" "task_dependencies s' = task_dependencies s" "task_evidence s' = task_evidence s"
  shows "tasks_ok s' = tasks_ok s"
  unfolding tasks_ok_def task_edges_def assms by (rule refl)

lemma task_by_id:
  assumes "tasks_ok s" and "k \<in> set (run_tasks s)" and "t \<in> set (run_tasks s)" and "k_id k = k_id t"
  shows "k = t"
  using tasks_okD(1)[OF assms(1)] assms(2-4) by (auto simp: distinct_map inj_on_def)

section \<open>The goal follows its run\<close>

lemma tasks_kept_map:
  assumes ok: "tasks_ok s" and kept: "\<And>k. k \<in> set (run_tasks s) \<Longrightarrow> task_kept k (f k)"
  shows "tasks_ok (s\<lparr>run_tasks := map f (run_tasks s)\<rparr>)"
proof -
  let ?ts = "run_tasks s"
  have ids: "map k_id (map f ?ts) = map k_id ?ts" using kept by (auto simp: task_kept_def)
  have supp: "supported (map f ?ts) (task_edges s) (f k)" if "k \<in> set ?ts" "supported ?ts (task_edges s) k" for k
    using that kept by (auto simp: supported_def task_kept_def)
  have closed: "closed_by e (f k)" if "k \<in> set ?ts" "closed_by e k" for e k
    using that kept[of k] by (auto simp: closed_by_def task_kept_def)
  have edges: "task_edges (s\<lparr>run_tasks := map f ?ts\<rparr>) = task_edges s" by (simp add: task_edges_def)
  have "\<forall>(a, b) \<in> task_edges s. \<forall>k \<in> set (map f ?ts). \<forall>t \<in> set (map f ?ts).
      k_id k = b \<longrightarrow> k_id t = a \<longrightarrow> k_run t = k_run k"
    using tasks_okD(3)[OF ok] kept by (fastforce simp: task_kept_def)
  moreover have "\<exists>k \<in> set (map f ?ts). closed_by e k" if "e \<in> set (task_evidence s)" for e
    using tasks_okD(5)[OF ok that] closed by auto
  moreover have "k_status k = TPlanned \<or> (\<exists>e \<in> set (task_evidence s). closed_by e k) \<and>
      supported (map f ?ts) (task_edges s) k" if k: "k \<in> set (map f ?ts)" "k_kind k = FollowUpTask" for k
  proof -
    obtain k0 where k0: "k0 \<in> set ?ts" "k = f k0" using k(1) by auto
    have "k_kind k0 = FollowUpTask" "k_status k = k_status k0" using kept[OF k0(1)] k(2) k0(2) by (auto simp: task_kept_def)
    with tasks_okD(6)[OF ok k0(1)] supp[OF k0(1)] closed[OF k0(1)] show ?thesis unfolding k0(2) by auto
  qed
  moreover have edges_old: "\<forall>(a, b) \<in> task_edges s. precedes (map k_id ?ts) a b"
    using tasks_okD(2)[OF ok] by blast
  ultimately show ?thesis
    using tasks_okD(1,4)[OF ok] edges_old unfolding tasks_ok_def edges by (simp add: ids del: map_map)
qed

lemma tasks_kept_update:
  assumes "tasks_ok s" and "\<And>k. k \<in> set (run_tasks s) \<Longrightarrow> p k \<Longrightarrow> task_kept k (f k)"
  shows "tasks_ok (s\<lparr>run_tasks := sql_update p f (run_tasks s)\<rparr>)"
  unfolding sql_update_def using assms by (intro tasks_kept_map) (auto simp: task_kept_def)

lemma sync_goal_task_ok:
  assumes "tasks_ok s"
  shows "tasks_ok (s\<lparr>run_tasks := sync_goal_task env r r' (run_tasks s)\<rparr>)"
proof (cases "r_status r' = r_status r")
  case True
  with assms show ?thesis by (simp add: sync_goal_task_def)
next
  case False
  have "tasks_ok (s\<lparr>run_tasks := sql_update (\<lambda>k. k_id k = r_id r' \<and> k_run k = r_id r' \<and> k_kind k = GoalTask)
      (\<lambda>k. k\<lparr>k_status := goal_status (r_status r'),
             k_completed := (if terminal (r_status r') then r_finished r' else None),
             k_updated := tx_now env\<rparr>) (run_tasks s)\<rparr>)"
    by (rule tasks_kept_update[OF assms]) (simp add: task_kept_def)
  with False show ?thesis by (simp add: sync_goal_task_def)
qed

section \<open>A new task\<close>

lemma insert_task_ok:
  assumes ok: "tasks_ok s" and ins: "insert_task k s = Inr s'" and new: "k_kind k = FollowUpTask \<Longrightarrow> k_status k = TPlanned"
  shows "tasks_ok s'" "s' = s\<lparr>run_tasks := run_tasks s @ [k]\<rparr>" "k_id k \<notin> set (map k_id (run_tasks s))"
proof -
  show s': "s' = s\<lparr>run_tasks := run_tasks s @ [k]\<rparr>" and fresh: "k_id k \<notin> set (map k_id (run_tasks s))"
    using ins by (auto simp: insert_task_def sql_exists_iff split: if_splits)
  have noedge: "(a, b) \<in> task_edges s \<Longrightarrow> a \<noteq> k_id k \<and> b \<noteq> k_id k" for a b
    using precedes_mem[OF tasks_okD(2)[OF ok]] fresh by blast
  have "supported (run_tasks s @ [k]) (task_edges s) t = supported (run_tasks s) (task_edges s) t" for t
    using noedge by (auto simp: supported_def)
  with ok new fresh noedge show "tasks_ok s'"
    unfolding tasks_ok_def s' task_edges_def[of "s\<lparr>run_tasks := x\<rparr>" for x]
    by (auto simp: task_edges_def[symmetric] intro: precedes_append)
qed

lemma insert_dependency_Inr:
  "insert_dependency d s = Inr s' \<Longrightarrow> s' = s\<lparr>task_dependencies := task_dependencies s @ [d]\<rparr>"
  by (auto simp: insert_dependency_def split: if_splits)

lemma insert_dependencies_Inr:
  "insert_dependencies ws run k ds s = Inr s' \<Longrightarrow>
    s' = s\<lparr>task_dependencies := task_dependencies s @
      map (\<lambda>d. \<lparr>kd_workspace = ws, kd_run = run, kd_task = k, kd_depends_on = d\<rparr>) ds\<rparr>"
proof (induction ds arbitrary: s)
  case (Cons d ds)
  then obtain s1 where "insert_dependency \<lparr>kd_workspace = ws, kd_run = run, kd_task = k, kd_depends_on = d\<rparr> s = Inr s1"
    "insert_dependencies ws run k ds s1 = Inr s'" by auto
  from insert_dependency_Inr[OF this(1)] Cons.IH[OF this(2)] show ?case by simp
qed simp

text \<open>A planned follow-up may depend on any older tasks of its run.\<close>

lemma add_dependencies_ok:
  assumes ok: "tasks_ok s" and k: "k \<in> set (run_tasks s)" "k_kind k = FollowUpTask" "k_status k = TPlanned"
    and older: "\<And>d. d \<in> set ds \<Longrightarrow> precedes (map k_id (run_tasks s)) d (k_id k)"
    and same: "\<And>d t. d \<in> set ds \<Longrightarrow> t \<in> set (run_tasks s) \<Longrightarrow> k_id t = d \<Longrightarrow> k_run t = k_run k"
  shows "tasks_ok (s\<lparr>task_dependencies := task_dependencies s @
    map (\<lambda>d. \<lparr>kd_workspace = ws, kd_run = run, kd_task = k_id k, kd_depends_on = d\<rparr>) ds\<rparr>)" (is "tasks_ok ?s")
proof -
  have edges: "task_edges ?s = task_edges s \<union> (\<lambda>d. (d, k_id k)) ` set ds"
    by (auto simp: task_edges_def image_Un image_image)
  have prec: "\<forall>(a, b) \<in> task_edges ?s. precedes (map k_id (run_tasks s)) a b"
    unfolding edges using tasks_okD(2)[OF ok] older by auto
  have runs: "\<forall>(a, b) \<in> task_edges ?s. \<forall>u \<in> set (run_tasks s). \<forall>t \<in> set (run_tasks s).
      k_id u = b \<longrightarrow> k_id t = a \<longrightarrow> k_run t = k_run u"
    unfolding edges using tasks_okD(3)[OF ok] same by (auto dest: task_by_id[OF ok _ k(1)])
  have supp: "supported (run_tasks s) (task_edges ?s) t"
    if "supported (run_tasks s) (task_edges s) t" "k_id t \<noteq> k_id k" for t
    using that unfolding edges supported_def by auto
  have "k_status t = TPlanned \<or> (\<exists>e \<in> set (task_evidence s). closed_by e t) \<and> supported (run_tasks s) (task_edges ?s) t"
    if t: "t \<in> set (run_tasks s)" "k_kind t = FollowUpTask" for t
  proof (cases "k_id t = k_id k")
    case True
    then show ?thesis using task_by_id[OF ok t(1) k(1)] k(3) by simp
  next
    case False
    then show ?thesis using tasks_okD(6)[OF ok t] supp by blast
  qed
  with prec runs tasks_okD(1,4,5)[OF ok] show ?thesis unfolding tasks_ok_def by simp
qed

lemma dependencies_okD:
  assumes "dependencies_ok ctx deps s" and "d \<in> set deps"
  shows "\<exists>t \<in> set (run_tasks s). k_id t = d \<and> k_run t = x_run ctx"
proof -
  have "d \<in> set (map k_id (filter (\<lambda>k. k_workspace k = x_workspace ctx \<and> k_run k = x_run ctx \<and> k_id k \<in> set deps)
      (run_tasks s)))"
    using assms unfolding dependencies_ok_def by simp
  then show ?thesis by auto
qed

lemma plan_follow_up_cases:
  assumes "plan_follow_up env ctx title description action key deps s = Inr (v, s')"
  obtains (replayed) k where "find_task_key (x_run ctx) key s = Some k" "s' = s"
      "v = JObj (task_answer (k_id k) (k_status k) (k_verification k))"
      "k_request_hash k = task_request_hash title description action deps"
  | (planned) goal k s1 s2 where "executable_run env 0 ctx s \<noteq> Inl (ToolContractError ''execution_fenced'')"
      "find_task_key (x_run ctx) key s = None" "find_goal ctx s = Some goal"
      "action_tool_ok ctx action s = Inr ()" "deps = [] \<or> dependencies_ok ctx deps s"
      "k = new_follow_up env ctx (k_id goal) title description action key (task_request_hash title description action deps)"
      "insert_task k s = Inr s1"
      "insert_dependencies (x_workspace ctx) (x_run ctx) (k_id k) deps s1 = Inr s2"
      "s' = append_run_event env (x_workspace ctx) (x_run ctx) ''task.created''
         [(''task_id'', JStr (uuid_str (k_id k))), (''parent_task_id'', JStr (uuid_str (k_id goal))),
          (''action_tool'', case action of None \<Rightarrow> JNull | Some a \<Rightarrow> JStr a)] s2"
      "v = JObj (task_answer (k_id k) TPlanned (k_verification k))"
  using assms unfolding plan_follow_up_def Let_def
  by (auto split: option.splits if_splits)

lemma plan_follow_up_ok:
  assumes ok: "tasks_ok s" and p: "plan_follow_up env ctx title description action key deps s = Inr (v, s')"
  shows "tasks_ok s'"
  using p
proof (cases rule: plan_follow_up_cases)
  case replayed
  with ok show ?thesis by simp
next
  case (planned goal k s1 s2)
  have kk: "k_kind k = FollowUpTask" "k_status k = TPlanned" "k_run k = x_run ctx"
    unfolding planned(6) by (simp_all add: new_follow_up_def)
  note i = insert_task_ok[OF ok planned(7) kk(2)]
  have old: "\<exists>t \<in> set (run_tasks s). k_id t = d \<and> k_run t = k_run k" if "d \<in> set deps" for d
    using planned(5) that dependencies_okD[of ctx deps s d] kk(3) by auto
  have "tasks_ok s2"
    unfolding insert_dependencies_Inr[OF planned(8)]
  proof (rule add_dependencies_ok[OF i(1) _ kk(1,2)])
    show "k \<in> set (run_tasks s1)" by (simp add: i(2))
    fix d assume "d \<in> set deps"
    from old[OF this] obtain t where t: "t \<in> set (run_tasks s)" "k_id t = d" "k_run t = k_run k" by blast
    then show "precedes (map k_id (run_tasks s1)) d (k_id k)"
      unfolding i(2) using precedes_snoc[of d "map k_id (run_tasks s)" "k_id k"] by auto
    fix u assume "u \<in> set (run_tasks s1)" "k_id u = d"
    moreover have "t \<in> set (run_tasks s1)" by (simp add: i(2) t(1))
    ultimately have "u = t" using task_by_id[OF i(1)] t(2) by blast
    then show "k_run u = k_run k" using t(3) by simp
  qed
  then show ?thesis
    unfolding planned(9) by (subst tasks_ok_cong[of _ s2]) simp_all
qed

lemma create_follow_up_args:
  assumes "create_follow_up env ctx args s = Inr (v, s')"
  shows "\<exists>deps. distinct deps \<and> (\<forall>env s. create_follow_up env ctx args s =
    plan_follow_up env ctx (strip (text_arg args ''title'')) (strip (text_arg args ''description''))
       (action_arg args) (text_arg args ''idempotency_key'') deps s)"
proof (cases "map_of args ''depends_on''")
  case None
  then show ?thesis by (intro exI[of _ "[]"]) (simp add: create_follow_up_def)
next
  case (Some j)
  then show ?thesis using assms by (cases j) (auto simp: create_follow_up_def split: if_splits)
qed

lemma create_follow_up_plan:
  assumes "create_follow_up env ctx args s = Inr (v, s')"
  shows "\<exists>deps. distinct deps \<and>
    plan_follow_up env ctx (strip (text_arg args ''title'')) (strip (text_arg args ''description''))
       (action_arg args) (text_arg args ''idempotency_key'') deps s = Inr (v, s')"
  using create_follow_up_args[OF assms] assms by auto

section \<open>Evidence\<close>

lemma verify_task_cases:
  assumes "verify_task env ctx i tool note ok key s = Inr (v, s')"
  obtains (replayed) e k where "find_evidence_key (x_run ctx) key s = Some e" "ke_task e = i" "ke_satisfied e = ok"
      "find_task i s = Some k" "s' = s"
  | (recorded) k action since name c run where "executable_run env 0 ctx s = Inr run"
      "find_evidence_key (x_run ctx) key s = None"
      "find_follow_up ctx i s = Some k" "k_status k \<notin> {TSucceeded, TFailed, TCancelled}"
      "\<not> incomplete_dependency i s" "observed_action ctx k s = Inr (action, since)"
      "internal_tool ctx tool = Inr name" "latest_call ctx name (\<lambda>e. e = ReadEffect) since s = Some c"
      "record_evidence env ctx i tool note ok key action (c_id c) s = Inr (v, s')"
  using assms unfolding verify_task_def
  by (auto split: option.splits if_splits)

lemma record_evidence_Inr:
  assumes "record_evidence env ctx i tool note ok key action call s = Inr (v, s')"
  shows "\<exists>e. ke_task e = i \<and> ke_satisfied e = ok \<and> ke_run e = x_run ctx \<and> ke_verification_call e = call \<and>
    ke_action_call e = action \<and> run_tasks s' = sql_update (\<lambda>k. k_id k = i) (close_task env ok) (run_tasks s) \<and>
    task_dependencies s' = task_dependencies s \<and> task_evidence s' = task_evidence s @ [e]"
  using assms unfolding record_evidence_def insert_evidence_def
  by (auto simp: Let_def split: if_splits)

lemma close_task_ids [simp]:
  "k_id (close_task env b k) = k_id k" "k_run (close_task env b k) = k_run k"
  "k_kind (close_task env b k) = k_kind k"
  "k_status (close_task env b k) = (if b then TSucceeded else TFailed)"
  by (simp_all add: close_task_def)

text \<open>The task that is closed was planned, and nothing that is closed depends on it.\<close>

lemma close_task_ok:
  assumes ok: "tasks_ok s" and k: "k \<in> set (run_tasks s)" "k_kind k = FollowUpTask" "k_status k \<noteq> TSucceeded"
      "k_status k \<noteq> TFailed" and deps: "\<not> incomplete_dependency (k_id k) s"
    and e: "ke_task e = k_id k" "ke_run e = k_run k"
    and s': "run_tasks s' = sql_update (\<lambda>t. k_id t = k_id k) (close_task env (ke_satisfied e)) (run_tasks s)"
      "task_dependencies s' = task_dependencies s" "task_evidence s' = task_evidence s @ [e]"
  shows "tasks_ok s'"
proof -
  let ?f = "\<lambda>t. if k_id t = k_id k then close_task env (ke_satisfied e) t else t"
  have ts: "run_tasks s' = map ?f (run_tasks s)" by (simp add: s'(1) sql_update_def)
  have edges: "task_edges s' = task_edges s" by (simp add: task_edges_def s'(2))
  have ids: "k_id (?f t) = k_id t" "k_run (?f t) = k_run t" "k_kind (?f t) = k_kind t" for t
    by (simp_all add: close_task_def)
  have mids: "map k_id (run_tasks s') = map k_id (run_tasks s)" by (simp add: ts ids comp_def)
  have me: "t = k" if "t \<in> set (run_tasks s)" "k_id t = k_id k" for t using task_by_id[OF ok that(1) k(1) that(2)] .
  have noev: "ke_task x \<noteq> k_id k" if xe: "x \<in> set (task_evidence s)" for x
  proof
    assume x: "ke_task x = k_id k"
    obtain t where t: "t \<in> set (run_tasks s)" "closed_by x t" using tasks_okD(5)[OF ok xe] by blast
    with x me[of t] have "closed_by x k" by (simp add: closed_by_def)
    with k(3,4) show False by (simp add: closed_by_def split: if_splits)
  qed
  have mine: "closed_by e (?f k)" using e k(2) by (simp add: closed_by_def close_task_def)
  have others: "closed_by x (?f t)" if "closed_by x t" "x \<in> set (task_evidence s)" for x t
    using that noev[OF that(2)] by (auto simp: closed_by_def)
  have done_deps: "k_status t = TSucceeded" if "t \<in> set (run_tasks s)" "(k_id t, k_id k) \<in> task_edges s" for t
    using deps that by (auto simp: incomplete_dependency_def sql_exists_iff task_edges_def)
  have supp_k: "supported (run_tasks s') (task_edges s) (?f k)"
    unfolding supported_def ts using done_deps k(3) done_deps[OF k(1)] by auto
  have supp: "supported (run_tasks s') (task_edges s) (?f t)" if "t \<in> set (run_tasks s)" "supported (run_tasks s) (task_edges s) t"
      "k_kind t = FollowUpTask" for t
    using that k me unfolding supported_def ts ids by auto
  have row: "k_status (?f t) = TPlanned \<or> (\<exists>x \<in> set (task_evidence s'). closed_by x (?f t)) \<and>
      supported (run_tasks s') (task_edges s) (?f t)" if t: "t \<in> set (run_tasks s)" "k_kind t = FollowUpTask" for t
  proof (cases "k_id t = k_id k")
    case True
    with me[OF t(1)] mine supp_k show ?thesis by (simp add: s'(3))
  next
    case False
    with tasks_okD(6)[OF ok t] others supp[OF t(1) _ t(2)] show ?thesis by (auto simp: s'(3))
  qed
  have ev: "\<exists>t \<in> set (run_tasks s'). closed_by x t" if "x \<in> set (task_evidence s')" for x
  proof (cases "x = e")
    case True
    with mine k(1) show ?thesis unfolding ts by auto
  next
    case False
    then have x: "x \<in> set (task_evidence s)" using that by (simp add: s'(3))
    obtain t where "t \<in> set (run_tasks s)" "closed_by x t" using tasks_okD(5)[OF ok x] by blast
    then show ?thesis using others[OF _ x] unfolding ts set_map by blast
  qed
  have runs: "\<forall>(a, b) \<in> task_edges s. \<forall>u \<in> set (run_tasks s'). \<forall>t \<in> set (run_tasks s').
      k_id u = b \<longrightarrow> k_id t = a \<longrightarrow> k_run t = k_run u"
  proof -
    have "k_run (?f t) = k_run (?f u)" if "(a, b) \<in> task_edges s" "u \<in> set (run_tasks s)" "t \<in> set (run_tasks s)"
        "k_id (?f u) = b" "k_id (?f t) = a" for a b u t
      using tasks_okD(3)[OF ok that(1-3)] that(4,5) unfolding ids by blast
    then show ?thesis unfolding ts set_map by blast
  qed
  have rows: "\<forall>t \<in> set (run_tasks s'). k_kind t = FollowUpTask \<longrightarrow> k_status t = TPlanned \<or>
      (\<exists>x \<in> set (task_evidence s'). closed_by x t) \<and> supported (run_tasks s') (task_edges s') t"
  proof -
    have "k_kind (?f t) = FollowUpTask \<longrightarrow> k_status (?f t) = TPlanned \<or>
        (\<exists>x \<in> set (task_evidence s'). closed_by x (?f t)) \<and> supported (run_tasks s') (task_edges s) (?f t)"
      if "t \<in> set (run_tasks s)" for t
      using row[OF that] by (simp only: ids) blast
    then show ?thesis unfolding edges by (subst ts) (simp only: set_map ball_simps, blast)
  qed
  have "k_id k \<notin> ke_task ` set (task_evidence s)"
  proof
    assume "k_id k \<in> ke_task ` set (task_evidence s)"
    then obtain x where "x \<in> set (task_evidence s)" "ke_task x = k_id k" by (elim imageE) simp
    from noev[OF this(1)] this(2) show False by (rule notE)
  qed
  then have "distinct (map ke_task (task_evidence s'))"
    using tasks_okD(4)[OF ok] e(1) by (simp add: s'(3))
  moreover have "\<forall>(a, b) \<in> task_edges s'. precedes (map k_id (run_tasks s')) a b"
    unfolding edges mids using tasks_okD(2)[OF ok] by blast
  ultimately show ?thesis
    using tasks_okD(1)[OF ok] ev runs rows unfolding tasks_ok_def mids edges by blast
qed

lemma find_follow_upD:
  assumes "find_follow_up ctx i s = Some k"
  shows "k \<in> set (run_tasks s)" "k_id k = i" "k_run k = x_run ctx" "k_kind k = FollowUpTask"
  using assms by (auto simp: find_follow_up_def dest: find_SomeD)

lemma verify_task_ok:
  assumes ok: "tasks_ok s" and v: "verify_task env ctx i tool note sat key s = Inr (v, s')"
  shows "tasks_ok s'"
  using v
proof (cases rule: verify_task_cases)
  case replayed
  with ok show ?thesis by simp
next
  case (recorded k action since name c run)
  note k = find_follow_upD[OF recorded(3)]
  obtain e where e: "ke_task e = i" "ke_satisfied e = sat" "ke_run e = x_run ctx"
      "run_tasks s' = sql_update (\<lambda>k. k_id k = i) (close_task env sat) (run_tasks s)"
      "task_dependencies s' = task_dependencies s" "task_evidence s' = task_evidence s @ [e]"
    using record_evidence_Inr[OF recorded(9)] by blast
  show ?thesis
    by (rule close_task_ok[OF ok k(1,4), of e]) (use recorded(4,5) k e in simp_all)
qed

lemma verify_arguments:
  assumes "verify env ctx args s = Inr (v, s')"
  shows "\<exists>i ok. map_of args ''satisfied'' = Some (JBool ok) \<and>
    verify_task env ctx i (text_arg args ''verification_tool'') (strip (text_arg args ''summary'')) ok
      (text_arg args ''idempotency_key'') s = Inr (v, s')"
proof (cases "map_of args ''satisfied''")
  case None
  then show ?thesis using assms by (simp add: verify_def)
next
  case (Some j)
  then show ?thesis using assms by (cases j) (auto simp: verify_def)
qed

section \<open>The operations of the adapter, and the other components\<close>

lemma create_follow_up_ok: "tasks_ok s \<Longrightarrow> create_follow_up env ctx args s = Inr (v, s') \<Longrightarrow> tasks_ok s'"
  by (auto dest!: create_follow_up_plan intro: plan_follow_up_ok)

lemma verify_ok: "tasks_ok s \<Longrightarrow> verify env ctx args s = Inr (v, s') \<Longrightarrow> tasks_ok s'"
  by (auto dest!: verify_arguments intro: verify_task_ok)

lemma reply_of_Inr:
  assumes "reply_of r s = Inr (x, s')"
  shows "s' = s \<or> (\<exists>v. r = Inr (v, s'))"
  using assms by (auto simp: reply_of_def split: sum.splits err.splits)

lemma task_call_cases:
  assumes "task_call env ctx remote args s = Inr (x, s')"
  obtains (same) "s' = s" | (created) v where "create_follow_up env ctx args s = Inr (v, s')"
  | (verified) v where "verify env ctx args s = Inr (v, s')"
  using assms unfolding task_call_def by (auto split: if_splits dest!: reply_of_Inr)

lemma task_call_ok: "tasks_ok s \<Longrightarrow> task_call env ctx remote args s = Inr (x, s') \<Longrightarrow> tasks_ok s'"
  by (erule task_call_cases) (auto intro: create_follow_up_ok verify_ok)

interpretation tasks_frame: tool_frame tasks_ok
proof unfold_locales
  show "tasks_ok s \<Longrightarrow> tasks_ok (s\<lparr>run_tasks := sync_goal_task env r r' (run_tasks s)\<rparr>)" for s env r r'
    by (rule sync_goal_task_ok)
qed (simp_all add: tasks_ok_def task_edges_def)

text \<open>The adapter writes the task tables and one journal entry.\<close>

lemma plan_follow_up_tables:
  assumes "plan_follow_up env ctx title description action key deps s = Inr (v, s')"
  shows "\<exists>ts ds. s' = s \<or> s' = append_run_event env (x_workspace ctx) (x_run ctx) ''task.created'' ds
    (s\<lparr>run_tasks := fst ts, task_dependencies := task_dependencies s @ snd ts\<rparr>)"
  using assms
proof (cases rule: plan_follow_up_cases)
  case (planned goal k s1 s2)
  have "s1 = s\<lparr>run_tasks := run_tasks s @ [k]\<rparr>"
    using planned(7) by (auto simp: insert_task_def split: if_splits)
  with insert_dependencies_Inr[OF planned(8)] obtain ds where
    "s2 = s\<lparr>run_tasks := run_tasks s @ [k], task_dependencies := task_dependencies s @ ds\<rparr>" by auto
  with planned(9) show ?thesis by (intro exI[of _ "(run_tasks s @ [k], ds)"]) auto
qed auto

lemma verify_task_tables:
  assumes "verify_task env ctx i tool note ok key s = Inr (v, s')"
  shows "\<exists>ts es ty ds. s' = s \<or> s' = append_run_event env (x_workspace ctx) (x_run ctx) ty ds
    (s\<lparr>task_evidence := task_evidence s @ es, run_tasks := ts\<rparr>)"
  using assms
proof (cases rule: verify_task_cases)
  case (recorded k action since name c run)
  then obtain e ty ds where "s' = append_run_event env (x_workspace ctx) (x_run ctx) ty ds
      (s\<lparr>task_evidence := task_evidence s @ [e], run_tasks := sql_update (\<lambda>k. k_id k = i) (close_task env ok) (run_tasks s)\<rparr>)"
    unfolding record_evidence_def insert_evidence_def by (auto simp: Let_def split: if_splits)
  then show ?thesis by auto
qed auto

end
