(* ===== verification/System.thy ===== *)
theory System
  imports Task_Safety Alert_Delivery
begin

text \<open>
  The whole system as one transition relation: every transaction of the modelled components, run by any
  process at any time, is a step on the shared database. The invariants of the components hold together
  in every reachable state, and no step ever moves a run against its life cycle or rewrites history.
\<close>

section \<open>The invariant of the database\<close>

definition sys_inv :: "db \<Rightarrow> bool" where
  "sys_inv s \<longleftrightarrow> run_inv s \<and> governed s \<and> ledger_ok s \<and> workspaces_wf s \<and> tasks_ok s \<and> intents_ok s"

lemma sys_inv_empty: "sys_inv empty_db"
  by (simp add: sys_inv_def run_inv_empty governed_empty ledger_empty workspaces_wf_empty
      tasks_ok_empty intents_ok_empty)

text \<open>
  Tables that only ever grow: the journals, the model steps, the charges, the jobs and the evidence of
  tasks. Alert intents stay, and a closed one never changes.
\<close>

definition grows :: "(db \<Rightarrow> 'a list) \<Rightarrow> db \<Rightarrow> db \<Rightarrow> bool" where
  "grows f s s' \<longleftrightarrow> (\<exists>xs. f s' = f s @ xs)"

lemma grows_refl: "grows f s s"
  by (simp add: grows_def)

lemma grows_same: "f s' = f s \<Longrightarrow> grows f s s'"
  by (simp add: grows_def)

lemma grows_trans: "grows f s t \<Longrightarrow> grows f t u \<Longrightarrow> grows f s u"
  by (auto simp: grows_def)

lemma grows_snoc: "grows f s t \<Longrightarrow> f u = f t @ [x] \<Longrightarrow> grows f s u"
  by (auto simp: grows_def)

lemma grows_subset: "grows f s s' \<Longrightarrow> set (f s) \<subseteq> set (f s')"
  by (auto simp: grows_def)

definition jobs :: "db \<Rightarrow> (uuid \<times> uuid) list" where
  "jobs s = map (\<lambda>x. (o_id x, o_run x)) (outbox s)"

definition history :: "db \<Rightarrow> db \<Rightarrow> bool" where
  "history s s' \<longleftrightarrow> grows run_events s s' \<and> grows security_events s s' \<and> grows model_steps s s' \<and>
     grows spend_records s s' \<and> grows jobs s s' \<and> grows task_evidence s s' \<and> intents_mono s s'"

lemma history_refl: "history s s"
  by (simp add: history_def grows_refl intents_mono_refl)

lemma history_trans: "history s t \<Longrightarrow> history t u \<Longrightarrow> history s u"
  unfolding history_def by (elim conjE, intro conjI) (erule (1) grows_trans intents_mono_trans)+

text \<open>What the transactions of the runs and the tools leave alone.\<close>

definition rest :: "db \<Rightarrow> db \<Rightarrow> bool" where
  "rest s0 s \<longleftrightarrow> ledger_ok s \<and> workspaces_wf s \<and> tasks_ok s \<and> intents_ok s \<and> history s0 s"

lemmas rest_simps = rest_def history_def ledger_ok_def workspaces_wf_def owners_def intents_ok_def intents_mono_def

lemma tasks_ok_other:
  "tasks_ok (s\<lparr>outbox := c\<rparr>) = tasks_ok s" "tasks_ok (s\<lparr>run_events := d\<rparr>) = tasks_ok s"
  "tasks_ok (s\<lparr>security_events := e\<rparr>) = tasks_ok s"
  by (rule tasks_ok_cong; simp)+

interpretation rest_frame: tool_frame "rest s0" for s0
proof unfold_locales
  fix s :: db and c :: "outbox_row list"
  assume "rest s0 s" and "map (\<lambda>x. (o_id x, o_run x)) c = map (\<lambda>x. (o_id x, o_run x)) (outbox s)"
  then show "rest s0 (s\<lparr>outbox := c\<rparr>)"
    by (simp add: rest_simps tasks_ok_other grows_def jobs_def)
next
  fix s :: db and x :: outbox_row
  assume "rest s0 s"
  then show "rest s0 (s\<lparr>outbox := outbox s @ [x]\<rparr>)"
    by (simp add: rest_simps tasks_ok_other) (auto simp: grows_def jobs_def)
next
  fix s :: db and x :: event_row
  assume "rest s0 s"
  then show "rest s0 (s\<lparr>run_events := run_events s @ [x]\<rparr>)"
    by (simp add: rest_simps tasks_ok_other) (auto simp: grows_def jobs_def)
next
  fix s :: db and x :: security_event_row
  assume "rest s0 s"
  then show "rest s0 (s\<lparr>security_events := security_events s @ [x]\<rparr>)"
    by (simp add: rest_simps tasks_ok_other) (auto simp: grows_def jobs_def)
next
  fix s :: db and env r r'
  assume "rest s0 s"
  then show "rest s0 (s\<lparr>run_tasks := sync_goal_task env r r' (run_tasks s)\<rparr>)"
    using sync_goal_task_ok[of s env r r'] by (simp add: rest_simps grows_def jobs_def)
qed (simp_all add: rest_simps tasks_ok_def task_edges_def grows_def jobs_def)

section \<open>A committed transaction\<close>

definition committed :: "db \<Rightarrow> db \<Rightarrow> bool" where
  "committed s s' \<longleftrightarrow> sys_inv s' \<and> run_mono s s' \<and> history s s'"

lemma committed_refl: "sys_inv s \<Longrightarrow> committed s s"
  by (simp add: committed_def history_refl run_mono_refl)

lemma committed_trans: "committed s t \<Longrightarrow> committed t u \<Longrightarrow> committed s u"
  unfolding committed_def using run_mono_trans history_trans by blast

lemma committedI: "tool_step s s' \<Longrightarrow> rest s s' \<Longrightarrow> committed s s'"
  by (simp add: committed_def sys_inv_def tool_step_def safe_step_def rest_def)

lemma sys_invD:
  assumes "sys_inv s"
  shows "run_inv s" "governed s" "ledger_ok s" "workspaces_wf s" "rest s s" "tasks_ok s" "intents_ok s"
  using assms by (simp_all add: sys_inv_def rest_def history_refl)

text \<open>A transaction of the executor's journal, and one that writes none of the tables above.\<close>

lemma committed_exec:
  assumes inv: "sys_inv s" and frame: "exec_frame s s'" and ledger: "ledger_ok s'"
  shows "committed s s'"
proof (rule committedI)
  show "tool_step s s'" by (rule exec_frame_safe[OF sys_invD(1,2)[OF inv] frame])
  have "workspaces_wf s'"
    using sys_invD(4)[OF inv] frame workspaces_wf_cong[of s' s] by (simp add: exec_frame_def)
  moreover have "tasks_ok s'" using sys_invD(6)[OF inv] frame tasks_ok_cong[of s' s] by (simp add: exec_frame_def)
  moreover have "intents_ok s' \<and> intents_mono s s'"
    using new_intents_ok[OF sys_invD(7)[OF inv]] frame by (simp add: exec_frame_def)
  ultimately show "rest s s'" using frame ledger by (auto simp: rest_def history_def grows_def jobs_def exec_frame_def)
qed

lemma committed_aside:
  assumes inv: "sys_inv s"
    and "agent_runs s' = agent_runs s" "receipts s' = receipts s" "outbox s' = outbox s"
      "run_events s' = run_events s" "tool_calls s' = tool_calls s" "tool_approvals s' = tool_approvals s"
      "model_steps s' = model_steps s" "spend_records s' = spend_records s" "grows security_events s s'"
    and "ledger_ok s'" and "workspaces_wf s'" and "tasks_ok s'" and "grows task_evidence s s'"
    and "intents_ok s'" and "intents_mono s s'"
  shows "committed s s'"
proof (rule committedI)
  have "governed s'" using sys_invD(2)[OF inv] governed_cong[of s' s] assms by simp
  then show "tool_step s s'"
    using assms sys_invD(1)[OF inv] by (intro tool_stepI safe_same_tables)
  show "rest s s'" using assms by (simp add: rest_def history_def grows_def jobs_def)
qed

text \<open>One that leaves tasks and alert intents alone as well.\<close>

lemma committed_admin:
  assumes inv: "sys_inv s"
    and "agent_runs s' = agent_runs s" "receipts s' = receipts s" "outbox s' = outbox s"
      "run_events s' = run_events s" "tool_calls s' = tool_calls s" "tool_approvals s' = tool_approvals s"
      "model_steps s' = model_steps s" "spend_records s' = spend_records s" "grows security_events s s'"
    and "ledger_ok s'" and "workspaces_wf s'"
    and "run_tasks s' = run_tasks s" "task_dependencies s' = task_dependencies s" "task_evidence s' = task_evidence s"
      "alert_outbox s' = alert_outbox s"
  shows "committed s s'"
proof (rule committed_aside[OF inv])
  show "tasks_ok s'" using sys_invD(6)[OF inv] tasks_ok_cong[of s' s] assms by simp
  show "intents_ok s'" using sys_invD(7)[OF inv] assms by (simp add: intents_ok_def)
qed (use assms in \<open>simp_all add: grows_same intents_mono_refl\<close>)

section \<open>The transactions\<close>

text \<open>
  One constructor per transaction. The workers' settling operations come from a job that a claim
  accepted, which the outbox knows, and an alert that failed was claimed while it had attempts left;
  \<open>st_corpus\<close> stands for the writers of the tables no modelled invariant reads, the corpus and the
  standard agents, and \<open>st_goal\<close> for the goal task a new standard run inserts.
\<close>

inductive step :: "db \<Rightarrow> db \<Rightarrow> bool" where
  st_create_workspace: "create_workspace env pr name req s = Inr (x1, s') \<Longrightarrow> step s s'"
| st_rename_workspace: "rename_workspace pr ws name req s = Inr (x1, s') \<Longrightarrow> step s s'"
| st_set_member: "set_member pr ws sub ro req s = Inr (x2, s') \<Longrightarrow> step s s'"
| st_create_agent: "create_agent env pr ws name ins prof req s = Inr (x3, s') \<Longrightarrow> step s s'"
| st_create_run: "create_run env pr ws agent inp key req s = Inr (x4, s') \<Longrightarrow> step s s'"
| st_cancel_run: "cancel_run env pr ws i req s = Inr (x5, s') \<Longrightarrow> step s s'"
| st_claim: "claim env job w lease s = Inr (x6, s') \<Longrightarrow> step s s'"
| st_renew: "renew_lease env jid rid w lease s = Inr (b, s') \<Longrightarrow> step s s'"
| st_wait: "known_job (j_id job) (j_run job) s \<Longrightarrow>
    wait_for_approval env job w cid aid s = Inr (b, s') \<Longrightarrow> step s s'"
| st_success: "known_job (j_id job) (j_run job) s \<Longrightarrow>
    complete_success env job w s = Inr (b, s') \<Longrightarrow> step s s'"
| st_failure: "known_job (j_id job) (j_run job) s \<Longrightarrow>
    complete_failure env job w code retryable s = Inr (b, s') \<Longrightarrow> step s s'"
| st_recover: "recover_stale env locked limit secs s = Inr (n, s') \<Longrightarrow> step s s'"
| st_publish: "publish_batch env locked xadd limit s = Inr (n, s') \<Longrightarrow> step s s'"
| st_upsert_tool: "upsert_tool env pr ws name body req s = Inr (x7, s') \<Longrightarrow> step s s'"
| st_set_policy: "set_policy env pr ws name d reason req s = Inr (x8, s') \<Longrightarrow> step s s'"
| st_list_approvals: "list_approvals env locked pr ws n1 c st s = Inr (x9, s') \<Longrightarrow> step s s'"
| st_expire: "expire_due env locked limit s = Inr (n, s') \<Longrightarrow> step s s'"
| st_decide: "decide_approval env pr ws i decision req s = Inr (x10, s') \<Longrightarrow> step s s'"
| st_prepare: "prepare_call env ctx key name args s = Inr (x11, s') \<Longrightarrow> step s s'"
| st_start_call: "mark_running env cid ctx s = Inr (x12, s') \<Longrightarrow> step s s'"
| st_finish_call: "tool_complete_success env cid v ctx s = Inr (b, s') \<Longrightarrow> step s s'"
| st_fail_call: "tool_complete_failure env cid code retryable ctx s = Inr (b, s') \<Longrightarrow> step s s'"
| st_charge: "record_spend env cal ch s = Inr (x13, s') \<Longrightarrow> step s s'"
| st_set_budget: "set_budget env cal pr ws bi req s = Inr (x14, s') \<Longrightarrow> step s s'"
| st_authorize_spend: "authorize_spend env cal policy ctx s = Inr (x15, s') \<Longrightarrow> step s s'"
| st_embedding: "record_semantic_cache_embedding env cal es ctx tokens s = Inr (u, s') \<Longrightarrow> step s s'"
| st_restore: "restore_answer_cache env ctx k m ckey s = Inr (x16, s') \<Longrightarrow> step s s'"
| st_restore_semantic: "restore_semantic_answer_cache env vo ctx k m q s = Inr (x16, s') \<Longrightarrow> step s s'"
| st_save_step: "save_step env cal policy ctx k dec r cache s = Inr (u, s') \<Longrightarrow> step s s'"
| st_save_retrieval: "save_retrieval env ctx rv s = Inr (x17, s') \<Longrightarrow> step s s'"
| st_corpus: "s' = s\<lparr>rag_sources := a1, rag_acl := a2, rag_chunks := a3, tenant_agents := a4\<rparr> \<Longrightarrow> step s s'"
| st_goal: "k_kind goal = GoalTask \<Longrightarrow> insert_task goal s = Inr s' \<Longrightarrow> step s s'"
| st_task: "task_call env ctx remote targs s = Inr (x18, s') \<Longrightarrow> step s s'"
| st_alert_claim: "claim_alert env locked w lease s = Inr (x19, s') \<Longrightarrow> step s s'"
| st_alert_succeed: "alert_succeed env w i s = Inr (b, s') \<Longrightarrow> step s s'"
| st_alert_fail: "attempts < MAX_DELIVERY_ATTEMPTS \<Longrightarrow>
    alert_fail env w i attempts code retryable s = Inr (b, s') \<Longrightarrow> step s s'"

section \<open>Every transaction keeps the invariant\<close>

text \<open>Workspaces, agents and the corpus write none of the tables of the run invariant.\<close>

lemma audit_dependencies [simp]: "task_dependencies (audit pr ws a req x t) = task_dependencies t"
  by (simp add: audit_def)

lemma audit_grows: "grows security_events s t \<Longrightarrow> grows security_events s (audit pr ws a req x t)"
  by (auto simp: grows_def audit_def)

lemma create_workspace_committed:
  assumes "sys_inv s" and "create_workspace env pr name req s = Inr (x, s')"
  shows "committed s s'"
proof -
  obtain t where t: "insert_member \<lparr>m_workspace = tx_uuid env 0, m_issuer = issuer pr, m_subject = subject pr,
      m_role = Owner\<rparr> (s\<lparr>workspaces := workspaces s @ [\<lparr>w_id = tx_uuid env 0, w_name = name\<rparr>]\<rparr>) = Inr t"
    and s': "s' = audit pr (tx_uuid env 0) ''workspace.created'' req None t"
    using assms(2) by (auto simp: create_workspace_def Let_def split: if_splits)
  obtain ms where "t = s\<lparr>workspaces := workspaces s @ [\<lparr>w_id = tx_uuid env 0, w_name = name\<rparr>], memberships := ms\<rparr>"
    using t by (auto simp: insert_member_def upsert_member_def Let_def split: if_splits)
  then show ?thesis
    using create_workspace_wf[OF sys_invD(4)[OF assms(1)] assms(2)] sys_invD(3)[OF assms(1)] ledger_cong[of s' s]
    by (intro committed_admin[OF assms(1)]) (simp_all add: s' audit_grows grows_same)
qed

lemma rename_workspace_committed:
  assumes "sys_inv s" and "rename_workspace pr ws name req s = Inr (x, s')"
  shows "committed s s'"
proof -
  obtain wss where s': "s' = audit pr ws ''workspace.renamed'' req None (s\<lparr>workspaces := wss\<rparr>)"
    using assms(2) by (auto simp: rename_workspace_def Let_def)
  then show ?thesis
    using rename_workspace_wf[OF sys_invD(4)[OF assms(1)] assms(2)] sys_invD(3)[OF assms(1)] ledger_cong[of s' s]
    by (intro committed_admin[OF assms(1)]) (simp_all add: s' audit_grows grows_same)
qed

lemma set_member_committed:
  assumes "sys_inv s" and "set_member pr ws sub ro req s = Inr (x, s')"
  shows "committed s s'"
proof -
  obtain ms where s': "s' = audit pr ws (''membership.set.'' @ role_str ro) req (Some sub) (s\<lparr>memberships := ms\<rparr>)"
    using assms(2) by (auto simp: set_member_def upsert_member_def Let_def split: if_splits)
  then show ?thesis
    using set_member_wf[OF sys_invD(4)[OF assms(1)] assms(2)] sys_invD(3)[OF assms(1)] ledger_cong[of s' s]
    by (intro committed_admin[OF assms(1)]) (simp_all add: s' audit_grows grows_same)
qed

lemma create_agent_committed:
  assumes "sys_inv s" and "create_agent env pr ws name ins prof req s = Inr (x, s')"
  shows "committed s s'"
proof -
  obtain as where s': "s' = audit pr ws ''agent.created'' req None (s\<lparr>agent_definitions := as\<rparr>)"
    using assms(2) by (auto simp: create_agent_def Let_def split: if_splits)
  then show ?thesis
    using sys_invD(3,4)[OF assms(1)] ledger_cong[of s' s] workspaces_wf_cong[of s' s]
    by (intro committed_admin[OF assms(1)]) (simp_all add: s' audit_grows grows_same)
qed

lemma corpus_committed:
  assumes "sys_inv s" and "s' = s\<lparr>rag_sources := a1, rag_acl := a2, rag_chunks := a3, tenant_agents := a4\<rparr>"
  shows "committed s s'"
  using sys_invD(3,4)[OF assms(1)] ledger_cong[of s' s] workspaces_wf_cong[of s' s]
  by (intro committed_admin[OF assms(1)]) (simp_all add: assms(2) grows_same)

text \<open>Tasks: the task tables change, and the journal grows by at most one event.\<close>

lemma committed_tasks:
  assumes inv: "sys_inv s" and ok: "tasks_ok t" and ev: "grows task_evidence s t"
    and t: "t = s\<lparr>run_tasks := ts, task_dependencies := ds, task_evidence := es\<rparr>"
    and s': "s' = t \<or> s' = append_run_event env ws i ty p t"
  shows "committed s s'"
proof -
  have t_ok: "committed s t"
    using sys_invD(3,4,7)[OF inv] ledger_cong[of t s] workspaces_wf_cong[of t s] ok ev
    by (intro committed_aside[OF inv]) (simp_all add: t grows_same intents_mono_refl intents_ok_def)
  have t_inv: "sys_inv t" using t_ok by (simp add: committed_def)
  have "exec_frame t (append_run_event env ws i ty p t)"
    by (simp add: exec_frame_def journal_append) (simp add: append_run_event_def)
  moreover have "ledger_ok (append_run_event env ws i ty p t)"
    using sys_invD(3)[OF t_inv] ledger_cong[of "append_run_event env ws i ty p t" t] by simp
  ultimately have "committed t (append_run_event env ws i ty p t)" by (rule committed_exec[OF t_inv])
  with s' t_ok show ?thesis using committed_trans by blast
qed

lemma goal_committed:
  assumes inv: "sys_inv s" and goal: "k_kind goal = GoalTask" and ok: "insert_task goal s = Inr s'"
  shows "committed s s'"
proof (rule committed_tasks[OF inv])
  have new: "k_kind goal = FollowUpTask \<Longrightarrow> k_status goal = TPlanned" using goal by simp
  note i = insert_task_ok[OF sys_invD(6)[OF inv] ok new]
  show "tasks_ok s'" by (rule i(1))
  show "s' = s\<lparr>run_tasks := run_tasks s @ [goal], task_dependencies := task_dependencies s,
      task_evidence := task_evidence s\<rparr>" using i(2) by simp
  show "grows task_evidence s s'" using i(2) by (simp add: grows_same)
qed simp

lemma task_call_committed:
  assumes inv: "sys_inv s" and ok: "task_call env ctx remote args s = Inr (x, s')"
  shows "committed s s'"
  using ok
proof (cases rule: task_call_cases)
  case same
  then show ?thesis by (simp add: committed_refl[OF inv])
next
  case (created v)
  obtain title description action key deps where
    p: "plan_follow_up env ctx title description action key deps s = Inr (v, s')"
    using create_follow_up_plan[OF created] by blast
  from plan_follow_up_tables[OF p] obtain ts p' where "s' = s \<or> s' = append_run_event env (x_workspace ctx) (x_run ctx)
      ''task.created'' p' (s\<lparr>run_tasks := fst ts, task_dependencies := task_dependencies s @ snd ts\<rparr>)" by blast
  then show ?thesis
  proof
    assume "s' = s"
    then show ?thesis by (simp add: committed_refl[OF inv])
  next
    let ?t = "s\<lparr>run_tasks := fst ts, task_dependencies := task_dependencies s @ snd ts\<rparr>"
    assume s': "s' = append_run_event env (x_workspace ctx) (x_run ctx) ''task.created'' p' ?t"
    have "tasks_ok ?t" using plan_follow_up_ok[OF sys_invD(6)[OF inv] p] tasks_ok_cong[of s' ?t] by (simp add: s')
    then show ?thesis
      by (rule committed_tasks[where es = "task_evidence s", OF inv]) (use s' in \<open>auto simp: grows_same\<close>)
  qed
next
  case (verified v)
  obtain i tool remark sat key where p: "verify_task env ctx i tool remark sat key s = Inr (v, s')"
    using verify_arguments[OF verified] by blast
  from verify_task_tables[OF p] obtain ts es ty p' where "s' = s \<or> s' = append_run_event env (x_workspace ctx)
      (x_run ctx) ty p' (s\<lparr>task_evidence := task_evidence s @ es, run_tasks := ts\<rparr>)" by blast
  then show ?thesis
  proof
    assume "s' = s"
    then show ?thesis by (simp add: committed_refl[OF inv])
  next
    let ?t = "s\<lparr>task_evidence := task_evidence s @ es, run_tasks := ts\<rparr>"
    assume s': "s' = append_run_event env (x_workspace ctx) (x_run ctx) ty p' ?t"
    have "tasks_ok ?t" using verify_task_ok[OF sys_invD(6)[OF inv] p] tasks_ok_cong[of s' ?t] by (simp add: s')
    then show ?thesis
      by (rule committed_tasks[where ts = ts and ds = "task_dependencies s" and es = "task_evidence s @ es", OF inv]) (use s' in \<open>auto simp: grows_def\<close>)
  qed
qed

text \<open>Alert intents.\<close>

lemma intents_committed:
  assumes inv: "sys_inv s" and "intents_ok s'" "intents_mono s s'" and s': "s' = s\<lparr>alert_outbox := alert_outbox s'\<rparr>"
    and keys: "map (\<lambda>x. (ao_alert x, ao_workspace x)) (alert_outbox s') = map (\<lambda>x. (ao_alert x, ao_workspace x)) (alert_outbox s)"
  shows "committed s s'"
proof -
  obtain xs where e: "s' = s\<lparr>alert_outbox := xs\<rparr>" using s' by blast
  have "ledger_ok s'" using sys_invD(3)[OF inv] keys unfolding ledger_ok_def e by simp
  moreover have "tasks_ok s'" using sys_invD(6)[OF inv] tasks_ok_cong[of s' s] by (simp add: e)
  moreover have "workspaces_wf s'" using sys_invD(4)[OF inv] workspaces_wf_cong[of s' s] by (simp add: e)
  ultimately show ?thesis
    using assms(2,3) by (intro committed_aside[OF inv]) (simp_all add: e grows_same)
qed

lemma claim_alert_committed:
  assumes inv: "sys_inv s" and ok: "claim_alert env locked w lease s = Inr (x, s')"
  shows "committed s s'"
  by (rule intents_committed[OF inv claim_alert_effect[OF sys_invD(3,7)[OF inv] ok]])

lemma alert_succeed_committed:
  assumes inv: "sys_inv s" and ok: "alert_succeed env w i s = Inr (x, s')"
  shows "committed s s'"
  by (rule intents_committed[OF inv alert_succeed_effect[OF sys_invD(7)[OF inv] ok]])

lemma alert_fail_committed:
  assumes inv: "sys_inv s" and n: "attempts < MAX_DELIVERY_ATTEMPTS"
    and ok: "alert_fail env w i attempts code retryable s = Inr (x, s')"
  shows "committed s s'"
  by (rule intents_committed[OF inv alert_fail_effect[OF sys_invD(7)[OF inv] n ok]])

text \<open>The registry.\<close>

lemma upsert_tool_committed:
  assumes "sys_inv s" and "upsert_tool env pr ws name b req s = Inr (x, s')"
  shows "committed s s'"
proof -
  obtain ts where s': "s' = audit pr ws ''tool.upserted'' req (Some name) (s\<lparr>tool_definitions := ts\<rparr>)"
    using assms(2) by (auto simp: upsert_tool_def Let_def split: if_splits option.splits)
  then show ?thesis
    using sys_invD(3,4)[OF assms(1)] ledger_cong[of s' s] workspaces_wf_cong[of s' s]
    by (intro committed_admin[OF assms(1)]) (simp_all add: s' audit_grows grows_same)
qed

lemma set_policy_committed:
  assumes "sys_inv s" and "set_policy env pr ws name d reason req s = Inr (x, s')"
  shows "committed s s'"
proof -
  obtain ps where s': "s' = audit pr ws (''tool.policy_set.'' @ decision_str d) req (Some name) (s\<lparr>tool_policies := ps\<rparr>)"
    using assms(2) by (auto simp: set_policy_def Let_def split: option.splits)
  then show ?thesis
    using sys_invD(3,4)[OF assms(1)] ledger_cong[of s' s] workspaces_wf_cong[of s' s]
    by (intro committed_admin[OF assms(1)]) (simp_all add: s' audit_grows grows_same)
qed

text \<open>The budget: the alerts and the budget change, the charges do not.\<close>

lemma alerts_raised_rows: "raise_alerts env cal b c k ts t = Inr (f, t') \<Longrightarrow> alerts_only t t'"
  by (induction ts arbitrary: k t f)
    (auto simp: raise_alerts_Cons alerts_only_refl split: if_splits intro: alerts_only_add)

lemma alerts_raised: "raise_threshold_alerts env cal k ws t = Inr (f, t') \<Longrightarrow> alerts_only t t'"
  by (auto simp: raise_threshold_alerts_def alerts_only_refl split: option.splits dest: alerts_raised_rows)

lemma set_budget_committed:
  assumes inv: "sys_inv s" and ok: "set_budget env cal pr ws b req s = Inr (row, s')"
  shows "committed s s'"
proof -
  obtain bs es fired s2 where r: "raise_threshold_alerts env cal 0 ws
      (s\<lparr>spend_budgets := bs, budget_events := es\<rparr>) = Inr (fired, s2)"
    and s': "s' = audit pr ws ''spend.budget.set'' req None s2"
    using ok by (auto simp: set_budget_def Let_def)
  have "\<exists>as xs. s2 = s\<lparr>spend_budgets := bs, budget_events := es, spend_alerts := as, alert_outbox := xs\<rparr>"
    using alerts_raised[OF r] by (simp add: alerts_only_def)
  then obtain as xs where s2: "s2 = s\<lparr>spend_budgets := bs, budget_events := es, spend_alerts := as, alert_outbox := xs\<rparr>"
    by blast
  have same: "alert_outbox s' = alert_outbox s2" by (simp add: s' audit_def)
  have "new_intents s s'"
    using raise_threshold_intents[OF r] by (simp add: new_intents_def same)
  note fresh = new_intents_ok[OF sys_invD(7)[OF inv] this]
  have "tasks_ok s'" using sys_invD(6)[OF inv] tasks_ok_cong[of s' s] by (simp add: s' s2)
  then show ?thesis
    using set_budget_effect(1)[OF sys_invD(3)[OF inv] ok] sys_invD(4)[OF inv] workspaces_wf_cong[of s' s] fresh
    by (intro committed_aside[OF inv]) (simp_all add: s' s2 audit_grows grows_same)
qed

text \<open>The executor's journal.\<close>

lemma record_spend_committed:
  assumes inv: "sys_inv s" and ok: "record_spend env cal c s = Inr (w, s')"
  shows "committed s s'"
  by (rule committed_exec[OF inv exec_spend[OF ok sys_invD(3)[OF inv]] record_spend_marks(1)[OF sys_invD(3)[OF inv] ok]])

lemma authorize_spend_committed:
  assumes inv: "sys_inv s" and ok: "authorize_spend env cal policy ctx s = Inr (x, s')"
  shows "committed s s'"
  using authorize_spend_frame[OF ok] ledger_frame_ok sys_invD(3)[OF inv]
  by (intro committed_exec[OF inv]) simp_all

lemma embedding_committed:
  assumes inv: "sys_inv s" and ok: "record_semantic_cache_embedding env cal es ctx n s = Inr (u, s')"
  shows "committed s s'"
  by (rule committed_exec[OF inv record_semantic_frame[OF ok sys_invD(3)[OF inv]]])

lemma restore_committed:
  assumes inv: "sys_inv s" and ok: "restore_answer_cache env ctx n c key s = Inr (x, s')"
  shows "committed s s'"
  using restore_frames[OF disjI1[OF ok]] ledger_frame_ok sys_invD(3)[OF inv]
  by (intro committed_exec[OF inv]) simp_all

lemma restore_semantic_committed:
  assumes inv: "sys_inv s" and ok: "restore_semantic_answer_cache env vo ctx n c q s = Inr (x, s')"
  shows "committed s s'"
  using restore_frames[OF disjI2[OF ok]] ledger_frame_ok sys_invD(3)[OF inv]
  by (intro committed_exec[OF inv]) simp_all

lemma save_step_committed:
  assumes inv: "sys_inv s" and ok: "save_step env cal policy ctx n d r cache s = Inr (u, s')"
  shows "committed s s'"
  by (rule committed_exec[OF inv save_step_frame(1,2)[OF ok sys_invD(3)[OF inv]]])

lemma save_retrieval_committed:
  assumes inv: "sys_inv s" and ok: "save_retrieval env ctx v s = Inr (sn, s')"
  shows "committed s s'"
  using save_retrieval_frame[OF ok] ledger_frame_ok sys_invD(3)[OF inv]
  by (intro committed_exec[OF inv]) simp_all

text \<open>The runs: each is safe for the runs, keeps the calls governed and leaves the rest.\<close>

lemma run_committed:
  assumes "sys_inv s" and "safe_step s s'" and "governed s'" and "rest s s'"
  shows "committed s s'"
  using assms by (intro committedI tool_stepI)

lemma create_run_committed:
  assumes inv: "sys_inv s" and ok: "create_run env pr ws agent inp key req s = Inr (x, s')"
  shows "committed s s'"
proof (cases x)
  case (Pair v fresh)
  show ?thesis
    by (rule run_committed[OF inv create_run_safe[OF sys_invD(1)[OF inv] ok[unfolded Pair]]
        governed_frame.V_create_run[OF ok sys_invD(2)[OF inv]] rest_frame.V_create_run[OF ok sys_invD(5)[OF inv]]])
qed

lemma cancel_run_committed:
  assumes inv: "sys_inv s" and ok: "cancel_run env pr ws i req s = Inr (x, s')"
  shows "committed s s'"
  by (rule run_committed[OF inv cancel_run_safe[OF sys_invD(1)[OF inv] ok] cancel_run_governed[OF sys_invD(2)[OF inv] ok]
        rest_frame.V_cancel_run[OF ok sys_invD(5)[OF inv]]])

lemma claim_committed:
  assumes inv: "sys_inv s" and ok: "claim env job w lease s = Inr (x, s')"
  shows "committed s s'"
  by (rule run_committed[OF inv claim_safe[OF sys_invD(1)[OF inv] ok]
        governed_frame.V_claim[OF ok sys_invD(2)[OF inv]] rest_frame.V_claim[OF ok sys_invD(5)[OF inv]]])

lemma renew_lease_committed:
  assumes inv: "sys_inv s" and ok: "renew_lease env jid rid w lease s = Inr (x, s')"
  shows "committed s s'"
  by (rule run_committed[OF inv renew_lease_safe[OF sys_invD(1)[OF inv] ok]
        governed_frame.V_renew_lease[OF ok sys_invD(2)[OF inv]] rest_frame.V_renew_lease[OF ok sys_invD(5)[OF inv]]])

lemma wait_for_approval_committed:
  assumes inv: "sys_inv s" and ok: "wait_for_approval env job w cid aid s = Inr (x, s')"
    and job: "known_job (j_id job) (j_run job) s"
  shows "committed s s'"
  by (rule run_committed[OF inv wait_for_approval_safe[OF sys_invD(1)[OF inv] job ok]
        governed_frame.V_wait[OF ok sys_invD(2)[OF inv]] rest_frame.V_wait[OF ok sys_invD(5)[OF inv]]])

lemma complete_success_committed:
  assumes inv: "sys_inv s" and ok: "complete_success env job w s = Inr (x, s')"
    and job: "known_job (j_id job) (j_run job) s"
  shows "committed s s'"
  by (rule run_committed[OF inv complete_success_safe[OF sys_invD(1)[OF inv] job ok]
        governed_frame.V_success[OF ok sys_invD(2)[OF inv]] rest_frame.V_success[OF ok sys_invD(5)[OF inv]]])

lemma complete_failure_committed:
  assumes inv: "sys_inv s" and ok: "complete_failure env job w code retryable s = Inr (x, s')"
    and job: "known_job (j_id job) (j_run job) s"
  shows "committed s s'"
  by (rule run_committed[OF inv complete_failure_safe[OF sys_invD(1)[OF inv] job ok]
        governed_frame.V_failure[OF ok sys_invD(2)[OF inv]] rest_frame.V_failure[OF ok sys_invD(5)[OF inv]]])

lemma recover_stale_committed:
  assumes inv: "sys_inv s" and ok: "recover_stale env locked limit secs s = Inr (n, s')"
  shows "committed s s'"
  by (rule run_committed[OF inv recover_stale_safe[OF sys_invD(1)[OF inv] ok]
        governed_frame.V_recover[OF ok sys_invD(2)[OF inv]] rest_frame.V_recover[OF ok sys_invD(5)[OF inv]]])

lemma publish_batch_committed:
  assumes inv: "sys_inv s" and ok: "publish_batch env locked xadd limit s = Inr (n, s')"
  shows "committed s s'"
  by (rule run_committed[OF inv publish_batch_safe[OF sys_invD(1)[OF inv] ok]
        governed_frame.V_publish[OF sys_invD(1)[OF inv] ok sys_invD(2)[OF inv]] rest_frame.V_publish[OF sys_invD(1)[OF inv] ok sys_invD(5)[OF inv]]])

text \<open>Tool governance.\<close>

lemma list_approvals_committed:
  assumes inv: "sys_inv s" and ok: "list_approvals env locked pr ws n c st s = Inr (x, s')"
  shows "committed s s'"
  by (rule committedI[OF list_approvals_safe[OF sys_invD(1,2)[OF inv] ok] rest_frame.V_list_approvals[OF ok sys_invD(5)[OF inv]]])

lemma expire_due_committed:
  assumes inv: "sys_inv s" and ok: "expire_due env locked limit s = Inr (n, s')"
  shows "committed s s'"
  by (rule committedI[OF expire_due_safe[OF sys_invD(1,2)[OF inv] ok] rest_frame.V_expire[OF ok sys_invD(5)[OF inv]]])

lemma decide_approval_committed:
  assumes inv: "sys_inv s" and ok: "decide_approval env pr ws i decision req s = Inr (x, s')"
  shows "committed s s'"
  by (rule committedI[OF decide_approval_safe[OF sys_invD(1,2)[OF inv] ok] rest_frame.V_decide[OF ok sys_invD(5)[OF inv]]])

lemma prepare_call_committed:
  assumes inv: "sys_inv s" and ok: "prepare_call env ctx key name args s = Inr (x, s')"
  shows "committed s s'"
  by (rule committedI[OF prepare_call_step[OF sys_invD(1,2)[OF inv] ok] rest_frame.V_prepare[OF ok sys_invD(5)[OF inv]]])

lemma mark_running_committed:
  assumes inv: "sys_inv s" and ok: "mark_running env cid ctx s = Inr (x, s')"
  shows "committed s s'"
  by (rule committedI[OF mark_running_step(1)[OF sys_invD(1,2)[OF inv] ok] rest_frame.V_mark_running[OF ok sys_invD(5)[OF inv]]])

lemma tool_complete_success_committed:
  assumes inv: "sys_inv s" and ok: "tool_complete_success env cid v ctx s = Inr (x, s')"
  shows "committed s s'"
  by (rule committedI[OF tool_complete_success_step(1)[OF sys_invD(1,2)[OF inv] ok] rest_frame.V_tool_success[OF ok sys_invD(5)[OF inv]]])

lemma tool_complete_failure_committed:
  assumes inv: "sys_inv s" and ok: "tool_complete_failure env cid code retryable ctx s = Inr (x, s')"
  shows "committed s s'"
  by (rule committedI[OF tool_complete_failure_step[OF sys_invD(1,2)[OF inv] ok] rest_frame.V_tool_failure[OF ok sys_invD(5)[OF inv]]])

lemmas all_committed =
  create_workspace_committed rename_workspace_committed set_member_committed create_agent_committed corpus_committed
  goal_committed task_call_committed claim_alert_committed alert_succeed_committed alert_fail_committed
  upsert_tool_committed set_policy_committed set_budget_committed record_spend_committed authorize_spend_committed
  embedding_committed restore_committed restore_semantic_committed save_step_committed save_retrieval_committed create_run_committed
  cancel_run_committed claim_committed renew_lease_committed wait_for_approval_committed complete_success_committed
  complete_failure_committed recover_stale_committed publish_batch_committed list_approvals_committed expire_due_committed
  decide_approval_committed prepare_call_committed mark_running_committed tool_complete_success_committed tool_complete_failure_committed

lemma step_committed: "sys_inv s \<Longrightarrow> step s s' \<Longrightarrow> committed s s'"
  by (erule step.cases) (rule all_committed; simp; fail)+

end
