(* ===== verification/System_Properties.thy ===== *)
theory System_Properties
  imports System Samples
begin

text \<open>
  What holds of every state the system can reach and along every sequence of its transactions.
\<close>

section \<open>Transition systems with a guarantee\<close>

text \<open>
  Steps that keep an invariant and guarantee a relation between their ends, which is a preorder on the
  states of the invariant, guarantee it along every sequence of steps.
\<close>

locale guarded_system =
  fixes st :: "'s \<Rightarrow> 's \<Rightarrow> bool" and inv :: "'s \<Rightarrow> bool" and guar :: "'s \<Rightarrow> 's \<Rightarrow> bool"
  assumes step_inv: "inv s \<Longrightarrow> st s s' \<Longrightarrow> inv s'"
    and step_guar: "inv s \<Longrightarrow> st s s' \<Longrightarrow> guar s s'"
    and guar_refl: "inv s \<Longrightarrow> guar s s"
    and guar_trans: "guar s t \<Longrightarrow> guar t u \<Longrightarrow> guar s u"
begin

lemma steps_inv:
  assumes "st\<^sup>*\<^sup>* s s'" and "inv s"
  shows "inv s'"
  using assms by (induction rule: rtranclp_induct) (auto intro: step_inv)

lemma steps_guar:
  assumes "st\<^sup>*\<^sup>* s s'" and "inv s"
  shows "guar s s'"
  using assms(1)
proof (induction rule: rtranclp_induct)
  case base
  show ?case by (rule guar_refl[OF assms(2)])
next
  case (step t u)
  show ?case by (rule guar_trans[OF step.IH step_guar[OF steps_inv[OF step.hyps(1) assms(2)] step.hyps(2)]])
qed

end

interpretation database: guarded_system step sys_inv committed
proof unfold_locales
  show "sys_inv s \<Longrightarrow> step s s' \<Longrightarrow> sys_inv s'" for s s'
    using step_committed by (simp add: committed_def)
qed (auto intro: step_committed committed_refl committed_trans)

section \<open>Samples\<close>

lemma queued_db_sys: "sys_inv queued_db"
proof -
  have "governed queued_db" "ledger_ok queued_db" "workspaces_wf queued_db" "tasks_ok queued_db" "intents_ok queued_db"
    by (simp_all add: governed_def ledger_ok_def workspaces_wf_def owners_def member_key_def tasks_ok_def
        task_edges_def intents_ok_def sample_defs)
  with queued_db_inv show ?thesis by (simp add: sys_inv_def)
qed

lemma sample_step: "step queued_db running_db"
  by (rule st_claim[OF sample_claim])

lemma sample_steps: "step\<^sup>*\<^sup>* queued_db running_db"
  by (rule r_into_rtranclp) (rule sample_step)

definition first_db :: db where
  "first_db = audit alice 10 ''workspace.created'' ''r1'' None
    (empty_db\<lparr>workspaces := [\<lparr>w_id = 10, w_name = ''lab''\<rparr>],
      memberships := [\<lparr>m_workspace = 10, m_issuer = ''iss'', m_subject = ''alice'', m_role = Owner\<rparr>]\<rparr>)"

lemma first_step: "step empty_db first_db"
proof (rule st_create_workspace)
  show "create_workspace (env_at 0 10) alice ''lab'' ''r1'' empty_db = Inr ((10, ''lab'', Owner), first_db)"
    by (simp add: create_workspace_def insert_member_def upsert_member_def sql_exists_def first_db_def
        alice_def env_at_def empty_db_def Let_def)
qed

section \<open>Properties\<close>

text \<open>C1: In every reachable state: a run that is running has at most one unsettled receipt and the
  worker of that receipt holds the lease, while a run that is queued or parked has none; a tool call
  waits for approval exactly while its approval is pending; every workspace has exactly one owner; no
  unit of work has been charged twice; and the events of every run are numbered 1, 2, 3, ...\<close>

theorem reachable_invariant:
  assumes "step\<^sup>*\<^sup>* empty_db s"
  shows "(\<forall>r \<in> set (agent_runs s). length (processing (r_id r) s) \<le> 1 \<and>
      (r_status r \<in> {Queued, WaitingForApproval} \<longrightarrow> processing (r_id r) s = []) \<and>
      (r_status r = Running \<longrightarrow> (\<forall>x \<in> set (processing (r_id r) s). rc_worker x = r_lease_owner r))) \<and>
    (\<forall>c \<in> set (tool_calls s). c_status c = PendingApproval \<longleftrightarrow> approval_status_of (c_id c) s = Some Pending) \<and>
    (\<forall>w \<in> set (workspaces s). length (owners (w_id w) s) = 1) \<and>
    distinct (map (\<lambda>x. (sp_workspace x, sp_source_key x)) (spend_records s)) \<and>
    (\<forall>i. map e_no (events_of i s) = map Suc [0..<length (events_of i s)])"
proof -
  have inv: "sys_inv s" by (rule database.steps_inv[OF assms sys_inv_empty])
  note i = sys_invD[OF inv]
  have "c_status c = PendingApproval \<longleftrightarrow> approval_status_of (c_id c) s = Some Pending"
    if "c \<in> set (tool_calls s)" for c
    using governedD(5)[OF i(2) that]
    by (cases "approval_status_of (c_id c) s") (auto elim!: agrees_someE)
  then show ?thesis
    using i unfolding run_inv_def exclusive_def excl_run_def ledger_ok_def workspaces_wf_def journal_ok_def
    by auto
qed

theorem reachable_invariant_witness: "length (owners 10 first_db) = 1"
proof -
  have "step\<^sup>*\<^sup>* empty_db first_db" using first_step by (rule r_into_rtranclp)
  note reachable_invariant[OF this]
  then have "\<forall>w \<in> set (workspaces first_db). length (owners (w_id w) first_db) = 1" by blast
  then show ?thesis by (simp add: first_db_def audit_tables)
qed

text \<open>C2: Along every sequence of transactions, of any workers and users in any order, each run
  refines its life cycle: it is queued, runs, may be parked or requeued, each start counting one
  attempt, until it ends succeeded, failed or cancelled; what the user asked for never changes, and a
  run that has ended stays exactly as it ended.\<close>

theorem runs_refine_life:
  assumes "sys_inv s" and "step\<^sup>*\<^sup>* s s'" and "find_run i s = Some r"
  shows "\<exists>r'. find_run i s' = Some r' \<and> life\<^sup>*\<^sup>* (phase r) (phase r') \<and> r_attempt r \<le> r_attempt r' \<and>
    r_workspace r' = r_workspace r \<and> r_input r' = r_input r \<and> r_issuer r' = r_issuer r \<and>
    r_subject r' = r_subject r \<and> r_agent r' = r_agent r \<and> r_trace r' = r_trace r \<and>
    (terminal (r_status r) \<longrightarrow> r' = r)"
proof -
  have "run_mono s s'" using database.steps_guar[OF assms(2,1)] by (simp add: committed_def)
  with assms(3) obtain r' where r': "find_run i s' = Some r'" "run_le r r'" by (auto simp: run_mono_def)
  show ?thesis
    using r' run_le_attempt[OF r'(2)] by (intro exI[of _ r']) (simp add: run_le_def)
qed

theorem runs_refine_life_witness: "life\<^sup>*\<^sup>* (Queued, 0) (Running, 1)"
proof -
  have f: "find_run 20 queued_db = Some sample_run" "find_run 20 running_db = Some running_run"
    by (simp_all add: find_run_def sample_defs)
  from runs_refine_life[OF queued_db_sys sample_steps f(1)] f(2)
  have "life\<^sup>*\<^sup>* (phase sample_run) (phase running_run)" by auto
  then show ?thesis by (simp add: phase_def sample_defs)
qed

text \<open>C9: History is never rewritten. Whatever transactions run, the journal of the runs, the audit
  trail, the model steps, the charges and the evidence of tasks only grow at their end, no job disappears,
  and an alert that was delivered or abandoned stays so.\<close>

theorem history_append_only:
  assumes "sys_inv s" and "step\<^sup>*\<^sup>* s s'"
  shows "\<exists>es as ms rs js ks. run_events s' = run_events s @ es \<and> security_events s' = security_events s @ as \<and>
    model_steps s' = model_steps s @ ms \<and> spend_records s' = spend_records s @ rs \<and>
    map (\<lambda>x. (o_id x, o_run x)) (outbox s') = map (\<lambda>x. (o_id x, o_run x)) (outbox s) @ js \<and>
    task_evidence s' = task_evidence s @ ks \<and>
    (\<forall>x \<in> set (alert_outbox s). \<not> open_intent x \<longrightarrow> x \<in> set (alert_outbox s'))"
proof -
  have h: "history s s'" using database.steps_guar[OF assms(2,1)] by (simp add: committed_def)
  then have "\<forall>x \<in> set (alert_outbox s). \<not> open_intent x \<longrightarrow> x \<in> set (alert_outbox s')"
    by (fastforce simp: history_def intents_mono_def intent_le_def)
  with h show ?thesis unfolding history_def grows_def jobs_def by blast
qed

theorem history_append_only_witness: "\<exists>es. run_events running_db = run_events queued_db @ es"
  using history_append_only[OF queued_db_sys sample_steps] by blast

end
