(* ===== verification/Effects.thy ===== *)
theory Effects
  imports Executor_Store Tool_Governance Outbox
begin

text \<open>
  Programs that run many transactions. Between two transactions of a program the rest of the system
  may commit anything: the \<open>world\<close> says what it did to the database before the \<open>k\<close>-th step, in which
  transaction environment the step runs, and what the outside (tool servers, model providers, the
  retriever, the stream) answered. A step that raises leaves what was committed before it.
\<close>

section \<open>The outside\<close>

datatype exc =
    Raised err
  | RetryableExecution string
  | TerminalExecution string
  | ApprovalNeeded uuid uuid
  | GatewayError string bool
  | RuntimeError string
  | CancelledTask

text \<open>What a tool server did: a result, an adapter error, a timeout, a cancelled task, another exception.\<close>

datatype tool_outcome =
    ToolReturned json
  | ToolError string bool
  | ToolTimeout
  | ToolCancelled
  | ToolRaised

text \<open>
  What a provider did: the number of further poll rounds before the task ended, and how it ended. A
  task that does not end before the deadline is \<open>ModelLate\<close>.
\<close>

datatype model_outcome =
    ModelReturned provider_response
  | ModelFailed string bool
  | ModelRaised
  | ModelLate

text \<open>A batch of embeddings, as the adapter returns it.\<close>

record embedding_batch =
  eb_model :: string
  eb_dims :: int
  eb_vectors :: "rat list list"
  eb_tokens :: int

text \<open>The effects outside the database, in the order they happen.\<close>

datatype effect =
    ToolSent uuid string string json
  | ModelSent string string provider_request
  | EmbeddingSent string
  | RetrievalSent string
  | Acknowledged string

record world =
  wd_env :: "nat \<Rightarrow> txenv"
  wd_others :: "nat \<Rightarrow> db \<Rightarrow> db"
  wd_locked :: "nat \<Rightarrow> uuid \<Rightarrow> bool"
  wd_tool :: "nat \<Rightarrow> tool_outcome"
  wd_polls :: "nat \<Rightarrow> nat"
  wd_model :: "nat \<Rightarrow> model_outcome"
  wd_embed :: "nat \<Rightarrow> err + embedding_batch"
  wd_retrieve :: "nat \<Rightarrow> exc + retrieval_result"
  wd_xadd :: "nat \<Rightarrow> nat \<Rightarrow> string \<Rightarrow> string option"
  wd_message :: "nat \<Rightarrow> (string \<times> worker_job option) option"

record machine =
  ma_db :: db
  ma_tick :: nat
  ma_log :: "effect list"

section \<open>Programs\<close>

type_synonym 'a act = "machine \<Rightarrow> (exc + 'a) \<times> machine"

definition ret :: "'a \<Rightarrow> 'a act" where
  "ret x m = (Inr x, m)"

definition raise :: "exc \<Rightarrow> 'a act" where
  "raise e m = (Inl e, m)"

definition bind_act :: "'a act \<Rightarrow> ('a \<Rightarrow> 'b act) \<Rightarrow> 'b act" where
  "bind_act c f m = (case c m of (Inl e, m') \<Rightarrow> (Inl e, m') | (Inr x, m') \<Rightarrow> f x m')"

text \<open>\<open>try: c except e: h\<close>, and what a handler that does not match does: it raises again.\<close>

definition catch :: "'a act \<Rightarrow> (exc \<Rightarrow> 'a act) \<Rightarrow> 'a act" where
  "catch c h m = (case c m of (Inl e, m') \<Rightarrow> h e m' | (Inr x, m') \<Rightarrow> (Inr x, m'))"

text \<open>The rest of the system moves, then the step runs as one transaction.\<close>

definition tx :: "world \<Rightarrow> (txenv \<Rightarrow> db \<Rightarrow> ('a \<times> db) res) \<Rightarrow> 'a act" where
  "tx w f m =
    (let d = wd_others w (ma_tick m) (ma_db m)
     in case f (wd_env w (ma_tick m)) d of
          Inl e \<Rightarrow> (Inl (Raised e), m\<lparr>ma_db := d, ma_tick := Suc (ma_tick m)\<rparr>)
        | Inr (x, d') \<Rightarrow> (Inr x, m\<lparr>ma_db := d', ma_tick := Suc (ma_tick m)\<rparr>))"

definition reading :: "(txenv \<Rightarrow> db \<Rightarrow> 'a res) \<Rightarrow> txenv \<Rightarrow> db \<Rightarrow> ('a \<times> db) res" where
  "reading f env s = bind_res (f env s) (\<lambda>x. Inr (x, s))"

text \<open>An effect and the answer to it.\<close>

definition outside :: "effect \<Rightarrow> (nat \<Rightarrow> 'a) \<Rightarrow> 'a act" where
  "outside e answer m =
    (Inr (answer (ma_tick m)), m\<lparr>ma_tick := Suc (ma_tick m), ma_log := ma_log m @ [e]\<rparr>)"

section \<open>Reasoning about programs\<close>

text \<open>
  \<open>ensures P c Q E\<close>: from a machine in \<open>P\<close> the program ends in \<open>Q x\<close> when it returns \<open>x\<close>, and in \<open>E e\<close>
  when it raises \<open>e\<close>. Every program here is total.
\<close>

definition ensures ::
    "(machine \<Rightarrow> bool) \<Rightarrow> 'a act \<Rightarrow> ('a \<Rightarrow> machine \<Rightarrow> bool) \<Rightarrow> (exc \<Rightarrow> machine \<Rightarrow> bool) \<Rightarrow> bool" where
  "ensures P c Q E \<longleftrightarrow> (\<forall>m. P m \<longrightarrow>
     (case c m of (Inl e, m') \<Rightarrow> E e m' | (Inr x, m') \<Rightarrow> Q x m'))"

lemma ensuresI:
  assumes "\<And>m e m'. P m \<Longrightarrow> c m = (Inl e, m') \<Longrightarrow> E e m'"
    and "\<And>m x m'. P m \<Longrightarrow> c m = (Inr x, m') \<Longrightarrow> Q x m'"
  shows "ensures P c Q E"
  unfolding ensures_def using assms by (auto split: prod.splits sum.splits)

lemma ensuresD:
  assumes "ensures P c Q E" and "P m"
  shows "c m = (Inl e, m') \<Longrightarrow> E e m'" "c m = (Inr x, m') \<Longrightarrow> Q x m'"
  using assms unfolding ensures_def by (auto dest!: spec[of _ m])

lemma ensures_ret [intro]: "(\<And>m. P m \<Longrightarrow> Q x m) \<Longrightarrow> ensures P (ret x) Q E"
  by (simp add: ensures_def ret_def)

lemma ensures_raise [intro]: "(\<And>m. P m \<Longrightarrow> E e m) \<Longrightarrow> ensures P (raise e) Q E"
  by (simp add: ensures_def raise_def)

lemma ensures_bind:
  assumes "ensures P c R E" and "\<And>x. ensures (R x) (f x) Q E"
  shows "ensures P (bind_act c f) Q E"
  unfolding ensures_def bind_act_def
proof (intro allI impI)
  fix m assume m: "P m"
  show "case case c m of (Inl e, m') \<Rightarrow> (Inl e, m') | (Inr x, m') \<Rightarrow> f x m' of
      (Inl e, m') \<Rightarrow> E e m' | (Inr x, m') \<Rightarrow> Q x m'"
  proof (cases "c m")
    case (Pair r m')
    show ?thesis
    proof (cases r)
      case (Inl e)
      then show ?thesis using ensuresD(1)[OF assms(1) m] Pair by simp
    next
      case (Inr x)
      then have "R x m'" using ensuresD(2)[OF assms(1) m] Pair by simp
      then show ?thesis using assms(2)[of x] Pair Inr by (simp add: ensures_def)
    qed
  qed
qed

lemma ensures_catch:
  assumes "ensures P c Q R" and "\<And>e. ensures (R e) (h e) Q E"
  shows "ensures P (catch c h) Q E"
  unfolding ensures_def catch_def
proof (intro allI impI)
  fix m assume m: "P m"
  show "case case c m of (Inl e, m') \<Rightarrow> h e m' | (Inr x, m') \<Rightarrow> (Inr x, m') of
      (Inl e, m') \<Rightarrow> E e m' | (Inr x, m') \<Rightarrow> Q x m'"
  proof (cases "c m")
    case (Pair r m')
    show ?thesis
    proof (cases r)
      case (Inl e)
      then have "R e m'" using ensuresD(1)[OF assms(1) m] Pair by simp
      then show ?thesis using assms(2)[of e] Pair Inl by (simp add: ensures_def)
    next
      case (Inr x)
      then show ?thesis using ensuresD(2)[OF assms(1) m] Pair by simp
    qed
  qed
qed

lemma ensures_pre: "ensures P c Q E \<Longrightarrow> (\<And>m. P' m \<Longrightarrow> P m) \<Longrightarrow> ensures P' c Q E"
  by (simp add: ensures_def)

lemma ensures_post:
  assumes "ensures P c Q E" and "\<And>x m. Q x m \<Longrightarrow> Q' x m" and "\<And>e m. E e m \<Longrightarrow> E' e m"
  shows "ensures P c Q' E'"
  using assms unfolding ensures_def by (auto split: prod.splits sum.splits)

lemma ensures_tx:
  assumes "\<And>m. P m \<Longrightarrow>
     case f (wd_env w (ma_tick m)) (wd_others w (ma_tick m) (ma_db m)) of
       Inl e \<Rightarrow> E (Raised e) (m\<lparr>ma_db := wd_others w (ma_tick m) (ma_db m), ma_tick := Suc (ma_tick m)\<rparr>)
     | Inr (x, d') \<Rightarrow> Q x (m\<lparr>ma_db := d', ma_tick := Suc (ma_tick m)\<rparr>)"
  shows "ensures P (tx w f) Q E"
  unfolding ensures_def
proof (intro allI impI)
  fix m assume "P m"
  from assms[OF this] show "case tx w f m of (Inl e, m') \<Rightarrow> E e m' | (Inr x, m') \<Rightarrow> Q x m'"
    by (auto simp: tx_def Let_def split: sum.splits prod.splits)
qed

lemma ensures_outside:
  assumes "\<And>m. P m \<Longrightarrow> Q (a (ma_tick m)) (m\<lparr>ma_tick := Suc (ma_tick m), ma_log := ma_log m @ [e]\<rparr>)"
  shows "ensures P (outside e a) Q E"
  using assms by (simp add: ensures_def outside_def)

text \<open>
  A property of the database and one of the log, kept by every step: the shape of the invariants below.
  \<open>keeps I c\<close> says both ends of the program are in \<open>I\<close>, whether it returns or raises.
\<close>

definition keeps :: "(machine \<Rightarrow> bool) \<Rightarrow> 'a act \<Rightarrow> bool" where
  "keeps I c \<longleftrightarrow> (\<forall>m. I m \<longrightarrow> I (snd (c m)))"

lemma keeps_iff: "keeps I c \<longleftrightarrow> ensures I c (\<lambda>_. I) (\<lambda>_. I)"
  unfolding keeps_def ensures_def by (auto split: prod.splits sum.splits) (metis prod.collapse)

lemma keepsD: "keeps I c \<Longrightarrow> I m \<Longrightarrow> c m = (r, m') \<Longrightarrow> I m'"
  unfolding keeps_def by (metis snd_conv)

named_theorems keep_rules \<open>how the steps of a program keep an invariant\<close>

lemma keeps_ret [keep_rules]: "keeps I (ret x)"
  by (simp add: keeps_def ret_def)

lemma keeps_raise [keep_rules]: "keeps I (raise e)"
  by (simp add: keeps_def raise_def)

lemma keeps_bind [keep_rules]: "keeps I c \<Longrightarrow> (\<And>x. keeps I (f x)) \<Longrightarrow> keeps I (bind_act c f)"
  unfolding keeps_iff by (rule ensures_bind)

lemma keeps_catch [keep_rules]: "keeps I c \<Longrightarrow> (\<And>e. keeps I (h e)) \<Longrightarrow> keeps I (catch c h)"
  unfolding keeps_iff by (rule ensures_catch)

lemma keeps_if [keep_rules]: "keeps I c \<Longrightarrow> keeps I d \<Longrightarrow> keeps I (if b then c else d)"
  by simp

lemma keeps_option [keep_rules]:
  "keeps I c \<Longrightarrow> (\<And>y. keeps I (f y)) \<Longrightarrow> keeps I (case x of None \<Rightarrow> c | Some y \<Rightarrow> f y)"
  by (cases x) simp_all

lemma keeps_sum [keep_rules]:
  "(\<And>e. keeps I (f e)) \<Longrightarrow> (\<And>y. keeps I (g y)) \<Longrightarrow> keeps I (case x of Inl e \<Rightarrow> f e | Inr y \<Rightarrow> g y)"
  by (cases x) simp_all

lemma keeps_let [keep_rules]: "keeps I (f x) \<Longrightarrow> keeps I (Let x f)"
  by simp

text \<open>
  A database invariant that the rest of the system keeps is kept by a transaction that keeps it.
\<close>

definition kept_by_others :: "(db \<Rightarrow> bool) \<Rightarrow> world \<Rightarrow> bool" where
  "kept_by_others J w \<longleftrightarrow> (\<forall>k s. J s \<longrightarrow> J (wd_others w k s))"

lemma keeps_tx:
  assumes "kept_by_others J w" and "\<And>env s x s'. J s \<Longrightarrow> f env s = Inr (x, s') \<Longrightarrow> J s'"
  shows "keeps (\<lambda>m. J (ma_db m)) (tx w f)"
  using assms(1) unfolding keeps_def tx_def Let_def kept_by_others_def
  by (auto split: sum.splits prod.splits dest: assms(2)[rotated])

lemma keeps_reading:
  assumes "kept_by_others J w"
  shows "keeps (\<lambda>m. J (ma_db m)) (tx w (reading f))"
  by (rule keeps_tx[OF assms]) (auto simp: reading_def)

lemma keeps_outside: "keeps (\<lambda>m. J (ma_db m)) (outside e a)"
  by (simp add: keeps_def outside_def)

text \<open>A transaction leaves the log alone; an effect adds itself.\<close>

lemma keeps_log_tx: "keeps (\<lambda>m. L (ma_log m)) (tx w f)"
  unfolding keeps_def tx_def Let_def by (auto split: sum.splits prod.splits)

lemma keeps_log_outside: "(\<And>l. L l \<Longrightarrow> L (l @ [e])) \<Longrightarrow> keeps (\<lambda>m. L (ma_log m)) (outside e a)"
  by (simp add: keeps_def outside_def)

text \<open>The number of effects of a kind that a program adds to the log.\<close>

definition counts :: "(effect \<Rightarrow> bool) \<Rightarrow> machine \<Rightarrow> nat" where
  "counts p m = length (filter p (ma_log m))"

definition adds :: "(effect \<Rightarrow> bool) \<Rightarrow> nat \<Rightarrow> 'a act \<Rightarrow> bool" where
  "adds p n c \<longleftrightarrow> (\<forall>m. counts p (snd (c m)) \<le> counts p m + n)"

named_theorems add_rules \<open>how many effects of a kind a program adds\<close>

lemma adds_ret [add_rules]: "adds p 0 (ret x)"
  by (simp add: adds_def ret_def)

lemma adds_raise [add_rules]: "adds p 0 (raise e)"
  by (simp add: adds_def raise_def)

lemma adds_tx [add_rules]: "adds p 0 (tx w f)"
  unfolding adds_def tx_def Let_def counts_def by (auto split: sum.splits prod.splits)

lemma adds_outside [add_rules]: "adds p (if p e then 1 else 0) (outside e a)"
  by (simp add: adds_def outside_def counts_def)

lemma adds_mono: "adds p n c \<Longrightarrow> n \<le> k \<Longrightarrow> adds p k c"
  unfolding adds_def by (meson add_left_mono order_trans)

lemma adds_zero: "adds p 0 c \<Longrightarrow> adds p k c"
  by (erule adds_mono) simp

lemma adds_bind:
  assumes "adds p n c" and "\<And>x. adds p k (f x)"
  shows "adds p (n + k) (bind_act c f)"
  unfolding adds_def
proof
  fix m
  obtain r m' where c: "c m = (r, m')" by fastforce
  have m': "counts p m' \<le> counts p m + n" using assms(1) c unfolding adds_def by (metis snd_conv)
  show "counts p (snd (bind_act c f m)) \<le> counts p m + (n + k)"
  proof (cases r)
    case (Inl e)
    then show ?thesis using m' c by (simp add: bind_act_def)
  next
    case (Inr x)
    have "counts p (snd (f x m')) \<le> counts p m' + k" using assms(2)[of x] by (simp add: adds_def)
    then show ?thesis using m' c Inr by (simp add: bind_act_def)
  qed
qed

lemma adds_catch:
  assumes "adds p n c" and "\<And>e. adds p k (h e)"
  shows "adds p (n + k) (catch c h)"
  unfolding adds_def
proof
  fix m
  obtain r m' where c: "c m = (r, m')" by fastforce
  have m': "counts p m' \<le> counts p m + n" using assms(1) c unfolding adds_def by (metis snd_conv)
  show "counts p (snd (catch c h m)) \<le> counts p m + (n + k)"
  proof (cases r)
    case (Inl e)
    have "counts p (snd (h e m')) \<le> counts p m' + k" using assms(2)[of e] by (simp add: adds_def)
    then show ?thesis using m' c Inl by (simp add: catch_def)
  next
    case (Inr x)
    then show ?thesis using m' c by (simp add: catch_def)
  qed
qed

lemma adds_bind0 [add_rules]: "adds p 0 c \<Longrightarrow> (\<And>x. adds p k (f x)) \<Longrightarrow> adds p k (bind_act c f)"
  using adds_bind[of p 0 c k f] by simp

lemma adds_catch0 [add_rules]: "adds p k c \<Longrightarrow> (\<And>e. adds p 0 (h e)) \<Longrightarrow> adds p k (catch c h)"
  using adds_catch[of p k c 0 h] by simp

lemma adds_if [add_rules]: "adds p k c \<Longrightarrow> adds p k d \<Longrightarrow> adds p k (if b then c else d)"
  by simp

lemma adds_option [add_rules]:
  "adds p k c \<Longrightarrow> (\<And>y. adds p k (f y)) \<Longrightarrow> adds p k (case x of None \<Rightarrow> c | Some y \<Rightarrow> f y)"
  by (cases x) simp_all

lemma adds_sum [add_rules]:
  "(\<And>e. adds p k (f e)) \<Longrightarrow> (\<And>y. adds p k (g y)) \<Longrightarrow> adds p k (case x of Inl e \<Rightarrow> f e | Inr y \<Rightarrow> g y)"
  by (cases x) simp_all

end
