(* ===== verification/Mcp_Gateway.thy ===== *)
theory Mcp_Gateway
  imports Effects
begin

text \<open>
  The gateway to the tool servers (\<open>mcp_gateway.py\<close>): a call is planned, and only a planned call that
  may run now is marked running, sent and completed. The adapters are outside; \<open>gw_servers\<close> are the
  server keys the operator configured, and the answer of a server is taken from the world. Spans and
  metrics are left out. A result is a JSON value.
\<close>

record mcp_gateway =
  gw_servers :: "string list"
  gw_timeout :: rat

definition new_gateway :: "string list \<Rightarrow> rat \<Rightarrow> mcp_gateway res" where
  "new_gateway servers t =
    (if \<not> (1 / 10 \<le> t \<and> t \<le> 120) then Inl (ValueError ''timeout_seconds must be between 0.1 and 120'')
     else Inr \<lparr>gw_servers = servers, gw_timeout = t\<rparr>)"

text \<open>\<open>(context.tool_aliases or {}).get(tool_name, tool_name)\<close>\<close>

definition governed_name :: "exec_context \<Rightarrow> string \<Rightarrow> string" where
  "governed_name ctx name =
    (case x_tool_aliases ctx of None \<Rightarrow> name
     | Some al \<Rightarrow> (case map_of al name of None \<Rightarrow> name | Some g \<Rightarrow> g))"

definition cancelled :: "world \<Rightarrow> exec_context \<Rightarrow> bool act" where
  "cancelled w ctx = tx w (reading (\<lambda>_ s. Inr (is_cancel_requested (x_run ctx) s)))"

text \<open>The failure is recorded, then the call fails; recording it may itself be fenced.\<close>

definition fail_call :: "world \<Rightarrow> exec_context \<Rightarrow> uuid \<Rightarrow> string \<Rightarrow> bool \<Rightarrow> exc \<Rightarrow> json act" where
  "fail_call w ctx cid code retryable e =
    bind_act (tx w (\<lambda>env. tool_complete_failure env cid code retryable ctx)) (\<lambda>_. raise e)"

definition finish_execution :: "world \<Rightarrow> exec_context \<Rightarrow> tool_execution \<Rightarrow> json \<Rightarrow> json act" where
  "finish_execution w ctx x v =
    bind_act
      (catch (tx w (\<lambda>env. tool_complete_success env (te_call x) v ctx)) (\<lambda>e.
         case e of
           Raised (ToolContractError code) \<Rightarrow>
             bind_act (tx w (\<lambda>env. tool_complete_failure env (te_call x) ''mcp_invalid_result'' False ctx))
               (\<lambda>_. raise (GatewayError ''mcp_invalid_result'' False))
         | _ \<Rightarrow> raise e))
      (\<lambda>completed. if completed then ret v else raise (GatewayError ''tool_call_fenced'' True))"

definition run_execution :: "world \<Rightarrow> mcp_gateway \<Rightarrow> exec_context \<Rightarrow> tool_execution \<Rightarrow> json act" where
  "run_execution w gw ctx x =
    (if te_server_key x \<notin> set (gw_servers gw)
     then fail_call w ctx (te_call x) ''mcp_server_unavailable'' True (GatewayError ''mcp_server_unavailable'' True)
     else bind_act (outside (ToolSent (te_call x) (te_server_key x) (te_remote_name x) (te_arguments x)) (wd_tool w))
       (\<lambda>answer. case answer of
          ToolReturned v \<Rightarrow> finish_execution w ctx x v
        | ToolError code retryable \<Rightarrow> fail_call w ctx (te_call x) code retryable (GatewayError code retryable)
        | ToolTimeout \<Rightarrow> fail_call w ctx (te_call x) ''mcp_timeout'' True (GatewayError ''mcp_timeout'' True)
        | ToolCancelled \<Rightarrow> fail_call w ctx (te_call x) ''mcp_cancelled'' True CancelledTask
        | ToolRaised \<Rightarrow> fail_call w ctx (te_call x) ''mcp_call_error'' True (GatewayError ''mcp_call_error'' True)))"

definition start_execution :: "world \<Rightarrow> exec_context \<Rightarrow> uuid \<Rightarrow> tool_execution act" where
  "start_execution w ctx cid =
    catch (tx w (\<lambda>env. mark_running env cid ctx)) (\<lambda>e.
      case e of Raised (ToolContractError code) \<Rightarrow> raise (GatewayError code False) | _ \<Rightarrow> raise e)"

definition invoke ::
    "world \<Rightarrow> mcp_gateway \<Rightarrow> exec_context \<Rightarrow> string \<Rightarrow> string \<Rightarrow> json \<Rightarrow> json act" where
  "invoke w gw ctx key name args =
    bind_act (tx w (\<lambda>env. prepare_call env ctx key (governed_name ctx name) args)) (\<lambda>p.
      case pl_action p of
        PlanReplay \<Rightarrow> ret (case pl_result p of None \<Rightarrow> JNull | Some v \<Rightarrow> v)
      | PlanDeny \<Rightarrow>
          raise (GatewayError (case pl_error p of None \<Rightarrow> ''tool_denied''
                               | Some c \<Rightarrow> if c = [] then ''tool_denied'' else c) False)
      | PlanApproval \<Rightarrow>
          (case pl_approval p of
             None \<Rightarrow> raise (RuntimeError ''approval plan missing approval_id'')
           | Some a \<Rightarrow> raise (ApprovalNeeded (pl_call p) a))
      | PlanExecute \<Rightarrow>
          bind_act (cancelled w ctx) (\<lambda>stop.
            if stop then raise (GatewayError ''cancel_requested'' False)
            else bind_act (start_execution w ctx (pl_call p)) (run_execution w gw ctx)))"

section \<open>At most one send\<close>

definition is_tool_sent :: "effect \<Rightarrow> bool" where
  "is_tool_sent e \<longleftrightarrow> (\<exists>cid server remote args. e = ToolSent cid server remote args)"

lemma fail_call_adds [add_rules]: "adds p 0 (fail_call w ctx cid code r e)"
  unfolding fail_call_def by (intro add_rules)

lemma finish_execution_adds [add_rules]: "adds p 0 (finish_execution w ctx x v)"
proof -
  have h: "adds p 0 (case e of Raised (ToolContractError code) \<Rightarrow>
             bind_act (tx w (\<lambda>env. tool_complete_failure env (te_call x) ''mcp_invalid_result'' False ctx))
               (\<lambda>_. raise (GatewayError ''mcp_invalid_result'' False))
         | _ \<Rightarrow> raise e)" for e
    by (auto split: exc.splits err.splits intro!: add_rules)
  show ?thesis unfolding finish_execution_def by (intro adds_bind0 adds_catch0 add_rules h)
qed

lemma run_execution_adds: "adds p 1 (run_execution w gw ctx x)"
proof -
  have h: "adds p 0 (case answer of
          ToolReturned v \<Rightarrow> finish_execution w ctx x v
        | ToolError code retryable \<Rightarrow> fail_call w ctx (te_call x) code retryable (GatewayError code retryable)
        | ToolTimeout \<Rightarrow> fail_call w ctx (te_call x) ''mcp_timeout'' True (GatewayError ''mcp_timeout'' True)
        | ToolCancelled \<Rightarrow> fail_call w ctx (te_call x) ''mcp_cancelled'' True CancelledTask
        | ToolRaised \<Rightarrow> fail_call w ctx (te_call x) ''mcp_call_error'' True (GatewayError ''mcp_call_error'' True))"
    for answer
    by (cases answer) (simp_all add: add_rules)
  have "adds p (1 + 0) (bind_act (outside (ToolSent (te_call x) (te_server_key x) (te_remote_name x) (te_arguments x))
      (wd_tool w)) (\<lambda>answer. case answer of
          ToolReturned v \<Rightarrow> finish_execution w ctx x v
        | ToolError code retryable \<Rightarrow> fail_call w ctx (te_call x) code retryable (GatewayError code retryable)
        | ToolTimeout \<Rightarrow> fail_call w ctx (te_call x) ''mcp_timeout'' True (GatewayError ''mcp_timeout'' True)
        | ToolCancelled \<Rightarrow> fail_call w ctx (te_call x) ''mcp_cancelled'' True CancelledTask
        | ToolRaised \<Rightarrow> fail_call w ctx (te_call x) ''mcp_call_error'' True (GatewayError ''mcp_call_error'' True)))"
    by (rule adds_bind[OF adds_mono[OF adds_outside] h]) simp
  then show ?thesis
    unfolding run_execution_def by (auto intro: adds_zero[OF fail_call_adds])
qed

lemma start_execution_adds [add_rules]: "adds p 0 (start_execution w ctx cid)"
proof -
  have h: "adds p 0 (case e of Raised (ToolContractError code) \<Rightarrow> raise (GatewayError code False) | _ \<Rightarrow> raise e)" for e
    by (auto split: exc.splits err.splits intro!: add_rules)
  show ?thesis unfolding start_execution_def by (intro adds_catch0 add_rules h)
qed

lemma invoke_adds: "adds p 1 (invoke w gw ctx key name args)"
  unfolding invoke_def
proof (intro adds_bind0 adds_tx)
  fix pl :: call_plan
  show "adds p 1 (case pl_action pl of
        PlanExecute \<Rightarrow> bind_act (cancelled w ctx) (\<lambda>stop.
            if stop then raise (GatewayError ''cancel_requested'' False)
            else bind_act (start_execution w ctx (pl_call pl)) (run_execution w gw ctx))
      | PlanApproval \<Rightarrow>
          (case pl_approval pl of
             None \<Rightarrow> raise (RuntimeError ''approval plan missing approval_id'')
           | Some a \<Rightarrow> raise (ApprovalNeeded (pl_call pl) a))
      | PlanDeny \<Rightarrow>
          raise (GatewayError (case pl_error pl of None \<Rightarrow> ''tool_denied''
                               | Some c \<Rightarrow> if c = [] then ''tool_denied'' else c) False)
      | PlanReplay \<Rightarrow> ret (case pl_result pl of None \<Rightarrow> JNull | Some v \<Rightarrow> v))"
  proof (cases "pl_action pl")
    case PlanExecute
    then show ?thesis unfolding cancelled_def
      by (simp, intro adds_bind0 adds_tx adds_if adds_zero[OF adds_raise] start_execution_adds
          run_execution_adds[unfolded One_nat_def])
  qed (simp_all add: adds_zero[OF adds_raise] adds_zero[OF adds_ret] adds_option)
qed

section \<open>Invariants\<close>

text \<open>A property of the database that every transaction of the gateway keeps is kept by an invocation.\<close>

definition gateway_keeps :: "(db \<Rightarrow> bool) \<Rightarrow> exec_context \<Rightarrow> bool" where
  "gateway_keeps J ctx \<longleftrightarrow>
    (\<forall>env s s' key name args p. J s \<longrightarrow> prepare_call env ctx key name args s = Inr (p, s') \<longrightarrow> J s') \<and>
    (\<forall>env s s' cid x. J s \<longrightarrow> mark_running env cid ctx s = Inr (x, s') \<longrightarrow> J s') \<and>
    (\<forall>env s s' cid v b. J s \<longrightarrow> tool_complete_success env cid v ctx s = Inr (b, s') \<longrightarrow> J s') \<and>
    (\<forall>env s s' cid code r b. J s \<longrightarrow> tool_complete_failure env cid code r ctx s = Inr (b, s') \<longrightarrow> J s')"

lemma invoke_keeps:
  assumes w: "kept_by_others J w" and g: "gateway_keeps J ctx"
  shows "keeps (\<lambda>m. J (ma_db m)) (invoke w gw ctx key name args)"
proof -
  note k = keeps_tx[OF w]
  note g' = g[unfolded gateway_keeps_def]
  note ops = g'[THEN conjunct1, rule_format] g'[THEN conjunct2, THEN conjunct1, rule_format]
    g'[THEN conjunct2, THEN conjunct2, THEN conjunct1, rule_format]
    g'[THEN conjunct2, THEN conjunct2, THEN conjunct2, rule_format]
  have prepare: "keeps (\<lambda>m. J (ma_db m)) (tx w (\<lambda>env. prepare_call env ctx key name args))" for key name args
    by (rule k) (rule ops(1))
  have start: "keeps (\<lambda>m. J (ma_db m)) (tx w (\<lambda>env. mark_running env cid ctx))" for cid
    by (rule k) (rule ops(2))
  have good: "keeps (\<lambda>m. J (ma_db m)) (tx w (\<lambda>env. tool_complete_success env cid v ctx))" for cid v
    by (rule k) (rule ops(3))
  have bad: "keeps (\<lambda>m. J (ma_db m)) (tx w (\<lambda>env. tool_complete_failure env cid code r ctx))" for cid code r
    by (rule k) (rule ops(4))
  note r = keeps_ret keeps_raise keeps_if keeps_outside keeps_bind keeps_catch keeps_reading[OF w]
  have fail: "keeps (\<lambda>m. J (ma_db m)) (fail_call w ctx cid code rt e)" for cid code rt e
    unfolding fail_call_def by (intro r bad)
  have finish: "keeps (\<lambda>m. J (ma_db m)) (finish_execution w ctx x v)" for x v
  proof -
    have h: "keeps (\<lambda>m. J (ma_db m)) (case e of Raised (ToolContractError code) \<Rightarrow>
             bind_act (tx w (\<lambda>env. tool_complete_failure env (te_call x) ''mcp_invalid_result'' False ctx))
               (\<lambda>_. raise (GatewayError ''mcp_invalid_result'' False))
         | _ \<Rightarrow> raise e)" for e
      by (auto split: exc.splits err.splits intro!: r bad)
    show ?thesis unfolding finish_execution_def by (intro r good h)
  qed
  have exec: "keeps (\<lambda>m. J (ma_db m)) (run_execution w gw ctx x)" for x
    unfolding run_execution_def
    by (intro keeps_if fail keeps_bind keeps_outside) (auto split: tool_outcome.splits intro: fail finish)
  have start': "keeps (\<lambda>m. J (ma_db m)) (start_execution w ctx cid)" for cid
  proof -
    have h: "keeps (\<lambda>m. J (ma_db m)) (case e of Raised (ToolContractError code) \<Rightarrow> raise (GatewayError code False) | _ \<Rightarrow> raise e)" for e
      by (auto split: exc.splits err.splits intro!: r)
    show ?thesis unfolding start_execution_def by (intro r start h)
  qed
  have c: "keeps (\<lambda>m. J (ma_db m)) (cancelled w ctx)" unfolding cancelled_def by (rule keeps_reading[OF w])
  show ?thesis
    unfolding invoke_def
    by (intro keeps_bind prepare) (auto split: plan_action.splits option.splits intro!: r c start' exec)
qed

end
