(* ===== verification/Executor.thy ===== *)
theory Executor
  imports Mcp_Gateway
begin

text \<open>
  The agent executor (\<open>executor.py\<close>) with the semantic answer cache's embedding call
  (\<open>answer_cache.py\<close>): the loop that loads or generates a model step, journals it, and runs the tools it
  asks for. Unicode normalisation and case folding of the question are the parameter \<open>xe_fold\<close>; spans
  and metrics are left out.
\<close>

section \<open>Profiles and configuration\<close>

record execution_profile =
  ep_workspaces :: "uuid list"
  ep_providers :: "string list"
  ep_tools :: "string list"
  ep_servers :: "string list"
  ep_max_steps :: nat
  ep_max_output :: int
  ep_max_total :: int
  ep_timeout :: rat
  ep_max_context :: int
  ep_cache_ttl :: int

definition profile_check :: "execution_profile \<Rightarrow> unit res" where
  "profile_check p =
    (if \<not> (1 \<le> ep_max_steps p \<and> ep_max_steps p \<le> 32) then Inl (ValueError ''max_steps must be between 1 and 32'')
     else if \<not> (1 \<le> ep_max_output p \<and> ep_max_output p \<le> 16384) then Inl (ValueError ''invalid max_output_tokens'')
     else if \<not> (1 \<le> ep_max_total p \<and> ep_max_total p \<le> 1000000) then Inl (ValueError ''invalid max_total_tokens'')
     else if \<not> (1 \<le> ep_timeout p \<and> ep_timeout p \<le> 120) then Inl (ValueError ''invalid timeout_seconds'')
     else if \<not> (1000 \<le> ep_max_context p \<and> ep_max_context p \<le> 200000) then Inl (ValueError ''invalid max_context_chars'')
     else if \<not> (0 \<le> ep_cache_ttl p \<and> ep_cache_ttl p \<le> 2592000)
     then Inl (ValueError ''answer_cache_ttl_seconds must be between 0 and 2592000'')
     else Inr ())"

record semantic_config =
  sc_model :: string
  sc_dims :: int
  sc_threshold :: rat
  sc_timeout :: rat
  sc_spend :: "embedding_spend option"

definition semantic_check :: "semantic_config \<Rightarrow> unit res" where
  "semantic_check c =
    (if sc_model c = [] then Inl (ValueError ''semantic cache model is required'')
     else if \<not> (1 \<le> sc_dims c \<and> sc_dims c \<le> 4096)
     then Inl (ValueError ''semantic cache dimensions must be between 1 and 4096'')
     else if \<not> (80 / 100 \<le> sc_threshold c \<and> sc_threshold c \<le> 999 / 1000)
     then Inl (ValueError ''semantic cache similarity threshold must be between 0.80 and 0.999'')
     else if \<not> (1 / 10 \<le> sc_timeout c \<and> sc_timeout c \<le> 120)
     then Inl (ValueError ''semantic cache timeout must be between 0.1 and 120 seconds'')
     else Inr ())"

record agent_executor =
  xe_router :: model_router
  xe_adapters :: "string list"
  xe_gateway :: mcp_gateway
  xe_profiles :: "(string \<times> execution_profile) list"
  xe_retriever :: bool
  xe_semantic :: "semantic_config option"
  xe_prices :: "spend_policy option"
  xe_calendar :: calendar
  xe_vectors :: vector_ops
  xe_fold :: "string \<Rightarrow> string"

text \<open>The embedding of one text: a batch that does not fit the configuration is an error.\<close>

definition embed :: "world \<Rightarrow> semantic_config \<Rightarrow> string \<Rightarrow> (rat list \<times> int) act" where
  "embed w c text =
    bind_act (outside (EmbeddingSent text) (wd_embed w)) (\<lambda>answer.
      case answer of
        Inl e \<Rightarrow> raise (Raised e)
      | Inr b \<Rightarrow>
          if eb_model b \<noteq> sc_model c \<or> eb_dims b \<noteq> sc_dims c \<or> length (eb_vectors b) \<noteq> 1
          then raise (Raised (ValueError ''semantic cache embedding adapter returned an incompatible batch''))
          else ret (hd (eb_vectors b), eb_tokens b))"

section \<open>Cache keys\<close>

definition sha256_of :: "string \<Rightarrow> string" where
  "sha256_of s = sha256_hex s"

text \<open>The fields both keys share; the exact key adds the question, and retrieval adds its evidence.\<close>

definition cache_scope_payload :: "exec_context \<Rightarrow> routing_decision \<Rightarrow> string option \<Rightarrow> dict" where
  "cache_scope_payload ctx d h =
    [(''version'', JInt 1), (''workspace_id'', JStr (uuid_str (x_workspace ctx))),
     (''agent_id'', JStr (uuid_str (x_agent ctx))), (''agent_kind'', JStr (kind_str (x_kind ctx))),
     (''model_profile'', json_opt JStr (x_model_profile ctx)),
     (''provider'', JStr (mc_provider (rd_candidate d))), (''model'', JStr (mc_model (rd_candidate d))),
     (''instructions_sha256'', JStr (sha256_of (case x_instructions ctx of None \<Rightarrow> [] | Some i \<Rightarrow> i)))] @
    (case h of None \<Rightarrow> [] | Some r \<Rightarrow> [(''retrieval_context_sha256'', JStr r)])"

definition answer_cache_scope_key :: "exec_context \<Rightarrow> routing_decision \<Rightarrow> string option \<Rightarrow> string" where
  "answer_cache_scope_key ctx d h = sha256_of (dumps (JObj (cache_scope_payload ctx d h)))"

definition cache_payload :: "(string \<Rightarrow> string) \<Rightarrow> exec_context \<Rightarrow> routing_decision \<Rightarrow> string option \<Rightarrow> dict" where
  "cache_payload nf ctx d h = (''question'', JStr (nf (x_input ctx))) # cache_scope_payload ctx d h"

definition answer_cache_key :: "(string \<Rightarrow> string) \<Rightarrow> exec_context \<Rightarrow> routing_decision \<Rightarrow> string option \<Rightarrow> string" where
  "answer_cache_key nf ctx d h = sha256_of (dumps (JObj (cache_payload nf ctx d h)))"

definition cacheable_response :: "provider_response \<Rightarrow> bool" where
  "cacheable_response r \<longleftrightarrow> rs_finish r = ''stop'' \<and> rs_text r \<noteq> None \<and> rs_text r \<noteq> Some [] \<and>
     rs_tool_calls r = [] \<and> rs_structured r = None"

section \<open>json.dumps with its default separators\<close>

fun spaced_sep :: "string list \<Rightarrow> string" where
  "spaced_sep [] = []"
| "spaced_sep [s] = s"
| "spaced_sep (s # t # ts) = s @ '', '' @ spaced_sep (t # ts)"

fun dumps_spaced :: "(char \<Rightarrow> string) \<Rightarrow> json \<Rightarrow> string"
  and spaced_list :: "(char \<Rightarrow> string) \<Rightarrow> json list \<Rightarrow> string list"
  and spaced_items :: "(char \<Rightarrow> string) \<Rightarrow> dict \<Rightarrow> string list" where
  "dumps_spaced esc JNull = ''null''"
| "dumps_spaced esc (JBool b) = (if b then ''true'' else ''false'')"
| "dumps_spaced esc (JInt i) = int_str i"
| "dumps_spaced esc (JFloat x r) = r"
| "dumps_spaced esc (JStr s) = json_string esc s"
| "dumps_spaced esc (JArr xs) = ''['' @ spaced_sep (spaced_list esc xs) @ '']''"
| "dumps_spaced esc (JObj d) = ''{'' @ spaced_sep (spaced_items esc d) @ ''}''"
| "spaced_list esc [] = []"
| "spaced_list esc (x # xs) = dumps_spaced esc x # spaced_list esc xs"
| "spaced_items esc [] = []"
| "spaced_items esc ((k, v) # d) = (json_string esc k @ '': '' @ dumps_spaced esc v) # spaced_items esc d"

section \<open>Validation of a response\<close>

definition response_malformed :: "provider_response \<Rightarrow> bool" where
  "response_malformed r \<longleftrightarrow> 16 < length (rs_tool_calls r) \<or>
     \<not> distinct (map pc_id (rs_tool_calls r)) \<or>
     list_ex (\<lambda>c. pc_id c = [] \<or> 200 < length (pc_id c) \<or> pc_name c = []) (rs_tool_calls r) \<or>
     100000 < length (case rs_text r of None \<Rightarrow> [] | Some t \<Rightarrow> t) \<or>
     us_input (rs_usage r) < 0 \<or> us_output (rs_usage r) < 0"

definition validate_model_response :: "provider_response \<Rightarrow> unit act" where
  "validate_model_response r =
    (if response_malformed r then raise (TerminalExecution ''invalid_model_response'')
     else if 100000 < length (dumps_spaced json_escape_ascii (JArr (map (\<lambda>c. JObj (pc_arguments c)) (rs_tool_calls r))))
     then raise (TerminalExecution ''model_arguments_too_large'')
     else ret ())"

section \<open>Calling the provider\<close>

definition check_fence :: "world \<Rightarrow> exec_context \<Rightarrow> run_row act" where
  "check_fence w ctx = tx w (reading (\<lambda>env s. store_check env ctx s))"

definition stop_if_cancelled :: "world \<Rightarrow> exec_context \<Rightarrow> unit act" where
  "stop_if_cancelled w ctx =
    bind_act (cancelled w ctx) (\<lambda>stop. if stop then raise (TerminalExecution ''cancel_requested'') else ret ())"

text \<open>One round of the wait for the task: a quarter of a second, then cancellation and the fence.\<close>

fun poll :: "world \<Rightarrow> exec_context \<Rightarrow> nat \<Rightarrow> unit act" where
  "poll w ctx 0 = ret ()"
| "poll w ctx (Suc n) =
    bind_act (stop_if_cancelled w ctx) (\<lambda>_. bind_act (check_fence w ctx) (\<lambda>_. poll w ctx n))"

definition generate :: "world \<Rightarrow> exec_context \<Rightarrow> routing_decision \<Rightarrow> provider_request \<Rightarrow> provider_response act" where
  "generate w ctx d q =
    bind_act (outside (ModelSent (mc_provider (rd_candidate d)) (mc_model (rd_candidate d)) q)
        (\<lambda>k. (wd_polls w k, wd_model w k))) (\<lambda>(n, answer).
      bind_act (poll w ctx (Suc n)) (\<lambda>_.
        case answer of
          ModelReturned r \<Rightarrow> ret r
        | ModelFailed code retryable \<Rightarrow> raise (Raised (ProviderError code retryable))
        | ModelRaised \<Rightarrow> raise (RuntimeError ''provider'')
        | ModelLate \<Rightarrow> raise (RetryableExecution ''provider_timeout'')))"

definition authorize_spend_act :: "world \<Rightarrow> agent_executor \<Rightarrow> exec_context \<Rightarrow> unit act" where
  "authorize_spend_act w ex ctx =
    bind_act (tx w (\<lambda>env s. authorize_spend env (xe_calendar ex) (xe_prices ex) ctx s)) (\<lambda>refused.
      case refused of None \<Rightarrow> ret () | Some e \<Rightarrow> raise (Raised e))"

section \<open>The answer cache in a step\<close>

record cache_keys =
  ck_key :: string
  ck_scope :: string
  ck_question :: string

text \<open>The semantic lookup: a \<open>ProviderError\<close> in it is a miss without an embedding.\<close>

definition semantic_lookup ::
    "world \<Rightarrow> agent_executor \<Rightarrow> semantic_config \<Rightarrow> exec_context \<Rightarrow> nat \<Rightarrow> routing_decision \<Rightarrow> cache_keys \<Rightarrow>
     (rat list option \<times> provider_response option) act" where
  "semantic_lookup w ex c ctx n d ks =
    catch
      (bind_act (tx w (reading (\<lambda>env s. authorize_semantic_cache_spend env (xe_calendar ex) (sc_spend c) ctx s))) (\<lambda>_.
       bind_act (embed w c (ck_question ks)) (\<lambda>(v, tokens).
       bind_act (tx w (\<lambda>env. record_semantic_cache_embedding env (xe_calendar ex) (sc_spend c) ctx tokens)) (\<lambda>_.
       bind_act (tx w (\<lambda>env. restore_semantic_answer_cache env (xe_vectors ex) ctx n (rd_candidate d)
           \<lparr>sq_scope = ck_scope ks, sq_model = sc_model c, sq_dims = sc_dims c, sq_vector = v,
            sq_threshold = sc_threshold c\<rparr>)) (\<lambda>found.
         ret (Some v, found))))))
      (\<lambda>e. case e of Raised (ProviderError _ _) \<Rightarrow> ret (None, None) | _ \<Rightarrow> raise e)"

definition cached_step ::
    "world \<Rightarrow> agent_executor \<Rightarrow> exec_context \<Rightarrow> nat \<Rightarrow> routing_decision \<Rightarrow> cache_keys \<Rightarrow>
     (rat list option \<times> provider_response option) act" where
  "cached_step w ex ctx n d ks =
    bind_act (tx w (\<lambda>env. restore_answer_cache env ctx n (rd_candidate d) (ck_key ks))) (\<lambda>found.
      case (found, xe_semantic ex) of
        (None, Some c) \<Rightarrow> semantic_lookup w ex c ctx n d ks
      | _ \<Rightarrow> ret (None, found))"

text \<open>What \<open>save\<close> is asked to cache: nothing, unless the answer is a plain text that ended by itself.\<close>

definition save_request ::
    "agent_executor \<Rightarrow> execution_profile \<Rightarrow> cache_keys option \<Rightarrow> rat list option \<Rightarrow> provider_response \<Rightarrow>
     cache_request option" where
  "save_request ex p keys v r =
    (case keys of None \<Rightarrow> None
     | Some ks \<Rightarrow>
       if \<not> cacheable_response r then None
       else Some \<lparr>ce_key = ck_key ks, ce_ttl = ep_cache_ttl p,
         ce_scope = (if v = None then None else Some (ck_scope ks)),
         ce_question = (if v = None then None else Some (ck_question ks)), ce_embedding = v,
         ce_model = (if v = None then None else map_option sc_model (xe_semantic ex)),
         ce_dims = (if v = None then None else map_option sc_dims (xe_semantic ex))\<rparr>)"

section \<open>One step\<close>

record session =
  se_profile :: execution_profile
  se_tools :: "provider_tool list"
  se_evidence :: "string option"

text \<open>The number of characters of the prompt; the instructions are needed for it.\<close>

definition context_chars :: "exec_context \<Rightarrow> provider_message list \<Rightarrow> nat act" where
  "context_chars ctx ms =
    (case x_instructions ctx of None \<Rightarrow> raise (Raised (TypeError ''len''))
     | Some _ \<Rightarrow> ret (sum_list (map (\<lambda>m. length (pm_content m)) ms)))"

definition route_request :: "session \<Rightarrow> routing_request" where
  "route_request se =
    \<lparr>rq_capabilities = (if se_tools se = [] then [TextCap] else [TextCap, ToolsCap]),
     rq_providers = ep_providers (se_profile se), rq_max_quality = None, rq_max_cost = None\<rparr>"

definition cache_enabled :: "session \<Rightarrow> bool" where
  "cache_enabled se \<longleftrightarrow> 0 < ep_cache_ttl (se_profile se) \<and> se_tools se = []"

definition step_keys :: "agent_executor \<Rightarrow> session \<Rightarrow> exec_context \<Rightarrow> nat \<Rightarrow> routing_decision \<Rightarrow> cache_keys option" where
  "step_keys ex se ctx n d =
    (if n = 0 \<and> cache_enabled se
     then Some \<lparr>ck_key = answer_cache_key (xe_fold ex) ctx d (se_evidence se),
       ck_scope = answer_cache_scope_key ctx d (se_evidence se), ck_question = xe_fold ex (x_input ctx)\<rparr>
     else None)"

definition model_request ::
    "session \<Rightarrow> exec_context \<Rightarrow> nat \<Rightarrow> int \<Rightarrow> provider_message list \<Rightarrow> provider_request" where
  "model_request se ctx n used ms =
    \<lparr>pq_id = uuid_str (x_run ctx) @ '':'' @ nat_str n @ '':'' @ nat_str (x_attempt ctx),
     pq_messages = ms, pq_tools = se_tools se,
     pq_max_output = min (ep_max_output (se_profile se)) (ep_max_total (se_profile se) - used)\<rparr>"

definition generate_step ::
    "world \<Rightarrow> agent_executor \<Rightarrow> session \<Rightarrow> exec_context \<Rightarrow> nat \<Rightarrow> int \<Rightarrow> provider_message list \<Rightarrow>
     routing_decision \<Rightarrow> cache_keys option \<Rightarrow> rat list option \<Rightarrow> provider_response act" where
  "generate_step w ex se ctx n used ms d keys v =
    (if mc_provider (rd_candidate d) \<notin> set (xe_adapters ex)
     then raise (TerminalExecution ''provider_not_configured'')
     else bind_act (authorize_spend_act w ex ctx) (\<lambda>_.
       bind_act (generate w ctx d (model_request se ctx n used ms)) (\<lambda>r.
       bind_act (validate_model_response r) (\<lambda>_.
       bind_act (tx w (\<lambda>env. save_step env (xe_calendar ex) (xe_prices ex) ctx n d r
           (save_request ex (se_profile se) keys v r))) (\<lambda>_.
         ret r)))))"

definition step_response ::
    "world \<Rightarrow> agent_executor \<Rightarrow> session \<Rightarrow> exec_context \<Rightarrow> nat \<Rightarrow> int \<Rightarrow> provider_message list \<Rightarrow>
     provider_response act" where
  "step_response w ex se ctx n used ms =
    bind_act (tx w (reading (\<lambda>env s. load_step env ctx n s))) (\<lambda>stored.
      case stored of Some r \<Rightarrow> ret r
      | None \<Rightarrow>
        (case route (xe_router ex) (route_request se) of
           Inl e \<Rightarrow> raise (Raised e)
         | Inr d \<Rightarrow>
           (case step_keys ex se ctx n d of
              None \<Rightarrow> generate_step w ex se ctx n used ms d None None
            | Some ks \<Rightarrow>
                bind_act (cached_step w ex ctx n d ks) (\<lambda>(v, found).
                  case found of Some r \<Rightarrow> ret r
                  | None \<Rightarrow> generate_step w ex se ctx n used ms d (Some ks) v))))"

section \<open>The loop\<close>

definition tool_messages :: "provider_tool_call \<Rightarrow> json \<Rightarrow> provider_message list" where
  "tool_messages c v =
    [\<lparr>pm_role = ''assistant'', pm_content = [], pm_tool_call = Some c, pm_tool_call_id = None\<rparr>,
     \<lparr>pm_role = ''tool'', pm_content = dumps_spaced json_escape v, pm_tool_call = None,
      pm_tool_call_id = Some (pc_id c)\<rparr>]"

definition tool_key :: "nat \<Rightarrow> nat \<Rightarrow> string" where
  "tool_key n i = ''step:'' @ nat_str n @ '':tool:'' @ nat_str i"

fun run_tools ::
    "world \<Rightarrow> agent_executor \<Rightarrow> session \<Rightarrow> exec_context \<Rightarrow> nat \<Rightarrow> nat \<Rightarrow> provider_tool_call list \<Rightarrow>
     provider_message list \<Rightarrow> provider_message list act" where
  "run_tools w ex se ctx n i [] ms = ret ms"
| "run_tools w ex se ctx n i (c # cs) ms =
    (if pc_name c \<notin> set (map pt_name (se_tools se)) then raise (TerminalExecution ''model_tool_not_allowed'')
     else bind_act (check_fence w ctx) (\<lambda>_.
       bind_act (invoke w (xe_gateway ex) ctx (tool_key n i) (pc_name c) (JObj (pc_arguments c))) (\<lambda>v.
         run_tools w ex se ctx n (Suc i) cs (ms @ tool_messages c v))))"

text \<open>What the loop does with the response of a step: end, fail, or run the tools it asks for.\<close>

definition after_response ::
    "execution_profile \<Rightarrow> int \<Rightarrow> provider_response \<Rightarrow> (exc + bool)" where
  "after_response p used r =
    (if ep_max_total p < used then Inl (TerminalExecution ''token_budget_exceeded'')
     else if (rs_finish r = ''stop'' \<or> rs_finish r = ''refusal'') \<and> rs_tool_calls r = []
     then (if rs_text r = None \<or> rs_text r = Some [] then Inl (TerminalExecution ''empty_model_response'') else Inr True)
     else if rs_finish r \<noteq> ''tool_call'' \<or> rs_tool_calls r = [] then Inl (TerminalExecution ''model_response_incomplete'')
     else if used = ep_max_total p then Inl (TerminalExecution ''token_budget_exceeded'')
     else Inr False)"

fun run_steps ::
    "world \<Rightarrow> agent_executor \<Rightarrow> session \<Rightarrow> exec_context \<Rightarrow> nat \<Rightarrow> nat \<Rightarrow> int \<Rightarrow> provider_message list \<Rightarrow> unit act" where
  "run_steps w ex se ctx 0 n used ms = raise (TerminalExecution ''step_limit_exceeded'')"
| "run_steps w ex se ctx (Suc left) n used ms =
    bind_act (stop_if_cancelled w ctx) (\<lambda>_.
    bind_act (check_fence w ctx) (\<lambda>_.
    bind_act (context_chars ctx ms) (\<lambda>chars.
      if ep_max_context (se_profile se) < int chars then raise (TerminalExecution ''context_limit_exceeded'')
      else bind_act (step_response w ex se ctx n used ms) (\<lambda>r.
      bind_act (validate_model_response r) (\<lambda>_.
        let used' = used + us_input (rs_usage r) + us_output (rs_usage r)
        in case after_response (se_profile se) used' r of
             Inl e \<Rightarrow> raise e
           | Inr True \<Rightarrow> ret ()
           | Inr False \<Rightarrow>
               bind_act (run_tools w ex se ctx n 0 (rs_tool_calls r) ms) (\<lambda>ms'.
                 run_steps w ex se ctx left (Suc n) used' ms'))))))"

section \<open>Tools, retrieval and the whole execution\<close>

text \<open>\<open>{internal: public for public, internal in aliases.items()}\<close>: the last public name wins.\<close>

definition public_name :: "(string \<times> string) list \<Rightarrow> tool_row \<Rightarrow> string" where
  "public_name al t = (case map_of (rev (map prod.swap al)) (t_name t) of None \<Rightarrow> t_name t | Some p \<Rightarrow> p)"

definition executable_tool :: "execution_profile \<Rightarrow> exec_context \<Rightarrow> (string \<times> string) list \<Rightarrow> tool_row \<Rightarrow> bool" where
  "executable_tool p ctx al t =
    (let name = public_name al t
     in if (case map_of al name of None \<Rightarrow> False | Some g \<Rightarrow> g \<noteq> t_name t) then False
        else if (case x_allowed_tools ctx of None \<Rightarrow> False | Some ns \<Rightarrow> name \<notin> set ns) then False
        else name \<in> set (ep_tools p) \<or> t_server_key t \<in> set (ep_servers p))"

definition advertised_tools :: "execution_profile \<Rightarrow> exec_context \<Rightarrow> tool_row list \<Rightarrow> provider_tool list" where
  "advertised_tools p ctx ts =
    (let al = (case x_tool_aliases ctx of None \<Rightarrow> [] | Some a \<Rightarrow> a)
     in map (\<lambda>t. \<lparr>pt_name = public_name al t, pt_description = t_description t, pt_schema = t_input_schema t\<rparr>)
          (filter (\<lambda>t. t_enabled t \<and> executable_tool p ctx al t) ts))"

definition retrieve :: "world \<Rightarrow> exec_context \<Rightarrow> int \<Rightarrow> string act" where
  "retrieve w ctx limit =
    bind_act (tx w (reading (\<lambda>env s. load_retrieval env ctx s))) (\<lambda>stored.
    bind_act
      (case stored of Some sn \<Rightarrow> ret sn
       | None \<Rightarrow>
         bind_act (outside (RetrievalSent (x_input ctx)) (wd_retrieve w)) (\<lambda>answer.
           case answer of
             Inl e \<Rightarrow> raise e
           | Inr v \<Rightarrow>
             if limit < int (length (evidence_text (rv_chunks v)))
             then raise (TerminalExecution ''context_limit_exceeded'')
             else tx w (\<lambda>env. save_retrieval env ctx v))) (\<lambda>sn.
      if limit < int (length (sn_context sn)) then raise (TerminalExecution ''context_limit_exceeded'')
      else ret (sn_context sn)))"

definition text_message :: "string \<Rightarrow> string \<Rightarrow> provider_message" where
  "text_message role text =
    \<lparr>pm_role = role, pm_content = text, pm_tool_call = None, pm_tool_call_id = None\<rparr>"

definition initial_messages :: "exec_context \<Rightarrow> provider_message list" where
  "initial_messages ctx =
    [text_message ''system'' (case x_instructions ctx of None \<Rightarrow> [] | Some i \<Rightarrow> i),
     text_message ''user'' (x_input ctx)]"

definition find_profile :: "agent_executor \<Rightarrow> exec_context \<Rightarrow> execution_profile option" where
  "find_profile ex ctx =
    (case x_model_profile ctx of None \<Rightarrow> None | Some n \<Rightarrow> map_of (xe_profiles ex) n)"

definition execute_inner :: "world \<Rightarrow> agent_executor \<Rightarrow> exec_context \<Rightarrow> unit act" where
  "execute_inner w ex ctx =
    (case find_profile ex ctx of
       None \<Rightarrow> raise (TerminalExecution ''model_profile_not_authorized'')
     | Some p \<Rightarrow>
       if x_workspace ctx \<notin> set (ep_workspaces p)
       then raise (TerminalExecution ''model_profile_not_authorized'')
       else
       bind_act (check_fence w ctx) (\<lambda>run.
       bind_act (tx w (reading (\<lambda>env s.
           list_tools \<lparr>issuer = r_issuer run, subject = r_subject run\<rparr> (x_workspace ctx) s 101 None))) (\<lambda>tools.
         let adv = advertised_tools p ctx (map fst tools)
         in if 100 < length tools \<or> 32 < length adv then raise (TerminalExecution ''tool_limit_exceeded'')
            else
            bind_act
              (if xe_retriever ex
               then bind_act (context_chars ctx (initial_messages ctx)) (\<lambda>chars.
                    bind_act (retrieve w ctx (ep_max_context p - int chars)) (\<lambda>text. ret (Some text)))
               else ret None) (\<lambda>evidence.
              run_steps w ex
                \<lparr>se_profile = p, se_tools = adv, se_evidence = map_option sha256_of evidence\<rparr>
                ctx (ep_max_steps p) 0 0
                (initial_messages ctx @
                 (case evidence of None \<Rightarrow> [] | Some t \<Rightarrow> if t = [] then [] else [text_message ''user'' t]))))))"

text \<open>\<open>execute\<close> turns the errors of the stores and providers into outcomes of the run.\<close>

definition outcome_of :: "exc \<Rightarrow> exc" where
  "outcome_of e =
    (case e of
       Raised (ProviderError code retryable) \<Rightarrow>
         if retryable then RetryableExecution code else TerminalExecution code
     | Raised (ToolContractError code) \<Rightarrow> TerminalExecution code
     | Raised (SpendLimitExceeded code) \<Rightarrow> TerminalExecution code
     | Raised (SpendPricingError code) \<Rightarrow> TerminalExecution code
     | _ \<Rightarrow> e)"

definition execute :: "world \<Rightarrow> agent_executor \<Rightarrow> exec_context \<Rightarrow> unit act" where
  "execute w ex ctx = catch (execute_inner w ex ctx) (\<lambda>e. raise (outcome_of e))"

end
