(* ===== verification/Worker.thy ===== *)
theory Worker
  imports Executor
begin

text \<open>
  The worker (\<open>worker.py\<close>): one pass expires approvals, recovers runs, relays the outbox, takes one
  message, claims its job, executes it and settles the attempt; the message is acknowledged only when
  the attempt has been settled. Redis is outside: a message is its identifier and the job that parsing
  it gave, if it is one. The heartbeat renews the lease between the transactions of the pass, so it is
  part of what the rest of the system does.
\<close>

record agent_worker =
  wk_id :: string
  wk_lease :: int
  wk_executor :: agent_executor

definition new_worker :: "string \<Rightarrow> int \<Rightarrow> agent_executor \<Rightarrow> agent_worker res" where
  "new_worker i lease ex =
    (if \<not> (3 \<le> lease \<and> lease \<le> 300) then Inl (ValueError ''lease_seconds must be between 3 and 300'')
     else Inr \<lparr>wk_id = i, wk_lease = lease, wk_executor = ex\<rparr>)"

definition acknowledge :: "string \<Rightarrow> unit act" where
  "acknowledge i = outside (Acknowledged i) (\<lambda>_. ())"

text \<open>How an attempt ends: each outcome of the executor has its transaction. A cancelled task has none.\<close>

definition settle :: "world \<Rightarrow> agent_worker \<Rightarrow> worker_job \<Rightarrow> (exc + unit) \<Rightarrow> bool act" where
  "settle w wk job outcome =
    (case outcome of
       Inr _ \<Rightarrow> tx w (\<lambda>env. complete_success env job (wk_id wk))
     | Inl (ApprovalNeeded cid aid) \<Rightarrow> tx w (\<lambda>env. wait_for_approval env job (wk_id wk) cid aid)
     | Inl (GatewayError code retryable) \<Rightarrow> tx w (\<lambda>env. complete_failure env job (wk_id wk) code retryable)
     | Inl (RetryableExecution code) \<Rightarrow> tx w (\<lambda>env. complete_failure env job (wk_id wk) code True)
     | Inl (TerminalExecution code) \<Rightarrow> tx w (\<lambda>env. complete_failure env job (wk_id wk) code False)
     | Inl CancelledTask \<Rightarrow> raise CancelledTask
     | Inl _ \<Rightarrow> tx w (\<lambda>env. complete_failure env job (wk_id wk) ''executor_error'' True))"

text \<open>\<open>try: execute ... except\<close>: the outcome of the executor as a value.\<close>

definition attempt :: "'a act \<Rightarrow> (exc + 'a) act" where
  "attempt c m = (case c m of (r, m') \<Rightarrow> (Inr r, m'))"

definition process_job :: "world \<Rightarrow> agent_worker \<Rightarrow> string \<Rightarrow> worker_job \<Rightarrow> bool act" where
  "process_job w wk mid job =
    bind_act (tx w (\<lambda>env. claim env job (wk_id wk) (wk_lease wk))) (\<lambda>c.
      case c of
        Ack \<Rightarrow> bind_act (acknowledge mid) (\<lambda>_. ret True)
      | Execute ctx \<Rightarrow>
          bind_act (attempt (execute w (wk_executor wk) ctx)) (\<lambda>outcome.
          bind_act (settle w wk job outcome) (\<lambda>handled.
            if handled then bind_act (acknowledge mid) (\<lambda>_. ret True) else ret True)))"

definition housekeeping :: "world \<Rightarrow> unit act" where
  "housekeeping w =
    bind_act (\<lambda>m. tx w (\<lambda>env. expire_due env (wd_locked w (ma_tick m)) 100) m) (\<lambda>_.
    bind_act (\<lambda>m. tx w (\<lambda>env. recover_stale env (wd_locked w (ma_tick m)) 50 60) m) (\<lambda>_.
    bind_act (\<lambda>m. tx w (\<lambda>env. publish_batch env (wd_locked w (ma_tick m)) (wd_xadd w (ma_tick m)) 50) m) (\<lambda>_.
      ret ())))"

definition process_once :: "world \<Rightarrow> agent_worker \<Rightarrow> int \<Rightarrow> bool act" where
  "process_once w wk block_ms =
    (if \<not> (1 \<le> block_ms \<and> block_ms \<le> 5000)
     then raise (Raised (ValueError ''block_ms must be between 1 and 5000''))
     else bind_act (housekeeping w) (\<lambda>_ m.
       case wd_message w (ma_tick m) of
         None \<Rightarrow> ret False m
       | Some (mid, None) \<Rightarrow> bind_act (acknowledge mid) (\<lambda>_. ret True) m
       | Some (mid, Some job) \<Rightarrow> process_job w wk mid job m))"

section \<open>Settling\<close>

text \<open>
  Every settling transaction that reports success has taken the run out of the hands of the attempt.
\<close>

lemma keeps_attempt [keep_rules]: "keeps I c \<Longrightarrow> keeps I (attempt c)"
  unfolding keeps_def attempt_def by (metis (no_types, lifting) case_prod_beta snd_conv)

lemma attempt_Inr: "attempt c m = (Inr r, m') \<longleftrightarrow> c m = (r, m')"
  by (simp add: attempt_def split: prod.splits)

lemma attempt_not_Inl: "attempt c m \<noteq> (Inl e, m')"
  by (simp add: attempt_def split: prod.splits)

end
