(* ===== verification/Worker_Safety.thy ===== *)
theory Worker_Safety
  imports System Worker
begin

text \<open>
  A worker among the others. Whatever the rest of the system does between its transactions, a pass of
  the worker is a sequence of the system's transactions, so all that holds along such sequences holds
  of the worker too, at every point where it may stop.
\<close>

section \<open>Properties that every transaction keeps\<close>

lemma keeps_prod [keep_rules]: "(\<And>a b. keeps I (f a b)) \<Longrightarrow> keeps I (case p of (a, b) \<Rightarrow> f a b)"
  by (cases p) simp

lemma keeps_case_bool [keep_rules]: "keeps I c \<Longrightarrow> keeps I d \<Longrightarrow> keeps I (case b of True \<Rightarrow> c | False \<Rightarrow> d)"
  by (cases b) simp_all

lemma keeps_at: "(\<And>k. keeps I (c k)) \<Longrightarrow> keeps I (\<lambda>m. c (g m) m)"
  by (simp add: keeps_def)

text \<open>The rest of the system is made of the same transactions.\<close>

definition others_step :: "world \<Rightarrow> bool" where
  "others_step w \<longleftrightarrow> (\<forall>k s. step\<^sup>*\<^sup>* s (wd_others w k s))"

locale step_closed =
  fixes J :: "db \<Rightarrow> bool"
  assumes closed: "J s \<Longrightarrow> step s s' \<Longrightarrow> J s'"
begin

abbreviation "kept c \<equiv> keeps (\<lambda>m. J (ma_db m)) c"

lemma kept_tx:
  assumes "kept_by_others J w" and "\<And>env s x s'. J s \<Longrightarrow> f env s = Inr (x, s') \<Longrightarrow> step s s'"
  shows "kept (tx w f)"
  by (rule keeps_tx[OF assms(1)]) (blast intro: closed assms(2))

lemma gateway_kept: "kept_by_others J w \<Longrightarrow> kept (invoke w gw ctx key name args)"
  by (rule invoke_keeps) (auto simp: gateway_keeps_def intro: closed step.intros)

lemma embed_kept: "kept (embed w c text)"
  unfolding embed_def by (intro keep_rules keeps_outside)

lemma fence_kept: "kept_by_others J w \<Longrightarrow> kept (check_fence w ctx)"
  unfolding check_fence_def by (rule keeps_reading)

lemma stop_kept: "kept_by_others J w \<Longrightarrow> kept (stop_if_cancelled w ctx)"
  unfolding stop_if_cancelled_def cancelled_def by (intro keep_rules keeps_reading)

lemma poll_kept: "kept_by_others J w \<Longrightarrow> kept (poll w ctx n)"
  by (induction n) (auto intro!: keep_rules fence_kept stop_kept)

lemma validate_kept: "kept (validate_model_response r)"
  unfolding validate_model_response_def by (intro keep_rules)

lemma generate_kept: "kept_by_others J w \<Longrightarrow> kept (generate w ctx d q)"
  unfolding generate_def
  by (intro keep_rules keeps_outside poll_kept) (auto split: model_outcome.splits intro: keep_rules)

lemma authorize_kept: "kept_by_others J w \<Longrightarrow> kept (authorize_spend_act w ex ctx)"
  unfolding authorize_spend_act_def by (intro keep_rules kept_tx) (assumption | erule st_authorize_spend)+

lemma semantic_kept:
  assumes "kept_by_others J w"
  shows "kept (semantic_lookup w ex c ctx n d ks)"
proof -
  have h: "kept (case e of Raised (ProviderError _ _) \<Rightarrow> ret (None, None) | _ \<Rightarrow> raise e)" for e
    by (auto split: exc.splits err.splits intro: keep_rules)
  show ?thesis
    unfolding semantic_lookup_def
    by (intro keeps_catch keeps_bind keeps_prod keeps_ret keeps_reading[OF assms] embed_kept kept_tx[OF assms] h)
      (erule st_embedding st_restore_semantic)+
qed

lemma cached_kept: "kept_by_others J w \<Longrightarrow> kept (cached_step w ex ctx n d ks)"
  unfolding cached_step_def
  by (intro keeps_bind kept_tx) (auto split: option.splits intro: st_restore semantic_kept keep_rules)

lemma generate_step_kept: "kept_by_others J w \<Longrightarrow> kept (generate_step w ex se ctx n used ms d keys v)"
  unfolding generate_step_def
  by (intro keeps_if keeps_raise keeps_bind authorize_kept generate_kept validate_kept keeps_ret kept_tx)
    (assumption | erule st_save_step)+

lemma step_response_kept:
  assumes "kept_by_others J w"
  shows "kept (step_response w ex se ctx n used ms)"
  unfolding step_response_def
  by (intro keeps_bind keeps_reading[OF assms])
    (auto split: option.splits sum.splits intro!: keep_rules cached_kept[OF assms] generate_step_kept[OF assms])

lemma tools_kept: "kept_by_others J w \<Longrightarrow> kept (run_tools w ex se ctx n i cs ms)"
  by (induction cs arbitrary: i ms) (auto intro!: keep_rules fence_kept gateway_kept)

lemma context_kept: "kept (context_chars ctx ms)"
  unfolding context_chars_def by (intro keep_rules)

lemma steps_kept:
  assumes w: "kept_by_others J w"
  shows "kept (run_steps w ex se ctx left n used ms)"
proof (induction left arbitrary: n used ms)
  case 0
  show ?case by (simp add: keeps_raise)
next
  case (Suc left)
  have "kept (case after_response (se_profile se) used' r of
      Inl e \<Rightarrow> raise e | Inr True \<Rightarrow> ret ()
    | Inr False \<Rightarrow> bind_act (run_tools w ex se ctx n 0 (rs_tool_calls r) ms) (\<lambda>ms'. run_steps w ex se ctx left (Suc n) used' ms'))"
    for used' r
    by (intro keeps_sum keeps_case_bool keeps_raise keeps_ret keeps_bind tools_kept[OF w] Suc.IH)
  then show ?case
    unfolding run_steps.simps Let_def
    by (intro keeps_bind keeps_if keeps_raise stop_kept[OF w] fence_kept[OF w] context_kept
        step_response_kept[OF w] validate_kept)
qed

lemma retrieve_kept:
  assumes w: "kept_by_others J w"
  shows "kept (retrieve w ctx limit)"
proof -
  have "kept (case answer of Inl e \<Rightarrow> raise e
    | Inr v \<Rightarrow> if limit < int (length (evidence_text (rv_chunks v)))
        then raise (TerminalExecution ''context_limit_exceeded'')
        else tx w (\<lambda>env. save_retrieval env ctx v))" for answer
    by (intro keeps_sum keeps_if keeps_raise kept_tx[OF w]) (erule st_save_retrieval)
  then show ?thesis
    unfolding retrieve_def
    by (intro keeps_bind keeps_reading[OF w] keeps_option keeps_ret keeps_outside keeps_if keeps_raise)
qed

lemma execute_inner_kept:
  assumes w: "kept_by_others J w"
  shows "kept (execute_inner w ex ctx)"
  unfolding execute_inner_def Let_def
  by (intro keeps_option keeps_if keeps_bind keeps_raise keeps_ret fence_kept[OF w] keeps_reading[OF w]
      context_kept retrieve_kept[OF w] steps_kept[OF w])

lemma execute_kept: "kept_by_others J w \<Longrightarrow> kept (execute w ex ctx)"
  unfolding execute_def by (intro keeps_catch keeps_raise execute_inner_kept)

lemma housekeeping_kept:
  assumes w: "kept_by_others J w"
  shows "kept (housekeeping w)"
proof -
  have "kept (\<lambda>m. tx w (\<lambda>env. expire_due env (wd_locked w (ma_tick m)) 100) m)"
    by (rule keeps_at) (rule kept_tx[OF w], erule st_expire)
  moreover have "kept (\<lambda>m. tx w (\<lambda>env. recover_stale env (wd_locked w (ma_tick m)) 50 60) m)"
    by (rule keeps_at) (rule kept_tx[OF w], erule st_recover)
  moreover have "kept (\<lambda>m. tx w (\<lambda>env. publish_batch env (wd_locked w (ma_tick m)) (wd_xadd w (ma_tick m)) 50) m)"
    by (rule keeps_at) (rule kept_tx[OF w], erule st_publish)
  ultimately show ?thesis unfolding housekeeping_def by (intro keeps_bind keeps_ret)
qed

lemma acknowledge_kept: "kept (acknowledge i)"
  unfolding acknowledge_def by (rule keeps_outside)

lemma settle_kept:
  assumes w: "kept_by_others J w" and job: "\<And>s. J s \<Longrightarrow> known_job (j_id job) (j_run job) s"
  shows "kept (settle w wk job outcome)"
proof -
  have "kept (tx w (\<lambda>env. complete_success env job (wk_id wk)))"
    "kept (tx w (\<lambda>env. wait_for_approval env job (wk_id wk) cid aid))"
    "kept (tx w (\<lambda>env. complete_failure env job (wk_id wk) code r))" for cid aid code r
    by (rule kept_tx[OF w], blast intro: st_success st_wait st_failure job)+
  then show ?thesis
    unfolding settle_def by (auto split: sum.splits exc.splits intro: keeps_raise)
qed

lemma steps_closed: "step\<^sup>*\<^sup>* s s' \<Longrightarrow> J s \<Longrightarrow> J s'"
  by (induction rule: rtranclp_induct) (auto intro: closed)

lemma others_kept: "others_step w \<Longrightarrow> kept_by_others J w"
  by (auto simp: others_step_def kept_by_others_def intro: steps_closed)

end

section \<open>A whole pass\<close>

lemma claim_known:
  assumes "claim env job w lease s = Inr (Execute ctx, s')"
  shows "known_job (j_id job) (j_run job) s'"
proof -
  obtain d where "validate_job job s = Some d"
    using assms by (cases rule: claim_cases) auto
  from job_frame.V_claim[OF assms validate_job_known[OF this]] show ?thesis .
qed

lemma known_job_step:
  assumes "sys_inv s" and "step s s'" and "known_job j r s"
  shows "known_job j r s'"
proof -
  have "grows jobs s s'" using step_committed[OF assms(1,2)] by (simp add: committed_def history_def)
  from grows_subset[OF this] assms(3) show ?thesis by (auto simp: known_job_iff jobs_def)
qed

locale invariant_closed = step_closed +
  assumes J_sys: "J s \<Longrightarrow> sys_inv s"

sublocale invariant_closed < jobs: step_closed "\<lambda>s. J s \<and> known_job j r s" for j r
  by unfold_locales (blast intro: closed known_job_step J_sys)

context invariant_closed begin

lemma finish_job_kept:
  assumes w: "others_step w"
  shows "keeps (\<lambda>m. J (ma_db m) \<and> known_job (j_id job) (j_run job) (ma_db m))
    (bind_act (attempt (execute w ex ctx)) (\<lambda>outcome. bind_act (settle w wk job outcome) (\<lambda>handled.
      if handled then bind_act (acknowledge mid) (\<lambda>_. ret True) else ret True)))"
  by (intro keeps_bind keeps_attempt keeps_if keeps_ret jobs.execute_kept jobs.settle_kept jobs.acknowledge_kept
      jobs.others_kept w) simp

lemma process_job_kept:
  assumes w: "others_step w"
  shows "kept (process_job w wk mid job)"
  unfolding keeps_iff process_job_def
proof (rule ensures_bind[where R = "\<lambda>c m. J (ma_db m) \<and> (c \<noteq> Ack \<longrightarrow> known_job (j_id job) (j_run job) (ma_db m))"])
  show "ensures (\<lambda>m. J (ma_db m)) (tx w (\<lambda>env. claim env job (wk_id wk) (wk_lease wk)))
     (\<lambda>c m. J (ma_db m) \<and> (c \<noteq> Ack \<longrightarrow> known_job (j_id job) (j_run job) (ma_db m))) (\<lambda>_ m. J (ma_db m))"
  proof (rule ensures_tx)
    fix m
    let ?d = "wd_others w (ma_tick m) (ma_db m)"
    assume "J (ma_db m)"
    then have d: "J ?d" using others_kept[OF w] by (simp add: kept_by_others_def)
    show "case claim (wd_env w (ma_tick m)) job (wk_id wk) (wk_lease wk) ?d of
        Inl e \<Rightarrow> J (ma_db (m\<lparr>ma_db := ?d, ma_tick := Suc (ma_tick m)\<rparr>))
      | Inr (c, d') \<Rightarrow> J (ma_db (m\<lparr>ma_db := d', ma_tick := Suc (ma_tick m)\<rparr>)) \<and>
          (c \<noteq> Ack \<longrightarrow> known_job (j_id job) (j_run job) (ma_db (m\<lparr>ma_db := d', ma_tick := Suc (ma_tick m)\<rparr>)))"
    proof (cases "claim (wd_env w (ma_tick m)) job (wk_id wk) (wk_lease wk) ?d")
      case (Inl e)
      then show ?thesis using d by simp
    next
      case (Inr y)
      obtain c d' where y: "y = (c, d')" by fastforce
      have "J d'" by (rule closed[OF d st_claim[OF Inr[unfolded y]]])
      moreover have "c \<noteq> Ack \<Longrightarrow> known_job (j_id job) (j_run job) d'"
        using claim_known Inr y by (cases c) auto
      ultimately show ?thesis using Inr y by simp
    qed
  qed
next
  fix c
  show "ensures (\<lambda>m. J (ma_db m) \<and> (c \<noteq> Ack \<longrightarrow> known_job (j_id job) (j_run job) (ma_db m)))
     (case c of Ack \<Rightarrow> bind_act (acknowledge mid) (\<lambda>_. ret True)
      | Execute ctx \<Rightarrow> bind_act (attempt (execute w (wk_executor wk) ctx)) (\<lambda>outcome.
          bind_act (settle w wk job outcome) (\<lambda>handled.
            if handled then bind_act (acknowledge mid) (\<lambda>_. ret True) else ret True)))
     (\<lambda>_ m. J (ma_db m)) (\<lambda>_ m. J (ma_db m))"
  proof (cases c)
    case Ack
    have "kept (bind_act (acknowledge mid) (\<lambda>_. ret True))" by (intro keeps_bind keeps_ret acknowledge_kept)
    then show ?thesis using Ack by (simp add: keeps_iff)
  next
    case (Execute ctx)
    from finish_job_kept[OF w, of job "wk_executor wk" ctx wk mid] show ?thesis
      unfolding keeps_iff Execute by (auto elim!: ensures_post ensures_pre)
  qed
qed

lemma process_once_kept:
  assumes w: "others_step w"
  shows "kept (process_once w wk block)"
proof -
  have "kept (\<lambda>m. case wd_message w (ma_tick m) of None \<Rightarrow> ret False m
       | Some (mid, None) \<Rightarrow> bind_act (acknowledge mid) (\<lambda>_. ret True) m
       | Some (mid, Some job) \<Rightarrow> process_job w wk mid job m)"
    unfolding keeps_def
  proof (intro allI impI)
    fix m :: machine
    assume J: "J (ma_db m)"
    have ack: "kept (bind_act (acknowledge mid) (\<lambda>_. ret True))" for mid
      by (intro keeps_bind keeps_ret acknowledge_kept)
    show "J (ma_db (snd (case wd_message w (ma_tick m) of None \<Rightarrow> ret False m
       | Some (mid, None) \<Rightarrow> bind_act (acknowledge mid) (\<lambda>_. ret True) m
       | Some (mid, Some job) \<Rightarrow> process_job w wk mid job m)))"
      using J ack[unfolded keeps_def] process_job_kept[OF w, unfolded keeps_def]
      by (auto split: option.splits simp: ret_def)
  qed
  then show ?thesis
    unfolding process_once_def
    by (intro keeps_if keeps_raise keeps_bind housekeeping_kept[OF others_kept[OF w]])
qed

end

text \<open>The two families of properties: the invariant, and being reachable from a given state.\<close>

interpretation invariants: invariant_closed sys_inv
  by unfold_locales (use step_committed in \<open>auto simp: committed_def\<close>)

interpretation reachable: invariant_closed "\<lambda>s. sys_inv s0 \<and> sys_inv s \<and> step\<^sup>*\<^sup>* s0 s" for s0
  by unfold_locales (auto simp: invariants.closed intro: rtranclp.rtrancl_into_rtrancl)

end
