(* ===== verification/Gateway_Properties.thy ===== *)
theory Gateway_Properties
  imports Worker_Safety Executor_Samples
begin

text \<open>
  The effects of a program on the outside world, and those of the gateway: one request at most, and only
  through its gates.
\<close>

section \<open>The effects of a program\<close>

text \<open>\<open>emits ok c\<close>: the program only appends effects that are \<open>ok\<close> to the log.\<close>

definition emits :: "(effect \<Rightarrow> bool) \<Rightarrow> 'a act \<Rightarrow> bool" where
  "emits ok c \<longleftrightarrow> (\<forall>m. \<exists>es. ma_log (snd (c m)) = ma_log m @ es \<and> list_all ok es)"

named_theorems emit_rules \<open>which effects a program appends\<close>

lemma emitsI: "(\<And>m. \<exists>es. ma_log (snd (c m)) = ma_log m @ es \<and> list_all ok es) \<Longrightarrow> emits ok c"
  by (simp add: emits_def)

lemma emits_ret [emit_rules]: "emits ok (ret x)"
  by (simp add: emits_def ret_def)

lemma emits_raise [emit_rules]: "emits ok (raise e)"
  by (simp add: emits_def raise_def)

lemma emits_tx [emit_rules]: "emits ok (tx w f)"
  unfolding emits_def tx_def Let_def by (auto split: sum.splits prod.splits)

lemma emits_outside: "ok e \<Longrightarrow> emits ok (outside e a)"
  by (simp add: emits_def outside_def)

text \<open>The continuation may use how the value came about.\<close>

lemma emits_bind_value:
  assumes "emits ok c" and "\<And>x m m'. c m = (Inr x, m') \<Longrightarrow> emits ok (f x)"
  shows "emits ok (bind_act c f)"
proof (rule emitsI)
  fix m
  obtain r m1 where c: "c m = (r, m1)" by fastforce
  obtain es where es: "ma_log m1 = ma_log m @ es" "list_all ok es"
    using assms(1) c unfolding emits_def by (metis snd_conv)
  show "\<exists>es. ma_log (snd (bind_act c f m)) = ma_log m @ es \<and> list_all ok es"
  proof (cases r)
    case (Inl e)
    then show ?thesis using c es by (auto simp: bind_act_def)
  next
    case (Inr x)
    with c have "emits ok (f x)" by (intro assms(2)) simp
    then obtain fs where "ma_log (snd (f x m1)) = ma_log m1 @ fs" "list_all ok fs"
      unfolding emits_def by blast
    then show ?thesis using c es Inr by (intro exI[of _ "es @ fs"]) (simp add: bind_act_def)
  qed
qed

lemma emits_bind [emit_rules]: "emits ok c \<Longrightarrow> (\<And>x. emits ok (f x)) \<Longrightarrow> emits ok (bind_act c f)"
  by (rule emits_bind_value)

lemma emits_catch [emit_rules]:
  assumes "emits ok c" and "\<And>e. emits ok (h e)"
  shows "emits ok (catch c h)"
proof (rule emitsI)
  fix m
  obtain r m1 where c: "c m = (r, m1)" by fastforce
  obtain es where es: "ma_log m1 = ma_log m @ es" "list_all ok es"
    using assms(1) c unfolding emits_def by (metis snd_conv)
  show "\<exists>es. ma_log (snd (catch c h m)) = ma_log m @ es \<and> list_all ok es"
  proof (cases r)
    case (Inl e)
    obtain fs where "ma_log (snd (h e m1)) = ma_log m1 @ fs" "list_all ok fs"
      using assms(2)[of e] unfolding emits_def by blast
    then show ?thesis using c es Inl by (intro exI[of _ "es @ fs"]) (simp add: catch_def)
  next
    case (Inr x)
    then show ?thesis using c es by (auto simp: catch_def)
  qed
qed

lemma emits_if [emit_rules]: "(b \<Longrightarrow> emits ok c) \<Longrightarrow> (\<not> b \<Longrightarrow> emits ok d) \<Longrightarrow> emits ok (if b then c else d)"
  by simp

lemma emits_option [emit_rules]:
  "emits ok c \<Longrightarrow> (\<And>y. x = Some y \<Longrightarrow> emits ok (f y)) \<Longrightarrow> emits ok (case x of None \<Rightarrow> c | Some y \<Rightarrow> f y)"
  by (cases x) simp_all

lemma emits_sum [emit_rules]:
  "(\<And>e. x = Inl e \<Longrightarrow> emits ok (f e)) \<Longrightarrow> (\<And>y. x = Inr y \<Longrightarrow> emits ok (g y)) \<Longrightarrow>
    emits ok (case x of Inl e \<Rightarrow> f e | Inr y \<Rightarrow> g y)"
  by (cases x) simp_all

lemma emits_prod [emit_rules]: "(\<And>a b. emits ok (f a b)) \<Longrightarrow> emits ok (case p of (a, b) \<Rightarrow> f a b)"
  by (cases p) simp

lemma emits_bool [emit_rules]: "emits ok c \<Longrightarrow> emits ok d \<Longrightarrow> emits ok (case b of True \<Rightarrow> c | False \<Rightarrow> d)"
  by (cases b) simp_all

section \<open>The gateway\<close>

text \<open>An invocation that is not sent leaves the log; one that is sent has gone through every gate.\<close>

lemma fail_call_log: "snd (fail_call w ctx cid code r e m) = m' \<Longrightarrow> ma_log m' = ma_log m"
  by (auto simp: fail_call_def bind_act_def tx_def Let_def raise_def split: sum.splits prod.splits)

lemma tx_log: "ma_log (snd (tx w f m)) = ma_log m"
  by (simp add: tx_def Let_def split: sum.splits prod.splits)

lemma emits_none: "emits (\<lambda>_. False) c \<Longrightarrow> ma_log (snd (c m)) = ma_log m"
  unfolding emits_def by (metis append_Nil2 list.pred_inject(2) neq_Nil_conv)

lemma fail_call_emits [emit_rules]: "emits ok (fail_call w ctx cid code r e)"
  unfolding fail_call_def by (intro emit_rules)

lemma finish_execution_emits [emit_rules]: "emits ok (finish_execution w ctx x v)"
proof -
  have h: "emits ok (case e of Raised (ToolContractError code) \<Rightarrow>
             bind_act (tx w (\<lambda>env. tool_complete_failure env (te_call x) ''mcp_invalid_result'' False ctx))
               (\<lambda>_. raise (GatewayError ''mcp_invalid_result'' False))
         | _ \<Rightarrow> raise e)" for e
    by (auto split: exc.splits err.splits intro!: emit_rules)
  show ?thesis unfolding finish_execution_def by (intro emit_rules h)
qed

lemma start_execution_emits [emit_rules]: "emits ok (start_execution w ctx cid)"
proof -
  have h: "emits ok (case e of Raised (ToolContractError code) \<Rightarrow> raise (GatewayError code False) | _ \<Rightarrow> raise e)" for e
    by (auto split: exc.splits err.splits intro!: emit_rules)
  show ?thesis unfolding start_execution_def by (intro emit_rules h)
qed

lemma cancelled_emits [emit_rules]: "emits ok (cancelled w ctx)"
  unfolding cancelled_def by (rule emits_tx)

definition sent :: "tool_execution \<Rightarrow> effect" where
  "sent x = ToolSent (te_call x) (te_server_key x) (te_remote_name x) (te_arguments x)"

lemma run_execution_log:
  "ma_log (snd (run_execution w gw ctx x m)) =
    (if te_server_key x \<in> set (gw_servers gw) then ma_log m @ [sent x] else ma_log m)"
proof (cases "te_server_key x \<in> set (gw_servers gw)")
  case True
  let ?m = "m\<lparr>ma_tick := Suc (ma_tick m), ma_log := ma_log m @ [sent x]\<rparr>"
  have h: "emits (\<lambda>_. False) (case answer of
          ToolReturned v \<Rightarrow> finish_execution w ctx x v
        | ToolError code retryable \<Rightarrow> fail_call w ctx (te_call x) code retryable (GatewayError code retryable)
        | ToolTimeout \<Rightarrow> fail_call w ctx (te_call x) ''mcp_timeout'' True (GatewayError ''mcp_timeout'' True)
        | ToolCancelled \<Rightarrow> fail_call w ctx (te_call x) ''mcp_cancelled'' True CancelledTask
        | ToolRaised \<Rightarrow> fail_call w ctx (te_call x) ''mcp_call_error'' True (GatewayError ''mcp_call_error'' True))"
    for answer
    by (cases answer) (simp_all add: emit_rules)
  show ?thesis
    using True emits_none[OF h, of "wd_tool w (ma_tick m)" ?m]
    by (simp add: run_execution_def bind_act_def outside_def sent_def)
next
  case False
  then show ?thesis by (simp add: run_execution_def emits_none fail_call_emits)
qed

lemma bind_act_Inr: "c m = (Inr x, m1) \<Longrightarrow> bind_act c f m = f x m1"
  by (simp add: bind_act_def)

lemma bind_act_Inl: "c m = (Inl e, m1) \<Longrightarrow> bind_act c f m = (Inl e, m1)"
  by (simp add: bind_act_def)

lemma start_execution_Inr:
  "start_execution w ctx cid m = (Inr x, m') \<longleftrightarrow> tx w (\<lambda>env. mark_running env cid ctx) m = (Inr x, m')"
  unfolding start_execution_def catch_def
  by (auto split: prod.splits sum.splits exc.splits err.splits simp: raise_def)

lemma finish_execution_Inr:
  assumes "finish_execution w ctx x v m = (Inr u, m')"
  shows "u = v \<and> tx w (\<lambda>env. tool_complete_success env (te_call x) v ctx) m = (Inr True, m')"
  using assms unfolding finish_execution_def bind_act_def catch_def
  by (auto split: prod.splits sum.splits exc.splits err.splits if_splits simp: raise_def ret_def bind_act_def)

lemma fail_call_not_Inr: "fail_call w ctx cid code r e m \<noteq> (Inr v, m')"
  unfolding fail_call_def bind_act_def by (auto split: prod.splits sum.splits simp: raise_def)

lemma run_execution_Inr:
  assumes "run_execution w gw ctx x m = (Inr v, m')"
  shows "\<exists>m3. tx w (\<lambda>env. tool_complete_success env (te_call x) v ctx) m3 = (Inr True, m')"
proof (cases "te_server_key x \<in> set (gw_servers gw)")
  case True
  let ?m = "m\<lparr>ma_tick := Suc (ma_tick m), ma_log := ma_log m @ [sent x]\<rparr>"
  have "\<exists>r. wd_tool w (ma_tick m) = ToolReturned r \<and> finish_execution w ctx x r ?m = (Inr v, m')"
    using assms True fail_call_not_Inr
    by (auto simp: run_execution_def bind_act_def outside_def sent_def split: tool_outcome.splits)
  then show ?thesis using finish_execution_Inr by blast
next
  case False
  then show ?thesis using assms fail_call_not_Inr by (simp add: run_execution_def)
qed

section \<open>Properties of the gateway\<close>

text \<open>Past the plan: the cancellation check and the start of the call, then the execution.\<close>

lemma started_cases:
  assumes "c = bind_act (cancelled w ctx) (\<lambda>stop. if stop then raise (GatewayError ''cancel_requested'' False)
      else bind_act (start_execution w ctx cid) (run_execution w gw ctx))"
  obtains (silent) e where "fst (c m) = Inl e" "ma_log (snd (c m)) = ma_log m"
  | (executed) m1 x m2 where "cancelled w ctx m = (Inr False, m1)"
      "tx w (\<lambda>env. mark_running env cid ctx) m1 = (Inr x, m2)" "ma_log m2 = ma_log m"
      "c m = run_execution w gw ctx x m2"
proof -
  obtain stop m1 where c: "cancelled w ctx m = (stop, m1)" by fastforce
  have l1: "ma_log m1 = ma_log m" using emits_none[OF cancelled_emits] c by (metis snd_conv)
  obtain rx m2 where s: "start_execution w ctx cid m1 = (rx, m2)" by fastforce
  have l2: "ma_log m2 = ma_log m" using emits_none[OF start_execution_emits] s l1 by (metis snd_conv)
  show thesis
  proof (cases "stop = Inr False")
    case False
    then show ?thesis using c l1 by (cases stop) (auto simp: assms bind_act_def raise_def intro!: silent)
  next
    case go: True
    show ?thesis
    proof (cases rx)
      case (Inl e)
      then show ?thesis using c go s l2 by (intro silent[of e]) (simp_all add: assms bind_act_def)
    next
      case (Inr x)
      from executed[OF c[unfolded go] s[unfolded Inr start_execution_Inr] l2] show ?thesis
        using c go s Inr by (simp add: assms bind_act_def)
    qed
  qed
qed

lemma invoke_cases:
  obtains (silent) "ma_log (snd (invoke w gw ctx key name args m)) = ma_log m"
      "\<And>v. fst (invoke w gw ctx key name args m) = Inr v \<Longrightarrow>
        \<exists>p m0. tx w (\<lambda>env. prepare_call env ctx key (governed_name ctx name) args) m = (Inr p, m0) \<and>
          pl_action p = PlanReplay \<and> v = (case pl_result p of None \<Rightarrow> JNull | Some u \<Rightarrow> u)"
  | (executed) p m0 m1 x m2 where
      "tx w (\<lambda>env. prepare_call env ctx key (governed_name ctx name) args) m = (Inr p, m0)"
      "pl_action p = PlanExecute" "cancelled w ctx m0 = (Inr False, m1)"
      "tx w (\<lambda>env. mark_running env (pl_call p) ctx) m1 = (Inr x, m2)" "ma_log m2 = ma_log m"
      "invoke w gw ctx key name args m = run_execution w gw ctx x m2"
proof -
  obtain r0 m0 where prep: "tx w (\<lambda>env. prepare_call env ctx key (governed_name ctx name) args) m = (r0, m0)"
    by fastforce
  have l0: "ma_log m0 = ma_log m" using tx_log[of w _ m] prep by (metis snd_conv)
  show thesis
  proof (cases r0)
    case (Inl e)
    then show ?thesis using prep l0 by (intro silent) (simp_all add: invoke_def bind_act_def)
  next
    case (Inr p)
    show ?thesis
    proof (cases "pl_action p = PlanExecute")
      case False
      then show ?thesis
        using prep l0 Inr by (cases "pl_action p"; intro silent)
          (auto simp: invoke_def bind_act_def ret_def raise_def split: option.splits)
    next
      case True
      define c where "c = bind_act (cancelled w ctx) (\<lambda>stop. if stop then raise (GatewayError ''cancel_requested'' False)
            else bind_act (start_execution w ctx (pl_call p)) (run_execution w gw ctx))"
      have inv: "invoke w gw ctx key name args m = c m0"
        using True prep Inr by (simp add: invoke_def c_def bind_act_def[of "tx w _"])
      show ?thesis
      proof (rule started_cases[OF c_def, where m = m0])
        fix e
        assume "fst (c m0) = Inl e" and "ma_log (snd (c m0)) = ma_log m0"
        then show thesis using silent inv l0 by simp
      next
        fix m1 x m2
        assume "cancelled w ctx m0 = (Inr False, m1)" and "ma_log m2 = ma_log m0"
          and "tx w (\<lambda>env. mark_running env (pl_call p) ctx) m1 = (Inr x, m2)"
          and "c m0 = run_execution w gw ctx x m2"
        then show thesis using executed[OF prep[unfolded Inr] True] inv l0 by simp
      qed
    qed
  qed
qed

lemma invoke_log:
  "ma_log (snd (invoke w gw ctx key name args m)) = ma_log m \<or>
   (\<exists>x. te_server_key x \<in> set (gw_servers gw) \<and>
      ma_log (snd (invoke w gw ctx key name args m)) = ma_log m @ [sent x])"
proof (cases rule: invoke_cases[of w gw ctx key name args m])
  case (executed p m0 m1 x m2)
  then show ?thesis using run_execution_log[of w gw ctx x m2] by auto
qed simp

text \<open>C6: Nothing reaches a tool server past the gates. An invocation either sends nothing at all, or it
  sends exactly one request: after the plan of the call said to execute it, the run was seen not to be
  cancelled, and the transaction that starts the call accepted it; what is sent is the remote tool, the
  server and the arguments that transaction returned, to a server the operator configured. And a result
  is returned only when it replays a stored one or has just been recorded for the call.\<close>

theorem gateway_gates:
  "(ma_log (snd (invoke w gw ctx key name args m)) = ma_log m \<or>
    (\<exists>p m0 m1 x m2. tx w (\<lambda>env. prepare_call env ctx key (governed_name ctx name) args) m = (Inr p, m0) \<and>
       pl_action p = PlanExecute \<and> cancelled w ctx m0 = (Inr False, m1) \<and>
       tx w (\<lambda>env. mark_running env (pl_call p) ctx) m1 = (Inr x, m2) \<and> te_server_key x \<in> set (gw_servers gw) \<and>
       ma_log (snd (invoke w gw ctx key name args m)) =
         ma_log m @ [ToolSent (te_call x) (te_server_key x) (te_remote_name x) (te_arguments x)])) \<and>
   (case fst (invoke w gw ctx key name args m) of Inl e \<Rightarrow> True
    | Inr v \<Rightarrow>
       (\<exists>p m0. tx w (\<lambda>env. prepare_call env ctx key (governed_name ctx name) args) m = (Inr p, m0) \<and>
          pl_action p = PlanReplay \<and> v = (case pl_result p of None \<Rightarrow> JNull | Some u \<Rightarrow> u)) \<or>
       (\<exists>cid m3. tx w (\<lambda>env. tool_complete_success env cid v ctx) m3 =
          (Inr True, snd (invoke w gw ctx key name args m))))"
proof (cases rule: invoke_cases[of w gw ctx key name args m])
  case silent
  then show ?thesis by (auto split: sum.splits)
next
  case (executed p m0 m1 x m2)
  have "\<exists>m3. tx w (\<lambda>env. tool_complete_success env (te_call x) v ctx) m3 =
      (Inr True, snd (run_execution w gw ctx x m2))"
    if "fst (run_execution w gw ctx x m2) = Inr v" for v
    using run_execution_Inr that by (metis prod.collapse)
  then show ?thesis
    using executed run_execution_log[of w gw ctx x m2] unfolding executed(6)
    by (auto split: sum.splits if_splits simp: sent_def)
qed

end
