(* ===== verification/Worker_Properties.thy ===== *)
theory Worker_Properties
  imports Gateway_Properties Spend_Properties
begin

text \<open>
  What an execution and a pass of the worker do to the outside world: which requests leave the process,
  how many, and when a message is acknowledged.
\<close>

section \<open>Requests of the executor\<close>

definition request_ok :: "agent_executor \<Rightarrow> execution_profile \<Rightarrow> effect \<Rightarrow> bool" where
  "request_ok ex p e =
    (case e of
       ModelSent prov model q \<Rightarrow>
         prov \<in> set (ep_providers p) \<and> prov \<in> set (xe_adapters ex) \<and>
         1 \<le> pq_max_output q \<and> pq_max_output q \<le> ep_max_output p \<and> length (pq_tools q) \<le> 32 \<and>
         int (sum_list (map (\<lambda>m. length (pm_content m)) (pq_messages q))) \<le> ep_max_context p
     | ToolSent cid server remote args \<Rightarrow> server \<in> set (gw_servers (xe_gateway ex))
     | Acknowledged i \<Rightarrow> False
     | _ \<Rightarrow> True)"

lemma route_provider: "route r q = Inr d \<Longrightarrow> mc_provider (rd_candidate d) \<in> set (rq_providers q)"
proof -
  assume "route r q = Inr d"
  note d = route_Inr[OF this]
  have "hd (sort_key (route_key r) (candidates_for r q)) \<in> set (sort_key (route_key r) (candidates_for r q))"
    using d(2) by (intro hd_in_set) (metis length_0_conv length_sort)
  then show ?thesis using d(1) by (auto simp: candidates_for_def policy_eligible_def)
qed

lemma fence_emits [emit_rules]: "emits ok (check_fence w ctx)"
  unfolding check_fence_def by (rule emits_tx)

lemma stop_emits [emit_rules]: "emits ok (stop_if_cancelled w ctx)"
  unfolding stop_if_cancelled_def by (intro emit_rules)

lemma poll_emits [emit_rules]: "emits ok (poll w ctx n)"
  by (induction n) (auto intro!: emit_rules)

lemma validate_emits [emit_rules]: "emits ok (validate_model_response r)"
  unfolding validate_model_response_def by (intro emit_rules)

lemma authorize_emits [emit_rules]: "emits ok (authorize_spend_act w ex ctx)"
  unfolding authorize_spend_act_def by (intro emit_rules)

lemma context_emits [emit_rules]: "emits ok (context_chars ctx ms)"
  unfolding context_chars_def by (intro emit_rules)

lemma generate_emits:
  "ok (ModelSent (mc_provider (rd_candidate d)) (mc_model (rd_candidate d)) q) \<Longrightarrow> emits ok (generate w ctx d q)"
  unfolding generate_def
  by (intro emits_bind emits_outside emits_prod poll_emits)
    (auto split: model_outcome.splits intro: emit_rules)

lemma embed_emits [emit_rules]: "emits (request_ok ex p) (embed w c text)"
  unfolding embed_def by (intro emit_rules emits_outside) (simp add: request_ok_def)

lemma semantic_emits [emit_rules]: "emits (request_ok ex' p) (semantic_lookup w ex c ctx n d ks)"
proof -
  have h: "emits (request_ok ex' p) (case e of Raised (ProviderError _ _) \<Rightarrow> ret (None, None) | _ \<Rightarrow> raise e)" for e
    by (auto split: exc.splits err.splits intro: emit_rules)
  show ?thesis unfolding semantic_lookup_def by (intro emit_rules h)
qed

lemma cached_emits [emit_rules]: "emits (request_ok ex' p) (cached_step w ex ctx n d ks)"
  unfolding cached_step_def by (intro emits_bind emits_tx) (auto split: option.splits intro!: emit_rules)

lemma invoke_emits [emit_rules]: "emits (request_ok ex p) (invoke w (xe_gateway ex) ctx key name args)"
proof (rule emitsI)
  fix m
  show "\<exists>es. ma_log (snd (invoke w (xe_gateway ex) ctx key name args m)) = ma_log m @ es \<and>
      list_all (request_ok ex p) es"
    using invoke_log[of w "xe_gateway ex" ctx key name args m] by (auto simp: request_ok_def sent_def)
qed

lemma tools_emits [emit_rules]: "emits (request_ok ex p) (run_tools w ex se ctx n i cs ms)"
  by (induction cs arbitrary: i ms) (auto intro!: emit_rules)

text \<open>The request of a step: what the loop has checked bounds it.\<close>

lemma generate_step_emits:
  assumes p: "profile_check (se_profile se) = Inr ()" and used: "used < ep_max_total (se_profile se)"
    and tools: "length (se_tools se) \<le> 32"
    and chars: "int (sum_list (map (\<lambda>m. length (pm_content m)) ms)) \<le> ep_max_context (se_profile se)"
    and prov: "mc_provider (rd_candidate d) \<in> set (ep_providers (se_profile se))"
  shows "emits (request_ok ex (se_profile se)) (generate_step w ex se ctx n used ms d keys v)"
proof -
  have "1 \<le> ep_max_output (se_profile se)" using p by (simp add: profile_check_def split: if_splits)
  then have "request_ok ex (se_profile se)
      (ModelSent (mc_provider (rd_candidate d)) (mc_model (rd_candidate d)) (model_request se ctx n used ms))"
    if "mc_provider (rd_candidate d) \<in> set (xe_adapters ex)"
    using that assms by (simp add: request_ok_def model_request_def)
  then show ?thesis
    unfolding generate_step_def by (intro emit_rules generate_emits) simp_all
qed

lemma step_response_emits:
  assumes "profile_check (se_profile se) = Inr ()" and "used < ep_max_total (se_profile se)"
    and "length (se_tools se) \<le> 32"
    and "int (sum_list (map (\<lambda>m. length (pm_content m)) ms)) \<le> ep_max_context (se_profile se)"
  shows "emits (request_ok ex (se_profile se)) (step_response w ex se ctx n used ms)"
proof -
  have "mc_provider (rd_candidate d) \<in> set (ep_providers (se_profile se))"
    if "route (xe_router ex) (route_request se) = Inr d" for d
    using route_provider[OF that] by (simp add: route_request_def)
  then show ?thesis
    unfolding step_response_def by (intro emit_rules generate_step_emits assms)
qed

lemma run_steps_emits:
  assumes p: "profile_check (se_profile se) = Inr ()" and tools: "length (se_tools se) \<le> 32"
    and "used < ep_max_total (se_profile se)"
  shows "emits (request_ok ex (se_profile se)) (run_steps w ex se ctx left n used ms)"
  using assms(3)
proof (induction left arbitrary: n used ms)
  case 0
  show ?case by (simp add: emits_raise)
next
  case (Suc left)
  have rest: "emits (request_ok ex (se_profile se)) (case after_response (se_profile se) used' r of
      Inl e \<Rightarrow> raise e | Inr True \<Rightarrow> ret ()
    | Inr False \<Rightarrow> bind_act (run_tools w ex se ctx n 0 (rs_tool_calls r) ms) (\<lambda>ms'. run_steps w ex se ctx left (Suc n) used' ms'))"
    for used' r
  proof (cases "after_response (se_profile se) used' r")
    case (Inr b)
    then have "b \<or> used' < ep_max_total (se_profile se)"
      by (auto simp: after_response_def split: if_splits)
    with Inr Suc.IH show ?thesis by (cases b) (auto intro!: emit_rules)
  qed (simp add: emits_raise)
  have step: "emits (request_ok ex (se_profile se)) (step_response w ex se ctx n used ms)"
    if "context_chars ctx ms m = (Inr chars, m')" "\<not> ep_max_context (se_profile se) < int chars" for chars m m'
    using that by (intro step_response_emits p tools Suc.prems)
      (auto simp: context_chars_def ret_def raise_def split: option.splits)
  show ?case
    unfolding run_steps.simps Let_def
    by (intro emits_bind emit_rules rest emits_bind_value[OF context_emits] step)
qed

section \<open>How many requests\<close>

definition is_model_sent :: "effect \<Rightarrow> bool" where
  "is_model_sent e \<longleftrightarrow> (\<exists>prov model q. e = ModelSent prov model q)"

lemma adds_prod [add_rules]: "(\<And>a b. adds p k (f a b)) \<Longrightarrow> adds p k (case x of (a, b) \<Rightarrow> f a b)"
  by (cases x) simp

lemma adds_case_bool [add_rules]: "adds p k c \<Longrightarrow> adds p k d \<Longrightarrow> adds p k (case b of True \<Rightarrow> c | False \<Rightarrow> d)"
  by (cases b) simp_all

lemma adds_silent: "emits (\<lambda>e. \<not> p e) c \<Longrightarrow> adds p k c"
  unfolding adds_def counts_def emits_def
proof (intro allI)
  fix m
  assume "\<forall>m. \<exists>es. ma_log (snd (c m)) = ma_log m @ es \<and> list_all (\<lambda>e. \<not> p e) es"
  then obtain es where "ma_log (snd (c m)) = ma_log m @ es" "list_all (\<lambda>e. \<not> p e) es" by blast
  then show "length (filter p (ma_log (snd (c m)))) \<le> length (filter p (ma_log m)) + k"
    by (simp add: filter_False list_all_iff)
qed

lemma adds_bind1: "adds p k c \<Longrightarrow> (\<And>x. adds p 0 (f x)) \<Longrightarrow> adds p k (bind_act c f)"
  using adds_bind[of p k c 0 f] by simp

lemma adds_validated:
  assumes "length (rs_tool_calls r) \<le> 16 \<Longrightarrow> adds p k (f ())"
  shows "adds p k (bind_act (validate_model_response r) f)"
proof (cases "response_malformed r")
  case True
  then have "bind_act (validate_model_response r) f = raise (TerminalExecution ''invalid_model_response'')"
    by (simp add: validate_model_response_def fun_eq_iff bind_act_def raise_def)
  then show ?thesis by (simp add: adds_zero[OF adds_raise])
next
  case False
  then have "adds p k (f ())" by (intro assms) (simp add: response_malformed_def)
  then have "adds p k (f x)" for x by (cases x) simp
  then show ?thesis using adds_bind0[OF adds_silent[OF validate_emits]] by blast
qed

lemma generate_step_adds:
  "adds is_model_sent 1 (generate_step w ex se ctx n used ms d keys v)"
  "adds is_tool_sent 0 (generate_step w ex se ctx n used ms d keys v)"
proof -
  have post: "emits ok (bind_act (poll w ctx (Suc k)) (\<lambda>_. case answer of
          ModelReturned r \<Rightarrow> ret r
        | ModelFailed code retryable \<Rightarrow> raise (Raised (ProviderError code retryable))
        | ModelRaised \<Rightarrow> raise (RuntimeError ''provider'')
        | ModelLate \<Rightarrow> raise (RetryableExecution ''provider_timeout'')))" for ok k answer
    by (intro emits_bind poll_emits) (auto split: model_outcome.splits intro: emit_rules)
  have "adds is_model_sent (1 + 0) (generate w ctx d q)" for q
    unfolding generate_def
    by (intro adds_bind adds_mono[OF adds_outside] adds_prod adds_silent[OF post]) simp
  then have gen: "adds is_model_sent 1 (generate w ctx d q)" for q by simp
  have save: "adds is_model_sent 0 (bind_act (tx w f) (\<lambda>_. ret r))" for f :: "txenv \<Rightarrow> db \<Rightarrow> (unit \<times> db) res" and r :: provider_response
    by (intro adds_bind0 adds_tx adds_ret)
  show "adds is_model_sent 1 (generate_step w ex se ctx n used ms d keys v)"
    unfolding generate_step_def
    by (intro adds_if adds_zero[OF adds_raise] adds_bind0[OF adds_silent[OF authorize_emits]]
        adds_bind1[OF gen] adds_bind0[OF adds_silent[OF validate_emits]] save)
  show "adds is_tool_sent 0 (generate_step w ex se ctx n used ms d keys v)"
    by (rule adds_silent) (auto simp: generate_step_def is_tool_sent_def intro!: emit_rules generate_emits)
qed

lemma cached_silent: "emits (\<lambda>e. \<not> is_model_sent e \<and> \<not> is_tool_sent e) (cached_step w ex ctx n d ks)"
proof -
  have h: "emits ok (case e of Raised (ProviderError _ _) \<Rightarrow> ret (None, None) | _ \<Rightarrow> raise e)" for ok e
    by (auto split: exc.splits err.splits intro: emit_rules)
  have "emits (\<lambda>e. \<not> is_model_sent e \<and> \<not> is_tool_sent e) (semantic_lookup w ex c ctx n d ks)" for c
    unfolding semantic_lookup_def embed_def
    by (intro emit_rules h emits_outside) (simp add: is_model_sent_def is_tool_sent_def)
  then show ?thesis
    unfolding cached_step_def by (intro emits_bind emits_tx) (auto split: option.splits intro!: emit_rules)
qed

lemma emits_mono: "emits ok c \<Longrightarrow> (\<And>e. ok e \<Longrightarrow> ok' e) \<Longrightarrow> emits ok' c"
  unfolding emits_def by (metis list.pred_mono_strong)

lemma step_response_adds:
  "adds is_model_sent 1 (step_response w ex se ctx n used ms)"
  "adds is_tool_sent 0 (step_response w ex se ctx n used ms)"
proof -
  have c: "adds is_model_sent 0 (cached_step w ex ctx n d ks)" "adds is_tool_sent 0 (cached_step w ex ctx n d ks)" for d ks
    by (rule adds_silent, rule emits_mono[OF cached_silent], simp)+
  show "adds is_model_sent 1 (step_response w ex se ctx n used ms)"
    unfolding step_response_def
    by (intro adds_bind0 adds_tx c adds_option adds_sum adds_prod adds_zero[OF adds_raise] adds_zero[OF adds_ret]
        generate_step_adds)
  show "adds is_tool_sent 0 (step_response w ex se ctx n used ms)"
    unfolding step_response_def
    by (intro adds_bind0 adds_tx c adds_option adds_sum adds_prod add_rules generate_step_adds)
qed

lemma run_tools_adds: "adds is_tool_sent (length cs) (run_tools w ex se ctx n i cs ms)"
proof (induction cs arbitrary: i ms)
  case Nil
  show ?case by (simp add: adds_ret)
next
  case (Cons c cs)
  have "adds is_tool_sent (1 + length cs) (bind_act (invoke w (xe_gateway ex) ctx key name args) (\<lambda>v.
      run_tools w ex se ctx n (Suc i) cs (ms @ tool_messages c v)))" for key name args
    by (intro adds_bind invoke_adds Cons.IH)
  then show ?case
    by (auto intro!: adds_zero[OF adds_raise] adds_bind0[OF adds_silent[OF fence_emits]])
qed

lemma run_tools_no_model: "adds is_model_sent 0 (run_tools w ex se ctx n i cs ms)"
proof (induction cs arbitrary: i ms)
  case Nil
  show ?case by (simp add: adds_ret)
next
  case (Cons c cs)
  have "adds is_model_sent 0 (invoke w (xe_gateway ex) ctx key name args)" for key name args
  proof (rule adds_silent, rule emitsI)
    fix m
    show "\<exists>es. ma_log (snd (invoke w (xe_gateway ex) ctx key name args m)) = ma_log m @ es \<and>
        list_all (\<lambda>e. \<not> is_model_sent e) es"
      using invoke_log[of w "xe_gateway ex" ctx key name args m] by (auto simp: is_model_sent_def sent_def)
  qed
  then show ?case
    by (auto intro!: adds_raise adds_bind0[OF adds_silent[OF fence_emits]] adds_bind0 Cons.IH)
qed

text \<open>One step of the loop: one request to a model at most, and sixteen to tools.\<close>

lemma run_step_adds:
  assumes "adds p a (step_response w ex se ctx n used ms)"
    and "\<And>(r :: provider_response) u. length (rs_tool_calls r) \<le> 16 \<Longrightarrow> adds p b (bind_act (run_tools w ex se ctx n 0 (rs_tool_calls r) ms)
      (\<lambda>ms'. run_steps w ex se ctx left (Suc n) u ms'))"
  shows "adds p (a + b) (run_steps w ex se ctx (Suc left) n used ms)"
  unfolding run_steps.simps Let_def
  by (intro adds_bind0[OF adds_silent[OF stop_emits]] adds_bind0[OF adds_silent[OF fence_emits]]
      adds_bind0[OF adds_silent[OF context_emits]] adds_if adds_zero[OF adds_raise] adds_bind[OF assms(1)]
      adds_validated adds_sum adds_case_bool adds_zero[OF adds_ret] assms(2))

lemma run_steps_models: "adds is_model_sent left (run_steps w ex se ctx left n used ms)"
proof (induction left arbitrary: n used ms)
  case 0
  show ?case by (simp add: adds_raise)
next
  case (Suc left)
  have "adds is_model_sent (1 + left) (run_steps w ex se ctx (Suc left) n used ms)"
    by (intro run_step_adds step_response_adds(1) adds_bind0[OF run_tools_no_model] Suc.IH)
  then show ?case by simp
qed

lemma run_steps_tools: "adds is_tool_sent (16 * left) (run_steps w ex se ctx left n used ms)"
proof (induction left arbitrary: n used ms)
  case 0
  show ?case by (simp add: adds_raise)
next
  case (Suc left)
  have "adds is_tool_sent (0 + (16 + 16 * left)) (run_steps w ex se ctx (Suc left) n used ms)"
    by (intro run_step_adds step_response_adds(2) adds_bind[OF adds_mono[OF run_tools_adds] Suc.IH])
  then show ?case by simp
qed

section \<open>A whole execution\<close>

lemma retrieve_emits: "emits ok (retrieve w ctx limit)" if "ok (RetrievalSent (x_input ctx))"
  unfolding retrieve_def using that by (intro emit_rules emits_outside)

lemma evidence_emits:
  "emits ok (if b then bind_act (context_chars ctx ms) (\<lambda>chars. bind_act (retrieve w ctx (l - int chars)) (\<lambda>t. ret (Some t)))
     else ret None)" if "ok (RetrievalSent (x_input ctx))"
  using that by (intro emit_rules retrieve_emits)

lemma execute_inner_emits:
  assumes "find_profile ex ctx = Some p" and p: "profile_check p = Inr ()"
  shows "emits (request_ok ex p) (execute_inner w ex ctx)"
proof -
  have "0 < ep_max_total p" using p by (simp add: profile_check_def split: if_splits)
  then have steps: "emits (request_ok ex p) (run_steps w ex \<lparr>se_profile = p, se_tools = adv, se_evidence = h\<rparr> ctx k 0 0 ms)"
    if "length adv \<le> 32" for adv h k ms
    using run_steps_emits[of "\<lparr>se_profile = p, se_tools = adv, se_evidence = h\<rparr>" 0 ex w ctx k 0 ms] that p by simp
  have ok: "request_ok ex p (RetrievalSent (x_input ctx))" by (simp add: request_ok_def)
  show ?thesis
    unfolding execute_inner_def assms(1) option.case Let_def
    by (intro emits_if emits_raise emits_bind[OF fence_emits] emits_bind[OF emits_tx]
        emits_bind[OF evidence_emits[of "request_ok ex p", OF ok]] steps) simp
qed

lemma execute_inner_adds:
  assumes "find_profile ex ctx = Some p"
  shows "adds is_model_sent (ep_max_steps p) (execute_inner w ex ctx)"
    and "adds is_tool_sent (16 * ep_max_steps p) (execute_inner w ex ctx)"
  unfolding execute_inner_def assms option.case Let_def
  by (intro adds_if adds_zero[OF adds_raise] adds_bind0[OF adds_silent[OF fence_emits]] adds_bind0[OF adds_tx]
      adds_bind0[OF adds_silent[OF evidence_emits]] run_steps_models run_steps_tools;
      simp add: is_model_sent_def is_tool_sent_def)+

lemma execute_log: "ma_log (snd (execute w ex ctx m)) = ma_log (snd (execute_inner w ex ctx m))"
  by (simp add: execute_def catch_def raise_def split: prod.splits sum.splits)

section \<open>A call of a model\<close>

lemma authorize_act_Inr:
  "authorize_spend_act w ex ctx m = (Inr u, m') \<longleftrightarrow>
    tx w (\<lambda>env s. authorize_spend env (xe_calendar ex) (xe_prices ex) ctx s) m = (Inr None, m')"
  by (auto simp: authorize_spend_act_def bind_act_def ret_def raise_def split: prod.splits sum.splits option.splits)

lemma generate_log:
  "ma_log (snd (generate w ctx d q m)) =
    ma_log m @ [ModelSent (mc_provider (rd_candidate d)) (mc_model (rd_candidate d)) q]"
proof -
  have post: "emits (\<lambda>_. False) (bind_act (poll w ctx (Suc k)) (\<lambda>_. case answer of
          ModelReturned r \<Rightarrow> ret r
        | ModelFailed code retryable \<Rightarrow> raise (Raised (ProviderError code retryable))
        | ModelRaised \<Rightarrow> raise (RuntimeError ''provider'')
        | ModelLate \<Rightarrow> raise (RetryableExecution ''provider_timeout'')))" for k answer
    by (intro emits_bind poll_emits) (auto split: model_outcome.splits intro: emit_rules)
  show ?thesis
    using emits_none[OF post[of "wd_polls w (ma_tick m)" "wd_model w (ma_tick m)"],
        of "m\<lparr>ma_tick := Suc (ma_tick m),
             ma_log := ma_log m @ [ModelSent (mc_provider (rd_candidate d)) (mc_model (rd_candidate d)) q]\<rparr>"]
    unfolding generate_def by (simp add: bind_act_def[of "outside _ _"] outside_def)
qed

text \<open>What follows the authorisation of a model call.\<close>

lemma saved_cases:
  assumes c_def: "c = (\<lambda>_ :: unit. bind_act (generate w ctx d q) (\<lambda>r. bind_act (validate_model_response r) (\<lambda>_.
       bind_act (tx w (f r)) (\<lambda>_ :: unit. ret r))))"
  shows "ma_log (snd (c u m)) = ma_log m @ [ModelSent (mc_provider (rd_candidate d)) (mc_model (rd_candidate d)) q] \<and>
    (case fst (c u m) of Inl e \<Rightarrow> True | Inr r \<Rightarrow> \<exists>m3. tx w (f r) m3 = (Inr (), snd (c u m)))"
proof -
  obtain r1 m1 where g: "generate w ctx d q m = (r1, m1)" by fastforce
  have l1: "ma_log m1 = ma_log m @ [ModelSent (mc_provider (rd_candidate d)) (mc_model (rd_candidate d)) q]"
    using generate_log[of w ctx d q m] g by simp
  show ?thesis
  proof (cases r1)
    case (Inl e)
    then show ?thesis using g l1 by (simp add: c_def bind_act_def)
  next
    case (Inr r)
    have eq: "c u m = bind_act (validate_model_response r) (\<lambda>_. bind_act (tx w (f r)) (\<lambda>_. ret r)) m1"
      using g Inr by (simp add: c_def bind_act_def)
    have "emits (\<lambda>_. False) (bind_act (validate_model_response r) (\<lambda>_. bind_act (tx w (f r)) (\<lambda>_. ret r)))"
      by (intro emit_rules)
    from emits_none[OF this, of m1] l1 show ?thesis
      unfolding eq by (auto simp: bind_act_def ret_def split: sum.splits prod.splits)
  qed
qed

section \<open>A sample executor\<close>

definition sample_profile :: execution_profile where
  "sample_profile = \<lparr>ep_workspaces = [10], ep_providers = [''openai''], ep_tools = [], ep_servers = [],
     ep_max_steps = 4, ep_max_output = 1000, ep_max_total = 5000, ep_timeout = 30, ep_max_context = 4000,
     ep_cache_ttl = 0\<rparr>"

definition sample_executor :: agent_executor where
  "sample_executor = \<lparr>xe_router = \<lparr>mo_candidates = [sample_candidate], mo_health = []\<rparr>, xe_adapters = [''openai''],
     xe_gateway = \<lparr>gw_servers = [], gw_timeout = 15\<rparr>, xe_profiles = [(''default'', sample_profile)],
     xe_retriever = False, xe_semantic = None, xe_prices = None, xe_calendar = sample_calendar,
     xe_vectors = sample_vector_ops, xe_fold = id\<rparr>"

text \<open>A world where nobody else runs, one second passes per step, and the model answers at once.\<close>

definition quiet_world :: world where
  "quiet_world = \<lparr>wd_env = (\<lambda>k. env_at (int k * 1000000) (100 * (k + 1))), wd_others = (\<lambda>_ s. s),
     wd_locked = (\<lambda>_ _. False), wd_tool = (\<lambda>_. ToolTimeout), wd_polls = (\<lambda>_. 0),
     wd_model = (\<lambda>_. ModelReturned sample_response), wd_embed = (\<lambda>_. Inl (ProviderError ''e'' True)),
     wd_retrieve = (\<lambda>_. Inl CancelledTask), wd_xadd = (\<lambda>_ _ _. None),
     wd_message = (\<lambda>_. Some (''1-0'', Some sample_job))\<rparr>"

lemma quiet_others: "others_step quiet_world"
  by (simp add: others_step_def quiet_world_def)

section \<open>Properties\<close>



text \<open>C11: No model call escapes the budget or the journal. A step either sends nothing, or it sends
  exactly one request to the provider that was chosen, right after the transaction that compared the
  spend of the month with the limit let it pass; and an answer is used only after the transaction that
  journals and charges it has committed.\<close>

theorem model_call_gates:
  "(ma_log (snd (generate_step w ex se ctx n used ms d keys v m)) = ma_log m \<or>
    (\<exists>m1. tx w (\<lambda>env s. authorize_spend env (xe_calendar ex) (xe_prices ex) ctx s) m = (Inr None, m1) \<and>
       mc_provider (rd_candidate d) \<in> set (xe_adapters ex) \<and>
       ma_log (snd (generate_step w ex se ctx n used ms d keys v m)) = ma_log m @
         [ModelSent (mc_provider (rd_candidate d)) (mc_model (rd_candidate d)) (model_request se ctx n used ms)])) \<and>
   (case fst (generate_step w ex se ctx n used ms d keys v m) of Inl e \<Rightarrow> True
    | Inr r \<Rightarrow> \<exists>m3. tx w (\<lambda>env. save_step env (xe_calendar ex) (xe_prices ex) ctx n d r
          (save_request ex (se_profile se) keys v r)) m3 =
        (Inr (), snd (generate_step w ex se ctx n used ms d keys v m)))"
proof (cases "mc_provider (rd_candidate d) \<in> set (xe_adapters ex)")
  case False
  then show ?thesis by (simp add: generate_step_def raise_def)
next
  case True
  obtain r0 m1 where a: "authorize_spend_act w ex ctx m = (r0, m1)" by fastforce
  have l1: "ma_log m1 = ma_log m" using emits_none[OF authorize_emits] a by (metis snd_conv)
  show ?thesis
  proof (cases r0)
    case (Inl e)
    then show ?thesis using True a l1 by (simp add: generate_step_def bind_act_def)
  next
    case (Inr u)
    let ?f = "\<lambda>r env. save_step env (xe_calendar ex) (xe_prices ex) ctx n d r (save_request ex (se_profile se) keys v r)"
    have eq: "generate_step w ex se ctx n used ms d keys v m =
        bind_act (generate w ctx d (model_request se ctx n used ms)) (\<lambda>r. bind_act (validate_model_response r) (\<lambda>_.
          bind_act (tx w (?f r)) (\<lambda>_. ret r))) m1"
      using True a Inr by (simp add: generate_step_def bind_act_def[of "authorize_spend_act w ex ctx"])
    show ?thesis
      unfolding eq using saved_cases[of _ w ctx d "model_request se ctx n used ms" ?f "()" m1, OF refl] True l1
        a[unfolded Inr authorize_act_Inr] by auto
  qed
qed

end
