(* ===== verification/Pass_Properties.thy ===== *)
theory Pass_Properties
  imports Worker_Properties System_Properties
begin

text \<open>
  A whole pass of a worker (\<open>worker.py\<close>): it is a sequence of the system's transactions, and it
  acknowledges a message only when the job behind it is settled.
\<close>

section \<open>Settling an attempt\<close>

definition stopped :: "uuid \<Rightarrow> db \<Rightarrow> bool" where
  "stopped i s \<longleftrightarrow> (\<exists>r. find_run i s = Some r \<and> r_status r \<noteq> Running)"

lemma stopped_status: "has_status st i s \<Longrightarrow> st \<noteq> Running \<Longrightarrow> stopped i s"
  by (auto simp: has_status_def stopped_def split: option.splits)

lemma success_settles:
  assumes inv: "run_inv s" and ok: "complete_success env job w s = Inr (True, s')"
  shows "stopped (j_run job) s'"
proof -
  obtain run rc where own: "owned_processing env job w s = Some (run, rc)"
    using ok by (auto simp: complete_success_def split: option.splits)
  show ?thesis
  proof (cases "r_cancel_requested run = None")
    case True
    from complete_success_effect[OF inv own this ok] show ?thesis
      using owned_processingD(2)[OF own] by (auto intro: stopped_status)
  next
    case False
    then have "cancel_locked env run job w s = Inr s'" using ok own by (auto simp: complete_success_def)
    from cancel_locked_effect[OF inv own this] show ?thesis
      using owned_processingD(2)[OF own] by (auto intro: stopped_status)
  qed
qed

lemma failure_settles:
  assumes inv: "run_inv s" and ok: "complete_failure env job w code retryable s = Inr (True, s')"
  shows "stopped (j_run job) s'"
proof -
  obtain run rc where own: "owned_processing env job w s = Some (run, rc)"
    using ok by (auto simp: complete_failure_def split: option.splits if_splits)
  consider "cancel_locked env run job w s = Inr s'" | "schedule_retry env job run code s = Inr (True, s')"
    | "fail_run env job run code s = Inr (True, s')"
    using ok own by (auto simp: complete_failure_def split: if_splits)
  then show ?thesis
  proof cases
    case 1
    from cancel_locked_effect[OF inv own this] show ?thesis
      using owned_processingD(2)[OF own] by (auto intro: stopped_status)
  next
    case 2
    from schedule_retry_effect[OF inv own this] show ?thesis
      using owned_processingD(2)[OF own] by (auto intro: stopped_status)
  next
    case 3
    from fail_run_effect[OF inv own this] show ?thesis
      using owned_processingD(2)[OF own] by (auto intro: stopped_status)
  qed
qed

lemma wait_settles:
  assumes inv: "run_inv s" and ok: "wait_for_approval env job w cid aid s = Inr (True, s')"
  shows "stopped (j_run job) s'"
proof -
  obtain run rc where own: "owned_processing env job w s = Some (run, rc)"
    using ok by (auto simp: wait_for_approval_def split: option.splits)
  show ?thesis
  proof (cases "r_cancel_requested run = None")
    case True
    then obtain s1 p where s1: "update_run env (r_id run) (park env) s = Inr s1"
      and s': "s' = append_run_event env (r_workspace run) (r_id run) ''run.waiting_for_approval'' p
             (receipt_done env job Superseded (Some ''waiting_for_approval'') s1)"
      using ok own by (auto simp: wait_for_approval_def split: if_splits)
    have "find_run (r_id run) s' = Some (park env run)"
      using find_after_write[OF s1 owner_row(1)[OF inv own]] by (simp add: s' park_def)
    then show ?thesis using owned_processingD(2)[OF own] by (simp add: stopped_def park_def)
  next
    case False
    then have "cancel_locked env run job w s = Inr s'" using ok own by (auto simp: wait_for_approval_def)
    from cancel_locked_effect[OF inv own this] show ?thesis
      using owned_processingD(2)[OF own] by (auto intro: stopped_status)
  qed
qed

text \<open>Every way of settling is one transaction, and when it says so the run has left the worker's hands.\<close>

lemma tx_Inr:
  "tx w f m = (Inr x, m') \<longleftrightarrow>
    (\<exists>d'. f (wd_env w (ma_tick m)) (wd_others w (ma_tick m) (ma_db m)) = Inr (x, d') \<and>
       m' = m\<lparr>ma_db := d', ma_tick := Suc (ma_tick m)\<rparr>)"
  by (auto simp: tx_def Let_def split: sum.splits prod.splits)

lemma settle_stops:
  assumes w: "others_step w" and inv: "sys_inv (ma_db m)"
    and ok: "settle w wk job outcome m = (Inr True, m')"
  shows "stopped (j_run job) (ma_db m')"
proof -
  let ?d = "wd_others w (ma_tick m) (ma_db m)"
  have d: "run_inv ?d"
    using invariants.steps_closed[OF _ inv] w sys_invD(1) by (simp add: others_step_def)
  have "stopped (j_run job) (ma_db m')"
    if "tx w (\<lambda>env. complete_success env job (wk_id wk)) m = (Inr True, m') \<or>
      tx w (\<lambda>env. wait_for_approval env job (wk_id wk) cid aid) m = (Inr True, m') \<or>
      tx w (\<lambda>env. complete_failure env job (wk_id wk) code r) m = (Inr True, m')" for cid aid code r
    using that success_settles[OF d] failure_settles[OF d] wait_settles[OF d] by (auto simp: tx_Inr)
  then show ?thesis
    using ok by (auto simp: settle_def raise_def split: sum.splits exc.splits)
qed

section \<open>Acknowledging\<close>

lemma settle_emits [emit_rules]: "emits ok (settle w wk job outcome)"
  unfolding settle_def by (auto split: sum.splits exc.splits intro: emit_rules)

lemma attempt_emits: "emits ok c \<Longrightarrow> emits ok (attempt c)"
  unfolding emits_def attempt_def by (simp add: case_prod_beta)

text \<open>An execution acknowledges nothing, whatever profile it finds.\<close>

definition is_ack :: "effect \<Rightarrow> bool" where
  "is_ack e \<longleftrightarrow> (\<exists>i. e = Acknowledged i)"

lemma request_ok_no_ack: "request_ok ex p e \<Longrightarrow> \<not> is_ack e"
  by (auto simp: request_ok_def is_ack_def)

lemma execute_emits_no_ack: "emits (\<lambda>e. \<not> is_ack e) (execute w ex ctx)"
proof -
  have inv: "emits (\<lambda>e. \<not> is_ack e) (invoke w gw ctx key name args)" for gw key name args
  proof (rule emitsI)
    fix m
    show "\<exists>es. ma_log (snd (invoke w gw ctx key name args m)) = ma_log m @ es \<and> list_all (\<lambda>e. \<not> is_ack e) es"
      using invoke_log[of w gw ctx key name args m] by (auto simp: is_ack_def sent_def)
  qed
  have cached: "emits (\<lambda>e. \<not> is_ack e) (cached_step w ex ctx n d ks)" for n d ks
    by (rule emits_mono[OF cached_emits[of ex undefined]]) (rule request_ok_no_ack)
  have step: "emits (\<lambda>e. \<not> is_ack e) (step_response w ex se ctx n used ms)" for se n used ms
    unfolding step_response_def generate_step_def
    by (intro emit_rules cached generate_emits) (simp_all add: is_ack_def)
  have tools: "emits (\<lambda>e. \<not> is_ack e) (run_tools w ex se ctx n i cs ms)" for se n i cs ms
    by (induction cs arbitrary: i ms) (auto intro!: emit_rules inv)
  have steps: "emits (\<lambda>e. \<not> is_ack e) (run_steps w ex se ctx left n used ms)" for se left n used ms
  proof (induction left arbitrary: n used ms)
    case (Suc left)
    show ?case
      unfolding run_steps.simps Let_def by (intro emit_rules step tools Suc.IH)
  qed (simp add: emits_raise)
  show ?thesis
    unfolding execute_def execute_inner_def Let_def
    by (intro emits_catch emits_option emits_if emits_raise emits_bind[OF fence_emits] emits_bind[OF emits_tx]
        emits_bind[OF evidence_emits] steps) (simp add: is_ack_def)
qed

text \<open>The log of a pass over one job.\<close>

lemma emits_acks: "emits (\<lambda>e. \<not> is_ack e) c \<Longrightarrow> c m = (r, m') \<Longrightarrow> counts is_ack m' = counts is_ack m"
proof -
  assume "emits (\<lambda>e. \<not> is_ack e) c" and c: "c m = (r, m')"
  then obtain es where "ma_log (snd (c m)) = ma_log m @ es" "list_all (\<lambda>e. \<not> is_ack e) es" unfolding emits_def by blast
  then show ?thesis using c by (simp add: counts_def filter_False list_all_iff)
qed

lemma process_job_cases:
  assumes w: "others_step w" and inv: "sys_inv (ma_db m)"
  shows "counts is_ack (snd (process_job w wk mid job m)) = counts is_ack m \<or>
    (\<exists>m1. tx w (\<lambda>env. claim env job (wk_id wk) (wk_lease wk)) m = (Inr Ack, m1) \<and>
       ma_db (snd (process_job w wk mid job m)) = ma_db m1) \<or>
    stopped (j_run job) (ma_db (snd (process_job w wk mid job m)))"
proof -
  obtain c m1 where c: "tx w (\<lambda>env. claim env job (wk_id wk) (wk_lease wk)) m = (c, m1)" by fastforce
  have l1: "counts is_ack m1 = counts is_ack m" by (rule emits_acks[OF emits_tx c])
  show ?thesis
  proof (cases c)
    case (Inl e)
    then show ?thesis using c l1 by (simp add: process_job_def bind_act_def)
  next
    case (Inr a)
    show ?thesis
    proof (cases a)
      case Ack
      then show ?thesis using c Inr by (simp add: process_job_def bind_act_def acknowledge_def outside_def ret_def)
    next
      case (Execute ctx)
      obtain out m2 where "execute w (wk_executor wk) ctx m1 = (out, m2)" by fastforce
      then have a: "attempt (execute w (wk_executor wk) ctx) m1 = (Inr out, m2)" by (simp add: attempt_def)
      obtain h m3 where s: "settle w wk job out m2 = (h, m3)" by fastforce
      have eq: "process_job w wk mid job m = (case h of Inl e \<Rightarrow> (Inl e, m3)
          | Inr handled \<Rightarrow> (if handled then bind_act (acknowledge mid) (\<lambda>_. ret True) else ret True) m3)"
        using c Inr Execute a s by (simp add: process_job_def bind_act_def split: sum.splits)
      have l3: "counts is_ack m3 = counts is_ack m"
        using emits_acks[OF attempt_emits[OF execute_emits_no_ack] a] emits_acks[OF settle_emits s] l1 by simp
      show ?thesis
      proof (cases "h = Inr True")
        case False
        then show ?thesis using l3 by (cases h) (simp_all add: eq ret_def)
      next
        case True
        have "sys_inv (ma_db m1)"
          using keepsD[OF invariants.kept_tx[OF invariants.others_kept[OF w] st_claim] inv c] .
        then have "sys_inv (ma_db m2)"
          using keepsD[OF keeps_attempt[OF invariants.execute_kept[OF invariants.others_kept[OF w]]] _ a] by blast
        from settle_stops[OF w this s[unfolded True]] show ?thesis
          using True by (simp add: eq bind_act_def acknowledge_def outside_def ret_def)
      qed
    qed
  qed
qed

section \<open>Samples\<close>

definition sample_worker :: agent_worker where
  "sample_worker = \<lparr>wk_id = ''w1'', wk_lease = 30, wk_executor = sample_executor\<lparr>xe_profiles := []\<rparr>\<rparr>"

definition start_machine :: machine where
  "start_machine = \<lparr>ma_db = queued_db, ma_tick = 0, ma_log = []\<rparr>"

lemma start_inv: "sys_inv (ma_db start_machine)"
  by (simp add: start_machine_def queued_db_sys)

section \<open>Properties\<close>

text \<open>C3: A worker is one more client of the system. Whatever the others do between its transactions, as
  long as they run the system's transactions too, a pass of a worker takes the database along a sequence
  of those transactions, wherever it ends and whatever it raises; so the invariants hold afterwards, no
  run leaves its life cycle and no history is rewritten.\<close>

theorem pass_refines_steps:
  assumes "others_step w" and "sys_inv (ma_db m)"
  shows "step\<^sup>*\<^sup>* (ma_db m) (ma_db (snd (process_once w wk block m))) \<and>
    sys_inv (ma_db (snd (process_once w wk block m)))"
  using reachable.process_once_kept[OF assms(1), of "ma_db m" wk block] assms(2)
  unfolding keeps_def by blast

theorem pass_refines_steps_witness:
  "step\<^sup>*\<^sup>* queued_db (ma_db (snd (process_once quiet_world sample_worker 100 start_machine)))"
  using pass_refines_steps[OF quiet_others start_inv, of sample_worker 100] by (simp add: start_machine_def)

text \<open>C10: No run is lost with its message. A worker acknowledges a message only when the claim said that
  there is nothing left to do for its job, or after the attempt it executed has been settled in the
  database: the run is then not running any more, it has ended, or is queued again, or waits for an
  approval. An attempt that could not be settled leaves the message to be delivered again.\<close>

theorem acknowledged_when_settled:
  assumes "others_step w" and "sys_inv (ma_db m)"
    and "counts is_ack (snd (process_job w wk mid job m)) \<noteq> counts is_ack m"
  shows "(\<exists>m1. tx w (\<lambda>env. claim env job (wk_id wk) (wk_lease wk)) m = (Inr Ack, m1) \<and>
       ma_db (snd (process_job w wk mid job m)) = ma_db m1) \<or>
    (\<exists>r. find_run (j_run job) (ma_db (snd (process_job w wk mid job m))) = Some r \<and> r_status r \<noteq> Running)"
  using process_job_cases[OF assms(1,2), of wk mid job] assms(3) by (auto simp: stopped_def)

lemma sample_claimed:
  "tx quiet_world (\<lambda>env. claim env sample_job ''w1'' 30) start_machine =
    (Inr (Execute sample_context), \<lparr>ma_db = running_db, ma_tick = 1, ma_log = []\<rparr>)"
proof -
  have "claim (env_at 0 100) sample_job ''w1'' 30 queued_db = Inr (Execute sample_context, running_db)"
    by (simp add: claim_defs sample_defs sample_context_def)
  then show ?thesis by (simp add: tx_def quiet_world_def start_machine_def)
qed

lemma sample_unauthorised:
  "execute w (sample_executor\<lparr>xe_profiles := []\<rparr>) ctx m = (Inl (TerminalExecution ''model_profile_not_authorized''), m)"
  by (simp add: execute_def execute_inner_def find_profile_def catch_def raise_def outcome_of_def split: option.splits)

lemma sample_settled:
  "\<exists>m'. settle quiet_world sample_worker sample_job (Inl (TerminalExecution ''model_profile_not_authorized''))
    \<lparr>ma_db = running_db, ma_tick = 1, ma_log = []\<rparr> = (Inr True, m') \<and> ma_log m' = []"
proof -
  have "owned_processing (env_at 1000000 200) sample_job ''w1'' running_db = Some (running_run, running_receipt)"
    by (simp add: sample_owned)
  moreover have "r_cancel_requested running_run = None" by (simp add: sample_defs)
  moreover obtain x d where "complete_failure (env_at 1000000 200) sample_job ''w1'' ''model_profile_not_authorized'' False running_db = Inr (x, d)"
    using complete_failure_total[OF running_db_inv, of "env_at 1000000 200" "''model_profile_not_authorized''" sample_job "''w1''" False]
    by (auto simp: fresh_jobs_def sample_defs)
  ultimately have "complete_failure (env_at 1000000 200) sample_job ''w1'' ''model_profile_not_authorized'' False running_db = Inr (True, d)"
    by (auto simp: complete_failure_def fail_run_def)
  then show ?thesis
    by (simp add: settle_def tx_def quiet_world_def sample_worker_def)
qed

theorem acknowledged_when_settled_witness:
  "\<exists>r. find_run 20 (ma_db (snd (process_job quiet_world sample_worker ''1-0'' sample_job start_machine))) = Some r \<and>
    r_status r \<noteq> Running"
proof -
  obtain m' where s: "settle quiet_world sample_worker sample_job (Inl (TerminalExecution ''model_profile_not_authorized''))
    \<lparr>ma_db = running_db, ma_tick = 1, ma_log = []\<rparr> = (Inr True, m')" "ma_log m' = []"
    using sample_settled by blast
  have w: "wk_id sample_worker = ''w1''" "wk_lease sample_worker = 30"
    "wk_executor sample_worker = sample_executor\<lparr>xe_profiles := []\<rparr>"
    by (simp_all add: sample_worker_def)
  have "ma_log (snd (process_job quiet_world sample_worker ''1-0'' sample_job start_machine)) = [Acknowledged ''1-0'']"
    using s by (simp add: process_job_def bind_act_def w sample_claimed attempt_def sample_unauthorised
        acknowledge_def outside_def ret_def)
  then have "counts is_ack (snd (process_job quiet_world sample_worker ''1-0'' sample_job start_machine)) \<noteq>
      counts is_ack start_machine"
    by (simp add: counts_def is_ack_def start_machine_def)
  from acknowledged_when_settled[OF quiet_others start_inv this] show ?thesis
    unfolding w using sample_claimed by (auto simp: sample_job_def)
qed

end
