(* ===== verification/Task_Properties.thy ===== *)
theory Task_Properties
  imports System_Properties
begin

text \<open>
  The properties of the task graph: a follow-up is closed only on the evidence of tool calls that the
  gateway recorded, planning it is idempotent, and the graph stays a forest of one run each.
\<close>

section \<open>What a call must be to count\<close>

lemma latest_call_observed:
  assumes "latest_call ctx name p since s = Some c"
  shows "c \<in> set (tool_calls s)" "observed ctx name p since s c"
proof -
  obtain cs where "order_limit (\<lambda>c. (- finished_at c, - uint (c_id c))) 1 (observed ctx name p since s) (tool_calls s) = c # cs"
    using assms by (auto simp: latest_call_def split: list.splits)
  then have "c \<in> set (order_limit (\<lambda>c. (- finished_at c, - uint (c_id c))) 1 (observed ctx name p since s) (tool_calls s))"
    by simp
  from order_limit_memD[OF this] show "c \<in> set (tool_calls s)" "observed ctx name p since s c" by simp_all
qed

text \<open>A succeeded call of the run, of a tool of the given kind, that finished at or after an instant.\<close>

definition grounds :: "exec_context \<Rightarrow> (side_effect \<Rightarrow> bool) \<Rightarrow> time \<Rightarrow> db \<Rightarrow> call_row \<Rightarrow> bool" where
  "grounds ctx p since s c \<longleftrightarrow> c \<in> set (tool_calls s) \<and> c_run c = x_run ctx \<and> c_workspace c = x_workspace ctx \<and>
     c_status c = CallSucceeded \<and> since \<le> finished_at c \<and>
     (\<exists>t. tool_of_call c s = Some t \<and> p (t_side_effect t))"

lemma latest_call_grounds: "latest_call ctx name p since s = Some c \<Longrightarrow> grounds ctx p since s c"
  using latest_call_observed[of ctx name p since s c]
  by (auto simp: grounds_def observed_def finished_at_def call_finished_since_def split: option.splits)

lemma observed_action_grounds:
  assumes "observed_action ctx k s = Inr (action, since)"
  shows "k_created k \<le> since \<and> (k_action_tool k \<noteq> None \<longrightarrow>
    (\<exists>a. grounds ctx (\<lambda>e. e \<noteq> ReadEffect) (k_created k) s a \<and> action = Some (c_id a) \<and> since = finished_at a))"
proof (cases "k_action_tool k")
  case None
  then show ?thesis using assms by (simp add: observed_action_def)
next
  case (Some tool)
  then obtain name c where c: "latest_call ctx name (\<lambda>e. e \<noteq> ReadEffect) (k_created k) s = Some c"
    "action = Some (c_id c)" "since = finished_at c"
    using assms by (auto simp: observed_action_def split: option.splits)
  from latest_call_grounds[OF c(1)] c(2,3) show ?thesis by (auto simp: grounds_def)
qed

section \<open>Samples\<close>

definition status_tool :: tool_row where
  "status_tool = \<lparr>t_id = 63, t_workspace = 10, t_name = ''status'', t_server_key = ''ops'', t_remote_name = ''status'',
     t_description = ''read the state of a host'', t_input_schema = JObj [], t_output_schema = None,
     t_side_effect = ReadEffect, t_enabled = True, t_issuer = ''iss'', t_subject = ''alice'', t_created = 0,
     t_updated = 0\<rparr>"

definition restart_tool :: tool_row where
  "restart_tool = status_tool\<lparr>t_id := 60, t_name := ''restart'', t_remote_name := ''restart'', t_side_effect := WriteEffect\<rparr>"

definition ended_call :: "uuid \<Rightarrow> uuid \<Rightarrow> string \<Rightarrow> time \<Rightarrow> call_row" where
  "ended_call i tool key t = \<lparr>c_id = i, c_workspace = 10, c_run = 20, c_tool = tool, c_key = key, c_arguments = JObj [],
     c_arguments_hash = [], c_contract_hash = [], c_status = CallSucceeded, c_policy = Allow, c_result = Some JNull,
     c_error = None, c_attempt = 1, c_created = 1, c_updated = t, c_started = Some 1, c_finished = Some t\<rparr>"

definition goal_task :: task_row where
  "goal_task = \<lparr>k_id = 20, k_workspace = 10, k_run = 20, k_parent = None, k_kind = GoalTask, k_title = ''Run goal'',
     k_description = [], k_status = TRunning, k_action_tool = None, k_verification = NotRequired,
     k_idempotency_key = ''goal:20'', k_request_hash = [], k_created = 0, k_updated = 0, k_completed = None\<rparr>"

definition restart_task :: task_row where
  "restart_task = \<lparr>k_id = 70, k_workspace = 10, k_run = 20, k_parent = Some 20, k_kind = FollowUpTask,
     k_title = ''restart the host'', k_description = [], k_status = TPlanned, k_action_tool = Some ''restart'',
     k_verification = VPending, k_idempotency_key = ''task-one'',
     k_request_hash = task_request_hash ''restart the host'' [] (Some ''restart'') [],
     k_created = 1, k_updated = 1, k_completed = None\<rparr>"

definition goal_db :: db where
  "goal_db = running_db\<lparr>tool_definitions := [restart_tool, status_tool],
     tool_calls := [ended_call 61 60 ''a'' 2, ended_call 62 63 ''b'' 3], run_tasks := [goal_task]\<rparr>"

definition planned_db :: db where
  "planned_db = goal_db\<lparr>run_tasks := [goal_task, restart_task]\<rparr>"

definition restart_evidence :: task_evidence_row where
  "restart_evidence = \<lparr>ke_id = 80, ke_workspace = 10, ke_run = 20, ke_task = 70, ke_action_call = Some 61,
     ke_verification_call = 62, ke_tool = ''status'', ke_summary = ''the host is up'', ke_satisfied = True,
     ke_idempotency_key = ''check-one'', ke_created = 5\<rparr>"

definition closed_db :: db where
  "closed_db = planned_db\<lparr>run_tasks := [goal_task, close_task (env_at 5 80) True restart_task],
     task_evidence := [restart_evidence]\<rparr>"

lemmas task_sample_defs = status_tool_def restart_tool_def ended_call_def goal_task_def restart_task_def
  goal_db_def planned_db_def restart_evidence_def closed_db_def

definition restart_arguments :: dict where
  "restart_arguments = [(''title'', JStr ''restart the host''), (''action_tool'', JStr ''restart''),
     (''idempotency_key'', JStr ''task-one'')]"

definition check_arguments :: dict where
  "check_arguments = [(''task_id'', JStr (uuid_str 70)), (''verification_tool'', JStr ''status''),
     (''summary'', JStr ''the host is up''), (''satisfied'', JBool True), (''idempotency_key'', JStr ''check-one'')]"

lemma task_fence:
  assumes "agent_runs s = agent_runs running_db" "receipts s = receipts running_db" "memberships s = memberships running_db"
  shows "executable_run (env_at 5 k) 0 sample_context s = Inr running_run"
  unfolding executable_run_cong[OF assms]
  by (simp add: executable_run_def find_run_in_def sql_exists_def authorize_def member_role_def
      all_permissions_def sample_context_def sample_defs)

lemma task_fences:
  "executable_run (env_at 5 k) 0 sample_context goal_db = Inr running_run"
  "executable_run (env_at 5 k) 0 sample_context planned_db = Inr running_run"
  by (rule task_fence; simp add: goal_db_def planned_db_def)+

lemma closed_db_sys: "sys_inv closed_db"
proof -
  have "run_inv closed_db"
    by (simp add: run_inv_def keys_ok_def linked_def rows_ok_def run_row_check_def exclusive_def
        processing_def known_job_def journal_ok_def events_of_def sample_defs excl_run_def task_sample_defs)
  moreover have "governed closed_db" "ledger_ok closed_db" "workspaces_wf closed_db" "intents_ok closed_db"
    by (simp_all add: governed_def approval_status_of_def approval_for_call_def ledger_ok_def workspaces_wf_def
        owners_def member_key_def intents_ok_def sample_defs task_sample_defs)
  moreover have "tasks_ok closed_db"
    by (simp add: tasks_ok_def task_edges_def closed_by_def supported_def sample_defs task_sample_defs)
  ultimately show ?thesis by (simp add: sys_inv_def)
qed

section \<open>Properties\<close>


lemma sample_calls:
  "latest_call sample_context ''restart'' (\<lambda>e. e \<noteq> ReadEffect) 1 planned_db = Some (ended_call 61 60 ''a'' 2)"
  "latest_call sample_context ''status'' (\<lambda>e. e = ReadEffect) 2 planned_db = Some (ended_call 62 63 ''b'' 3)"
  by (simp_all add: latest_call_def order_limit_def observed_def tool_of_call_def call_finished_since_def
      sample_context_def task_sample_defs)

lemma sample_verified:
  "\<exists>v s'. verify (env_at 5 80) sample_context check_arguments planned_db = Inr (v, s') \<and>
    task_evidence s' = [restart_evidence] \<and> run_tasks s' = run_tasks closed_db"
proof -
  have u: "uuid_of (uuid_str 70) = Some 70" by (rule uuid_of_uuid_str)
  have t: "strip ''the host is up'' = ''the host is up''"
    by (simp add: strip_def lstrip_def rstrip_def py_space_def)
  have act: "observed_action sample_context restart_task planned_db = Inr (Some 61, 2)"
  proof -
    have "k_action_tool restart_task = Some ''restart''" "k_created restart_task = 1"
      "internal_tool sample_context ''restart'' = Inr ''restart''"
      "finished_at (ended_call 61 60 ''a'' 2) = 2" "c_id (ended_call 61 60 ''a'' 2) = 61"
      by (simp_all add: restart_task_def internal_tool_def sample_context_def finished_at_def ended_call_def)
    then show ?thesis by (simp add: observed_action_def sample_calls(1))
  qed
  have i: "internal_tool sample_context ''status'' = Inr ''status''"
    by (simp add: internal_tool_def sample_context_def)
  have r: "\<exists>v s'. record_evidence (env_at 5 80) sample_context 70 ''status'' ''the host is up'' True ''check-one'' (Some 61)
        (c_id (ended_call 62 63 ''b'' 3)) planned_db = Inr (v, s') \<and>
      task_evidence s' = [restart_evidence] \<and> run_tasks s' = run_tasks closed_db"
    by (simp add: record_evidence_def insert_evidence_def evidence_row_check_def length_between_def btrim_def
        sql_exists_def sample_context_def env_at_def task_sample_defs running_db_def queued_db_def empty_db_def)
  have rows: "find_evidence_key (x_run sample_context) ''check-one'' planned_db = None"
    "find_follow_up sample_context 70 planned_db = Some restart_task" "\<not> incomplete_dependency 70 planned_db"
    "k_status restart_task = TPlanned"
    by (simp_all add: find_evidence_key_def find_follow_up_def incomplete_dependency_def sql_exists_def
        sample_context_def task_sample_defs running_db_def queued_db_def empty_db_def)
  show ?thesis
    using r
    by (simp add: verify_def check_arguments_def text_arg_def task_uuid_def u t verify_task_def task_fences
        rows act i sample_calls(2))
qed


text \<open>Planning a follow-up is idempotent: the same arguments under the same key return the same task
  and change nothing, in the same attempt or a later one of the run.\<close>

theorem follow_up_planned_once:
  assumes "create_follow_up env ctx args s = Inr (v, s')" and "executable_run env' 0 ctx s' = Inr run"
  shows "create_follow_up env' ctx args s' = Inr (v, s')"
proof -
  obtain deps where d: "distinct deps" and all: "\<forall>env s. create_follow_up env ctx args s =
      plan_follow_up env ctx (strip (text_arg args ''title'')) (strip (text_arg args ''description''))
        (action_arg args) (text_arg args ''idempotency_key'') deps s"
    using create_follow_up_args[OF assms(1)] by (elim exE conjE)
  note again = all[rule_format, of env' s']
  have p: "plan_follow_up env ctx (strip (text_arg args ''title'')) (strip (text_arg args ''description''))
        (action_arg args) (text_arg args ''idempotency_key'') deps s = Inr (v, s')"
    using assms(1) all[rule_format, of env s] by simp
  from p have "\<exists>k. find_task_key (x_run ctx) (text_arg args ''idempotency_key'') s' = Some k \<and>
      v = JObj (task_answer (k_id k) (k_status k) (k_verification k)) \<and>
      k_request_hash k = task_request_hash (strip (text_arg args ''title'')) (strip (text_arg args ''description''))
        (action_arg args) deps"
  proof (cases rule: plan_follow_up_cases)
    case (replayed k)
    then show ?thesis by auto
  next
    case (planned goal k s1 s2)
    have "run_tasks s' = run_tasks s @ [k]"
      using planned(7,9) insert_dependencies_Inr[OF planned(8)] by (auto simp: insert_task_def split: if_splits)
    moreover have "k_run k = x_run ctx" "k_idempotency_key k = text_arg args ''idempotency_key''" "k_status k = TPlanned"
      "k_request_hash k = task_request_hash (strip (text_arg args ''title'')) (strip (text_arg args ''description''))
        (action_arg args) deps"
      by (simp_all add: planned(6) new_follow_up_def)
    moreover have "find (\<lambda>t. k_run t = x_run ctx \<and> k_idempotency_key t = text_arg args ''idempotency_key'') (run_tasks s) = None"
      using planned(2) by (simp add: find_task_key_def)
    ultimately show ?thesis
      using planned(10) by (intro exI[of _ k]) (simp add: find_task_key_def find_append)
  qed
  then show ?thesis
    unfolding again using assms(2) by (auto simp: plan_follow_up_def Let_def)
qed

lemma sample_planned:
  "\<exists>v s'. create_follow_up (env_at 5 70) sample_context restart_arguments goal_db = Inr (v, s') \<and>
    agent_runs s' = agent_runs running_db \<and> receipts s' = receipts running_db \<and> memberships s' = memberships running_db \<and>
    map k_id (run_tasks s') = [20, 70]"
proof -
  have t: "strip ''restart the host'' = ''restart the host''" "strip [] = []"
    by (simp_all add: strip_def lstrip_def rstrip_def py_space_def)
  have act: "action_tool_ok sample_context (Some ''restart'') goal_db = Inr ()"
    by (simp add: action_tool_ok_def internal_tool_def find_tool_def guard_res_def sample_context_def task_sample_defs)
  have rows: "find_task_key (x_run sample_context) ''task-one'' goal_db = None"
    "find_goal sample_context goal_db = Some goal_task"
    by (simp_all add: find_task_key_def find_goal_def sample_context_def goal_db_def goal_task_def)
  let ?k = "new_follow_up (env_at 5 70) sample_context (k_id goal_task) ''restart the host'' [] (Some ''restart'') ''task-one''
    (task_request_hash ''restart the host'' [] (Some ''restart'') [])"
  have ins: "insert_task ?k goal_db = Inr (goal_db\<lparr>run_tasks := [goal_task, ?k]\<rparr>)"
    by (simp add: insert_task_def task_row_check_def length_between_def btrim_def new_follow_up_def sql_exists_def
        task_request_hash_def goal_db_def goal_task_def sample_context_def env_at_def)
  have id: "k_id ?k = 70" by (simp add: new_follow_up_def env_at_def)
  show ?thesis
    by (simp add: create_follow_up_def restart_arguments_def text_arg_def action_arg_def t plan_follow_up_def
        task_fences act rows ins id)
      (simp add: Let_def goal_db_def goal_task_def new_follow_up_def env_at_def)
qed

theorem follow_up_planned_once_witness:
  "\<exists>v s'. create_follow_up (env_at 5 70) sample_context restart_arguments goal_db = Inr (v, s') \<and>
    create_follow_up (env_at 5 90) sample_context restart_arguments s' = Inr (v, s') \<and>
    map k_id (run_tasks s') = [20, 70]"
proof -
  obtain v s' where ok: "create_follow_up (env_at 5 70) sample_context restart_arguments goal_db = Inr (v, s')"
    and same: "agent_runs s' = agent_runs running_db" "receipts s' = receipts running_db" "memberships s' = memberships running_db"
    and ids: "map k_id (run_tasks s') = [20, 70]"
    using sample_planned by (elim exE conjE)
  have "create_follow_up (env_at 5 90) sample_context restart_arguments s' = Inr (v, s')"
    by (rule follow_up_planned_once[OF ok task_fence[OF same]])
  with ok ids show ?thesis by (intro exI[of _ v] exI[of _ s'] conjI)
qed

text \<open>C25: The task graph stays sound along every sequence of transactions: a task depends only on tasks
  of its own run and never, directly or through others, on itself; a follow-up is planned, or it is closed
  by exactly one piece of evidence, which says how it ended, and then every follow-up it depends on has
  succeeded.\<close>

theorem task_graph_sound:
  assumes "sys_inv s0" and "step\<^sup>*\<^sup>* s0 s"
  shows "acyclic ((\<lambda>d. (kd_depends_on d, kd_task d)) ` set (task_dependencies s)) \<and>
    (\<forall>d \<in> set (task_dependencies s). \<forall>k \<in> set (run_tasks s). \<forall>t \<in> set (run_tasks s).
       k_id k = kd_task d \<longrightarrow> k_id t = kd_depends_on d \<longrightarrow> k_run t = k_run k) \<and>
    (\<forall>k \<in> set (run_tasks s). k_kind k = FollowUpTask \<longrightarrow> k_status k = TPlanned \<or>
       (\<exists>!e. e \<in> set (task_evidence s) \<and> ke_task e = k_id k) \<and>
       (\<exists>e \<in> set (task_evidence s). ke_task e = k_id k \<and> k_status k = (if ke_satisfied e then TSucceeded else TFailed)) \<and>
       (\<forall>d \<in> set (task_dependencies s). \<forall>t \<in> set (run_tasks s). kd_task d = k_id k \<longrightarrow> k_id t = kd_depends_on d \<longrightarrow>
          k_kind t = FollowUpTask \<longrightarrow> k_status t = TSucceeded))"
proof -
  have ok: "tasks_ok s" using sys_invD(6)[OF database.steps_inv[OF assms(2,1)]] .
  have "acyclic (task_edges s)" by (rule precedes_acyclic[OF tasks_okD(1)[OF ok] tasks_okD(2)[OF ok]])
  moreover have "k_run t = k_run k" if "d \<in> set (task_dependencies s)" "k \<in> set (run_tasks s)" "t \<in> set (run_tasks s)"
      "k_id k = kd_task d" "k_id t = kd_depends_on d" for d k t
    using tasks_okD(3)[OF ok _ that(2,3,4,5)] that(1) by (simp add: task_edges_def)
  moreover have "k_status k = TPlanned \<or>
       (\<exists>!e. e \<in> set (task_evidence s) \<and> ke_task e = k_id k) \<and>
       (\<exists>e \<in> set (task_evidence s). ke_task e = k_id k \<and> k_status k = (if ke_satisfied e then TSucceeded else TFailed)) \<and>
       (\<forall>d \<in> set (task_dependencies s). \<forall>t \<in> set (run_tasks s). kd_task d = k_id k \<longrightarrow> k_id t = kd_depends_on d \<longrightarrow>
          k_kind t = FollowUpTask \<longrightarrow> k_status t = TSucceeded)"
    if k: "k \<in> set (run_tasks s)" "k_kind k = FollowUpTask" for k
    using tasks_okD(6)[OF ok k]
  proof
    assume c: "(\<exists>e \<in> set (task_evidence s). closed_by e k) \<and> supported (run_tasks s) (task_edges s) k"
    then obtain e where e: "e \<in> set (task_evidence s)" "closed_by e k" by blast
    have "e' = e" if "e' \<in> set (task_evidence s)" "ke_task e' = k_id k" for e'
      using tasks_okD(4)[OF ok] that e by (auto simp: distinct_map inj_on_def closed_by_def)
    with e have "\<exists>!e. e \<in> set (task_evidence s) \<and> ke_task e = k_id k" by (auto simp: closed_by_def)
    moreover have "\<exists>e \<in> set (task_evidence s). ke_task e = k_id k \<and> k_status k = (if ke_satisfied e then TSucceeded else TFailed)"
      using e by (auto simp: closed_by_def)
    moreover have "k_status t = TSucceeded" if "d \<in> set (task_dependencies s)" "t \<in> set (run_tasks s)" "kd_task d = k_id k"
        "k_id t = kd_depends_on d" "k_kind t = FollowUpTask" for d t
    proof -
      have "(k_id t, k_id k) \<in> task_edges s" using that(1,3,4) by (force simp: task_edges_def)
      with c that(2,5) show ?thesis by (auto simp: supported_def)
    qed
    ultimately show ?thesis by blast
  qed simp
  ultimately show ?thesis unfolding task_edges_def by blast
qed

theorem task_graph_sound_witness: "\<exists>!e. e \<in> set (task_evidence closed_db) \<and> ke_task e = 70"
proof -
  have "close_task (env_at 5 80) True restart_task \<in> set (run_tasks closed_db)" by (simp add: closed_db_def)
  moreover have "k_kind (close_task (env_at 5 80) True restart_task) = FollowUpTask"
    "k_status (close_task (env_at 5 80) True restart_task) \<noteq> TPlanned" "k_id (close_task (env_at 5 80) True restart_task) = 70"
    by (simp_all add: restart_task_def)
  ultimately show ?thesis using task_graph_sound[OF closed_db_sys rtranclp.rtrancl_refl] by metis
qed

end
