(* ===== verification/Alert_Properties.thy ===== *)
theory Alert_Properties
  imports System_Properties Spend_Properties
begin

text \<open>
  The properties of alert delivery: an intent is in the hands of one worker at a time, and an outcome
  closes it or schedules the next of a bounded number of attempts.
\<close>

section \<open>Helper lemmas\<close>

lemma claimed_row:
  assumes ledger: "ledger_ok s" and ok: "claim_alert env locked w lease s = Inr (Some (x, a), s')"
  shows "x \<in> set (alert_outbox s)" "claimable env locked s x" "a \<in> set (spend_alerts s)" "al_id a = ao_alert x"
    "lease_intent env w lease x \<in> set (alert_outbox s')"
    "\<And>y. y \<in> set (alert_outbox s') \<Longrightarrow> ao_alert y = ao_alert x \<Longrightarrow> y = lease_intent env w lease x"
    "spend_alerts s' = spend_alerts s"
proof -
  have c: "x \<in> set (alert_outbox s)" "claimable env locked s x" "find (\<lambda>a. al_id a = ao_alert x) (spend_alerts s) = Some a"
      "update_intents (\<lambda>y. ao_alert y = ao_alert x) (lease_intent env w lease) s = Inr s'"
    using ok by (cases rule: claim_alert_cases; simp)+
  have s': "s' = s\<lparr>alert_outbox := sql_update (\<lambda>y. ao_alert y = ao_alert x) (lease_intent env w lease) (alert_outbox s)\<rparr>"
    using c(4) by (simp add: update_intents_Inr)
  have keep: "ao_alert (lease_intent env w lease z) = ao_alert z" for z by (simp add: lease_intent_def)
  show "x \<in> set (alert_outbox s)" "claimable env locked s x" by (fact c(1) c(2))+
  show "a \<in> set (spend_alerts s)" "al_id a = ao_alert x" using find_SomeD[OF c(3)] by simp_all
  show "lease_intent env w lease x \<in> set (alert_outbox s')" using c(1) by (auto simp: s' set_sql_update)
  show "spend_alerts s' = spend_alerts s" by (simp add: s')
  fix z assume z: "z \<in> set (alert_outbox s')" "ao_alert z = ao_alert x"
  then obtain z0 where z0: "z0 \<in> set (alert_outbox s)" "z = (if ao_alert z0 = ao_alert x then lease_intent env w lease z0 else z0)"
    by (auto simp: s' set_sql_update)
  then have "ao_alert z0 = ao_alert x" using z(2) keep by (auto split: if_splits)
  then have "z0 = x" using intent_by_id[OF ledger z0(1) c(1)] by simp
  with z0(2) show "z = lease_intent env w lease x" by simp
qed

lemma nothing_held:
  assumes "\<And>x. x \<in> set (alert_outbox s) \<Longrightarrow> \<not> held_intent i w x"
  shows "update_intents (held_intent i w) f s = Inr s"
proof -
  have "sql_update (held_intent i w) f (alert_outbox s) = alert_outbox s"
    using assms by (intro sql_update_none) simp
  then show ?thesis using assms by (simp add: update_intents_Inr)
qed

lemma nothing_counted: "(\<And>x. x \<in> set (alert_outbox s) \<Longrightarrow> \<not> held_intent i w x) \<Longrightarrow> rowcount (held_intent i w) (alert_outbox s) = 0"
  by (simp add: rowcount_pos_iff)

text \<open>The one row an outcome is recorded on.\<close>

lemma settled_row:
  assumes up: "update_intents (held_intent i w) f s = Inr s'" and x: "x \<in> set (alert_outbox s)" "held_intent i w x"
  shows "f x \<in> set (alert_outbox s')"
  using up x by (auto simp: update_intents_Inr set_sql_update)

lemma delivery_retry_bounds:
  "min 300 (2 ^ min n 8) * 1000 \<le> delivery_retry_ms i n" "delivery_retry_ms i n \<le> min 300 (2 ^ min n 8) * 1250"
proof -
  have "(1::int) \<le> 2 ^ min n 8" by simp
  then have base: "1 \<le> min 300 ((2::int) ^ min n 8)" by simp
  then show "min 300 (2 ^ min n 8) * 1000 \<le> delivery_retry_ms i n" "delivery_retry_ms i n \<le> min 300 (2 ^ min n 8) * 1250"
    unfolding delivery_retry_ms_def using digest_head16_bound by (intro jittered_bounds; auto)+
qed

lemma first_attempts_delay: "n < 5 \<Longrightarrow> min 300 ((2::int) ^ min n 8) = 2 ^ n"
  by (auto simp: less_Suc_eq numeral_eq_Suc)

section \<open>Samples\<close>

definition alerted_db :: db where
  "alerted_db = queued_db\<lparr>spend_alerts := [\<lparr>al_id = 71, al_workspace = 10, al_period = 0, al_threshold = 50,
       al_limit = 100, al_consumed = 60, al_enforcement = Monitor, al_created = 1\<rparr>],
     alert_outbox := [\<lparr>ao_alert = 71, ao_workspace = 10, ao_attempts = 1, ao_available = 1, ao_lease_owner = None,
       ao_lease_expires = None, ao_delivered = None, ao_dead = None, ao_error = Some ''alert_timeout'', ao_created = 1,
       ao_updated = 1\<rparr>]\<rparr>"

lemma alerted_db_sys: "sys_inv alerted_db"
proof -
  have "run_inv alerted_db"
    by (simp add: run_inv_def keys_ok_def linked_def rows_ok_def run_row_check_def exclusive_def
        processing_def known_job_def journal_ok_def events_of_def sample_defs alerted_db_def)
  moreover have "governed alerted_db" "ledger_ok alerted_db" "workspaces_wf alerted_db" "tasks_ok alerted_db"
    by (simp_all add: governed_def ledger_ok_def workspaces_wf_def owners_def member_key_def tasks_ok_def
        task_edges_def alert_key_def sample_defs alerted_db_def)
  moreover have "intents_ok alerted_db"
    by (simp add: intents_ok_def intent_ok_def intent_row_check_def open_intent_def MAX_DELIVERY_ATTEMPTS_def alerted_db_def)
  ultimately show ?thesis by (simp add: sys_inv_def)
qed

lemma sample_alert_claim:
  "\<exists>x a s'. claim_alert (env_at 5 70) (\<lambda>_. False) ''n1'' 30 alerted_db = Inr (Some (x, a), s') \<and> ao_alert x = 71 \<and>
    al_id a = 71 \<and> ao_attempts x = 1"
  by (simp add: claim_alert_def order_limit_def claimable_def open_intent_def sql_exists_def update_intents_def
      intent_update_ok_def intent_row_check_def lease_intent_def env_at_def alerted_db_def)

text \<open>What the outcome of a delivery leaves on the intent.\<close>

lemma settled_intent:
  assumes inv: "intents_ok s" and x: "intent_ok x" "ao_attempts x < MAX_DELIVERY_ATTEMPTS"
    and y: "y \<in> set (alert_outbox s)" "held_intent (ao_alert x) w y" "ao_attempts y = ao_attempts x"
    and one: "\<And>z. z \<in> set (alert_outbox s) \<Longrightarrow> ao_alert z = ao_alert x \<Longrightarrow> z = y"
    and d: "d = Delivered \<and> f = succeed_intent env \<or> (\<exists>code r. d = DeliveryFailed code r \<and> code \<noteq> [] \<and>
      f = (if \<not> r \<or> MAX_DELIVERY_ATTEMPTS \<le> ao_attempts x + 1 then abandon_intent env (ao_attempts x + 1) code
           else retry_intent env (ao_attempts x + 1) code))"
  shows "\<exists>b s'. settle_alert env w x d s = Inr (b, s') \<and> f y \<in> set (alert_outbox s')"
proof -
  have held: "z = y" if "z \<in> set (alert_outbox s)" "held_intent (ao_alert x) w z" for z
    using one[OF that(1)] that(2) by (simp add: held_intent_def)
  have y': "open_intent y" "ao_alert y = ao_alert x" using y(2) by (simp_all add: held_intent_def)
  have "intent_update_ok y (f y) \<and> intent_row_check (f y)"
    using d y'
    by (elim disjE exE conjE)
      (simp_all add: Suc_le_eq intent_update_ok_def intent_row_check_def open_intent_def succeed_intent_def abandon_intent_def retry_intent_def)
  then have up: "update_intents (held_intent (ao_alert x) w) f s =
      Inr (s\<lparr>alert_outbox := sql_update (held_intent (ao_alert x) w) f (alert_outbox s)\<rparr>)"
    using held by (auto simp: update_intents_Inr)
  have "f y \<in> set (sql_update (held_intent (ao_alert x) w) f (alert_outbox s))"
    using y(1,2) by (auto simp: set_sql_update)
  moreover have "settle_alert env w x d s = Inr (b, s') \<longleftrightarrow> (b, s') = (case d of Delivered \<Rightarrow>
      rowcount (held_intent (ao_alert x) w) (alert_outbox s) = 1 | DeliveryFailed code r \<Rightarrow> \<not> r \<or> MAX_DELIVERY_ATTEMPTS \<le> ao_attempts x + 1
      | DeliveryCancelled \<Rightarrow> False, s\<lparr>alert_outbox := sql_update (held_intent (ao_alert x) w) f (alert_outbox s)\<rparr>)" for b s'
    using d up by (auto simp: settle_alert_def alert_succeed_def alert_fail_def Let_def)
  ultimately show ?thesis by simp
qed

lemma deliver_code: "deliver answer = DeliveryFailed code r \<Longrightarrow> answer \<noteq> OtherException [] \<Longrightarrow> code \<noteq> []"
  by (cases answer) (auto simp: raise_for_status_def split: if_splits)

section \<open>Properties\<close>

text \<open>C24: An alert is delivered by one worker at a time. In any state the system reaches, a claim returns
  an intent that is neither delivered nor abandoned, has attempts left and is under no live lease, with the
  alert it belongs to; until the new lease has run out nobody claims it again, and what another worker
  reports about it changes nothing.\<close>

theorem alert_claim_exclusive:
  assumes "sys_inv s0" and "step\<^sup>*\<^sup>* s0 s"
    and claimed: "claim_alert env locked w lease s = Inr (Some (x, a), s')"
  shows "open_intent x \<and> ao_attempts x < MAX_DELIVERY_ATTEMPTS \<and> al_id a = ao_alert x \<and> a \<in> set (spend_alerts s) \<and>
    (\<forall>l. ao_lease_expires x = Some l \<longrightarrow> l < tx_now env) \<and>
    (\<forall>env' locked' w' lease' y b u. tx_now env' \<le> tx_now env + seconds lease \<longrightarrow>
       claim_alert env' locked' w' lease' s' = Inr (Some (y, b), u) \<longrightarrow> ao_alert y \<noteq> ao_alert x) \<and>
    (\<forall>env' w' attempts code retryable. w' \<noteq> w \<longrightarrow>
       alert_succeed env' w' (ao_alert x) s' = Inr (False, s') \<and>
       (\<exists>b. alert_fail env' w' (ao_alert x) attempts code retryable s' = Inr (b, s')))"
proof -
  have inv: "sys_inv s" by (rule database.steps_inv[OF assms(2,1)])
  note c = claimed_row[OF sys_invD(3)[OF inv] claimed]
  have inv': "ledger_ok s'"
    using step_committed[OF inv st_alert_claim[OF claimed]] sys_invD(3) by (simp add: committed_def)
  have x: "intent_ok x" using sys_invD(7)[OF inv] c(1) by (simp add: intents_ok_def)
  have mine: "ao_lease_owner y = Some w \<and> ao_lease_expires y = Some (tx_now env + seconds lease)"
    if "y \<in> set (alert_outbox s')" "ao_alert y = ao_alert x" for y
    using c(6)[OF that] by (simp add: lease_intent_def)
  have "ao_alert y \<noteq> ao_alert x" if "tx_now env' \<le> tx_now env + seconds lease"
      "claim_alert env' locked' w' lease' s' = Inr (Some (y, b), u)" for env' locked' w' lease' y b u
    using claimed_row(1,2)[OF inv' that(2)] mine[of y] that(1) by (auto simp: claimable_def)
  moreover have "\<not> held_intent (ao_alert x) w' y" if "w' \<noteq> w" "y \<in> set (alert_outbox s')" for w' y
    using mine[OF that(2)] that(1) by (auto simp: held_intent_def)
  then have "alert_succeed env' w' (ao_alert x) s' = Inr (False, s')"
      "\<exists>b. alert_fail env' w' (ao_alert x) attempts code retryable s' = Inr (b, s')" if "w' \<noteq> w" for env' w' attempts code retryable
    using that by (simp_all add: alert_succeed_def alert_fail_def Let_def nothing_held nothing_counted)
  ultimately show ?thesis
    using c(2,3,4) x by (auto simp: claimable_def intent_ok_def)
qed

theorem alert_claim_exclusive_witness:
  "\<exists>x a s'. claim_alert (env_at 5 70) (\<lambda>_. False) ''n1'' 30 alerted_db = Inr (Some (x, a), s') \<and>
    alert_succeed (env_at 6 70) ''n2'' 71 s' = Inr (False, s')"
proof -
  obtain x a s' where c: "claim_alert (env_at 5 70) (\<lambda>_. False) ''n1'' 30 alerted_db = Inr (Some (x, a), s')" "ao_alert x = 71"
    using sample_alert_claim by (elim exE conjE)
  have "''n2'' \<noteq> ''n1''" by simp
  with alert_claim_exclusive[OF alerted_db_sys rtranclp.rtrancl_refl c(1)] c(2)
  have "alert_succeed (env_at 6 70) ''n2'' 71 s' = Inr (False, s')" by simp
  with c(1) show ?thesis by (intro exI[of _ x] exI[of _ a] exI[of _ s'] conjI)
qed

text \<open>What becomes of an alert that was sent. A worker that still holds the claim it made records the
  outcome of every answer of the webhook: a 2xx answer of bounded size delivers it; a refusal that is not
  worth retrying, or the fifth failure, abandons it; any other failure puts it back, to be tried again
  between \<open>2^n\<close> and \<open>1.25 * 2^n\<close> seconds later, \<open>n\<close> being the number of failures. No count passes the
  bound, and the lease is given up each time.\<close>

theorem alert_retry_policy:
  assumes "sys_inv s0" and "step\<^sup>*\<^sup>* s0 s"
    and claimed: "claim_alert env locked w lease s = Inr (Some (x, a), s1)"
    and "step\<^sup>*\<^sup>* s1 s2" and kept: "lease_intent env w lease x \<in> set (alert_outbox s2)"
    and ans: "answer \<noteq> PassCancelled" "answer \<noteq> OtherException []"
  shows "\<exists>b s3 y. settle_alert env' w x (deliver answer) s2 = Inr (b, s3) \<and> y \<in> set (alert_outbox s3) \<and>
    ao_alert y = ao_alert x \<and> ao_attempts y = ao_attempts x + 1 \<and> ao_attempts y \<le> MAX_DELIVERY_ATTEMPTS \<and>
    ao_lease_owner y = None \<and>
    (case deliver answer of
       Delivered \<Rightarrow> ao_delivered y = Some (tx_now env') \<and> ao_dead y = None
     | DeliveryFailed code retryable \<Rightarrow> ao_delivered y = None \<and> ao_error y = Some (take 100 code) \<and>
         (if \<not> retryable \<or> ao_attempts y = MAX_DELIVERY_ATTEMPTS then ao_dead y = Some (tx_now env')
          else ao_dead y = None \<and>
            ao_available y - tx_now env' \<in> {2 ^ ao_attempts y * 1000000 .. 2 ^ ao_attempts y * 1250000})
     | DeliveryCancelled \<Rightarrow> False)"
proof -
  have inv: "sys_inv s" by (rule database.steps_inv[OF assms(2,1)])
  note c = claimed_row[OF sys_invD(3)[OF inv] claimed]
  have "sys_inv s1"
    using step_committed[OF inv st_alert_claim[OF claimed]] by (simp add: committed_def)
  then have inv2: "sys_inv s2" by (rule database.steps_inv[OF assms(4)])
  have x: "intent_ok x" using sys_invD(7)[OF inv] c(1) by (simp add: intents_ok_def)
  have op: "open_intent x" using c(2) by (simp add: claimable_def)
  with x have n: "ao_attempts x < MAX_DELIVERY_ATTEMPTS" by (simp add: intent_ok_def)
  let ?y = "lease_intent env w lease x"
  have y: "ao_alert ?y = ao_alert x" "ao_attempts ?y = ao_attempts x" "held_intent (ao_alert x) w ?y" "ao_delivered ?y = None" "ao_dead ?y = None"
    using op by (simp_all add: lease_intent_def held_intent_def open_intent_def)
  have one: "z = ?y" if "z \<in> set (alert_outbox s2)" "ao_alert z = ao_alert x" for z
    using intent_by_id[OF sys_invD(3)[OF inv2] that(1) kept] that(2) y(1) by simp
  note settled = settled_intent[OF sys_invD(7)[OF inv2] x n kept y(3,2) one]
  show ?thesis
  proof (cases "deliver answer")
    case Delivered
    with settled[of Delivered "succeed_intent env'" env'] y(1,2,5) n show ?thesis
      by (auto simp: succeed_intent_def intro!: exI[of _ "succeed_intent env' ?y"])
  next
    case (DeliveryFailed code r)
    then have code: "code \<noteq> []" using deliver_code ans(2) by blast
    show ?thesis
    proof (cases "\<not> r \<or> MAX_DELIVERY_ATTEMPTS \<le> ao_attempts x + 1")
      case True
      with settled[of "DeliveryFailed code r" "abandon_intent env' (ao_attempts x + 1) code" env'] code DeliveryFailed
      obtain b s3 where "settle_alert env' w x (deliver answer) s2 = Inr (b, s3)" "abandon_intent env' (ao_attempts x + 1) code ?y \<in> set (alert_outbox s3)"
        by auto
      with True y n DeliveryFailed show ?thesis
        by (intro exI[of _ b] exI[of _ s3] exI[of _ "abandon_intent env' (ao_attempts x + 1) code ?y"]) (simp add: abandon_intent_def le_antisym)
    next
      case False
      then have "ao_attempts x + 1 < 5" by (simp add: MAX_DELIVERY_ATTEMPTS_def)
      with delivery_retry_bounds[where n = "ao_attempts x + 1" and i = "ao_alert x"] first_attempts_delay[of "ao_attempts x + 1"]
      have delay: "2 ^ (ao_attempts x + 1) * 1000 \<le> delivery_retry_ms (ao_alert x) (ao_attempts x + 1)"
          "delivery_retry_ms (ao_alert x) (ao_attempts x + 1) \<le> 2 ^ (ao_attempts x + 1) * 1250" by simp_all
      from settled[of "DeliveryFailed code r" "retry_intent env' (ao_attempts x + 1) code" env'] code False DeliveryFailed
      obtain b s3 where "settle_alert env' w x (deliver answer) s2 = Inr (b, s3)" "retry_intent env' (ao_attempts x + 1) code ?y \<in> set (alert_outbox s3)"
        by auto
      with False y n delay DeliveryFailed show ?thesis
        by (intro exI[of _ b] exI[of _ s3] exI[of _ "retry_intent env' (ao_attempts x + 1) code ?y"]) (simp add: retry_intent_def)
    qed
  next
    case DeliveryCancelled
    with ans show ?thesis by (cases answer) (auto simp: raise_for_status_def split: if_splits)
  qed
qed

theorem alert_retry_policy_witness:
  "\<exists>x a s1 b s3. claim_alert (env_at 5 70) (\<lambda>_. False) ''n1'' 30 alerted_db = Inr (Some (x, a), s1) \<and>
    settle_alert (env_at 6 70) ''n1'' x (deliver TimedOut) s1 = Inr (b, s3) \<and>
    (\<exists>y \<in> set (alert_outbox s3). ao_dead y = None \<and> ao_attempts y = 2 \<and> ao_available y - 6 \<in> {4000000 .. 5000000})"
proof -
  obtain x a s1 where c: "claim_alert (env_at 5 70) (\<lambda>_. False) ''n1'' 30 alerted_db = Inr (Some (x, a), s1)" "ao_attempts x = 1"
    using sample_alert_claim by (elim exE conjE)
  note row = claimed_row(5)[OF sys_invD(3)[OF alerted_db_sys] c(1)]
  have env_now: "tx_now (env_at 6 70) = 6" by (simp add: env_at_def)
  have "TimedOut \<noteq> PassCancelled" "TimedOut \<noteq> OtherException []" by simp_all
  from alert_retry_policy[OF alerted_db_sys rtranclp.rtrancl_refl c(1) rtranclp.rtrancl_refl row this, where env' = "env_at 6 70"]
  obtain b s3 y where r: "settle_alert (env_at 6 70) ''n1'' x (deliver TimedOut) s1 = Inr (b, s3)" "y \<in> set (alert_outbox s3)"
      "ao_attempts y = ao_attempts x + 1"
      "if ao_attempts y = MAX_DELIVERY_ATTEMPTS then ao_dead y = Some 6
       else ao_dead y = None \<and> ao_available y - 6 \<in> {2 ^ ao_attempts y * 1000000 .. 2 ^ ao_attempts y * 1250000}"
    by (elim exE conjE) (rule that, use env_now in \<open>auto split: if_splits\<close>)
  have n: "ao_attempts y = 2" using r(3) c(2) by simp
  with r(4) have "ao_dead y = None \<and> ao_available y - 6 \<in> {4000000 .. 5000000}" by (simp add: MAX_DELIVERY_ATTEMPTS_def)
  with c(1) r(1,2) n show ?thesis
    by (intro exI[of _ x] exI[of _ a] exI[of _ s1] exI[of _ b] exI[of _ s3] conjI bexI[of _ y]) simp_all
qed

end
