(* ===== verification/Text_Patterns.thy ===== *)
theory Text_Patterns
  imports Prelude
begin

text \<open>
  The regular expressions of the contracts (\<open>re.fullmatch\<close> and the \<open>pattern\<close> of a pydantic field), as
  data. A matcher consumes the text character by character; it decides the language of the expression.
\<close>

section \<open>Expressions and their language\<close>

text \<open>\<open>RxUpTo n r\<close> is \<open>r{0,n}\<close>.\<close>

datatype rx =
    RxNone
  | RxEps
  | RxIn "char list"
  | RxCat rx rx
  | RxAlt rx rx
  | RxStar rx
  | RxUpTo nat rx

inductive rx_lang :: "rx \<Rightarrow> string \<Rightarrow> bool" where
  lang_eps: "rx_lang RxEps []"
| lang_in: "c \<in> set cs \<Longrightarrow> rx_lang (RxIn cs) [c]"
| lang_cat: "rx_lang r s \<Longrightarrow> rx_lang q t \<Longrightarrow> rx_lang (RxCat r q) (s @ t)"
| lang_left: "rx_lang r s \<Longrightarrow> rx_lang (RxAlt r q) s"
| lang_right: "rx_lang q s \<Longrightarrow> rx_lang (RxAlt r q) s"
| lang_star0: "rx_lang (RxStar r) []"
| lang_star: "rx_lang r s \<Longrightarrow> rx_lang (RxStar r) t \<Longrightarrow> rx_lang (RxStar r) (s @ t)"
| lang_upto0: "rx_lang (RxUpTo n r) []"
| lang_upto: "rx_lang r s \<Longrightarrow> rx_lang (RxUpTo n r) t \<Longrightarrow> rx_lang (RxUpTo (Suc n) r) (s @ t)"

inductive_simps rx_lang_none [simp]: "rx_lang RxNone s"
inductive_simps rx_lang_eps [simp]: "rx_lang RxEps s"
inductive_simps rx_lang_in [simp]: "rx_lang (RxIn cs) s"
inductive_simps rx_lang_cat: "rx_lang (RxCat r q) s"
inductive_simps rx_lang_alt [simp]: "rx_lang (RxAlt r q) s"
inductive_cases rx_lang_uptoE: "rx_lang (RxUpTo n r) s"

section \<open>The matcher\<close>

definition rx_cat :: "rx \<Rightarrow> rx \<Rightarrow> rx" where
  "rx_cat r q = (if r = RxNone \<or> q = RxNone then RxNone else if r = RxEps then q else RxCat r q)"

definition rx_alt :: "rx \<Rightarrow> rx \<Rightarrow> rx" where
  "rx_alt r q = (if r = RxNone then q else if q = RxNone then r else RxAlt r q)"

fun nullable :: "rx \<Rightarrow> bool" where
  "nullable RxNone = False"
| "nullable RxEps = True"
| "nullable (RxIn cs) = False"
| "nullable (RxCat r q) = (nullable r \<and> nullable q)"
| "nullable (RxAlt r q) = (nullable r \<or> nullable q)"
| "nullable (RxStar r) = True"
| "nullable (RxUpTo n r) = True"

text \<open>What is left to match after the character \<open>c\<close>.\<close>

fun rx_after :: "char \<Rightarrow> rx \<Rightarrow> rx" where
  "rx_after c RxNone = RxNone"
| "rx_after c RxEps = RxNone"
| "rx_after c (RxIn cs) = (if c \<in> set cs then RxEps else RxNone)"
| "rx_after c (RxCat r q) =
    (if nullable r then rx_alt (rx_cat (rx_after c r) q) (rx_after c q) else rx_cat (rx_after c r) q)"
| "rx_after c (RxAlt r q) = rx_alt (rx_after c r) (rx_after c q)"
| "rx_after c (RxStar r) = rx_cat (rx_after c r) (RxStar r)"
| "rx_after c (RxUpTo n r) = (case n of 0 \<Rightarrow> RxNone | Suc m \<Rightarrow> rx_cat (rx_after c r) (RxUpTo m r))"

fun fullmatch :: "rx \<Rightarrow> string \<Rightarrow> bool" where
  "fullmatch r [] = nullable r"
| "fullmatch r (c # s) = fullmatch (rx_after c r) s"

section \<open>The matcher decides the language\<close>

lemma rx_lang_smart [simp]:
  "rx_lang (rx_cat r q) s \<longleftrightarrow> rx_lang (RxCat r q) s"
  "rx_lang (rx_alt r q) s \<longleftrightarrow> rx_lang (RxAlt r q) s"
  by (auto simp: rx_cat_def rx_alt_def rx_lang_cat)

lemma nullable_iff: "nullable r \<longleftrightarrow> rx_lang r []"
  by (induction r) (auto simp: rx_lang_cat lang_star0 lang_upto0)

lemma upto_zero: "rx_lang (RxUpTo 0 r) s \<Longrightarrow> s = []"
  by (erule rx_lang_uptoE) blast+

lemma upto_mono: "rx_lang (RxUpTo n r) s \<Longrightarrow> rx_lang (RxUpTo (Suc n) r) s"
proof (induction n arbitrary: s)
  case 0
  then show ?case using upto_zero lang_upto0 by blast
next
  case (Suc n)
  from Suc.prems show ?case
    by (rule rx_lang_uptoE) (blast intro: lang_upto0 lang_upto Suc.IH)+
qed

text \<open>The first non-empty round of a repetition.\<close>

lemma star_first:
  "rx_lang q w \<Longrightarrow> q = RxStar r \<Longrightarrow> w = c # s \<Longrightarrow>
    \<exists>u v. s = u @ v \<and> rx_lang r (c # u) \<and> rx_lang (RxStar r) v"
proof (induction arbitrary: s rule: rx_lang.induct)
  case (lang_star r' a b)
  then show ?case by (cases a) auto
qed simp_all

lemma upto_first:
  "rx_lang (RxUpTo n r) (c # s) \<Longrightarrow>
    \<exists>m u v. n = Suc m \<and> s = u @ v \<and> rx_lang r (c # u) \<and> rx_lang (RxUpTo m r) v"
proof (induction n)
  case 0
  then show ?case using upto_zero by blast
next
  case (Suc n)
  from Suc.prems obtain a b where ab: "c # s = a @ b" "rx_lang r a" "rx_lang (RxUpTo n r) b"
    by (rule rx_lang_uptoE) blast+
  show ?case
  proof (cases a)
    case Nil
    then obtain m u v where "n = Suc m" "s = u @ v" "rx_lang r (c # u)" "rx_lang (RxUpTo m r) v"
      using Suc.IH ab by auto
    then show ?thesis using upto_mono by (intro exI[of _ n] exI[of _ u] exI[of _ v]) simp
  next
    case (Cons d a')
    then show ?thesis using ab by auto
  qed
qed

lemma rx_after_cat:
  assumes "\<And>s. rx_lang (rx_after c r) s \<longleftrightarrow> rx_lang r (c # s)" "\<And>s. rx_lang (rx_after c q) s \<longleftrightarrow> rx_lang q (c # s)"
  shows "rx_lang (rx_after c (RxCat r q)) s \<longleftrightarrow> rx_lang (RxCat r q) (c # s)"
proof -
  have "rx_lang (RxCat r q) (c # s) \<longleftrightarrow>
      rx_lang r [] \<and> rx_lang q (c # s) \<or> (\<exists>u v. s = u @ v \<and> rx_lang r (c # u) \<and> rx_lang q v)"
    by (auto simp: rx_lang_cat Cons_eq_append_conv)
  then show ?thesis using assms by (simp add: rx_lang_cat nullable_iff) blast
qed

lemma rx_after_iff: "rx_lang (rx_after c r) s \<longleftrightarrow> rx_lang r (c # s)"
proof (induction r arbitrary: s)
  case (RxCat r q)
  then show ?case by (rule rx_after_cat)
next
  case (RxStar r)
  show ?case
  proof
    assume "rx_lang (rx_after c (RxStar r)) s"
    then obtain u v where "s = u @ v" "rx_lang r (c # u)" "rx_lang (RxStar r) v"
      using RxStar by (auto simp: rx_lang_cat)
    then show "rx_lang (RxStar r) (c # s)" using lang_star[of r "c # u" v] by simp
  next
    assume "rx_lang (RxStar r) (c # s)"
    then show "rx_lang (rx_after c (RxStar r)) s" using star_first[OF _ refl refl] RxStar by (simp add: rx_lang_cat)
  qed
next
  case (RxUpTo n r)
  show ?case
  proof
    assume "rx_lang (rx_after c (RxUpTo n r)) s"
    then obtain m u v where "n = Suc m" "s = u @ v" "rx_lang r (c # u)" "rx_lang (RxUpTo m r) v"
      using RxUpTo by (auto simp: rx_lang_cat split: nat.splits)
    then show "rx_lang (RxUpTo n r) (c # s)" using lang_upto[of r "c # u" m v] by simp
  next
    assume "rx_lang (RxUpTo n r) (c # s)"
    from upto_first[OF this] obtain m u v where "n = Suc m" "s = u @ v" "rx_lang r (c # u)" "rx_lang (RxUpTo m r) v"
      by (elim exE conjE)
    then show "rx_lang (rx_after c (RxUpTo n r)) s" using RxUpTo by (auto simp: rx_lang_cat)
  qed
qed auto

theorem fullmatch_iff: "fullmatch r s \<longleftrightarrow> rx_lang r s"
  by (induction s arbitrary: r) (simp_all add: nullable_iff rx_after_iff)

lemma star_in: "rx_lang q s \<Longrightarrow> q = RxStar (RxIn cs) \<Longrightarrow> set s \<subseteq> set cs"
  by (induction rule: rx_lang.induct) auto

lemma star_in_iff: "rx_lang (RxStar (RxIn cs)) s \<longleftrightarrow> set s \<subseteq> set cs"
proof
  assume "set s \<subseteq> set cs"
  then show "rx_lang (RxStar (RxIn cs)) s"
  proof (induction s)
    case (Cons c s)
    then show ?case using lang_star[of "RxIn cs" "[c]" s] by simp
  qed (simp add: lang_star0)
qed (simp add: star_in)

lemma rx_lang_cat_in: "rx_lang (RxCat (RxIn cs) r) s \<longleftrightarrow> (\<exists>c t. s = c # t \<and> c \<in> set cs \<and> rx_lang r t)"
proof
  assume "\<exists>c t. s = c # t \<and> c \<in> set cs \<and> rx_lang r t"
  then obtain c t where "s = [c] @ t" "c \<in> set cs" "rx_lang r t" by auto
  then show "rx_lang (RxCat (RxIn cs) r) s" using lang_cat[OF lang_in] by simp
qed (auto simp: rx_lang_cat)

section \<open>The patterns of the contracts\<close>

definition lower_chars :: string where
  "lower_chars = ''abcdefghijklmnopqrstuvwxyz''"

definition upper_chars :: string where
  "upper_chars = ''ABCDEFGHIJKLMNOPQRSTUVWXYZ''"

definition digit_chars :: string where
  "digit_chars = ''0123456789''"

text \<open>\<open>r+\<close>, and \<open>r(sr)*\<close>.\<close>

definition rx_plus :: "rx \<Rightarrow> rx" where
  "rx_plus r = RxCat r (RxStar r)"

definition rx_sep :: "rx \<Rightarrow> rx \<Rightarrow> rx" where
  "rx_sep sep r = RxCat r (RxStar (RxCat sep r))"

definition alnum :: rx where
  "alnum = RxIn (lower_chars @ digit_chars)"

text \<open>\<open>[a-z][a-z0-9]*\<close>\<close>

definition lower_word :: rx where
  "lower_word = RxCat (RxIn lower_chars) (RxStar alnum)"

end
