(* ===== verification/Agent_Manifest.thy ===== *)
theory Agent_Manifest
  imports Schema Text_Patterns Web_Address
begin

text \<open>
  The contract of a standard agent (\<open>agent_manifest.py\<close>): semantic versions, the manifest with the
  constraints of its fields and the checks across them, and the JSON document that is stored and frozen
  into runs. Parsing and coercion are pydantic's: a manifest is the record of the parsed fields.
\<close>

section \<open>Patterns\<close>

definition SEMVER_PART :: rx where
  "SEMVER_PART = RxAlt (RxIn ''0'') (RxCat (RxIn ''123456789'') (RxStar (RxIn digit_chars)))"

definition SEMVER :: rx where
  "SEMVER = RxCat SEMVER_PART (RxCat (RxIn ''.'') (RxCat SEMVER_PART (RxCat (RxIn ''.'') SEMVER_PART)))"

definition MANIFEST_ID :: rx where
  "MANIFEST_ID = RxCat lower_word
    (rx_plus (RxCat (RxIn ''.'') (rx_plus (RxIn (lower_chars @ digit_chars @ ''-'')))))"

definition SLUG :: rx where
  "SLUG = RxCat lower_word (RxStar (RxCat (RxIn ''-'') (rx_plus alnum)))"

definition LABEL :: rx where
  "LABEL = (let c = RxIn (lower_chars @ digit_chars @ ''_-'') in RxCat (RxIn lower_chars) (RxCat c (RxUpTo 38 c)))"

definition ACTION_PART :: rx where
  "ACTION_PART = RxCat lower_word (RxStar (RxCat (RxIn ''_-'') (rx_plus alnum)))"

definition ACTION :: rx where
  "ACTION = RxCat ACTION_PART (rx_plus (RxCat (RxIn ''.'') ACTION_PART))"

definition TOOL :: rx where
  "TOOL = RxCat lower_word (RxStar (RxCat (RxIn ''._-'') (rx_plus alnum)))"

text \<open>\<open>[A-Za-z0-9._-]{1,64}\<close>\<close>

definition PROFILE :: rx where
  "PROFILE = (let c = RxIn (upper_chars @ lower_chars @ digit_chars @ ''._-'') in RxCat c (RxUpTo 63 c))"

section \<open>Semantic versions\<close>

datatype version = Version (major: nat) (minor: nat) (patch: nat)

definition parts :: "version \<Rightarrow> nat \<times> nat \<times> nat" where
  "parts v = (major v, minor v, patch v)"

text \<open>\<open>__lt__\<close> and \<open>__le__\<close>, which are the order of the type.\<close>

definition version_lt :: "version \<Rightarrow> version \<Rightarrow> bool" where
  "version_lt v w \<longleftrightarrow> parts v < parts w"

definition version_le :: "version \<Rightarrow> version \<Rightarrow> bool" where
  "version_le v w \<longleftrightarrow> parts v \<le> parts w"

instantiation version :: linorder
begin

definition less_eq_version :: "version \<Rightarrow> version \<Rightarrow> bool" where
  "less_eq_version = version_le"

definition less_version :: "version \<Rightarrow> version \<Rightarrow> bool" where
  "less_version = version_lt"

instance
  by standard (auto simp: less_eq_version_def less_version_def version_le_def version_lt_def parts_def prod_eq_iff
    intro: version.expand)

end

lemma version_order: "v < w \<longleftrightarrow> parts v < parts w" "v \<le> w \<longleftrightarrow> parts v \<le> parts w"
  by (simp_all add: less_eq_version_def less_version_def version_le_def version_lt_def)

text \<open>\<open>int\<close> of a string of ASCII digits; the interpreter refuses more than 4300 of them.\<close>

definition digit_value :: "char \<Rightarrow> nat" where
  "digit_value c = of_char c - 48"

definition digits_value :: "string \<Rightarrow> nat" where
  "digits_value s = foldl (\<lambda>n c. 10 * n + digit_value c) 0 s"

definition int_of_digits :: "string \<Rightarrow> nat res" where
  "int_of_digits s = (if 4300 < length s then Inl (ValueError ''integer string conversion'') else Inr (digits_value s))"

fun split_on :: "char \<Rightarrow> string \<Rightarrow> string list" where
  "split_on c [] = [[]]"
| "split_on c (x # s) =
    (if x = c then [] # split_on c s
     else case split_on c s of [] \<Rightarrow> [[x]] | w # ws \<Rightarrow> (x # w) # ws)"

definition version_of :: "string \<Rightarrow> version res" where
  "version_of text =
    (if \<not> fullmatch SEMVER text then Inl (ValueError (''Not a semantic version: '' @ text))
     else case split_on CHR ''.'' text of
       [a, b, c] \<Rightarrow> bind_res (int_of_digits a) (\<lambda>x. bind_res (int_of_digits b) (\<lambda>y.
         bind_res (int_of_digits c) (\<lambda>z. Inr (Version x y z))))
     | _ \<Rightarrow> Inl (ValueError ''too many values to unpack''))"

definition version_str :: "version \<Rightarrow> string" where
  "version_str v = nat_str (major v) @ ''.'' @ nat_str (minor v) @ ''.'' @ nat_str (patch v)"

definition satisfies_minimum :: "version \<Rightarrow> version \<Rightarrow> bool" where
  "satisfies_minimum v minimum \<longleftrightarrow> minimum \<le> v"

datatype bump = MajorBump | MinorBump | PatchBump

definition bump_kind :: "version \<Rightarrow> version \<Rightarrow> bump" where
  "bump_kind v previous =
    (if major v \<noteq> major previous then MajorBump
     else if minor v \<noteq> minor previous then MinorBump else PatchBump)"

definition compare_versions :: "string \<Rightarrow> string \<Rightarrow> int res" where
  "compare_versions left right =
    bind_res (version_of left) (\<lambda>a. bind_res (version_of right) (\<lambda>b.
      Inr (of_bool (parts b < parts a) - of_bool (parts a < parts b))))"

text \<open>\<open>max(versions, key=..., default=None)\<close>: the first of the largest.\<close>

fun max_by :: "('a \<Rightarrow> 'k::linorder) \<Rightarrow> 'a list \<Rightarrow> 'a option" where
  "max_by key [] = None"
| "max_by key (x # xs) = Some (foldl (\<lambda>b y. if key b < key y then y else b) x xs)"

fun keyed_versions :: "string list \<Rightarrow> (version \<times> string) list res" where
  "keyed_versions [] = Inr []"
| "keyed_versions (t # ts) =
    bind_res (version_of t) (\<lambda>v. bind_res (keyed_versions ts) (\<lambda>vs. Inr ((v, t) # vs)))"

definition latest :: "string list \<Rightarrow> string option res" where
  "latest ts = bind_res (keyed_versions ts) (\<lambda>vs. Inr (map_option snd (max_by (parts \<circ> fst) vs)))"

section \<open>The manifest\<close>

datatype agent_status = ADraft | ABeta | AStable | ADeprecated | ADisabled
datatype effort = LowEffort | MediumEffort | HighEffort
datatype memory_scope = RunMemory | AgentMemory | WorkspaceMemory

record reasoning_config =
  re_effort :: effort
  re_max_steps :: int
  re_escalate_after :: "int option"

record model_policy =
  mo_primary :: string
  mo_fallback :: "string option"
  mo_escalation :: "string option"

record memory_config =
  me_enabled :: bool
  me_scope :: memory_scope
  me_retention_days :: int
  me_max_items :: int

text \<open>A float is kept with its \<open>repr\<close>.\<close>

record rag_config =
  ra_enabled :: bool
  ra_top_k :: int
  ra_min_score :: "rat \<times> string"
  ra_source_tags :: "string list"

record budget_limits =
  bl_max_run :: "int option"
  bl_daily :: "int option"
  bl_max_tokens :: "int option"

record rate_limits =
  rl_runs_per_hour :: "int option"
  rl_tool_calls :: "int option"

record agent_manifest =
  mf_id :: string
  mf_slug :: string
  mf_name :: string
  mf_description :: string
  mf_category :: string
  mf_icon :: string
  mf_version :: string
  mf_min_runtime :: string
  mf_status :: agent_status
  mf_channel :: release_channel
  mf_changelog :: string
  mf_instructions :: string
  mf_model_policy :: model_policy
  mf_reasoning :: reasoning_config
  mf_required_tools :: "string list"
  mf_optional_tools :: "string list"
  mf_required_integrations :: "string list"
  mf_optional_integrations :: "string list"
  mf_capabilities :: "string list"
  mf_permissions :: "string list"
  mf_approval_required :: "string list"
  mf_memory :: memory_config
  mf_rag :: rag_config
  mf_budget :: budget_limits
  mf_rate_limits :: rate_limits
  mf_input_schema :: dict
  mf_output_schema :: dict
  mf_settings_schema :: dict

section \<open>Validation\<close>

definition chars_between :: "nat \<Rightarrow> nat \<Rightarrow> string \<Rightarrow> bool" where
  "chars_between a b s \<longleftrightarrow> a \<le> length s \<and> length s \<le> b"

definition opt_between :: "int \<Rightarrow> int \<Rightarrow> int option \<Rightarrow> bool" where
  "opt_between a b x \<longleftrightarrow> (case x of None \<Rightarrow> True | Some n \<Rightarrow> a \<le> n \<and> n \<le> b)"

definition opt_profile :: "string option \<Rightarrow> bool" where
  "opt_profile x \<longleftrightarrow> (case x of None \<Rightarrow> True | Some p \<Rightarrow> fullmatch PROFILE p)"

definition reasoning_ok :: "reasoning_config \<Rightarrow> bool" where
  "reasoning_ok r \<longleftrightarrow> 1 \<le> re_max_steps r \<and> re_max_steps r \<le> 100 \<and> opt_between 1 100 (re_escalate_after r) \<and>
     (case re_escalate_after r of None \<Rightarrow> True | Some n \<Rightarrow> n \<le> re_max_steps r)"

definition model_policy_ok :: "model_policy \<Rightarrow> bool" where
  "model_policy_ok p \<longleftrightarrow> fullmatch PROFILE (mo_primary p) \<and> opt_profile (mo_fallback p) \<and> opt_profile (mo_escalation p)"

definition memory_ok :: "memory_config \<Rightarrow> bool" where
  "memory_ok m \<longleftrightarrow> 1 \<le> me_retention_days m \<and> me_retention_days m \<le> 3650 \<and> 1 \<le> me_max_items m \<and> me_max_items m \<le> 10000"

definition rag_ok :: "rag_config \<Rightarrow> bool" where
  "rag_ok r \<longleftrightarrow> 1 \<le> ra_top_k r \<and> ra_top_k r \<le> 50 \<and> 0 \<le> fst (ra_min_score r) \<and> fst (ra_min_score r) \<le> 1 \<and>
     length (ra_source_tags r) \<le> 20"

definition budget_ok :: "budget_limits \<Rightarrow> bool" where
  "budget_ok b \<longleftrightarrow> opt_between 0 (10 ^ 12) (bl_max_run b) \<and> opt_between 0 (10 ^ 12) (bl_daily b) \<and>
     opt_between 1 10000000 (bl_max_tokens b)"

definition rate_limits_ok :: "rate_limits \<Rightarrow> bool" where
  "rate_limits_ok r \<longleftrightarrow> opt_between 1 100000 (rl_runs_per_hour r) \<and> opt_between 1 1000 (rl_tool_calls r)"

definition fields_ok :: "agent_manifest \<Rightarrow> bool" where
  "fields_ok m \<longleftrightarrow>
    fullmatch MANIFEST_ID (mf_id m) \<and> length (mf_id m) \<le> 100 \<and>
    fullmatch SLUG (mf_slug m) \<and> chars_between 3 64 (mf_slug m) \<and>
    chars_between 1 100 (mf_name m) \<and> chars_between 1 1000 (mf_description m) \<and>
    fullmatch LABEL (mf_category m) \<and> fullmatch LABEL (mf_icon m) \<and>
    fullmatch SEMVER (mf_version m) \<and> fullmatch SEMVER (mf_min_runtime m) \<and>
    length (mf_changelog m) \<le> 5000 \<and> chars_between 1 20000 (mf_instructions m) \<and>
    model_policy_ok (mf_model_policy m) \<and> reasoning_ok (mf_reasoning m) \<and>
    length (mf_required_tools m) \<le> 100 \<and> length (mf_optional_tools m) \<le> 100 \<and>
    length (mf_required_integrations m) \<le> 20 \<and> length (mf_optional_integrations m) \<le> 20 \<and>
    length (mf_capabilities m) \<le> 100 \<and> length (mf_permissions m) \<le> 100 \<and>
    length (mf_approval_required m) \<le> 100 \<and>
    memory_ok (mf_memory m) \<and> rag_ok (mf_rag m) \<and> budget_ok (mf_budget m) \<and> rate_limits_ok (mf_rate_limits m)"

text \<open>One round of the loop of \<open>_coherent\<close> over the identifier lists.\<close>

definition identifiers_ok :: "string \<Rightarrow> rx \<Rightarrow> string list \<Rightarrow> unit res" where
  "identifiers_ok field pat values =
    (if \<not> distinct values then Inl (ValueError (field @ '' contains duplicates''))
     else each_res (\<lambda>v. guard_res (fullmatch pat v \<and> length v \<le> 100)
            (ValueError (field @ '' entry is not a valid identifier: '' @ v))) values)"

definition describes_object :: "dict \<Rightarrow> bool" where
  "describes_object schema \<longleftrightarrow> schema = [] \<or> map_of schema ''type'' = Some (JStr ''object'')"

definition coherent :: "agent_manifest \<Rightarrow> unit res" where
  "coherent m =
    bind_res (identifiers_ok ''required_tools'' TOOL (mf_required_tools m)) (\<lambda>_.
    bind_res (identifiers_ok ''optional_tools'' TOOL (mf_optional_tools m)) (\<lambda>_.
    bind_res (identifiers_ok ''required_integrations'' SLUG (mf_required_integrations m)) (\<lambda>_.
    bind_res (identifiers_ok ''optional_integrations'' SLUG (mf_optional_integrations m)) (\<lambda>_.
    bind_res (identifiers_ok ''capabilities'' ACTION (mf_capabilities m)) (\<lambda>_.
    bind_res (identifiers_ok ''permissions'' ACTION (mf_permissions m)) (\<lambda>_.
    bind_res (identifiers_ok ''approval_required'' ACTION (mf_approval_required m)) (\<lambda>_.
    if set (mf_required_tools m) \<inter> set (mf_optional_tools m) \<noteq> {}
    then Inl (ValueError ''A tool is either required or optional, never both'')
    else if set (mf_required_integrations m) \<inter> set (mf_optional_integrations m) \<noteq> {}
    then Inl (ValueError ''An integration is either required or optional, never both'')
    else if \<not> ends_with (mf_id m) (''.'' @ mf_slug m)
    then Inl (ValueError ''Manifest id must end with the agent slug'')
    else if \<not> describes_object (mf_input_schema m) then Inl (ValueError ''input_schema must describe an object'')
    else if \<not> describes_object (mf_output_schema m) then Inl (ValueError ''output_schema must describe an object'')
    else if \<not> describes_object (mf_settings_schema m) then Inl (ValueError ''settings_schema must describe an object'')
    else Inr ())))))))"

definition define_agent :: "agent_manifest \<Rightarrow> agent_manifest res" where
  "define_agent m =
    (if \<not> fields_ok m then Inl (ValueError ''validation'') else bind_res (coherent m) (\<lambda>_. Inr m))"

definition semver :: "agent_manifest \<Rightarrow> version res" where
  "semver m = version_of (mf_version m)"

definition runtime_minimum :: "agent_manifest \<Rightarrow> version res" where
  "runtime_minimum m = version_of (mf_min_runtime m)"

definition integrations :: "agent_manifest \<Rightarrow> (string \<times> bool) list" where
  "integrations m = map (\<lambda>n. (n, True)) (mf_required_integrations m) @ map (\<lambda>n. (n, False)) (mf_optional_integrations m)"

definition requires_approval :: "agent_manifest \<Rightarrow> string \<Rightarrow> bool" where
  "requires_approval m action \<longleftrightarrow> action \<in> set (mf_approval_required m)"

section \<open>The stored document\<close>

fun agent_status_str :: "agent_status \<Rightarrow> string" where
  "agent_status_str ADraft = ''draft''"
| "agent_status_str ABeta = ''beta''"
| "agent_status_str AStable = ''stable''"
| "agent_status_str ADeprecated = ''deprecated''"
| "agent_status_str ADisabled = ''disabled''"

fun channel_str :: "release_channel \<Rightarrow> string" where
  "channel_str Stable = ''stable''"
| "channel_str Beta = ''beta''"
| "channel_str Canary = ''canary''"

fun effort_str :: "effort \<Rightarrow> string" where
  "effort_str LowEffort = ''low''"
| "effort_str MediumEffort = ''medium''"
| "effort_str HighEffort = ''high''"

fun memory_scope_str :: "memory_scope \<Rightarrow> string" where
  "memory_scope_str RunMemory = ''run''"
| "memory_scope_str AgentMemory = ''agent''"
| "memory_scope_str WorkspaceMemory = ''workspace''"

definition json_strs :: "string list \<Rightarrow> json" where
  "json_strs xs = JArr (map JStr xs)"

text \<open>\<open>manifest.model_dump(mode="json")\<close>\<close>

definition manifest_json :: "agent_manifest \<Rightarrow> json" where
  "manifest_json m = JObj
    [(''id'', JStr (mf_id m)), (''slug'', JStr (mf_slug m)), (''name'', JStr (mf_name m)),
     (''description'', JStr (mf_description m)), (''category'', JStr (mf_category m)), (''icon'', JStr (mf_icon m)),
     (''version'', JStr (mf_version m)), (''min_runtime_version'', JStr (mf_min_runtime m)),
     (''status'', JStr (agent_status_str (mf_status m))), (''channel'', JStr (channel_str (mf_channel m))),
     (''changelog'', JStr (mf_changelog m)), (''system_instructions'', JStr (mf_instructions m)),
     (''model_policy'', let p = mf_model_policy m in JObj [(''primary'', JStr (mo_primary p)),
        (''fallback'', json_opt JStr (mo_fallback p)), (''escalation'', json_opt JStr (mo_escalation p))]),
     (''reasoning'', let r = mf_reasoning m in JObj [(''effort'', JStr (effort_str (re_effort r))),
        (''max_steps'', JInt (re_max_steps r)), (''escalate_after_steps'', json_opt JInt (re_escalate_after r))]),
     (''required_tools'', json_strs (mf_required_tools m)), (''optional_tools'', json_strs (mf_optional_tools m)),
     (''required_integrations'', json_strs (mf_required_integrations m)),
     (''optional_integrations'', json_strs (mf_optional_integrations m)),
     (''capabilities'', json_strs (mf_capabilities m)), (''permissions'', json_strs (mf_permissions m)),
     (''approval_required'', json_strs (mf_approval_required m)),
     (''memory'', let y = mf_memory m in JObj [(''enabled'', JBool (me_enabled y)),
        (''scope'', JStr (memory_scope_str (me_scope y))), (''retention_days'', JInt (me_retention_days y)),
        (''max_items'', JInt (me_max_items y))]),
     (''rag'', let r = mf_rag m in JObj [(''enabled'', JBool (ra_enabled r)), (''top_k'', JInt (ra_top_k r)),
        (''min_score'', JFloat (Finite (fst (ra_min_score r))) (snd (ra_min_score r))),
        (''source_tags'', json_strs (ra_source_tags r))]),
     (''budget'', let b = mf_budget m in JObj [(''max_run_micros'', json_opt JInt (bl_max_run b)),
        (''daily_micros'', json_opt JInt (bl_daily b)), (''max_tokens_per_run'', json_opt JInt (bl_max_tokens b))]),
     (''rate_limits'', let r = mf_rate_limits m in JObj [(''runs_per_hour'', json_opt JInt (rl_runs_per_hour r)),
        (''tool_calls_per_run'', json_opt JInt (rl_tool_calls r))]),
     (''input_schema'', JObj (mf_input_schema m)), (''output_schema'', JObj (mf_output_schema m)),
     (''settings_schema'', JObj (mf_settings_schema m))]"

section \<open>Canonical numerals\<close>

text \<open>The digits of a version are canonical: no leading zero.\<close>

definition canonical :: "string \<Rightarrow> bool" where
  "canonical s \<longleftrightarrow> s \<noteq> [] \<and> set s \<subseteq> set digit_chars \<and> (hd s = CHR ''0'' \<longrightarrow> s = ''0'')"

lemma semver_part_iff: "rx_lang SEMVER_PART s \<longleftrightarrow> canonical s"
proof (cases s)
  case (Cons c t)
  have digits: "set digit_chars = insert CHR ''0'' (set ''123456789'')" by (simp add: digit_chars_def insert_commute)
  have not0: "CHR ''0'' \<notin> set ''123456789''" by simp
  show ?thesis
    unfolding SEMVER_PART_def canonical_def digits Cons rx_lang_alt rx_lang_in rx_lang_cat_in star_in_iff
    using not0 by auto
qed (simp add: SEMVER_PART_def canonical_def rx_lang_cat)

lemma digit_codes:
  "map (\<lambda>n. char_of (48 + n)) [0, 1, 2, 3, 4, 5, 6, 7, 8, 9 :: nat] = digit_chars"
  by code_simp

lemma digit_char_value: "c \<in> set digit_chars \<Longrightarrow> digit_value c < 10 \<and> digit_char (digit_value c) = c"
  unfolding digit_codes[symmetric] by (auto simp: digit_value_def digit_char_def)

lemma digit_value_char:
  assumes "d < 10"
  shows "digit_value (digit_char d) = d \<and> digit_char d \<in> set digit_chars"
proof -
  have "d \<in> set [0, 1, 2, 3, 4, 5, 6, 7, 8, 9]" using assms by (auto simp: less_Suc_eq numeral_eq_Suc)
  then have "char_of (48 + d) \<in> set digit_chars" unfolding digit_codes[symmetric] set_map by (rule imageI)
  with assms show ?thesis by (simp add: digit_value_def digit_char_def)
qed

lemma digit_char_0: "digit_char 0 = CHR ''0''"
  by code_simp

lemma digits_value_snoc: "digits_value (s @ [c]) = 10 * digits_value s + digit_value c"
  by (simp add: digits_value_def)

lemma digit_char_zero: "digit_char d = CHR ''0'' \<Longrightarrow> d < 10 \<Longrightarrow> d = 0"
  using digit_value_char[of d] by (auto simp: digit_value_def)

lemma canonical_nat_str: "nat_str (digits_value s) = s \<and> (s \<noteq> ''0'' \<longrightarrow> 0 < digits_value s)" if "canonical s"
  using that
proof (induction s rule: rev_induct)
  case (snoc c s)
  have c: "digit_value c < 10" "digit_char (digit_value c) = c"
    using snoc.prems digit_char_value by (auto simp: canonical_def)
  show ?case
  proof (cases s)
    case Nil
    have "0 < digit_value c" if "c \<noteq> CHR ''0''" using c that digit_char_0 by (cases "digit_value c") auto
    with Nil c show ?thesis by (simp add: digits_value_def nat_str.simps)
  next
    case (Cons d t)
    then have "hd s \<noteq> CHR ''0''" "canonical s" using snoc.prems by (auto simp: canonical_def)
    then have IH: "nat_str (digits_value s) = s" "0 < digits_value s"
      using snoc.IH Cons by auto
    have "\<not> 10 * digits_value s + digit_value c < 10" using IH(2) by simp
    then have "nat_str (10 * digits_value s + digit_value c) =
        nat_str ((10 * digits_value s + digit_value c) div 10) @ [digit_char ((10 * digits_value s + digit_value c) mod 10)]"
      by (subst nat_str.simps) simp
    with c IH show ?thesis by (simp add: digits_value_snoc)
  qed
qed (simp add: canonical_def)

lemma nat_str_canonical: "digits_value (nat_str n) = n \<and> canonical (nat_str n) \<and> (0 < n \<longrightarrow> hd (nat_str n) \<noteq> CHR ''0'')"
proof (induction n rule: nat_str.induct)
  case (1 n)
  show ?case
  proof (cases "n < 10")
    case True
    with digit_value_char[of n] digit_char_zero[of n] show ?thesis
      by (auto simp: nat_str.simps[of n] digits_value_def canonical_def digit_char_0)
  next
    case False
    note IH = "1.IH"[OF False]
    have m: "n mod 10 < 10" by simp
    have ne: "nat_str (n div 10) \<noteq> []" by (rule nat_str_nonempty)
    have "digits_value (nat_str n) = 10 * (n div 10) + n mod 10"
      using IH digit_value_char[OF m] False by (simp add: nat_str.simps[of n] digits_value_snoc)
    moreover have "hd (nat_str n) \<noteq> CHR ''0''"
      using IH False ne by (simp add: nat_str.simps[of n])
    moreover have "set (nat_str n) \<subseteq> set digit_chars"
      using IH digit_value_char[OF m] False by (simp add: nat_str.simps[of n] canonical_def)
    ultimately show ?thesis using ne nat_str_nonempty[of n] by (simp add: canonical_def)
  qed
qed

section \<open>Versions and their text\<close>

lemma split_on_none: "c \<notin> set s \<Longrightarrow> split_on c s = [s]"
  by (induction s) auto

lemma split_on_append: "c \<notin> set s \<Longrightarrow> split_on c (s @ c # t) = s # split_on c t"
  by (induction s) auto

lemma canonical_no_dot: "canonical s \<Longrightarrow> CHR ''.'' \<notin> set s"
  by (auto simp: canonical_def digit_chars_def)

lemma dotted_iff: "rx_lang (RxCat SEMVER_PART (RxCat (RxIn ''.'') r)) t \<longleftrightarrow>
    (\<exists>a b. t = a @ ''.'' @ b \<and> canonical a \<and> rx_lang r b)"
  by (subst rx_lang_cat) (auto simp: rx_lang_cat_in semver_part_iff)

lemma semver_iff: "fullmatch SEMVER t \<longleftrightarrow>
    (\<exists>a b c. t = a @ ''.'' @ b @ ''.'' @ c \<and> canonical a \<and> canonical b \<and> canonical c)"
  unfolding fullmatch_iff SEMVER_def dotted_iff semver_part_iff by blast

lemma version_of_dotted:
  assumes "canonical a" "canonical b" "canonical c"
  shows "version_of (a @ ''.'' @ b @ ''.'' @ c) =
    bind_res (int_of_digits a) (\<lambda>x. bind_res (int_of_digits b) (\<lambda>y. bind_res (int_of_digits c) (\<lambda>z. Inr (Version x y z))))"
proof -
  have "fullmatch SEMVER (a @ ''.'' @ b @ ''.'' @ c)" using assms semver_iff by blast
  moreover have "split_on CHR ''.'' (a @ ''.'' @ b @ ''.'' @ c) = [a, b, c]"
    using assms[THEN canonical_no_dot] by (simp add: split_on_append split_on_none)
  ultimately show ?thesis by (simp add: version_of_def)
qed

lemma version_of_Inr:
  assumes "version_of t = Inr v"
  shows "version_str v = t"
proof -
  have "fullmatch SEMVER t" using assms by (auto simp: version_of_def split: if_splits)
  then obtain a b c where t: "t = a @ ''.'' @ b @ ''.'' @ c" "canonical a" "canonical b" "canonical c"
    using semver_iff by blast
  then have "v = Version (digits_value a) (digits_value b) (digits_value c)"
    using assms unfolding t(1) version_of_dotted[OF t(2-4)] by (auto simp: int_of_digits_def split: if_splits)
  then show ?thesis using t canonical_nat_str by (simp add: version_str_def)
qed

lemma version_of_str:
  assumes "length (nat_str (major v)) \<le> 4300" "length (nat_str (minor v)) \<le> 4300" "length (nat_str (patch v)) \<le> 4300"
  shows "version_of (version_str v) = Inr v"
  using assms nat_str_canonical version_of_dotted[of "nat_str (major v)" "nat_str (minor v)" "nat_str (patch v)"]
  by (cases v) (simp add: version_str_def int_of_digits_def)

text \<open>Text and value of a version determine each other, so two releases with one number have one text.\<close>

lemma version_of_eq: "version_of t = Inr v \<Longrightarrow> version_of u = Inr w \<Longrightarrow> t = u \<longleftrightarrow> v = w"
  using version_of_Inr by (metis sum.inject(2))

lemma version_less_iff: "v < w \<longleftrightarrow> parts v < parts w"
  by (simp add: version_order)

end
