(* ===== verification/Integration_Manifest.thy ===== *)
theory Integration_Manifest
  imports Agent_Manifest Tool_Contracts
begin

text \<open>
  The contract of a connector (\<open>integration_manifest.py\<close>): how it authenticates, the fields a workspace
  must supply, and its executable endpoints with their governed tool contracts. A manifest is the record
  of the parsed fields. The compilation and the matching of a pattern a connector declares for a
  credential are parameters.
\<close>

section \<open>Patterns and addresses\<close>

definition FIELD_KEY :: rx where
  "FIELD_KEY = RxCat (RxIn lower_chars) (RxUpTo 63 (RxIn (lower_chars @ digit_chars @ ''_'')))"

definition CAPABILITY :: rx where
  "CAPABILITY = ACTION"

definition SCOPE :: rx where
  "SCOPE = RxCat (RxIn (upper_chars @ lower_chars @ digit_chars))
    (RxUpTo 127 (RxIn (upper_chars @ lower_chars @ digit_chars @ ''_.:/-'')))"

text \<open>\<open>[A-Za-z][A-Za-z0-9-]{0,63}\<close> and \<open>[A-Za-z][A-Za-z0-9_-]{0,63}\<close>\<close>

definition HEADER_NAME :: rx where
  "HEADER_NAME = RxCat (RxIn (upper_chars @ lower_chars))
    (RxUpTo 63 (RxIn (upper_chars @ lower_chars @ digit_chars @ ''-'')))"

definition PARAMETER_NAME :: rx where
  "PARAMETER_NAME = RxCat (RxIn (upper_chars @ lower_chars))
    (RxUpTo 63 (RxIn (upper_chars @ lower_chars @ digit_chars @ ''_-'')))"

definition secure_https_url ::
    "(string \<Rightarrow> url_parts) \<Rightarrow> (string \<Rightarrow> bool option) \<Rightarrow> string \<Rightarrow> string \<Rightarrow> string res" where
  "secure_https_url urlsplit is_global value label =
    (let u = urlsplit value; h = plain_host (host_of u)
     in if \<not> plain_https u \<or> 500 < length value
        then Inl (ValueError (label @ '' must be an HTTPS URL on port 443 without credentials or query''))
        else if h = ''localhost'' then Inl (ValueError (label @ '' hostname is not allowed''))
        else if is_global h = Some False
        then Inl (ValueError (label @ '' literal IP must be globally routable''))
        else Inr value)"

section \<open>The parts of a manifest\<close>

datatype auth_type = ApiKeyAuth | OAuth2Auth | BasicAuth | BearerAuth | WebhookAuth
datatype connector_status = ConnAvailable | ConnBeta | ConnDeprecated | ConnDisabled
datatype endpoint_retry = SafeRetry | IdempotentRetry | NeverRetry
datatype http_method = MGet | MPost | MPut | MPatch | MDelete
datatype placement_kind = BearerHeader | HeaderPlacement | QueryPlacement | BasicPlacement

record credential_placement =
  cp_kind :: placement_kind
  cp_value_field :: string
  cp_username_field :: "string option"
  cp_header :: "string option"
  cp_query_parameter :: "string option"

record connector_endpoint =
  en_capability :: string
  en_method :: http_method
  en_path :: string
  en_description :: string
  en_side_effect :: side_effect
  en_retry :: endpoint_retry
  en_input_schema :: dict
  en_output_schema :: "dict option"

record credential_field =
  cf_key :: string
  cf_label :: string
  cf_secret :: bool
  cf_required :: bool
  cf_help :: string
  cf_pattern :: "string option"

record oauth_config =
  oc_authorize_url :: string
  oc_token_url :: string
  oc_default_scopes :: "string list"
  oc_refreshable :: bool
  oc_refresh_margin :: int

record connector_manifest =
  cm_id :: string
  cm_name :: string
  cm_description :: string
  cm_category :: string
  cm_icon :: string
  cm_version :: string
  cm_status :: connector_status
  cm_auth :: auth_type
  cm_capabilities :: "string list"
  cm_scopes :: "string list"
  cm_credential_fields :: "credential_field list"
  cm_oauth :: "oauth_config option"
  cm_test_capability :: "string option"
  cm_base_url :: "string option"
  cm_base_url_field :: "string option"
  cm_placement :: "credential_placement option"
  cm_endpoints :: "connector_endpoint list"

text \<open>The truth value of an optional string.\<close>

definition given :: "string option \<Rightarrow> bool" where
  "given x \<longleftrightarrow> x \<noteq> None \<and> x \<noteq> Some []"

definition placement_complete :: "credential_placement \<Rightarrow> unit res" where
  "placement_complete p =
    (if cp_kind p = HeaderPlacement \<and> \<not> given (cp_header p)
     then Inl (ValueError ''A header placement must name its header'')
     else if cp_kind p = QueryPlacement \<and> \<not> given (cp_query_parameter p)
     then Inl (ValueError ''A query placement must name its parameter'')
     else if cp_kind p = BasicPlacement \<and> \<not> given (cp_username_field p)
     then Inl (ValueError ''A basic placement must name the field holding the user name'')
     else Inr ())"

text \<open>\<open>re.findall(r"{([^{}]+)}", path)\<close>\<close>

definition not_brace :: "char \<Rightarrow> bool" where
  "not_brace c \<longleftrightarrow> c \<noteq> CHR ''{'' \<and> c \<noteq> CHR ''}''"

function placeholders :: "string \<Rightarrow> string list" where
  "placeholders [] = []"
| "placeholders (c # s) =
    (let w = takeWhile not_brace s; rest = dropWhile not_brace s
     in if c = CHR ''{'' \<and> w \<noteq> [] \<and> rest \<noteq> [] \<and> hd rest = CHR ''}''
        then w # placeholders (tl rest) else placeholders s)"
  by pat_completeness auto
termination
  by (relation "measure length") (auto simp: less_Suc_eq_le intro: order_trans[OF diff_le_self length_dropWhile_le])

text \<open>\<open>"idempotency_key" in required\<close>: membership in a list, a substring, a key; other values raise.\<close>

definition py_in :: "string \<Rightarrow> json \<Rightarrow> bool res" where
  "py_in k v =
    (case v of
       JArr xs \<Rightarrow> Inr (list_ex (py_eq (JStr k)) xs)
     | JStr s \<Rightarrow> Inr (occurs k s)
     | JObj d \<Rightarrow> Inr (k \<in> set (map fst d))
     | _ \<Rightarrow> Inl (TypeError ''argument is not iterable''))"

text \<open>A contract error of the schema language becomes a \<open>ValueError\<close>, others pass.\<close>

definition contract_value :: "unit res \<Rightarrow> unit res" where
  "contract_value r =
    (case r of
       Inl (ToolContractError c) \<Rightarrow> Inl (ValueError (''Invalid connector tool contract: '' @ c))
     | _ \<Rightarrow> r)"

definition endpoint_valid :: "connector_endpoint \<Rightarrow> unit res" where
  "endpoint_valid e =
    (if \<not> fullmatch CAPABILITY (en_capability e) then Inl (ValueError (''Invalid capability: '' @ en_capability e))
     else if \<not> starts_with (en_path e) ''/'' \<or> occurs ''://'' (en_path e) \<or> occurs ''..'' (en_path e)
     then Inl (ValueError ''An endpoint path must be an absolute path under the base URL'')
     else if \<not> list_all (fullmatch FIELD_KEY) (placeholders (en_path e))
     then Inl (ValueError ''Endpoint path placeholders must be connector field identifiers'')
     else if en_side_effect e = ReadEffect \<and> en_retry e \<noteq> SafeRetry
     then Inl (ValueError ''Read connector endpoints must use safe retry semantics'')
     else if en_side_effect e \<noteq> ReadEffect \<and> en_retry e = SafeRetry
     then Inl (ValueError ''Side-effecting connector endpoints cannot use safe retries'')
     else bind_res (if en_retry e = IdempotentRetry
         then bind_res (py_in ''idempotency_key'' (case map_of (en_input_schema e) ''required'' of None \<Rightarrow> JArr [] | Some v \<Rightarrow> v))
           (\<lambda>b. guard_res b (ValueError ''Idempotent connector endpoints require idempotency_key''))
         else Inr ()) (\<lambda>_.
       contract_value (bind_res (validate_registration_schema (en_input_schema e) (Some (en_side_effect e)) False) (\<lambda>_.
         case en_output_schema e of None \<Rightarrow> Inr () | Some o' \<Rightarrow> validate_registration_schema o' None True))))"

definition oauth_ok :: "oauth_config \<Rightarrow> unit res" where
  "oauth_ok c =
    (if \<not> starts_with (oc_authorize_url c) ''https://'' then Inl (ValueError ''authorize_url must be an HTTPS URL'')
     else if \<not> starts_with (oc_token_url c) ''https://'' then Inl (ValueError ''token_url must be an HTTPS URL'')
     else each_res (\<lambda>sc. guard_res (fullmatch SCOPE sc) (ValueError (''Invalid OAuth scope: '' @ sc))) (oc_default_scopes c))"

section \<open>The constraints of the fields\<close>

definition placement_fields_ok :: "credential_placement \<Rightarrow> bool" where
  "placement_fields_ok p \<longleftrightarrow> fullmatch FIELD_KEY (cp_value_field p) \<and>
     (case cp_username_field p of None \<Rightarrow> True | Some f \<Rightarrow> fullmatch FIELD_KEY f) \<and>
     (case cp_header p of None \<Rightarrow> True | Some h \<Rightarrow> fullmatch HEADER_NAME h) \<and>
     (case cp_query_parameter p of None \<Rightarrow> True | Some q \<Rightarrow> fullmatch PARAMETER_NAME q)"

definition endpoint_fields_ok :: "connector_endpoint \<Rightarrow> bool" where
  "endpoint_fields_ok e \<longleftrightarrow> length (en_capability e) \<le> 100 \<and> chars_between 1 300 (en_path e) \<and>
     chars_between 1 1000 (en_description e)"

definition field_ok :: "(string \<Rightarrow> bool) \<Rightarrow> credential_field \<Rightarrow> bool" where
  "field_ok compiles f \<longleftrightarrow> fullmatch FIELD_KEY (cf_key f) \<and> chars_between 1 100 (cf_label f) \<and>
     length (cf_help f) \<le> 300 \<and> (case cf_pattern f of None \<Rightarrow> True | Some q \<Rightarrow> length q \<le> 200 \<and> compiles q)"

definition oauth_fields_ok :: "oauth_config \<Rightarrow> bool" where
  "oauth_fields_ok c \<longleftrightarrow> length (oc_authorize_url c) \<le> 500 \<and> length (oc_token_url c) \<le> 500 \<and>
     length (oc_default_scopes c) \<le> 50 \<and> 30 \<le> oc_refresh_margin c \<and> oc_refresh_margin c \<le> 2592000"

definition connector_fields_ok :: "(string \<Rightarrow> bool) \<Rightarrow> connector_manifest \<Rightarrow> bool" where
  "connector_fields_ok compiles m \<longleftrightarrow>
    fullmatch SLUG (cm_id m) \<and> chars_between 2 64 (cm_id m) \<and> chars_between 1 100 (cm_name m) \<and>
    chars_between 1 1000 (cm_description m) \<and> fullmatch LABEL (cm_category m) \<and> fullmatch LABEL (cm_icon m) \<and>
    fullmatch SEMVER (cm_version m) \<and> length (cm_capabilities m) \<le> 100 \<and> length (cm_scopes m) \<le> 100 \<and>
    length (cm_credential_fields m) \<le> 20 \<and> list_all (field_ok compiles) (cm_credential_fields m) \<and>
    (case cm_oauth m of None \<Rightarrow> True | Some c \<Rightarrow> oauth_fields_ok c \<and> oauth_ok c = Inr ()) \<and>
    (case cm_test_capability m of None \<Rightarrow> True | Some t \<Rightarrow> length t \<le> 100) \<and>
    (case cm_base_url m of None \<Rightarrow> True | Some u \<Rightarrow> length u \<le> 500) \<and>
    (case cm_base_url_field m of None \<Rightarrow> True | Some f \<Rightarrow> fullmatch FIELD_KEY f) \<and>
    (case cm_placement m of None \<Rightarrow> True | Some p \<Rightarrow> placement_fields_ok p \<and> placement_complete p = Inr ()) \<and>
    length (cm_endpoints m) \<le> 100 \<and> list_all (\<lambda>e. endpoint_fields_ok e \<and> endpoint_valid e = Inr ()) (cm_endpoints m)"

section \<open>The checks across the fields\<close>

fun required_secret_fields :: "auth_type \<Rightarrow> string list" where
  "required_secret_fields ApiKeyAuth = [''api_key'']"
| "required_secret_fields BearerAuth = [''access_token'']"
| "required_secret_fields BasicAuth = [''password'']"
| "required_secret_fields WebhookAuth = [''signing_secret'']"
| "required_secret_fields OAuth2Auth = []"

definition field_keys :: "connector_manifest \<Rightarrow> string list" where
  "field_keys m = map cf_key (cm_credential_fields m)"

definition capabilities_coherent :: "connector_manifest \<Rightarrow> unit res" where
  "capabilities_coherent m =
    bind_res (each_res (\<lambda>v. guard_res (fullmatch CAPABILITY v \<and> length v \<le> 100) (ValueError (''Invalid capability: '' @ v)))
      (cm_capabilities m)) (\<lambda>_.
    if \<not> distinct (cm_capabilities m) then Inl (ValueError ''capabilities contains duplicates'')
    else bind_res (each_res (\<lambda>v. guard_res (fullmatch SCOPE v) (ValueError (''Invalid scope: '' @ v))) (cm_scopes m)) (\<lambda>_.
    if \<not> distinct (field_keys m) then Inl (ValueError ''credential_fields contains duplicate keys'')
    else if given (cm_test_capability m) \<and> cm_test_capability m \<notin> Some ` set (cm_capabilities m)
    then Inl (ValueError ''test_capability must be one of the declared capabilities'')
    else Inr ()))"

definition auth_coherent :: "connector_manifest \<Rightarrow> unit res" where
  "auth_coherent m =
    bind_res (if cm_auth m = OAuth2Auth
        then (case cm_oauth m of
                None \<Rightarrow> Inl (ValueError ''An oauth2 connector must declare its oauth configuration'')
              | Some c \<Rightarrow> guard_res (set (oc_default_scopes c) \<subseteq> set (cm_scopes m))
                  (ValueError ''OAuth default scopes are not declared''))
        else guard_res (cm_oauth m = None) (ValueError ''Only an oauth2 connector may declare oauth configuration'')) (\<lambda>_.
      guard_res (set (required_secret_fields (cm_auth m)) \<subseteq> set (map cf_key (filter cf_required (cm_credential_fields m))))
        (ValueError ''connector is missing fields''))"

definition base_coherent ::
    "(string \<Rightarrow> url_parts) \<Rightarrow> (string \<Rightarrow> bool option) \<Rightarrow> connector_manifest \<Rightarrow> unit res" where
  "base_coherent urlsplit is_global m =
    bind_res (case cm_base_url m of
        None \<Rightarrow> Inr ()
      | Some u \<Rightarrow> bind_res (secure_https_url urlsplit is_global u ''base_url'') (\<lambda>_. Inr ())) (\<lambda>_.
    if given (cm_base_url m) \<and> given (cm_base_url_field m)
    then Inl (ValueError ''A connector states its base URL or names a field, never both'')
    else if given (cm_base_url_field m) \<and> cm_base_url_field m \<notin> Some ` set (field_keys m)
    then Inl (ValueError ''base_url_field must be a declared credential field'')
    else Inr ())"

definition endpoints_coherent :: "connector_manifest \<Rightarrow> unit res" where
  "endpoints_coherent m =
    (let caps = map en_capability (cm_endpoints m)
     in if cm_endpoints m = [] then Inr ()
        else if \<not> given (cm_base_url m) \<and> \<not> given (cm_base_url_field m)
        then Inl (ValueError ''A connector with endpoints must have a base URL'')
        else if cm_placement m = None
        then Inl (ValueError ''A connector with endpoints must declare credential placement'')
        else if \<not> distinct caps then Inl (ValueError ''endpoints declare the same capability twice'')
        else if \<not> set caps \<subseteq> set (cm_capabilities m)
        then Inl (ValueError ''endpoints reference undeclared capabilities'')
        else each_res (\<lambda>c. if 64 < length (cm_id m) + 1 + length c
                          then Inl (ValueError ''connector tool name exceeds the platform tool-name limit'')
                          else if 128 < 37 + length c
                          then Inl (ValueError ''connector capability is too long for an executable target'')
                          else Inr ()) caps)"

definition placement_coherent :: "connector_manifest \<Rightarrow> unit res" where
  "placement_coherent m =
    (case cm_placement m of
       None \<Rightarrow> Inr ()
     | Some p \<Rightarrow>
       if cm_auth m = OAuth2Auth then Inr ()
       else each_res (\<lambda>n. guard_res (n \<in> set (field_keys m))
              (ValueError (''credential_placement references unknown field: '' @ n)))
            (filter (\<lambda>n. n \<noteq> []) (cp_value_field p # (case cp_username_field p of None \<Rightarrow> [] | Some u \<Rightarrow> [u]))))"

definition connector_coherent ::
    "(string \<Rightarrow> url_parts) \<Rightarrow> (string \<Rightarrow> bool option) \<Rightarrow> connector_manifest \<Rightarrow> unit res" where
  "connector_coherent urlsplit is_global m =
    bind_res (capabilities_coherent m) (\<lambda>_.
    bind_res (auth_coherent m) (\<lambda>_.
    bind_res (base_coherent urlsplit is_global m) (\<lambda>_.
    bind_res (endpoints_coherent m) (\<lambda>_. placement_coherent m))))"

definition define_integration ::
    "(string \<Rightarrow> url_parts) \<Rightarrow> (string \<Rightarrow> bool option) \<Rightarrow> (string \<Rightarrow> bool) \<Rightarrow> connector_manifest \<Rightarrow>
     connector_manifest res" where
  "define_integration urlsplit is_global compiles m =
    (if \<not> connector_fields_ok compiles m then Inl (ValueError ''validation'')
     else bind_res (connector_coherent urlsplit is_global m) (\<lambda>_. Inr m))"

section \<open>Using a manifest\<close>

definition endpoint_for :: "connector_manifest \<Rightarrow> string \<Rightarrow> connector_endpoint option" where
  "endpoint_for m c = find (\<lambda>e. en_capability e = c) (cm_endpoints m)"

definition secret_field_keys :: "connector_manifest \<Rightarrow> string list" where
  "secret_field_keys m = map cf_key (filter cf_secret (cm_credential_fields m))"

text \<open>\<open>validate_credential\<close>: the submitted values are texts, in the order they were submitted.\<close>

definition credential_value_ok ::
    "(string \<Rightarrow> string \<Rightarrow> bool) \<Rightarrow> (string \<times> string) list \<Rightarrow> credential_field \<Rightarrow> unit res" where
  "credential_value_ok matches values f =
    (let v = map_of values (cf_key f)
     in if cf_required f \<and> \<not> given v then Inl (ValueError (''Missing credential field: '' @ cf_key f))
        else case v of
          None \<Rightarrow> Inr ()
        | Some x \<Rightarrow>
          if 8192 < length x then Inl (ValueError (''Credential field '' @ cf_key f @ '' must be text''))
          else if given (cf_pattern f) \<and> \<not> matches (the (cf_pattern f)) x
          then Inl (ValueError (''Credential field '' @ cf_key f @ '' does not match its expected format''))
          else Inr ())"

definition validate_credential ::
    "(string \<Rightarrow> string \<Rightarrow> bool) \<Rightarrow> connector_manifest \<Rightarrow> (string \<times> string) list \<Rightarrow> unit res" where
  "validate_credential matches m values =
    (if \<not> set (map fst values) \<subseteq> set (field_keys m) then Inl (ValueError ''Unknown credential fields'')
     else each_res (credential_value_ok matches values) (cm_credential_fields m))"

section \<open>The stored document\<close>

fun method_str :: "http_method \<Rightarrow> string" where
  "method_str MGet = ''GET''"
| "method_str MPost = ''POST''"
| "method_str MPut = ''PUT''"
| "method_str MPatch = ''PATCH''"
| "method_str MDelete = ''DELETE''"

fun retry_str :: "endpoint_retry \<Rightarrow> string" where
  "retry_str SafeRetry = ''safe''"
| "retry_str IdempotentRetry = ''idempotent''"
| "retry_str NeverRetry = ''never''"

fun auth_str :: "auth_type \<Rightarrow> string" where
  "auth_str ApiKeyAuth = ''api_key''"
| "auth_str OAuth2Auth = ''oauth2''"
| "auth_str BasicAuth = ''basic''"
| "auth_str BearerAuth = ''bearer_token''"
| "auth_str WebhookAuth = ''webhook''"

fun placement_str :: "placement_kind \<Rightarrow> string" where
  "placement_str BearerHeader = ''bearer_header''"
| "placement_str HeaderPlacement = ''header''"
| "placement_str QueryPlacement = ''query''"
| "placement_str BasicPlacement = ''basic''"

fun connector_status_str :: "connector_status \<Rightarrow> string" where
  "connector_status_str ConnAvailable = ''available''"
| "connector_status_str ConnBeta = ''beta''"
| "connector_status_str ConnDeprecated = ''deprecated''"
| "connector_status_str ConnDisabled = ''disabled''"

definition endpoint_json :: "connector_endpoint \<Rightarrow> json" where
  "endpoint_json e = JObj
    [(''capability'', JStr (en_capability e)), (''method'', JStr (method_str (en_method e))),
     (''path'', JStr (en_path e)), (''description'', JStr (en_description e)),
     (''side_effect'', JStr (side_effect_str (en_side_effect e))), (''retry'', JStr (retry_str (en_retry e))),
     (''input_schema'', JObj (en_input_schema e)), (''output_schema'', json_opt JObj (en_output_schema e))]"

definition field_json :: "credential_field \<Rightarrow> json" where
  "field_json f = JObj
    [(''key'', JStr (cf_key f)), (''label'', JStr (cf_label f)), (''secret'', JBool (cf_secret f)),
     (''required'', JBool (cf_required f)), (''help'', JStr (cf_help f)), (''pattern'', json_opt JStr (cf_pattern f))]"

definition connector_json :: "connector_manifest \<Rightarrow> json" where
  "connector_json m = JObj
    [(''id'', JStr (cm_id m)), (''name'', JStr (cm_name m)), (''description'', JStr (cm_description m)),
     (''category'', JStr (cm_category m)), (''icon'', JStr (cm_icon m)), (''version'', JStr (cm_version m)),
     (''status'', JStr (connector_status_str (cm_status m))), (''auth'', JStr (auth_str (cm_auth m))),
     (''capabilities'', json_strs (cm_capabilities m)), (''scopes'', json_strs (cm_scopes m)),
     (''credential_fields'', JArr (map field_json (cm_credential_fields m))),
     (''oauth'', json_opt (\<lambda>c. JObj
        [(''authorize_url'', JStr (oc_authorize_url c)), (''token_url'', JStr (oc_token_url c)),
         (''default_scopes'', json_strs (oc_default_scopes c)), (''refreshable'', JBool (oc_refreshable c)),
         (''refresh_margin_seconds'', JInt (oc_refresh_margin c))]) (cm_oauth m)),
     (''test_capability'', json_opt JStr (cm_test_capability m)), (''base_url'', json_opt JStr (cm_base_url m)),
     (''base_url_field'', json_opt JStr (cm_base_url_field m)),
     (''credential_placement'', json_opt (\<lambda>p. JObj
        [(''kind'', JStr (placement_str (cp_kind p))), (''value_field'', JStr (cp_value_field p)),
         (''username_field'', json_opt JStr (cp_username_field p)), (''header'', json_opt JStr (cp_header p)),
         (''query_parameter'', json_opt JStr (cp_query_parameter p))]) (cm_placement m)),
     (''endpoints'', JArr (map endpoint_json (cm_endpoints m)))]"

end
