(* ===== verification/Market.thy ===== *)
theory Market
  imports Integration_Manifest
begin

text \<open>
  The tables of \<open>016_agent_catalog_integrations.sql\<close> beside those of the run database: what the platform
  publishes (the agent catalogue and the connector registry), what a workspace installed and connected,
  and the platform's own journal. \<open>tenant_agents\<close> is part of the run database; the columns the
  migration adds to \<open>agent_definitions\<close> are the table \<open>forks\<close>.
\<close>

section \<open>The catalogue\<close>

datatype visibility = VRestricted | VPublic
datatype rollout_state = RolloutActive | RolloutPaused | RolloutCompleted | RolledBack

record catalog_agent_row =
  ca_id :: uuid
  ca_slug :: string
  ca_name :: string
  ca_description :: string
  ca_category :: string
  ca_icon :: string
  ca_status :: agent_status
  ca_visibility :: visibility
  ca_issuer :: string
  ca_subject :: string
  ca_created :: time
  ca_updated :: time

record catalog_version_row =
  cv_id :: uuid
  cv_agent :: uuid
  cv_version :: string
  cv_parts :: version
  cv_status :: agent_status
  cv_channel :: release_channel
  cv_manifest :: agent_manifest
  cv_min_runtime :: string
  cv_changelog :: string
  cv_issuer :: string
  cv_subject :: string
  cv_created :: time

record entitlement_row =
  et_agent :: uuid
  et_workspace :: uuid
  et_issuer :: string
  et_subject :: string
  et_created :: time

record rollout_row =
  ro_id :: uuid
  ro_agent :: uuid
  ro_version :: uuid
  ro_channel :: release_channel
  ro_percentage :: int
  ro_state :: rollout_state
  ro_issuer :: string
  ro_subject :: string
  ro_created :: time
  ro_updated :: time

record platform_event_row =
  pe_issuer :: string
  pe_subject :: string
  pe_action :: string
  pe_request :: string
  pe_target :: "string option"
  pe_detail :: dict
  pe_created :: time

section \<open>Connectors and connections\<close>

datatype integration_status = IPending | IConnected | IExpired | IRevoked | IError | IDisabled

record definition_row =
  df_id :: string
  df_version :: string
  df_status :: connector_status
  df_manifest :: connector_manifest
  df_created :: time
  df_updated :: time

record connection_row =
  ti_id :: uuid
  ti_workspace :: uuid
  ti_definition :: string
  ti_display_name :: string
  ti_account :: string
  ti_auth :: auth_type
  ti_credential :: "uuid option"
  ti_status :: integration_status
  ti_scopes :: "string list"
  ti_granted :: "string list"
  ti_config :: "(string \<times> string) list"
  ti_issuer :: string
  ti_subject :: string
  ti_created :: time
  ti_updated :: time
  ti_tested :: "time option"
  ti_success :: "time option"
  ti_error :: "string option"

type_synonym bytes = "nat list"

text \<open>A hint is a number of bullets followed by the visible tail of the secret.\<close>

record sealed_secret =
  ss_key_id :: string
  ss_wrapped_key :: bytes
  ss_wrap_nonce :: bytes
  ss_nonce :: bytes
  ss_ciphertext :: bytes
  ss_hint :: "nat \<times> string"

record credential_row =
  cr_id :: uuid
  cr_workspace :: uuid
  cr_connection :: uuid
  cr_sealed :: sealed_secret
  cr_expires :: "time option"
  cr_created :: time

record oauth_state_row =
  os_digest :: string
  os_workspace :: uuid
  os_definition :: string
  os_connection :: uuid
  os_sealed :: sealed_secret
  os_redirect :: string
  os_scopes :: "string list"
  os_expires :: time
  os_created :: time

section \<open>Installed agents\<close>

record update_policy_row =
  up_workspace :: uuid
  up_channel :: release_channel
  up_mode :: update_mode
  up_updated :: time

datatype version_action = Installed | Updated | RolledBackTo

record version_event_row =
  ve_id :: uuid
  ve_workspace :: uuid
  ve_agent :: uuid
  ve_from :: "uuid option"
  ve_to :: uuid
  ve_action :: version_action
  ve_issuer :: string
  ve_subject :: string
  ve_request :: string
  ve_created :: time

record binding_row =
  bd_id :: uuid
  bd_workspace :: uuid
  bd_agent :: uuid
  bd_key :: string
  bd_connection :: uuid
  bd_created :: time
  bd_updated :: time

record fork_row =
  fk_agent :: uuid
  fk_catalog :: uuid
  fk_version :: uuid
  fk_manifest :: agent_manifest

record market =
  catalog_agents :: "catalog_agent_row list"
  catalog_versions :: "catalog_version_row list"
  entitlements :: "entitlement_row list"
  rollouts :: "rollout_row list"
  platform_events :: "platform_event_row list"
  integration_definitions :: "definition_row list"
  connections :: "connection_row list"
  credentials :: "credential_row list"
  oauth_states :: "oauth_state_row list"
  update_policies :: "update_policy_row list"
  version_events :: "version_event_row list"
  bindings :: "binding_row list"
  forks :: "fork_row list"

definition empty_market :: market where
  "empty_market = \<lparr>catalog_agents = [], catalog_versions = [], entitlements = [], rollouts = [],
    platform_events = [], integration_definitions = [], connections = [], credentials = [],
    oauth_states = [], update_policies = [], version_events = [], bindings = [], forks = []\<rparr>"

end
