(* ===== verification/Agent_Catalog.thy ===== *)
theory Agent_Catalog
  imports Market Workspaces
begin

text \<open>
  The catalogue of standard agents (\<open>agent_catalog.py\<close>, \<open>agent_catalog_repository.py\<close>,
  \<open>platform_admin.py\<close>): entries, immutable versions, staged rollouts and entitlements, and the version a
  workspace is offered on its channel. The constraints that requests carry (patterns, lengths) are checked
  before an operation runs, and again by the columns.
\<close>

section \<open>Platform administration\<close>

definition platform_admin :: "string list \<Rightarrow> principal \<Rightarrow> principal res" where
  "platform_admin admins pr =
    (if admins = [] \<or> subject pr \<notin> set admins then Inl (HTTPException 404) else Inr pr)"

definition ROLLOUT_BUCKETS :: nat where
  "ROLLOUT_BUCKETS = 100"

definition big_endian :: "nat list \<Rightarrow> nat" where
  "big_endian bs = foldl (\<lambda>n b. 256 * n + b) 0 bs"

definition rollout_bucket :: "uuid \<Rightarrow> uuid \<Rightarrow> nat" where
  "rollout_bucket agent ws =
    big_endian (take 8 (sha256_bytes (utf8 (uuid_str agent @ '':'' @ uuid_str ws)))) mod ROLLOUT_BUCKETS"

definition platform_audit ::
    "txenv \<Rightarrow> principal \<Rightarrow> string \<Rightarrow> string \<Rightarrow> string option \<Rightarrow> dict \<Rightarrow> market \<Rightarrow> market res" where
  "platform_audit env pr action req target detail m =
    (if (case target of None \<Rightarrow> False | Some t \<Rightarrow> 200 < length t)
     then Inl (CheckViolation ''platform_events'')
     else Inr (m\<lparr>platform_events := platform_events m @
       [\<lparr>pe_issuer = issuer pr, pe_subject = subject pr, pe_action = action, pe_request = req,
         pe_target = target, pe_detail = detail, pe_created = tx_now env\<rparr>]\<rparr>))"

section \<open>Entries\<close>

record catalog_agent_view =
  cg_row :: catalog_agent_row
  cg_latest :: "string option"
  cg_count :: nat

definition versions_of :: "uuid \<Rightarrow> market \<Rightarrow> catalog_version_row list" where
  "versions_of agent m = filter (\<lambda>v. cv_agent v = agent) (catalog_versions m)"

text \<open>\<open>ORDER BY major DESC, minor DESC, patch DESC\<close>\<close>

definition newest_version :: "catalog_version_row \<Rightarrow> int \<times> int \<times> int" where
  "newest_version v = (let (a, b, c) = parts (cv_parts v) in (- int a, - int b, - int c))"

definition highest :: "(catalog_version_row \<Rightarrow> bool) \<Rightarrow> market \<Rightarrow> catalog_version_row option" where
  "highest p m = (case order_limit newest_version 1 p (catalog_versions m) of [] \<Rightarrow> None | v # _ \<Rightarrow> Some v)"

definition catalog_view :: "market \<Rightarrow> catalog_agent_row \<Rightarrow> catalog_agent_view" where
  "catalog_view m a = \<lparr>cg_row = a, cg_latest = map_option cv_version (highest (\<lambda>v. cv_agent v = ca_id a) m),
     cg_count = length (versions_of (ca_id a) m)\<rparr>"

definition find_catalog :: "string \<Rightarrow> market \<Rightarrow> catalog_agent_row option" where
  "find_catalog slug m = find (\<lambda>a. ca_slug a = slug) (catalog_agents m)"

definition catalog_row :: "string \<Rightarrow> market \<Rightarrow> catalog_agent_row res" where
  "catalog_row slug m = (case find_catalog slug m of None \<Rightarrow> Inl (HTTPException 404) | Some a \<Rightarrow> Inr a)"

record catalog_input =
  ci_slug :: string
  ci_name :: string
  ci_description :: string
  ci_category :: string
  ci_icon :: string
  ci_status :: agent_status
  ci_visibility :: visibility

definition new_catalog_agent :: "txenv \<Rightarrow> principal \<Rightarrow> catalog_input \<Rightarrow> catalog_agent_row" where
  "new_catalog_agent env pr body =
    \<lparr>ca_id = tx_uuid env 0, ca_slug = ci_slug body, ca_name = ci_name body,
     ca_description = ci_description body, ca_category = ci_category body, ca_icon = ci_icon body,
     ca_status = ci_status body, ca_visibility = ci_visibility body, ca_issuer = issuer pr,
     ca_subject = subject pr, ca_created = tx_now env, ca_updated = tx_now env\<rparr>"

definition create_catalog_agent ::
    "txenv \<Rightarrow> principal \<Rightarrow> catalog_input \<Rightarrow> string \<Rightarrow> market \<Rightarrow> (catalog_agent_view \<times> market) res" where
  "create_catalog_agent env pr body req m =
    (let a = new_catalog_agent env pr body
     in if sql_exists (\<lambda>x. ca_id x = ca_id a \<or> ca_slug x = ca_slug a) (catalog_agents m)
        then Inl (HTTPException 409)
        else bind_res (platform_audit env pr ''catalog.agent.created'' req (Some (ci_slug body)) []
            (m\<lparr>catalog_agents := catalog_agents m @ [a]\<rparr>)) (\<lambda>m1.
          Inr (\<lparr>cg_row = a, cg_latest = None, cg_count = 0\<rparr>, m1)))"

definition list_catalog_agents :: "nat \<Rightarrow> string option \<Rightarrow> market \<Rightarrow> catalog_agent_view list" where
  "list_catalog_agents n c m = map (catalog_view m) (keyset_query ca_slug (\<lambda>_. True) (catalog_agents m) n c)"

definition get_catalog_agent :: "string \<Rightarrow> market \<Rightarrow> catalog_agent_view res" where
  "get_catalog_agent slug m = bind_res (catalog_row slug m) (\<lambda>a. Inr (catalog_view m a))"

text \<open>An update names the fields it changes.\<close>

record catalog_update =
  cu_name :: "string option"
  cu_description :: "string option"
  cu_category :: "string option"
  cu_icon :: "string option"
  cu_status :: "agent_status option"
  cu_visibility :: "visibility option"

definition or_else :: "'a option \<Rightarrow> 'a \<Rightarrow> 'a" where
  "or_else x d = (case x of None \<Rightarrow> d | Some v \<Rightarrow> v)"

definition changed :: "string \<Rightarrow> 'a option \<Rightarrow> string list" where
  "changed n x = (case x of None \<Rightarrow> [] | Some _ \<Rightarrow> [n])"

definition changed_fields :: "catalog_update \<Rightarrow> string list" where
  "changed_fields u = changed ''name'' (cu_name u) @ changed ''description'' (cu_description u) @
     changed ''category'' (cu_category u) @ changed ''icon'' (cu_icon u) @
     changed ''status'' (cu_status u) @ changed ''visibility'' (cu_visibility u)"

definition apply_update :: "txenv \<Rightarrow> catalog_update \<Rightarrow> catalog_agent_row \<Rightarrow> catalog_agent_row" where
  "apply_update env u a = a\<lparr>ca_name := or_else (cu_name u) (ca_name a),
     ca_description := or_else (cu_description u) (ca_description a),
     ca_category := or_else (cu_category u) (ca_category a), ca_icon := or_else (cu_icon u) (ca_icon a),
     ca_status := or_else (cu_status u) (ca_status a),
     ca_visibility := or_else (cu_visibility u) (ca_visibility a), ca_updated := tx_now env\<rparr>"

definition update_catalog_agent ::
    "txenv \<Rightarrow> principal \<Rightarrow> string \<Rightarrow> catalog_update \<Rightarrow> string \<Rightarrow> market \<Rightarrow> (catalog_agent_view \<times> market) res" where
  "update_catalog_agent env pr slug u req m =
    (if changed_fields u = [] then Inl (ValueError ''At least one field must be supplied'')
     else bind_res (catalog_row slug m) (\<lambda>_.
       bind_res (platform_audit env pr ''catalog.agent.updated'' req (Some slug)
           [(''fields'', json_strs (sort (changed_fields u)))]
           (m\<lparr>catalog_agents := sql_update (\<lambda>a. ca_slug a = slug) (apply_update env u) (catalog_agents m)\<rparr>)) (\<lambda>m1.
         bind_res (get_catalog_agent slug m1) (\<lambda>v. Inr (v, m1)))))"

section \<open>Versions\<close>

text \<open>The numeric columns of a version are 32-bit integers.\<close>

definition parts_in_range :: "version \<Rightarrow> bool" where
  "parts_in_range v \<longleftrightarrow> major v < 2 ^ 31 \<and> minor v < 2 ^ 31 \<and> patch v < 2 ^ 31"

definition insert_version :: "catalog_version_row \<Rightarrow> market \<Rightarrow> market res" where
  "insert_version v m =
    (if \<not> parts_in_range (cv_parts v) then Inl (RaiseException ''numeric_value_out_of_range'')
     else if sql_exists (\<lambda>x. cv_id x = cv_id v) (catalog_versions m)
     then Inl (UniqueViolation ''catalog_agent_versions_pkey'')
     else if sql_exists (\<lambda>x. cv_agent x = cv_agent v \<and> cv_version x = cv_version v) (catalog_versions m)
     then Inl (UniqueViolation ''catalog_agent_versions_version'')
     else Inr (m\<lparr>catalog_versions := catalog_versions m @ [v]\<rparr>))"

fun bump_str :: "bump \<Rightarrow> string" where
  "bump_str MajorBump = ''major''"
| "bump_str MinorBump = ''minor''"
| "bump_str PatchBump = ''patch''"

definition new_version :: "txenv \<Rightarrow> principal \<Rightarrow> uuid \<Rightarrow> agent_manifest \<Rightarrow> version \<Rightarrow> catalog_version_row" where
  "new_version env pr agent mf v =
    \<lparr>cv_id = tx_uuid env 0, cv_agent = agent, cv_version = mf_version mf, cv_parts = v,
     cv_status = mf_status mf, cv_channel = mf_channel mf, cv_manifest = mf,
     cv_min_runtime = mf_min_runtime mf, cv_changelog = mf_changelog mf,
     cv_issuer = issuer pr, cv_subject = subject pr, cv_created = tx_now env\<rparr>"

definition publish_version ::
    "txenv \<Rightarrow> principal \<Rightarrow> string \<Rightarrow> agent_manifest \<Rightarrow> string \<Rightarrow> market \<Rightarrow> (catalog_version_row \<times> market) res" where
  "publish_version env pr slug mf req m =
    (if mf_slug mf \<noteq> slug then Inl (HTTPException 422)
     else bind_res (catalog_row slug m) (\<lambda>agent.
       bind_res (semver mf) (\<lambda>released.
       let previous = highest (\<lambda>v. cv_agent v = ca_id agent) m
       in bind_res (case previous of None \<Rightarrow> Inr None
                    | Some p \<Rightarrow> bind_res (version_of (cv_version p)) (\<lambda>v. Inr (Some v))) (\<lambda>before.
          if (case before of None \<Rightarrow> False | Some v \<Rightarrow> released \<le> v) then Inl (HTTPException 409)
          else let row = new_version env pr (ca_id agent) mf released
            in bind_res (insert_version row m) (\<lambda>m1.
               bind_res (platform_audit env pr ''catalog.version.published'' req (Some (slug @ ''@'' @ mf_version mf))
                   [(''channel'', JStr (channel_str (mf_channel mf))),
                    (''status'', JStr (agent_status_str (mf_status mf))),
                    (''bump'', JStr (case before of None \<Rightarrow> ''initial'' | Some v \<Rightarrow> bump_str (bump_kind released v)))] m1) (\<lambda>m2.
                 Inr (row, m2)))))))"

definition list_versions :: "string \<Rightarrow> nat \<Rightarrow> string option \<Rightarrow> market \<Rightarrow> catalog_version_row list res" where
  "list_versions slug n c m =
    bind_res (catalog_row slug m) (\<lambda>agent.
    bind_res (case c of None \<Rightarrow> Inr None
              | Some t \<Rightarrow> if t = [] then Inr None else bind_res (version_of t) (\<lambda>v. Inr (Some v))) (\<lambda>b.
      if (case b of None \<Rightarrow> False | Some w \<Rightarrow> \<not> parts_in_range w)
      then Inl (RaiseException ''numeric_value_out_of_range'')
      else Inr (order_limit newest_version n
        (\<lambda>v. cv_agent v = ca_id agent \<and> (case b of None \<Rightarrow> True | Some w \<Rightarrow> parts (cv_parts v) < parts w))
        (catalog_versions m))))"

definition find_version :: "string \<Rightarrow> string \<Rightarrow> market \<Rightarrow> catalog_version_row option" where
  "find_version slug text m =
    (case find_catalog slug m of None \<Rightarrow> None
     | Some a \<Rightarrow> find (\<lambda>v. cv_agent v = ca_id a \<and> cv_version v = text) (catalog_versions m))"

definition get_version :: "string \<Rightarrow> string \<Rightarrow> market \<Rightarrow> catalog_version_row res" where
  "get_version slug text m = (case find_version slug text m of None \<Rightarrow> Inl (HTTPException 404) | Some v \<Rightarrow> Inr v)"

definition rereleased :: "agent_status option \<Rightarrow> release_channel option \<Rightarrow> catalog_version_row \<Rightarrow> catalog_version_row" where
  "rereleased st ch v = v\<lparr>cv_status := or_else st (cv_status v), cv_channel := or_else ch (cv_channel v)\<rparr>"

definition version_named :: "string \<Rightarrow> string \<Rightarrow> market \<Rightarrow> catalog_version_row \<Rightarrow> bool" where
  "version_named slug text m v \<longleftrightarrow> cv_version v = text \<and>
     (case find_catalog slug m of None \<Rightarrow> False | Some a \<Rightarrow> cv_agent v = ca_id a)"

definition set_version_release ::
    "txenv \<Rightarrow> principal \<Rightarrow> string \<Rightarrow> string \<Rightarrow> agent_status option \<Rightarrow> release_channel option \<Rightarrow> string \<Rightarrow> market \<Rightarrow>
     (catalog_version_row \<times> market) res" where
  "set_version_release env pr slug text st ch req m =
    (if st = None \<and> ch = None then Inl (ValueError ''At least one of status or channel must be supplied'')
     else bind_res (get_version slug text m) (\<lambda>_.
       let m1 = m\<lparr>catalog_versions := sql_update (version_named slug text m) (rereleased st ch) (catalog_versions m)\<rparr>
       in bind_res (platform_audit env pr ''catalog.version.release_changed'' req (Some (slug @ ''@'' @ text))
            ((case st of None \<Rightarrow> [] | Some x \<Rightarrow> [(''status'', JStr (agent_status_str x))]) @
             (case ch of None \<Rightarrow> [] | Some x \<Rightarrow> [(''channel'', JStr (channel_str x))])) m1) (\<lambda>m2.
          bind_res (get_version slug text m2) (\<lambda>v. Inr (v, m2)))))"

section \<open>Rollouts\<close>

fun rollout_state_str :: "rollout_state \<Rightarrow> string" where
  "rollout_state_str RolloutActive = ''active''"
| "rollout_state_str RolloutPaused = ''paused''"
| "rollout_state_str RolloutCompleted = ''completed''"
| "rollout_state_str RolledBack = ''rolled_back''"

text \<open>\<open>AgentStatus\<close> in \<open>OFFERABLE_STATUSES\<close>, and the channels a subscriber receives.\<close>

definition offerable :: "agent_status \<Rightarrow> bool" where
  "offerable st \<longleftrightarrow> st \<in> {AStable, ABeta}"

fun channel_scope :: "release_channel \<Rightarrow> release_channel list" where
  "channel_scope Stable = [Stable]"
| "channel_scope Beta = [Stable, Beta]"
| "channel_scope Canary = [Stable, Beta, Canary]"

text \<open>The partial unique index \<open>agent_rollouts_one_active\<close> is checked after every write.\<close>

definition active_on :: "uuid \<Rightarrow> release_channel \<Rightarrow> rollout_row \<Rightarrow> bool" where
  "active_on agent ch r \<longleftrightarrow> ro_agent r = agent \<and> ro_channel r = ch \<and> ro_state r = RolloutActive"

definition one_active :: "rollout_row list \<Rightarrow> bool" where
  "one_active rs \<longleftrightarrow> distinct (map (\<lambda>r. (ro_agent r, ro_channel r)) (filter (\<lambda>r. ro_state r = RolloutActive) rs))"

definition write_rollouts :: "rollout_row list \<Rightarrow> market \<Rightarrow> market res" where
  "write_rollouts rs m =
    (if \<not> list_all (\<lambda>r. 0 \<le> ro_percentage r \<and> ro_percentage r \<le> 100) rs then Inl (CheckViolation ''agent_rollouts'')
     else if \<not> distinct (map ro_id rs) then Inl (UniqueViolation ''agent_rollouts_pkey'')
     else if \<not> one_active rs then Inl (UniqueViolation ''agent_rollouts_one_active'')
     else Inr (m\<lparr>rollouts := rs\<rparr>))"

definition new_rollout ::
    "txenv \<Rightarrow> principal \<Rightarrow> uuid \<Rightarrow> uuid \<Rightarrow> release_channel \<Rightarrow> int \<Rightarrow> rollout_row" where
  "new_rollout env pr agent version ch pct =
    \<lparr>ro_id = tx_uuid env 0, ro_agent = agent, ro_version = version, ro_channel = ch, ro_percentage = pct,
     ro_state = RolloutActive, ro_issuer = issuer pr, ro_subject = subject pr,
     ro_created = tx_now env, ro_updated = tx_now env\<rparr>"

text \<open>A rollout joined with its version.\<close>

definition version_row :: "uuid \<Rightarrow> market \<Rightarrow> catalog_version_row option" where
  "version_row i m = find (\<lambda>v. cv_id v = i) (catalog_versions m)"

definition rollout_by_id :: "uuid \<Rightarrow> uuid \<Rightarrow> market \<Rightarrow> (rollout_row \<times> catalog_version_row) res" where
  "rollout_by_id agent i m =
    (case find (\<lambda>r. ro_id r = i \<and> ro_agent r = agent) (rollouts m) of
       None \<Rightarrow> Inl (HTTPException 404)
     | Some r \<Rightarrow> (case version_row (ro_version r) m of
                     None \<Rightarrow> Inl (HTTPException 404) | Some v \<Rightarrow> Inr (r, v)))"

definition superseded :: "txenv \<Rightarrow> rollout_row \<Rightarrow> rollout_row" where
  "superseded env r = r\<lparr>ro_state := RolloutCompleted, ro_updated := tx_now env\<rparr>"

definition create_rollout ::
    "txenv \<Rightarrow> principal \<Rightarrow> string \<Rightarrow> string \<Rightarrow> release_channel \<Rightarrow> int \<Rightarrow> string \<Rightarrow> market \<Rightarrow>
     ((rollout_row \<times> catalog_version_row) \<times> market) res" where
  "create_rollout env pr slug text ch pct req m =
    bind_res (catalog_row slug m) (\<lambda>agent.
    bind_res (get_version slug text m) (\<lambda>v.
    if \<not> offerable (cv_status v) then Inl (HTTPException 409)
    else let rs = sql_update (active_on (ca_id agent) ch) (superseded env) (rollouts m)
      in bind_res (write_rollouts (rs @ [new_rollout env pr (ca_id agent) (cv_id v) ch pct]) m) (\<lambda>m1.
         bind_res (platform_audit env pr ''catalog.rollout.created'' req (Some (slug @ ''@'' @ text))
             [(''channel'', JStr (channel_str ch)), (''percentage'', JInt pct)] m1) (\<lambda>m2.
         bind_res (rollout_by_id (ca_id agent) (tx_uuid env 0) m2) (\<lambda>x. Inr (x, m2))))))"

definition list_rollouts ::
    "string \<Rightarrow> nat \<Rightarrow> uuid option \<Rightarrow> market \<Rightarrow> rollout_row list res" where
  "list_rollouts slug n c m =
    bind_res (catalog_row slug m) (\<lambda>agent.
      Inr (keyset_query ro_id (\<lambda>r. ro_agent r = ca_id agent \<and> version_row (ro_version r) m \<noteq> None) (rollouts m) n c))"

definition restaged :: "txenv \<Rightarrow> int option \<Rightarrow> rollout_state option \<Rightarrow> rollout_row \<Rightarrow> rollout_row" where
  "restaged env pct st r = r\<lparr>ro_percentage := or_else pct (ro_percentage r), ro_state := or_else st (ro_state r),
     ro_updated := tx_now env\<rparr>"

text \<open>The request may not name the state \<open>rolled_back\<close>.\<close>

definition update_rollout ::
    "txenv \<Rightarrow> principal \<Rightarrow> string \<Rightarrow> uuid \<Rightarrow> int option \<Rightarrow> rollout_state option \<Rightarrow> string \<Rightarrow> market \<Rightarrow>
     ((rollout_row \<times> catalog_version_row) \<times> market) res" where
  "update_rollout env pr slug i pct st req m =
    (if pct = None \<and> st = None then Inl (ValueError ''At least one of percentage or state must be supplied'')
     else if st = Some RolledBack then Inl (ValueError ''Use the rollback endpoint so the previous version is restored'')
     else bind_res (catalog_row slug m) (\<lambda>agent.
       bind_res (rollout_by_id (ca_id agent) i m) (\<lambda>(r, v).
       if ro_state r \<in> {RolledBack, RolloutCompleted} then Inl (HTTPException 409)
       else bind_res (write_rollouts (sql_update (\<lambda>x. ro_id x = i) (restaged env pct st) (rollouts m)) m) (\<lambda>m1.
            bind_res (platform_audit env pr ''catalog.rollout.updated'' req (Some (slug @ ''@'' @ cv_version v))
                ((case pct of None \<Rightarrow> [] | Some p \<Rightarrow> [(''percentage'', JInt p)]) @
                 (case st of None \<Rightarrow> [] | Some x \<Rightarrow> [(''state'', JStr (rollout_state_str x))])) m1) (\<lambda>m2.
            bind_res (rollout_by_id (ca_id agent) i m2) (\<lambda>x. Inr (x, m2)))))))"

text \<open>The rollout that served the channel before: the latest earlier one that was not rolled back.\<close>

definition preceding_rollout :: "rollout_row \<Rightarrow> market \<Rightarrow> (rollout_row \<times> catalog_version_row) option" where
  "preceding_rollout cur m =
    (case order_limit (\<lambda>r. (- ro_created r, - uint (ro_id r))) 1
        (\<lambda>r. ro_agent r = ro_agent cur \<and> ro_channel r = ro_channel cur \<and> ro_created r < ro_created cur \<and>
             ro_state r \<noteq> RolledBack \<and> version_row (ro_version r) m \<noteq> None) (rollouts m) of
       [] \<Rightarrow> None
     | r # _ \<Rightarrow> map_option (Pair r) (version_row (ro_version r) m))"

definition withdrawn :: "txenv \<Rightarrow> rollout_row \<Rightarrow> rollout_row" where
  "withdrawn env r = r\<lparr>ro_state := RolledBack, ro_updated := tx_now env\<rparr>"

definition rollback_rollout ::
    "txenv \<Rightarrow> principal \<Rightarrow> string \<Rightarrow> uuid \<Rightarrow> string \<Rightarrow> market \<Rightarrow>
     ((rollout_row \<times> catalog_version_row) \<times> market) res" where
  "rollback_rollout env pr slug i req m =
    bind_res (catalog_row slug m) (\<lambda>agent.
    bind_res (rollout_by_id (ca_id agent) i m) (\<lambda>(r, v).
    if ro_state r = RolledBack then Inl (HTTPException 409)
    else let rs = sql_update (\<lambda>x. ro_id x = i) (withdrawn env) (rollouts m);
             prev = preceding_rollout r m
      in case prev of
           None \<Rightarrow>
             bind_res (write_rollouts rs m) (\<lambda>m1.
             bind_res (platform_audit env pr ''catalog.rollout.rolled_back'' req (Some (slug @ ''@'' @ cv_version v))
                 [(''restored'', JNull), (''channel'', JStr (channel_str (ro_channel r)))] m1) (\<lambda>m2.
             bind_res (rollout_by_id (ca_id agent) i m2) (\<lambda>x. Inr (x, m2))))
         | Some (p, pv) \<Rightarrow>
             bind_res (write_rollouts (rs @ [new_rollout env pr (ca_id agent) (ro_version p) (ro_channel r) 100]) m) (\<lambda>m1.
             bind_res (platform_audit env pr ''catalog.rollout.rolled_back'' req (Some (slug @ ''@'' @ cv_version v))
                 [(''restored'', JStr (cv_version pv)), (''channel'', JStr (channel_str (ro_channel r)))] m1) (\<lambda>m2.
             bind_res (rollout_by_id (ca_id agent) (tx_uuid env 0) m2) (\<lambda>x. Inr (x, m2))))))"

section \<open>Entitlements\<close>

definition entitled :: "uuid \<Rightarrow> uuid \<Rightarrow> market \<Rightarrow> bool" where
  "entitled agent ws m = sql_exists (\<lambda>e. et_agent e = agent \<and> et_workspace e = ws) (entitlements m)"

text \<open>\<open>known\<close> says whether the workspace exists, the foreign key of an entitlement.\<close>

definition grant_entitlement ::
    "txenv \<Rightarrow> principal \<Rightarrow> string \<Rightarrow> uuid \<Rightarrow> bool \<Rightarrow> string \<Rightarrow> market \<Rightarrow> (entitlement_row \<times> market) res" where
  "grant_entitlement env pr slug ws known req m =
    bind_res (catalog_row slug m) (\<lambda>agent.
    let same = (\<lambda>e. et_agent e = ca_id agent \<and> et_workspace e = ws);
        fresh = \<lparr>et_agent = ca_id agent, et_workspace = ws, et_issuer = issuer pr, et_subject = subject pr,
                 et_created = tx_now env\<rparr>
    in if \<not> known then Inl (HTTPException 404)
       else let m1 = (if entitled (ca_id agent) ws m
              then m\<lparr>entitlements := sql_update same (\<lambda>e. e\<lparr>et_subject := subject pr\<rparr>) (entitlements m)\<rparr>
              else m\<lparr>entitlements := entitlements m @ [fresh]\<rparr>)
         in bind_res (platform_audit env pr ''catalog.entitlement.granted'' req (Some slug)
                [(''workspace_id'', JStr (uuid_str ws))] m1) (\<lambda>m2.
              Inr (or_else (find same (entitlements m2)) fresh, m2)))"

definition revoke_entitlement ::
    "txenv \<Rightarrow> principal \<Rightarrow> string \<Rightarrow> uuid \<Rightarrow> string \<Rightarrow> market \<Rightarrow> (unit \<times> market) res" where
  "revoke_entitlement env pr slug ws req m =
    bind_res (catalog_row slug m) (\<lambda>agent.
    bind_res (platform_audit env pr ''catalog.entitlement.revoked'' req (Some slug) [(''workspace_id'', JStr (uuid_str ws))]
        (m\<lparr>entitlements := filter (\<lambda>e. \<not> (et_agent e = ca_id agent \<and> et_workspace e = ws)) (entitlements m)\<rparr>)) (\<lambda>m1.
      Inr ((), m1)))"

definition list_entitlements :: "string \<Rightarrow> nat \<Rightarrow> uuid option \<Rightarrow> market \<Rightarrow> entitlement_row list res" where
  "list_entitlements slug n c m =
    bind_res (catalog_row slug m) (\<lambda>agent.
      Inr (keyset_query et_workspace (\<lambda>e. et_agent e = ca_id agent) (entitlements m) n c))"

section \<open>The version a workspace is offered\<close>

text \<open>The active rollouts of the channels in scope, joined with their versions.\<close>

definition active_rollouts :: "uuid \<Rightarrow> release_channel \<Rightarrow> market \<Rightarrow> (rollout_row \<times> catalog_version_row) list" where
  "active_rollouts agent ch m =
    List.map_filter (\<lambda>r. if ro_agent r = agent \<and> ro_state r = RolloutActive \<and> ro_channel r \<in> set (channel_scope ch)
      then map_option (Pair r) (version_row (ro_version r) m) else None) (rollouts m)"

definition included :: "nat \<Rightarrow> rollout_row \<times> catalog_version_row \<Rightarrow> bool" where
  "included bucket x \<longleftrightarrow> int bucket < ro_percentage (fst x)"

definition offered_row :: "uuid \<Rightarrow> uuid \<Rightarrow> release_channel \<Rightarrow> market \<Rightarrow> catalog_version_row option" where
  "offered_row agent ws ch m =
    (let bucket = rollout_bucket agent ws; xs = active_rollouts agent ch m
     in case max_by (\<lambda>x. parts (cv_parts (snd x))) (filter (included bucket) xs) of
          Some x \<Rightarrow> Some (snd x)
        | None \<Rightarrow> highest (\<lambda>v. cv_agent v = agent \<and> cv_channel v \<in> set (channel_scope ch) \<and> offerable (cv_status v) \<and>
              cv_id v \<notin> set (map (ro_version \<circ> fst) (filter (\<lambda>x. \<not> included bucket x) xs))) m)"

definition offered_version :: "uuid \<Rightarrow> uuid \<Rightarrow> release_channel \<Rightarrow> market \<Rightarrow> (uuid \<times> string) option" where
  "offered_version agent ws ch m = map_option (\<lambda>v. (cv_id v, cv_version v)) (offered_row agent ws ch m)"

end
