(* ===== verification/Catalog_Safety.thy ===== *)
theory Catalog_Safety
  imports Agent_Catalog
begin

text \<open>
  What every transaction of the catalogue keeps: releases are valid, distinct and published in increasing
  order for each agent, one rollout is active for an agent and channel, and nothing that was released,
  rolled back or recorded is ever rewritten.
\<close>

section \<open>Tables that only grow\<close>

text \<open>The rows of \<open>xs\<close> are still there, each moved along \<open>R\<close>, followed by new ones.\<close>

definition extends :: "('r \<Rightarrow> 'r \<Rightarrow> bool) \<Rightarrow> 'r list \<Rightarrow> 'r list \<Rightarrow> bool" where
  "extends R xs ys \<longleftrightarrow> (\<exists>zs ws. ys = zs @ ws \<and> list_all2 R xs zs)"

locale row_order =
  fixes R :: "'r \<Rightarrow> 'r \<Rightarrow> bool"
  assumes row_refl: "R x x" and row_trans: "R x y \<Longrightarrow> R y z \<Longrightarrow> R x z"
begin

lemma extends_refl: "extends R xs xs"
  unfolding extends_def by (intro exI[of _ xs] exI[of _ "[]"]) (simp add: list.rel_refl row_refl)

lemma extends_append: "extends R xs ys \<Longrightarrow> extends R xs (ys @ ws)"
  unfolding extends_def by (elim exE conjE) (rule exI, rule exI, intro conjI, simp, assumption)

lemma extends_update:
  assumes "\<And>x. x \<in> set xs \<Longrightarrow> p x \<Longrightarrow> R x (f x)"
  shows "extends R xs (sql_update p f xs)"
  unfolding extends_def
proof (intro exI conjI)
  show "sql_update p f xs = sql_update p f xs @ []" by simp
  show "list_all2 R xs (sql_update p f xs)"
    using assms by (induction xs) (auto simp: row_refl)
qed

lemma extends_trans:
  assumes "extends R xs ys" and "extends R ys zs"
  shows "extends R xs zs"
proof -
  obtain a b where a: "ys = a @ b" "list_all2 R xs a" using assms(1) by (auto simp: extends_def)
  obtain c d where c: "zs = c @ d" "list_all2 R ys c" using assms(2) by (auto simp: extends_def)
  obtain c1 c2 where s: "c = c1 @ c2" "list_all2 R a c1"
    using c(2) a(1) by (auto simp: list_all2_append1)
  have "list_all2 R xs c1" by (rule list_all2_trans[OF _ a(2) s(2)]) (rule row_trans)
  then show ?thesis unfolding extends_def using c(1) s(1) by auto
qed

lemma extends_mem:
  assumes "extends R xs ys" and "x \<in> set xs"
  shows "\<exists>y \<in> set ys. R x y"
proof -
  obtain zs ws where z: "ys = zs @ ws" "list_all2 R xs zs" using assms(1) by (auto simp: extends_def)
  obtain i where "i < length xs" "x = xs ! i" using assms(2) by (auto simp: in_set_conv_nth)
  then have "R x (zs ! i)" "zs ! i \<in> set zs" using z(2) by (auto simp: list_all2_conv_all_nth)
  then show ?thesis using z(1) by auto
qed

end

text \<open>Journals: no row ever changes.\<close>

interpretation journal: row_order "(=)"
  by unfold_locales simp_all

text \<open>A release is everything of a version but its status and channel.\<close>

definition same_release :: "catalog_version_row \<Rightarrow> catalog_version_row \<Rightarrow> bool" where
  "same_release v w \<longleftrightarrow> w\<lparr>cv_status := cv_status v, cv_channel := cv_channel v\<rparr> = v"

lemma same_releaseD:
  assumes "same_release v w"
  shows "cv_id w = cv_id v" "cv_agent w = cv_agent v" "cv_version w = cv_version v" "cv_parts w = cv_parts v"
    "cv_manifest w = cv_manifest v" "cv_min_runtime w = cv_min_runtime v" "cv_changelog w = cv_changelog v"
    "cv_created w = cv_created v"
  using assms by (cases v, cases w, simp add: same_release_def)+

interpretation releases: row_order same_release
proof unfold_locales
  fix x y z :: catalog_version_row
  show "same_release x x" by (simp add: same_release_def)
  show "same_release x z" if "same_release x y" "same_release y z"
    using that by (cases x, cases y, cases z) (simp add: same_release_def)
qed

text \<open>A rollout stays what it is; once finished it never serves again, and a rollback is final.\<close>

fun rollout_rank :: "rollout_state \<Rightarrow> nat" where
  "rollout_rank RolloutActive = 0"
| "rollout_rank RolloutPaused = 0"
| "rollout_rank RolloutCompleted = 1"
| "rollout_rank RolledBack = 2"

definition rollout_moves :: "rollout_row \<Rightarrow> rollout_row \<Rightarrow> bool" where
  "rollout_moves r q \<longleftrightarrow> ro_id q = ro_id r \<and> ro_agent q = ro_agent r \<and> ro_version q = ro_version r \<and>
     ro_channel q = ro_channel r \<and> ro_created q = ro_created r \<and> rollout_rank (ro_state r) \<le> rollout_rank (ro_state q)"

interpretation staged: row_order rollout_moves
  by unfold_locales (auto simp: rollout_moves_def)

section \<open>The invariant of the catalogue\<close>

definition valid_release :: "catalog_version_row \<Rightarrow> bool" where
  "valid_release v \<longleftrightarrow> version_of (cv_version v) = Inr (cv_parts v) \<and> mf_version (cv_manifest v) = cv_version v \<and>
     define_agent (cv_manifest v) = Inr (cv_manifest v)"

definition precedes_release :: "catalog_version_row \<Rightarrow> catalog_version_row \<Rightarrow> bool" where
  "precedes_release v w \<longleftrightarrow> (cv_agent v = cv_agent w \<longrightarrow> cv_parts v < cv_parts w)"

definition releases_ok :: "catalog_version_row list \<Rightarrow> bool" where
  "releases_ok vs \<longleftrightarrow> distinct (map cv_id vs) \<and> (\<forall>v \<in> set vs. valid_release v) \<and> sorted_wrt precedes_release vs"

definition rollouts_ok :: "market \<Rightarrow> bool" where
  "rollouts_ok m \<longleftrightarrow> distinct (map ro_id (rollouts m)) \<and> one_active (rollouts m) \<and>
     (\<forall>r \<in> set (rollouts m). 0 \<le> ro_percentage r \<and> ro_percentage r \<le> 100 \<and>
       (\<exists>v \<in> set (catalog_versions m). cv_id v = ro_version r \<and> cv_agent v = ro_agent r))"

definition catalogue_ok :: "market \<Rightarrow> bool" where
  "catalogue_ok m \<longleftrightarrow> distinct (map ca_id (catalog_agents m)) \<and> distinct (map ca_slug (catalog_agents m)) \<and>
     releases_ok (catalog_versions m) \<and> rollouts_ok m"

definition catalogue_moves :: "market \<Rightarrow> market \<Rightarrow> bool" where
  "catalogue_moves m m' \<longleftrightarrow> extends same_release (catalog_versions m) (catalog_versions m') \<and>
     extends rollout_moves (rollouts m) (rollouts m') \<and> extends (=) (platform_events m) (platform_events m')"

lemma catalogue_empty: "catalogue_ok empty_market"
  by (simp add: catalogue_ok_def releases_ok_def rollouts_ok_def one_active_def empty_market_def)

lemma catalogue_moves_refl: "catalogue_moves m m"
  by (simp add: catalogue_moves_def releases.extends_refl staged.extends_refl journal.extends_refl)

lemma catalogue_moves_trans: "catalogue_moves m n \<Longrightarrow> catalogue_moves n k \<Longrightarrow> catalogue_moves m k"
  unfolding catalogue_moves_def
  by (elim conjE, intro conjI) (erule (1) releases.extends_trans staged.extends_trans journal.extends_trans)+

lemma catalogue_cong:
  assumes "catalog_agents m' = catalog_agents m" "catalog_versions m' = catalog_versions m" "rollouts m' = rollouts m"
  shows "catalogue_ok m' \<longleftrightarrow> catalogue_ok m"
  using assms by (simp add: catalogue_ok_def rollouts_ok_def)

lemma catalogue_moves_same:
  assumes "catalog_versions m' = catalog_versions m" "rollouts m' = rollouts m"
    "extends (=) (platform_events m) (platform_events m')"
  shows "catalogue_moves m m'"
  using assms by (simp add: catalogue_moves_def releases.extends_refl staged.extends_refl)

text \<open>A transaction that committed.\<close>

definition catalogue_step_ok :: "market \<Rightarrow> market \<Rightarrow> bool" where
  "catalogue_step_ok m m' \<longleftrightarrow> catalogue_ok m' \<and> catalogue_moves m m'"

lemma platform_audit_Inr:
  assumes "platform_audit env pr a req t d m = Inr m'"
  shows "\<exists>e. m' = m\<lparr>platform_events := platform_events m @ [e]\<rparr>"
  using assms unfolding platform_audit_def by (auto split: if_splits)

lemma audited:
  assumes "catalogue_step_ok m m1" and "platform_audit env pr a req t d m1 = Inr m'"
  shows "catalogue_step_ok m m'"
proof -
  obtain e where m': "m' = m1\<lparr>platform_events := platform_events m1 @ [e]\<rparr>"
    using platform_audit_Inr[OF assms(2)] by blast
  have "catalogue_moves m1 m'"
    unfolding m' by (rule catalogue_moves_same) (simp_all add: journal.extends_refl journal.extends_append)
  moreover have "catalogue_ok m'" using assms(1) catalogue_cong[of m' m1] by (simp add: m' catalogue_step_ok_def)
  ultimately show ?thesis
    using assms(1) catalogue_moves_trans unfolding catalogue_step_ok_def by blast
qed

section \<open>The transactions\<close>

lemma find_catalogD:
  assumes "catalog_row slug m = Inr a"
  shows "a \<in> set (catalog_agents m)" "ca_slug a = slug"
  using assms by (auto simp: catalog_row_def find_catalog_def find_Some_iff in_set_conv_nth split: option.splits)

lemma catalogue_sameI:
  assumes "catalogue_ok m" "catalog_agents m' = catalog_agents m" "catalog_versions m' = catalog_versions m"
    "rollouts m' = rollouts m" "platform_events m' = platform_events m"
  shows "catalogue_step_ok m m'"
  using assms catalogue_cong[of m' m] catalogue_moves_same[of m' m]
  by (simp add: catalogue_step_ok_def journal.extends_refl)

lemma catalogue_agentsI:
  assumes ok: "catalogue_ok m" and m': "m' = m\<lparr>catalog_agents := as\<rparr>"
    and "distinct (map ca_id as)" "distinct (map ca_slug as)"
  shows "catalogue_step_ok m m'"
  using assms catalogue_moves_same[of m' m]
  by (simp add: catalogue_step_ok_def catalogue_ok_def rollouts_ok_def journal.extends_refl)

lemma create_catalog_agent_ok:
  assumes ok: "catalogue_ok m" and run: "create_catalog_agent env pr body req m = Inr (x, m')"
  shows "catalogue_step_ok m m'"
proof -
  let ?a = "new_catalog_agent env pr body"
  have new: "\<not> sql_exists (\<lambda>x. ca_id x = ca_id ?a \<or> ca_slug x = ca_slug ?a) (catalog_agents m)"
    and au: "platform_audit env pr ''catalog.agent.created'' req (Some (ci_slug body)) []
      (m\<lparr>catalog_agents := catalog_agents m @ [?a]\<rparr>) = Inr m'"
    using run by (auto simp: create_catalog_agent_def Let_def split: if_splits)
  have "catalogue_step_ok m (m\<lparr>catalog_agents := catalog_agents m @ [?a]\<rparr>)"
    using ok new by (intro catalogue_agentsI[OF ok refl]) (auto simp: catalogue_ok_def sql_exists_iff)
  then show ?thesis using au by (rule audited)
qed

lemma update_catalog_agent_ok:
  assumes ok: "catalogue_ok m" and run: "update_catalog_agent env pr slug u req m = Inr (x, m')"
  shows "catalogue_step_ok m m'"
proof -
  let ?as = "sql_update (\<lambda>a. ca_slug a = slug) (apply_update env u) (catalog_agents m)"
  obtain d where au: "platform_audit env pr ''catalog.agent.updated'' req (Some slug) d (m\<lparr>catalog_agents := ?as\<rparr>) = Inr m'"
    using run by (auto simp: update_catalog_agent_def split: if_splits)
  have "map ca_id ?as = map ca_id (catalog_agents m)" "map ca_slug ?as = map ca_slug (catalog_agents m)"
    by (rule sql_update_keys; simp add: apply_update_def)+
  then have "catalogue_step_ok m (m\<lparr>catalog_agents := ?as\<rparr>)"
    using ok by (intro catalogue_agentsI[OF ok refl]) (simp_all add: catalogue_ok_def)
  then show ?thesis using au by (rule audited)
qed

text \<open>Publication.\<close>

lemma parts_le: "parts v \<le> parts w \<longleftrightarrow> v \<le> w"
  by (simp add: version_order)

lemma newest_version_le: "newest_version v \<le> newest_version w \<longleftrightarrow> cv_parts w \<le> cv_parts v"
  unfolding version_order newest_version_def parts_def less_eq_prod_def by (auto simp: less_prod_def)

lemma highest_Some:
  assumes "highest p m = Some v"
  shows "v \<in> set (catalog_versions m)" "p v" "\<And>w. w \<in> set (catalog_versions m) \<Longrightarrow> p w \<Longrightarrow> cv_parts w \<le> cv_parts v"
proof -
  let ?l = "order_limit newest_version 1 p (catalog_versions m)"
  have l: "?l = [v]"
    using assms order_limit_length[of newest_version 1 p "catalog_versions m"]
    by (auto simp: highest_def split: list.splits)
  then have "v \<in> set ?l" by simp
  note mem = order_limit_memD[OF this]
  then show "v \<in> set (catalog_versions m)" "p v" by simp_all
  show "cv_parts w \<le> cv_parts v" if "w \<in> set (catalog_versions m)" "p w" for w
  proof (cases "w \<in> set ?l")
    case True
    then show ?thesis using l by simp
  next
    case False
    have "newest_version v \<le> newest_version w"
      by (rule order_limit_least[OF \<open>v \<in> set ?l\<close> that False])
    then show ?thesis by (simp add: newest_version_le)
  qed
qed

lemma highest_None: "highest p m = None \<longleftrightarrow> (\<forall>w \<in> set (catalog_versions m). \<not> p w)"
proof -
  have "highest p m = None \<longleftrightarrow> order_limit newest_version 1 p (catalog_versions m) = []"
    by (simp add: highest_def split: list.splits)
  also have "\<dots> \<longleftrightarrow> filter p (catalog_versions m) = []"
    by (simp add: order_limit_def) (metis length_0_conv length_sort)
  finally show ?thesis by (simp add: filter_empty_conv)
qed

lemma releases_snoc:
  assumes "releases_ok vs" and "valid_release v" and "cv_id v \<notin> cv_id ` set vs"
    and "\<And>w. w \<in> set vs \<Longrightarrow> cv_agent w = cv_agent v \<Longrightarrow> cv_parts w < cv_parts v"
  shows "releases_ok (vs @ [v])"
  using assms by (auto simp: releases_ok_def precedes_release_def sorted_wrt_append)

lemma publish_version_ok:
  assumes ok: "catalogue_ok m" and mf: "define_agent mf = Inr mf"
    and run: "publish_version env pr slug mf req m = Inr (x, m')"
  shows "catalogue_step_ok m m'"
proof -
  obtain agent released before m1 t d where a: "catalog_row slug m = Inr agent" and r: "semver mf = Inr released"
    and b: "(case highest (\<lambda>v. cv_agent v = ca_id agent) m of None \<Rightarrow> Inr None
       | Some p \<Rightarrow> bind_res (version_of (cv_version p)) (\<lambda>v. Inr (Some v))) = Inr before"
    and above: "\<not> (case before of None \<Rightarrow> False | Some v \<Rightarrow> released \<le> v)"
    and ins: "insert_version (new_version env pr (ca_id agent) mf released) m = Inr m1"
    and au: "platform_audit env pr ''catalog.version.published'' req t d m1 = Inr m'"
    using run by (auto simp: publish_version_def Let_def split: if_splits)
  let ?v = "new_version env pr (ca_id agent) mf released"
  have m1: "m1 = m\<lparr>catalog_versions := catalog_versions m @ [?v]\<rparr>" and new: "cv_id ?v \<notin> cv_id ` set (catalog_versions m)"
    using ins by (auto simp: insert_version_def sql_exists_iff split: if_splits)
  have rel: "releases_ok (catalog_versions m)" using ok by (simp add: catalogue_ok_def)
  have higher: "cv_parts w < released" if w: "w \<in> set (catalog_versions m)" "cv_agent w = ca_id agent" for w
  proof (cases "highest (\<lambda>v. cv_agent v = ca_id agent) m")
    case None
    then show ?thesis using w by (simp add: highest_None)
  next
    case (Some p)
    note h = highest_Some[OF Some]
    have "version_of (cv_version p) = Inr (cv_parts p)" using rel h(1) by (simp add: releases_ok_def valid_release_def)
    then have "before = Some (cv_parts p)" using b Some by auto
    then have "\<not> released \<le> cv_parts p" using above by simp
    then show ?thesis using h(3)[OF w] by simp
  qed
  have "valid_release ?v" using mf r by (simp add: valid_release_def new_version_def semver_def)
  then have rel': "releases_ok (catalog_versions m1)"
    unfolding m1 using releases_snoc[OF rel _ new] higher by (simp add: new_version_def)
  have "rollouts_ok m1" using ok unfolding m1 catalogue_ok_def rollouts_ok_def by auto
  then have "catalogue_ok m1" using ok rel' by (simp add: catalogue_ok_def m1)
  moreover have "catalogue_moves m m1"
    by (simp add: m1 catalogue_moves_def releases.extends_append releases.extends_refl staged.extends_refl journal.extends_refl)
  ultimately have "catalogue_step_ok m m1" by (simp add: catalogue_step_ok_def)
  then show ?thesis using au by (rule audited)
qed

text \<open>Moving a release between statuses and channels.\<close>

lemma releases_update:
  assumes "releases_ok vs" and same: "\<And>v. same_release v (f v)"
  shows "releases_ok (sql_update p f vs)"
proof -
  let ?g = "\<lambda>v. if p v then f v else v"
  have g: "cv_id (?g v) = cv_id v" "valid_release (?g v) = valid_release v"
    "precedes_release (?g v) (?g w) = precedes_release v w" for v w
    using same_releaseD[OF same[of v]] same_releaseD[OF same[of w]]
    by (simp_all add: valid_release_def precedes_release_def)
  have e: "sql_update p f vs = map ?g vs" by (simp add: sql_update_def)
  show ?thesis
    unfolding releases_ok_def e
  proof (intro conjI)
    show "distinct (map cv_id (map ?g vs))" using assms(1) by (simp only: list.map_comp comp_def g releases_ok_def)
    show "\<forall>v \<in> set (map ?g vs). valid_release v"
    proof
      fix w assume "w \<in> set (map ?g vs)"
      then obtain v where "v \<in> set vs" and w: "w = ?g v" by (auto simp only: set_map image_iff)
      then show "valid_release w" using assms(1) unfolding w by (simp only: g releases_ok_def)
    qed
    show "sorted_wrt precedes_release (map ?g vs)"
      using assms(1) by (simp only: sorted_wrt_map g releases_ok_def)
  qed
qed

lemma rollout_refs:
  assumes "catalogue_ok m" and "r \<in> set (rollouts m)"
  shows "\<exists>v \<in> set (catalog_versions m). cv_id v = ro_version r \<and> cv_agent v = ro_agent r"
  using assms by (simp add: catalogue_ok_def rollouts_ok_def)

lemma rereleased_same: "same_release v (rereleased st ch v)"
  by (cases v) (simp add: same_release_def rereleased_def)

lemma set_version_release_ok:
  assumes ok: "catalogue_ok m" and run: "set_version_release env pr slug text st ch req m = Inr (x, m')"
  shows "catalogue_step_ok m m'"
proof -
  let ?vs = "sql_update (version_named slug text m) (rereleased st ch) (catalog_versions m)"
  let ?m = "m\<lparr>catalog_versions := ?vs\<rparr>"
  obtain t d where au: "platform_audit env pr ''catalog.version.release_changed'' req t d ?m = Inr m'"
    using run by (auto simp: set_version_release_def Let_def split: if_splits)
  have moves: "extends same_release (catalog_versions m) ?vs"
    by (rule releases.extends_update) (rule rereleased_same)
  have rel: "releases_ok ?vs"
    using releases_update[OF _ rereleased_same] ok by (simp add: catalogue_ok_def)
  have kept: "\<exists>w \<in> set ?vs. cv_id w = cv_id v \<and> cv_agent w = cv_agent v" if "v \<in> set (catalog_versions m)" for v
    using releases.extends_mem[OF moves that] same_releaseD(1,2) by blast
  have "\<exists>w \<in> set ?vs. cv_id w = ro_version r \<and> cv_agent w = ro_agent r" if r: "r \<in> set (rollouts m)" for r
  proof -
    obtain v where v: "v \<in> set (catalog_versions m)" "cv_id v = ro_version r" "cv_agent v = ro_agent r"
      using rollout_refs[OF ok r] by blast
    show ?thesis using kept[OF v(1)] v(2,3) by simp
  qed
  then have "rollouts_ok ?m" using ok by (simp add: catalogue_ok_def rollouts_ok_def)
  then have "catalogue_ok ?m" using rel ok by (simp add: catalogue_ok_def)
  moreover have "catalogue_moves m ?m"
    using moves by (simp add: catalogue_moves_def staged.extends_refl journal.extends_refl)
  ultimately have "catalogue_step_ok m ?m" unfolding catalogue_step_ok_def ..
  then show ?thesis using au by (rule audited)
qed

text \<open>Rollouts.\<close>

lemma write_rollouts_Inr:
  "write_rollouts rs m = Inr m1 \<longleftrightarrow> m1 = m\<lparr>rollouts := rs\<rparr> \<and> distinct (map ro_id rs) \<and> one_active rs \<and>
     (\<forall>r \<in> set rs. 0 \<le> ro_percentage r \<and> ro_percentage r \<le> 100)"
  by (auto simp: write_rollouts_def list_all_iff)

lemma write_rollouts_ok:
  assumes ok: "catalogue_ok m" and run: "write_rollouts rs m = Inr m1"
    and moves: "extends rollout_moves (rollouts m) rs"
    and refs: "\<forall>r \<in> set rs. \<exists>v \<in> set (catalog_versions m). cv_id v = ro_version r \<and> cv_agent v = ro_agent r"
  shows "catalogue_step_ok m m1"
  using assms
  by (simp add: write_rollouts_Inr catalogue_step_ok_def catalogue_ok_def rollouts_ok_def catalogue_moves_def
      releases.extends_refl journal.extends_refl)

lemma update_refs:
  assumes ok: "catalogue_ok m" and "\<And>r. ro_version (f r) = ro_version r" "\<And>r. ro_agent (f r) = ro_agent r"
  shows "\<forall>r \<in> set (sql_update p f (rollouts m)). \<exists>v \<in> set (catalog_versions m). cv_id v = ro_version r \<and> cv_agent v = ro_agent r"
  using rollout_refs[OF ok] assms(2,3) by (auto simp: set_sql_update)

lemma get_versionD:
  assumes "get_version slug text m = Inr v" and "catalog_row slug m = Inr a"
  shows "v \<in> set (catalog_versions m)" "cv_agent v = ca_id a" "cv_version v = text"
  using assms
  by (auto simp: get_version_def find_version_def catalog_row_def find_Some_iff in_set_conv_nth split: option.splits)

lemma create_rollout_ok:
  assumes ok: "catalogue_ok m" and run: "create_rollout env pr slug text ch pct req m = Inr (x, m')"
  shows "catalogue_step_ok m m'"
proof -
  obtain a v m1 t d where a: "catalog_row slug m = Inr a" and v: "get_version slug text m = Inr v"
    and w: "write_rollouts (sql_update (active_on (ca_id a) ch) (superseded env) (rollouts m) @
      [new_rollout env pr (ca_id a) (cv_id v) ch pct]) m = Inr m1"
    and au: "platform_audit env pr ''catalog.rollout.created'' req t d m1 = Inr m'"
    using run by (auto simp: create_rollout_def Let_def split: if_splits)
  have "catalogue_step_ok m m1"
  proof (rule write_rollouts_ok[OF ok w])
    show "extends rollout_moves (rollouts m) (sql_update (active_on (ca_id a) ch) (superseded env) (rollouts m) @
        [new_rollout env pr (ca_id a) (cv_id v) ch pct])"
      by (intro staged.extends_append staged.extends_update) (simp add: rollout_moves_def superseded_def active_on_def)
  qed (use update_refs[OF ok, of "superseded env"] get_versionD[OF v a] in \<open>auto simp: superseded_def new_rollout_def\<close>)
  then show ?thesis using au by (rule audited)
qed

lemma rollout_by_idD:
  assumes "rollout_by_id a i m = Inr (r, v)"
  shows "r \<in> set (rollouts m)" "ro_id r = i" "ro_agent r = a" "version_row (ro_version r) m = Some v"
  using assms by (auto simp: rollout_by_id_def find_Some_iff in_set_conv_nth split: option.splits)

lemma rollout_unique:
  assumes "catalogue_ok m" "r \<in> set (rollouts m)" "q \<in> set (rollouts m)" "ro_id q = ro_id r"
  shows "q = r"
  using assms by (auto simp: catalogue_ok_def rollouts_ok_def distinct_map dest: inj_onD)

lemma update_rolloutE:
  assumes "update_rollout env pr slug i pct st req m = Inr (x, m')"
  obtains a r v m1 t d where "catalog_row slug m = Inr a" "rollout_by_id (ca_id a) i m = Inr (r, v)"
    "ro_state r \<notin> {RolledBack, RolloutCompleted}"
    "write_rollouts (sql_update (\<lambda>y. ro_id y = i) (restaged env pct st) (rollouts m)) m = Inr m1"
    "platform_audit env pr ''catalog.rollout.updated'' req t d m1 = Inr m'"
  using assms by (auto simp: update_rollout_def iff del: not_None_eq split: if_splits)

lemma update_rollout_ok:
  assumes ok: "catalogue_ok m" and run: "update_rollout env pr slug i pct st req m = Inr (x, m')"
  shows "catalogue_step_ok m m'"
  using run
proof (rule update_rolloutE)
  fix a r v m1 t d
  assume row: "rollout_by_id (ca_id a) i m = Inr (r, v)" and live: "ro_state r \<notin> {RolledBack, RolloutCompleted}"
    and w: "write_rollouts (sql_update (\<lambda>y. ro_id y = i) (restaged env pct st) (rollouts m)) m = Inr m1"
    and au: "platform_audit env pr ''catalog.rollout.updated'' req t d m1 = Inr m'"
  note r = rollout_by_idD[OF row]
  have "rollout_moves y (restaged env pct st y)" if y: "y \<in> set (rollouts m)" "ro_id y = i" for y
  proof -
    have "ro_state y = ro_state r" using rollout_unique[OF ok r(1) y(1)] y(2) r(2) by simp
    then have "rollout_rank (ro_state y) = 0" using live by (cases "ro_state r") auto
    then show ?thesis by (simp add: rollout_moves_def restaged_def)
  qed
  then have "catalogue_step_ok m m1"
    using update_refs[OF ok, of "restaged env pct st"]
    by (intro write_rollouts_ok[OF ok w] staged.extends_update) (simp_all add: restaged_def)
  then show ?thesis using au by (rule audited)
qed

lemma preceding_rolloutD:
  assumes "preceding_rollout cur m = Some (q, w)"
  shows "q \<in> set (rollouts m)" "ro_agent q = ro_agent cur" "ro_channel q = ro_channel cur"
    "ro_created q < ro_created cur" "ro_state q \<noteq> RolledBack" "version_row (ro_version q) m = Some w"
proof -
  obtain qs where l: "order_limit (\<lambda>r. (- ro_created r, - uint (ro_id r))) 1
      (\<lambda>r. ro_agent r = ro_agent cur \<and> ro_channel r = ro_channel cur \<and> ro_created r < ro_created cur \<and>
           ro_state r \<noteq> RolledBack \<and> version_row (ro_version r) m \<noteq> None) (rollouts m) = q # qs"
    and v: "version_row (ro_version q) m = Some w"
    using assms by (auto simp: preceding_rollout_def split: list.splits)
  show "version_row (ro_version q) m = Some w" by (rule v)
  have "q \<in> set (order_limit (\<lambda>r. (- ro_created r, - uint (ro_id r))) 1
      (\<lambda>r. ro_agent r = ro_agent cur \<and> ro_channel r = ro_channel cur \<and> ro_created r < ro_created cur \<and>
           ro_state r \<noteq> RolledBack \<and> version_row (ro_version r) m \<noteq> None) (rollouts m))" unfolding l by simp
  note mem = order_limit_memD[OF this]
  then show "q \<in> set (rollouts m)" "ro_agent q = ro_agent cur" "ro_channel q = ro_channel cur"
    "ro_created q < ro_created cur" "ro_state q \<noteq> RolledBack" by simp_all
qed

text \<open>The table a rollback writes.\<close>

definition rolled_back_table ::
    "txenv \<Rightarrow> principal \<Rightarrow> rollout_row \<Rightarrow> market \<Rightarrow> rollout_row list" where
  "rolled_back_table env pr r m = sql_update (\<lambda>y. ro_id y = ro_id r) (withdrawn env) (rollouts m) @
     (case preceding_rollout r m of None \<Rightarrow> []
      | Some (q, w) \<Rightarrow> [new_rollout env pr (ro_agent r) (ro_version q) (ro_channel r) 100])"

lemma rollback_rolloutE:
  assumes "rollback_rollout env pr slug i req m = Inr (x, m')"
  obtains a r v m1 t d where "catalog_row slug m = Inr a" "rollout_by_id (ca_id a) i m = Inr (r, v)"
    "ro_state r \<noteq> RolledBack" "write_rollouts (rolled_back_table env pr r m) m = Inr m1"
    "platform_audit env pr ''catalog.rollout.rolled_back'' req t d m1 = Inr m'"
proof -
  obtain a r v where a: "catalog_row slug m = Inr a" and row: "rollout_by_id (ca_id a) i m = Inr (r, v)"
    and st: "ro_state r \<noteq> RolledBack"
    using assms by (auto simp: rollback_rollout_def Let_def split: if_splits)
  note r = rollout_by_idD[OF row]
  have "\<exists>m1 t d. write_rollouts (rolled_back_table env pr r m) m = Inr m1 \<and>
      platform_audit env pr ''catalog.rollout.rolled_back'' req t d m1 = Inr m'"
  proof (cases "preceding_rollout r m")
    case None
    then show ?thesis using assms a row st r(2,3)
      by (simp add: rollback_rollout_def Let_def rolled_back_table_def) blast
  next
    case (Some y)
    then show ?thesis using assms a row st r(2,3)
      by (cases y) (simp add: rollback_rollout_def Let_def rolled_back_table_def, blast)
  qed
  then show ?thesis using that a row st by blast
qed

lemma rolled_back_table_ok:
  assumes ok: "catalogue_ok m" and r: "r \<in> set (rollouts m)"
  shows "extends rollout_moves (rollouts m) (rolled_back_table env pr r m)"
    "\<forall>y \<in> set (rolled_back_table env pr r m). \<exists>v \<in> set (catalog_versions m). cv_id v = ro_version y \<and> cv_agent v = ro_agent y"
proof -
  have rank: "rollout_rank s \<le> 2" for s by (cases s) simp_all
  show "extends rollout_moves (rollouts m) (rolled_back_table env pr r m)"
    unfolding rolled_back_table_def
    by (intro staged.extends_append staged.extends_update) (simp add: rollout_moves_def withdrawn_def rank)
  have old: "\<forall>y \<in> set (sql_update (\<lambda>y. ro_id y = ro_id r) (withdrawn env) (rollouts m)).
      \<exists>v \<in> set (catalog_versions m). cv_id v = ro_version y \<and> cv_agent v = ro_agent y"
    using update_refs[OF ok, of "withdrawn env"] by (simp add: withdrawn_def)
  show "\<forall>y \<in> set (rolled_back_table env pr r m). \<exists>v \<in> set (catalog_versions m). cv_id v = ro_version y \<and> cv_agent v = ro_agent y"
  proof (cases "preceding_rollout r m")
    case None
    then show ?thesis using old by (simp add: rolled_back_table_def)
  next
    case (Some z)
    obtain q w where z: "z = (q, w)" by (cases z)
    note q = preceding_rolloutD[OF Some[unfolded z]]
    have "\<exists>v \<in> set (catalog_versions m). cv_id v = ro_version q \<and> cv_agent v = ro_agent r"
      using rollout_refs[OF ok q(1)] q(2) by simp
    then show ?thesis using old Some z by (simp add: rolled_back_table_def new_rollout_def)
  qed
qed

lemma rollback_rollout_ok:
  assumes ok: "catalogue_ok m" and run: "rollback_rollout env pr slug i req m = Inr (x, m')"
  shows "catalogue_step_ok m m'"
  using run
proof (rule rollback_rolloutE)
  fix a r v m1 t d
  assume row: "rollout_by_id (ca_id a) i m = Inr (r, v)"
    and w: "write_rollouts (rolled_back_table env pr r m) m = Inr m1"
    and au: "platform_audit env pr ''catalog.rollout.rolled_back'' req t d m1 = Inr m'"
  have "catalogue_step_ok m m1"
    by (rule write_rollouts_ok[OF ok w rolled_back_table_ok[OF ok rollout_by_idD(1)[OF row]]])
  then show ?thesis using au by (rule audited)
qed

text \<open>Entitlements.\<close>

lemma grant_entitlement_ok:
  assumes ok: "catalogue_ok m" and run: "grant_entitlement env pr slug ws known req m = Inr (x, m')"
  shows "catalogue_step_ok m m'"
proof -
  obtain es t d where "platform_audit env pr ''catalog.entitlement.granted'' req t d (m\<lparr>entitlements := es\<rparr>) = Inr m'"
    using run by (auto simp: grant_entitlement_def Let_def split: if_splits)
  moreover have "catalogue_step_ok m (m\<lparr>entitlements := es\<rparr>)" by (rule catalogue_sameI[OF ok]) simp_all
  ultimately show ?thesis using audited by blast
qed

lemma revoke_entitlement_ok:
  assumes ok: "catalogue_ok m" and run: "revoke_entitlement env pr slug ws req m = Inr (x, m')"
  shows "catalogue_step_ok m m'"
proof -
  obtain es t d where "platform_audit env pr ''catalog.entitlement.revoked'' req t d (m\<lparr>entitlements := es\<rparr>) = Inr m'"
    using run by (auto simp: revoke_entitlement_def)
  moreover have "catalogue_step_ok m (m\<lparr>entitlements := es\<rparr>)" by (rule catalogue_sameI[OF ok]) simp_all
  ultimately show ?thesis using audited by blast
qed

section \<open>The catalogue as a transition relation\<close>

inductive catalog_step :: "market \<Rightarrow> market \<Rightarrow> bool" where
  cs_create: "create_catalog_agent env pr body req m = Inr (x1, m') \<Longrightarrow> catalog_step m m'"
| cs_update: "update_catalog_agent env pr slug u req m = Inr (x1, m') \<Longrightarrow> catalog_step m m'"
| cs_publish: "define_agent mf = Inr mf \<Longrightarrow> publish_version env pr slug mf req m = Inr (x2, m') \<Longrightarrow> catalog_step m m'"
| cs_release: "set_version_release env pr slug text st ch req m = Inr (x2, m') \<Longrightarrow> catalog_step m m'"
| cs_rollout: "create_rollout env pr slug text ch2 pct req m = Inr (x3, m') \<Longrightarrow> catalog_step m m'"
| cs_restage: "update_rollout env pr slug i pct2 st2 req m = Inr (x3, m') \<Longrightarrow> catalog_step m m'"
| cs_rollback: "rollback_rollout env pr slug i req m = Inr (x3, m') \<Longrightarrow> catalog_step m m'"
| cs_grant: "grant_entitlement env pr slug ws known req m = Inr (x4, m') \<Longrightarrow> catalog_step m m'"
| cs_revoke: "revoke_entitlement env pr slug ws req m = Inr (x5, m') \<Longrightarrow> catalog_step m m'"

lemmas catalogue_transactions =
  create_catalog_agent_ok update_catalog_agent_ok publish_version_ok set_version_release_ok create_rollout_ok
  update_rollout_ok rollback_rollout_ok grant_entitlement_ok revoke_entitlement_ok

lemma catalog_step_ok: "catalogue_ok m \<Longrightarrow> catalog_step m m' \<Longrightarrow> catalogue_step_ok m m'"
  by (erule catalog_step.cases) (rule catalogue_transactions; simp; fail)+

end
