(* ===== verification/Catalog_Offers.thy ===== *)
theory Catalog_Offers
  imports Catalog_Safety
begin

text \<open>
  Which rollouts serve or withhold a version for a workspace, and the version an offer names in terms of them.
\<close>

section \<open>The rollouts of a workspace\<close>

lemma rollout_bucket_bound: "rollout_bucket agent ws < 100"
  by (simp add: rollout_bucket_def ROLLOUT_BUCKETS_def)

lemma foldl_max:
  fixes key :: "'a \<Rightarrow> 'k::linorder"
  defines "f \<equiv> \<lambda>b y. if key b < key y then y else b"
  shows "foldl f b ys \<in> insert b (set ys) \<and> (\<forall>y \<in> insert b (set ys). key y \<le> key (foldl f b ys))"
proof (induction ys arbitrary: b)
  case (Cons y ys)
  have "key b \<le> key (f b y)" "key y \<le> key (f b y)" "f b y \<in> {b, y}" by (auto simp: f_def)
  with Cons[of "f b y"] show ?case by (auto intro: order_trans)
qed simp

lemma max_by_Some:
  assumes "max_by key xs = Some x"
  shows "x \<in> set xs" "\<And>y. y \<in> set xs \<Longrightarrow> key y \<le> key x"
  using assms foldl_max[of key "hd xs" "tl xs"] by (cases xs; auto)+

lemma max_by_None: "max_by key xs = None \<longleftrightarrow> xs = []"
  by (cases xs) simp_all

text \<open>A rollout serves a workspace: it is active on a channel in scope and the workspace is in its bucket.\<close>

definition serves :: "market \<Rightarrow> uuid \<Rightarrow> uuid \<Rightarrow> release_channel \<Rightarrow> rollout_row \<Rightarrow> bool" where
  "serves m agent ws ch r \<longleftrightarrow> r \<in> set (rollouts m) \<and> ro_agent r = agent \<and> ro_state r = RolloutActive \<and>
     ro_channel r \<in> set (channel_scope ch) \<and> int (rollout_bucket agent ws) < ro_percentage r"

definition withholds :: "market \<Rightarrow> uuid \<Rightarrow> uuid \<Rightarrow> release_channel \<Rightarrow> rollout_row \<Rightarrow> bool" where
  "withholds m agent ws ch r \<longleftrightarrow> r \<in> set (rollouts m) \<and> ro_agent r = agent \<and> ro_state r = RolloutActive \<and>
     ro_channel r \<in> set (channel_scope ch) \<and> \<not> int (rollout_bucket agent ws) < ro_percentage r"

lemma version_rowI:
  assumes "catalogue_ok m" "v \<in> set (catalog_versions m)"
  shows "version_row (cv_id v) m = Some v"
  unfolding version_row_def using assms by (simp add: find_Some_iff_unique catalogue_ok_def releases_ok_def)

lemma rollout_version:
  assumes "catalogue_ok m" "r \<in> set (rollouts m)"
  obtains v where "version_row (ro_version r) m = Some v" "v \<in> set (catalog_versions m)" "cv_id v = ro_version r"
    "cv_agent v = ro_agent r"
  using rollout_refs[OF assms] version_rowI[OF assms(1)] by metis

lemma active_rollouts_iff:
  "(r, v) \<in> set (active_rollouts agent ch m) \<longleftrightarrow> r \<in> set (rollouts m) \<and> ro_agent r = agent \<and>
     ro_state r = RolloutActive \<and> ro_channel r \<in> set (channel_scope ch) \<and> version_row (ro_version r) m = Some v"
  unfolding active_rollouts_def map_filter_mem by (auto split: if_splits)

lemma serving_iff:
  "(r, v) \<in> set (filter (included (rollout_bucket agent ws)) (active_rollouts agent ch m)) \<longleftrightarrow>
     serves m agent ws ch r \<and> version_row (ro_version r) m = Some v"
  by (auto simp: active_rollouts_iff serves_def included_def)

lemma offered_served:
  assumes ok: "catalogue_ok m" and s: "serves m agent ws ch r"
  obtains v q where "offered_row agent ws ch m = Some v" "serves m agent ws ch q" "version_row (ro_version q) m = Some v"
    "\<And>q w. serves m agent ws ch q \<Longrightarrow> version_row (ro_version q) m = Some w \<Longrightarrow> cv_parts w \<le> cv_parts v"
proof -
  let ?xs = "filter (included (rollout_bucket agent ws)) (active_rollouts agent ch m)"
  let ?key = "\<lambda>x. parts (cv_parts (snd x))"
  obtain w where "version_row (ro_version r) m = Some w"
    using rollout_version[OF ok] s by (auto simp: serves_def)
  then have "(r, w) \<in> set ?xs" using s by (simp only: serving_iff)
  then have "?xs \<noteq> []" by (metis empty_iff empty_set)
  then obtain x where x: "max_by ?key ?xs = Some x" using max_by_None by (metis not_None_eq)
  obtain q v where qv: "x = (q, v)" by (cases x)
  have mem: "(q, v) \<in> set ?xs" using max_by_Some(1)[OF x] qv by simp
  show ?thesis
  proof (rule that[of v q])
    show "offered_row agent ws ch m = Some v" using x qv by (simp add: offered_row_def Let_def)
    show "serves m agent ws ch q" "version_row (ro_version q) m = Some v" using mem unfolding serving_iff by blast+
    fix q' w assume "serves m agent ws ch q'" "version_row (ro_version q') m = Some w"
    then have "(q', w) \<in> set ?xs" unfolding serving_iff by blast
    from max_by_Some(2)[OF x this] show "cv_parts w \<le> cv_parts v" using qv by (simp add: parts_le)
  qed
qed

lemma offered_unserved:
  assumes "\<And>r. \<not> serves m agent ws ch r" and ok: "catalogue_ok m"
  shows "offered_row agent ws ch m = highest (\<lambda>v. cv_agent v = agent \<and> cv_channel v \<in> set (channel_scope ch) \<and>
    offerable (cv_status v) \<and> (\<nexists>r. withholds m agent ws ch r \<and> ro_version r = cv_id v)) m"
proof -
  let ?xs = "active_rollouts agent ch m" and ?b = "rollout_bucket agent ws"
  have none: "filter (included ?b) ?xs = []"
  proof (rule ccontr)
    assume "filter (included ?b) ?xs \<noteq> []"
    then obtain r v where "(r, v) \<in> set (filter (included ?b) ?xs)" by (metis hd_in_set surj_pair)
    then show False using assms(1) unfolding serving_iff by blast
  qed
  have "i \<in> set (map (ro_version \<circ> fst) (filter (\<lambda>x. \<not> included ?b x) ?xs)) \<longleftrightarrow>
      (\<exists>r. withholds m agent ws ch r \<and> ro_version r = i)" for i
  proof
    assume "i \<in> set (map (ro_version \<circ> fst) (filter (\<lambda>x. \<not> included ?b x) ?xs))"
    then show "\<exists>r. withholds m agent ws ch r \<and> ro_version r = i"
      by (auto simp: active_rollouts_iff withholds_def included_def)
  next
    assume "\<exists>r. withholds m agent ws ch r \<and> ro_version r = i"
    then obtain r where r: "withholds m agent ws ch r" "ro_version r = i" by blast
    obtain v where "version_row (ro_version r) m = Some v" using rollout_version[OF ok] r(1) by (auto simp: withholds_def)
    then have "(r, v) \<in> set (filter (\<lambda>x. \<not> included ?b x) ?xs)" using r(1)
      by (simp add: active_rollouts_iff withholds_def included_def)
    then show "i \<in> set (map (ro_version \<circ> fst) (filter (\<lambda>x. \<not> included ?b x) ?xs))" using r(2) by force
  qed
  then show ?thesis unfolding offered_row_def Let_def none by simp
qed

lemma offered_release:
  assumes ok: "catalogue_ok m" and o1: "offered_version agent ws ch m = Some (i, t)"
  obtains v where "v \<in> set (catalog_versions m)" "cv_agent v = agent" "cv_id v = i" "cv_version v = t"
proof -
  obtain v where v: "offered_row agent ws ch m = Some v" "cv_id v = i" "cv_version v = t"
    using o1 by (auto simp: offered_version_def)
  have "v \<in> set (catalog_versions m) \<and> cv_agent v = agent"
  proof (cases "\<exists>r. serves m agent ws ch r")
    case True
    then obtain r where "serves m agent ws ch r" by blast
    then obtain w q where w: "offered_row agent ws ch m = Some w" and q: "serves m agent ws ch q"
      "version_row (ro_version q) m = Some w"
      by (rule offered_served[OF ok]) blast
    have "q \<in> set (rollouts m)" "ro_agent q = agent" using q(1) by (simp_all add: serves_def)
    then show ?thesis using rollout_version[OF ok, of q] q(2) w v(1) by (metis option.inject)
  next
    case False
    then have "highest (\<lambda>v. cv_agent v = agent \<and> cv_channel v \<in> set (channel_scope ch) \<and>
      offerable (cv_status v) \<and> (\<nexists>r. withholds m agent ws ch r \<and> ro_version r = cv_id v)) m = Some v"
      using offered_unserved[OF _ ok, of agent ws ch] v(1) by simp
    then show ?thesis using highest_Some(1,2) by blast
  qed
  then show ?thesis using that v by blast
qed

end
