(* ===== verification/Market_Samples.thy ===== *)
theory Market_Samples
  imports Catalog_Safety Samples
begin

text \<open>
  A small catalogue the witnesses evaluate on: one agent with two releases, the first of which served the
  stable channel before the second. The parameter is the percentage of the active rollout.
\<close>

definition sample_manifest :: "string \<Rightarrow> agent_manifest" where
  "sample_manifest v =
    \<lparr>mf_id = ''nexora.seo'', mf_slug = ''seo'', mf_name = ''SEO'', mf_description = ''audit'', mf_category = ''web'',
     mf_icon = ''web'', mf_version = v, mf_min_runtime = ''1.0.0'', mf_status = AStable, mf_channel = Stable,
     mf_changelog = '''', mf_instructions = ''audit the site'',
     mf_model_policy = \<lparr>mo_primary = ''default'', mo_fallback = None, mo_escalation = None\<rparr>,
     mf_reasoning = \<lparr>re_effort = MediumEffort, re_max_steps = 8, re_escalate_after = None\<rparr>,
     mf_required_tools = [''nexora.tasks.create''], mf_optional_tools = [], mf_required_integrations = [''cms''],
     mf_optional_integrations = [], mf_capabilities = [], mf_permissions = [], mf_approval_required = [],
     mf_memory = \<lparr>me_enabled = False, me_scope = AgentMemory, me_retention_days = 30, me_max_items = 200\<rparr>,
     mf_rag = \<lparr>ra_enabled = False, ra_top_k = 5, ra_min_score = (0, ''0.0''), ra_source_tags = []\<rparr>,
     mf_budget = \<lparr>bl_max_run = None, bl_daily = None, bl_max_tokens = None\<rparr>,
     mf_rate_limits = \<lparr>rl_runs_per_hour = None, rl_tool_calls = None\<rparr>,
     mf_input_schema = [], mf_output_schema = [], mf_settings_schema = []\<rparr>"

definition sample_release :: "uuid \<Rightarrow> string \<Rightarrow> version \<Rightarrow> catalog_version_row" where
  "sample_release i v p =
    \<lparr>cv_id = i, cv_agent = 1, cv_version = v, cv_parts = p, cv_status = AStable, cv_channel = Stable,
     cv_manifest = sample_manifest v, cv_min_runtime = ''1.0.0'', cv_changelog = '''', cv_issuer = ''iss'',
     cv_subject = ''alice'', cv_created = 0\<rparr>"

definition sample_catalog_agent :: catalog_agent_row where
  "sample_catalog_agent =
    \<lparr>ca_id = 1, ca_slug = ''seo'', ca_name = ''SEO'', ca_description = ''audit'', ca_category = ''web'', ca_icon = ''web'',
     ca_status = AStable, ca_visibility = VPublic, ca_issuer = ''iss'', ca_subject = ''alice'', ca_created = 0, ca_updated = 0\<rparr>"

definition sample_rollout :: "uuid \<Rightarrow> uuid \<Rightarrow> int \<Rightarrow> rollout_state \<Rightarrow> time \<Rightarrow> rollout_row" where
  "sample_rollout i v pct st t =
    \<lparr>ro_id = i, ro_agent = 1, ro_version = v, ro_channel = Stable, ro_percentage = pct, ro_state = st,
     ro_issuer = ''iss'', ro_subject = ''alice'', ro_created = t, ro_updated = t\<rparr>"

definition sample_market :: "int \<Rightarrow> market" where
  "sample_market pct = empty_market\<lparr>catalog_agents := [sample_catalog_agent],
     catalog_versions := [sample_release 11 ''1.0.0'' (Version 1 0 0), sample_release 12 ''1.1.0'' (Version 1 1 0)],
     rollouts := [sample_rollout 21 11 100 RolloutCompleted 1, sample_rollout 22 12 pct RolloutActive 2]\<rparr>"

lemmas market_defs = sample_market_def sample_release_def sample_catalog_agent_def sample_rollout_def empty_market_def

lemma sample_versions:
  "version_of ''1.0.0'' = Inr (Version 1 0 0)" "version_of ''1.1.0'' = Inr (Version 1 1 0)"
  by code_simp+

lemma sample_identifiers:
  "fullmatch MANIFEST_ID ''nexora.seo''" "fullmatch SLUG ''seo''" "fullmatch SLUG ''cms''" "fullmatch LABEL ''web''"
  "fullmatch SEMVER ''1.0.0''" "fullmatch SEMVER ''1.1.0''" "fullmatch PROFILE ''default''" "fullmatch TOOL ''nexora.tasks.create''"
  "ends_with ''nexora.seo'' ''.seo''"
  by code_simp+

lemma sample_manifest_ok:
  assumes "v \<in> {''1.0.0'', ''1.1.0''}"
  shows "define_agent (sample_manifest v) = Inr (sample_manifest v)"
proof -
  have "fields_ok (sample_manifest v)"
    using assms by (auto simp: fields_ok_def sample_manifest_def sample_identifiers chars_between_def model_policy_ok_def
        reasoning_ok_def memory_ok_def rag_ok_def budget_ok_def rate_limits_ok_def opt_between_def opt_profile_def
        simp del: fullmatch.simps)
  moreover have "coherent (sample_manifest v) = Inr ()"
    by (simp add: coherent_def sample_manifest_def identifiers_ok_def sample_identifiers describes_object_def guard_res_def
        del: fullmatch.simps)
  ultimately show ?thesis by (simp add: define_agent_def)
qed

lemma sample_market_ok:
  assumes "0 \<le> pct" "pct \<le> 100"
  shows "catalogue_ok (sample_market pct)"
  using assms
  by (simp add: catalogue_ok_def releases_ok_def rollouts_ok_def one_active_def market_defs valid_release_def
      precedes_release_def sample_versions sample_manifest_ok version_order parts_def) (simp add: sample_manifest_def)

end
