(* ===== verification/Catalog_Properties.thy ===== *)
theory Catalog_Properties
  imports Catalog_Offers Market_Samples
begin

text \<open>
  What workspaces receive from the catalogue: the version an offer names, what widening and rolling back a
  rollout do to the offers, and the text form of versions.
\<close>

section \<open>Offers\<close>

text \<open>C13: A workspace that active rollouts of its channels include is offered the highest version they serve.
  Any other is offered the highest stable or beta version of its channels that no rollout withholds from
  it, or nothing when there is none.\<close>

theorem offer_is_highest:
  assumes ok: "catalogue_ok m"
  shows "if \<exists>r. serves m agent ws ch r
    then \<exists>v r. offered_version agent ws ch m = Some (cv_id v, cv_version v) \<and> v \<in> set (catalog_versions m) \<and>
      cv_agent v = agent \<and> serves m agent ws ch r \<and> ro_version r = cv_id v \<and>
      (\<forall>q w. serves m agent ws ch q \<and> version_row (ro_version q) m = Some w \<longrightarrow> cv_parts w \<le> cv_parts v)
    else let candidate = (\<lambda>v. v \<in> set (catalog_versions m) \<and> cv_agent v = agent \<and> offerable (cv_status v) \<and>
        cv_channel v \<in> set (channel_scope ch) \<and> (\<nexists>r. withholds m agent ws ch r \<and> ro_version r = cv_id v))
      in case offered_version agent ws ch m of
           None \<Rightarrow> (\<nexists>v. candidate v)
         | Some x \<Rightarrow> (\<exists>v. x = (cv_id v, cv_version v) \<and> candidate v \<and> (\<forall>w. candidate w \<longrightarrow> cv_parts w \<le> cv_parts v))"
proof (cases "\<exists>r. serves m agent ws ch r")
  case True
  then obtain r0 where "serves m agent ws ch r0" by blast
  then obtain v r where o1: "offered_row agent ws ch m = Some v" and r: "serves m agent ws ch r"
    "version_row (ro_version r) m = Some v"
    and best: "\<And>q w. serves m agent ws ch q \<Longrightarrow> version_row (ro_version q) m = Some w \<Longrightarrow> cv_parts w \<le> cv_parts v"
    by (rule offered_served[OF ok]) blast
  obtain v' where v': "version_row (ro_version r) m = Some v'" "v' \<in> set (catalog_versions m)" "cv_id v' = ro_version r"
    "cv_agent v' = ro_agent r" by (rule rollout_version[OF ok, of r]) (use r(1) in \<open>simp add: serves_def\<close>)
  have v: "v' = v" using v'(1) r(2) by simp
  show ?thesis
    unfolding if_P[OF True]
  proof (intro exI conjI)
    show "offered_version agent ws ch m = Some (cv_id v, cv_version v)" by (simp add: offered_version_def o1)
    show "v \<in> set (catalog_versions m)" "ro_version r = cv_id v" using v' v by simp_all
    show "cv_agent v = agent" using v' v r(1) by (simp add: serves_def)
    show "serves m agent ws ch r" by (rule r(1))
  qed (use best in blast)
next
  case False
  note off = offered_unserved[OF _ ok, of agent ws ch]
  show ?thesis
  proof (cases "offered_row agent ws ch m")
    case None
    then have "highest (\<lambda>v. cv_agent v = agent \<and> cv_channel v \<in> set (channel_scope ch) \<and>
      offerable (cv_status v) \<and> (\<nexists>r. withholds m agent ws ch r \<and> ro_version r = cv_id v)) m = None"
      using off False by simp
    then show ?thesis unfolding highest_None using False None by (simp add: offered_version_def Let_def)
  next
    case (Some v)
    then have "highest (\<lambda>v. cv_agent v = agent \<and> cv_channel v \<in> set (channel_scope ch) \<and>
      offerable (cv_status v) \<and> (\<nexists>r. withholds m agent ws ch r \<and> ro_version r = cv_id v)) m = Some v"
      using off False by simp
    note h = highest_Some[OF this]
    show ?thesis using False h(1,2) h(3)
      by (simp add: offered_version_def Some Let_def) (intro exI[of _ v], simp)
  qed
qed

theorem offer_is_highest_witness:
  "\<exists>(v :: catalog_version_row) r. offered_version 1 10 Stable (sample_market 100) = Some (cv_id v, cv_version v) \<and>
     serves (sample_market 100) 1 10 Stable r \<and> ro_version r = cv_id v"
proof -
  let ?m = "sample_market 100"
  have ok: "catalogue_ok ?m" by (rule sample_market_ok) simp_all
  have "serves ?m 1 10 Stable (sample_rollout 22 12 100 RolloutActive 2)"
    using rollout_bucket_bound[of 1 10] by (simp add: serves_def market_defs)
  then have "\<exists>r. serves ?m 1 10 Stable r" by blast
  then show ?thesis using offer_is_highest[OF ok, of 1 10 Stable]
    by (simp only: if_True) blast
qed

section \<open>Staging\<close>

lemma serves_row:
  assumes run: "update_rollout env pr slug i (Some p) None req m = Inr (x, m')"
    and wider: "\<forall>r \<in> set (rollouts m). ro_id r = i \<longrightarrow> ro_percentage r \<le> p"
  shows "catalog_versions m' = catalog_versions m"
    "serves m agent ws ch r \<Longrightarrow> \<exists>q. serves m' agent ws ch q \<and> ro_version q = ro_version r"
proof -
  let ?f = "restaged env (Some p) None"
  from run obtain m1 t d where w: "write_rollouts (sql_update (\<lambda>y. ro_id y = i) ?f (rollouts m)) m = Inr m1"
    and au: "platform_audit env pr ''catalog.rollout.updated'' req t d m1 = Inr m'"
    by (rule update_rolloutE)
  have m': "catalog_versions m' = catalog_versions m"
    "rollouts m' = sql_update (\<lambda>y. ro_id y = i) ?f (rollouts m)"
    using w platform_audit_Inr[OF au] by (auto simp: write_rollouts_Inr)
  show "catalog_versions m' = catalog_versions m" by (rule m'(1))
  assume s: "serves m agent ws ch r"
  let ?q = "if ro_id r = i then ?f r else r"
  have "?q \<in> set (rollouts m')" using s by (auto simp: m'(2) set_sql_update serves_def)
  then have "serves m' agent ws ch ?q"
    using s wider by (auto simp: serves_def restaged_def or_else_def)
  moreover have "ro_version ?q = ro_version r" by (simp add: restaged_def)
  ultimately show "\<exists>q. serves m' agent ws ch q \<and> ro_version q = ro_version r" by blast
qed

text \<open>C18: Widening a rollout never takes a version away: a workspace that a rollout of its channels includes
  is still included and is offered the same version or a higher one.\<close>

theorem widening_never_lowers:
  assumes ok: "catalogue_ok m" and run: "update_rollout env pr slug i (Some p) None req m = Inr (x, m')"
    and wider: "\<forall>r \<in> set (rollouts m). ro_id r = i \<longrightarrow> ro_percentage r \<le> p"
    and served: "serves m agent ws ch r"
  shows "\<exists>q v v'. serves m' agent ws ch q \<and> ro_version q = ro_version r \<and> offered_row agent ws ch m = Some v \<and>
    offered_row agent ws ch m' = Some v' \<and> cv_parts v \<le> cv_parts v'"
proof -
  have ok': "catalogue_ok m'" using update_rollout_ok[OF ok run] by (simp add: catalogue_step_ok_def)
  note kept = serves_row[OF run wider]
  have rows: "version_row j m' = version_row j m" for j by (simp add: version_row_def kept(1))
  obtain v q where v: "offered_row agent ws ch m = Some v" "serves m agent ws ch q" "version_row (ro_version q) m = Some v"
    by (rule offered_served[OF ok served]) blast
  obtain q1 where q1: "serves m' agent ws ch q1" "ro_version q1 = ro_version q" using kept(2)[OF v(2)] by blast
  obtain v' where v': "offered_row agent ws ch m' = Some v'"
    "\<And>q w. serves m' agent ws ch q \<Longrightarrow> version_row (ro_version q) m' = Some w \<Longrightarrow> cv_parts w \<le> cv_parts v'"
    by (rule offered_served[OF ok' q1(1)]) blast
  have "cv_parts v \<le> cv_parts v'" using v'(2)[OF q1(1)] v(3) q1(2) by (simp add: rows)
  then show ?thesis using kept(2)[OF served] v(1) v'(1) by blast
qed

theorem widening_never_lowers_witness:
  "\<exists>x m' q v v'. update_rollout (env_at 5 500) alice ''seo'' 22 (Some 100) None ''req''
      (sample_market (int (rollout_bucket 1 10) + 1)) = Inr (x, m') \<and>
     serves m' 1 10 Stable q \<and> offered_row 1 10 Stable (sample_market (int (rollout_bucket 1 10) + 1)) = Some v \<and>
     offered_row 1 10 Stable m' = Some v' \<and> cv_parts v \<le> cv_parts v'"
proof -
  let ?p = "int (rollout_bucket 1 10) + 1"
  let ?m = "sample_market ?p" and ?r = "sample_rollout 22 12 (int (rollout_bucket 1 10) + 1) RolloutActive 2"
  have p: "0 \<le> ?p" "?p \<le> 100" using rollout_bucket_bound[of 1 10] by simp_all
  have ok: "catalogue_ok ?m" by (rule sample_market_ok[OF p])
  have "\<exists>x m'. update_rollout (env_at 5 500) alice ''seo'' 22 (Some 100) None ''req'' ?m = Inr (x, m')"
    using p by (simp add: update_rollout_def catalog_row_def find_catalog_def market_defs rollout_by_id_def version_row_def
        write_rollouts_def restaged_def or_else_def one_active_def platform_audit_def)
  then obtain x m' where run: "update_rollout (env_at 5 500) alice ''seo'' 22 (Some 100) None ''req'' ?m = Inr (x, m')"
    by (elim exE)
  have wider: "\<forall>r \<in> set (rollouts ?m). ro_id r = 22 \<longrightarrow> ro_percentage r \<le> 100" using p by (simp add: market_defs)
  have served: "serves ?m 1 10 Stable ?r" by (simp add: serves_def market_defs)
  show ?thesis using widening_never_lowers[OF ok run wider served] run by blast
qed

text \<open>C19: Rolling a rollout back puts the version that served its channel before on that channel again, for
  everyone: it is the only active rollout of the channel, at 100 percent, and on the stable channel every
  workspace is offered it. The rollout itself ends rolled back.\<close>

theorem rollback_restores:
  assumes ok: "catalogue_ok m" and run: "rollback_rollout env pr slug i req m = Inr (x, m')"
    and row: "r \<in> set (rollouts m)" "ro_id r = i" and before: "preceding_rollout r m = Some (q, w)"
  shows "(\<exists>n \<in> set (rollouts m'). ro_version n = ro_version q \<and> ro_percentage n = 100 \<and>
      (\<forall>k \<in> set (rollouts m'). active_on (ro_agent r) (ro_channel r) k \<longleftrightarrow> k = n)) \<and>
    (\<exists>k \<in> set (rollouts m'). ro_id k = i \<and> ro_state k = RolledBack) \<and>
    (ro_channel r = Stable \<longrightarrow> offered_version (ro_agent r) ws Stable m' = Some (cv_id w, cv_version w))"
proof -
  from run obtain a r' v m1 t d where ar: "catalog_row slug m = Inr a" and rr: "rollout_by_id (ca_id a) i m = Inr (r', v)"
    and wr: "write_rollouts (rolled_back_table env pr r' m) m = Inr m1"
    and au: "platform_audit env pr ''catalog.rollout.rolled_back'' req t d m1 = Inr m'"
    by (rule rollback_rolloutE) (rule that)
  have r': "r' = r" using rollout_unique[OF ok row(1) rollout_by_idD(1)[OF rr]] rollout_by_idD(2)[OF rr] row(2) by simp
  have ok': "catalogue_ok m'" using rollback_rollout_ok[OF ok run] by (simp add: catalogue_step_ok_def)
  have m': "catalog_versions m' = catalog_versions m" "rollouts m' = rolled_back_table env pr r m"
    using wr platform_audit_Inr[OF au] r' by (auto simp: write_rollouts_Inr)
  let ?n = "new_rollout env pr (ro_agent r) (ro_version q) (ro_channel r) 100"
  have n: "?n \<in> set (rollouts m')" "active_on (ro_agent r) (ro_channel r) ?n"
    by (simp_all add: m'(2) rolled_back_table_def before active_on_def new_rollout_def)
  have only: "k = ?n" if k: "k \<in> set (rollouts m')" "active_on (ro_agent r) (ro_channel r) k" for k
  proof -
    let ?act = "filter (\<lambda>r. ro_state r = RolloutActive) (rollouts m')"
    have "inj_on (\<lambda>r. (ro_agent r, ro_channel r)) (set ?act)"
      using ok' by (simp add: catalogue_ok_def rollouts_ok_def one_active_def distinct_map)
    then show ?thesis
      by (rule inj_onD) (use k n in \<open>simp_all add: active_on_def\<close>)
  qed
  have gone: "\<exists>k \<in> set (rollouts m'). ro_id k = i \<and> ro_state k = RolledBack"
  proof
    show "withdrawn env r \<in> set (rollouts m')" using row by (auto simp: m'(2) rolled_back_table_def set_sql_update)
    show "ro_id (withdrawn env r) = i \<and> ro_state (withdrawn env r) = RolledBack" using row(2) by (simp add: withdrawn_def)
  qed
  have stable: "offered_version (ro_agent r) ws Stable m' = Some (cv_id w, cv_version w)" if st: "ro_channel r = Stable"
  proof -
    have s: "serves m' (ro_agent r) ws Stable ?n"
      using n(1) rollout_bucket_bound[of "ro_agent r" ws] by (simp add: serves_def new_rollout_def st)
    obtain v k where v: "offered_row (ro_agent r) ws Stable m' = Some v" "serves m' (ro_agent r) ws Stable k"
      "version_row (ro_version k) m' = Some v"
      by (rule offered_served[OF ok' s]) blast
    have "k = ?n" using only[of k] v(2) st by (simp add: serves_def active_on_def)
    then have "version_row (ro_version q) m = Some v" using v(3) m'(1) by (simp add: new_rollout_def version_row_def)
    then have "v = w" using preceding_rolloutD(6)[OF before] by simp
    then show ?thesis using v(1) by (simp add: offered_version_def)
  qed
  have "ro_version ?n = ro_version q \<and> ro_percentage ?n = 100" by (simp add: new_rollout_def)
  then show ?thesis using n only gone stable by blast
qed

theorem rollback_restores_witness:
  "\<exists>x m'. rollback_rollout (env_at 5 500) alice ''seo'' 22 ''req'' (sample_market 40) = Inr (x, m') \<and>
     offered_version 1 10 Stable m' = Some (11, ''1.0.0'')"
proof -
  let ?m = "sample_market 40" and ?r = "sample_rollout 22 12 40 RolloutActive 2"
  have ok: "catalogue_ok ?m" by (rule sample_market_ok) simp_all
  have before: "preceding_rollout ?r ?m =
      Some (sample_rollout 21 11 100 RolloutCompleted 1, sample_release 11 ''1.0.0'' (Version 1 0 0))"
    by (simp add: preceding_rollout_def order_limit_def market_defs version_row_def)
  have "\<exists>x m'. rollback_rollout (env_at 5 500) alice ''seo'' 22 ''req'' ?m = Inr (x, m')"
    using before by (simp add: rollback_rollout_def catalog_row_def find_catalog_def rollout_by_id_def version_row_def
        write_rollouts_def withdrawn_def new_rollout_def one_active_def platform_audit_def env_at_def market_defs)
  then obtain x m' where run: "rollback_rollout (env_at 5 500) alice ''seo'' 22 ''req'' ?m = Inr (x, m')" by (elim exE)
  have row: "?r \<in> set (rollouts ?m)" "ro_id ?r = 22" by (simp_all add: market_defs)
  have "offered_version 1 10 Stable m' = Some (11, ''1.0.0'')"
    using rollback_restores[OF ok run row before, of 10] by (simp add: sample_rollout_def sample_release_def)
  then show ?thesis using run by blast
qed

section \<open>Versions\<close>

lemma version_of_bounded:
  assumes "version_of t = Inr v"
  shows "length (nat_str (major v)) \<le> 4300" "length (nat_str (minor v)) \<le> 4300" "length (nat_str (patch v)) \<le> 4300"
proof -
  have "fullmatch SEMVER t" using assms by (auto simp: version_of_def split: if_splits)
  then obtain a b c where t: "t = a @ ''.'' @ b @ ''.'' @ c" "canonical a" "canonical b" "canonical c"
    using semver_iff by blast
  then show "length (nat_str (major v)) \<le> 4300" "length (nat_str (minor v)) \<le> 4300" "length (nat_str (patch v)) \<le> 4300"
    using assms canonical_nat_str unfolding t(1) version_of_dotted[OF t(2-4)]
    by (auto simp: int_of_digits_def split: if_splits)
qed

text \<open>Parsing a version and printing one are inverse: a text is read as a version exactly when it is the
  printed form of that version, whose numbers have no leading zero and at most 4300 digits. Everything else is
  refused with an error, so a release number has one spelling.\<close>

theorem version_text_roundtrip:
  "version_of t = Inr v \<longleftrightarrow> t = version_str v \<and> length (nat_str (major v)) \<le> 4300 \<and>
     length (nat_str (minor v)) \<le> 4300 \<and> length (nat_str (patch v)) \<le> 4300"
proof
  assume "version_of t = Inr v"
  then show "t = version_str v \<and> length (nat_str (major v)) \<le> 4300 \<and>
     length (nat_str (minor v)) \<le> 4300 \<and> length (nat_str (patch v)) \<le> 4300"
    using version_of_Inr version_of_bounded by blast
qed (use version_of_str in simp)

section \<open>Where the code and its comments part\<close>

text \<open>
  A rollout that is rolled back after another one superseded it is replaced by a second active rollout of
  its channel: the index refuses the insert and the request ends in an unhandled database error.
\<close>

theorem late_rollback_fails:
  assumes ok: "catalogue_ok m" and a: "catalog_row slug m = Inr a" and row: "rollout_by_id (ca_id a) i m = Inr (r, v)"
    and late: "ro_state r = RolloutCompleted" and before: "preceding_rollout r m = Some (q, w)"
    and serving: "k \<in> set (rollouts m)" "active_on (ro_agent r) (ro_channel r) k"
    and fresh: "tx_uuid env 0 \<notin> ro_id ` set (rollouts m)"
  shows "rollback_rollout env pr slug i req m = Inl (UniqueViolation ''agent_rollouts_one_active'')"
proof -
  note r = rollout_by_idD[OF row]
  let ?t = "rolled_back_table env pr r m"
  have pct: "list_all (\<lambda>r. 0 \<le> ro_percentage r \<and> ro_percentage r \<le> 100) ?t"
    using ok before by (auto simp: rolled_back_table_def list_all_iff catalogue_ok_def rollouts_ok_def set_sql_update
        withdrawn_def new_rollout_def)
  have "map ro_id (sql_update (\<lambda>y. ro_id y = ro_id r) (withdrawn env) (rollouts m)) = map ro_id (rollouts m)"
    by (rule sql_update_keys) (simp add: withdrawn_def)
  then have ids: "distinct (map ro_id ?t)"
    using ok fresh before
    by (simp add: rolled_back_table_def catalogue_ok_def rollouts_ok_def new_rollout_def)
  have "k \<noteq> r" using late serving(2) by (auto simp: active_on_def)
  then have "ro_id k \<noteq> ro_id r" using rollout_unique[OF ok r(1) serving(1)] by blast
  then have "k \<in> set (sql_update (\<lambda>y. ro_id y = ro_id r) (withdrawn env) (rollouts m))"
    using serving(1) by (auto simp: set_sql_update)
  then have two: "\<not> one_active ?t"
    using before serving(2) unfolding one_active_def rolled_back_table_def
    by (auto simp: new_rollout_def active_on_def intro!: image_eqI[of _ _ k])
  have "write_rollouts ?t m = Inl (UniqueViolation ''agent_rollouts_one_active'')"
    using pct ids two by (simp add: write_rollouts_def)
  then show ?thesis
    using a row late before r(2,3) by (simp add: rollback_rollout_def Let_def rolled_back_table_def)
qed

text \<open>
  A version that an active rollout serves is offered whatever its status: disabling it does not stop new
  installations.
\<close>

theorem disabled_version_offered:
  assumes ok: "catalogue_ok m" and run: "set_version_release env pr slug text (Some ADisabled) None req m = Inr (v, m')"
    and served: "serves m agent ws ch r"
  shows "serves m' agent ws ch r \<and> offered_row agent ws ch m' \<noteq> None"
proof -
  obtain t d where au: "platform_audit env pr ''catalog.version.release_changed'' req t d
     (m\<lparr>catalog_versions := sql_update (version_named slug text m) (rereleased (Some ADisabled) None) (catalog_versions m)\<rparr>) = Inr m'"
    using run by (auto simp: set_version_release_def Let_def split: if_splits)
  have "rollouts m' = rollouts m" using platform_audit_Inr[OF au] by auto
  then have s: "serves m' agent ws ch r" using served by (simp add: serves_def)
  have "catalogue_ok m'" using set_version_release_ok[OF ok run] by (simp add: catalogue_step_ok_def)
  from offered_served[OF this s] show ?thesis using s by blast
qed

text \<open>
  A workspace outside every rollout is not kept on the version that served before: with the second release
  withheld it is offered the newest other one, here a third release that no rollout ever served.
\<close>

theorem withheld_jumps_ahead:
  "offered_version 1 10 Stable (sample_market 0\<lparr>catalog_versions := catalog_versions (sample_market 0) @
      [sample_release 13 ''1.2.0'' (Version 1 2 0)]\<rparr>) = Some (13, ''1.2.0'')"
  by (simp add: offered_version_def offered_row_def Let_def active_rollouts_def map_filter_def market_defs version_row_def
      included_def highest_def order_limit_def offerable_def newest_version_def parts_def less_eq_prod_def less_prod_def)

end
