(* ===== verification/Tenant_Agents.thy ===== *)
theory Tenant_Agents
  imports Agent_Catalog Agent_Runtime Run_Tasks
begin

text \<open>
  The standard agents a workspace installed (\<open>tenant_agents.py\<close>, \<open>tenant_agent_repository.py\<close>): their
  bindings to connections, the readiness that decides whether an instance is active or paused, version
  moves, forks and the update policy. An operation reads and writes both halves of the database, the
  market and the run tables. \<open>runtime\<close> is the version of the deployed runtime.
\<close>

type_synonym store = "market \<times> db"

section \<open>Bindings and readiness\<close>

record agent_binding =
  ab_key :: string
  ab_connection :: uuid
  ab_display_name :: string
  ab_status :: integration_status
  ab_created :: time
  ab_updated :: time

definition find_connection :: "uuid \<Rightarrow> market \<Rightarrow> connection_row option" where
  "find_connection i m = find (\<lambda>c. ti_id c = i) (connections m)"

definition agent_bindings :: "uuid \<Rightarrow> uuid \<Rightarrow> market \<Rightarrow> agent_binding list" where
  "agent_bindings ws agent m =
    sort_key ab_key (List.map_filter (\<lambda>b.
      if bd_agent b = agent \<and> bd_workspace b = ws
      then map_option (\<lambda>c. \<lparr>ab_key = bd_key b, ab_connection = bd_connection b, ab_display_name = ti_display_name c,
             ab_status = ti_status c, ab_created = bd_created b, ab_updated = bd_updated b\<rparr>)
           (find_connection (bd_connection b) m)
      else None) (bindings m))"

record integration_requirement =
  rq_name :: string
  rq_required :: bool
  rq_bound :: "agent_binding option"
  rq_satisfied :: bool

record agent_readiness =
  rd_ready :: bool
  rd_requirements :: "integration_requirement list"
  rd_missing :: "string list"

definition bound_to :: "agent_binding list \<Rightarrow> string \<Rightarrow> agent_binding option" where
  "bound_to bs name = find (\<lambda>b. ab_key b = name) (rev bs)"

definition satisfied :: "agent_binding list \<Rightarrow> string \<Rightarrow> bool" where
  "satisfied bs name = (case bound_to bs name of None \<Rightarrow> False | Some b \<Rightarrow> ab_status b = IConnected)"

definition missing_required :: "agent_manifest \<Rightarrow> agent_binding list \<Rightarrow> string list" where
  "missing_required mf bs = map fst (filter (\<lambda>(n, required). required \<and> \<not> satisfied bs n) (integrations mf))"

definition readiness :: "agent_manifest \<Rightarrow> agent_binding list \<Rightarrow> agent_readiness" where
  "readiness mf bs =
    \<lparr>rd_ready = (missing_required mf bs = []),
     rd_requirements = map (\<lambda>(n, required). \<lparr>rq_name = n, rq_required = required, rq_bound = bound_to bs n,
       rq_satisfied = satisfied bs n\<rparr>) (integrations mf),
     rd_missing = missing_required mf bs\<rparr>"

section \<open>Instances\<close>

definition find_instance :: "uuid \<Rightarrow> uuid \<Rightarrow> db \<Rightarrow> tenant_agent_row option" where
  "find_instance ws i s = find (\<lambda>t. ta_workspace t = ws \<and> ta_id t = i) (tenant_agents s)"

record instance_row =
  ir_agent :: tenant_agent_row
  ir_slug :: string
  ir_version :: string

definition find_catalog_id :: "uuid \<Rightarrow> market \<Rightarrow> catalog_agent_row option" where
  "find_catalog_id i m = find (\<lambda>a. ca_id a = i) (catalog_agents m)"

definition joined_row :: "market \<Rightarrow> tenant_agent_row \<Rightarrow> instance_row option" where
  "joined_row m t =
    (case (find_catalog_id (ta_catalog t) m, version_row (ta_version t) m) of
       (Some a, Some v) \<Rightarrow> Some \<lparr>ir_agent = t, ir_slug = ca_slug a, ir_version = cv_version v\<rparr>
     | _ \<Rightarrow> None)"

definition agent_row_of :: "uuid \<Rightarrow> uuid \<Rightarrow> store \<Rightarrow> instance_row res" where
  "agent_row_of ws i st =
    (case Option.bind (find_instance ws i (snd st)) (joined_row (fst st)) of
       None \<Rightarrow> Inl (HTTPException 404) | Some r \<Rightarrow> Inr r)"

definition manifest_of :: "uuid \<Rightarrow> market \<Rightarrow> agent_manifest res" where
  "manifest_of v m = (case version_row v m of None \<Rightarrow> Inl (HTTPException 404) | Some r \<Rightarrow> Inr (cv_manifest r))"

record tenant_agent_view =
  tg_row :: instance_row
  tg_available :: "string option"
  tg_manifest :: agent_manifest
  tg_bindings :: "agent_binding list"
  tg_readiness :: agent_readiness

definition agent_view :: "uuid \<Rightarrow> instance_row \<Rightarrow> market \<Rightarrow> tenant_agent_view res" where
  "agent_view ws row m =
    (let t = ir_agent row; bs = agent_bindings ws (ta_id t) m
     in bind_res (manifest_of (ta_version t) m) (\<lambda>mf.
        Inr \<lparr>tg_row = row, tg_available = map_option snd (offered_version (ta_catalog t) ws (ta_channel t) m),
             tg_manifest = mf, tg_bindings = bs, tg_readiness = readiness mf bs\<rparr>))"

text \<open>The view of an instance after the operation that answers with it.\<close>

definition view_after :: "uuid \<Rightarrow> uuid \<Rightarrow> store \<Rightarrow> (tenant_agent_view \<times> store) res" where
  "view_after ws i st =
    bind_res (agent_row_of ws i st) (\<lambda>row. bind_res (agent_view ws row (fst st)) (\<lambda>v. Inr (v, st)))"

definition get_tenant_agent :: "principal \<Rightarrow> uuid \<Rightarrow> uuid \<Rightarrow> store \<Rightarrow> tenant_agent_view res" where
  "get_tenant_agent pr ws i st =
    bind_res (scoped pr ws PermRead (snd st)) (\<lambda>_. bind_res (agent_row_of ws i st) (\<lambda>row. agent_view ws row (fst st)))"

text \<open>
  The row constraints of an instance, and the index \<open>tenant_agents_named\<close>: among the instances that are
  not retired, the name is unique for its agent and workspace.
\<close>

definition instance_check :: "tenant_agent_row \<Rightarrow> bool" where
  "instance_check t \<longleftrightarrow> (ta_status t = Paused) = (ta_paused_reason t \<noteq> None) \<and>
     ta_paused_reason t \<in> {None, Some ''not_ready'', Some ''operator''} \<and>
     length_between 1 100 (btrim (ta_display_name t)) \<and>
     (case ta_instructions t of None \<Rightarrow> True | Some x \<Rightarrow> length x \<le> 20000)"

definition named :: "tenant_agent_row list \<Rightarrow> bool" where
  "named ts \<longleftrightarrow> distinct (map (\<lambda>t. (ta_workspace t, ta_catalog t, ta_display_name t)) (filter (\<lambda>t. ta_status t \<noteq> Disabled) ts))"

definition write_instances :: "tenant_agent_row list \<Rightarrow> db \<Rightarrow> db res" where
  "write_instances ts s =
    (if \<not> list_all instance_check ts then Inl (CheckViolation ''tenant_agents'')
     else if \<not> distinct (map ta_id ts) then Inl (UniqueViolation ''tenant_agents_pkey'')
     else if \<not> named ts then Inl (UniqueViolation ''tenant_agents_named'')
     else Inr (s\<lparr>tenant_agents := ts\<rparr>))"

definition update_instance ::
    "uuid \<Rightarrow> uuid \<Rightarrow> (tenant_agent_row \<Rightarrow> tenant_agent_row) \<Rightarrow> db \<Rightarrow> db res" where
  "update_instance ws i f s = write_instances (sql_update (\<lambda>t. ta_id t = i \<and> ta_workspace t = ws) f (tenant_agents s)) s"

section \<open>Keeping the status honest\<close>

definition settled :: "txenv \<Rightarrow> bool \<Rightarrow> tenant_agent_row \<Rightarrow> tenant_agent_row" where
  "settled env ready t = t\<lparr>ta_status := (if ready then Active else Paused),
     ta_paused_reason := (if ready then None else Some ''not_ready''), ta_updated := tx_now env\<rparr>"

definition settle_status :: "txenv \<Rightarrow> uuid \<Rightarrow> uuid \<Rightarrow> agent_manifest \<Rightarrow> store \<Rightarrow> store res" where
  "settle_status env ws i mf st =
    (case find_instance ws i (snd st) of
       None \<Rightarrow> Inl (TypeError ''NoneType'')
     | Some t \<Rightarrow>
       if ta_status t = Disabled then Inr st
       else let ready = rd_ready (readiness mf (agent_bindings ws i (fst st)))
         in if ready \<and> ta_paused_reason t = Some ''operator'' then Inr st
            else bind_res (update_instance ws i (settled env ready) (snd st)) (\<lambda>s1. Inr (fst st, s1)))"

section \<open>Writing bindings\<close>

definition write_binding ::
    "txenv \<Rightarrow> nat \<Rightarrow> uuid \<Rightarrow> uuid \<Rightarrow> agent_manifest \<Rightarrow> string \<Rightarrow> uuid \<Rightarrow> market \<Rightarrow> market res" where
  "write_binding env k ws agent mf key conn m =
    (if key \<notin> set (map fst (integrations mf)) then Inl (HTTPException 422)
     else case find (\<lambda>c. ti_id c = conn \<and> ti_workspace c = ws) (connections m) of
       None \<Rightarrow> Inl (HTTPException 404)
     | Some c \<Rightarrow>
       if ti_definition c \<noteq> key then Inl (HTTPException 422)
       else if ti_status c = IDisabled then Inl (HTTPException 409)
       else let same = (\<lambda>b. bd_agent b = agent \<and> bd_key b = key)
         in if sql_exists same (bindings m)
            then Inr (m\<lparr>bindings := sql_update same (\<lambda>b. b\<lparr>bd_connection := conn, bd_updated := tx_now env\<rparr>) (bindings m)\<rparr>)
            else Inr (m\<lparr>bindings := bindings m @ [\<lparr>bd_id = tx_uuid env k, bd_workspace = ws, bd_agent = agent,
                   bd_key = key, bd_connection = conn, bd_created = tx_now env, bd_updated = tx_now env\<rparr>]\<rparr>))"

fun write_bindings ::
    "txenv \<Rightarrow> nat \<Rightarrow> uuid \<Rightarrow> uuid \<Rightarrow> agent_manifest \<Rightarrow> (string \<times> uuid) list \<Rightarrow> market \<Rightarrow> market res" where
  "write_bindings env k ws agent mf [] m = Inr m"
| "write_bindings env k ws agent mf ((key, conn) # bs) m =
    bind_res (write_binding env k ws agent mf key conn m) (write_bindings env (Suc k) ws agent mf bs)"

definition record_version ::
    "txenv \<Rightarrow> nat \<Rightarrow> principal \<Rightarrow> uuid \<Rightarrow> uuid \<Rightarrow> uuid option \<Rightarrow> uuid \<Rightarrow> version_action \<Rightarrow> string \<Rightarrow> market \<Rightarrow> market" where
  "record_version env k pr ws agent from to action req m = m\<lparr>version_events := version_events m @
    [\<lparr>ve_id = tx_uuid env k, ve_workspace = ws, ve_agent = agent, ve_from = from, ve_to = to, ve_action = action,
      ve_issuer = issuer pr, ve_subject = subject pr, ve_request = req, ve_created = tx_now env\<rparr>]\<rparr>"

section \<open>Installing\<close>

record install_input =
  in_slug :: string
  in_display_name :: "string option"
  in_channel :: "release_channel option"
  in_mode :: "update_mode option"
  in_bindings :: "(string \<times> uuid) list"

definition workspace_policy :: "uuid \<Rightarrow> market \<Rightarrow> update_policy_row option" where
  "workspace_policy ws m = find (\<lambda>p. up_workspace p = ws) (update_policies m)"

definition policy_channel :: "uuid \<Rightarrow> market \<Rightarrow> release_channel" where
  "policy_channel ws m = (case workspace_policy ws m of None \<Rightarrow> Stable | Some p \<Rightarrow> up_channel p)"

definition policy_mode :: "uuid \<Rightarrow> market \<Rightarrow> update_mode" where
  "policy_mode ws m = (case workspace_policy ws m of None \<Rightarrow> Manual | Some p \<Rightarrow> up_mode p)"

definition offered_to :: "uuid \<Rightarrow> market \<Rightarrow> catalog_agent_row \<Rightarrow> bool" where
  "offered_to ws m a \<longleftrightarrow> ca_status a \<notin> {ADraft, ADisabled} \<and> (ca_visibility a = VPublic \<or> entitled (ca_id a) ws m)"

definition entitled_agent :: "uuid \<Rightarrow> string \<Rightarrow> market \<Rightarrow> catalog_agent_row res" where
  "entitled_agent ws slug m =
    (case find (\<lambda>a. ca_slug a = slug \<and> offered_to ws m a) (catalog_agents m) of
       None \<Rightarrow> Inl (HTTPException 404) | Some a \<Rightarrow> Inr a)"

definition runs_on :: "version \<Rightarrow> agent_manifest \<Rightarrow> unit res" where
  "runs_on runtime mf = bind_res (runtime_minimum mf) (\<lambda>v. guard_res (satisfies_minimum runtime v) (HTTPException 409))"

definition new_instance :: "txenv \<Rightarrow> uuid \<Rightarrow> install_input \<Rightarrow> catalog_agent_row \<Rightarrow> uuid \<Rightarrow> release_channel \<Rightarrow> market \<Rightarrow> tenant_agent_row" where
  "new_instance env ws body agent version ch m =
    \<lparr>ta_id = tx_uuid env 0, ta_workspace = ws, ta_catalog = ca_id agent, ta_version = version,
     ta_display_name = (if given (in_display_name body) then the (in_display_name body) else ca_name agent),
     ta_status = Paused, ta_paused_reason = Some ''not_ready'', ta_channel = ch,
     ta_mode = or_else (in_mode body) (policy_mode ws m), ta_instructions = None, ta_settings = [],
     ta_created = tx_now env, ta_updated = tx_now env\<rparr>"

definition conflict_409 :: "'a res \<Rightarrow> 'a res" where
  "conflict_409 r = (case r of Inl (UniqueViolation c) \<Rightarrow> Inl (HTTPException 409) | _ \<Rightarrow> r)"

definition audit_if :: "bool \<Rightarrow> principal \<Rightarrow> uuid \<Rightarrow> string \<Rightarrow> string \<Rightarrow> db \<Rightarrow> db" where
  "audit_if b pr ws action req s = (if b then audit pr ws action req None s else s)"

definition install ::
    "txenv \<Rightarrow> version \<Rightarrow> principal \<Rightarrow> uuid \<Rightarrow> install_input \<Rightarrow> string \<Rightarrow> store \<Rightarrow> (tenant_agent_view \<times> store) res" where
  "install env runtime pr ws body req st =
    (let m = fst st; s = snd st in
     bind_res (scoped pr ws ManageAgents s) (\<lambda>_.
     bind_res (entitled_agent ws (in_slug body) m) (\<lambda>agent.
     let ch = or_else (in_channel body) (policy_channel ws m) in
     case offered_version (ca_id agent) ws ch m of
       None \<Rightarrow> Inl (HTTPException 409)
     | Some (version, _) \<Rightarrow>
       bind_res (manifest_of version m) (\<lambda>mf.
       bind_res (runs_on runtime mf) (\<lambda>_.
       let i = tx_uuid env 0 in
       bind_res (conflict_409 (write_instances (tenant_agents s @ [new_instance env ws body agent version ch m]) s)) (\<lambda>s1.
       bind_res (write_bindings env 1 ws i mf (in_bindings body) m) (\<lambda>m1.
       let s2 = audit_if (in_bindings body \<noteq> []) pr ws ''agent.binding_changed'' req s1;
           m2 = record_version env (1 + length (in_bindings body)) pr ws i None version Installed req m1 in
       bind_res (settle_status env ws i mf (m2, s2)) (\<lambda>(m3, s3).
         view_after ws i (m3, audit pr ws ''agent.installed'' req None s3))))))))) "

section \<open>Changing an instance\<close>

definition set_binding ::
    "txenv \<Rightarrow> principal \<Rightarrow> uuid \<Rightarrow> uuid \<Rightarrow> string \<Rightarrow> uuid \<Rightarrow> string \<Rightarrow> store \<Rightarrow> (tenant_agent_view \<times> store) res" where
  "set_binding env pr ws i key conn req st =
    bind_res (scoped pr ws ManageAgents (snd st)) (\<lambda>_.
    bind_res (agent_row_of ws i st) (\<lambda>row.
    bind_res (manifest_of (ta_version (ir_agent row)) (fst st)) (\<lambda>mf.
    bind_res (write_binding env 0 ws i mf key conn (fst st)) (\<lambda>m1.
    bind_res (settle_status env ws i mf (m1, snd st)) (\<lambda>(m2, s2).
      view_after ws i (m2, audit pr ws ''agent.binding_changed'' req None s2))))))"

definition clear_bindings :: "(binding_row \<Rightarrow> bool) \<Rightarrow> market \<Rightarrow> market" where
  "clear_bindings p m = m\<lparr>bindings := filter (\<lambda>b. \<not> p b) (bindings m)\<rparr>"

definition clear_binding ::
    "txenv \<Rightarrow> principal \<Rightarrow> uuid \<Rightarrow> uuid \<Rightarrow> string \<Rightarrow> string \<Rightarrow> store \<Rightarrow> (tenant_agent_view \<times> store) res" where
  "clear_binding env pr ws i key req st =
    bind_res (scoped pr ws ManageAgents (snd st)) (\<lambda>_.
    bind_res (agent_row_of ws i st) (\<lambda>row.
    bind_res (manifest_of (ta_version (ir_agent row)) (fst st)) (\<lambda>mf.
    let m1 = clear_bindings (\<lambda>b. bd_agent b = i \<and> bd_workspace b = ws \<and> bd_key b = key) (fst st) in
    bind_res (settle_status env ws i mf (m1, snd st)) (\<lambda>(m2, s2).
      view_after ws i (m2, audit pr ws ''agent.binding_changed'' req None s2)))))"

record agent_update =
  au_display_name :: "string option"
  au_status :: "instance_status option"
  au_channel :: "release_channel option"
  au_mode :: "update_mode option"
  au_instructions :: "string option"
  au_settings :: "dict option"

definition MAX_SETTINGS_KEYS :: nat where
  "MAX_SETTINGS_KEYS = 50"

definition update_usable :: "agent_update \<Rightarrow> unit res" where
  "update_usable u =
    (if au_display_name u = None \<and> au_status u = None \<and> au_channel u = None \<and> au_mode u = None \<and>
        au_instructions u = None \<and> au_settings u = None
     then Inl (ValueError ''At least one field must be supplied'')
     else if (case au_settings u of None \<Rightarrow> False | Some d \<Rightarrow> MAX_SETTINGS_KEYS < length d)
     then Inl (ValueError ''Too many settings'')
     else Inr ())"

text \<open>A requested status comes with its reason: a pause is the operator's.\<close>

definition reconfigure :: "txenv \<Rightarrow> agent_update \<Rightarrow> tenant_agent_row \<Rightarrow> tenant_agent_row" where
  "reconfigure env u t = t\<lparr>ta_display_name := or_else (au_display_name u) (ta_display_name t),
     ta_status := or_else (au_status u) (ta_status t),
     ta_paused_reason := (case au_status u of None \<Rightarrow> ta_paused_reason t
        | Some x \<Rightarrow> if x = Paused then Some ''operator'' else None),
     ta_channel := or_else (au_channel u) (ta_channel t), ta_mode := or_else (au_mode u) (ta_mode t),
     ta_instructions := (case au_instructions u of None \<Rightarrow> ta_instructions t | Some x \<Rightarrow> Some x),
     ta_settings := or_else (au_settings u) (ta_settings t), ta_updated := tx_now env\<rparr>"

definition update_tenant_agent ::
    "txenv \<Rightarrow> principal \<Rightarrow> uuid \<Rightarrow> uuid \<Rightarrow> agent_update \<Rightarrow> string \<Rightarrow> store \<Rightarrow> (tenant_agent_view \<times> store) res" where
  "update_tenant_agent env pr ws i u req st =
    bind_res (update_usable u) (\<lambda>_.
    bind_res (scoped pr ws ManageAgents (snd st)) (\<lambda>_.
    bind_res (agent_row_of ws i st) (\<lambda>row.
    bind_res (manifest_of (ta_version (ir_agent row)) (fst st)) (\<lambda>mf.
    if au_status u = Some Active \<and> \<not> rd_ready (readiness mf (agent_bindings ws i (fst st)))
    then Inl (HTTPException 409)
    else bind_res (update_instance ws i (reconfigure env u) (snd st)) (\<lambda>s1.
      view_after ws i (fst st, audit pr ws ''agent.settings_changed'' req None s1))))))"

definition retired :: "txenv \<Rightarrow> tenant_agent_row \<Rightarrow> tenant_agent_row" where
  "retired env t = t\<lparr>ta_status := Disabled, ta_paused_reason := None, ta_updated := tx_now env\<rparr>"

definition uninstall :: "txenv \<Rightarrow> principal \<Rightarrow> uuid \<Rightarrow> uuid \<Rightarrow> string \<Rightarrow> store \<Rightarrow> (unit \<times> store) res" where
  "uninstall env pr ws i req st =
    bind_res (scoped pr ws ManageAgents (snd st)) (\<lambda>_.
    bind_res (agent_row_of ws i st) (\<lambda>_.
    bind_res (update_instance ws i (retired env) (snd st)) (\<lambda>s1.
      Inr ((), (clear_bindings (\<lambda>b. bd_agent b = i \<and> bd_workspace b = ws) (fst st),
                audit pr ws ''agent.disabled'' req None s1)))))"

section \<open>Moving between versions\<close>

definition repinned :: "txenv \<Rightarrow> uuid \<Rightarrow> tenant_agent_row \<Rightarrow> tenant_agent_row" where
  "repinned env target t = t\<lparr>ta_version := target, ta_updated := tx_now env\<rparr>"

definition repin ::
    "txenv \<Rightarrow> nat \<Rightarrow> principal \<Rightarrow> uuid \<Rightarrow> uuid \<Rightarrow> uuid \<Rightarrow> uuid \<Rightarrow> version_action \<Rightarrow> string \<Rightarrow> store \<Rightarrow> store res" where
  "repin env k pr ws i from to action req st =
    bind_res (update_instance ws i (repinned env to) (snd st)) (\<lambda>s1.
      Inr (record_version env k pr ws i (Some from) to action req (fst st), s1))"

definition version_by_number :: "uuid \<Rightarrow> string \<Rightarrow> market \<Rightarrow> catalog_version_row res" where
  "version_by_number agent text m =
    (case find (\<lambda>v. cv_agent v = agent \<and> cv_version v = text) (catalog_versions m) of
       None \<Rightarrow> Inl (HTTPException 404) | Some v \<Rightarrow> Inr v)"

definition move_target :: "uuid \<Rightarrow> tenant_agent_row \<Rightarrow> string option \<Rightarrow> market \<Rightarrow> uuid res" where
  "move_target ws t text m =
    (case text of
       None \<Rightarrow> (case offered_version (ta_catalog t) ws (ta_channel t) m of
                  None \<Rightarrow> Inl (HTTPException 409) | Some (v, _) \<Rightarrow> Inr v)
     | Some x \<Rightarrow> bind_res (version_by_number (ta_catalog t) x m) (\<lambda>v.
                  if cv_status v \<in> {ADraft, ADisabled} then Inl (HTTPException 409) else Inr (cv_id v)))"

definition move_version ::
    "txenv \<Rightarrow> version \<Rightarrow> principal \<Rightarrow> uuid \<Rightarrow> uuid \<Rightarrow> string option \<Rightarrow> string \<Rightarrow> store \<Rightarrow> (tenant_agent_view \<times> store) res" where
  "move_version env runtime pr ws i text req st =
    bind_res (scoped pr ws ManageAgents (snd st)) (\<lambda>_.
    bind_res (agent_row_of ws i st) (\<lambda>row.
    bind_res (move_target ws (ir_agent row) text (fst st)) (\<lambda>target.
    if target = ta_version (ir_agent row)
    then bind_res (agent_view ws row (fst st)) (\<lambda>v. Inr (v, st))
    else bind_res (manifest_of target (fst st)) (\<lambda>mf.
      bind_res (runs_on runtime mf) (\<lambda>_.
      bind_res (repin env 0 pr ws i (ta_version (ir_agent row)) target Updated req st) (\<lambda>st1.
      bind_res (settle_status env ws i mf st1) (\<lambda>(m2, s2).
        view_after ws i (m2, audit pr ws ''agent.updated'' req None s2))))))))"

text \<open>The latest move of an instance away from a version.\<close>

definition last_move :: "uuid \<Rightarrow> uuid \<Rightarrow> market \<Rightarrow> version_event_row option" where
  "last_move ws i m =
    (case order_limit (\<lambda>e. (- ve_created e, - uint (ve_id e))) 1
        (\<lambda>e. ve_agent e = i \<and> ve_workspace e = ws \<and> ve_from e \<noteq> None) (version_events m) of
       [] \<Rightarrow> None | e # _ \<Rightarrow> Some e)"

definition rollback :: "txenv \<Rightarrow> principal \<Rightarrow> uuid \<Rightarrow> uuid \<Rightarrow> string \<Rightarrow> store \<Rightarrow> (tenant_agent_view \<times> store) res" where
  "rollback env pr ws i req st =
    bind_res (scoped pr ws ManageAgents (snd st)) (\<lambda>_.
    bind_res (agent_row_of ws i st) (\<lambda>row.
    case Option.bind (last_move ws i (fst st)) ve_from of
      None \<Rightarrow> Inl (HTTPException 409)
    | Some previous \<Rightarrow>
      if previous = ta_version (ir_agent row) then Inl (HTTPException 409)
      else bind_res (manifest_of previous (fst st)) (\<lambda>mf.
        bind_res (repin env 0 pr ws i (ta_version (ir_agent row)) previous RolledBackTo req st) (\<lambda>st1.
        bind_res (settle_status env ws i mf st1) (\<lambda>(m2, s2).
          view_after ws i (m2, audit pr ws ''agent.rolled_back'' req None s2))))))"

record version_move =
  vm_event :: version_event_row
  vm_from :: "string option"
  vm_to :: string

definition version_move_of :: "market \<Rightarrow> version_event_row \<Rightarrow> version_move option" where
  "version_move_of m e = map_option (\<lambda>t. \<lparr>vm_event = e,
     vm_from = Option.bind (ve_from e) (\<lambda>f. map_option cv_version (version_row f m)), vm_to = cv_version t\<rparr>)
     (version_row (ve_to e) m)"

text \<open>The cursor names an event; a cursor that names none selects nothing.\<close>

definition version_history :: "principal \<Rightarrow> uuid \<Rightarrow> uuid \<Rightarrow> nat \<Rightarrow> uuid option \<Rightarrow> store \<Rightarrow> version_move list res" where
  "version_history pr ws i n c st =
    bind_res (scoped pr ws PermRead (snd st)) (\<lambda>_. bind_res (agent_row_of ws i st) (\<lambda>_.
      Inr (List.map_filter (version_move_of (fst st))
        (order_limit (\<lambda>e. (ve_created e, ve_id e)) n
          (\<lambda>e. ve_agent e = i \<and> ve_workspace e = ws \<and> version_move_of (fst st) e \<noteq> None \<and>
            (case c of None \<Rightarrow> True
             | Some x \<Rightarrow> (case find (\<lambda>b. ve_id b = x) (version_events (fst st)) of None \<Rightarrow> False
                 | Some b \<Rightarrow> (ve_created b, ve_id b) < (ve_created e, ve_id e))))
          (version_events (fst st))))))"

section \<open>Forks\<close>

record fork_input =
  fi_name :: string
  fi_instructions :: "string option"
  fi_profile :: "string option"

definition forked_agent ::
    "txenv \<Rightarrow> principal \<Rightarrow> uuid \<Rightarrow> fork_input \<Rightarrow> tenant_agent_row \<Rightarrow> agent_manifest \<Rightarrow> agent_row" where
  "forked_agent env pr ws body t mf =
    \<lparr>a_id = tx_uuid env 0, a_workspace = ws, a_name = fi_name body,
     a_instructions = (if given (fi_instructions body) then the (fi_instructions body)
       else if given (ta_instructions t) then the (ta_instructions t) else mf_instructions mf),
     a_model_profile = (if given (fi_profile body) then the (fi_profile body) else mo_primary (mf_model_policy mf)),
     a_issuer = issuer pr, a_subject = subject pr, a_created = tx_now env\<rparr>"

definition fork ::
    "txenv \<Rightarrow> principal \<Rightarrow> uuid \<Rightarrow> uuid \<Rightarrow> fork_input \<Rightarrow> string \<Rightarrow> store \<Rightarrow>
     ((agent_row \<times> string \<times> string) \<times> store) res" where
  "fork env pr ws i body req st =
    (let m = fst st; s = snd st in
     bind_res (scoped pr ws ManageAgents s) (\<lambda>_.
     bind_res (agent_row_of ws i st) (\<lambda>row.
     let t = ir_agent row in
     bind_res (manifest_of (ta_version t) m) (\<lambda>mf.
     let a = forked_agent env pr ws body t mf in
     if sql_exists (\<lambda>x. a_id x = a_id a) (agent_definitions s) then Inl (UniqueViolation ''agent_definitions_pkey'')
     else Inr ((a, ir_slug row, ir_version row),
       (m\<lparr>forks := forks m @ [\<lparr>fk_agent = a_id a, fk_catalog = ta_catalog t, fk_version = ta_version t, fk_manifest = mf\<rparr>]\<rparr>,
        audit pr ws ''agent.forked'' req None (s\<lparr>agent_definitions := agent_definitions s @ [a]\<rparr>)))))))"

section \<open>The update policy of a workspace\<close>

definition get_update_policy :: "txenv \<Rightarrow> principal \<Rightarrow> uuid \<Rightarrow> store \<Rightarrow> update_policy_row res" where
  "get_update_policy env pr ws st =
    bind_res (scoped pr ws PermRead (snd st)) (\<lambda>_.
      Inr (or_else (workspace_policy ws (fst st))
        \<lparr>up_workspace = ws, up_channel = Stable, up_mode = Manual, up_updated = tx_now env\<rparr>))"

definition set_update_policy ::
    "txenv \<Rightarrow> principal \<Rightarrow> uuid \<Rightarrow> release_channel \<Rightarrow> update_mode \<Rightarrow> string \<Rightarrow> store \<Rightarrow> (update_policy_row \<times> store) res" where
  "set_update_policy env pr ws ch mode req st =
    (let m = fst st; p = \<lparr>up_workspace = ws, up_channel = ch, up_mode = mode, up_updated = tx_now env\<rparr> in
     bind_res (scoped pr ws ManageAgents (snd st)) (\<lambda>_.
       Inr (p, (m\<lparr>update_policies := (if workspace_policy ws m = None then update_policies m @ [p]
                   else sql_update (\<lambda>x. up_workspace x = ws) (\<lambda>_. p) (update_policies m))\<rparr>,
               audit pr ws ''agent.update_policy_changed'' req None (snd st)))))"

section \<open>Automatic updates\<close>

definition update_scheduler :: principal where
  "update_scheduler = \<lparr>issuer = ''nexora://system'', subject = ''agent-update-scheduler''\<rparr>"

definition move_action :: "string \<Rightarrow> string \<Rightarrow> version_action res" where
  "move_action target current =
    bind_res (version_of target) (\<lambda>a. bind_res (version_of current) (\<lambda>b.
      Inr (if parts a < parts b then RolledBackTo else Updated)))"

text \<open>One instance of the batch; the boolean says whether its pin moved.\<close>

definition auto_update ::
    "txenv \<Rightarrow> nat \<Rightarrow> version \<Rightarrow> instance_row \<Rightarrow> store \<Rightarrow> (bool \<times> store) res" where
  "auto_update env k runtime row st =
    (let t = ir_agent row; ws = ta_workspace t in
     case offered_version (ta_catalog t) ws (ta_channel t) (fst st) of
       None \<Rightarrow> Inr (False, st)
     | Some (target, text) \<Rightarrow>
       if target = ta_version t then Inr (False, st)
       else bind_res (manifest_of target (fst st)) (\<lambda>mf.
         bind_res (runtime_minimum mf) (\<lambda>v.
         if \<not> satisfies_minimum runtime v then Inr (False, st)
         else bind_res (move_action text (ir_version row)) (\<lambda>action.
           let req = ''automatic-agent-update:'' @ uuid_str (ta_id t) @ '':'' @ uuid_str target in
           bind_res (repin env k update_scheduler ws (ta_id t) (ta_version t) target action req st) (\<lambda>st1.
           bind_res (settle_status env ws (ta_id t) mf st1) (\<lambda>(m2, s2).
             Inr (True, (m2, audit update_scheduler ws ''agent.automatic_version_changed'' req None s2))))))))"

fun auto_updates ::
    "txenv \<Rightarrow> nat \<Rightarrow> version \<Rightarrow> instance_row list \<Rightarrow> store \<Rightarrow> (nat \<times> store) res" where
  "auto_updates env k runtime [] st = Inr (0, st)"
| "auto_updates env k runtime (row # rows) st =
    bind_res (auto_update env k runtime row st) (\<lambda>(moved, st1).
    bind_res (auto_updates env (Suc k) runtime rows st1) (\<lambda>(n, st2). Inr (of_bool moved + n, st2)))"

definition automatic_rows :: "(uuid \<Rightarrow> bool) \<Rightarrow> nat \<Rightarrow> uuid option \<Rightarrow> store \<Rightarrow> instance_row list" where
  "automatic_rows locked limit c st =
    List.map_filter (joined_row (fst st)) (keyset_query ta_id (\<lambda>t. ta_mode t = Automatic \<and> ta_status t \<noteq> Disabled \<and>
      joined_row (fst st) t \<noteq> None \<and> \<not> locked (ta_id t)) (tenant_agents (snd st)) limit c)"

definition apply_automatic_updates ::
    "txenv \<Rightarrow> version \<Rightarrow> (uuid \<Rightarrow> bool) \<Rightarrow> nat \<Rightarrow> uuid option \<Rightarrow> store \<Rightarrow> ((nat \<times> uuid option) \<times> store) res" where
  "apply_automatic_updates env runtime locked limit c st =
    (if \<not> (1 \<le> limit \<and> limit \<le> 200) then Inl (ValueError ''limit must be between 1 and 200'')
     else let rows = automatic_rows locked limit c st
       in bind_res (auto_updates env 0 runtime rows st) (\<lambda>(n, st1).
         Inr ((n, if length rows = limit then Some (ta_id (ir_agent (last rows))) else None), st1)))"

section \<open>Listings\<close>

record catalog_entry =
  ce_agent :: catalog_agent_row
  ce_available :: "string option"
  ce_installed :: nat
  ce_required :: "string list"
  ce_optional :: "string list"
  ce_capabilities :: "string list"
  ce_approval :: "string list"

definition catalog_entry_of :: "uuid \<Rightarrow> store \<Rightarrow> catalog_agent_row \<Rightarrow> catalog_entry res" where
  "catalog_entry_of ws st a =
    (let m = fst st; off = offered_version (ca_id a) ws (policy_channel ws m) m in
     bind_res (case off of None \<Rightarrow> Inr None | Some (v, _) \<Rightarrow> bind_res (manifest_of v m) (\<lambda>mf. Inr (Some mf))) (\<lambda>mf.
       let field = (\<lambda>f. case mf of None \<Rightarrow> [] | Some x \<Rightarrow> f x) in
       Inr \<lparr>ce_agent = a, ce_available = map_option snd off,
            ce_installed = length (filter (\<lambda>t. ta_workspace t = ws \<and> ta_catalog t = ca_id a) (tenant_agents (snd st))),
            ce_required = field mf_required_integrations, ce_optional = field mf_optional_integrations,
            ce_capabilities = field mf_capabilities, ce_approval = field mf_approval_required\<rparr>))"

definition browse_catalog :: "principal \<Rightarrow> uuid \<Rightarrow> nat \<Rightarrow> string option \<Rightarrow> store \<Rightarrow> catalog_entry list res" where
  "browse_catalog pr ws n c st =
    bind_res (scoped pr ws PermRead (snd st)) (\<lambda>_.
      map_res (catalog_entry_of ws st) (keyset_query ca_slug (offered_to ws (fst st)) (catalog_agents (fst st)) n c))"

record agent_summary =
  gs_instance :: instance_row
  gs_offered :: "string option"
  gs_ready :: bool

definition agent_summary_of :: "market \<Rightarrow> instance_row \<Rightarrow> agent_summary res" where
  "agent_summary_of m row =
    (let t = ir_agent row; ws = ta_workspace t in
     bind_res (manifest_of (ta_version t) m) (\<lambda>mf.
       Inr \<lparr>gs_instance = row, gs_offered = map_option snd (offered_version (ta_catalog t) ws (ta_channel t) m),
            gs_ready = rd_ready (readiness mf (agent_bindings ws (ta_id t) m))\<rparr>))"

definition list_instances :: "principal \<Rightarrow> uuid \<Rightarrow> nat \<Rightarrow> uuid option \<Rightarrow> store \<Rightarrow> agent_summary list res" where
  "list_instances pr ws n c st =
    bind_res (scoped pr ws PermRead (snd st)) (\<lambda>_.
      map_res (agent_summary_of (fst st)) (List.map_filter (joined_row (fst st))
        (keyset_query ta_id (\<lambda>t. ta_workspace t = ws \<and> joined_row (fst st) t \<noteq> None) (tenant_agents (snd st)) n c)))"

end
