(* ===== verification/Tenant_Runs.thy ===== *)
theory Tenant_Runs
  imports Tenant_Agents
begin

text \<open>
  Runs of standard agents (\<open>TenantAgentRepository.create_run\<close>): the tools of the manifest are frozen into
  immutable governed tools with a policy, and the run is queued with the frozen snapshot, its goal task,
  its first event and its job in one transaction. Whether the deployment has a browser runtime and the
  parts of the site's URL are parameters.
\<close>

section \<open>The built-in tools\<close>

definition str_field :: "nat \<Rightarrow> nat \<Rightarrow> json" where
  "str_field a b = JObj [(''type'', JStr ''string''), (''minLength'', JInt (int a)), (''maxLength'', JInt (int b))]"

definition bounded_text :: "nat \<Rightarrow> json" where
  "bounded_text b = JObj [(''type'', JStr ''string''), (''maxLength'', JInt (int b))]"

definition object_schema :: "dict \<Rightarrow> string list \<Rightarrow> dict" where
  "object_schema properties required =
    [(''type'', JStr ''object''), (''properties'', JObj properties), (''required'', json_strs required),
     (''additionalProperties'', JBool False)]"

definition task_create_schema :: dict where
  "task_create_schema = object_schema
    [(''title'', str_field 1 300), (''description'', bounded_text 2000), (''action_tool'', str_field 2 64),
     (''depends_on'', JObj [(''type'', JStr ''array''), (''items'', str_field 36 36), (''maxItems'', JInt 20)]),
     (''idempotency_key'', str_field 8 128)]
    [''title'', ''idempotency_key'']"

definition task_verify_schema :: dict where
  "task_verify_schema = object_schema
    [(''task_id'', str_field 36 36), (''verification_tool'', str_field 2 64), (''summary'', str_field 1 2000),
     (''satisfied'', JObj [(''type'', JStr ''boolean'')]), (''idempotency_key'', str_field 8 128)]
    [''task_id'', ''verification_tool'', ''summary'', ''satisfied'', ''idempotency_key'']"

definition browser_action_schema :: dict where
  "browser_action_schema = object_schema
    [(''path'', str_field 1 1000),
     (''action'', JObj [(''type'', JStr ''string''), (''enum'', json_strs [''click'', ''fill''])]),
     (''selector'', str_field 1 500), (''value'', bounded_text 4000), (''idempotency_key'', str_field 8 128)]
    [''path'', ''action'', ''selector'', ''idempotency_key'']"

definition browser_inspect_schema :: dict where
  "browser_inspect_schema = object_schema [(''path'', str_field 1 1000)] [''path'']"

section \<open>Registering a governed tool\<close>

record tool_contract =
  tk_name :: string
  tk_server :: string
  tk_remote :: string
  tk_description :: string
  tk_input :: dict
  tk_output :: "dict option"
  tk_effect :: side_effect
  tk_decision :: policy_decision
  tk_reason :: string

definition contract_row :: "txenv \<Rightarrow> nat \<Rightarrow> principal \<Rightarrow> uuid \<Rightarrow> tool_contract \<Rightarrow> tool_row" where
  "contract_row env k pr ws c =
    \<lparr>t_id = tx_uuid env k, t_workspace = ws, t_name = tk_name c, t_server_key = tk_server c,
     t_remote_name = tk_remote c, t_description = tk_description c, t_input_schema = JObj (tk_input c),
     t_output_schema = map_option JObj (tk_output c), t_side_effect = tk_effect c, t_enabled = True,
     t_issuer = issuer pr, t_subject = subject pr, t_created = tx_now env, t_updated = tx_now env\<rparr>"

definition py_eq_opt :: "json option \<Rightarrow> json option \<Rightarrow> bool" where
  "py_eq_opt a b = (case (a, b) of (None, None) \<Rightarrow> True | (Some x, Some y) \<Rightarrow> py_eq x y | _ \<Rightarrow> False)"

text \<open>The stored contract must be the declared one; the output schema counts for connectors.\<close>

definition contract_matches :: "tool_contract \<Rightarrow> tool_row \<Rightarrow> bool" where
  "contract_matches c t \<longleftrightarrow> t_server_key t = tk_server c \<and> t_remote_name t = tk_remote c \<and>
     py_eq (t_input_schema t) (JObj (tk_input c)) \<and>
     (tk_server c = ''connector'' \<longrightarrow> py_eq_opt (t_output_schema t) (map_option JObj (tk_output c))) \<and>
     t_side_effect t = tk_effect c"

text \<open>\<open>ON CONFLICT DO NOTHING\<close>, for the tool and for its policy.\<close>

definition insert_tool :: "tool_row \<Rightarrow> db \<Rightarrow> db res" where
  "insert_tool t s =
    (if find_tool (t_workspace t) (t_name t) s \<noteq> None then Inr s
     else if sql_exists (\<lambda>x. t_id x = t_id t) (tool_definitions s) then Inl (UniqueViolation ''tool_definitions_pkey'')
     else Inr (s\<lparr>tool_definitions := tool_definitions s @ [t]\<rparr>))"

definition insert_policy :: "txenv \<Rightarrow> principal \<Rightarrow> tool_contract \<Rightarrow> tool_row \<Rightarrow> db \<Rightarrow> db" where
  "insert_policy env pr c t s =
    (if sql_exists (\<lambda>p. tp_workspace p = t_workspace t \<and> tp_tool p = t_id t) (tool_policies s) then s
     else s\<lparr>tool_policies := tool_policies s @
       [\<lparr>tp_workspace = t_workspace t, tp_tool = t_id t, tp_decision = tk_decision c, tp_reason = tk_reason c,
         tp_issuer = issuer pr, tp_subject = subject pr, tp_updated = tx_now env\<rparr>]\<rparr>)"

text \<open>The answer says whether the tool may be used; a disabled one that is required refuses the run.\<close>

definition register_tool ::
    "txenv \<Rightarrow> nat \<Rightarrow> principal \<Rightarrow> uuid \<Rightarrow> bool \<Rightarrow> tool_contract \<Rightarrow> db \<Rightarrow> (bool \<times> db) res" where
  "register_tool env k pr ws required c s =
    bind_res (insert_tool (contract_row env k pr ws c) s) (\<lambda>s1.
      case find_tool ws (tk_name c) s1 of
        None \<Rightarrow> Inl (HTTPException 409)
      | Some t \<Rightarrow>
        if \<not> contract_matches c t then Inl (HTTPException 409)
        else if \<not> t_enabled t then (if required then Inl (HTTPException 409) else Inr (False, s1))
        else Inr (True, insert_policy env pr c t s1))"

section \<open>The contracts of a run\<close>

definition task_contract :: "string \<Rightarrow> tool_contract" where
  "task_contract public =
    (let create = public = ''nexora.tasks.create'';
         schema = if create then task_create_schema else task_verify_schema
     in \<lparr>tk_name = ''tasks.'' @ take 48 (sha256_hex (dumps_ascii (JObj [(''public_name'', JStr public), (''input_schema'', JObj schema)]))),
         tk_server = ''tasks'', tk_remote = (if create then ''child.create'' else ''task.verify''),
         tk_description = (if create
           then ''Create a durable follow-up task inside this run without performing an external action.''
           else ''Complete a follow-up only after a successful governed action and later read evidence.''),
         tk_input = schema, tk_output = None, tk_effect = WriteEffect,
         tk_decision = Allow, tk_reason = ''Internal run task metadata only''\<rparr>)"

definition browser_contract :: "string \<Rightarrow> string \<Rightarrow> tool_contract" where
  "browser_contract public origin =
    (let act = public = ''browser.page.action'';
         schema = if act then browser_action_schema else browser_inspect_schema
     in \<lparr>tk_name = ''browser.'' @ take 48 (sha256_hex (dumps_ascii (JObj [(''public_name'', JStr public),
           (''allowed_origin'', JStr origin), (''input_schema'', JObj schema)]))),
         tk_server = ''browser'', tk_remote = (if act then ''page.action'' else ''page.inspect''),
         tk_description = (if act
           then ''Perform one approval-gated click or fill on an allowlisted customer page.''
           else ''Render and inspect an allowlisted customer web page.''),
         tk_input = schema, tk_output = None, tk_effect = (if act then WriteEffect else ReadEffect),
         tk_decision = (if act then RequireApproval else Allow),
         tk_reason = (if act then ''Browser UI mutation requires human approval''
           else ''Run-scoped allowlisted browser inspection'')\<rparr>)"

definition config_json :: "(string \<times> string) list \<Rightarrow> json" where
  "config_json d = JObj (map (\<lambda>(k, v). (k, JStr v)) d)"

definition config_fingerprint :: "connection_row \<Rightarrow> string" where
  "config_fingerprint c = sha256_hex (dumps (config_json (ti_config c)))"

definition credential_ref :: "connection_row \<Rightarrow> json" where
  "credential_ref c = (if ti_auth c = OAuth2Auth then JNull
     else json_opt (\<lambda>i. JStr (uuid_str i)) (ti_credential c))"

definition connector_contract ::
    "string \<Rightarrow> connector_manifest \<Rightarrow> connector_endpoint \<Rightarrow> connection_row \<Rightarrow> tool_contract" where
  "connector_contract public df e c =
    \<lparr>tk_name = ''connector.'' @ take 48 (sha256_hex (dumps_ascii (JObj
        [(''public_name'', JStr public), (''definition_id'', JStr (cm_id df)), (''definition_version'', JStr (cm_version df)),
         (''endpoint'', endpoint_json e), (''tenant_integration_id'', JStr (uuid_str (ti_id c))),
         (''config_fingerprint'', JStr (config_fingerprint c)), (''credential_reference'', credential_ref c)]))),
     tk_server = ''connector'', tk_remote = uuid_str (ti_id c) @ '':'' @ en_capability e,
     tk_description = en_description e, tk_input = en_input_schema e, tk_output = en_output_schema e,
     tk_effect = en_side_effect e,
     tk_decision = (if en_side_effect e = ReadEffect then Allow else RequireApproval),
     tk_reason = (if en_side_effect e = ReadEffect then ''Standard connector read capability''
       else ''Standard connector side effect requires approval'')\<rparr>"

text \<open>\<open>public_name.partition(".")\<close>\<close>

definition partition_dot :: "string \<Rightarrow> (string \<times> string) option" where
  "partition_dot s = (let a = takeWhile (\<lambda>c. c \<noteq> CHR ''.'') s; b = dropWhile (\<lambda>c. c \<noteq> CHR ''.'') s
     in if b = [] then None else Some (a, tl b))"

record run_contracts =
  rn_allowed :: "string list"
  rn_aliases :: "(string \<times> string) list"
  rn_connectors :: "(string \<times> json) list"
  rn_browser :: "string option"

definition no_contracts :: run_contracts where
  "no_contracts = \<lparr>rn_allowed = [], rn_aliases = [], rn_connectors = [], rn_browser = None\<rparr>"

text \<open>What a tool of the manifest turns out to be for this run.\<close>

datatype tool_plan =
    Ungoverned
  | Unavailable
  | Governed tool_contract "json option" "string option"

record run_setting =
  st_browser :: bool
  st_urlsplit :: "string \<Rightarrow> url_parts"

definition plan_browser :: "run_setting \<Rightarrow> dict \<Rightarrow> string \<Rightarrow> tool_plan" where
  "plan_browser cfg settings public =
    (case map_of settings ''site_url'' of
       Some (JStr url) \<Rightarrow>
         let u = st_urlsplit cfg url
         in if \<not> st_browser cfg \<or> ur_scheme u \<noteq> ''https'' \<or> host_of u = [] \<or> given (ur_username u) \<or> given (ur_password u)
            then Unavailable
            else let origin = ur_scheme u @ ''://'' @ ur_netloc u in Governed (browser_contract public origin) None (Some origin)
     | _ \<Rightarrow> Unavailable)"

definition connector_entry :: "string \<Rightarrow> string \<Rightarrow> connector_manifest \<Rightarrow> connection_row \<Rightarrow> json" where
  "connector_entry key capability df c = JObj
    [(''binding_key'', JStr key), (''tenant_integration_id'', JStr (uuid_str (ti_id c))), (''definition_id'', JStr (cm_id df)),
     (''capability'', JStr capability), (''config_fingerprint'', JStr (config_fingerprint c)),
     (''credential_reference'', credential_ref c), (''definition'', connector_json df)]"

definition find_definition :: "string \<Rightarrow> market \<Rightarrow> definition_row option" where
  "find_definition i m = find (\<lambda>d. df_id d = i) (integration_definitions m)"

definition plan_connector ::
    "uuid \<Rightarrow> market \<Rightarrow> agent_binding list \<Rightarrow> string \<Rightarrow> string \<Rightarrow> string \<Rightarrow> tool_plan" where
  "plan_connector ws m bs public key capability =
    (case bound_to bs key of
       None \<Rightarrow> Unavailable
     | Some b \<Rightarrow>
       if ab_status b \<noteq> IConnected then Unavailable
       else case find (\<lambda>c. ti_workspace c = ws \<and> ti_id c = ab_connection b) (connections m) of
         None \<Rightarrow> Unavailable
       | Some c \<Rightarrow>
         (case find_definition (ti_definition c) m of
            None \<Rightarrow> Unavailable
          | Some d \<Rightarrow>
            if ti_definition c \<noteq> key \<or> ti_status c \<noteq> IConnected then Unavailable
            else case endpoint_for (df_manifest d) capability of
              None \<Rightarrow> Unavailable
            | Some e \<Rightarrow> Governed (connector_contract public (df_manifest d) e c)
                (Some (connector_entry key capability (df_manifest d) c)) None))"

definition plan_tool ::
    "run_setting \<Rightarrow> uuid \<Rightarrow> market \<Rightarrow> agent_manifest \<Rightarrow> agent_binding list \<Rightarrow> dict \<Rightarrow> string \<Rightarrow> tool_plan" where
  "plan_tool cfg ws m mf bs settings public =
    (if public \<in> {''nexora.tasks.create'', ''nexora.tasks.verify''} then Governed (task_contract public) None None
     else if public \<in> {''browser.page.inspect'', ''browser.page.action''} then plan_browser cfg settings public
     else case partition_dot public of
       None \<Rightarrow> Ungoverned
     | Some (key, capability) \<Rightarrow>
       if key \<notin> set (mf_required_integrations mf) \<union> set (mf_optional_integrations mf) then Ungoverned
       else plan_connector ws m bs public key capability)"

definition allow_tool :: "string \<Rightarrow> run_contracts \<Rightarrow> run_contracts" where
  "allow_tool public rc = rc\<lparr>rn_allowed := rn_allowed rc @ [public]\<rparr>"

definition govern_tool :: "string \<Rightarrow> tool_contract \<Rightarrow> json option \<Rightarrow> string option \<Rightarrow> run_contracts \<Rightarrow> run_contracts" where
  "govern_tool public c entry origin rc =
    \<lparr>rn_allowed = rn_allowed rc @ [public], rn_aliases = rn_aliases rc @ [(public, tk_name c)],
     rn_connectors = rn_connectors rc @ (case entry of None \<Rightarrow> [] | Some e \<Rightarrow> [(public, e)]),
     rn_browser = (case origin of None \<Rightarrow> rn_browser rc | Some o' \<Rightarrow> Some o')\<rparr>"

definition add_tool ::
    "txenv \<Rightarrow> nat \<Rightarrow> run_setting \<Rightarrow> principal \<Rightarrow> uuid \<Rightarrow> market \<Rightarrow> agent_manifest \<Rightarrow> agent_binding list \<Rightarrow> dict \<Rightarrow> string \<Rightarrow>
     run_contracts \<Rightarrow> db \<Rightarrow> (run_contracts \<times> db) res" where
  "add_tool env k cfg pr ws m mf bs settings public rc s =
    (let required = public \<in> set (mf_required_tools mf)
     in case plan_tool cfg ws m mf bs settings public of
          Ungoverned \<Rightarrow> Inr (allow_tool public rc, s)
        | Unavailable \<Rightarrow> if required then Inl (HTTPException 409) else Inr (rc, s)
        | Governed c entry origin \<Rightarrow>
            bind_res (register_tool env k pr ws required c s) (\<lambda>(usable, s1).
              Inr (if usable then govern_tool public c entry origin rc else rc, s1)))"

fun add_tools ::
    "txenv \<Rightarrow> nat \<Rightarrow> run_setting \<Rightarrow> principal \<Rightarrow> uuid \<Rightarrow> market \<Rightarrow> agent_manifest \<Rightarrow> agent_binding list \<Rightarrow> dict \<Rightarrow> string list \<Rightarrow>
     run_contracts \<Rightarrow> db \<Rightarrow> (run_contracts \<times> db) res" where
  "add_tools env k cfg pr ws m mf bs settings [] rc s = Inr (rc, s)"
| "add_tools env k cfg pr ws m mf bs settings (t # ts) rc s =
    bind_res (add_tool env k cfg pr ws m mf bs settings t rc s) (\<lambda>(rc1, s1).
      add_tools env (Suc k) cfg pr ws m mf bs settings ts rc1 s1)"

definition run_contracts_of ::
    "txenv \<Rightarrow> nat \<Rightarrow> run_setting \<Rightarrow> principal \<Rightarrow> uuid \<Rightarrow> market \<Rightarrow> agent_manifest \<Rightarrow> agent_binding list \<Rightarrow> dict \<Rightarrow>
     db \<Rightarrow> (run_contracts \<times> db) res" where
  "run_contracts_of env k cfg pr ws m mf bs settings s =
    add_tools env k cfg pr ws m mf bs settings (mf_required_tools mf @ mf_optional_tools mf) no_contracts s"

section \<open>Creating the run\<close>

definition tenant_fingerprint :: "uuid \<Rightarrow> string \<Rightarrow> string" where
  "tenant_fingerprint agent inp = sha256_hex (dumps_ascii
     (JObj [(''tenant_agent_id'', JStr (uuid_str agent)), (''input'', JStr inp)]))"

fun integration_status_str :: "integration_status \<Rightarrow> string" where
  "integration_status_str IPending = ''pending''"
| "integration_status_str IConnected = ''connected''"
| "integration_status_str IExpired = ''expired''"
| "integration_status_str IRevoked = ''revoked''"
| "integration_status_str IError = ''error''"
| "integration_status_str IDisabled = ''disabled''"

definition run_snapshot :: "instance_row \<Rightarrow> agent_manifest \<Rightarrow> agent_binding list \<Rightarrow> run_contracts \<Rightarrow> json" where
  "run_snapshot row mf bs rc =
    (let t = ir_agent row in JObj
      [(''kind'', JStr ''standard''), (''tenant_agent_id'', JStr (uuid_str (ta_id t))),
       (''catalog_agent_id'', JStr (uuid_str (ta_catalog t))), (''version_id'', JStr (uuid_str (ta_version t))),
       (''version'', JStr (ir_version row)),
       (''instructions'', JStr (if given (ta_instructions t) then the (ta_instructions t) else mf_instructions mf)),
       (''model_profile'', JStr (mo_primary (mf_model_policy mf))), (''settings'', JObj (ta_settings t)),
       (''allowed_tools'', json_strs (rn_allowed rc)),
       (''tool_aliases'', JObj (map (\<lambda>(a, b). (a, JStr b)) (rn_aliases rc))),
       (''connector_tools'', JObj (rn_connectors rc)),
       (''browser'', case rn_browser rc of None \<Rightarrow> JNull | Some o' \<Rightarrow> JObj [(''allowed_origin'', JStr o')]),
       (''manifest'', manifest_json mf),
       (''bindings'', JObj (map (\<lambda>b. (ab_key b, JObj [(''tenant_integration_id'', JStr (uuid_str (ab_connection b))),
          (''status'', JStr (integration_status_str (ab_status b)))])) bs))])"

definition new_tenant_run ::
    "txenv \<Rightarrow> principal \<Rightarrow> uuid \<Rightarrow> uuid \<Rightarrow> json \<Rightarrow> string \<Rightarrow> string \<Rightarrow> run_row" where
  "new_tenant_run env pr ws agent snapshot inp key =
    \<lparr>r_id = tx_uuid env 0, r_workspace = ws, r_agent = None, r_tenant_agent = Some agent,
     r_snapshot = Some snapshot, r_issuer = issuer pr, r_subject = subject pr, r_input = inp,
     r_request_hash = tenant_fingerprint agent inp, r_idempotency_key = key,
     r_trace = tx_uuid env 1, r_status = Queued, r_attempt = 0, r_cancel_requested = None,
     r_lease_owner = None, r_lease_expires = None, r_finished = None, r_failure = None,
     r_created = tx_now env, r_updated = tx_now env\<rparr>"

definition first_task :: "txenv \<Rightarrow> run_row \<Rightarrow> task_row" where
  "first_task env r =
    \<lparr>k_id = r_id r, k_workspace = r_workspace r, k_run = r_id r, k_parent = None, k_kind = GoalTask,
     k_title = ''Run goal'', k_description = take 2000 (r_input r), k_status = TPlanned, k_action_tool = None,
     k_verification = NotRequired, k_idempotency_key = ''goal:'' @ uuid_str (r_id r),
     k_request_hash = r_request_hash r, k_created = tx_now env, k_updated = tx_now env, k_completed = None\<rparr>"

definition tenant_job :: "txenv \<Rightarrow> run_row \<Rightarrow> uuid \<Rightarrow> outbox_row" where
  "tenant_job env r agent =
    \<lparr>o_id = tx_uuid env 3, o_workspace = r_workspace r, o_run = r_id r, o_topic = run_topic,
     o_payload = \<lparr>p_run = r_id r, p_workspace = r_workspace r, p_agent = agent,
                  p_trace = r_trace r, p_kind = Some Standard\<rparr>,
     o_attempts = 0, o_available = tx_now env, o_published = None, o_dead = None, o_error = None,
     o_created = tx_now env\<rparr>"

text \<open>The four inserts that queue a run.\<close>

definition queue_tenant_run :: "txenv \<Rightarrow> run_row \<Rightarrow> uuid \<Rightarrow> string \<Rightarrow> db \<Rightarrow> db res" where
  "queue_tenant_run env r agent req s =
    bind_res (insert_run r s) (\<lambda>s1.
    bind_res (insert_task (first_task env r) s1) (\<lambda>s2.
    bind_res (insert_first_event env (r_workspace r) (r_id r) ''run.queued''
        [(''request_id'', JStr req), (''agent_kind'', JStr ''standard'')] s2) (\<lambda>s3.
      insert_outbox (tenant_job env r agent) s3)))"

definition create_tenant_run ::
    "txenv \<Rightarrow> run_setting \<Rightarrow> principal \<Rightarrow> uuid \<Rightarrow> uuid \<Rightarrow> string \<Rightarrow> string \<Rightarrow> string \<Rightarrow> store \<Rightarrow>
     ((run_view \<times> bool) \<times> store) res" where
  "create_tenant_run env cfg pr ws agent inp key req st =
    (let m = fst st; s = snd st in
     bind_res (scoped pr ws RunAgents s) (\<lambda>_.
     bind_res (agent_row_of ws agent st) (\<lambda>row.
     let t = ir_agent row; bs = agent_bindings ws agent m in
     bind_res (manifest_of (ta_version t) m) (\<lambda>mf.
     if ta_status t \<noteq> Active \<or> \<not> rd_ready (readiness mf bs) then Inl (HTTPException 409)
     else bind_res (run_contracts_of env 10 cfg pr ws m mf bs (ta_settings t) s) (\<lambda>(rc, s1).
       case find (same_request pr ws key) (agent_runs s1) of
         Some old \<Rightarrow>
           if r_request_hash old \<noteq> tenant_fingerprint agent inp \<or> r_tenant_agent old = None
           then Inl (HTTPException 409)
           else Inr ((view_run old, False), (m, s1))
       | None \<Rightarrow>
           let r = new_tenant_run env pr ws agent (run_snapshot row mf bs rc) inp key in
           bind_res (queue_tenant_run env r agent req s1) (\<lambda>s2.
             Inr ((view_run r, True), (m, audit pr ws ''tenant_agent_run.created'' req None s2))))))))"

end
