(* ===== verification/Tenant_Safety.thy ===== *)
theory Tenant_Safety
  imports Tenant_Runs Catalog_Safety System
begin

text \<open>
  What the transactions of the standard agents keep: of the run database they write the instances, the
  governed tools and the runs they queue, of the market the bindings, the version history, the forks and
  the update policies. Instances are never erased, the version history only grows, and every pin names a
  release of the instance's own agent.
\<close>

section \<open>Frames\<close>

definition market_frame :: "market \<Rightarrow> market \<Rightarrow> bool" where
  "market_frame m m' \<longleftrightarrow> (\<exists>bs es fs ps. m' = m\<lparr>bindings := bs, version_events := version_events m @ es,
     forks := forks m @ fs, update_policies := ps\<rparr>)"

lemma market_frame_refl: "market_frame m m"
proof -
  have "m = m\<lparr>bindings := bindings m, version_events := version_events m @ [], forks := forks m @ [],
    update_policies := update_policies m\<rparr>" by simp
  then show ?thesis unfolding market_frame_def by blast
qed

lemma market_frame_trans:
  assumes "market_frame m n" "market_frame n k"
  shows "market_frame m k"
proof -
  obtain b1 e1 f1 p1 where n: "n = m\<lparr>bindings := b1, version_events := version_events m @ e1,
     forks := forks m @ f1, update_policies := p1\<rparr>" using assms(1) by (auto simp: market_frame_def)
  obtain b2 e2 f2 p2 where k: "k = n\<lparr>bindings := b2, version_events := version_events n @ e2,
     forks := forks n @ f2, update_policies := p2\<rparr>" using assms(2) by (auto simp: market_frame_def)
  have "k = m\<lparr>bindings := b2, version_events := version_events m @ (e1 @ e2), forks := forks m @ (f1 @ f2),
     update_policies := p2\<rparr>" by (simp add: k n)
  then show ?thesis unfolding market_frame_def by blast
qed

lemma market_frame_tables:
  assumes "market_frame m m'"
  shows "catalog_agents m' = catalog_agents m" "catalog_versions m' = catalog_versions m" "rollouts m' = rollouts m"
    "platform_events m' = platform_events m" "connections m' = connections m" "entitlements m' = entitlements m"
    "integration_definitions m' = integration_definitions m" "extends (=) (version_events m) (version_events m')"
    "extends (=) (forks m) (forks m')"
  using assms by (auto simp: market_frame_def intro!: journal.extends_append[OF journal.extends_refl])

lemma market_frame_catalogue:
  assumes "market_frame m m'"
  shows "catalogue_ok m' = catalogue_ok m" "version_row i m' = version_row i m"
    "find_catalog_id i m' = find_catalog_id i m" "joined_row m' t = joined_row m t" "manifest_of i m' = manifest_of i m"
  using market_frame_tables[OF assms] catalogue_cong[of m' m]
  by (simp_all add: version_row_def find_catalog_id_def joined_row_def manifest_of_def)

text \<open>The run database: what an administrative transaction may write.\<close>

definition admin_frame :: "db \<Rightarrow> db \<Rightarrow> bool" where
  "admin_frame s s' \<longleftrightarrow> (\<exists>ts as tds tps xs. s' = s\<lparr>tenant_agents := ts, agent_definitions := as,
     tool_definitions := tds, tool_policies := tps, security_events := security_events s @ xs\<rparr>)"

lemma admin_frameI: "s' = s\<lparr>tenant_agents := ts, agent_definitions := as,
     tool_definitions := tds, tool_policies := tps, security_events := security_events s @ xs\<rparr> \<Longrightarrow> admin_frame s s'"
  unfolding admin_frame_def by blast

lemma admin_frame_refl: "admin_frame s s"
  by (rule admin_frameI[where ts = "tenant_agents s" and as = "agent_definitions s" and tds = "tool_definitions s"
        and tps = "tool_policies s" and xs = "[]"]) simp

lemma admin_frame_trans:
  assumes "admin_frame s t" "admin_frame t u"
  shows "admin_frame s u"
proof -
  obtain t1 a1 d1 p1 x1 where t: "t = s\<lparr>tenant_agents := t1, agent_definitions := a1,
     tool_definitions := d1, tool_policies := p1, security_events := security_events s @ x1\<rparr>"
    using assms(1) by (auto simp: admin_frame_def)
  obtain t2 a2 d2 p2 x2 where u: "u = t\<lparr>tenant_agents := t2, agent_definitions := a2,
     tool_definitions := d2, tool_policies := p2, security_events := security_events t @ x2\<rparr>"
    using assms(2) by (auto simp: admin_frame_def)
  show ?thesis by (rule admin_frameI[where xs = "x1 @ x2"]) (simp add: u t)
qed

lemma admin_frame_audit: "admin_frame s (audit pr ws a req x s)"
  unfolding admin_frame_def audit_def
  by (intro exI) (rule db.equality; simp)

lemma admin_frame_committed:
  assumes inv: "sys_inv s" and f: "admin_frame s s'"
  shows "committed s s'"
proof -
  obtain ts as tds tps xs where s': "s' = s\<lparr>tenant_agents := ts, agent_definitions := as,
     tool_definitions := tds, tool_policies := tps, security_events := security_events s @ xs\<rparr>"
    using f by (auto simp: admin_frame_def)
  show ?thesis
    using sys_invD(3,4)[OF inv] ledger_cong[of s' s] workspaces_wf_cong[of s' s]
    by (intro committed_admin[OF inv]) (simp_all add: s' grows_def)
qed

text \<open>The instances.\<close>

definition same_instance :: "tenant_agent_row \<Rightarrow> tenant_agent_row \<Rightarrow> bool" where
  "same_instance t u \<longleftrightarrow> ta_id u = ta_id t \<and> ta_workspace u = ta_workspace t \<and> ta_catalog u = ta_catalog t \<and>
     ta_created u = ta_created t"

interpretation instances: row_order same_instance
  by unfold_locales (simp_all add: same_instance_def)

definition instances_ok :: "db \<Rightarrow> bool" where
  "instances_ok s \<longleftrightarrow> list_all instance_check (tenant_agents s) \<and> distinct (map ta_id (tenant_agents s)) \<and>
     named (tenant_agents s)"

definition tenant_frame :: "store \<Rightarrow> store \<Rightarrow> bool" where
  "tenant_frame st st' \<longleftrightarrow> market_frame (fst st) (fst st') \<and> admin_frame (snd st) (snd st') \<and>
     extends same_instance (tenant_agents (snd st)) (tenant_agents (snd st')) \<and>
     (instances_ok (snd st) \<longrightarrow> instances_ok (snd st'))"

lemma tenant_frame_refl: "tenant_frame st st"
  by (simp add: tenant_frame_def market_frame_refl admin_frame_refl instances.extends_refl)

lemma tenant_frame_trans:
  assumes "tenant_frame st su" "tenant_frame su sv"
  shows "tenant_frame st sv"
  using assms market_frame_trans admin_frame_trans instances.extends_trans unfolding tenant_frame_def by blast

lemma tenant_frame_market: "market_frame m m' \<Longrightarrow> tenant_frame (m, s) (m', s)"
  by (simp add: tenant_frame_def admin_frame_refl instances.extends_refl)

lemma tenant_frame_db:
  assumes "admin_frame s s'" and "tenant_agents s' = tenant_agents s"
  shows "tenant_frame (m, s) (m, s')"
  using assms by (simp add: tenant_frame_def market_frame_refl instances.extends_refl instances_ok_def)

lemma tenant_frame_audit: "tenant_frame (m, s) (m, audit pr ws a req x s)"
  by (rule tenant_frame_db[OF admin_frame_audit]) (simp add: audit_def)

section \<open>The steps of a transaction\<close>

lemma write_instances_Inr:
  "write_instances ts s = Inr s' \<longleftrightarrow> s' = s\<lparr>tenant_agents := ts\<rparr> \<and> list_all instance_check ts \<and>
     distinct (map ta_id ts) \<and> named ts"
  by (auto simp: write_instances_def)

lemma write_instances_frame:
  assumes "write_instances ts s = Inr s'" and "extends same_instance (tenant_agents s) ts"
  shows "tenant_frame (m, s) (m, s')"
proof -
  have s': "s' = s\<lparr>tenant_agents := ts\<rparr>" and ok: "instances_ok s'"
    using assms(1) by (simp_all add: write_instances_Inr instances_ok_def)
  have "admin_frame s s'" unfolding s'
    by (rule admin_frameI[where as = "agent_definitions s" and tds = "tool_definitions s" and tps = "tool_policies s"
          and xs = "[]"]) simp
  then show ?thesis using assms(2) ok by (simp add: tenant_frame_def market_frame_refl s')
qed

lemma update_instance_frame:
  assumes "update_instance ws i f s = Inr s'" and "\<And>t. same_instance t (f t)"
  shows "tenant_frame (m, s) (m, s')"
  using assms unfolding update_instance_def by (intro write_instances_frame) (auto intro: instances.extends_update)

lemma kept_identity: "same_instance t (settled env b t)" "same_instance t (repinned env v t)"
  "same_instance t (reconfigure env u t)" "same_instance t (retired env t)"
  by (simp_all add: same_instance_def settled_def repinned_def reconfigure_def retired_def)

lemma settle_status_frame:
  assumes "settle_status env ws i mf (m, s) = Inr st'"
  shows "tenant_frame (m, s) st' \<and> fst st' = m"
  using assms update_instance_frame[OF _ kept_identity(1)]
  by (auto simp: settle_status_def Let_def tenant_frame_refl split: option.splits if_splits)

lemma market_frameI:
  "m' = m\<lparr>bindings := bs, version_events := version_events m @ es, forks := forks m @ fs, update_policies := ps\<rparr> \<Longrightarrow>
     market_frame m m'"
  unfolding market_frame_def by blast

lemma bindings_frame: "market_frame m (m\<lparr>bindings := bs\<rparr>)"
  by (rule market_frameI[where es = "[]" and fs = "[]" and ps = "update_policies m"]) simp

lemma record_version_frame: "market_frame m (record_version env k pr ws i from to action req m)"
  unfolding record_version_def
  by (rule market_frameI[where bs = "bindings m" and fs = "[]" and ps = "update_policies m"]) simp

lemma write_binding_table:
  assumes "write_binding env k ws i mf key conn m = Inr m'"
  shows "\<exists>bs. m' = m\<lparr>bindings := bs\<rparr>"
  using assms unfolding write_binding_def by (auto simp: Let_def split: if_splits option.splits)

lemma write_bindings_table: "write_bindings env k ws i mf bs m = Inr m' \<Longrightarrow> \<exists>rows. m' = m\<lparr>bindings := rows\<rparr>"
proof (induction bs arbitrary: k m)
  case Nil
  then show ?case by (intro exI[of _ "bindings m"]) simp
next
  case (Cons b bs)
  obtain key conn where b: "b = (key, conn)" by (cases b)
  obtain m1 where 1: "write_binding env k ws i mf key conn m = Inr m1" "write_bindings env (Suc k) ws i mf bs m1 = Inr m'"
    using Cons.prems b by auto
  obtain r1 where "m1 = m\<lparr>bindings := r1\<rparr>" using write_binding_table[OF 1(1)] by blast
  moreover obtain r2 where "m' = m1\<lparr>bindings := r2\<rparr>" using Cons.IH[OF 1(2)] by blast
  ultimately show ?case by auto
qed

lemma repin_frame:
  assumes "repin env k pr ws i from to action req (m, s) = Inr st'"
  shows "tenant_frame (m, s) st'"
proof -
  obtain s1 where u: "update_instance ws i (repinned env to) s = Inr s1"
    and st': "st' = (record_version env k pr ws i (Some from) to action req m, s1)"
    using assms by (auto simp: repin_def)
  show ?thesis unfolding st'
    by (rule tenant_frame_trans[OF update_instance_frame[OF u kept_identity(2)] tenant_frame_market[OF record_version_frame]])
qed

lemma view_after_same: "view_after ws i st = Inr (v, st') \<Longrightarrow> st' = st"
  by (auto simp: view_after_def)

text \<open>The common end of a transaction: settle, audit, and answer with the instance.\<close>

lemma settled_answer:
  assumes "bind_res (settle_status env ws i mf st) (\<lambda>(m2, s2). view_after ws i (m2, audit pr ws a req x s2)) = Inr (v, st')"
  shows "tenant_frame st st' \<and> fst st' = fst st"
proof -
  obtain m s where st: "st = (m, s)" by (cases st)
  obtain m2 s2 where 1: "settle_status env ws i mf (m, s) = Inr (m2, s2)"
    "view_after ws i (m2, audit pr ws a req x s2) = Inr (v, st')" using assms st by auto
  note f = settle_status_frame[OF 1(1)]
  have "st' = (m2, audit pr ws a req x s2)" by (rule view_after_same[OF 1(2)])
  then show ?thesis using f tenant_frame_trans[OF _ tenant_frame_audit[of m2 s2 pr ws a req x]] st by auto
qed

section \<open>The transactions\<close>

lemma set_binding_frame:
  assumes "set_binding env pr ws i key conn req st = Inr (v, st')"
  shows "tenant_frame st st'"
proof -
  obtain mf m1 where w: "write_binding env 0 ws i mf key conn (fst st) = Inr m1"
    and e: "bind_res (settle_status env ws i mf (m1, snd st)) (\<lambda>(m2, s2).
      view_after ws i (m2, audit pr ws ''agent.binding_changed'' req None s2)) = Inr (v, st')"
    using assms unfolding set_binding_def by (simp only: bind_res_Inr) blast
  have "market_frame (fst st) m1" using write_binding_table[OF w] bindings_frame by auto
  then have "tenant_frame (fst st, snd st) (m1, snd st)" by (rule tenant_frame_market)
  then show ?thesis using settled_answer[OF e] tenant_frame_trans by simp
qed

lemma clear_binding_frame:
  assumes "clear_binding env pr ws i key req st = Inr (v, st')"
  shows "tenant_frame st st'"
proof -
  let ?m = "clear_bindings (\<lambda>b. bd_agent b = i \<and> bd_workspace b = ws \<and> bd_key b = key) (fst st)"
  obtain mf where e: "bind_res (settle_status env ws i mf (?m, snd st)) (\<lambda>(m2, s2).
      view_after ws i (m2, audit pr ws ''agent.binding_changed'' req None s2)) = Inr (v, st')"
    using assms unfolding clear_binding_def Let_def by (simp only: bind_res_Inr) blast
  have "tenant_frame (fst st, snd st) (?m, snd st)"
    unfolding clear_bindings_def by (rule tenant_frame_market[OF bindings_frame])
  then show ?thesis using settled_answer[OF e] tenant_frame_trans by simp
qed

lemma update_tenant_agent_frame:
  assumes "update_tenant_agent env pr ws i u req st = Inr (v, st')"
  shows "tenant_frame st st'"
proof -
  obtain s1 where w: "update_instance ws i (reconfigure env u) (snd st) = Inr s1"
    and e: "view_after ws i (fst st, audit pr ws ''agent.settings_changed'' req None s1) = Inr (v, st')"
    using assms unfolding update_tenant_agent_def by (auto split: if_splits)
  show ?thesis
    using tenant_frame_trans[OF update_instance_frame[OF w kept_identity(3), of "fst st"] tenant_frame_audit]
      view_after_same[OF e] by simp
qed

lemma uninstall_frame:
  assumes "uninstall env pr ws i req st = Inr (v, st')"
  shows "tenant_frame st st'"
proof -
  let ?m = "clear_bindings (\<lambda>b. bd_agent b = i \<and> bd_workspace b = ws) (fst st)"
  obtain s1 where w: "update_instance ws i (retired env) (snd st) = Inr s1"
    and st': "st' = (?m, audit pr ws ''agent.disabled'' req None s1)"
    using assms unfolding uninstall_def by auto
  have "tenant_frame (fst st, s1) (?m, s1)" unfolding clear_bindings_def by (rule tenant_frame_market[OF bindings_frame])
  with update_instance_frame[OF w kept_identity(4), of "fst st"] have "tenant_frame st (?m, s1)"
    using tenant_frame_trans by fastforce
  then show ?thesis using tenant_frame_trans[OF _ tenant_frame_audit] by (simp add: st')
qed

lemma installE:
  assumes "install env runtime pr ws body req st = Inr (v, st')"
  obtains agent version label mf s1 m1 where "entitled_agent ws (in_slug body) (fst st) = Inr agent"
    "offered_version (ca_id agent) ws (or_else (in_channel body) (policy_channel ws (fst st))) (fst st) = Some (version, label)"
    "manifest_of version (fst st) = Inr mf" "runs_on runtime mf = Inr ()"
    "write_instances (tenant_agents (snd st) @ [new_instance env ws body agent version
       (or_else (in_channel body) (policy_channel ws (fst st))) (fst st)]) (snd st) = Inr s1"
    "write_bindings env 1 ws (tx_uuid env 0) mf (in_bindings body) (fst st) = Inr m1"
    "bind_res (settle_status env ws (tx_uuid env 0) mf
       (record_version env (1 + length (in_bindings body)) pr ws (tx_uuid env 0) None version Installed req m1,
        audit_if (in_bindings body \<noteq> []) pr ws ''agent.binding_changed'' req s1))
       (\<lambda>(m2, s2). view_after ws (tx_uuid env 0) (m2, audit pr ws ''agent.installed'' req None s2)) = Inr (v, st')"
proof -
  have c: "conflict_409 r = Inr x \<longleftrightarrow> r = Inr x" for r :: "db res" and x
    by (auto simp: conflict_409_def split: sum.splits err.splits)
  let ?ch = "or_else (in_channel body) (policy_channel ws (fst st))"
  obtain agent where a: "entitled_agent ws (in_slug body) (fst st) = Inr agent"
    using assms unfolding install_def Let_def by (simp only: bind_res_Inr) blast
  show ?thesis
  proof (cases "offered_version (ca_id agent) ws ?ch (fst st)")
    case None
    then show ?thesis using assms a unfolding install_def Let_def by auto
  next
    case (Some x)
    obtain version label where x: "x = (version, label)" by (cases x)
    show ?thesis
      using assms a Some that[OF a Some[unfolded x]] unfolding install_def Let_def x
      by (simp add: c) blast
  qed
qed

lemma audit_if_frame: "tenant_frame (m, s) (m, audit_if b pr ws a req s)"
  by (simp add: audit_if_def tenant_frame_audit tenant_frame_refl)

lemma install_frame:
  assumes "install env runtime pr ws body req st = Inr (v, st')"
  shows "tenant_frame st st'"
  using assms
proof (rule installE)
  fix agent version label mf s1 m1
  let ?s2 = "audit_if (in_bindings body \<noteq> []) pr ws ''agent.binding_changed'' req s1"
  let ?m2 = "record_version env (1 + length (in_bindings body)) pr ws (tx_uuid env 0) None version Installed req m1"
  assume w: "write_instances (tenant_agents (snd st) @ [new_instance env ws body agent version
       (or_else (in_channel body) (policy_channel ws (fst st))) (fst st)]) (snd st) = Inr s1"
    and b: "write_bindings env 1 ws (tx_uuid env 0) mf (in_bindings body) (fst st) = Inr m1"
    and e: "bind_res (settle_status env ws (tx_uuid env 0) mf (?m2, ?s2))
       (\<lambda>(m2, s2). view_after ws (tx_uuid env 0) (m2, audit pr ws ''agent.installed'' req None s2)) = Inr (v, st')"
  have 1: "tenant_frame st (fst st, s1)"
    using write_instances_frame[OF w instances.extends_append[OF instances.extends_refl], of "fst st"] by simp
  have "market_frame (fst st) m1" using write_bindings_table[OF b] bindings_frame by auto
  then have "market_frame (fst st) ?m2" using record_version_frame market_frame_trans by blast
  then have 2: "tenant_frame (fst st, s1) (?m2, s1)" by (rule tenant_frame_market)
  note 3 = audit_if_frame[of ?m2 s1 "in_bindings body \<noteq> []" pr ws "''agent.binding_changed''" req]
  show "tenant_frame st st'"
    using tenant_frame_trans[OF tenant_frame_trans[OF tenant_frame_trans[OF 1 2] 3]] settled_answer[OF e] by blast
qed

text \<open>The two moves of one instance share their end.\<close>

lemma moved_answer:
  assumes "bind_res (repin env k pr ws i from to action req st) (\<lambda>st1.
      bind_res (settle_status env ws i mf st1) (\<lambda>(m2, s2). view_after ws i (m2, audit pr ws a req x s2))) = Inr (v, st')"
  shows "tenant_frame st st'"
proof -
  obtain st1 where r: "repin env k pr ws i from to action req st = Inr st1"
    and e: "bind_res (settle_status env ws i mf st1) (\<lambda>(m2, s2). view_after ws i (m2, audit pr ws a req x s2)) = Inr (v, st')"
    using assms by (simp only: bind_res_Inr) blast
  have "tenant_frame (fst st, snd st) st1" by (rule repin_frame) (use r in simp)
  then show ?thesis using settled_answer[OF e] tenant_frame_trans by simp
qed

lemma move_versionE:
  assumes "move_version env runtime pr ws i text req st = Inr (v, st')"
  obtains row where "agent_row_of ws i st = Inr row" "st' = st" "agent_view ws row (fst st) = Inr v"
    "move_target ws (ir_agent row) text (fst st) = Inr (ta_version (ir_agent row))"
  | row target mf where "agent_row_of ws i st = Inr row" "move_target ws (ir_agent row) text (fst st) = Inr target"
    "target \<noteq> ta_version (ir_agent row)" "manifest_of target (fst st) = Inr mf" "runs_on runtime mf = Inr ()"
    "bind_res (repin env 0 pr ws i (ta_version (ir_agent row)) target Updated req st) (\<lambda>st1.
      bind_res (settle_status env ws i mf st1) (\<lambda>(m2, s2).
        view_after ws i (m2, audit pr ws ''agent.updated'' req None s2))) = Inr (v, st')"
proof -
  obtain row target where r: "agent_row_of ws i st = Inr row" "move_target ws (ir_agent row) text (fst st) = Inr target"
    using assms unfolding move_version_def by auto
  obtain u where u: "scoped pr ws ManageAgents (snd st) = Inr u" using assms unfolding move_version_def by auto
  show ?thesis
  proof (cases "target = ta_version (ir_agent row)")
    case True
    note run = assms[unfolded move_version_def u r bind_res_simps if_P[OF True]]
    obtain w where w: "agent_view ws row (fst st) = Inr w" "st' = st" "v = w"
      using run unfolding bind_res_Inr by blast
    show ?thesis by (rule that(1)[OF r(1)]) (use w r(2) True in simp_all)
  next
    case False
    note run = assms[unfolded move_version_def u r bind_res_simps if_not_P[OF False]]
    show ?thesis
    proof (cases "manifest_of target (fst st)")
      case (Inr mf)
      note run = run[unfolded Inr bind_res_simps]
      show ?thesis
      proof (cases "runs_on runtime mf")
        case (Inr x)
        show ?thesis
          by (rule that(2)[OF r False \<open>manifest_of target (fst st) = Inr mf\<close>]) (use Inr run[unfolded Inr bind_res_simps] in simp_all)
      qed (use run in simp)
    qed (use run in simp)
  qed
qed

lemma move_version_frame:
  assumes "move_version env runtime pr ws i text req st = Inr (v, st')"
  shows "tenant_frame st st'"
  using assms
proof (rule move_versionE)
  assume "st' = st"
  then show ?thesis by (simp add: tenant_frame_refl)
qed (rule moved_answer)

lemma rollbackE:
  assumes "rollback env pr ws i req st = Inr (v, st')"
  obtains row e previous mf where "agent_row_of ws i st = Inr row" "last_move ws i (fst st) = Some e"
    "ve_from e = Some previous" "previous \<noteq> ta_version (ir_agent row)" "manifest_of previous (fst st) = Inr mf"
    "bind_res (repin env 0 pr ws i (ta_version (ir_agent row)) previous RolledBackTo req st) (\<lambda>st1.
      bind_res (settle_status env ws i mf st1) (\<lambda>(m2, s2).
        view_after ws i (m2, audit pr ws ''agent.rolled_back'' req None s2))) = Inr (v, st')"
proof -
  obtain row where r: "agent_row_of ws i st = Inr row" using assms unfolding rollback_def by auto
  show ?thesis
  proof (cases "Option.bind (last_move ws i (fst st)) ve_from")
    case None
    then show ?thesis using assms r unfolding rollback_def by auto
  next
    case (Some previous)
    then obtain e where e: "last_move ws i (fst st) = Some e" "ve_from e = Some previous" by (auto simp: bind_eq_Some_conv)
    show ?thesis
      using assms r that[OF r e] e unfolding rollback_def by (simp split: if_splits) blast
  qed
qed

lemma rollback_frame:
  assumes "rollback env pr ws i req st = Inr (v, st')"
  shows "tenant_frame st st'"
  using assms by (rule rollbackE) (rule moved_answer)

lemma fork_frame:
  assumes "fork env pr ws i body req st = Inr (v, st')"
  shows "tenant_frame st st'"
proof -
  obtain f a where st': "st' = ((fst st)\<lparr>forks := forks (fst st) @ [f]\<rparr>,
      audit pr ws ''agent.forked'' req None ((snd st)\<lparr>agent_definitions := agent_definitions (snd st) @ [a]\<rparr>))"
    using assms unfolding fork_def by (auto simp: Let_def split: if_splits)
  have m: "market_frame (fst st) ((fst st)\<lparr>forks := forks (fst st) @ [f]\<rparr>)"
    by (rule market_frameI[where bs = "bindings (fst st)" and es = "[]" and ps = "update_policies (fst st)"]) simp
  have "admin_frame (snd st) ((snd st)\<lparr>agent_definitions := agent_definitions (snd st) @ [a]\<rparr>)"
    by (rule admin_frameI[where ts = "tenant_agents (snd st)" and tds = "tool_definitions (snd st)"
          and tps = "tool_policies (snd st)" and xs = "[]"]) simp
  then have "tenant_frame (fst st, snd st) (fst st, (snd st)\<lparr>agent_definitions := agent_definitions (snd st) @ [a]\<rparr>)"
    by (rule tenant_frame_db) simp
  from tenant_frame_trans[OF tenant_frame_trans[OF this tenant_frame_market[OF m]] tenant_frame_audit]
  show ?thesis unfolding st' by (simp only: prod.collapse)
qed

lemma set_update_policy_frame:
  assumes "set_update_policy env pr ws ch mode req st = Inr (v, st')"
  shows "tenant_frame st st'"
proof -
  obtain ps where st': "st' = ((fst st)\<lparr>update_policies := ps\<rparr>, audit pr ws ''agent.update_policy_changed'' req None (snd st))"
    using assms unfolding set_update_policy_def Let_def by auto
  have m: "market_frame (fst st) ((fst st)\<lparr>update_policies := ps\<rparr>)"
    by (rule market_frameI[where bs = "bindings (fst st)" and es = "[]" and fs = "[]"]) simp
  show ?thesis
    using tenant_frame_trans[OF tenant_frame_market[OF m, of "snd st"] tenant_frame_audit] by (simp add: st')
qed

text \<open>Automatic updates.\<close>

lemma auto_updateE:
  assumes "auto_update env k runtime row st = Inr (moved, st')"
  obtains "moved = False" "st' = st"
  | target label mf action req st1 m2 s2 where "moved = True"
    "offered_version (ta_catalog (ir_agent row)) (ta_workspace (ir_agent row)) (ta_channel (ir_agent row)) (fst st) =
       Some (target, label)"
    "manifest_of target (fst st) = Inr mf"
    "repin env k update_scheduler (ta_workspace (ir_agent row)) (ta_id (ir_agent row)) (ta_version (ir_agent row)) target
       action req st = Inr st1"
    "settle_status env (ta_workspace (ir_agent row)) (ta_id (ir_agent row)) mf st1 = Inr (m2, s2)"
    "st' = (m2, audit update_scheduler (ta_workspace (ir_agent row)) ''agent.automatic_version_changed'' req None s2)"
proof (cases "offered_version (ta_catalog (ir_agent row)) (ta_workspace (ir_agent row)) (ta_channel (ir_agent row)) (fst st)")
  case None
  then show ?thesis using assms that(1) unfolding auto_update_def Let_def by simp
next
  case (Some x)
  obtain target label where x: "x = (target, label)" by (cases x)
  note run = assms[unfolded auto_update_def Let_def Some x option.case prod.case]
  show ?thesis
  proof (cases "target = ta_version (ir_agent row)")
    case True
    then show ?thesis using run that(1) by (simp only: if_True refl sum.inject prod.inject)
  next
    case False
    note run = run[unfolded if_not_P[OF False]]
    obtain mf v where 1: "manifest_of target (fst st) = Inr mf" "runtime_minimum mf = Inr v"
      using run by auto
    note run = run[unfolded 1 bind_res_simps]
    show ?thesis
    proof (cases "satisfies_minimum runtime v")
      case True
      then obtain action st1 y where 2: "move_action label (ir_version row) = Inr action"
        "repin env k update_scheduler (ta_workspace (ir_agent row)) (ta_id (ir_agent row)) (ta_version (ir_agent row)) target
           action (''automatic-agent-update:'' @ uuid_str (ta_id (ir_agent row)) @ '':'' @ uuid_str target) st = Inr st1"
        "settle_status env (ta_workspace (ir_agent row)) (ta_id (ir_agent row)) mf st1 = Inr y"
        using run by (simp only: not_True_eq_False if_False bind_res_Inr) blast
      obtain m2 s2 where y: "y = (m2, s2)" by (cases y)
      show ?thesis
        by (rule that(2)[OF _ Some[unfolded x] 1(1) 2(2) 2(3)[unfolded y]])
          (use run True in \<open>simp_all only: 2 y bind_res_simps prod.case not_True_eq_False if_False sum.inject prod.inject\<close>)
    next
      case False
      then show ?thesis using run that(1) by simp
    qed
  qed
qed

lemma auto_update_frame:
  assumes "auto_update env k runtime row st = Inr (moved, st')"
  shows "tenant_frame st st'"
  using assms
proof (rule auto_updateE)
  assume "st' = st"
  then show ?thesis by (simp add: tenant_frame_refl)
next
  fix target mf action req st1 m2 s2
  assume r: "repin env k update_scheduler (ta_workspace (ir_agent row)) (ta_id (ir_agent row)) (ta_version (ir_agent row))
      target action req st = Inr st1"
    and e: "settle_status env (ta_workspace (ir_agent row)) (ta_id (ir_agent row)) mf st1 = Inr (m2, s2)"
    and st': "st' = (m2, audit update_scheduler (ta_workspace (ir_agent row)) ''agent.automatic_version_changed'' req None s2)"
  have 1: "tenant_frame (fst st, snd st) st1" by (rule repin_frame) (use r in simp)
  have 2: "tenant_frame (fst st1, snd st1) (m2, s2)" using settle_status_frame[of env _ _ mf "fst st1" "snd st1"] e by simp
  show ?thesis
    using tenant_frame_trans[OF tenant_frame_trans[OF _ 2] tenant_frame_audit] 1 unfolding st' by simp
qed

lemma auto_updates_frame: "auto_updates env k runtime rows st = Inr (n, st') \<Longrightarrow> tenant_frame st st'"
proof (induction rows arbitrary: k st n)
  case Nil
  then show ?case by (simp add: tenant_frame_refl)
next
  case (Cons row rows)
  obtain moved st1 j where "auto_update env k runtime row st = Inr (moved, st1)"
    "auto_updates env (Suc k) runtime rows st1 = Inr (j, st')"
    using Cons.prems by auto
  then show ?case using auto_update_frame Cons.IH tenant_frame_trans by blast
qed

lemma apply_automatic_updates_frame:
  assumes "apply_automatic_updates env runtime locked limit c st = Inr (x, st')"
  shows "tenant_frame st st'"
  using assms unfolding apply_automatic_updates_def
  by (auto simp: Let_def split: if_splits dest: auto_updates_frame)

section \<open>Queueing a run\<close>

lemma register_tool_frame:
  assumes "register_tool env k pr ws required c s = Inr (b, s')"
  shows "admin_frame s s' \<and> tenant_agents s' = tenant_agents s"
proof -
  obtain s1 where i: "insert_tool (contract_row env k pr ws c) s = Inr s1"
    and s': "s' = s1 \<or> (\<exists>t. s' = insert_policy env pr c t s1)"
    using assms unfolding register_tool_def by (auto split: option.splits if_splits)
  have 1: "admin_frame s s1 \<and> tenant_agents s1 = tenant_agents s"
    using i unfolding insert_tool_def
    by (auto simp: admin_frame_refl split: if_splits
        intro!: admin_frameI[where ts = "tenant_agents s" and as = "agent_definitions s" and tps = "tool_policies s" and xs = "[]"])
  have 2: "admin_frame s1 (insert_policy env pr c t s1) \<and> tenant_agents (insert_policy env pr c t s1) = tenant_agents s1" for t
    unfolding insert_policy_def
    by (auto simp: admin_frame_refl
        intro!: admin_frameI[where ts = "tenant_agents s1" and as = "agent_definitions s1" and tds = "tool_definitions s1" and xs = "[]"])
  show ?thesis using s' 1 2 admin_frame_trans by metis
qed

lemma add_tool_frame:
  assumes "add_tool env k cfg pr ws m mf bs settings public rc s = Inr (rc', s')"
  shows "admin_frame s s' \<and> tenant_agents s' = tenant_agents s"
  using assms register_tool_frame unfolding add_tool_def
  by (auto simp: Let_def admin_frame_refl split: tool_plan.splits if_splits)

lemma add_tools_frame:
  "add_tools env k cfg pr ws m mf bs settings ts rc s = Inr (rc', s') \<Longrightarrow>
     admin_frame s s' \<and> tenant_agents s' = tenant_agents s"
proof (induction ts arbitrary: k rc s)
  case Nil
  then show ?case by (simp add: admin_frame_refl)
next
  case (Cons t ts)
  obtain rc1 s1 where 1: "add_tool env k cfg pr ws m mf bs settings t rc s = Inr (rc1, s1)"
    "add_tools env (Suc k) cfg pr ws m mf bs settings ts rc1 s1 = Inr (rc', s')"
    using Cons.prems by auto
  show ?case using add_tool_frame[OF 1(1)] Cons.IH[OF 1(2)] admin_frame_trans by metis
qed

text \<open>The four inserts, one after another.\<close>

lemma insert_run_committed:
  assumes inv: "sys_inv s" and ok: "insert_run r s = Inr s'"
  shows "committed s s'"
  by (rule run_committed[OF inv insert_run_safe[OF sys_invD(1)[OF inv] ok]
        governed_frame.V_insert_run[OF ok sys_invD(2)[OF inv]] rest_frame.V_insert_run[OF ok sys_invD(5)[OF inv]]])

lemma insert_first_event_committed:
  assumes inv: "sys_inv s" and ok: "insert_first_event env ws i ty p s = Inr s'"
  shows "committed s s'"
proof -
  have s': "s' = append_run_event env ws i ty p s"
    by (rule insert_first_event_append[OF run_invD(5)[OF sys_invD(1)[OF inv]] ok])
  show ?thesis
    by (rule committed_tasks[OF inv sys_invD(6)[OF inv] grows_refl, where ts = "run_tasks s" and ds = "task_dependencies s"
          and es = "task_evidence s" and env = env and ws = ws and i = i and ty = ty and p = p]) (use s' in simp_all)
qed

lemma insert_outbox_committed:
  assumes inv: "sys_inv s" and ok: "insert_outbox x s = Inr s'" and run: "find_run (o_run x) s = Some r"
  shows "committed s s'"
  by (rule run_committed[OF inv insert_outbox_safe[OF sys_invD(1)[OF inv] ok run]
        governed_frame.V_insert_outbox[OF ok sys_invD(2)[OF inv]] rest_frame.V_insert_outbox[OF ok sys_invD(5)[OF inv]]])

lemma queue_tenant_runE:
  assumes "queue_tenant_run env r agent req s = Inr s'"
  obtains s1 s2 s3 where "insert_run r s = Inr s1" "insert_task (first_task env r) s1 = Inr s2"
    "insert_first_event env (r_workspace r) (r_id r) ''run.queued''
       [(''request_id'', JStr req), (''agent_kind'', JStr ''standard'')] s2 = Inr s3"
    "insert_outbox (tenant_job env r agent) s3 = Inr s'"
  using assms unfolding queue_tenant_run_def by auto

lemma queued_run_found:
  assumes "insert_run r s = Inr s1" and "agent_runs t = agent_runs s1"
  shows "find_run (r_id r) t = Some r"
proof -
  have "find_run (r_id r) s = None"
    using assms(1) by (auto simp: find_run_def find_None_iff insert_run_Inr)
  then show ?thesis using assms by (auto simp: find_run_def find_append insert_run_Inr)
qed

lemma queue_tables:
  "insert_task k s = Inr s' \<Longrightarrow> s' = s\<lparr>run_tasks := run_tasks s @ [k]\<rparr>"
  "insert_first_event env ws i ty p s = Inr s' \<Longrightarrow> agent_runs s' = agent_runs s \<and> outbox s' = outbox s \<and>
     receipts s' = receipts s \<and> tenant_agents s' = tenant_agents s"
  by (auto simp: insert_task_def insert_first_event_def split: if_splits)

lemma queue_tenant_run_committed:
  assumes inv: "sys_inv s" and ok: "queue_tenant_run env r agent req s = Inr s'"
  shows "committed s s'"
  using ok
proof (rule queue_tenant_runE)
  fix s1 s2 s3
  assume 1: "insert_run r s = Inr s1" and 2: "insert_task (first_task env r) s1 = Inr s2"
    and 3: "insert_first_event env (r_workspace r) (r_id r) ''run.queued''
       [(''request_id'', JStr req), (''agent_kind'', JStr ''standard'')] s2 = Inr s3"
    and 4: "insert_outbox (tenant_job env r agent) s3 = Inr s'"
  have c1: "committed s s1" by (rule insert_run_committed[OF inv 1])
  then have i1: "sys_inv s1" by (simp add: committed_def)
  have c2: "committed s1 s2" by (rule goal_committed[OF i1 _ 2]) (simp add: first_task_def)
  then have i2: "sys_inv s2" by (simp add: committed_def)
  have c3: "committed s2 s3" by (rule insert_first_event_committed[OF i2 3])
  then have i3: "sys_inv s3" by (simp add: committed_def)
  have "agent_runs s3 = agent_runs s1" using queue_tables(1)[OF 2] queue_tables(2)[OF 3] by simp
  then have "find_run (o_run (tenant_job env r agent)) s3 = Some r"
    using queued_run_found[OF 1] by (simp add: tenant_job_def)
  then have "committed s3 s'" by (rule insert_outbox_committed[OF i3 4])
  with c1 c2 c3 show ?thesis using committed_trans by blast
qed

lemma queue_tenant_run_agents:
  assumes "queue_tenant_run env r agent req s = Inr s'"
  shows "tenant_agents s' = tenant_agents s"
  using assms
proof (rule queue_tenant_runE)
  fix s1 s2 s3
  assume "insert_run r s = Inr s1" "insert_task (first_task env r) s1 = Inr s2"
    "insert_first_event env (r_workspace r) (r_id r) ''run.queued''
       [(''request_id'', JStr req), (''agent_kind'', JStr ''standard'')] s2 = Inr s3"
    "insert_outbox (tenant_job env r agent) s3 = Inr s'"
  then show ?thesis
    by (auto simp: insert_run_Inr insert_outbox_def split: if_splits dest!: queue_tables)
qed

lemma create_tenant_runE:
  assumes "create_tenant_run env cfg pr ws agent inp key req st = Inr ((v, fresh), st')"
  obtains row mf rc s1 where "agent_row_of ws agent st = Inr row" "manifest_of (ta_version (ir_agent row)) (fst st) = Inr mf"
    "ta_status (ir_agent row) = Active" "rd_ready (readiness mf (agent_bindings ws agent (fst st)))"
    "run_contracts_of env 10 cfg pr ws (fst st) mf (agent_bindings ws agent (fst st)) (ta_settings (ir_agent row)) (snd st) = Inr (rc, s1)"
    "\<not> fresh \<and> st' = (fst st, s1) \<or>
     (fresh \<and> (\<exists>s2. queue_tenant_run env (new_tenant_run env pr ws agent
         (run_snapshot row mf (agent_bindings ws agent (fst st)) rc) inp key) agent req s1 = Inr s2 \<and>
       st' = (fst st, audit pr ws ''tenant_agent_run.created'' req None s2) \<and>
       v = view_run (new_tenant_run env pr ws agent (run_snapshot row mf (agent_bindings ws agent (fst st)) rc) inp key)))"
  using assms unfolding create_tenant_run_def
  by (auto simp: Let_def split: if_splits option.splits)

lemma create_tenant_run_committed:
  assumes inv: "sys_inv (snd st)" and ok: "create_tenant_run env cfg pr ws agent inp key req st = Inr ((v, fresh), st')"
  shows "committed (snd st) (snd st')" "fst st' = fst st" "tenant_agents (snd st') = tenant_agents (snd st)"
proof -
  from ok obtain row mf rc s1 where row: "agent_row_of ws agent st = Inr row" and c: "run_contracts_of env 10 cfg pr ws (fst st) mf (agent_bindings ws agent (fst st))
      (ta_settings (ir_agent row)) (snd st) = Inr (rc, s1)"
    and e: "st' = (fst st, s1) \<or> (\<exists>r s2. queue_tenant_run env r agent req s1 = Inr s2 \<and>
       st' = (fst st, audit pr ws ''tenant_agent_run.created'' req None s2))"
    by (rule create_tenant_runE) blast
  note f = add_tools_frame[OF c[unfolded run_contracts_of_def]]
  have c1: "committed (snd st) s1" using f by (intro admin_frame_committed[OF inv]) simp
  then have i1: "sys_inv s1" by (simp add: committed_def)
  have audited: "committed s2 (audit pr ws a req x s2)" if "sys_inv s2" for s2 a x
    by (rule admin_frame_committed[OF that admin_frame_audit])
  show "committed (snd st) (snd st')"
    using e
  proof (elim disjE exE conjE)
    fix r s2
    assume q: "queue_tenant_run env r agent req s1 = Inr s2"
      and st': "st' = (fst st, audit pr ws ''tenant_agent_run.created'' req None s2)"
    have c2: "committed s1 s2" by (rule queue_tenant_run_committed[OF i1 q])
    then have "sys_inv s2" by (simp add: committed_def)
    from committed_trans[OF committed_trans[OF c1 c2] audited[OF this]] show ?thesis unfolding st' by simp
  qed (use c1 in simp)
  show "fst st' = fst st" using e by auto
  show "tenant_agents (snd st') = tenant_agents (snd st)"
    using e f queue_tenant_run_agents by (auto simp: audit_def)
qed

end
