(* ===== verification/Platform.thy ===== *)
theory Platform
  imports Tenant_Safety Catalog_Offers
begin

text \<open>
  The platform as one transition relation on both halves of the database: the transactions of the runs, of
  the catalogue and of the standard agents, in any order. In every reachable state the invariants of both
  halves hold, every pin names a release of the instance's agent, and every binding joins an instance and
  a connection of the same workspace.
\<close>

section \<open>Pins and bindings\<close>

definition release_of :: "market \<Rightarrow> uuid \<Rightarrow> uuid \<Rightarrow> bool" where
  "release_of m agent i \<longleftrightarrow> (\<exists>v \<in> set (catalog_versions m). cv_id v = i \<and> cv_agent v = agent)"

definition pins_ok :: "market \<Rightarrow> db \<Rightarrow> bool" where
  "pins_ok m s \<longleftrightarrow> (\<forall>t \<in> set (tenant_agents s). release_of m (ta_catalog t) (ta_version t)) \<and>
     (\<forall>e \<in> set (version_events m). \<exists>t \<in> set (tenant_agents s). ta_id t = ve_agent e \<and> ta_workspace t = ve_workspace e \<and>
       release_of m (ta_catalog t) (ve_to e) \<and> (\<forall>i. ve_from e = Some i \<longrightarrow> release_of m (ta_catalog t) i))"

definition bound_within :: "market \<Rightarrow> db \<Rightarrow> binding_row \<Rightarrow> bool" where
  "bound_within m s b \<longleftrightarrow>
     (\<exists>c \<in> set (connections m). ti_id c = bd_connection b \<and> ti_workspace c = bd_workspace b \<and> ti_definition c = bd_key b) \<and>
     (\<exists>t \<in> set (tenant_agents s). ta_id t = bd_agent b \<and> ta_workspace t = bd_workspace b)"

definition placed :: "store \<Rightarrow> bool" where
  "placed st \<longleftrightarrow> instances_ok (snd st) \<and> pins_ok (fst st) (snd st) \<and> (\<forall>b \<in> set (bindings (fst st)). bound_within (fst st) (snd st) b)"

lemma release_of_cong: "catalog_versions m' = catalog_versions m \<Longrightarrow> release_of m' a i = release_of m a i"
  by (simp add: release_of_def)

lemma placed_db:
  assumes "placed (m, s)" "tenant_agents s' = tenant_agents s"
  shows "placed (m, s')"
  using assms by (simp add: placed_def instances_ok_def pins_ok_def bound_within_def)

lemma instance_unique:
  assumes "instances_ok s" "t \<in> set (tenant_agents s)" "u \<in> set (tenant_agents s)" "ta_id t = ta_id u"
  shows "t = u"
  using assms by (auto simp: instances_ok_def distinct_map dest: inj_onD)

lemma find_instanceD:
  assumes "find_instance ws i s = Some t"
  shows "t \<in> set (tenant_agents s)" "ta_id t = i" "ta_workspace t = ws"
  using find_SomeD[OF assms[unfolded find_instance_def]] by simp_all

lemma agent_row_ofD:
  assumes "agent_row_of ws i st = Inr row"
  shows "find_instance ws i (snd st) = Some (ir_agent row)" "joined_row (fst st) (ir_agent row) = Some row"
proof -
  obtain t where t: "find_instance ws i (snd st) = Some t" "joined_row (fst st) t = Some row"
    using assms unfolding agent_row_of_def by (cases "find_instance ws i (snd st)") (simp_all split: option.splits)
  moreover have "ir_agent row = t" using t(2) by (auto simp: joined_row_def split: option.splits)
  ultimately show "find_instance ws i (snd st) = Some (ir_agent row)" "joined_row (fst st) (ir_agent row) = Some row"
    by simp_all
qed

lemma placed_update:
  assumes pl: "placed (m, s)" and w: "update_instance ws i f s = Inr s'" and same: "\<And>t. same_instance t (f t)"
    and pin: "\<And>t. t \<in> set (tenant_agents s) \<Longrightarrow> ta_id t = i \<Longrightarrow> release_of m (ta_catalog t) (ta_version (f t))"
  shows "placed (m, s')"
proof -
  let ?ts = "sql_update (\<lambda>t. ta_id t = i \<and> ta_workspace t = ws) f (tenant_agents s)"
  have s': "s' = s\<lparr>tenant_agents := ?ts\<rparr>" and ok: "instances_ok s'"
    using w by (simp_all add: update_instance_def write_instances_Inr instances_ok_def)
  have ext: "extends same_instance (tenant_agents s) ?ts" by (rule instances.extends_update) (rule same)
  have kept: "\<exists>u \<in> set ?ts. same_instance t u" if "t \<in> set (tenant_agents s)" for t
    by (rule instances.extends_mem[OF ext that])
  have pins: "pins_ok m s" using pl by (simp add: placed_def)
  have "release_of m (ta_catalog u) (ta_version u)" if u: "u \<in> set ?ts" for u
  proof -
    obtain t where t: "t \<in> set (tenant_agents s)" "u = (if ta_id t = i \<and> ta_workspace t = ws then f t else t)"
      using u by (auto simp: set_sql_update)
    show ?thesis
    proof (cases "ta_id t = i \<and> ta_workspace t = ws")
      case True
      then show ?thesis using pin[OF t(1)] same[of t] t(2) by (simp add: same_instance_def)
    next
      case False
      then show ?thesis using t pins by (simp only: if_False pins_ok_def)
    qed
  qed
  moreover have "\<exists>u \<in> set ?ts. ta_id u = ve_agent e \<and> ta_workspace u = ve_workspace e \<and>
      release_of m (ta_catalog u) (ve_to e) \<and> (\<forall>i. ve_from e = Some i \<longrightarrow> release_of m (ta_catalog u) i)"
    if e: "e \<in> set (version_events m)" for e
  proof -
    obtain t where t: "t \<in> set (tenant_agents s)" "ta_id t = ve_agent e" "ta_workspace t = ve_workspace e"
      "release_of m (ta_catalog t) (ve_to e)" "\<forall>i. ve_from e = Some i \<longrightarrow> release_of m (ta_catalog t) i"
      using pins e unfolding pins_ok_def by blast
    show ?thesis using kept[OF t(1)] t(2-5) by (auto simp: same_instance_def)
  qed
  ultimately have "pins_ok m s'" by (simp add: pins_ok_def s')
  moreover have "bound_within m s' b" if b: "b \<in> set (bindings m)" for b
  proof -
    have B: "bound_within m s b" using pl b by (simp add: placed_def)
    obtain t where t: "t \<in> set (tenant_agents s)" "ta_id t = bd_agent b" "ta_workspace t = bd_workspace b"
      and c: "\<exists>c \<in> set (connections m). ti_id c = bd_connection b \<and> ti_workspace c = bd_workspace b \<and> ti_definition c = bd_key b"
      using B[unfolded bound_within_def] by blast
    show ?thesis using kept[OF t(1)] t(2,3) c by (auto simp: bound_within_def s' same_instance_def)
  qed
  ultimately show ?thesis using ok by (simp add: placed_def)
qed

lemma placed_event:
  assumes pl: "placed (m, s)" and t: "t \<in> set (tenant_agents s)" "ta_id t = i" "ta_workspace t = ws"
    and dest: "release_of m (ta_catalog t) to" and orig: "\<And>j. from = Some j \<Longrightarrow> release_of m (ta_catalog t) j"
  shows "placed (record_version env k pr ws i from to action req m, s)"
proof -
  let ?m = "record_version env k pr ws i from to action req m"
  have r: "release_of ?m a j = release_of m a j" for a j by (rule release_of_cong) (simp add: record_version_def)
  have "bound_within ?m s b = bound_within m s b" for b by (simp add: bound_within_def record_version_def)
  moreover have "pins_ok ?m s"
    using pl t dest orig unfolding pins_ok_def placed_def r by (auto simp: record_version_def)
  ultimately show ?thesis using pl by (simp add: placed_def) (simp add: record_version_def)
qed

lemma placed_settle:
  assumes pl: "placed (m, s)" and w: "settle_status env ws i mf (m, s) = Inr st'"
  shows "placed st'"
proof -
  have "st' = (m, s) \<or> (\<exists>b s1. update_instance ws i (settled env b) s = Inr s1 \<and> st' = (m, s1))"
    using w by (auto simp: settle_status_def Let_def split: option.splits if_splits)
  then show ?thesis
  proof (elim disjE exE conjE)
    fix b s1 assume u: "update_instance ws i (settled env b) s = Inr s1" "st' = (m, s1)"
    have "placed (m, s1)"
      by (rule placed_update[OF pl u(1) kept_identity(1)]) (use pl in \<open>simp add: placed_def pins_ok_def settled_def\<close>)
    then show ?thesis by (simp add: u(2))
  qed (use pl in simp)
qed

lemma placed_bindings:
  assumes "placed (m, s)" and "\<And>b. b \<in> set bs \<Longrightarrow> bound_within m s b"
  shows "placed (m\<lparr>bindings := bs\<rparr>, s)"
proof -
  have "bound_within (m\<lparr>bindings := bs\<rparr>) s b = bound_within m s b" for b by (simp add: bound_within_def)
  moreover have "pins_ok (m\<lparr>bindings := bs\<rparr>) s = pins_ok m s" by (simp add: pins_ok_def release_of_def)
  ultimately show ?thesis using assms by (simp add: placed_def)
qed

lemma placed_write_binding:
  assumes pl: "placed (m, s)" and w: "write_binding env k ws i mf key conn m = Inr m'"
    and t: "t \<in> set (tenant_agents s)" "ta_id t = i" "ta_workspace t = ws"
  shows "placed (m', s)"
proof -
  obtain c where c: "find (\<lambda>c. ti_id c = conn \<and> ti_workspace c = ws) (connections m) = Some c" "ti_definition c = key"
    using w unfolding write_binding_def by (auto simp: Let_def split: if_splits option.splits)
  have c': "c \<in> set (connections m)" "ti_id c = conn" "ti_workspace c = ws" using find_SomeD[OF c(1)] by simp_all
  have old: "bound_within m s b" if "b \<in> set (bindings m)" for b using pl that by (simp add: placed_def)
  have ws: "bd_workspace b = ws" if b: "b \<in> set (bindings m)" "bd_agent b = i" for b
  proof -
    obtain u where "u \<in> set (tenant_agents s)" "ta_id u = bd_agent b" "ta_workspace u = bd_workspace b"
      using old[OF b(1)] by (auto simp: bound_within_def)
    then show ?thesis using instance_unique[of s u t] pl t b(2) by (auto simp: placed_def)
  qed
  have new: "bound_within m s b" if "bd_workspace b = ws" "bd_agent b = i" "bd_key b = key" "bd_connection b = conn" for b
    using that c' c(2) t by (auto simp: bound_within_def)
  obtain bs where m': "m' = m\<lparr>bindings := bs\<rparr>" using write_binding_table[OF w] by blast
  have "bound_within m s b" if b: "b \<in> set bs" for b
  proof -
    consider "b \<in> set (bindings m)" | "bd_workspace b = ws" "bd_agent b = i" "bd_key b = key" "bd_connection b = conn"
      using w b ws unfolding write_binding_def m'
      by (auto simp: Let_def set_sql_update dest!: arg_cong[where f = bindings] split: if_splits option.splits)
    then show ?thesis using old new by cases
  qed
  then show ?thesis unfolding m' by (rule placed_bindings[OF pl])
qed

section \<open>The transactions keep them\<close>

lemma placed_answer:
  assumes "placed st" and "bind_res (settle_status env ws i mf st) (\<lambda>(m2, s2). view_after ws i (m2, audit pr ws a req x s2)) = Inr (v, st')"
  shows "placed st'"
proof -
  obtain m s where st: "st = (m, s)" by (cases st)
  obtain m2 s2 where 1: "settle_status env ws i mf (m, s) = Inr (m2, s2)"
    "view_after ws i (m2, audit pr ws a req x s2) = Inr (v, st')" using assms(2) st by auto
  have "placed (m2, s2)" by (rule placed_settle[OF _ 1(1)]) (use assms(1) st in simp)
  then have "placed (m2, audit pr ws a req x s2)" by (rule placed_db) (simp add: audit_def)
  then show ?thesis using view_after_same[OF 1(2)] by simp
qed

lemma placed_clear: "placed (m, s) \<Longrightarrow> placed (clear_bindings p m, s)"
  unfolding clear_bindings_def by (rule placed_bindings) (simp_all add: placed_def)

lemma placed_repin:
  assumes pl: "placed st" and t: "t \<in> set (tenant_agents (snd st))" "ta_id t = i" "ta_workspace t = ws"
    and dest: "release_of (fst st) (ta_catalog t) to" and orig: "release_of (fst st) (ta_catalog t) before"
    and w: "repin env k pr ws i before to action req st = Inr st'"
  shows "placed st'"
proof -
  obtain m s where st: "st = (m, s)" by (cases st)
  obtain s1 where u: "update_instance ws i (repinned env to) s = Inr s1"
    and st': "st' = (record_version env k pr ws i (Some before) to action req m, s1)"
    using w st by (auto simp: repin_def)
  have pl0: "placed (m, s)" and dest: "release_of m (ta_catalog t) to" and t: "t \<in> set (tenant_agents s)" "ta_id t = i" "ta_workspace t = ws"
    using pl dest t st by simp_all
  have inst: "instances_ok s" using pl0 by (simp add: placed_def)
  have pl1: "placed (m, s1)"
  proof (rule placed_update[OF pl0 u kept_identity(2)])
    fix y assume "y \<in> set (tenant_agents s)" "ta_id y = i"
    then have "y = t" using instance_unique[OF inst _ t(1)] t(2) by simp
    then show "release_of m (ta_catalog y) (ta_version (repinned env to y))" using dest by (simp add: repinned_def)
  qed
  have "tenant_agents s1 = sql_update (\<lambda>t. ta_id t = i \<and> ta_workspace t = ws) (repinned env to) (tenant_agents s)"
    using u by (simp add: update_instance_def write_instances_Inr)
  then have "repinned env to t \<in> set (tenant_agents s1)" using t by (auto simp: set_sql_update)
  then show ?thesis
    unfolding st' by (intro placed_event[OF pl1, of "repinned env to t"]) (use t dest orig st in \<open>auto simp: repinned_def\<close>)
qed

lemma placed_moved:
  assumes pl: "placed st" and row: "find_instance ws i (snd st) = Some t" and dest: "release_of (fst st) (ta_catalog t) to"
    and w: "bind_res (repin env k pr ws i (ta_version t) to action req st) (\<lambda>st1.
      bind_res (settle_status env ws i mf st1) (\<lambda>(m2, s2). view_after ws i (m2, audit pr ws a req x s2))) = Inr (v, st')"
  shows "placed st'"
proof -
  obtain st1 where r: "repin env k pr ws i (ta_version t) to action req st = Inr st1"
    and e: "bind_res (settle_status env ws i mf st1) (\<lambda>(m2, s2). view_after ws i (m2, audit pr ws a req x s2)) = Inr (v, st')"
    using w by (simp only: bind_res_Inr) blast
  note t = find_instanceD[OF row]
  have "release_of (fst st) (ta_catalog t) (ta_version t)" using pl t(1) by (simp add: placed_def pins_ok_def)
  from placed_repin[OF pl t dest this r] e show ?thesis by (rule placed_answer)
qed

lemma set_binding_placed:
  assumes pl: "placed st" and w: "set_binding env pr ws i key conn req st = Inr (v, st')"
  shows "placed st'"
proof -
  obtain row mf m1 where row: "agent_row_of ws i st = Inr row" and b: "write_binding env 0 ws i mf key conn (fst st) = Inr m1"
    and e: "bind_res (settle_status env ws i mf (m1, snd st)) (\<lambda>(m2, s2).
      view_after ws i (m2, audit pr ws ''agent.binding_changed'' req None s2)) = Inr (v, st')"
    using w unfolding set_binding_def by (simp only: bind_res_Inr) blast
  have "placed (m1, snd st)"
    by (rule placed_write_binding[OF _ b find_instanceD[OF agent_row_ofD(1)[OF row]]]) (use pl in simp)
  then show ?thesis using e by (rule placed_answer)
qed

lemma clear_binding_placed:
  assumes pl: "placed st" and w: "clear_binding env pr ws i key req st = Inr (v, st')"
  shows "placed st'"
proof -
  obtain mf where e: "bind_res (settle_status env ws i mf
      (clear_bindings (\<lambda>b. bd_agent b = i \<and> bd_workspace b = ws \<and> bd_key b = key) (fst st), snd st)) (\<lambda>(m2, s2).
      view_after ws i (m2, audit pr ws ''agent.binding_changed'' req None s2)) = Inr (v, st')"
    using w unfolding clear_binding_def Let_def by (simp only: bind_res_Inr) blast
  show ?thesis by (rule placed_answer[OF placed_clear e]) (use pl in simp)
qed

lemma placed_update_audit:
  assumes pl: "placed st" and w: "update_instance ws i f (snd st) = Inr s1"
    and f: "\<And>t. same_instance t (f t)" "\<And>t. ta_version (f t) = ta_version t"
  shows "placed (fst st, audit pr ws a req x s1)"
proof -
  have "placed (fst st, s1)"
    by (rule placed_update[OF _ w f(1)]) (use pl f(2) in \<open>simp_all add: placed_def pins_ok_def\<close>)
  then show ?thesis by (rule placed_db) (simp add: audit_def)
qed

lemma update_tenant_agent_placed:
  assumes pl: "placed st" and w: "update_tenant_agent env pr ws i u req st = Inr (v, st')"
  shows "placed st'"
proof -
  obtain s1 where u: "update_instance ws i (reconfigure env u) (snd st) = Inr s1"
    and e: "view_after ws i (fst st, audit pr ws ''agent.settings_changed'' req None s1) = Inr (v, st')"
    using w unfolding update_tenant_agent_def by (auto split: if_splits)
  show ?thesis
    unfolding view_after_same[OF e]
    by (rule placed_update_audit[OF pl u kept_identity(3)]) (simp add: reconfigure_def)
qed

lemma uninstall_placed:
  assumes pl: "placed st" and w: "uninstall env pr ws i req st = Inr (v, st')"
  shows "placed st'"
proof -
  obtain s1 where u: "update_instance ws i (retired env) (snd st) = Inr s1"
    and st': "st' = (clear_bindings (\<lambda>b. bd_agent b = i \<and> bd_workspace b = ws) (fst st), audit pr ws ''agent.disabled'' req None s1)"
    using w unfolding uninstall_def by auto
  show ?thesis
    unfolding st' by (rule placed_clear, rule placed_update_audit[OF pl u kept_identity(4)]) (simp add: retired_def)
qed

lemma move_target_release:
  assumes "catalogue_ok m" "move_target ws t text m = Inr i"
  shows "release_of m (ta_catalog t) i"
proof (cases "text")
  case None
  then obtain l where "offered_version (ta_catalog t) ws (ta_channel t) m = Some (i, l)"
    using assms(2) by (auto simp: move_target_def split: option.splits)
  then show ?thesis using offered_release[OF assms(1)] unfolding release_of_def by metis
next
  case (Some x)
  then obtain v where v: "version_by_number (ta_catalog t) x m = Inr v" "i = cv_id v"
    using assms(2) by (auto simp: move_target_def split: if_splits)
  then have "v \<in> set (catalog_versions m) \<and> cv_agent v = ta_catalog t"
    by (auto simp: version_by_number_def dest!: find_SomeD split: option.splits)
  then show ?thesis unfolding release_of_def v(2) by blast
qed

lemma move_version_placed:
  assumes pl: "placed st" and ok: "catalogue_ok (fst st)" and w: "move_version env runtime pr ws i text req st = Inr (v, st')"
  shows "placed st'"
  using w
proof (rule move_versionE)
  assume "st' = st"
  then show ?thesis using pl by simp
next
  fix row target mf
  assume row: "agent_row_of ws i st = Inr row" and t: "move_target ws (ir_agent row) text (fst st) = Inr target"
    and e: "bind_res (repin env 0 pr ws i (ta_version (ir_agent row)) target Updated req st) (\<lambda>st1.
      bind_res (settle_status env ws i mf st1) (\<lambda>(m2, s2).
        view_after ws i (m2, audit pr ws ''agent.updated'' req None s2))) = Inr (v, st')"
  show ?thesis by (rule placed_moved[OF pl agent_row_ofD(1)[OF row] move_target_release[OF ok t] e])
qed

lemma last_moveD:
  assumes "last_move ws i m = Some e"
  shows "e \<in> set (version_events m)" "ve_agent e = i" "ve_workspace e = ws"
proof -
  let ?l = "order_limit (\<lambda>e. (- ve_created e, - uint (ve_id e))) 1
    (\<lambda>e. ve_agent e = i \<and> ve_workspace e = ws \<and> ve_from e \<noteq> None) (version_events m)"
  have "e \<in> set ?l" using assms by (auto simp: last_move_def split: list.splits)
  note mem = order_limit_memD[OF this]
  then show "e \<in> set (version_events m)" "ve_agent e = i" "ve_workspace e = ws" by simp_all
qed

lemma rollback_placed:
  assumes pl: "placed st" and w: "rollback env pr ws i req st = Inr (v, st')"
  shows "placed st'"
  using w
proof (rule rollbackE)
  fix row e previous mf
  assume row: "agent_row_of ws i st = Inr row" and l: "last_move ws i (fst st) = Some e" and p: "ve_from e = Some previous"
    and run: "bind_res (repin env 0 pr ws i (ta_version (ir_agent row)) previous RolledBackTo req st) (\<lambda>st1.
      bind_res (settle_status env ws i mf st1) (\<lambda>(m2, s2).
        view_after ws i (m2, audit pr ws ''agent.rolled_back'' req None s2))) = Inr (v, st')"
  note t = find_instanceD[OF agent_row_ofD(1)[OF row]]
  note ev = last_moveD[OF l]
  obtain u where u: "u \<in> set (tenant_agents (snd st))" "ta_id u = i" "release_of (fst st) (ta_catalog u) previous"
    using pl ev p unfolding placed_def pins_ok_def by blast
  have "u = ir_agent row" using instance_unique[OF _ u(1) t(1)] pl u(2) t(2) by (simp add: placed_def)
  then have "release_of (fst st) (ta_catalog (ir_agent row)) previous" using u(3) by simp
  from placed_moved[OF pl agent_row_ofD(1)[OF row] this run] show ?thesis .
qed

lemma placed_append:
  assumes pl: "placed (m, s)" and w: "write_instances (tenant_agents s @ [t]) s = Inr s'"
    and dest: "release_of m (ta_catalog t) (ta_version t)"
  shows "placed (m, s')"
proof -
  have s': "s' = s\<lparr>tenant_agents := tenant_agents s @ [t]\<rparr>" and ok: "instances_ok s'"
    using w by (simp_all add: write_instances_Inr instances_ok_def)
  have "pins_ok m s'" using pl dest by (auto simp: placed_def pins_ok_def s')
  moreover have "bound_within m s' b" if "bound_within m s b" for b
    using that by (auto simp: bound_within_def s')
  ultimately show ?thesis using pl ok by (simp add: placed_def)
qed

lemma placed_write_bindings:
  "placed (m, s) \<Longrightarrow> write_bindings env k ws i mf bs m = Inr m' \<Longrightarrow> t \<in> set (tenant_agents s) \<Longrightarrow> ta_id t = i \<Longrightarrow>
     ta_workspace t = ws \<Longrightarrow> placed (m', s)"
proof (induction bs arbitrary: k m)
  case Nil
  then show ?case by simp
next
  case (Cons b bs)
  obtain key conn where b: "b = (key, conn)" by (cases b)
  obtain m1 where 1: "write_binding env k ws i mf key conn m = Inr m1" "write_bindings env (Suc k) ws i mf bs m1 = Inr m'"
    using Cons.prems(2) b by auto
  have "placed (m1, s)" by (rule placed_write_binding[OF Cons.prems(1) 1(1) Cons.prems(3-5)])
  then show ?case using Cons.IH[OF _ 1(2) Cons.prems(3-5)] by blast
qed

lemma install_placed:
  assumes pl: "placed st" and ok: "catalogue_ok (fst st)" and w: "install env runtime pr ws body req st = Inr (v, st')"
  shows "placed st'"
  using w
proof (rule installE)
  fix agent version label mf s1 m1
  let ?ch = "or_else (in_channel body) (policy_channel ws (fst st))"
  let ?t = "new_instance env ws body agent version ?ch (fst st)"
  let ?s2 = "audit_if (in_bindings body \<noteq> []) pr ws ''agent.binding_changed'' req s1"
  let ?m2 = "record_version env (1 + length (in_bindings body)) pr ws (tx_uuid env 0) None version Installed req m1"
  assume offer: "offered_version (ca_id agent) ws ?ch (fst st) = Some (version, label)"
    and wi: "write_instances (tenant_agents (snd st) @ [?t]) (snd st) = Inr s1"
    and b: "write_bindings env 1 ws (tx_uuid env 0) mf (in_bindings body) (fst st) = Inr m1"
    and e: "bind_res (settle_status env ws (tx_uuid env 0) mf (?m2, ?s2))
       (\<lambda>(m2, s2). view_after ws (tx_uuid env 0) (m2, audit pr ws ''agent.installed'' req None s2)) = Inr (v, st')"
  have t: "?t \<in> set (tenant_agents s1)" "ta_id ?t = tx_uuid env 0" "ta_workspace ?t = ws"
    using wi by (simp_all add: write_instances_Inr new_instance_def)
  have dest: "release_of (fst st) (ta_catalog ?t) (ta_version ?t)"
  proof -
    obtain w where "w \<in> set (catalog_versions (fst st))" "cv_agent w = ca_id agent" "cv_id w = version"
      by (rule offered_release[OF ok offer])
    then show ?thesis unfolding release_of_def by (intro bexI[of _ w]) (simp_all add: new_instance_def)
  qed
  have "placed (fst st, s1)" by (rule placed_append[OF _ wi dest]) (use pl in simp)
  then have 1: "placed (m1, s1)" using placed_write_bindings[OF _ b t] by blast
  have vs: "catalog_versions m1 = catalog_versions (fst st)" using write_bindings_table[OF b] by auto
  have "release_of m1 (ta_catalog ?t) version" using dest by (simp add: release_of_cong[OF vs] new_instance_def)
  then have "placed (?m2, s1)" by (intro placed_event[OF 1 t]) simp_all
  then have "placed (?m2, ?s2)" by (rule placed_db) (simp add: audit_if_def audit_def)
  then show "placed st'" using e by (rule placed_answer)
qed

lemma fork_placed:
  assumes pl: "placed st" and w: "fork env pr ws i body req st = Inr (v, st')"
  shows "placed st'"
proof -
  obtain f a where st': "st' = ((fst st)\<lparr>forks := forks (fst st) @ [f]\<rparr>,
      audit pr ws ''agent.forked'' req None ((snd st)\<lparr>agent_definitions := agent_definitions (snd st) @ [a]\<rparr>))"
    using w unfolding fork_def by (auto simp: Let_def split: if_splits)
  have "placed ((fst st)\<lparr>forks := forks (fst st) @ [f]\<rparr>, snd st)"
    using pl by (simp add: placed_def pins_ok_def bound_within_def release_of_def)
  then show ?thesis unfolding st' by (rule placed_db) (simp add: audit_def)
qed

lemma set_update_policy_placed:
  assumes pl: "placed st" and w: "set_update_policy env pr ws ch mode req st = Inr (v, st')"
  shows "placed st'"
proof -
  obtain ps where st': "st' = ((fst st)\<lparr>update_policies := ps\<rparr>, audit pr ws ''agent.update_policy_changed'' req None (snd st))"
    using w unfolding set_update_policy_def Let_def by auto
  have "placed ((fst st)\<lparr>update_policies := ps\<rparr>, snd st)"
    using pl by (simp add: placed_def pins_ok_def bound_within_def release_of_def)
  then show ?thesis unfolding st' by (rule placed_db) (simp add: audit_def)
qed

text \<open>
  The rows of a batch were read before the first of them moved; their instances and releases stay.
\<close>

definition known_row :: "store \<Rightarrow> instance_row \<Rightarrow> bool" where
  "known_row st row \<longleftrightarrow> (\<exists>t \<in> set (tenant_agents (snd st)). ta_id t = ta_id (ir_agent row) \<and>
     ta_workspace t = ta_workspace (ir_agent row) \<and> ta_catalog t = ta_catalog (ir_agent row)) \<and>
     release_of (fst st) (ta_catalog (ir_agent row)) (ta_version (ir_agent row))"

lemma known_row_frame:
  assumes "tenant_frame st st'" "known_row st row"
  shows "known_row st' row"
proof -
  obtain t where t: "t \<in> set (tenant_agents (snd st))" "ta_id t = ta_id (ir_agent row)"
    "ta_workspace t = ta_workspace (ir_agent row)" "ta_catalog t = ta_catalog (ir_agent row)"
    using assms(2) by (auto simp: known_row_def)
  have f: "market_frame (fst st) (fst st')" "extends same_instance (tenant_agents (snd st)) (tenant_agents (snd st'))"
    using assms(1) by (simp_all add: tenant_frame_def)
  obtain u where "u \<in> set (tenant_agents (snd st'))" "same_instance t u" using instances.extends_mem[OF f(2) t(1)] by blast
  then show ?thesis
    using t(2-4) assms(2) market_frame_tables(2)[OF f(1)] by (auto simp: known_row_def same_instance_def release_of_def)
qed

lemma auto_update_placed:
  assumes pl: "placed st" and ok: "catalogue_ok (fst st)" and known: "known_row st row"
    and w: "auto_update env k runtime row st = Inr (moved, st')"
  shows "placed st'"
  using w
proof (rule auto_updateE)
  assume "st' = st"
  then show ?thesis using pl by simp
next
  fix target label mf action req st1 m2 s2
  assume offer: "offered_version (ta_catalog (ir_agent row)) (ta_workspace (ir_agent row)) (ta_channel (ir_agent row)) (fst st) =
       Some (target, label)"
    and r: "repin env k update_scheduler (ta_workspace (ir_agent row)) (ta_id (ir_agent row)) (ta_version (ir_agent row)) target
       action req st = Inr st1"
    and e: "settle_status env (ta_workspace (ir_agent row)) (ta_id (ir_agent row)) mf st1 = Inr (m2, s2)"
    and st': "st' = (m2, audit update_scheduler (ta_workspace (ir_agent row)) ''agent.automatic_version_changed'' req None s2)"
  obtain t where t: "t \<in> set (tenant_agents (snd st))" "ta_id t = ta_id (ir_agent row)"
    "ta_workspace t = ta_workspace (ir_agent row)" "ta_catalog t = ta_catalog (ir_agent row)"
    and orig: "release_of (fst st) (ta_catalog t) (ta_version (ir_agent row))"
    using known by (auto simp: known_row_def)
  obtain w where "w \<in> set (catalog_versions (fst st))" "cv_agent w = ta_catalog t" "cv_id w = target"
    using offered_release[OF ok offer] t(4) by metis
  then have "release_of (fst st) (ta_catalog t) target" by (auto simp: release_of_def)
  then have "placed st1" by (rule placed_repin[OF pl t(1-3) _ orig r])
  then have "placed (m2, s2)" using placed_settle[of "fst st1" "snd st1"] e by simp
  then show ?thesis unfolding st' by (rule placed_db) (simp add: audit_def)
qed

lemma frame_catalogue: "tenant_frame st st' \<Longrightarrow> catalogue_ok (fst st) \<Longrightarrow> catalogue_ok (fst st')"
  using market_frame_catalogue(1) by (auto simp: tenant_frame_def)

lemma auto_updates_placed:
  "auto_updates env k runtime rows st = Inr (n, st') \<Longrightarrow> placed st \<Longrightarrow> catalogue_ok (fst st) \<Longrightarrow>
     (\<And>row. row \<in> set rows \<Longrightarrow> known_row st row) \<Longrightarrow> placed st'"
proof (induction rows arbitrary: k st n)
  case Nil
  then show ?case by simp
next
  case (Cons row rows)
  obtain moved st1 j where 1: "auto_update env k runtime row st = Inr (moved, st1)"
    "auto_updates env (Suc k) runtime rows st1 = Inr (j, st')"
    using Cons.prems(1) by auto
  note f = auto_update_frame[OF 1(1)]
  have "placed st1" by (rule auto_update_placed[OF Cons.prems(2,3) _ 1(1)]) (use Cons.prems(4) in simp)
  then show ?case
    using Cons.IH[OF 1(2) _ frame_catalogue[OF f Cons.prems(3)]] known_row_frame[OF f] Cons.prems(4) by simp
qed

lemma apply_automatic_updates_placed:
  assumes pl: "placed st" and ok: "catalogue_ok (fst st)"
    and w: "apply_automatic_updates env runtime locked limit c st = Inr (x, st')"
  shows "placed st'"
proof -
  obtain n where u: "auto_updates env 0 runtime (automatic_rows locked limit c st) st = Inr (n, st')"
    using w unfolding apply_automatic_updates_def by (auto simp: Let_def split: if_splits)
  have "known_row st row" if row: "row \<in> set (automatic_rows locked limit c st)" for row
  proof -
    obtain t where t: "t \<in> set (tenant_agents (snd st))" "joined_row (fst st) t = Some row"
      using row unfolding automatic_rows_def map_filter_mem keyset_query_def by (auto dest: order_limit_memD)
    have "ir_agent row = t" using t(2) by (auto simp: joined_row_def split: option.splits)
    then show ?thesis using t(1) pl by (auto simp: known_row_def placed_def pins_ok_def)
  qed
  then show ?thesis using auto_updates_placed[OF u pl ok] by blast
qed

lemma create_tenant_run_placed:
  assumes pl: "placed st" and inv: "sys_inv (snd st)" and w: "create_tenant_run env cfg pr ws agent inp key req st = Inr (x, st')"
  shows "placed st'"
proof -
  obtain v fresh where x: "x = (v, fresh)" by (cases x)
  note c = create_tenant_run_committed[OF inv w[unfolded x]]
  have "placed (fst st, snd st')" by (rule placed_db[OF _ c(3)]) (use pl in simp)
  then show ?thesis by (simp flip: c(2))
qed

section \<open>The catalogue beside the instances\<close>

definition catalog_frame :: "market \<Rightarrow> market \<Rightarrow> bool" where
  "catalog_frame m m' \<longleftrightarrow> connections m' = connections m \<and> bindings m' = bindings m \<and>
     version_events m' = version_events m \<and> forks m' = forks m"

lemma platform_audit_frame: "platform_audit env pr a req t d m = Inr m' \<Longrightarrow> catalog_frame m m'"
  using platform_audit_Inr[of env pr a req t d m m'] by (auto simp: catalog_frame_def)

lemma write_rollouts_frame: "write_rollouts rs m = Inr m' \<Longrightarrow> catalog_frame m m'"
  by (simp add: write_rollouts_Inr catalog_frame_def)

lemma insert_version_frame: "insert_version v m = Inr m' \<Longrightarrow> catalog_frame m m'"
  by (auto simp: insert_version_def catalog_frame_def split: if_splits)

lemma catalog_frame_trans: "catalog_frame m n \<Longrightarrow> catalog_frame n k \<Longrightarrow> catalog_frame m k"
  by (simp add: catalog_frame_def)

lemma catalog_step_frame:
  assumes "catalog_step m m'"
  shows "catalog_frame m m'"
  using assms
proof cases
  case (cs_create env pr body req x1)
  then show ?thesis
    by (auto simp: create_catalog_agent_def Let_def catalog_frame_def split: if_splits dest!: platform_audit_Inr)
next
  case (cs_update env pr slug u req x1)
  then show ?thesis
    by (auto simp: update_catalog_agent_def catalog_frame_def split: if_splits dest!: platform_audit_Inr)
next
  case (cs_publish mf env pr slug req x2)
  then show ?thesis
    by (auto simp: publish_version_def Let_def split: if_splits
        dest!: platform_audit_frame insert_version_frame intro: catalog_frame_trans)
next
  case (cs_release env pr slug label st ch req x2)
  then show ?thesis
    by (auto simp: set_version_release_def Let_def catalog_frame_def split: if_splits dest!: platform_audit_Inr)
next
  case (cs_rollout env pr slug label ch2 pct req x3)
  then show ?thesis
    by (auto simp: create_rollout_def Let_def split: if_splits
        dest!: platform_audit_frame write_rollouts_frame intro: catalog_frame_trans)
next
  case (cs_restage env pr slug i pct2 st2 req x3)
  from cs_restage obtain m1 t d rs where "write_rollouts rs m = Inr m1"
    "platform_audit env pr ''catalog.rollout.updated'' req t d m1 = Inr m'" by (rule update_rolloutE)
  then show ?thesis using platform_audit_frame write_rollouts_frame catalog_frame_trans by blast
next
  case (cs_rollback env pr slug i req x3)
  from cs_rollback obtain m1 t d rs where "write_rollouts rs m = Inr m1"
    "platform_audit env pr ''catalog.rollout.rolled_back'' req t d m1 = Inr m'" by (rule rollback_rolloutE)
  then show ?thesis using platform_audit_frame write_rollouts_frame catalog_frame_trans by blast
next
  case (cs_grant env pr slug ws known req x4)
  then show ?thesis
    by (auto simp: grant_entitlement_def Let_def catalog_frame_def split: if_splits dest!: platform_audit_Inr)
next
  case (cs_revoke env pr slug ws req x5)
  then show ?thesis
    by (auto simp: revoke_entitlement_def catalog_frame_def dest!: platform_audit_Inr)
qed

lemma catalog_step_placed:
  assumes pl: "placed (m, s)" and ok: "catalogue_ok m" and st: "catalog_step m m'"
  shows "placed (m', s)"
proof -
  have "extends same_release (catalog_versions m) (catalog_versions m')"
    using catalog_step_ok[OF ok st] by (simp add: catalogue_step_ok_def catalogue_moves_def)
  then have r: "release_of m' a i" if "release_of m a i" for a i
    using that releases.extends_mem same_releaseD(1,2) unfolding release_of_def by metis
  have "pins_ok m' s"
    using pl r catalog_step_frame[OF st] unfolding placed_def pins_ok_def catalog_frame_def fst_conv snd_conv by metis
  then show ?thesis
    using pl catalog_step_frame[OF st] by (simp add: placed_def bound_within_def catalog_frame_def)
qed

section \<open>The platform\<close>

text \<open>
  \<open>ps_run\<close> are the transactions of the runs, which leave the instances alone; \<open>ps_connections\<close> stands for the
  writers of the connector tables, which keep a connection's identity, workspace and service.
\<close>

definition same_connection :: "connection_row \<Rightarrow> connection_row \<Rightarrow> bool" where
  "same_connection c d \<longleftrightarrow> ti_id d = ti_id c \<and> ti_workspace d = ti_workspace c \<and> ti_definition d = ti_definition c"

interpretation connections: row_order same_connection
  by unfold_locales (simp_all add: same_connection_def)

inductive platform_step :: "store \<Rightarrow> store \<Rightarrow> bool" where
  ps_run: "step s s' \<Longrightarrow> tenant_agents s' = tenant_agents s \<Longrightarrow> platform_step (m, s) (m, s')"
| ps_catalog: "catalog_step m m' \<Longrightarrow> platform_step (m, s) (m', s)"
| ps_connections: "extends same_connection (connections m) cs \<Longrightarrow>
    platform_step (m, s) (m\<lparr>integration_definitions := ds, connections := cs, credentials := ks, oauth_states := os\<rparr>, s)"
| ps_install: "install env runtime pr ws body req st = Inr (x1, st') \<Longrightarrow> platform_step st st'"
| ps_set_binding: "set_binding env pr ws i key conn req st = Inr (x1, st') \<Longrightarrow> platform_step st st'"
| ps_clear_binding: "clear_binding env pr ws i key req st = Inr (x1, st') \<Longrightarrow> platform_step st st'"
| ps_update: "update_tenant_agent env pr ws i u req st = Inr (x1, st') \<Longrightarrow> platform_step st st'"
| ps_uninstall: "uninstall env pr ws i req st = Inr (x2, st') \<Longrightarrow> platform_step st st'"
| ps_move: "move_version env runtime pr ws i text req st = Inr (x1, st') \<Longrightarrow> platform_step st st'"
| ps_rollback: "rollback env pr ws i req st = Inr (x1, st') \<Longrightarrow> platform_step st st'"
| ps_fork: "fork env pr ws i fbody req st = Inr (x3, st') \<Longrightarrow> platform_step st st'"
| ps_policy: "set_update_policy env pr ws ch mode req st = Inr (x4, st') \<Longrightarrow> platform_step st st'"
| ps_automatic: "apply_automatic_updates env runtime locked limit c st = Inr (x5, st') \<Longrightarrow> platform_step st st'"
| ps_create_run: "create_tenant_run env cfg pr ws i inp key req st = Inr (x6, st') \<Longrightarrow> platform_step st st'"

definition platform_ok :: "store \<Rightarrow> bool" where
  "platform_ok st \<longleftrightarrow> catalogue_ok (fst st) \<and> sys_inv (snd st) \<and> placed st"

text \<open>What a step may change of what is recorded.\<close>

definition platform_moves :: "store \<Rightarrow> store \<Rightarrow> bool" where
  "platform_moves st st' \<longleftrightarrow> catalogue_moves (fst st) (fst st') \<and> run_mono (snd st) (snd st') \<and> history (snd st) (snd st') \<and>
     extends same_instance (tenant_agents (snd st)) (tenant_agents (snd st')) \<and>
     extends (=) (version_events (fst st)) (version_events (fst st')) \<and> extends (=) (forks (fst st)) (forks (fst st'))"

lemma platform_moves_refl: "platform_moves st st"
  by (simp add: platform_moves_def catalogue_moves_refl run_mono_refl history_refl instances.extends_refl journal.extends_refl)

lemma platform_moves_trans: "platform_moves st su \<Longrightarrow> platform_moves su sv \<Longrightarrow> platform_moves st sv"
  unfolding platform_moves_def
  by (elim conjE, intro conjI)
    (erule (1) catalogue_moves_trans run_mono_trans history_trans instances.extends_trans journal.extends_trans)+

lemma platform_empty: "platform_ok (empty_market, empty_db)"
  by (simp add: platform_ok_def catalogue_empty sys_inv_empty placed_def instances_ok_def named_def pins_ok_def)
    (simp add: empty_market_def empty_db_def)

lemma tenant_platform:
  assumes ok: "platform_ok st" and f: "tenant_frame st st'" and pl: "placed st'"
  shows "platform_ok st' \<and> platform_moves st st'"
proof -
  have c: "committed (snd st) (snd st')"
    using f ok by (intro admin_frame_committed) (simp_all add: tenant_frame_def platform_ok_def)
  note m = market_frame_tables[OF conjunct1[OF f[unfolded tenant_frame_def]]]
  have "catalogue_ok (fst st')" using frame_catalogue[OF f] ok by (simp add: platform_ok_def)
  moreover have "catalogue_moves (fst st) (fst st')"
    by (rule catalogue_moves_same) (simp_all add: m(2,3,4) journal.extends_refl)
  ultimately show ?thesis
    using c pl m(8,9) f by (simp add: platform_ok_def platform_moves_def committed_def tenant_frame_def)
qed

lemma platform_movesI:
  assumes "catalogue_moves (fst st) (fst st')" "run_mono (snd st) (snd st')" "history (snd st) (snd st')"
    "extends same_instance (tenant_agents (snd st)) (tenant_agents (snd st'))"
    "extends (=) (version_events (fst st)) (version_events (fst st'))" "extends (=) (forks (fst st)) (forks (fst st'))"
  shows "platform_moves st st'"
  unfolding platform_moves_def by (intro conjI assms)

lemma instances_extend_same: "ts = us \<Longrightarrow> extends same_instance us ts"
  by (simp add: instances.extends_refl)

lemma journal_extend_same: "es = fs \<Longrightarrow> extends (=) fs es"
  by (simp add: journal.extends_refl)

lemma platform_okD:
  assumes "platform_ok st"
  shows "catalogue_ok (fst st)" "sys_inv (snd st)" "placed st"
  using assms by (simp_all add: platform_ok_def)

lemma platform_okI: "catalogue_ok (fst st) \<Longrightarrow> sys_inv (snd st) \<Longrightarrow> placed st \<Longrightarrow> platform_ok st"
  by (simp add: platform_ok_def)

lemma run_platform:
  assumes ok: "platform_ok (m, s)" and st: "step s s'" and same: "tenant_agents s' = tenant_agents s"
  shows "platform_ok (m, s') \<and> platform_moves (m, s) (m, s')"
proof -
  note p = platform_okD[OF ok, unfolded fst_conv snd_conv]
  have c: "committed s s'" by (rule step_committed[OF p(2) st])
  have "platform_ok (m, s')"
    by (rule platform_okI) (use p(1) c placed_db[OF p(3) same] in \<open>simp_all add: committed_def\<close>)
  moreover have "platform_moves (m, s) (m, s')"
    by (rule platform_movesI) (use c in \<open>simp_all only: fst_conv snd_conv committed_def catalogue_moves_refl
        instances_extend_same[OF same] journal.extends_refl\<close>)
  ultimately show ?thesis ..
qed

lemma catalog_platform:
  assumes ok: "platform_ok (m, s)" and st: "catalog_step m m'"
  shows "platform_ok (m', s) \<and> platform_moves (m, s) (m', s)"
proof -
  note p = platform_okD[OF ok, unfolded fst_conv snd_conv]
  have c: "catalogue_ok m'" "catalogue_moves m m'"
    using catalog_step_ok[OF p(1) st] by (simp_all add: catalogue_step_ok_def)
  have f: "version_events m' = version_events m" "forks m' = forks m"
    using catalog_step_frame[OF st] by (simp_all add: catalog_frame_def)
  have "platform_ok (m', s)" by (rule platform_okI) (use c(1) p(2) catalog_step_placed[OF p(3,1) st] in simp_all)
  moreover have "platform_moves (m, s) (m', s)"
    by (rule platform_movesI) (simp_all only: fst_conv snd_conv c(2) run_mono_refl history_refl
        instances.extends_refl journal_extend_same[OF f(1)] journal_extend_same[OF f(2)])
  ultimately show ?thesis ..
qed

lemma connections_platform:
  assumes ok: "platform_ok (m, s)" and ext: "extends same_connection (connections m) cs"
  shows "platform_ok (m\<lparr>integration_definitions := ds, connections := cs, credentials := ks, oauth_states := os\<rparr>, s) \<and>
    platform_moves (m, s) (m\<lparr>integration_definitions := ds, connections := cs, credentials := ks, oauth_states := os\<rparr>, s)"
proof -
  let ?m = "m\<lparr>integration_definitions := ds, connections := cs, credentials := ks, oauth_states := os\<rparr>"
  have cat: "catalogue_ok ?m" using ok catalogue_cong[of ?m m] by (simp add: platform_ok_def)
  have "bound_within ?m s b" if b: "bound_within m s b" for b
  proof -
    obtain c where c: "c \<in> set (connections m)" "ti_id c = bd_connection b" "ti_workspace c = bd_workspace b" "ti_definition c = bd_key b"
      using b unfolding bound_within_def by blast
    obtain d where "d \<in> set cs" "same_connection c d" using connections.extends_mem[OF ext c(1)] by blast
    then show ?thesis using b c by (auto simp: bound_within_def same_connection_def)
  qed
  moreover have "pins_ok ?m s" using ok by (simp add: platform_ok_def placed_def pins_ok_def release_of_def)
  ultimately have "placed (?m, s)" using ok by (simp add: platform_ok_def placed_def)
  then show ?thesis
    using ok cat catalogue_moves_same[of ?m m]
    by (simp add: platform_ok_def platform_moves_def run_mono_refl history_refl instances.extends_refl journal.extends_refl)
qed

lemma create_run_platform:
  assumes ok: "platform_ok st" and run: "create_tenant_run env cfg pr ws agent inp key req st = Inr (x, st')"
  shows "platform_ok st' \<and> platform_moves st st'"
proof -
  obtain v fresh where x: "x = (v, fresh)" by (cases x)
  have inv: "sys_inv (snd st)" using ok by (simp add: platform_ok_def)
  note c = create_tenant_run_committed[OF inv run[unfolded x]]
  have "placed st'" using ok by (intro create_tenant_run_placed[OF _ inv run]) (simp add: platform_ok_def)
  then show ?thesis
    using ok c by (simp add: platform_ok_def platform_moves_def committed_def catalogue_moves_refl
        instances.extends_refl journal.extends_refl)
qed

lemma platform_step_ok:
  assumes ok: "platform_ok st" and st: "platform_step st st'"
  shows "platform_ok st' \<and> platform_moves st st'"
  using st
proof cases
  case (ps_run s s' m)
  show ?thesis unfolding ps_run(1,2) by (rule run_platform) (use ok ps_run in simp_all)
next
  case (ps_catalog m m' s)
  show ?thesis unfolding ps_catalog(1,2) by (rule catalog_platform) (use ok ps_catalog in simp_all)
next
  case (ps_connections m cs s ds ks os)
  show ?thesis unfolding ps_connections(1,2) by (rule connections_platform) (use ok ps_connections in simp_all)
next
  case (ps_install env runtime pr ws body req x1)
  show ?thesis by (rule tenant_platform[OF ok install_frame[OF ps_install] install_placed[OF platform_okD(3,1)[OF ok] ps_install]])
next
  case (ps_set_binding env pr ws i key conn req x1)
  show ?thesis by (rule tenant_platform[OF ok set_binding_frame[OF ps_set_binding] set_binding_placed[OF platform_okD(3)[OF ok] ps_set_binding]])
next
  case (ps_clear_binding env pr ws i key req x1)
  show ?thesis by (rule tenant_platform[OF ok clear_binding_frame[OF ps_clear_binding] clear_binding_placed[OF platform_okD(3)[OF ok] ps_clear_binding]])
next
  case (ps_update env pr ws i u req x1)
  show ?thesis by (rule tenant_platform[OF ok update_tenant_agent_frame[OF ps_update] update_tenant_agent_placed[OF platform_okD(3)[OF ok] ps_update]])
next
  case (ps_uninstall env pr ws i req x2)
  show ?thesis by (rule tenant_platform[OF ok uninstall_frame[OF ps_uninstall] uninstall_placed[OF platform_okD(3)[OF ok] ps_uninstall]])
next
  case (ps_move env runtime pr ws i label req x1)
  show ?thesis by (rule tenant_platform[OF ok move_version_frame[OF ps_move] move_version_placed[OF platform_okD(3,1)[OF ok] ps_move]])
next
  case (ps_rollback env pr ws i req x1)
  show ?thesis by (rule tenant_platform[OF ok rollback_frame[OF ps_rollback] rollback_placed[OF platform_okD(3)[OF ok] ps_rollback]])
next
  case (ps_fork env pr ws i fbody req x3)
  show ?thesis by (rule tenant_platform[OF ok fork_frame[OF ps_fork] fork_placed[OF platform_okD(3)[OF ok] ps_fork]])
next
  case (ps_policy env pr ws ch mode req x4)
  show ?thesis by (rule tenant_platform[OF ok set_update_policy_frame[OF ps_policy] set_update_policy_placed[OF platform_okD(3)[OF ok] ps_policy]])
next
  case (ps_automatic env runtime locked limit c x5)
  show ?thesis
    by (rule tenant_platform[OF ok apply_automatic_updates_frame[OF ps_automatic] apply_automatic_updates_placed[OF platform_okD(3,1)[OF ok] ps_automatic]])
next
  case (ps_create_run env cfg pr ws i inp key req x6)
  then show ?thesis by (rule create_run_platform[OF ok])
qed

end
