(* ===== verification/Tenant_History.thy ===== *)
theory Tenant_History
  imports Platform
begin

text \<open>
  The version history of an instance: its events, in the order they were recorded, lead from the
  installation to the pin without a gap. What the moves between versions leave of the instance's
  configuration is shown along the way.
\<close>

section \<open>Chains of events\<close>

fun follows :: "uuid option \<Rightarrow> version_event_row list \<Rightarrow> uuid option \<Rightarrow> bool" where
  "follows v [] w \<longleftrightarrow> v = w"
| "follows v (e # es) w \<longleftrightarrow> ve_from e = v \<and> follows (Some (ve_to e)) es w"

lemma follows_append: "follows v (es @ fs) w \<longleftrightarrow> (\<exists>u. follows v es u \<and> follows u fs w)"
  by (induction es arbitrary: v) auto

definition moves_of :: "uuid \<Rightarrow> version_event_row list \<Rightarrow> version_event_row list" where
  "moves_of i es = filter (\<lambda>e. ve_agent e = i) es"

lemma moves_of_append: "moves_of i (es @ fs) = moves_of i es @ moves_of i fs"
  by (simp add: moves_of_def)

definition history_ok :: "store \<Rightarrow> bool" where
  "history_ok st \<longleftrightarrow> (\<forall>t \<in> set (tenant_agents (snd st)).
     follows None (moves_of (ta_id t) (version_events (fst st))) (Some (ta_version t)))"

text \<open>
  What a transaction that installs nothing does: the instances stay in place, each related to its old row by
  \<open>R\<close>, and the events it records lead from the old pin of an instance to the new one.
\<close>

definition pins_follow :: "(tenant_agent_row \<Rightarrow> tenant_agent_row \<Rightarrow> bool) \<Rightarrow> store \<Rightarrow> store \<Rightarrow> bool" where
  "pins_follow R st st' \<longleftrightarrow> map ta_id (tenant_agents (snd st')) = map ta_id (tenant_agents (snd st)) \<and>
     (\<exists>es. version_events (fst st') = version_events (fst st) @ es \<and>
       (\<forall>t \<in> set (tenant_agents (snd st)). \<exists>u \<in> set (tenant_agents (snd st')). ta_id u = ta_id t \<and> R t u \<and>
         follows (Some (ta_version t)) (moves_of (ta_id t) es) (Some (ta_version u))))"

lemma pins_follow_trans:
  assumes 1: "pins_follow R st su" and 2: "pins_follow R su sv" and R: "\<And>x y z. R x y \<Longrightarrow> R y z \<Longrightarrow> R x z"
  shows "pins_follow R st sv"
proof -
  obtain es where es: "version_events (fst su) = version_events (fst st) @ es"
    and e: "\<And>t. t \<in> set (tenant_agents (snd st)) \<Longrightarrow> \<exists>u \<in> set (tenant_agents (snd su)). ta_id u = ta_id t \<and> R t u \<and>
         follows (Some (ta_version t)) (moves_of (ta_id t) es) (Some (ta_version u))"
    using 1 unfolding pins_follow_def by blast
  obtain fs where fs: "version_events (fst sv) = version_events (fst su) @ fs"
    and f: "\<And>t. t \<in> set (tenant_agents (snd su)) \<Longrightarrow> \<exists>u \<in> set (tenant_agents (snd sv)). ta_id u = ta_id t \<and> R t u \<and>
         follows (Some (ta_version t)) (moves_of (ta_id t) fs) (Some (ta_version u))"
    using 2 unfolding pins_follow_def by blast
  have "\<exists>w \<in> set (tenant_agents (snd sv)). ta_id w = ta_id t \<and> R t w \<and>
      follows (Some (ta_version t)) (moves_of (ta_id t) (es @ fs)) (Some (ta_version w))"
    if t: "t \<in> set (tenant_agents (snd st))" for t
  proof -
    obtain u where u: "u \<in> set (tenant_agents (snd su))" "ta_id u = ta_id t" "R t u"
      "follows (Some (ta_version t)) (moves_of (ta_id t) es) (Some (ta_version u))" using e[OF t] by blast
    obtain w where w: "w \<in> set (tenant_agents (snd sv))" "ta_id w = ta_id u" "R u w"
      "follows (Some (ta_version u)) (moves_of (ta_id u) fs) (Some (ta_version w))" using f[OF u(1)] by blast
    show ?thesis
      using u w R[OF u(3) w(3)] by (intro bexI[OF _ w(1)]) (auto simp: moves_of_append follows_append)
  qed
  then show ?thesis using 1 2 es fs unfolding pins_follow_def by (intro conjI exI[of _ "es @ fs"]) simp_all
qed

lemma pins_followI:
  assumes "version_events (fst st') = version_events (fst st) @ es"
    and "tenant_agents (snd st') = map g (tenant_agents (snd st))"
    and "\<And>t. t \<in> set (tenant_agents (snd st)) \<Longrightarrow> ta_id (g t) = ta_id t \<and> R t (g t) \<and>
      follows (Some (ta_version t)) (moves_of (ta_id t) es) (Some (ta_version (g t)))"
  shows "pins_follow R st st'"
  using assms unfolding pins_follow_def by (intro conjI exI[of _ es]) auto

lemma pins_quiet:
  assumes "version_events (fst st') = version_events (fst st)" "tenant_agents (snd st') = map g (tenant_agents (snd st))"
    and "\<And>t. ta_id (g t) = ta_id t \<and> ta_version (g t) = ta_version t \<and> R t (g t)"
  shows "pins_follow R st st'"
  by (rule pins_followI[where es = "[]" and g = g]) (use assms in \<open>simp_all add: moves_of_def\<close>)

lemma pins_same:
  assumes "version_events (fst st') = version_events (fst st)" "tenant_agents (snd st') = tenant_agents (snd st)"
    and "\<And>t. R t t"
  shows "pins_follow R st st'"
  by (rule pins_quiet[where g = "\<lambda>t. t"]) (use assms in simp_all)

lemma history_follows:
  assumes h: "history_ok st" and p: "pins_follow R st st'" and inst: "instances_ok (snd st')"
  shows "history_ok st'"
proof -
  obtain es where es: "version_events (fst st') = version_events (fst st) @ es"
    and e: "\<And>t. t \<in> set (tenant_agents (snd st)) \<Longrightarrow> \<exists>u \<in> set (tenant_agents (snd st')). ta_id u = ta_id t \<and>
         follows (Some (ta_version t)) (moves_of (ta_id t) es) (Some (ta_version u))"
    and ids: "map ta_id (tenant_agents (snd st')) = map ta_id (tenant_agents (snd st))"
    using p unfolding pins_follow_def by blast
  have "follows None (moves_of (ta_id w) (version_events (fst st'))) (Some (ta_version w))"
    if w: "w \<in> set (tenant_agents (snd st'))" for w
  proof -
    have "ta_id w \<in> set (map ta_id (tenant_agents (snd st)))" using w unfolding ids[symmetric] by simp
    then obtain t where t: "t \<in> set (tenant_agents (snd st))" "ta_id t = ta_id w" by auto
    obtain u where u: "u \<in> set (tenant_agents (snd st'))" "ta_id u = ta_id t"
      "follows (Some (ta_version t)) (moves_of (ta_id t) es) (Some (ta_version u))" using e[OF t(1)] by blast
    have "u = w" by (rule instance_unique[OF inst u(1) w]) (simp add: u(2) t(2))
    moreover have "follows None (moves_of (ta_id t) (version_events (fst st))) (Some (ta_version t))"
      using h t(1) by (simp add: history_ok_def)
    ultimately show ?thesis using u(3) t(2) unfolding es moves_of_append follows_append by auto
  qed
  then show ?thesis by (simp add: history_ok_def)
qed

section \<open>What a move leaves\<close>

text \<open>The relations between old and new rows that settling the status and moving the pin keep.\<close>

locale pin_order = row_order R for R :: "tenant_agent_row \<Rightarrow> tenant_agent_row \<Rightarrow> bool" +
  assumes row_settled: "R t (settled env b t)" and row_repinned: "R t (repinned env v t)"
begin

lemma follow_trans: "pins_follow R st su \<Longrightarrow> pins_follow R su sv \<Longrightarrow> pins_follow R st sv"
  by (erule (1) pins_follow_trans) (rule row_trans)

lemma follow_same:
  "version_events (fst st') = version_events (fst st) \<Longrightarrow> tenant_agents (snd st') = tenant_agents (snd st) \<Longrightarrow> pins_follow R st st'"
  by (erule (1) pins_same) (rule row_refl)

lemma follow_refl: "pins_follow R st st"
  by (rule follow_same) simp_all

lemma follow_update:
  assumes "update_instance ws i f (snd st) = Inr (snd st')" "version_events (fst st') = version_events (fst st)"
    and "\<And>t. ta_id (f t) = ta_id t \<and> ta_version (f t) = ta_version t \<and> R t (f t)"
  shows "pins_follow R st st'"
  by (rule pins_quiet[where g = "\<lambda>t. if ta_id t = i \<and> ta_workspace t = ws then f t else t"])
    (use assms row_refl in \<open>auto simp: update_instance_def write_instances_Inr sql_update_def\<close>)

lemma follow_settle:
  assumes w: "settle_status env ws i mf st = Inr st'"
  shows "pins_follow R st st'"
proof -
  have "st' = st \<or> (\<exists>b. update_instance ws i (settled env b) (snd st) = Inr (snd st') \<and> fst st' = fst st)"
    using w by (auto simp: settle_status_def Let_def split: option.splits if_splits)
  then show ?thesis
  proof (elim disjE exE conjE)
    fix b
    assume u: "update_instance ws i (settled env b) (snd st) = Inr (snd st')" "fst st' = fst st"
    show ?thesis
      by (rule follow_update[OF u(1)]) (simp_all add: u(2) row_settled, simp_all add: settled_def)
  qed (simp add: follow_refl)
qed

lemma follow_answer:
  assumes "bind_res (settle_status env ws i mf st) (\<lambda>(m2, s2). view_after ws i (m2, audit pr ws a req x s2)) = Inr (v, st')"
  shows "pins_follow R st st'"
proof -
  obtain st2 where s: "settle_status env ws i mf st = Inr st2"
    and v: "view_after ws i (fst st2, audit pr ws a req x (snd st2)) = Inr (v, st')"
    using assms(1) by (auto simp: case_prod_beta)
  have "pins_follow R st2 st'" by (rule follow_same) (simp_all add: view_after_same[OF v] audit_def)
  with follow_settle[OF s] show ?thesis by (rule follow_trans)
qed

lemma follow_repin:
  assumes inst: "instances_ok (snd st)" and t: "t \<in> set (tenant_agents (snd st))" "ta_id t = i" "ta_workspace t = ws"
    and w: "repin env k pr ws i (ta_version t) target action req st = Inr st'"
  shows "pins_follow R st st'"
    and "\<And>u. u \<in> set (tenant_agents (snd st)) \<Longrightarrow> ta_id u \<noteq> i \<Longrightarrow> u \<in> set (tenant_agents (snd st'))"
proof -
  let ?g = "\<lambda>t. if ta_id t = i \<and> ta_workspace t = ws then repinned env target t else t"
  obtain s1 where u: "update_instance ws i (repinned env target) (snd st) = Inr s1"
    and st': "st' = (record_version env k pr ws i (Some (ta_version t)) target action req (fst st), s1)"
    using w by (auto simp: repin_def)
  have ts: "tenant_agents s1 = map ?g (tenant_agents (snd st))"
    using u by (auto simp: update_instance_def write_instances_Inr sql_update_def)
  show "pins_follow R st st'"
  proof (rule pins_followI[where g = ?g])
    fix x assume x: "x \<in> set (tenant_agents (snd st))"
    have "x = t" if "ta_id x = i" by (rule instance_unique[OF inst x t(1)]) (simp add: that t(2))
    then show "ta_id (?g x) = ta_id x \<and> R x (?g x) \<and> follows (Some (ta_version x)) (moves_of (ta_id x)
        [\<lparr>ve_id = tx_uuid env k, ve_workspace = ws, ve_agent = i, ve_from = Some (ta_version t), ve_to = target,
          ve_action = action, ve_issuer = issuer pr, ve_subject = subject pr, ve_request = req, ve_created = tx_now env\<rparr>])
        (Some (ta_version (?g x)))"
      using t(2,3) row_refl row_repinned by (cases "ta_id x = i") (auto simp: moves_of_def, simp_all add: repinned_def)
  qed (simp_all add: st' record_version_def ts)
  show "x \<in> set (tenant_agents (snd st'))" if "x \<in> set (tenant_agents (snd st))" "ta_id x \<noteq> i" for x
    using that by (force simp: st' ts)
qed

lemma follow_moved:
  assumes inst: "instances_ok (snd st)" and row: "find_instance ws i (snd st) = Some t"
    and w: "bind_res (repin env k pr ws i (ta_version t) target action req st) (\<lambda>st1.
      bind_res (settle_status env ws i mf st1) (\<lambda>(m2, s2). view_after ws i (m2, audit pr ws a req x s2))) = Inr (v, st')"
  shows "pins_follow R st st'"
proof -
  obtain st1 where r: "repin env k pr ws i (ta_version t) target action req st = Inr st1"
    and e: "bind_res (settle_status env ws i mf st1) (\<lambda>(m2, s2). view_after ws i (m2, audit pr ws a req x s2)) = Inr (v, st')"
    using w by (simp only: bind_res_Inr) blast
  show ?thesis by (rule follow_trans[OF follow_repin(1)[OF inst find_instanceD[OF row] r] follow_answer[OF e]])
qed

lemma follow_move_version:
  assumes inst: "instances_ok (snd st)" and w: "move_version env runtime pr ws i text req st = Inr (v, st')"
  shows "pins_follow R st st'"
  using w
proof (rule move_versionE)
  assume "st' = st"
  then show ?thesis by (simp add: follow_refl)
qed (rule follow_moved[OF inst agent_row_ofD(1)])

lemma follow_rollback:
  assumes inst: "instances_ok (snd st)" and w: "rollback env pr ws i req st = Inr (v, st')"
  shows "pins_follow R st st'"
  using w by (rule rollbackE) (rule follow_moved[OF inst agent_row_ofD(1)])

lemma follow_auto_update:
  assumes inst: "instances_ok (snd st)" and row: "ir_agent row \<in> set (tenant_agents (snd st))"
    and w: "auto_update env k runtime row st = Inr (moved, st')"
  shows "pins_follow R st st'"
    and "\<And>u. u \<in> set (tenant_agents (snd st)) \<Longrightarrow> ta_id u \<noteq> ta_id (ir_agent row) \<Longrightarrow> u \<in> set (tenant_agents (snd st'))"
proof -
  let ?others = "\<forall>u \<in> set (tenant_agents (snd st)). ta_id u \<noteq> ta_id (ir_agent row) \<longrightarrow> u \<in> set (tenant_agents (snd st'))"
  have "pins_follow R st st' \<and> ?others"
    using w
  proof (rule auto_updateE)
    assume "st' = st"
    then show ?thesis by (simp add: follow_refl)
  next
    fix target mf action req st1 m2 s2
    let ?ws = "ta_workspace (ir_agent row)" and ?i = "ta_id (ir_agent row)"
    assume r: "repin env k update_scheduler ?ws ?i (ta_version (ir_agent row)) target action req st = Inr st1"
      and e: "settle_status env ?ws ?i mf st1 = Inr (m2, s2)"
      and st': "st' = (m2, audit update_scheduler ?ws ''agent.automatic_version_changed'' req None s2)"
    note p = follow_repin[OF inst row refl refl r]
    have "pins_follow R (m2, s2) st'" by (rule follow_same) (simp_all add: st' audit_def)
    then have "pins_follow R st st'" using follow_trans p(1) follow_settle[OF e] by blast
    moreover have "u \<in> set (tenant_agents (snd st'))" if u: "u \<in> set (tenant_agents (snd st))" "ta_id u \<noteq> ?i" for u
      using p(2)[OF u] u(2) e unfolding st'
      by (auto simp: settle_status_def Let_def update_instance_def write_instances_Inr set_sql_update audit_def image_iff
          split: option.splits if_splits)
    ultimately show ?thesis by blast
  qed
  then show "pins_follow R st st'"
    "\<And>u. u \<in> set (tenant_agents (snd st)) \<Longrightarrow> ta_id u \<noteq> ta_id (ir_agent row) \<Longrightarrow> u \<in> set (tenant_agents (snd st'))"
    by blast+
qed

lemma follow_auto_updates:
  "auto_updates env k runtime rows st = Inr (n, st') \<Longrightarrow> instances_ok (snd st) \<Longrightarrow>
     (\<And>row. row \<in> set rows \<Longrightarrow> ir_agent row \<in> set (tenant_agents (snd st))) \<Longrightarrow>
     distinct (map (\<lambda>r. ta_id (ir_agent r)) rows) \<Longrightarrow> pins_follow R st st'"
proof (induction rows arbitrary: k st n)
  case Nil
  then show ?case by (simp add: follow_refl)
next
  case (Cons row rows)
  obtain moved st1 j where 1: "auto_update env k runtime row st = Inr (moved, st1)"
    "auto_updates env (Suc k) runtime rows st1 = Inr (j, st')"
    using Cons.prems(1) by auto
  have row: "ir_agent row \<in> set (tenant_agents (snd st))" using Cons.prems(3) by simp
  note p = follow_auto_update[OF Cons.prems(2) row 1(1)]
  have inst: "instances_ok (snd st1)" using auto_update_frame[OF 1(1)] Cons.prems(2) by (simp add: tenant_frame_def)
  have rows: "ir_agent r \<in> set (tenant_agents (snd st1))" if "r \<in> set rows" for r
  proof (rule p(2))
    show "ir_agent r \<in> set (tenant_agents (snd st))" using that Cons.prems(3) by simp
    show "ta_id (ir_agent r) \<noteq> ta_id (ir_agent row)" using that Cons.prems(4) by (simp add: image_iff) metis
  qed
  have "pins_follow R st1 st'" by (rule Cons.IH[OF 1(2) inst rows]) (use Cons.prems(4) in simp_all)
  with p(1) show ?case by (rule follow_trans)
qed

lemma follow_automatic:
  assumes inst: "instances_ok (snd st)" and w: "apply_automatic_updates env runtime locked limit c st = Inr (x, st')"
  shows "pins_follow R st st'"
proof -
  obtain n where u: "auto_updates env 0 runtime (automatic_rows locked limit c st) st = Inr (n, st')"
    using w unfolding apply_automatic_updates_def by (auto simp: Let_def split: if_splits)
  have joined: "ir_agent row = t" if "joined_row m t = Some row" for m t row
    using that by (auto simp: joined_row_def split: option.splits)
  let ?ts = "keyset_query ta_id (\<lambda>t. ta_mode t = Automatic \<and> ta_status t \<noteq> Disabled \<and>
      joined_row (fst st) t \<noteq> None \<and> \<not> locked (ta_id t)) (tenant_agents (snd st)) limit c"
  have mem: "t \<in> set (tenant_agents (snd st))" if "t \<in> set ?ts" for t
    using that unfolding keyset_query_def by (auto dest: order_limit_memD)
  have rows: "ir_agent row \<in> set (tenant_agents (snd st))" if row: "row \<in> set (automatic_rows locked limit c st)" for row
  proof -
    obtain t where t: "t \<in> set ?ts" "joined_row (fst st) t = Some row"
      using row unfolding automatic_rows_def map_filter_mem by blast
    show ?thesis using mem[OF t(1)] joined[OF t(2)] by simp
  qed
  have dist: "distinct (map ta_id ?ts)"
    unfolding keyset_query_def by (rule distinct_order_limit) (use inst in \<open>simp add: instances_ok_def\<close>)
  have "map (\<lambda>r. ta_id (ir_agent r)) (List.map_filter (joined_row (fst st)) ts) =
      map ta_id (filter (\<lambda>t. joined_row (fst st) t \<noteq> None) ts)" for ts
    by (induction ts) (auto simp: joined map_filter_simps split: option.split)
  then have "distinct (map (\<lambda>r. ta_id (ir_agent r)) (automatic_rows locked limit c st))"
    using distinct_map_filter_key[OF dist] unfolding automatic_rows_def by simp
  with u inst rows show ?thesis by (intro follow_auto_updates) simp_all
qed

end

text \<open>Every move is traced, whatever else changes.\<close>

interpretation traced: pin_order "\<lambda>t u :: tenant_agent_row. True"
  by unfold_locales simp_all

text \<open>What the operators of the workspace decided about an instance.\<close>

definition config_kept :: "tenant_agent_row \<Rightarrow> tenant_agent_row \<Rightarrow> bool" where
  "config_kept t u \<longleftrightarrow> same_instance t u \<and> ta_display_name u = ta_display_name t \<and> ta_channel u = ta_channel t \<and>
     ta_mode u = ta_mode t \<and> ta_instructions u = ta_instructions t \<and> ta_settings u = ta_settings t"

interpretation configured: pin_order config_kept
  by unfold_locales (simp_all add: config_kept_def same_instance_def settled_def repinned_def)

text \<open>The bindings stay as they are.\<close>

lemma moved_bindings:
  assumes "bind_res (repin env k pr ws i before target action req st) (\<lambda>st1.
      bind_res (settle_status env ws i mf st1) (\<lambda>(m2, s2). view_after ws i (m2, audit pr ws a req x s2))) = Inr (v, st')"
  shows "bindings (fst st') = bindings (fst st)"
proof -
  obtain st1 where r: "repin env k pr ws i before target action req st = Inr st1"
    and e: "bind_res (settle_status env ws i mf st1) (\<lambda>(m2, s2). view_after ws i (m2, audit pr ws a req x s2)) = Inr (v, st')"
    using assms by (simp only: bind_res_Inr) blast
  have "bindings (fst st1) = bindings (fst st)" using r by (auto simp: repin_def record_version_def)
  then show ?thesis using settled_answer[OF e] by simp
qed

lemma move_version_bindings:
  assumes "move_version env runtime pr ws i text req st = Inr (v, st')"
  shows "bindings (fst st') = bindings (fst st)"
  using assms by (rule move_versionE) (simp, rule moved_bindings)

lemma rollback_bindings:
  assumes "rollback env pr ws i req st = Inr (v, st')"
  shows "bindings (fst st') = bindings (fst st)"
  using assms by (rule rollbackE) (rule moved_bindings)

lemma auto_update_bindings:
  assumes "auto_update env k runtime row st = Inr (moved, st')"
  shows "bindings (fst st') = bindings (fst st)"
  using assms
proof (rule auto_updateE)
  fix target mf action req st1 m2 s2
  let ?ws = "ta_workspace (ir_agent row)" and ?i = "ta_id (ir_agent row)"
  assume r: "repin env k update_scheduler ?ws ?i (ta_version (ir_agent row)) target action req st = Inr st1"
    and e: "settle_status env ?ws ?i mf st1 = Inr (m2, s2)"
    and st': "st' = (m2, audit update_scheduler ?ws ''agent.automatic_version_changed'' req None s2)"
  have "bindings (fst st1) = bindings (fst st)" using r by (auto simp: repin_def record_version_def)
  moreover have "m2 = fst st1" using settle_status_frame[of env ?ws ?i mf "fst st1" "snd st1"] e by simp
  ultimately show ?thesis by (simp add: st')
qed simp

lemma auto_updates_bindings:
  "auto_updates env k runtime rows st = Inr (n, st') \<Longrightarrow> bindings (fst st') = bindings (fst st)"
proof (induction rows arbitrary: k st n)
  case (Cons row rows)
  obtain moved st1 j where "auto_update env k runtime row st = Inr (moved, st1)"
    "auto_updates env (Suc k) runtime rows st1 = Inr (j, st')"
    using Cons.prems by auto
  then show ?case using auto_update_bindings Cons.IH by metis
qed simp

lemma automatic_bindings:
  assumes "apply_automatic_updates env runtime locked limit c st = Inr (x, st')"
  shows "bindings (fst st') = bindings (fst st)"
  using assms unfolding apply_automatic_updates_def
  by (auto simp: Let_def split: if_splits dest: auto_updates_bindings)

section \<open>Histories of every reachable instance\<close>

lemma set_binding_follow:
  assumes "set_binding env pr ws i key conn req st = Inr (v, st')"
  shows "pins_follow (\<lambda>t u. True) st st'"
proof -
  obtain mf m1 where b: "write_binding env 0 ws i mf key conn (fst st) = Inr m1"
    and e: "bind_res (settle_status env ws i mf (m1, snd st)) (\<lambda>(m2, s2).
      view_after ws i (m2, audit pr ws ''agent.binding_changed'' req None s2)) = Inr (v, st')"
    using assms unfolding set_binding_def by (simp only: bind_res_Inr) blast
  have "pins_follow (\<lambda>t u. True) st (m1, snd st)"
    by (rule traced.follow_same) (use write_binding_table[OF b] in auto)
  then show ?thesis by (rule traced.follow_trans[OF _ traced.follow_answer[OF e]])
qed

lemma clear_binding_follow:
  assumes "clear_binding env pr ws i key req st = Inr (v, st')"
  shows "pins_follow (\<lambda>t u. True) st st'"
proof -
  let ?m = "clear_bindings (\<lambda>b. bd_agent b = i \<and> bd_workspace b = ws \<and> bd_key b = key) (fst st)"
  obtain mf where e: "bind_res (settle_status env ws i mf (?m, snd st)) (\<lambda>(m2, s2).
      view_after ws i (m2, audit pr ws ''agent.binding_changed'' req None s2)) = Inr (v, st')"
    using assms unfolding clear_binding_def Let_def by (simp only: bind_res_Inr) blast
  have "pins_follow (\<lambda>t u. True) st (?m, snd st)" by (rule traced.follow_same) (simp_all add: clear_bindings_def)
  then show ?thesis by (rule traced.follow_trans[OF _ traced.follow_answer[OF e]])
qed

lemma update_tenant_agent_follow:
  assumes "update_tenant_agent env pr ws i u req st = Inr (v, st')"
  shows "pins_follow (\<lambda>t u. True) st st'"
proof -
  obtain s1 where w: "update_instance ws i (reconfigure env u) (snd st) = Inr s1"
    and e: "view_after ws i (fst st, audit pr ws ''agent.settings_changed'' req None s1) = Inr (v, st')"
    using assms unfolding update_tenant_agent_def by (auto split: if_splits)
  have "pins_follow (\<lambda>t u. True) st (fst st, s1)"
    by (rule traced.follow_update[where f = "reconfigure env u" and i = i and ws = ws]) (simp_all add: w reconfigure_def)
  moreover have "pins_follow (\<lambda>t u. True) (fst st, s1) st'"
    by (rule traced.follow_same) (simp_all add: view_after_same[OF e] audit_def)
  ultimately show ?thesis by (rule traced.follow_trans)
qed

lemma uninstall_follow:
  assumes "uninstall env pr ws i req st = Inr (v, st')"
  shows "pins_follow (\<lambda>t u. True) st st'"
proof -
  let ?m = "clear_bindings (\<lambda>b. bd_agent b = i \<and> bd_workspace b = ws) (fst st)"
  obtain s1 where w: "update_instance ws i (retired env) (snd st) = Inr s1"
    and st': "st' = (?m, audit pr ws ''agent.disabled'' req None s1)"
    using assms unfolding uninstall_def by auto
  have "pins_follow (\<lambda>t u. True) st (?m, s1)"
    by (rule traced.follow_update[where f = "retired env" and i = i and ws = ws]) (simp_all add: w retired_def clear_bindings_def)
  moreover have "pins_follow (\<lambda>t u. True) (?m, s1) st'"
    by (rule traced.follow_same) (simp_all add: st' audit_def)
  ultimately show ?thesis by (rule traced.follow_trans)
qed

lemma fork_follow:
  assumes "fork env pr ws i body req st = Inr (v, st')"
  shows "pins_follow (\<lambda>t u. True) st st'"
  by (rule traced.follow_same) (use assms in \<open>auto simp: fork_def Let_def audit_def split: if_splits\<close>)

lemma set_update_policy_follow:
  assumes "set_update_policy env pr ws ch mode req st = Inr (v, st')"
  shows "pins_follow (\<lambda>t u. True) st st'"
  by (rule traced.follow_same) (use assms in \<open>auto simp: set_update_policy_def Let_def audit_def\<close>)

lemma history_install:
  assumes pl: "placed st" and h: "history_ok st" and w: "install env runtime pr ws body req st = Inr (v, st')"
  shows "history_ok st'"
  using w
proof (rule installE)
  fix agent version label mf s1 m1
  let ?ch = "or_else (in_channel body) (policy_channel ws (fst st))"
  let ?t = "new_instance env ws body agent version ?ch (fst st)"
  let ?s2 = "audit_if (in_bindings body \<noteq> []) pr ws ''agent.binding_changed'' req s1"
  let ?m2 = "record_version env (1 + length (in_bindings body)) pr ws (tx_uuid env 0) None version Installed req m1"
  assume wi: "write_instances (tenant_agents (snd st) @ [?t]) (snd st) = Inr s1"
    and b: "write_bindings env 1 ws (tx_uuid env 0) mf (in_bindings body) (fst st) = Inr m1"
    and e: "bind_res (settle_status env ws (tx_uuid env 0) mf (?m2, ?s2))
       (\<lambda>(m2, s2). view_after ws (tx_uuid env 0) (m2, audit pr ws ''agent.installed'' req None s2)) = Inr (v, st')"
  have ts: "tenant_agents s1 = tenant_agents (snd st) @ [?t]" and inst: "instances_ok s1"
    using wi by (auto simp: write_instances_Inr instances_ok_def)
  have t: "ta_id ?t = tx_uuid env 0" "ta_version ?t = version" by (simp_all add: new_instance_def)
  have fresh: "ta_id u \<noteq> tx_uuid env 0" if "u \<in> set (tenant_agents (snd st))" for u
  proof -
    have "tx_uuid env 0 \<notin> ta_id ` set (tenant_agents (snd st))" using inst by (simp add: instances_ok_def ts t(1))
    then show ?thesis using that by (auto intro: image_eqI[OF sym])
  qed
  have old: "version_events m1 = version_events (fst st)" using write_bindings_table[OF b] by auto
  have none: "moves_of (tx_uuid env 0) (version_events (fst st)) = []"
    using pl fresh by (auto simp: moves_of_def filter_empty_conv placed_def pins_ok_def)
  have "history_ok (?m2, ?s2)"
    unfolding history_ok_def
  proof
    fix x assume "x \<in> set (tenant_agents (snd (?m2, ?s2)))"
    then consider "x \<in> set (tenant_agents (snd st))" | "x = ?t" by (auto simp: ts audit_if_def audit_def split: if_splits)
    then show "follows None (moves_of (ta_id x) (version_events (fst (?m2, ?s2)))) (Some (ta_version x))"
    proof cases
      case 1
      then show ?thesis
        using h fresh[OF 1, symmetric] by (simp add: history_ok_def record_version_def old moves_of_def)
    next
      case 2
      then show ?thesis using none t by (simp add: record_version_def old moves_of_def)
    qed
  qed
  moreover have "instances_ok (snd st')"
    using settled_answer[OF e] inst by (simp add: tenant_frame_def instances_ok_def audit_if_def audit_def)
  ultimately show "history_ok st'" by (rule history_follows[OF _ traced.follow_answer[OF e]])
qed

lemma history_same:
  assumes "history_ok st" "version_events (fst st') = version_events (fst st)" "tenant_agents (snd st') = tenant_agents (snd st)"
  shows "history_ok st'"
  using assms by (simp add: history_ok_def)

lemma platform_step_history:
  assumes ok: "platform_ok st" and h: "history_ok st" and st: "platform_step st st'"
  shows "history_ok st'"
proof -
  have inst: "instances_ok (snd st)" "instances_ok (snd st')"
    using platform_step_ok[OF ok st] ok by (simp_all add: platform_ok_def placed_def)
  note by_moves = history_follows[OF h _ inst(2)]
  show ?thesis
    using st
  proof cases
    case (ps_catalog m m' s)
    then show ?thesis using h catalog_step_frame[OF ps_catalog(3)] by (simp add: history_ok_def catalog_frame_def)
  next
    case (ps_create_run env cfg pr ws i inp key req x6)
    obtain v fresh where x: "x6 = (v, fresh)" by (cases x6)
    note c = create_tenant_run_committed[OF platform_okD(2)[OF ok] ps_create_run[unfolded x]]
    show ?thesis by (rule history_same[OF h]) (simp_all add: c(2,3))
  next
    case (ps_install env runtime pr ws body req x1)
    show ?thesis by (rule history_install[OF platform_okD(3)[OF ok] h ps_install])
  next
    case (ps_set_binding env pr ws i key conn req x1)
    show ?thesis by (rule by_moves[OF set_binding_follow[OF ps_set_binding]])
  next
    case (ps_clear_binding env pr ws i key req x1)
    show ?thesis by (rule by_moves[OF clear_binding_follow[OF ps_clear_binding]])
  next
    case (ps_update env pr ws i u req x1)
    show ?thesis by (rule by_moves[OF update_tenant_agent_follow[OF ps_update]])
  next
    case (ps_uninstall env pr ws i req x2)
    show ?thesis by (rule by_moves[OF uninstall_follow[OF ps_uninstall]])
  next
    case (ps_move env runtime pr ws i label req x1)
    show ?thesis by (rule by_moves[OF traced.follow_move_version[OF inst(1) ps_move]])
  next
    case (ps_rollback env pr ws i req x1)
    show ?thesis by (rule by_moves[OF traced.follow_rollback[OF inst(1) ps_rollback]])
  next
    case (ps_fork env pr ws i fbody req x3)
    show ?thesis by (rule by_moves[OF fork_follow[OF ps_fork]])
  next
    case (ps_policy env pr ws ch mode req x4)
    show ?thesis by (rule by_moves[OF set_update_policy_follow[OF ps_policy]])
  next
    case (ps_automatic env runtime locked limit c x5)
    show ?thesis by (rule by_moves[OF traced.follow_automatic[OF inst(1) ps_automatic]])
  qed (use h in \<open>simp_all add: history_ok_def\<close>)
qed

lemma history_empty: "history_ok (empty_market, empty_db)"
  by (simp add: history_ok_def empty_db_def)

end
