(* ===== verification/Tenant_Status.thy ===== *)
theory Tenant_Status
  imports Tenant_History
begin

text \<open>
  What an operation on an instance answers: the stored row, the manifest of its pin, its bindings and the
  readiness they give, and the status that settling left.
\<close>

section \<open>The row after a write\<close>

lemma find_instance_update:
  assumes "update_instance ws i f s = Inr s'" "find_instance ws i s = Some t" "same_instance t (f t)"
  shows "find_instance ws i s' = Some (f t)"
proof -
  have "find (\<lambda>t. ta_workspace t = ws \<and> ta_id t = i) (map (\<lambda>t. if ta_id t = i \<and> ta_workspace t = ws then f t else t) ts) = Some (f t)"
    if "find (\<lambda>t. ta_workspace t = ws \<and> ta_id t = i) ts = Some t" for ts
    using that assms(3) by (induction ts) (auto simp: same_instance_def split: if_splits)
  then show ?thesis
    using assms(1,2) by (simp add: find_instance_def update_instance_def write_instances_Inr sql_update_def)
qed

lemma find_instance_audit: "find_instance ws i (audit pr w a req x s) = find_instance ws i s"
  by (simp add: find_instance_def audit_def)

lemma find_instance_cong: "tenant_agents s' = tenant_agents s \<Longrightarrow> find_instance ws i s' = find_instance ws i s"
  by (simp add: find_instance_def)

text \<open>The rule of the status: readiness decides, except for a retired instance and for a pause the operator asked for.\<close>

definition status_follows :: "bool \<Rightarrow> tenant_agent_row \<Rightarrow> bool" where
  "status_follows ready t \<longleftrightarrow> ta_status t = Disabled \<or>
     (if ready then ta_status t = Active \<and> ta_paused_reason t = None \<or> ta_paused_reason t = Some ''operator''
      else ta_status t = Paused \<and> ta_paused_reason t = Some ''not_ready'')"

lemma settled_found:
  assumes w: "settle_status env ws i mf st = Inr st'" and t: "find_instance ws i (snd st) = Some t"
  obtains u where "fst st' = fst st" "find_instance ws i (snd st') = Some u" "ta_version u = ta_version t"
    "status_follows (rd_ready (readiness mf (agent_bindings ws i (fst st)))) u"
    "rd_ready (readiness mf (agent_bindings ws i (fst st))) \<Longrightarrow> ta_paused_reason t \<noteq> Some ''operator'' \<Longrightarrow>
       ta_status t \<noteq> Disabled \<Longrightarrow> ta_status u = Active" "ta_status u = Disabled \<longleftrightarrow> ta_status t = Disabled"
proof -
  let ?ready = "rd_ready (readiness mf (agent_bindings ws i (fst st)))"
  show ?thesis
  proof (cases "ta_status t = Disabled \<or> ?ready \<and> ta_paused_reason t = Some ''operator''")
    case True
    then have "st' = st" using w t by (auto simp: settle_status_def Let_def split: if_splits)
    then show ?thesis using that[of t] t True by (auto simp: status_follows_def)
  next
    case False
    then have d: "ta_status t \<noteq> Disabled" and o': "\<not> (?ready \<and> ta_paused_reason t = Some ''operator'')" by blast+
    have "bind_res (update_instance ws i (settled env ?ready) (snd st)) (\<lambda>s1. Inr (fst st, s1)) = Inr st'"
      using w unfolding settle_status_def Let_def t option.case if_not_P[OF d] if_not_P[OF o'] .
    then obtain s1 where u: "update_instance ws i (settled env ?ready) (snd st) = Inr s1" "st' = (fst st, s1)"
      unfolding bind_res_Inr by blast
    have "find_instance ws i (snd st') = Some (settled env ?ready t)"
      using find_instance_update[OF u(1) t kept_identity(1)] u(2) by simp
    then show ?thesis
    proof (rule that[rotated])
      show "fst st' = fst st" by (simp add: u(2))
      show "ta_version (settled env ?ready t) = ta_version t" by (simp add: settled_def)
      show "status_follows ?ready (settled env ?ready t)" by (cases "?ready") (simp_all add: settled_def status_follows_def)
      show "ta_status (settled env ?ready t) = Active" if "?ready" using that by (simp add: settled_def)
      show "ta_status (settled env ?ready t) = Disabled \<longleftrightarrow> ta_status t = Disabled" using d by (simp add: settled_def)
    qed
  qed
qed

section \<open>The answer\<close>

lemma view_afterE:
  assumes "view_after ws i st = Inr (v, st')"
  obtains "st' = st" "find_instance ws i (snd st) = Some (ir_agent (tg_row v))"
    "manifest_of (ta_version (ir_agent (tg_row v))) (fst st) = Inr (tg_manifest v)"
    "tg_bindings v = agent_bindings ws i (fst st)" "tg_readiness v = readiness (tg_manifest v) (tg_bindings v)"
proof -
  obtain row where row: "agent_row_of ws i st = Inr row" "agent_view ws row (fst st) = Inr v" "st' = st"
    using assms by (auto simp: view_after_def)
  obtain mf where mf: "manifest_of (ta_version (ir_agent row)) (fst st) = Inr mf"
    using row(2) by (auto simp: agent_view_def Let_def)
  have f: "find_instance ws i (snd st) = Some (ir_agent row)" by (rule agent_row_ofD(1)[OF row(1)])
  have i: "ta_id (ir_agent row) = i" by (rule find_instanceD(2)[OF f])
  show ?thesis
    by (rule that) (use row f mf i in \<open>auto simp: agent_view_def Let_def\<close>)
qed

text \<open>The common end of an operation.\<close>

lemma answered:
  assumes w: "bind_res (settle_status env ws i mf st) (\<lambda>(m2, s2). view_after ws i (m2, audit pr ws a req x s2)) = Inr (v, st')"
    and t: "find_instance ws i (snd st) = Some t" and mf: "manifest_of (ta_version t) (fst st) = Inr mf"
  shows "find_instance ws i (snd st') = Some (ir_agent (tg_row v))" "fst st' = fst st" "tg_manifest v = mf"
    "tg_readiness v = readiness mf (agent_bindings ws i (fst st))"
    "status_follows (rd_ready (tg_readiness v)) (ir_agent (tg_row v))"
    "rd_ready (tg_readiness v) \<Longrightarrow> ta_paused_reason t \<noteq> Some ''operator'' \<Longrightarrow> ta_status t \<noteq> Disabled \<Longrightarrow>
       ta_status (ir_agent (tg_row v)) = Active"
    "ta_status (ir_agent (tg_row v)) = Disabled \<longleftrightarrow> ta_status t = Disabled"
proof -
  obtain st2 where s: "settle_status env ws i mf st = Inr st2"
    and v: "view_after ws i (fst st2, audit pr ws a req x (snd st2)) = Inr (v, st')"
    using w by (auto simp: case_prod_beta)
  let ?ready = "rd_ready (readiness mf (agent_bindings ws i (fst st)))"
  obtain u where u: "fst st2 = fst st" "find_instance ws i (snd st2) = Some u" "ta_version u = ta_version t"
    "status_follows ?ready u"
    and act: "?ready \<Longrightarrow> ta_paused_reason t \<noteq> Some ''operator'' \<Longrightarrow> ta_status t \<noteq> Disabled \<Longrightarrow> ta_status u = Active"
    and dis: "ta_status u = Disabled \<longleftrightarrow> ta_status t = Disabled"
    using settled_found[OF s t] by metis
  from v have "st' = (fst st2, audit pr ws a req x (snd st2)) \<and> u = ir_agent (tg_row v) \<and> tg_manifest v = mf \<and>
      tg_readiness v = readiness mf (agent_bindings ws i (fst st))"
    by (rule view_afterE) (use u(1-3) mf in \<open>simp add: find_instance_audit\<close>)
  then show "find_instance ws i (snd st') = Some (ir_agent (tg_row v))" "fst st' = fst st" "tg_manifest v = mf"
    "tg_readiness v = readiness mf (agent_bindings ws i (fst st))"
    "status_follows (rd_ready (tg_readiness v)) (ir_agent (tg_row v))"
    "rd_ready (tg_readiness v) \<Longrightarrow> ta_paused_reason t \<noteq> Some ''operator'' \<Longrightarrow> ta_status t \<noteq> Disabled \<Longrightarrow>
       ta_status (ir_agent (tg_row v)) = Active"
    "ta_status (ir_agent (tg_row v)) = Disabled \<longleftrightarrow> ta_status t = Disabled"
    using u act dis by (simp_all add: find_instance_audit)
qed

section \<open>Readiness\<close>

lemma satisfied_rows:
  assumes "satisfied (agent_bindings ws i m) n"
  shows "\<exists>b \<in> set (bindings m). \<exists>c \<in> set (connections m). bd_workspace b = ws \<and> bd_agent b = i \<and> bd_key b = n \<and>
    ti_id c = bd_connection b \<and> ti_status c = IConnected"
proof -
  obtain x where x: "x \<in> set (agent_bindings ws i m)" "ab_key x = n" "ab_status x = IConnected"
    using assms unfolding satisfied_def bound_to_def by (auto split: option.splits dest!: find_SomeD)
  obtain b where b: "b \<in> set (bindings m)" "bd_agent b = i" "bd_workspace b = ws" "bd_key b = ab_key x"
    and c: "map_option ti_status (find_connection (bd_connection b) m) = Some (ab_status x)"
    using x(1) by (auto simp: agent_bindings_def map_filter_mem split: if_splits)
  obtain c where "find_connection (bd_connection b) m = Some c" "ti_status c = IConnected" using c x(3) by auto
  then have "c \<in> set (connections m) \<and> ti_id c = bd_connection b \<and> ti_status c = IConnected"
    by (auto simp: find_connection_def dest!: find_SomeD)
  then show ?thesis using b x(2) by blast
qed

lemma ready_rows:
  assumes "rd_ready (readiness mf (agent_bindings ws i m))" "(n, True) \<in> set (integrations mf)"
  shows "\<exists>b \<in> set (bindings m). \<exists>c \<in> set (connections m). bd_workspace b = ws \<and> bd_agent b = i \<and> bd_key b = n \<and>
    ti_id c = bd_connection b \<and> ti_status c = IConnected"
  by (rule satisfied_rows) (use assms in \<open>auto simp: readiness_def missing_required_def filter_empty_conv\<close>)

section \<open>Honest answers\<close>

text \<open>
  The answer shows the stored row and the manifest of its pin; an active instance has every connection it
  requires, and a pause is the operator's or some requirement is missing.
\<close>

definition honest :: "uuid \<Rightarrow> tenant_agent_view \<Rightarrow> store \<Rightarrow> bool" where
  "honest ws v st \<longleftrightarrow> (let t = ir_agent (tg_row v); mf = tg_manifest v in
     find_instance ws (ta_id t) (snd st) = Some t \<and> manifest_of (ta_version t) (fst st) = Inr mf \<and>
     (ta_status t = Active \<longrightarrow> (\<forall>n \<in> set (mf_required_integrations mf).
        \<exists>b \<in> set (bindings (fst st)). \<exists>c \<in> set (connections (fst st)). bd_workspace b = ws \<and> bd_agent b = ta_id t \<and>
          bd_key b = n \<and> ti_id c = bd_connection b \<and> ti_status c = IConnected)) \<and>
     (ta_status t = Paused \<longrightarrow> ta_paused_reason t = Some ''operator'' \<or>
        missing_required mf (agent_bindings ws (ta_id t) (fst st)) \<noteq> []))"

lemma answered_honest:
  assumes w: "bind_res (settle_status env ws i mf st) (\<lambda>(m2, s2). view_after ws i (m2, audit pr ws a req x s2)) = Inr (v, st')"
    and t: "find_instance ws i (snd st) = Some t" and mf: "manifest_of (ta_version t) (fst st) = Inr mf"
  shows "honest ws v st'"
proof -
  note a = answered[OF w t mf]
  have i: "ta_id (ir_agent (tg_row v)) = i" by (rule find_instanceD(2)[OF a(1)])
  have "manifest_of (ta_version (ir_agent (tg_row v))) (fst st') = Inr (tg_manifest v)"
  proof -
    obtain st2 where "view_after ws i (fst st2, audit pr ws a req x (snd st2)) = Inr (v, st')"
      using w by (auto simp: case_prod_beta)
    then show ?thesis by (rule view_afterE) simp
  qed
  moreover have "rd_ready (tg_readiness v)" if "ta_status (ir_agent (tg_row v)) = Active"
    using a(5) that by (simp add: status_follows_def split: if_splits)
  moreover have "\<not> rd_ready (tg_readiness v)"
    if "ta_status (ir_agent (tg_row v)) = Paused" "ta_paused_reason (ir_agent (tg_row v)) \<noteq> Some ''operator''"
    using a(5) that by (simp add: status_follows_def split: if_splits)
  ultimately show ?thesis
    using a(1-4) i ready_rows[of mf ws i "fst st'"] unfolding honest_def Let_def
    by (auto simp: integrations_def) (auto simp: readiness_def)
qed

lemma moved_honest:
  assumes w: "bind_res (repin env k pr ws i before target action req st) (\<lambda>st1.
      bind_res (settle_status env ws i mf st1) (\<lambda>(m2, s2). view_after ws i (m2, audit pr ws a req x s2))) = Inr (v, st')"
    and t: "find_instance ws i (snd st) = Some t" and mf: "manifest_of target (fst st) = Inr mf"
  shows "honest ws v st'"
proof -
  obtain st1 where r: "repin env k pr ws i before target action req st = Inr st1"
    and e: "bind_res (settle_status env ws i mf st1) (\<lambda>(m2, s2). view_after ws i (m2, audit pr ws a req x s2)) = Inr (v, st')"
    using w by (simp only: bind_res_Inr) blast
  obtain s1 where u: "update_instance ws i (repinned env target) (snd st) = Inr s1"
    and st1: "st1 = (record_version env k pr ws i (Some before) target action req (fst st), s1)"
    using r by (auto simp: repin_def)
  have "find_instance ws i (snd st1) = Some (repinned env target t)"
    using find_instance_update[OF u t kept_identity(2)] st1 by simp
  moreover have "manifest_of (ta_version (repinned env target t)) (fst st1) = Inr mf"
    using mf market_frame_catalogue(5)[OF record_version_frame] by (simp add: st1 repinned_def)
  ultimately show ?thesis by (rule answered_honest[OF e])
qed

lemma install_honest:
  assumes "install env runtime pr ws body req st = Inr (v, st')"
  shows "honest ws v st'"
  using assms
proof (rule installE)
  fix agent version label mf s1 m1
  let ?ch = "or_else (in_channel body) (policy_channel ws (fst st))"
  let ?t = "new_instance env ws body agent version ?ch (fst st)"
  let ?s2 = "audit_if (in_bindings body \<noteq> []) pr ws ''agent.binding_changed'' req s1"
  let ?m2 = "record_version env (1 + length (in_bindings body)) pr ws (tx_uuid env 0) None version Installed req m1"
  assume mf: "manifest_of version (fst st) = Inr mf"
    and wi: "write_instances (tenant_agents (snd st) @ [?t]) (snd st) = Inr s1"
    and b: "write_bindings env 1 ws (tx_uuid env 0) mf (in_bindings body) (fst st) = Inr m1"
    and e: "bind_res (settle_status env ws (tx_uuid env 0) mf (?m2, ?s2))
       (\<lambda>(m2, s2). view_after ws (tx_uuid env 0) (m2, audit pr ws ''agent.installed'' req None s2)) = Inr (v, st')"
  have ts: "tenant_agents s1 = tenant_agents (snd st) @ [?t]" and d: "distinct (map ta_id (tenant_agents s1))"
    using wi by (auto simp: write_instances_Inr)
  have t: "ta_id ?t = tx_uuid env 0" "ta_workspace ?t = ws" "ta_version ?t = version" by (simp_all add: new_instance_def)
  have "find (\<lambda>x. ta_id x = tx_uuid env 0 \<and> ta_workspace x = ws) (tenant_agents s1) = Some ?t"
    by (rule find_unique_conj[OF d]) (simp_all add: ts t)
  then have "find_instance ws (tx_uuid env 0) (snd (?m2, ?s2)) = Some ?t"
    by (simp add: find_instance_def audit_if_def audit_def conj_commute)
  moreover have "manifest_of (ta_version ?t) (fst (?m2, ?s2)) = Inr mf"
    using mf write_bindings_table[OF b] market_frame_catalogue(5)[OF record_version_frame]
    by (auto simp: t manifest_of_def version_row_def record_version_def)
  ultimately show ?thesis by (rule answered_honest[OF e])
qed

lemma set_binding_honest:
  assumes "set_binding env pr ws i key conn req st = Inr (v, st')"
  shows "honest ws v st'"
proof -
  obtain row mf m1 where row: "agent_row_of ws i st = Inr row" and mf: "manifest_of (ta_version (ir_agent row)) (fst st) = Inr mf"
    and b: "write_binding env 0 ws i mf key conn (fst st) = Inr m1"
    and e: "bind_res (settle_status env ws i mf (m1, snd st)) (\<lambda>(m2, s2).
      view_after ws i (m2, audit pr ws ''agent.binding_changed'' req None s2)) = Inr (v, st')"
    using assms unfolding set_binding_def by (simp only: bind_res_Inr) blast
  show ?thesis
    by (rule answered_honest[OF e])
      (use agent_row_ofD(1)[OF row] mf write_binding_table[OF b] in \<open>auto simp: manifest_of_def version_row_def\<close>)
qed

lemma clear_binding_honest:
  assumes "clear_binding env pr ws i key req st = Inr (v, st')"
  shows "honest ws v st'"
proof -
  obtain row mf where row: "agent_row_of ws i st = Inr row" and mf: "manifest_of (ta_version (ir_agent row)) (fst st) = Inr mf"
    and e: "bind_res (settle_status env ws i mf
      (clear_bindings (\<lambda>b. bd_agent b = i \<and> bd_workspace b = ws \<and> bd_key b = key) (fst st), snd st)) (\<lambda>(m2, s2).
      view_after ws i (m2, audit pr ws ''agent.binding_changed'' req None s2)) = Inr (v, st')"
    using assms unfolding clear_binding_def Let_def by (simp only: bind_res_Inr) blast
  show ?thesis
    by (rule answered_honest[OF e])
      (use agent_row_ofD(1)[OF row] mf in \<open>auto simp: manifest_of_def version_row_def clear_bindings_def\<close>)
qed

lemma move_version_honest:
  assumes "move_version env runtime pr ws i text req st = Inr (v, st')" "st' \<noteq> st"
  shows "honest ws v st'"
  using assms(1)
proof (rule move_versionE)
  fix row target mf
  assume "agent_row_of ws i st = Inr row" and mf: "manifest_of target (fst st) = Inr mf"
    and e: "bind_res (repin env 0 pr ws i (ta_version (ir_agent row)) target Updated req st) (\<lambda>st1.
      bind_res (settle_status env ws i mf st1) (\<lambda>(m2, s2).
        view_after ws i (m2, audit pr ws ''agent.updated'' req None s2))) = Inr (v, st')"
  then show ?thesis by (intro moved_honest[OF e agent_row_ofD(1) mf])
qed (use assms(2) in simp)

lemma rollback_honest:
  assumes "rollback env pr ws i req st = Inr (v, st')"
  shows "honest ws v st'"
  using assms by (rule rollbackE) (rule moved_honest[OF _ agent_row_ofD(1)])

lemma last_move_latest:
  assumes l: "last_move ws i m = Some e"
    and f: "f \<in> set (version_events m)" "ve_agent f = i" "ve_workspace f = ws" "ve_from f \<noteq> None"
  shows "ve_created f \<le> ve_created e"
proof -
  let ?k = "\<lambda>e. (- ve_created e, - uint (ve_id e))"
  let ?l = "order_limit ?k 1 (\<lambda>e. ve_agent e = i \<and> ve_workspace e = ws \<and> ve_from e \<noteq> None) (version_events m)"
  obtain xs where xs: "?l = e # xs" using l by (auto simp: last_move_def split: list.splits)
  then have "xs = []" using order_limit_length[of ?k 1 "\<lambda>e. ve_agent e = i \<and> ve_workspace e = ws \<and> ve_from e \<noteq> None" "version_events m"]
    unfolding xs by simp
  then have only: "?l = [e]" using xs by simp
  show ?thesis
  proof (cases "f = e")
    case False
    then have "f \<notin> set ?l" unfolding only by simp
    have mem: "e \<in> set ?l" unfolding only by simp
    have "?k e \<le> ?k f" by (rule order_limit_least[OF mem f(1) _ \<open>f \<notin> set ?l\<close>]) (use f(2-4) in blast)
    then show ?thesis by (simp add: less_eq_prod_def) linarith
  qed simp
qed

lemma moved_row:
  assumes w: "bind_res (repin env k pr ws i before target action req st) (\<lambda>st1.
      bind_res (settle_status env ws i mf st1) (\<lambda>(m2, s2). view_after ws i (m2, audit pr ws a req x s2))) = Inr (v, st')"
    and t: "find_instance ws i (snd st) = Some t" and mf: "manifest_of target (fst st) = Inr mf"
  shows "find_instance ws i (snd st') = Some (ir_agent (tg_row v))" "ta_version (ir_agent (tg_row v)) = target"
    "fst st' = record_version env k pr ws i (Some before) target action req (fst st)"
proof -
  obtain st1 where r: "repin env k pr ws i before target action req st = Inr st1"
    and e: "bind_res (settle_status env ws i mf st1) (\<lambda>(m2, s2). view_after ws i (m2, audit pr ws a req x s2)) = Inr (v, st')"
    using w by (simp only: bind_res_Inr) blast
  obtain s1 where u: "update_instance ws i (repinned env target) (snd st) = Inr s1"
    and st1: "st1 = (record_version env k pr ws i (Some before) target action req (fst st), s1)"
    using r by (auto simp: repin_def)
  have 1: "find_instance ws i (snd st1) = Some (repinned env target t)"
    using find_instance_update[OF u t kept_identity(2)] st1 by simp
  have 2: "manifest_of (ta_version (repinned env target t)) (fst st1) = Inr mf"
    using mf market_frame_catalogue(5)[OF record_version_frame] by (simp add: st1 repinned_def)
  obtain st2 where s: "settle_status env ws i mf st1 = Inr st2"
    and v: "view_after ws i (fst st2, audit pr ws a req x (snd st2)) = Inr (v, st')"
    using e by (auto simp: case_prod_beta)
  obtain y where "fst st2 = fst st1" "find_instance ws i (snd st2) = Some y" "ta_version y = ta_version (repinned env target t)"
    using settled_found[OF s 1] by metis
  with v have "ta_version (ir_agent (tg_row v)) = ta_version (repinned env target t)"
    by (elim view_afterE) (simp add: find_instance_audit)
  then show "ta_version (ir_agent (tg_row v)) = target" by (simp add: repinned_def)
  show "find_instance ws i (snd st') = Some (ir_agent (tg_row v))"
    "fst st' = record_version env k pr ws i (Some before) target action req (fst st)"
    using answered(1,2)[OF e 1 2] by (simp_all add: st1)
qed

end
