(* ===== verification/Tenant_Samples.thy ===== *)
theory Tenant_Samples
  imports Tenant_Status Market_Samples
begin

text \<open>
  One instance of the sample agent, its connection and its binding, and what the operations of the
  witnesses answer on it.
\<close>

section \<open>Rows\<close>

definition sample_connection :: "integration_status \<Rightarrow> connection_row" where
  "sample_connection status =
    \<lparr>ti_id = 70, ti_workspace = 10, ti_definition = ''cms'', ti_display_name = ''CMS'', ti_account = ''a'',
     ti_auth = ApiKeyAuth, ti_credential = None, ti_status = status, ti_scopes = [], ti_granted = [], ti_config = [],
     ti_issuer = ''iss'', ti_subject = ''alice'', ti_created = 0, ti_updated = 0, ti_tested = None, ti_success = None,
     ti_error = None\<rparr>"

definition sample_binding :: binding_row where
  "sample_binding = \<lparr>bd_id = 71, bd_workspace = 10, bd_agent = 60, bd_key = ''cms'', bd_connection = 70,
     bd_created = 0, bd_updated = 0\<rparr>"

definition sample_instance :: "instance_status \<Rightarrow> string option \<Rightarrow> uuid \<Rightarrow> tenant_agent_row" where
  "sample_instance status reason version =
    \<lparr>ta_id = 60, ta_workspace = 10, ta_catalog = 1, ta_version = version, ta_display_name = ''SEO'', ta_status = status,
     ta_paused_reason = reason, ta_channel = Stable, ta_mode = Manual, ta_instructions = None, ta_settings = [],
     ta_created = 0, ta_updated = 0\<rparr>"

definition sample_event :: "uuid option \<Rightarrow> uuid \<Rightarrow> version_action \<Rightarrow> time \<Rightarrow> version_event_row" where
  "sample_event before target action t =
    \<lparr>ve_id = 80, ve_workspace = 10, ve_agent = 60, ve_from = before, ve_to = target, ve_action = action,
     ve_issuer = ''iss'', ve_subject = ''alice'', ve_request = ''r'', ve_created = t\<rparr>"

text \<open>One instance, with or without its binding.\<close>

definition sample_store :: "binding_row list \<Rightarrow> version_event_row list \<Rightarrow> tenant_agent_row \<Rightarrow> store" where
  "sample_store bs es t =
    ((sample_market 100)\<lparr>connections := [sample_connection IConnected], bindings := bs, version_events := es\<rparr>,
     queued_db\<lparr>tenant_agents := [t]\<rparr>)"

lemmas store_defs = sample_store_def sample_connection_def sample_binding_def sample_instance_def sample_event_def market_defs

section \<open>Operations\<close>

text \<open>The parts the witnesses evaluate.\<close>

lemma sample_scoped: "\<exists>x. scoped alice 10 ManageAgents (snd (sample_store bs es t)) = Inr x"
  by (simp add: sample_store_def scoped_def find_workspace_def member_role_def authorize_def all_permissions_def sample_defs)

lemma sample_manifests:
  "manifest_of 11 (fst (sample_store bs es t)) = Inr (sample_manifest ''1.0.0'')"
  "manifest_of 12 (fst (sample_store bs es t)) = Inr (sample_manifest ''1.1.0'')"
  by (simp_all add: manifest_of_def version_row_def sample_store_def market_defs)

lemma sample_find:
  "find_instance 10 60 (snd (sample_store bs es (sample_instance status reason v))) = Some (sample_instance status reason v)"
  by (simp add: find_instance_def sample_store_def sample_instance_def)

lemma sample_row:
  assumes "v \<in> {11, 12}"
  obtains row where "agent_row_of 10 60 (sample_store bs es (sample_instance status reason v)) = Inr row"
    "ir_agent row = sample_instance status reason v"
  using assms that unfolding agent_row_of_def sample_find
  by (auto simp: joined_row_def find_catalog_id_def version_row_def sample_instance_def[of status reason] sample_store_def market_defs)

lemma sample_ready:
  assumes "bindings m = [sample_binding]" "connections m = [sample_connection IConnected]"
  shows "rd_ready (readiness (sample_manifest v) (agent_bindings 10 60 m))"
  using assms by (simp add: agent_bindings_def find_connection_def readiness_def missing_required_def satisfied_def
      bound_to_def integrations_def sample_manifest_def sample_binding_def sample_connection_def map_filter_simps)

lemma sample_unready:
  assumes "bindings m = []"
  shows "\<not> rd_ready (readiness (sample_manifest v) (agent_bindings 10 60 m))"
  using assms by (simp add: agent_bindings_def readiness_def missing_required_def satisfied_def
      bound_to_def integrations_def sample_manifest_def map_filter_simps)

lemma sample_update:
  assumes "ta_id t = 60" "ta_workspace t = 10" "instance_check (f t)"
  shows "update_instance 10 60 f (s\<lparr>tenant_agents := [t]\<rparr>) = Inr (s\<lparr>tenant_agents := [f t]\<rparr>)"
  using assms by (simp add: update_instance_def write_instances_def named_def)

lemma sample_check:
  "instance_check (settled env b (sample_instance status reason v))"
  "(status = Paused) = (reason \<noteq> None) \<Longrightarrow> reason \<in> {None, Some ''not_ready'', Some ''operator''} \<Longrightarrow>
     instance_check (repinned env w (sample_instance status reason v))"
  by (simp_all add: instance_check_def settled_def repinned_def sample_instance_def btrim_def length_between_def)

lemma sample_settles:
  assumes "status \<noteq> Disabled" "reason \<noteq> Some ''operator'' \<or> \<not> rd_ready (readiness mf (agent_bindings 10 60 m))"
  shows "settle_status env 10 60 mf (m, s\<lparr>tenant_agents := [sample_instance status reason v]\<rparr>) =
    Inr (m, s\<lparr>tenant_agents := [settled env (rd_ready (readiness mf (agent_bindings 10 60 m))) (sample_instance status reason v)]\<rparr>)"
proof -
  have f: "find_instance 10 60 (s\<lparr>tenant_agents := [sample_instance status reason v]\<rparr>) = Some (sample_instance status reason v)"
    by (simp add: find_instance_def sample_instance_def)
  have u: "update_instance 10 60 (settled env b) (s\<lparr>tenant_agents := [sample_instance status reason v]\<rparr>) =
      Inr (s\<lparr>tenant_agents := [settled env b (sample_instance status reason v)]\<rparr>)" for b
    by (rule sample_update) (simp_all add: sample_check, simp_all add: sample_instance_def)
  have n: "ta_status (sample_instance status reason v) \<noteq> Disabled"
    "\<not> (rd_ready (readiness mf (agent_bindings 10 60 m)) \<and> ta_paused_reason (sample_instance status reason v) = Some ''operator'')"
    using assms by (auto simp: sample_instance_def)
  show ?thesis
    unfolding settle_status_def Let_def fst_conv snd_conv f option.case if_not_P[OF n(1)] if_not_P[OF n(2)] u bind_res_simps
    by (rule refl)
qed

text \<open>An answer exists whenever the row is there and its pin is one of the two releases.\<close>

lemma sample_answers:
  assumes m: "catalog_agents m = [sample_catalog_agent]" "catalog_versions m = catalog_versions (sample_market 100)"
    and s: "tenant_agents s = [t]" "ta_id t = 60" "ta_workspace t = 10" "ta_catalog t = 1" and v: "ta_version t \<in> {11, 12}"
  shows "\<exists>v c. view_after 10 60 (m, audit pr 10 a req x s) = Inr (v, (m, audit pr 10 a req x s)) \<and>
    tg_readiness v = readiness (sample_manifest c) (agent_bindings 10 60 m)"
proof -
  obtain c y where c: "version_row (ta_version t) m = Some c" "cv_manifest c = sample_manifest y"
    using m(2) v by (auto simp: version_row_def market_defs)
  have "joined_row m t = Some \<lparr>ir_agent = t, ir_slug = ''seo'', ir_version = cv_version c\<rparr>"
    by (simp add: joined_row_def find_catalog_id_def m(1) s(4) c(1) sample_catalog_agent_def)
  moreover have "find_instance 10 60 (audit pr 10 a req x s) = Some t"
    unfolding find_instance_audit by (simp add: find_instance_def s)
  ultimately have "agent_row_of 10 60 (m, audit pr 10 a req x s) = Inr \<lparr>ir_agent = t, ir_slug = ''seo'', ir_version = cv_version c\<rparr>"
    by (simp add: agent_row_of_def)
  moreover have "manifest_of (ta_version t) m = Inr (cv_manifest c)" by (simp add: manifest_of_def c(1))
  ultimately show ?thesis by (simp add: view_after_def agent_view_def Let_def s(2) c(2)) blast
qed

lemma instance_settled: "settled (env_at 0 k) b (sample_instance status reason v) =
    sample_instance (if b then Active else Paused) (if b then None else Some ''not_ready'') v"
  by (simp add: settled_def sample_instance_def env_at_def)

definition bound_market :: "binding_row list \<Rightarrow> version_event_row list \<Rightarrow> market" where
  "bound_market bs es = fst (sample_store bs es (sample_instance Active None 11))"

lemma bound_market_simps [simp]:
  "catalog_agents (bound_market bs es) = [sample_catalog_agent]"
  "catalog_versions (bound_market bs es) = catalog_versions (sample_market 100)"
  "bindings (bound_market bs es) = bs" "connections (bound_market bs es) = [sample_connection IConnected]"
  "version_events (bound_market bs es) = es" "(bound_market bs es)\<lparr>bindings := cs\<rparr> = bound_market cs es"
  "(bound_market bs es)\<lparr>version_events := fs\<rparr> = bound_market bs fs"
  by (simp_all add: bound_market_def sample_store_def sample_market_def)

lemma scoped_instances: "scoped pr ws p (s\<lparr>tenant_agents := ts\<rparr>) = scoped pr ws p s"
proof -
  have "find_workspace ws (s\<lparr>tenant_agents := ts\<rparr>) = find_workspace ws s"
    "member_role ws i j (s\<lparr>tenant_agents := ts\<rparr>) = member_role ws i j s" for i j
    by (simp_all add: find_workspace_def member_role_def)
  then show ?thesis by (simp only: scoped_def)
qed

abbreviation with_instance :: "db \<Rightarrow> tenant_agent_row \<Rightarrow> db" where
  "with_instance s t \<equiv> s\<lparr>tenant_agents := [t]\<rparr>"

lemma sample_pin: "ta_version (sample_instance status reason v) = v"
  by (simp add: sample_instance_def)

lemma sample_pinned:
  "manifest_of 11 (bound_market bs es) = Inr (sample_manifest ''1.0.0'')"
  "manifest_of 12 (bound_market bs es) = Inr (sample_manifest ''1.1.0'')"
  by (simp_all add: manifest_of_def version_row_def market_defs)

lemma sample_row_12:
  "agent_row_of 10 60 (bound_market bs es, with_instance s (sample_instance status reason 12)) =
    Inr \<lparr>ir_agent = sample_instance status reason 12, ir_slug = ''seo'', ir_version = ''1.1.0''\<rparr>"
proof -
  have "find_instance 10 60 (with_instance s (sample_instance status reason 12)) = Some (sample_instance status reason 12)"
    by (simp add: find_instance_def sample_instance_def)
  moreover have "joined_row (bound_market bs es) (sample_instance status reason 12) =
      Some \<lparr>ir_agent = sample_instance status reason 12, ir_slug = ''seo'', ir_version = ''1.1.0''\<rparr>"
    by (simp add: joined_row_def find_catalog_id_def version_row_def sample_instance_def sample_catalog_agent_def market_defs)
  ultimately show ?thesis by (simp add: agent_row_of_def)
qed

lemma sample_settles_ready:
  assumes "status \<noteq> Disabled" "reason \<noteq> Some ''operator''"
  shows "settle_status (env_at 0 k) 10 60 (sample_manifest x) (bound_market [sample_binding] es, with_instance s (sample_instance status reason v)) =
    Inr (bound_market [sample_binding] es, with_instance s (sample_instance Active None v))"
proof -
  have r: "rd_ready (readiness (sample_manifest x) (agent_bindings 10 60 (bound_market [sample_binding] es)))"
    by (rule sample_ready) simp_all
  show ?thesis
    using sample_settles[of status reason "sample_manifest x" "bound_market [sample_binding] es" "env_at 0 k" v s] assms r
    by (simp add: instance_settled)
qed

lemma sample_settles_unready:
  assumes "status \<noteq> Disabled"
  shows "settle_status (env_at 0 k) 10 60 (sample_manifest x) (bound_market [] es, with_instance s (sample_instance status reason v)) =
    Inr (bound_market [] es, with_instance s (sample_instance Paused (Some ''not_ready'') v))"
proof -
  have r: "\<not> rd_ready (readiness (sample_manifest x) (agent_bindings 10 60 (bound_market [] es)))"
    by (rule sample_unready) simp
  show ?thesis
    using sample_settles[of status reason "sample_manifest x" "bound_market [] es" "env_at 0 k" v s] assms r
    by (simp add: instance_settled)
qed

lemma sample_clear:
  assumes "status \<noteq> Disabled" "scoped alice 10 ManageAgents s = Inr u"
  shows "\<exists>view. clear_binding (env_at 0 k) alice 10 60 ''cms'' req
      (bound_market [sample_binding] es, with_instance s (sample_instance status reason 12)) =
    Inr (view, (bound_market [] es, audit alice 10 ''agent.binding_changed'' req None
      (with_instance s (sample_instance Paused (Some ''not_ready'') 12)))) \<and> \<not> rd_ready (tg_readiness view)"
proof -
  let ?st = "(bound_market [] es, audit alice 10 ''agent.binding_changed'' req None
      (with_instance s (sample_instance Paused (Some ''not_ready'') 12)))"
  have cl: "clear_bindings (\<lambda>b. bd_agent b = 60 \<and> bd_workspace b = 10 \<and> bd_key b = ''cms'') (bound_market [sample_binding] es) = bound_market [] es"
    by (simp add: clear_bindings_def sample_binding_def)
  have "\<exists>v c. view_after 10 60 ?st = Inr (v, ?st) \<and> tg_readiness v = readiness (sample_manifest c) (agent_bindings 10 60 (bound_market [] es))"
    by (rule sample_answers[where t = "sample_instance Paused (Some ''not_ready'') 12"]) (simp_all add: sample_instance_def)
  then obtain v where v: "view_after 10 60 ?st = Inr (v, ?st)" "\<not> rd_ready (tg_readiness v)"
    using sample_unready[of "bound_market [] es"] by auto
  have "clear_binding (env_at 0 k) alice 10 60 ''cms'' req
      (bound_market [sample_binding] es, with_instance s (sample_instance status reason 12)) = Inr (v, ?st)"
    unfolding clear_binding_def snd_conv fst_conv scoped_instances assms(2) sample_row_12 bind_res_simps instance_row.simps
      sample_pin sample_pinned Let_def cl sample_settles_unready[OF assms(1)] prod.case by (rule v(1))
  with v(2) show ?thesis by blast
qed

text \<open>Binding again.\<close>

lemma sample_set:
  assumes "status \<noteq> Disabled" "reason \<noteq> Some ''operator''" "scoped alice 10 ManageAgents s = Inr u"
  shows "\<exists>view. set_binding (env_at 0 71) alice 10 60 ''cms'' 70 req
      (bound_market [] es, with_instance s (sample_instance status reason 12)) =
    Inr (view, (bound_market [sample_binding] es, audit alice 10 ''agent.binding_changed'' req None
      (with_instance s (sample_instance Active None 12)))) \<and> rd_ready (tg_readiness view)"
proof -
  let ?st = "(bound_market [sample_binding] es, audit alice 10 ''agent.binding_changed'' req None
      (with_instance s (sample_instance Active None 12)))"
  have w: "write_binding (env_at 0 71) 0 10 60 (sample_manifest ''1.1.0'') ''cms'' 70 (bound_market [] es) = Inr (bound_market [sample_binding] es)"
    by (simp add: write_binding_def integrations_def sample_manifest_def sample_connection_def env_at_def Let_def sample_binding_def
        sql_exists_def)
  have "\<exists>v c. view_after 10 60 ?st = Inr (v, ?st) \<and>
      tg_readiness v = readiness (sample_manifest c) (agent_bindings 10 60 (bound_market [sample_binding] es))"
    by (rule sample_answers[where t = "sample_instance Active None 12"]) (simp_all add: sample_instance_def)
  then obtain v where v: "view_after 10 60 ?st = Inr (v, ?st)" "rd_ready (tg_readiness v)"
    using sample_ready[of "bound_market [sample_binding] es"] by auto
  have "set_binding (env_at 0 71) alice 10 60 ''cms'' 70 req
      (bound_market [] es, with_instance s (sample_instance status reason 12)) = Inr (v, ?st)"
    unfolding set_binding_def snd_conv fst_conv scoped_instances assms(3) sample_row_12 bind_res_simps instance_row.simps
      sample_pin sample_pinned w sample_settles_ready[OF assms(1,2)] prod.case by (rule v(1))
  with v(2) show ?thesis by blast
qed

text \<open>A rollback from the second release to the first.\<close>

lemma sample_rollback:
  assumes u: "scoped alice 10 ManageAgents s = Inr u"
  shows "\<exists>view st'. rollback (env_at 0 90) alice 10 60 req
      (bound_market [sample_binding] [sample_event (Some 11) 12 Updated 5], with_instance s (sample_instance Active None 12)) = Inr (view, st')"
proof -
  let ?e = "sample_event (Some 11) 12 Updated 5"
  let ?n = "\<lparr>ve_id = 90, ve_workspace = 10, ve_agent = 60, ve_from = Some 12, ve_to = 11,
    ve_action = RolledBackTo, ve_issuer = issuer alice, ve_subject = subject alice, ve_request = req, ve_created = 0\<rparr>"
  have l: "Option.bind (last_move 10 60 (bound_market [sample_binding] [?e])) ve_from = Some 11"
    by (simp add: last_move_def order_limit_def sample_event_def)
  have "update_instance 10 60 (repinned (env_at 0 90) 11) (with_instance s (sample_instance Active None 12)) =
      Inr (with_instance s (repinned (env_at 0 90) 11 (sample_instance Active None 12)))"
    by (rule sample_update) (simp_all add: sample_check, simp_all add: sample_instance_def)
  moreover have "repinned (env_at 0 90) 11 (sample_instance Active None 12) = sample_instance Active None 11"
    by (simp add: repinned_def sample_instance_def env_at_def)
  ultimately have r: "repin (env_at 0 90) 0 alice 10 60 12 11 RolledBackTo req
      (bound_market [sample_binding] [?e], with_instance s (sample_instance Active None 12)) =
    Inr (bound_market [sample_binding] [?e, ?n], with_instance s (sample_instance Active None 11))"
    by (simp add: repin_def record_version_def env_at_def)
  have "\<exists>v c. view_after 10 60 (bound_market [sample_binding] [?e, ?n], audit alice 10 ''agent.rolled_back'' req None
      (with_instance s (sample_instance Active None 11))) = Inr (v, (bound_market [sample_binding] [?e, ?n],
      audit alice 10 ''agent.rolled_back'' req None (with_instance s (sample_instance Active None 11)))) \<and>
      tg_readiness v = readiness (sample_manifest c) (agent_bindings 10 60 (bound_market [sample_binding] [?e, ?n]))"
    by (rule sample_answers[where t = "sample_instance Active None 11"]) (simp_all add: sample_instance_def)
  then obtain v where v: "view_after 10 60 (bound_market [sample_binding] [?e, ?n], audit alice 10 ''agent.rolled_back'' req None
      (with_instance s (sample_instance Active None 11))) = Inr (v, (bound_market [sample_binding] [?e, ?n],
      audit alice 10 ''agent.rolled_back'' req None (with_instance s (sample_instance Active None 11))))" by blast
  have d: "(11::uuid) \<noteq> 12" "Active \<noteq> Disabled" "None \<noteq> Some ''operator''" by simp_all
  have "rollback (env_at 0 90) alice 10 60 req
      (bound_market [sample_binding] [?e], with_instance s (sample_instance Active None 12)) =
    Inr (v, (bound_market [sample_binding] [?e, ?n], audit alice 10 ''agent.rolled_back'' req None (with_instance s (sample_instance Active None 11))))"
    unfolding rollback_def snd_conv fst_conv scoped_instances u sample_row_12 bind_res_simps instance_row.simps l option.case
      sample_pin if_not_P[OF d(1)] sample_pinned r sample_settles_ready[OF d(2,3)] prod.case by (rule v)
  then show ?thesis by blast
qed

end
