(* ===== verification/Platform_Properties.thy ===== *)
theory Platform_Properties
  imports Tenant_Samples System_Properties
begin

text \<open>
  The workspaces' agents in every state the platform can reach: pins and histories, what a status says,
  what a move between versions leaves.
\<close>

section \<open>Every reachable state\<close>

interpretation platform: guarded_system platform_step "\<lambda>st. platform_ok st \<and> history_ok st" platform_moves
  by unfold_locales (use platform_step_ok platform_step_history platform_moves_refl platform_moves_trans in blast)+



section \<open>Status\<close>



text \<open>C40: The pause an operator asked for does not last: clearing a required binding of the paused instance and
  binding it again leaves the instance active.\<close>

theorem operator_pause_lost:
  assumes paused: "find_instance ws i (snd st) = Some t" "ta_status t = Paused" "ta_paused_reason t = Some ''operator''"
    and clear: "clear_binding env pr ws i key req st = Inr (v1, st1)" "\<not> rd_ready (tg_readiness v1)"
    and bind: "set_binding env' pr' ws i key conn req' st1 = Inr (v2, st2)" "rd_ready (tg_readiness v2)"
  shows "find_instance ws i (snd st2) = Some (ir_agent (tg_row v2)) \<and> ta_status (ir_agent (tg_row v2)) = Active"
proof -
  obtain row mf where row: "agent_row_of ws i st = Inr row" and mf: "manifest_of (ta_version (ir_agent row)) (fst st) = Inr mf"
    and e: "bind_res (settle_status env ws i mf
      (clear_bindings (\<lambda>b. bd_agent b = i \<and> bd_workspace b = ws \<and> bd_key b = key) (fst st), snd st)) (\<lambda>(m2, s2).
      view_after ws i (m2, audit pr ws ''agent.binding_changed'' req None s2)) = Inr (v1, st1)"
    using clear(1) unfolding clear_binding_def Let_def by (simp only: bind_res_Inr) blast
  have t: "ir_agent row = t" using agent_row_ofD(1)[OF row] paused(1) by simp
  note a = answered[OF e, unfolded fst_conv snd_conv, OF paused(1)]
  have mf': "manifest_of (ta_version t) (clear_bindings (\<lambda>b. bd_agent b = i \<and> bd_workspace b = ws \<and> bd_key b = key) (fst st)) = Inr mf"
    using mf t by (simp add: manifest_of_def version_row_def clear_bindings_def)
  note a = a[OF mf']
  have 1: "ta_status (ir_agent (tg_row v1)) \<noteq> Disabled" "ta_paused_reason (ir_agent (tg_row v1)) \<noteq> Some ''operator''"
    using a(5,7) paused clear(2) by (auto simp: status_follows_def)
  obtain row2 mf2 m2 where row2: "agent_row_of ws i st1 = Inr row2" and mf2: "manifest_of (ta_version (ir_agent row2)) (fst st1) = Inr mf2"
    and b2: "write_binding env' 0 ws i mf2 key conn (fst st1) = Inr m2"
    and e2: "bind_res (settle_status env' ws i mf2 (m2, snd st1)) (\<lambda>(m2, s2).
      view_after ws i (m2, audit pr' ws ''agent.binding_changed'' req' None s2)) = Inr (v2, st2)"
    using bind(1) unfolding set_binding_def by (simp only: bind_res_Inr) blast
  have "ir_agent row2 = ir_agent (tg_row v1)" using agent_row_ofD(1)[OF row2] a(1) by simp
  then have "manifest_of (ta_version (ir_agent (tg_row v1))) m2 = Inr mf2"
    using mf2 write_binding_table[OF b2] by (auto simp: manifest_of_def version_row_def)
  from answered(1,6)[OF e2, unfolded fst_conv snd_conv, OF a(1) this] show ?thesis using bind(2) 1 by blast
qed

theorem operator_pause_lost_witness:
  "\<exists>v1 v2 st1 st2. clear_binding (env_at 0 90) alice 10 60 ''cms'' ''r''
      (bound_market [sample_binding] [], with_instance queued_db (sample_instance Paused (Some ''operator'') 12)) = Inr (v1, st1) \<and>
    set_binding (env_at 0 71) alice 10 60 ''cms'' 70 ''r'' st1 = Inr (v2, st2) \<and> ta_status (ir_agent (tg_row v2)) = Active"
proof -
  let ?s1 = "with_instance queued_db (sample_instance Paused (Some ''operator'') 12)"
  let ?a = "audit alice 10 ''agent.binding_changed'' ''r'' None queued_db"
  have a: "audit alice 10 ''agent.binding_changed'' ''r'' None (with_instance queued_db t) = with_instance ?a t" for t
    by (simp add: audit_def)
  obtain u where u: "scoped alice 10 ManageAgents queued_db = Inr u"
    using sample_scoped[of "[]" "[]" "sample_instance Active None 12"] by (auto simp: sample_store_def scoped_instances)
  then have u': "scoped alice 10 ManageAgents ?a = Inr u" by simp
  obtain v1 where c: "clear_binding (env_at 0 90) alice 10 60 ''cms'' ''r'' (bound_market [sample_binding] [], ?s1) =
      Inr (v1, (bound_market [] [], with_instance ?a (sample_instance Paused (Some ''not_ready'') 12)))" "\<not> rd_ready (tg_readiness v1)"
    using sample_clear[OF _ u, of Paused 90 "''r''" "[]" "Some ''operator''"] unfolding a by auto
  obtain v2 st2 where b: "set_binding (env_at 0 71) alice 10 60 ''cms'' 70 ''r''
      (bound_market [] [], with_instance ?a (sample_instance Paused (Some ''not_ready'') 12)) = Inr (v2, st2)" "rd_ready (tg_readiness v2)"
    using sample_set[OF _ _ u', of Paused "Some ''not_ready''" "''r''" "[]"] by auto
  have f: "find_instance 10 60 (snd (bound_market [sample_binding] [], ?s1)) = Some (sample_instance Paused (Some ''operator'') 12)"
    by (simp add: find_instance_def sample_instance_def)
  have "ta_status (ir_agent (tg_row v2)) = Active"
    using operator_pause_lost[OF f _ _ c b] by (simp add: sample_instance_def)
  with c b show ?thesis by blast
qed

section \<open>Moves\<close>

text \<open>C17: Updates, rollbacks and automatic updates move only the pin: the name, channel, update mode,
  instructions, settings and bindings a workspace chose stay, and the events recorded lead from the old
  pin of every instance to the new one.\<close>

theorem configuration_survives:
  assumes inst: "instances_ok (snd st)" and t: "t \<in> set (tenant_agents (snd st))"
    and op: "move_version env runtime pr ws i label req st = Inr (v, st') \<or> rollback env pr ws i req st = Inr (v, st') \<or>
      apply_automatic_updates env runtime locked limit c st = Inr (x, st')"
  shows "\<exists>u es. u \<in> set (tenant_agents (snd st')) \<and> ta_id u = ta_id t \<and> config_kept t u \<and>
    bindings (fst st') = bindings (fst st) \<and> version_events (fst st') = version_events (fst st) @ es \<and>
    follows (Some (ta_version t)) (filter (\<lambda>e. ve_agent e = ta_id t) es) (Some (ta_version u))"
proof -
  have f: "pins_follow config_kept st st'"
    using op configured.follow_move_version[OF inst] configured.follow_rollback[OF inst] configured.follow_automatic[OF inst]
    by (elim disjE) assumption+
  have b: "bindings (fst st') = bindings (fst st)"
    using op by (elim disjE) (erule move_version_bindings rollback_bindings automatic_bindings)+
  show ?thesis using f t b unfolding pins_follow_def moves_of_def by blast
qed

theorem configuration_survives_witness:
  "\<exists>(u :: tenant_agent_row). ta_id u = 60 \<and> config_kept (sample_instance Active None 12) u"
proof -
  obtain x where u: "scoped alice 10 ManageAgents queued_db = Inr x"
    using sample_scoped[of "[]" "[]" "sample_instance Active None 12"] by (auto simp: sample_store_def scoped_instances)
  let ?st = "(bound_market [sample_binding] [sample_event (Some 11) 12 Updated 5], with_instance queued_db (sample_instance Active None 12))"
  obtain v st' where r: "rollback (env_at 0 90) alice 10 60 ''r'' ?st = Inr (v, st')" using sample_rollback[OF u] by blast
  have i: "instances_ok (snd ?st)" "sample_instance Active None 12 \<in> set (tenant_agents (snd ?st))"
    by (simp_all add: instances_ok_def named_def instance_check_def sample_instance_def btrim_def length_between_def)
  from configuration_survives[OF i disjI2[OF disjI1[OF r]]] show ?thesis by (auto simp: sample_instance_def)
qed

text \<open>C39: A rollback of an instance returns it to the version its latest recorded move left, and records the
  move.\<close>

theorem tenant_rollback_returns:
  assumes run: "rollback env pr ws i req st = Inr (v, st')"
  shows "\<exists>e \<in> set (version_events (fst st)). ve_agent e = i \<and> ve_workspace e = ws \<and> ve_from e \<noteq> None \<and>
    (\<forall>f \<in> set (version_events (fst st)). ve_agent f = i \<and> ve_workspace f = ws \<and> ve_from f \<noteq> None \<longrightarrow> ve_created f \<le> ve_created e) \<and>
    ve_from e = Some (ta_version (ir_agent (tg_row v))) \<and> find_instance ws i (snd st') = Some (ir_agent (tg_row v)) \<and>
    (\<exists>n. version_events (fst st') = version_events (fst st) @ [n] \<and> ve_agent n = i \<and> ve_action n = RolledBackTo \<and>
       ve_to n = ta_version (ir_agent (tg_row v)))"
  using run
proof (rule rollbackE)
  fix row e previous mf
  assume row: "agent_row_of ws i st = Inr row" and l: "last_move ws i (fst st) = Some e" and prev: "ve_from e = Some previous"
    and mf: "manifest_of previous (fst st) = Inr mf"
    and w: "bind_res (repin env 0 pr ws i (ta_version (ir_agent row)) previous RolledBackTo req st) (\<lambda>st1.
      bind_res (settle_status env ws i mf st1) (\<lambda>(m2, s2). view_after ws i (m2, audit pr ws ''agent.rolled_back'' req None s2))) = Inr (v, st')"
  note a = moved_row[OF w agent_row_ofD(1)[OF row] mf]
  let ?n = "\<lparr>ve_id = tx_uuid env 0, ve_workspace = ws, ve_agent = i, ve_from = Some (ta_version (ir_agent row)), ve_to = previous,
    ve_action = RolledBackTo, ve_issuer = issuer pr, ve_subject = subject pr, ve_request = req, ve_created = tx_now env\<rparr>"
  have "\<exists>n. version_events (fst st') = version_events (fst st) @ [n] \<and> ve_agent n = i \<and> ve_action n = RolledBackTo \<and>
      ve_to n = ta_version (ir_agent (tg_row v))"
    by (rule exI[of _ ?n]) (simp add: a(2,3) record_version_def)
  then show ?thesis
    using last_moveD[OF l] last_move_latest[OF l] prev a(1,2) by (intro bexI[of _ e]) auto
qed

theorem tenant_rollback_returns_witness:
  "\<exists>v st'. rollback (env_at 0 90) alice 10 60 ''r''
      (bound_market [sample_binding] [sample_event (Some 11) 12 Updated 5], with_instance queued_db (sample_instance Active None 12)) =
    Inr (v, st') \<and> ta_version (ir_agent (tg_row v)) = 11"
proof -
  obtain x where u: "scoped alice 10 ManageAgents queued_db = Inr x"
    using sample_scoped[of "[]" "[]" "sample_instance Active None 12"] by (auto simp: sample_store_def scoped_instances)
  obtain v st' where r: "rollback (env_at 0 90) alice 10 60 ''r''
      (bound_market [sample_binding] [sample_event (Some 11) 12 Updated 5], with_instance queued_db (sample_instance Active None 12)) =
    Inr (v, st')" using sample_rollback[OF u] by blast
  from tenant_rollback_returns[OF r] have "ta_version (ir_agent (tg_row v)) = 11" by (auto simp: sample_event_def)
  with r show ?thesis by blast
qed

text \<open>The rollback that follows a rollback moves forward again, to the version the first one left.\<close>

lemma second_rollback_advances:
  assumes 1: "rollback env pr ws i req st = Inr (v1, st1)" and t: "find_instance ws i (snd st) = Some t"
    and later: "\<forall>e \<in> set (version_events (fst st)). ve_created e < tx_now env"
    and 2: "rollback env' pr' ws i req' st1 = Inr (v2, st2)"
  shows "ta_version (ir_agent (tg_row v2)) = ta_version t"
proof -
  from 1 obtain previous where evs: "fst st1 = record_version env 0 pr ws i (Some (ta_version t)) previous RolledBackTo req (fst st)"
  proof (rule rollbackE)
    fix row e previous mf
    assume row: "agent_row_of ws i st = Inr row" and mf: "manifest_of previous (fst st) = Inr mf"
      and w: "bind_res (repin env 0 pr ws i (ta_version (ir_agent row)) previous RolledBackTo req st) (\<lambda>st1.
        bind_res (settle_status env ws i mf st1) (\<lambda>(m2, s2). view_after ws i (m2, audit pr ws ''agent.rolled_back'' req None s2))) = Inr (v1, st1)"
    have "ir_agent row = t" using agent_row_ofD(1)[OF row] t by simp
    then show thesis using moved_row(3)[OF w agent_row_ofD(1)[OF row] mf] that by simp
  qed
  from 2 show ?thesis
  proof (rule rollbackE)
    fix row e previous' mf
    assume row: "agent_row_of ws i st1 = Inr row" and l: "last_move ws i (fst st1) = Some e" and prev: "ve_from e = Some previous'"
      and mf: "manifest_of previous' (fst st1) = Inr mf"
      and w: "bind_res (repin env' 0 pr' ws i (ta_version (ir_agent row)) previous' RolledBackTo req' st1) (\<lambda>st1.
        bind_res (settle_status env' ws i mf st1) (\<lambda>(m2, s2). view_after ws i (m2, audit pr' ws ''agent.rolled_back'' req' None s2))) = Inr (v2, st2)"
    have "tx_now env \<le> ve_created e"
      by (rule last_move_latest[OF l, of "\<lparr>ve_id = tx_uuid env 0, ve_workspace = ws, ve_agent = i, ve_from = Some (ta_version t),
        ve_to = previous, ve_action = RolledBackTo, ve_issuer = issuer pr, ve_subject = subject pr, ve_request = req,
        ve_created = tx_now env\<rparr>", simplified]) (simp add: evs record_version_def)
    moreover have "e \<in> set (version_events (fst st1))" by (rule last_moveD(1)[OF l])
    ultimately have "ve_from e = Some (ta_version t)" using later by (auto simp: evs record_version_def)
    then show ?thesis using moved_row(2)[OF w agent_row_ofD(1)[OF row] mf] prev by simp
  qed
qed

end
