(* ===== verification/Tenant_Tools.thy ===== *)
theory Tenant_Tools
  imports Tenant_Status
begin

text \<open>
  The tools a run of a standard agent is given: each alias names an enabled tool of the workspace with a
  policy, a side effect outside the run's own tasks asks for approval unless the workspace had decided
  otherwise, and every required tool is there.
\<close>

section \<open>Contracts\<close>

definition contract_guarded :: "tool_contract \<Rightarrow> bool" where
  "contract_guarded c \<longleftrightarrow> tk_server c \<in> {''tasks'', ''browser'', ''connector''} \<and>
     (tk_effect c \<noteq> ReadEffect \<and> tk_server c \<noteq> ''tasks'' \<longrightarrow> tk_decision c = RequireApproval)"

lemma contracts_guarded:
  "contract_guarded (task_contract public)" "contract_guarded (browser_contract public site)"
  "contract_guarded (connector_contract public df e c)"
  by (simp_all add: contract_guarded_def task_contract_def browser_contract_def connector_contract_def Let_def)

lemma plan_browser_guarded:
  assumes "plan_browser cfg settings public = Governed c entry site"
  shows "contract_guarded c"
proof -
  obtain u where "map_of settings ''site_url'' = Some (JStr u)"
    using assms unfolding plan_browser_def by (simp split: option.splits json.splits)
  then have "\<exists>x. c = browser_contract public x"
    using assms unfolding plan_browser_def by (simp add: Let_def split: if_splits) blast
  then show ?thesis using contracts_guarded(2) by blast
qed

lemma plan_connector_guarded:
  assumes "plan_connector ws m bs public key capability = Governed c entry site"
  shows "contract_guarded c"
proof -
  have "\<exists>d e r. c = connector_contract public d e r"
    using assms unfolding plan_connector_def by (simp split: option.splits if_splits) blast
  then show ?thesis using contracts_guarded(3) by blast
qed

lemma plan_tool_guarded:
  assumes "plan_tool cfg ws m mf bs settings public = Governed c entry site"
  shows "contract_guarded c"
proof -
  consider "c = task_contract public" | "plan_browser cfg settings public = Governed c entry site"
    | key capability where "plan_connector ws m bs public key capability = Governed c entry site"
    using assms unfolding plan_tool_def by (simp split: if_splits option.splits prod.splits)
  then show ?thesis
    by cases (simp_all only: contracts_guarded plan_browser_guarded plan_connector_guarded)
qed

section \<open>Registering\<close>

text \<open>The tables of the registry only grow, at their end.\<close>

definition registry_grows :: "db \<Rightarrow> db \<Rightarrow> bool" where
  "registry_grows s s' \<longleftrightarrow> (\<exists>ts ps. tool_definitions s' = tool_definitions s @ ts \<and> tool_policies s' = tool_policies s @ ps)"

lemma registry_grows_refl: "registry_grows s s"
  unfolding registry_grows_def by (intro exI[of _ "[]"]) simp

lemma registry_grows_trans: "registry_grows s t \<Longrightarrow> registry_grows t u \<Longrightarrow> registry_grows s u"
  by (auto simp: registry_grows_def)

definition ready_tool :: "uuid \<Rightarrow> string \<Rightarrow> db \<Rightarrow> bool" where
  "ready_tool ws name s \<longleftrightarrow> (\<exists>t. find_tool ws name s = Some t \<and> t_enabled t \<and>
     (\<exists>p \<in> set (tool_policies s). tp_workspace p = ws \<and> tp_tool p = t_id t))"

lemma ready_tool_grows:
  assumes "registry_grows s s'" "ready_tool ws name s"
  shows "ready_tool ws name s'"
  using assms by (auto simp: registry_grows_def ready_tool_def find_tool_def find_append)

text \<open>A policy that registering wrote asks for approval of every effect outside the run's tasks.\<close>

definition careful :: "db \<Rightarrow> policy_row \<Rightarrow> bool" where
  "careful s p \<longleftrightarrow> (\<exists>t \<in> set (tool_definitions s). t_id t = tp_tool p \<and> t_workspace t = tp_workspace p \<and>
     (t_side_effect t \<noteq> ReadEffect \<and> t_server_key t \<noteq> ''tasks'' \<longrightarrow> tp_decision p = RequireApproval))"

lemma careful_grows: "registry_grows s s' \<Longrightarrow> careful s p \<Longrightarrow> careful s' p"
  by (auto simp: registry_grows_def careful_def)

definition policies_careful :: "db \<Rightarrow> db \<Rightarrow> bool" where
  "policies_careful s s' \<longleftrightarrow> (\<forall>p \<in> set (tool_policies s'). p \<in> set (tool_policies s) \<or> careful s' p)"

lemma policies_careful_trans:
  assumes "policies_careful s t" "registry_grows t u" "policies_careful t u"
  shows "policies_careful s u"
  using assms careful_grows unfolding policies_careful_def by blast

lemma register_tool_safe:
  assumes g: "contract_guarded c" and w: "register_tool env k pr ws required c s = Inr (usable, s')"
  shows "registry_grows s s' \<and> policies_careful s s' \<and> (usable \<longrightarrow> ready_tool ws (tk_name c) s') \<and> (required \<longrightarrow> usable)"
proof -
  obtain s1 where i: "insert_tool (contract_row env k pr ws c) s = Inr s1"
    using w by (auto simp: register_tool_def)
  have s1: "tool_policies s1 = tool_policies s" "registry_grows s s1"
    using i by (auto simp: insert_tool_def registry_grows_def split: if_splits)
  obtain t where t: "find_tool ws (tk_name c) s1 = Some t" "contract_matches c t"
    using w i by (auto simp: register_tool_def split: option.splits if_splits)
  show ?thesis
  proof (cases "t_enabled t")
    case False
    then have "s' = s1" "\<not> usable" "\<not> required" using w i t by (auto simp: register_tool_def split: if_splits)
    then show ?thesis using s1 by (simp add: policies_careful_def)
  next
    case True
    then have s': "s' = insert_policy env pr c t s1" "usable" using w i t by (auto simp: register_tool_def)
    have tws: "t_workspace t = ws" and mem: "t \<in> set (tool_definitions s1)"
      using find_SomeD[OF t(1)[unfolded find_tool_def]] by simp_all
    have tools: "tool_definitions s' = tool_definitions s1" by (simp add: s' insert_policy_def)
    have grow: "registry_grows s1 s'" by (auto simp: registry_grows_def s' insert_policy_def)
    have "careful s' p" if "p \<in> set (tool_policies s')" "p \<notin> set (tool_policies s1)" for p
    proof -
      have p: "tp_workspace p = ws" "tp_tool p = t_id t" "tp_decision p = tk_decision c"
        using that by (auto simp: s' insert_policy_def tws split: if_splits)
      have "t_side_effect t = tk_effect c" "t_server_key t = tk_server c" using t(2) by (simp_all add: contract_matches_def)
      then show ?thesis using mem p tws g by (auto simp: careful_def tools contract_guarded_def)
    qed
    then have "policies_careful s s'" using s1(1) by (auto simp: policies_careful_def)
    moreover have "\<exists>p \<in> set (tool_policies s'). tp_workspace p = ws \<and> tp_tool p = t_id t"
      by (auto simp: s' insert_policy_def sql_exists_iff tws)
    then have "ready_tool ws (tk_name c) s'"
      using True t(1) by (auto simp: ready_tool_def find_tool_def tools)
    ultimately show ?thesis using registry_grows_trans[OF s1(2) grow] s'(2) by simp
  qed
qed

section \<open>The contracts of a run\<close>

text \<open>What holds of the collected contracts after any part of the manifest's tools.\<close>

definition contracts_ok :: "uuid \<Rightarrow> string list \<Rightarrow> agent_manifest \<Rightarrow> run_contracts \<Rightarrow> db \<Rightarrow> bool" where
  "contracts_ok ws seen mf rc s \<longleftrightarrow> set (rn_allowed rc) \<subseteq> set seen \<and>
     set (mf_required_tools mf) \<inter> set seen \<subseteq> set (rn_allowed rc) \<and>
     (\<forall>(public, name) \<in> set (rn_aliases rc). public \<in> set (rn_allowed rc) \<and> ready_tool ws name s)"

lemma add_tool_safe:
  assumes ok: "contracts_ok ws seen mf rc s"
    and w: "add_tool env k cfg pr ws m mf bs settings public rc s = Inr (rc', s')"
  shows "contracts_ok ws (seen @ [public]) mf rc' s' \<and> registry_grows s s' \<and> policies_careful s s'"
proof (cases "plan_tool cfg ws m mf bs settings public")
  case Ungoverned
  then have "rc' = allow_tool public rc" "s' = s" using w by (simp_all add: add_tool_def)
  then show ?thesis using ok by (auto simp: contracts_ok_def allow_tool_def registry_grows_refl policies_careful_def)
next
  case Unavailable
  then have "rc' = rc" "s' = s" "public \<notin> set (mf_required_tools mf)" using w by (auto simp: add_tool_def Let_def split: if_splits)
  then show ?thesis using ok by (auto simp: contracts_ok_def registry_grows_refl policies_careful_def)
next
  case (Governed c entry site)
  obtain usable where r: "register_tool env k pr ws (public \<in> set (mf_required_tools mf)) c s = Inr (usable, s')"
    and rc': "rc' = (if usable then govern_tool public c entry site rc else rc)"
    using w Governed by (auto simp: add_tool_def Let_def)
  note safe = register_tool_safe[OF plan_tool_guarded[OF Governed] r]
  have old: "ready_tool ws name s'" if "(x, name) \<in> set (rn_aliases rc)" for x name
    using ok that ready_tool_grows[of s s'] safe by (auto simp: contracts_ok_def)
  show ?thesis
    using safe ok old by (auto simp: contracts_ok_def rc' govern_tool_def)
qed

lemma add_tools_safe:
  "add_tools env k cfg pr ws m mf bs settings ts rc s = Inr (rc', s') \<Longrightarrow> contracts_ok ws seen mf rc s \<Longrightarrow>
     contracts_ok ws (seen @ ts) mf rc' s' \<and> registry_grows s s' \<and> policies_careful s s'"
proof (induction ts arbitrary: k rc s seen)
  case Nil
  then show ?case by (simp add: registry_grows_refl policies_careful_def)
next
  case (Cons t ts)
  obtain rc1 s1 where 1: "add_tool env k cfg pr ws m mf bs settings t rc s = Inr (rc1, s1)"
    "add_tools env (Suc k) cfg pr ws m mf bs settings ts rc1 s1 = Inr (rc', s')"
    using Cons.prems(1) by auto
  note a = add_tool_safe[OF Cons.prems(2) 1(1)]
  have "contracts_ok ws ((seen @ [t]) @ ts) mf rc' s' \<and> registry_grows s1 s' \<and> policies_careful s1 s'"
    using Cons.IH[OF 1(2)] a by blast
  then show ?case using a registry_grows_trans policies_careful_trans by fastforce
qed

lemma run_contracts_safe:
  assumes "run_contracts_of env k cfg pr ws m mf bs settings s = Inr (rc, s')"
  shows "contracts_ok ws (mf_required_tools mf @ mf_optional_tools mf) mf rc s' \<and> registry_grows s s' \<and> policies_careful s s'"
  using add_tools_safe[OF assms[unfolded run_contracts_of_def], of "[]"] by (simp add: contracts_ok_def no_contracts_def)

end
