(* ===== verification/Tenant_Run_Properties.thy ===== *)
theory Tenant_Run_Properties
  imports Tenant_Tools Tenant_Samples Run_Properties System_Properties
begin

text \<open>
  Runs of standard agents: the tools they are given, and that a run that was created can be executed with
  what its instance was configured with.
\<close>

section \<open>The frozen snapshot\<close>

lemma snapshot_read:
  assumes "mf_instructions mf \<noteq> []" "mo_primary (mf_model_policy mf) \<noteq> []"
  shows "snapshot_profile (Some (run_snapshot row mf bs rc)) =
    Some \<lparr>rp_instructions = Some (if given (ta_instructions (ir_agent row)) then the (ta_instructions (ir_agent row)) else mf_instructions mf),
      rp_model_profile = Some (mo_primary (mf_model_policy mf)), rp_allowed = Some (rn_allowed rc), rp_aliases = Some (rn_aliases rc)\<rparr>"
proof -
  have strs: "list_all is_str (map JStr xs)" "map the_str (map JStr xs) = xs" for xs
    by (induction xs) simp_all
  have pairs: "list_all (is_str \<circ> snd) (map (\<lambda>(a, b). (a, JStr b)) xs)"
    "map (\<lambda>(k, v). (k, the_str v)) (map (\<lambda>(a, b). (a, JStr b)) xs) = xs" for xs :: "(string \<times> string) list"
    by (induction xs) auto
  let ?i = "if given (ta_instructions (ir_agent row)) then the (ta_instructions (ir_agent row)) else mf_instructions mf"
  have "?i \<noteq> []" using assms(1) by (auto simp: given_def split: option.splits)
  then show ?thesis
    using assms(2) strs pairs unfolding run_snapshot_def snapshot_profile_def Let_def
    by (simp add: json_strs_def split del: if_split)
qed

lemma manifest_usable:
  assumes ok: "catalogue_ok m" and mf: "manifest_of v m = Inr mf"
  shows "mf_instructions mf \<noteq> []" "mo_primary (mf_model_policy mf) \<noteq> []"
proof -
  obtain r where "r \<in> set (catalog_versions m)" "mf = cv_manifest r"
    using mf by (auto simp: manifest_of_def version_row_def dest!: find_SomeD split: option.splits)
  then have "define_agent mf = Inr mf" using ok by (auto simp: catalogue_ok_def releases_ok_def valid_release_def)
  then have f: "fields_ok mf" by (auto simp: define_agent_def split: if_splits)
  then show "mf_instructions mf \<noteq> []" by (auto simp: fields_ok_def chars_between_def)
  have "\<not> fullmatch PROFILE []" by code_simp
  then show "mo_primary (mf_model_policy mf) \<noteq> []" using f by (auto simp: fields_ok_def model_policy_ok_def)
qed

section \<open>The queued job\<close>

definition job_of :: "outbox_row \<Rightarrow> worker_job" where
  "job_of x = \<lparr>j_id = o_id x, j_workspace = o_workspace x, j_run = o_run x, j_topic = o_topic x,
     j_payload = validate_payload (o_payload x)\<rparr>"

lemma queued_standard_run:
  assumes inv: "sys_inv s" and q: "queue_tenant_run env r agent req s = Inr s'"
  shows "find_run (r_id r) s' = Some r" "tenant_job env r agent \<in> set (outbox s')" "find_receipt (tx_uuid env 3) s' = None"
  using q
proof (atomize (full), rule queue_tenant_runE)
  fix s1 s2 s3
  assume 1: "insert_run r s = Inr s1" and 2: "insert_task (first_task env r) s1 = Inr s2"
    and 3: "insert_first_event env (r_workspace r) (r_id r) ''run.queued''
       [(''request_id'', JStr req), (''agent_kind'', JStr ''standard'')] s2 = Inr s3"
    and 4: "insert_outbox (tenant_job env r agent) s3 = Inr s'"
  have same: "agent_runs s3 = agent_runs s1" "outbox s3 = outbox s" "receipts s3 = receipts s"
    using 1 queue_tables(1)[OF 2] queue_tables(2)[OF 3] by (auto simp: insert_run_Inr)
  have s': "s' = s3\<lparr>outbox := outbox s3 @ [tenant_job env r agent]\<rparr>" and fresh: "\<forall>x \<in> set (outbox s3). o_id x \<noteq> tx_uuid env 3"
    using 4 by (auto simp: insert_outbox_def sql_exists_iff tenant_job_def split: if_splits)
  have "find_run (r_id r) s' = Some r" by (rule queued_run_found[OF 1]) (simp add: s' same)
  moreover have "find_receipt (tx_uuid env 3) s' = None"
    using run_invD(4)[OF sys_invD(1)[OF inv]] fresh
    by (auto simp: find_receipt_def find_None_iff s' same linked_def known_job_def)
  ultimately show "find_run (r_id r) s' = Some r \<and> tenant_job env r agent \<in> set (outbox s') \<and> find_receipt (tx_uuid env 3) s' = None"
    by (simp add: s')
qed

section \<open>A sample run\<close>

text \<open>The contract of the sample's only tool, over any database without tools; its hash stays a symbol.\<close>

lemma task_schema_self: "py_eq (JObj task_create_schema) (JObj task_create_schema)"
  by code_simp

lemma sample_tool:
  assumes "tool_definitions s = []" "tool_policies s = []"
  shows "\<exists>rc s'. run_contracts_of env k cfg pr 10 m (sample_manifest v) bs settings s = Inr (rc, s') \<and>
    rn_aliases rc = [(''nexora.tasks.create'', tk_name (task_contract ''nexora.tasks.create''))] \<and>
    (\<exists>ts ps. s' = s\<lparr>tool_definitions := ts, tool_policies := ps\<rparr>)"
proof -
  let ?c = "task_contract ''nexora.tasks.create''"
  let ?t = "contract_row env k pr 10 ?c"
  have plan: "plan_tool cfg 10 m (sample_manifest v) bs settings ''nexora.tasks.create'' = Governed ?c None None"
    by (simp add: plan_tool_def)
  have ins: "insert_tool ?t s = Inr (s\<lparr>tool_definitions := [?t]\<rparr>)"
    using assms(1) by (simp add: insert_tool_def find_tool_def sql_exists_def)
  have found: "find_tool 10 (tk_name ?c) (s\<lparr>tool_definitions := [?t]\<rparr>) = Some ?t"
    by (simp add: find_tool_def contract_row_def)
  have match: "contract_matches ?c ?t"
    using task_schema_self by (simp add: contract_matches_def contract_row_def task_contract_def Let_def)
  have on: "t_enabled ?t" by (simp add: contract_row_def)
  have reg: "register_tool env k pr 10 b ?c s = Inr (True, insert_policy env pr ?c ?t (s\<lparr>tool_definitions := [?t]\<rparr>))" for b
    unfolding register_tool_def ins bind_res_simps found option.case using match on by simp
  have tools: "mf_required_tools (sample_manifest v) @ mf_optional_tools (sample_manifest v) = [''nexora.tasks.create'']"
    by (simp add: sample_manifest_def)
  have "run_contracts_of env k cfg pr 10 m (sample_manifest v) bs settings s =
      Inr (govern_tool ''nexora.tasks.create'' ?c None None no_contracts, insert_policy env pr ?c ?t (s\<lparr>tool_definitions := [?t]\<rparr>))"
    unfolding run_contracts_of_def tools by (simp only: add_tools.simps add_tool_def plan Let_def tool_plan.case reg bind_res_simps prod.case if_True)
  then show ?thesis
    using assms by (simp add: govern_tool_def no_contracts_def insert_policy_def sql_exists_def) blast
qed

definition standard_store :: store where
  "standard_store = (bound_market [sample_binding] [sample_event None 12 Installed 0],
     with_instance queued_db (sample_instance Active None 12))"

lemma standard_store_ok: "platform_ok standard_store"
proof -
  let ?m = "bound_market [sample_binding] [sample_event None 12 Installed 0]"
  let ?s = "with_instance queued_db (sample_instance Active None 12)"
  have m: "rollouts ?m = rollouts (sample_market 100)" "catalog_agents ?m = catalog_agents (sample_market 100)"
    by (simp_all add: bound_market_def sample_store_def sample_market_def)
  have "catalogue_ok ?m = catalogue_ok (sample_market 100)"
    by (rule catalogue_cong) (simp_all add: m sample_market_def)
  then have cat: "catalogue_ok ?m" using sample_market_ok[of 100] by simp
  have "admin_frame queued_db ?s"
    by (rule admin_frameI[where as = "agent_definitions queued_db" and tds = "tool_definitions queued_db"
          and tps = "tool_policies queued_db" and xs = "[]"]) simp
  then have sys: "sys_inv ?s" using admin_frame_committed[OF queued_db_sys] by (simp add: committed_def)
  have inst: "instances_ok ?s"
    by (simp add: instances_ok_def named_def instance_check_def sample_instance_def btrim_def length_between_def)
  have rel: "release_of ?m 1 12" by (simp add: release_of_def market_defs)
  have "pins_ok ?m ?s" using rel by (simp add: pins_ok_def sample_event_def) (simp add: sample_instance_def)
  moreover have "bound_within ?m ?s sample_binding"
    by (simp add: bound_within_def) (simp add: sample_binding_def sample_connection_def sample_instance_def)
  ultimately have "placed (?m, ?s)" using inst by (simp add: placed_def)
  with cat sys show ?thesis by (simp add: platform_ok_def standard_store_def)
qed

lemma sample_queue:
  assumes "agent_runs s = [sample_run]" "outbox s = [sample_outbox]" "run_tasks s = []" "run_events s = []"
  shows "\<exists>s'. queue_tenant_run (env_at 0 90) (new_tenant_run (env_at 0 90) alice 10 60 (run_snapshot row mf bs rc) ''go'' ''other-key'')
    60 ''r'' s = Inr s'"
proof -
  let ?r = "new_tenant_run (env_at 0 90) alice 10 60 (run_snapshot row mf bs rc) ''go'' ''other-key''"
  have "run_row_check ?r" by (simp add: run_row_check_def new_tenant_run_def run_snapshot_def Let_def)
  then have 1: "insert_run ?r s = Inr (s\<lparr>agent_runs := [sample_run, ?r]\<rparr>)"
    unfolding insert_run_Inr by (simp add: assms new_tenant_run_def sample_run_def env_at_def)
  have "task_row_check (first_task (env_at 0 90) ?r)"
    by (simp add: task_row_check_def first_task_def new_tenant_run_def length_between_def btrim_def tenant_fingerprint_def)
  then have 2: "insert_task (first_task (env_at 0 90) ?r) t = Inr (t\<lparr>run_tasks := [first_task (env_at 0 90) ?r]\<rparr>)"
    if "run_tasks t = []" for t
    using that by (simp add: insert_task_def sql_exists_def)
  show ?thesis
    unfolding queue_tenant_run_def 1 bind_res_simps 2[of "s\<lparr>agent_runs := [sample_run, ?r]\<rparr>", simplified, OF assms(3)]
    by (simp add: assms insert_first_event_def sql_exists_def insert_outbox_def tenant_job_def sample_outbox_def)
      (simp add: env_at_def)
qed

lemma sample_tenant_run:
  "\<exists>v st'. create_tenant_run (env_at 0 90) cfg alice 10 60 ''go'' ''other-key'' ''r'' standard_store = Inr ((v, True), st')"
proof -
  let ?m = "bound_market [sample_binding] [sample_event None 12 Installed 0]"
  let ?s = "with_instance queued_db (sample_instance Active None 12)"
  let ?row = "\<lparr>ir_agent = sample_instance Active None 12, ir_slug = ''seo'', ir_version = ''1.1.0''\<rparr>"
  have sc: "\<exists>x. scoped alice 10 RunAgents queued_db = Inr x"
    by (simp add: scoped_def find_workspace_def member_role_def authorize_def all_permissions_def sample_defs)
  then obtain x where sc: "scoped alice 10 RunAgents queued_db = Inr x" by blast
  have ready: "rd_ready (readiness (sample_manifest ''1.1.0'') (agent_bindings 10 60 ?m))" by (rule sample_ready) simp_all
  have st: "ta_status (sample_instance Active None 12) = Active" "ta_settings (sample_instance Active None 12) = []"
    by (simp_all add: sample_instance_def)
  have go: "\<not> (ta_status (sample_instance Active None 12) \<noteq> Active \<or>
      \<not> rd_ready (readiness (sample_manifest ''1.1.0'') (agent_bindings 10 60 ?m)))" using st ready by blast
  obtain rc s1 ts ps where c: "run_contracts_of (env_at 0 90) 10 cfg alice 10 ?m (sample_manifest ''1.1.0'') (agent_bindings 10 60 ?m) [] ?s = Inr (rc, s1)"
    and s1: "s1 = ?s\<lparr>tool_definitions := ts, tool_policies := ps\<rparr>"
    using sample_tool[of ?s "env_at 0 90" 10 cfg alice ?m "''1.1.0''" "agent_bindings 10 60 ?m" "[]"]
    by (auto simp: queued_db_def empty_db_def)
  have new: "find (same_request alice 10 ''other-key'') (agent_runs s1) = None"
    by (simp add: s1 same_request_def sample_defs)
  obtain s2 where q: "queue_tenant_run (env_at 0 90) (new_tenant_run (env_at 0 90) alice 10 60
      (run_snapshot ?row (sample_manifest ''1.1.0'') (agent_bindings 10 60 ?m) rc) ''go'' ''other-key'') 60 ''r'' s1 = Inr s2"
    using sample_queue[of s1 ?row "sample_manifest ''1.1.0''" "agent_bindings 10 60 ?m" rc]
    by (auto simp: s1 queued_db_def empty_db_def)
  show ?thesis
    unfolding create_tenant_run_def standard_store_def Let_def fst_conv snd_conv scoped_instances sc bind_res_simps sample_row_12
      instance_row.simps sample_pin sample_pinned if_not_P[OF go] st(2) c prod.case new option.case q
    by blast
qed

section \<open>Properties\<close>





end
