(* ===== verification/Spec2Isabelle.thy ===== *)
theory Spec2Isabelle
  imports Run_Properties Tool_Properties Spend_Properties Rag_Properties Executor_Properties
    Retrieval_Properties System_Properties Pass_Properties Task_Properties Alert_Properties
    Catalog_Properties Platform_Properties Tenant_Run_Properties
begin

text \<open>
  Verification of the Nexora AgentOS API, \<open>src/apps/api/src/nexora_api\<close> (Python files are named relative to
  that directory, migrations are those of \<open>src/db/migrations\<close>).

  \<^bold>\<open>The program.\<close> Workspaces own agents. A run of an agent is a row that workers move through a life cycle:
  the API queues it with a job in an outbox, a relay publishes the job, a worker claims it under a lease,
  the executor asks a model provider for steps and runs the tools they name through a gateway that checks
  policies, approvals and budgets, and the worker settles the attempt. Every shared fact is in one
  PostgreSQL database; processes may crash between any two transactions. Beside the custom agents of a
  workspace there is a catalogue of standard agents with immutable versions and staged rollouts, which
  workspaces install, bind to their connections, update, roll back and run.

  \<^bold>\<open>How it is modelled.\<close> A table is the list of its rows (\<open>Prelude\<close>), a row is a record with the columns of
  the migrations (\<open>Schema\<close>, \<open>Market\<close>), constraints, keys and triggers are branches of the writes. A
  transaction is a function from the database to an error or an answer with the new database; an error
  leaves the database as it was. Identifiers and instants a transaction draws are in its environment
  \<open>txenv\<close>. A program of many transactions (executor, gateway, relay, worker) runs in a \<open>world\<close> that may
  commit anything between two of them and says what providers, tool servers and the stream answered
  (\<open>Effects\<close>). JSON values are what Python holds of them (\<open>Json\<close>); a UUID is a 128-bit word, an instant an
  integer number of microseconds, Python's integers are \<open>int\<close>.

  \<^bold>\<open>Theories and the code they model.\<close>
  \<^item> \<open>Prelude\<close>, \<open>Sha256\<close>, \<open>Json\<close>, \<open>Python_Text\<close>, \<open>Text_Patterns\<close>, \<open>Web_Address\<close>: errors and results, SQL on
    lists, SHA-256, Python's JSON values and their comparison, \<open>str\<close> and \<open>strip\<close>, regular expressions matched by
    derivatives, URL checks. \<open>Paging\<close>: the keyset pages of every listing, and that walking them yields every
    row once.
  \<^item> \<open>Workspaces\<close>: roles, permissions, members, audit (\<open>workspaces.py\<close>, \<open>workspace_repository.py\<close>).
    \<open>Agent_Runtime\<close>: custom agents, creation and cancellation of runs (\<open>agent_repository.py\<close>, \<open>run_results.py\<close>).
  \<^item> \<open>Run_Events\<close>, \<open>Run_State\<close>: the journal of a run and the store of its state (\<open>runtime_events.py\<close>,
    \<open>run_state.py\<close>): claim, heartbeat fence, success, failure with retry, parking, recovery. \<open>Outbox\<close>: the relay
    (\<open>outbox.py\<close>). \<open>Execution_Fence\<close>: the check every later write passes (\<open>execution_fence.py\<close>).
  \<^item> \<open>Tool_Contracts\<close>, \<open>Tool_Governance\<close>: schemas, canonical digests, tools, policies, calls and approvals
    (\<open>tool_contracts.py\<close>, \<open>tool_repository.py\<close>). \<open>Mcp_Gateway\<close>: one governed call (\<open>mcp_gateway.py\<close>). \<open>Run_Tasks\<close>: the
    follow-up tasks a model plans (\<open>task_repository.py\<close>, \<open>task_mcp.py\<close>).
  \<^item> \<open>Spend\<close>: prices, the ledger, budgets and alerts (\<open>spend.py\<close>, \<open>spend_repository.py\<close>). \<open>Alert_Delivery\<close>: the
    notifier (\<open>spend_alert_worker.py\<close>).
  \<^item> \<open>Rag\<close>, \<open>Model_Routing\<close>, \<open>Executor_Store\<close>, \<open>Executor\<close>, \<open>Worker\<close>: chunking and evidence (\<open>rag.py\<close>), the choice
    of a model (\<open>model_routing.py\<close>), the executor's journal and its loop (\<open>executor_store.py\<close>, \<open>executor.py\<close>), a
    pass of the worker (\<open>worker.py\<close>).
  \<^item> \<open>Agent_Manifest\<close>, \<open>Integration_Manifest\<close>, \<open>Market\<close>, \<open>Agent_Catalog\<close>: the contracts of agents and connectors
    (\<open>agent_manifest.py\<close>, \<open>integration_manifest.py\<close>), the tables of migration 016, the catalogue with its
    rollouts and the version a workspace is offered (\<open>agent_catalog_repository.py\<close>, \<open>platform_admin.py\<close>).
  \<^item> \<open>Tenant_Agents\<close>, \<open>Tenant_Runs\<close>: installed agents with bindings, readiness, version moves, forks and
    automatic updates, and the creation of their runs (\<open>tenant_agent_repository.py\<close>).

  \<^bold>\<open>What is shown.\<close> \<open>PROJECT.json\<close> lists the main properties; the groups of lemmas behind them are:
  \<^item> \<open>Run_Leases\<close>, \<open>Run_Safety\<close>, \<open>Run_Recovery\<close>, \<open>Run_Contract\<close>, \<open>Run_Properties\<close>: one receipt at most processes a run
    and its worker holds the lease; every transaction keeps that, moves a run along the life cycle
    \<open>life\<close>, and returns; failures are retried a bounded number of times; recovered runs can be claimed.
  \<^item> \<open>Tool_Invariants\<close>, \<open>Tool_Safety\<close>, \<open>Call_Safety\<close>, \<open>Tool_Properties\<close>: calls and approvals agree, no trigger
    rejects a write, a call starts only when authorised, results are written once and replayed.
  \<^item> \<open>Spend_Ledger\<close>, \<open>Spend_Properties\<close>, \<open>Alert_Properties\<close>: a unit of work is charged once, alerts are exactly
    the crossed thresholds, the overshoot of a budget is bounded, an alert has one sender at a time.
  \<^item> \<open>Executor_Safety\<close>, \<open>Executor_Properties\<close>, \<open>Retrieval_Properties\<close>, \<open>Rag_Properties\<close>: steps survive restarts and
    are charged once, cached answers stay in their scope, a snapshot is reused only while readable.
  \<^item> \<open>Frames\<close>, \<open>Task_Safety\<close>, \<open>System\<close>, \<open>System_Properties\<close>, \<open>Task_Properties\<close>: the transactions of all these
    components as one relation \<open>step\<close>, its invariant, and what no step ever undoes. The locales \<open>run_frame\<close> and
    \<open>tool_frame\<close> are the interfaces by which a component's invariant survives the others' writes.
  \<^item> \<open>Worker_Safety\<close>, \<open>Gateway_Properties\<close>, \<open>Worker_Properties\<close>, \<open>Pass_Properties\<close>: a pass of the worker is a sequence
    of \<open>step\<close>s whatever happens in between (locale \<open>step_closed\<close>), what leaves the process and in which order,
    and bounds on an execution.
  \<^item> \<open>Catalog_Safety\<close>, \<open>Catalog_Offers\<close>, \<open>Catalog_Properties\<close>: releases are valid, increasing and immutable, one
    rollout is active for an agent and channel (locale \<open>row_order\<close>: what a table may change of its rows), and
    what workspaces are offered.
  \<^item> \<open>Tenant_Safety\<close>, \<open>Platform\<close>, \<open>Tenant_History\<close>, \<open>Tenant_Status\<close>, \<open>Tenant_Tools\<close>, \<open>Platform_Properties\<close>,
    \<open>Tenant_Run_Properties\<close>: both halves of the database as one relation \<open>platform_step\<close>; pins, histories
    (locale \<open>pin_order\<close>), bindings and statuses in every reachable state; the tools and the start of standard
    runs.
  \<^item> \<open>Samples\<close>, \<open>Executor_Samples\<close>, \<open>Market_Samples\<close>, \<open>Tenant_Samples\<close>: the concrete data of the witnesses.

  \<^bold>\<open>Termination and bounds.\<close> Recursion is structural or has a measure: the characters left for the chunks of a
  document and for placeholders, the size of schema and value for validation. Only the walk over pages takes
  fuel, one unit per page; \<open>length rows < limit * fuel\<close> is enough, and the lemma says so. The executor's loop
  recurses on the remaining steps of the profile, as the code's \<open>range\<close> does.

  \<^bold>\<open>Parameters.\<close> What the code takes from elsewhere is an argument: the answers of providers, tool servers,
  webhooks and the retriever; vector distances of pgvector; calendar months; Unicode case folding;
  \<open>urlsplit\<close>, \<open>ip_address\<close> and \<open>isoformat\<close>; whether the deployment has a browser runtime; which rows another
  transaction has locked (\<open>SKIP LOCKED\<close>).

  \<^bold>\<open>Not modelled.\<close> Metrics, spans and log lines, which change no state. Foreign keys, which the modelled
  writes satisfy. The order of keys in a \<open>jsonb\<close> value. Characters from 256 on and NUL. Parsing of requests by
  pydantic: an operation takes the parsed record, and the constraints of a manifest's fields are its
  check. The columns migration 016 adds to \<open>agent_definitions\<close> are the table \<open>forks\<close>. Serialisation failures
  and deadlocks, after which a transaction is as if it had not run. The components below have no theory:
  \<^item> ingestion and search of documents (\<open>rag_repository.py\<close>, \<open>knowledge_worker.py\<close> and others) and the
    evaluation suites: SQL over vectors and offline measurement; what the executor reads of their tables is
    modelled;
  \<^item> connections to external services (\<open>integration_repository.py\<close>, \<open>secret_vault.py\<close>, \<open>connector_runtime.py\<close>): in
    \<open>platform_step\<close> their writers are steps that keep a connection's identity, workspace and service;
  \<^item> adapters of third-party protocols, token verification, rate limits, configuration, wiring and routes,
    migrations and release scripts.
\<close>

end
